(* ===== verification/Prelude.thy ===== *)
theory Prelude
  imports Complex_Main "HOL-Library.Char_ord" "HOL-Library.List_Lexorder"
    "HOL-Library.Product_Lexorder" "HOL-Library.Sublist"
begin

section \<open>The Python substrate of the development\<close>

text \<open>
  What every component of the platform takes from the language: values of type
  \<^verbatim>\<open>Any\<close>, insertion-ordered dictionaries, negative slices, truthiness of optional
  strings, results that are an exception or a value together with the state the call left
  behind, and the bounded append-only logs (\<^verbatim>\<open>xs.append(x); if len(xs) > n: xs = xs[-n:]\<close>)
  that three components keep.  The locales at the end are the interfaces the components
  share: an append-only bounded log, a deterministic step system with an invariant, and a component that
  refines a specification.
\<close>

named_theorems dict_simps \<open>rewrite rules of the insertion-ordered dictionaries\<close>
named_theorems log_simps \<open>rewrite rules of the bounded logs\<close>

subsection \<open>Values\<close>

text \<open>
  A string is a list of characters, each standing for one code point below 256; ordering is
  by code point, as Python's \<^verbatim>\<open>str\<close> comparison is.  A float is a rational, an
  infinity or NaN (every finite IEEE double is a rational, and Python compares ints and
  floats exactly).  A \<open>Decimal\<close> is the rational it denotes.  \<open>PStrOf v\<close> is
  the text \<^verbatim>\<open>str(v)\<close> and \<open>PIso t\<close> the text of
  \<^verbatim>\<open>t.isoformat()\<close>, and \<open>PFormat f vs\<close> the text of an f-string with template
  \<open>f\<close>: no rendering is computed, each keeps what it renders.
  A timestamp is a number of microseconds, the resolution of \<^verbatim>\<open>datetime\<close>.
\<close>

datatype pyfloat = Fin rat | PInf | NInf | NaN

type_synonym time = int

datatype pyval =
    PNone
  | PBool bool
  | PInt int
  | PFloat pyfloat
  | PDecimal rat
  | PStr string
  | PStrOf pyval
  | PIso time
  | PFormat string "pyval list"
  | PList "pyval list"
  | PSet "pyval list"
  | PDict "(string \<times> pyval) list"

text \<open>An f-string: its template, format specifications included, and the values it formats.\<close>

datatype pymsg = FStr string "pyval list"

text \<open>
  A call that may raise and that changes an object returns both the outcome and the object
  as the call left it: an exception does not undo the assignments before it.
\<close>

type_synonym ('e, 'a, 's) pyres = "('e + 'a) \<times> 's"

abbreviation (input) py_raise :: "'e \<Rightarrow> 's \<Rightarrow> ('e, 'a, 's) pyres" where
  "py_raise e s \<equiv> (Inl e, s)"

abbreviation (input) py_return :: "'a \<Rightarrow> 's \<Rightarrow> ('e, 'a, 's) pyres" where
  "py_return x s \<equiv> (Inr x, s)"

text \<open>A call after another: an exception of the first ends both.\<close>

abbreviation (input) run_then :: "('e, 'a, 's) pyres \<Rightarrow> ('s \<Rightarrow> ('e, 'b, 's) pyres) \<Rightarrow> ('e, 'b, 's) pyres" where
  "run_then r k \<equiv> (case r of (Inl x, s) \<Rightarrow> (Inl x, s) | (Inr _, s) \<Rightarrow> k s)"

text \<open>One second in the unit of timestamps; \<^verbatim>\<open>timedelta(seconds=n)\<close>.\<close>

definition seconds :: "int \<Rightarrow> time" where
  "seconds n = n * 1000000"

lemma seconds_mono [simp]: "seconds a \<le> seconds b \<longleftrightarrow> a \<le> b"
  by (simp add: seconds_def)

lemma seconds_pos [simp]: "0 < seconds n \<longleftrightarrow> 0 < n" "0 \<le> seconds n \<longleftrightarrow> 0 \<le> n"
  by (simp_all add: seconds_def)

text \<open>Truthiness of an \<^verbatim>\<open>Optional[str]\<close>: \<^verbatim>\<open>None\<close> and the empty string are false.\<close>

definition truthy :: "'a list option \<Rightarrow> bool" where
  "truthy s = (case s of None \<Rightarrow> False | Some t \<Rightarrow> t \<noteq> [])"

lemma truthy_simps [simp]: "\<not> truthy None" "truthy (Some t) \<longleftrightarrow> t \<noteq> []"
  by (simp_all add: truthy_def)

lemma truthyE: "truthy s \<Longrightarrow> (\<And>t. s = Some t \<Longrightarrow> t \<noteq> [] \<Longrightarrow> P) \<Longrightarrow> P"
  by (cases s) auto

text \<open>\<^verbatim>\<open>x or d\<close> for an optional container.\<close>

definition or_else :: "'a list option \<Rightarrow> 'a list \<Rightarrow> 'a list" where
  "or_else s d = (case s of None \<Rightarrow> d | Some t \<Rightarrow> if t = [] then d else t)"

text \<open>
  Truthiness of a value.  A rendered text is true when it is not the text of an empty string (every
  f-string of the sources has literal characters).
\<close>

fun py_truth :: "pyval \<Rightarrow> bool" where
  "py_truth PNone = False"
| "py_truth (PBool b) = b"
| "py_truth (PInt i) = (i \<noteq> 0)"
| "py_truth (PFloat f) = (f \<noteq> Fin 0)"
| "py_truth (PDecimal d) = (d \<noteq> 0)"
| "py_truth (PStr s) = (s \<noteq> [])"
| "py_truth (PStrOf v) = (v \<noteq> PStr [])"
| "py_truth (PIso t) = True"
| "py_truth (PFormat f vs) = True"
| "py_truth (PList vs) = (vs \<noteq> [])"
| "py_truth (PSet vs) = (vs \<noteq> [])"
| "py_truth (PDict kvs) = (kvs \<noteq> [])"

text \<open>\<^verbatim>\<open>type(v).__name__\<close>\<close>

fun type_name :: "pyval \<Rightarrow> string" where
  "type_name PNone = ''NoneType''"
| "type_name (PList _) = ''list''"
| "type_name (PSet _) = ''set''"
| "type_name (PDict _) = ''dict''"
| "type_name (PBool _) = ''bool''"
| "type_name (PInt _) = ''int''"
| "type_name (PFloat _) = ''float''"
| "type_name (PDecimal _) = ''Decimal''"
| "type_name _ = ''str''"

text \<open>\<^verbatim>\<open>s.lower()\<close> on the code points below 256.\<close>

definition lower_char :: "char \<Rightarrow> char" where
  "lower_char c =
     (let n = of_char c :: nat in
      if (65 \<le> n \<and> n \<le> 90) \<or> (192 \<le> n \<and> n \<le> 222 \<and> n \<noteq> 215) then char_of (n + 32) else c)"

definition lower :: "string \<Rightarrow> string" where
  "lower s = map lower_char s"

text \<open>\<^verbatim>\<open>s in t\<close> and \<^verbatim>\<open>t.startswith(s)\<close> for strings.\<close>

fun substring :: "string \<Rightarrow> string \<Rightarrow> bool" where
  "substring s [] = (s = [])"
| "substring s (c # cs) = (prefix s (c # cs) \<or> substring s cs)"

lemma substring_iff: "substring s t \<longleftrightarrow> (\<exists>u v. t = u @ s @ v)"
proof (induction t)
  case Nil
  then show ?case by auto
next
  case (Cons c cs)
  show ?case
  proof
    assume "substring s (c # cs)"
    then consider "prefix s (c # cs)" | "substring s cs" by auto
    then show "\<exists>u v. c # cs = u @ s @ v"
    proof cases
      case 1
      then obtain v where "c # cs = [] @ s @ v" by (auto simp: prefix_def)
      then show ?thesis by blast
    next
      case 2
      then obtain u v where "c # cs = (c # u) @ s @ v" using Cons.IH by auto
      then show ?thesis by blast
    qed
  next
    assume "\<exists>u v. c # cs = u @ s @ v"
    then obtain u v where uv: "c # cs = u @ s @ v" by blast
    show "substring s (c # cs)"
    proof (cases u)
      case Nil
      with uv have "prefix s (c # cs)" by (simp add: prefix_def)
      then show ?thesis by simp
    next
      case (Cons a list)
      with uv have "cs = list @ s @ v" by simp
      then show ?thesis using Cons.IH by auto
    qed
  qed
qed

subsection \<open>Insertion-ordered dictionaries\<close>

text \<open>
  A \<^verbatim>\<open>dict\<close> is the association list of its items in insertion order, without
  duplicate keys.  Assigning an existing key keeps its position, a new key goes last.
\<close>

type_synonym ('k, 'v) dict = "('k \<times> 'v) list"

abbreviation dict_get :: "('k, 'v) dict \<Rightarrow> 'k \<Rightarrow> 'v option" where
  "dict_get \<equiv> map_of"

abbreviation dict_keys :: "('k, 'v) dict \<Rightarrow> 'k list" where
  "dict_keys d \<equiv> map fst d"

abbreviation dict_values :: "('k, 'v) dict \<Rightarrow> 'v list" where
  "dict_values d \<equiv> map snd d"

fun dict_set :: "('k, 'v) dict \<Rightarrow> 'k \<Rightarrow> 'v \<Rightarrow> ('k, 'v) dict" where
  "dict_set [] k v = [(k, v)]"
| "dict_set ((k', v') # d) k v = (if k' = k then (k, v) # d else (k', v') # dict_set d k v)"

definition dict_del :: "('k, 'v) dict \<Rightarrow> 'k \<Rightarrow> ('k, 'v) dict" where
  "dict_del d k = filter (\<lambda>p. fst p \<noteq> k) d"

definition dict_has :: "('k, 'v) dict \<Rightarrow> 'k \<Rightarrow> bool" where
  "dict_has d k = (dict_get d k \<noteq> None)"

definition dict_ok :: "('k, 'v) dict \<Rightarrow> bool" where
  "dict_ok d = distinct (dict_keys d)"

lemma dict_get_set [dict_simps, simp]: "dict_get (dict_set d k v) = (dict_get d)(k \<mapsto> v)"
  by (induction d k v rule: dict_set.induct) auto

lemma dict_get_del [dict_simps, simp]: "dict_get (dict_del d k) = (dict_get d)(k := None)"
proof
  fix x
  show "dict_get (dict_del d k) x = ((dict_get d)(k := None)) x"
    by (induction d) (auto simp: dict_del_def)
qed

lemma dict_has_iff [dict_simps]: "dict_has d k \<longleftrightarrow> k \<in> set (dict_keys d)"
  by (simp add: dict_has_def map_of_eq_None_iff)

lemma dict_has_set [dict_simps, simp]: "dict_has (dict_set d k v) x \<longleftrightarrow> x = k \<or> dict_has d x"
  by (simp add: dict_has_def)

lemma dict_has_del [dict_simps, simp]: "dict_has (dict_del d k) x \<longleftrightarrow> x \<noteq> k \<and> dict_has d x"
  by (simp add: dict_has_def)

lemma dict_has_empty [dict_simps, simp]: "\<not> dict_has [] x"
  by (simp add: dict_has_def)

lemma dict_keys_set [dict_simps]:
  "dict_keys (dict_set d k v) = (if k \<in> set (dict_keys d) then dict_keys d else dict_keys d @ [k])"
  by (induction d k v rule: dict_set.induct) auto

lemma set_dict_keys_set [dict_simps]: "set (dict_keys (dict_set d k v)) = insert k (set (dict_keys d))"
  by (auto simp: dict_keys_set)

lemma dict_keys_del [dict_simps]: "dict_keys (dict_del d k) = filter (\<lambda>x. x \<noteq> k) (dict_keys d)"
  by (induction d) (auto simp: dict_del_def)

lemma dict_ok_empty [dict_simps, simp]: "dict_ok []"
  by (simp add: dict_ok_def)

lemma dict_ok_set [dict_simps, intro]: "dict_ok d \<Longrightarrow> dict_ok (dict_set d k v)"
  by (simp add: dict_ok_def dict_keys_set)

lemma dict_ok_del [dict_simps, intro]: "dict_ok d \<Longrightarrow> dict_ok (dict_del d k)"
  by (simp add: dict_ok_def dict_keys_del)

lemma dict_set_new: "dict_get d k = None \<Longrightarrow> dict_set d k v = d @ [(k, v)]"
  by (induction d k v rule: dict_set.induct) (auto split: if_splits)

lemma set_dict_set_subset: "set (dict_set d k v) \<subseteq> insert (k, v) (set d)"
  by (induction d k v rule: dict_set.induct) auto

lemma dict_ok_get_iff: "dict_ok d \<Longrightarrow> dict_get d k = Some v \<longleftrightarrow> (k, v) \<in> set d"
  by (simp add: dict_ok_def)

lemma set_dict_set: "dict_ok d \<Longrightarrow> set (dict_set d k v) = insert (k, v) {p \<in> set d. fst p \<noteq> k}"
proof -
  assume ok: "dict_ok d"
  have "(a, b) \<in> set (dict_set d k v) \<longleftrightarrow> (a, b) \<in> insert (k, v) {p \<in> set d. fst p \<noteq> k}" for a b
  proof -
    have "(a, b) \<in> set (dict_set d k v) \<longleftrightarrow> ((dict_get d)(k \<mapsto> v)) a = Some b"
      using dict_ok_get_iff [OF dict_ok_set [OF ok, of k v], of a b] by simp
    also have "\<dots> \<longleftrightarrow> (if a = k then b = v else (a, b) \<in> set d)"
      using dict_ok_get_iff [OF ok, of a b] by auto
    finally show ?thesis by auto
  qed
  then show ?thesis by auto
qed

text \<open>\<^verbatim>\<open>{**d, **e}\<close>\<close>

definition put_all :: "('k, 'v) dict \<Rightarrow> ('k, 'v) dict \<Rightarrow> ('k, 'v) dict" where
  "put_all d e = foldl (\<lambda>d kv. dict_set d (fst kv) (snd kv)) d e"

subsection \<open>Slices and bounded logs\<close>

text \<open>\<^verbatim>\<open>xs[i:]\<close>: a negative \<open>i\<close> counts from the end and is clipped at the start.\<close>

definition slice_from :: "'a list \<Rightarrow> int \<Rightarrow> 'a list" where
  "slice_from xs i =
     (if i < 0 then drop (nat (max 0 (int (length xs) + i))) xs else drop (nat i) xs)"

lemma slice_from_neg: "0 < n \<Longrightarrow> slice_from xs (- n) = drop (length xs - nat n) xs"
  by (simp add: slice_from_def nat_diff_distrib' max_def)

lemma slice_from_zero [simp]: "slice_from xs 0 = xs"
  by (simp add: slice_from_def)

text \<open>SQL's \<^verbatim>\<open>LIMIT n\<close>: a negative limit is none.\<close>

definition limit_rows :: "int \<Rightarrow> 'a list \<Rightarrow> 'a list" where
  "limit_rows n xs = (if n < 0 then xs else take (nat n) xs)"

text \<open>\<^verbatim>\<open>xs.append(x); if len(xs) > cap: xs = xs[-cap:]\<close>\<close>

definition append_trim :: "int \<Rightarrow> 'a list \<Rightarrow> 'a \<Rightarrow> 'a list" where
  "append_trim cap xs x =
     (let ys = xs @ [x] in if int (length ys) > cap then slice_from ys (- cap) else ys)"

lemma append_trim_short [log_simps]:
  "int (length xs) < cap \<Longrightarrow> append_trim cap xs x = xs @ [x]"
  by (simp add: append_trim_def)

lemma append_trim_full [log_simps]:
  "0 < cap \<Longrightarrow> int (length xs) = cap \<Longrightarrow> append_trim cap xs x = tl xs @ [x]"
  by (cases xs) (auto simp: append_trim_def Let_def slice_from_neg Suc_diff_le nat_add_distrib)

lemma append_trim_suffix: "suffix (append_trim cap xs x) (xs @ [x])"
  by (auto simp: append_trim_def Let_def slice_from_def suffix_drop)

lemma append_trim_subset: "set (append_trim cap xs x) \<subseteq> insert x (set xs)"
  using set_mono_suffix [OF append_trim_suffix, of cap xs x] by auto

lemma append_trim_length:
  "0 < cap \<Longrightarrow> int (length xs) \<le> cap \<Longrightarrow> int (length (append_trim cap xs x)) \<le> cap"
  by (auto simp: append_trim_def Let_def slice_from_neg)

lemma append_trim_last:
  assumes "0 < cap"
  shows "append_trim cap xs x \<noteq> [] \<and> last (append_trim cap xs x) = x"
proof -
  have "append_trim cap xs x = drop (length (xs @ [x]) - nat cap) (xs @ [x])
      \<or> append_trim cap xs x = xs @ [x]"
    using assms by (auto simp: append_trim_def Let_def slice_from_neg)
  with assms show ?thesis by (auto simp: last_drop)
qed

text \<open>
  A capacity of zero never trims: \<^verbatim>\<open>xs[-0:]\<close> is the whole list, so the log grows
  without bound.
\<close>

lemma append_trim_zero: "append_trim 0 xs x = xs @ [x]"
  by (simp add: append_trim_def)

subsection \<open>Interface: a bounded log\<close>

text \<open>
  What a client of a bounded log relies on: the newest entry is kept, nothing but the newest
  entry is added, and the length stays within the capacity.
\<close>

locale bounded_log =
  fixes push :: "'a list \<Rightarrow> 'a \<Rightarrow> 'a list"
    and cap :: int
  assumes push_suffix: "suffix (push xs x) (xs @ [x])"
    and push_last: "push xs x \<noteq> [] \<and> last (push xs x) = x"
    and push_length: "int (length xs) \<le> cap \<Longrightarrow> int (length (push xs x)) \<le> cap"
begin

lemma push_member: "x \<in> set (push xs x)"
  using push_last [of xs x] last_in_set by metis

lemma push_subset: "set (push xs x) \<subseteq> insert x (set xs)"
  using set_mono_suffix [OF push_suffix, of xs x] by auto

lemma pushes_length: "int (length xs) \<le> cap \<Longrightarrow> int (length (foldl push xs ys)) \<le> cap"
  by (induction ys arbitrary: xs) (auto intro: push_length)

lemma pushes_suffix: "suffix (foldl push xs ys) (xs @ ys)"
proof (induction ys rule: rev_induct)
  case Nil
  then show ?case by simp
next
  case (snoc y ys)
  have "suffix (push (foldl push xs ys) y) (foldl push xs ys @ [y])" by (rule push_suffix)
  moreover have "suffix (foldl push xs ys @ [y]) ((xs @ ys) @ [y])"
    using snoc.IH by (auto simp: suffix_def)
  ultimately have "suffix (push (foldl push xs ys) y) ((xs @ ys) @ [y])"
    by (rule suffix_order.trans)
  then show ?case by (simp only: foldl_append foldl.simps append_assoc)
qed

end

lemma append_trim_bounded_log: "0 < cap \<Longrightarrow> bounded_log (append_trim cap) cap"
  by unfold_locales (simp_all only: append_trim_suffix append_trim_last append_trim_length simp_thms)

subsection \<open>Interface: a deterministic component with an invariant\<close>

text \<open>
  A component is a start predicate, a step for every operation a client may call, and a
  well-formedness predicate that the start has and every operation keeps; then every state
  any sequence of calls leads to has it.
\<close>

locale step_system =
  fixes init :: "'s \<Rightarrow> bool"
    and step :: "'s \<Rightarrow> 'l \<Rightarrow> 's"
    and inv :: "'s \<Rightarrow> bool"
  assumes inv_init: "init s \<Longrightarrow> inv s"
    and inv_step: "inv s \<Longrightarrow> inv (step s l)"
begin

lemma inv_run: "inv s \<Longrightarrow> inv (foldl step s ls)"
  by (induction ls arbitrary: s) (auto intro: inv_step)

lemma inv_reachable: "init s \<Longrightarrow> inv (foldl step s ls)"
  by (rule inv_run [OF inv_init])

end

text \<open>What calls of some kind keep, a run of such calls keeps.\<close>

lemma run_inv:
  "J s \<Longrightarrow> (\<And>s l. J s \<Longrightarrow> ok l \<Longrightarrow> J (step s l)) \<Longrightarrow> \<forall>l \<in> set ls. ok l \<Longrightarrow> J (foldl step s ls)"
  by (induction ls arbitrary: s) auto

subsection \<open>Interface: a component that refines a specification\<close>

text \<open>
  A relation between the states of a component and of its specification that every operation keeps:
  then it holds after any calls.
\<close>

locale simulation =
  fixes cstep :: "'c \<Rightarrow> 'l \<Rightarrow> 'c"
    and astep :: "'a \<Rightarrow> 'l \<Rightarrow> 'a"
    and rel :: "'c \<Rightarrow> 'a \<Rightarrow> bool"
  assumes sim_step: "rel c a \<Longrightarrow> rel (cstep c l) (astep a l)"
begin

lemma sim_run: "rel c a \<Longrightarrow> rel (foldl cstep c ls) (foldl astep a ls)"
  by (induction ls arbitrary: c a) (auto intro: sim_step)

end

end
