(* ===== verification/State_Machines.thy ===== *)
theory State_Machines
  imports Prelude
begin

section \<open>Deployment and run state machines\<close>

text \<open>
  Model of \<^verbatim>\<open>ccea/models/state_machines.py\<close> and of the enumerations it takes from
  \<^verbatim>\<open>ccea/models/protocol.py\<close>: the abstract \<^verbatim>\<open>StateMachine\<close> (transition
  table, history, idempotency keys, approval gate, guards), the two concrete tables
  (\<^verbatim>\<open>DeploymentStateMachine\<close>, \<^verbatim>\<open>RunStateMachine\<close>) and the
  \<^verbatim>\<open>StateMachineManager\<close>.  The subclass \<^verbatim>\<open>RunStateMachine\<close> is a record
  extension, so every operation of the base class is one definition for both.
\<close>

subsection \<open>Enumerations\<close>

datatype RunState = RS_INITIALIZING | RS_RUNNING | RS_PAUSED | RS_HALTED | RS_STOPPED

datatype DeploymentState =
    DS_CREATED | DS_PENDING | DS_ENROLLED | DS_RUNNING | DS_PAUSED | DS_STOPPED
  | DS_REVOKED | DS_TERMINATED

datatype ChangeClass = TRADING_IMPACTING | NON_TRADING_IMPACTING

fun RunState_value :: "RunState \<Rightarrow> string" where
  "RunState_value RS_INITIALIZING = ''INITIALIZING''"
| "RunState_value RS_RUNNING = ''RUNNING''"
| "RunState_value RS_PAUSED = ''PAUSED''"
| "RunState_value RS_HALTED = ''HALTED''"
| "RunState_value RS_STOPPED = ''STOPPED''"

fun DeploymentState_value :: "DeploymentState \<Rightarrow> string" where
  "DeploymentState_value DS_CREATED = ''CREATED''"
| "DeploymentState_value DS_PENDING = ''PENDING''"
| "DeploymentState_value DS_ENROLLED = ''ENROLLED''"
| "DeploymentState_value DS_RUNNING = ''RUNNING''"
| "DeploymentState_value DS_PAUSED = ''PAUSED''"
| "DeploymentState_value DS_STOPPED = ''STOPPED''"
| "DeploymentState_value DS_REVOKED = ''REVOKED''"
| "DeploymentState_value DS_TERMINATED = ''TERMINATED''"

fun ChangeClass_value :: "ChangeClass \<Rightarrow> string" where
  "ChangeClass_value TRADING_IMPACTING = ''TRADING_IMPACTING''"
| "ChangeClass_value NON_TRADING_IMPACTING = ''NON_TRADING_IMPACTING''"

subsection \<open>Exceptions, transitions, records\<close>

text \<open>
  The state names in \<^verbatim>\<open>InvalidTransitionError\<close> are the enum values the message
  prints.  A guard is a named callable on the keyword arguments of \<^verbatim>\<open>trigger\<close>; it
  returns a truth value or raises, and the code treats its own
  \<^verbatim>\<open>GuardConditionFailedError\<close> differently from any other exception.  An action is a
  callable on the metadata that succeeds or raises; either way the transition proceeds.
\<close>

datatype sm_error =
    InvalidTransitionError (cur_value: string) (target_value: string) (err_event: string)
  | GuardConditionFailedError (guard_message: string) (guard_name: string)
  | Duplicate_transition string string
  | Deployment_exists string
  | Run_exists string
  | Deployment_not_found string
  | KeyError string

datatype guard_outcome =
    Guard_returns bool
  | Guard_raises_failed string string
  | Guard_raises_other string

record ('st, 'kw) StateTransition =
  from_state :: 'st
  to_state :: 'st
  tr_event :: string
  tr_guard :: "(string \<times> ('kw \<Rightarrow> guard_outcome)) option"
  tr_action :: "((string, pyval) dict \<Rightarrow> bool) option"
  requires_approval :: bool
  change_class :: "ChangeClass option"

record TransitionRecord =
  rec_from_state :: string
  rec_to_state :: string
  rec_event :: string
  rec_timestamp :: time
  rec_metadata :: "(string, pyval) dict"
  rec_approved_by :: "string option"
  rec_idempotency_key :: "string option"

record ('st, 'kw) StateMachine =
  sm_current_state :: 'st
  sm_entity_id :: string
  sm_max_history :: int
  sm_history :: "TransitionRecord list"
  sm_transitions :: "('st \<times> string, ('st, 'kw) StateTransition) dict"
  sm_pending_approval :: "('st, 'kw) StateTransition option"

record ('st, 'kw) RunMachine = "('st, 'kw) StateMachine" +
  rm_deployment_id :: string

type_synonym 'kw deployment_machine = "(DeploymentState, 'kw) StateMachine"
type_synonym 'kw run_machine = "(RunState, 'kw) RunMachine"

text \<open>A transition with the defaults of the dataclass, and one that is gated by approval.\<close>

definition plain_transition :: "'st \<Rightarrow> 'st \<Rightarrow> string \<Rightarrow> ('st, 'kw) StateTransition" where
  "plain_transition f t e = \<lparr>from_state = f, to_state = t, tr_event = e, tr_guard = None,
     tr_action = None, requires_approval = False, change_class = None\<rparr>"

definition approval_transition :: "'st \<Rightarrow> 'st \<Rightarrow> string \<Rightarrow> ('st, 'kw) StateTransition" where
  "approval_transition f t e = (plain_transition f t e)
     \<lparr>requires_approval := True, change_class := Some TRADING_IMPACTING\<rparr>"

subsection \<open>The abstract state machine\<close>

definition add_transition ::
  "('st \<Rightarrow> string) \<Rightarrow> ('st, 'kw, 'z) StateMachine_scheme \<Rightarrow> ('st, 'kw) StateTransition \<Rightarrow>
   (sm_error, unit, ('st, 'kw, 'z) StateMachine_scheme) pyres" where
  "add_transition val sm t =
     (let key = (from_state t, tr_event t) in
      if dict_has (sm_transitions sm) key
      then py_raise (Duplicate_transition (val (from_state t)) (tr_event t)) sm
      else py_return () (sm\<lparr>sm_transitions := dict_set (sm_transitions sm) key t\<rparr>))"

text \<open>The statements of a \<^verbatim>\<open>_register_transitions\<close> body, run in order.\<close>

fun register_transitions ::
  "('st \<Rightarrow> string) \<Rightarrow> ('st, 'kw) StateTransition list \<Rightarrow> ('st, 'kw, 'z) StateMachine_scheme \<Rightarrow>
   (sm_error, unit, ('st, 'kw, 'z) StateMachine_scheme) pyres" where
  "register_transitions val [] sm = py_return () sm"
| "register_transitions val (t # ts) sm =
     (case add_transition val sm t of
        (Inl e, sm') \<Rightarrow> (Inl e, sm')
      | (Inr _, sm') \<Rightarrow> register_transitions val ts sm')"

definition can_transition :: "('st, 'kw, 'z) StateMachine_scheme \<Rightarrow> string \<Rightarrow> bool" where
  "can_transition sm event = dict_has (sm_transitions sm) (sm_current_state sm, event)"

definition get_available_events :: "('st, 'kw, 'z) StateMachine_scheme \<Rightarrow> string set" where
  "get_available_events sm =
     set (map snd (filter (\<lambda>k. fst k = sm_current_state sm) (dict_keys (sm_transitions sm))))"

definition get_valid_transitions ::
  "('st, 'kw, 'z) StateMachine_scheme \<Rightarrow> ('st, 'kw) StateTransition list" where
  "get_valid_transitions sm =
     map snd (filter (\<lambda>p. fst (fst p) = sm_current_state sm) (sm_transitions sm))"

definition add_history ::
  "('st, 'kw, 'z) StateMachine_scheme \<Rightarrow> TransitionRecord \<Rightarrow> ('st, 'kw, 'z) StateMachine_scheme" where
  "add_history sm r = sm\<lparr>sm_history := append_trim (sm_max_history sm) (sm_history sm) r\<rparr>"

definition is_duplicate :: "('st, 'kw, 'z) StateMachine_scheme \<Rightarrow> string \<Rightarrow> bool" where
  "is_duplicate sm k = (\<exists>r \<in> set (sm_history sm). rec_idempotency_key r = Some k)"

definition has_pending_approval :: "('st, 'kw, 'z) StateMachine_scheme \<Rightarrow> bool" where
  "has_pending_approval sm = (sm_pending_approval sm \<noteq> None)"

text \<open>The guard check: \<^verbatim>\<open>None\<close> when the transition may go on.\<close>

definition guard_failure :: "('st, 'kw) StateTransition \<Rightarrow> 'kw \<Rightarrow> sm_error option" where
  "guard_failure t kw =
     (case tr_guard t of
        None \<Rightarrow> None
      | Some (nm, g) \<Rightarrow>
          (case g kw of
             Guard_returns True \<Rightarrow> None
           | Guard_returns False \<Rightarrow>
               Some (GuardConditionFailedError ''Guard condition returned False'' nm)
           | Guard_raises_failed msg nm' \<Rightarrow> Some (GuardConditionFailedError msg nm')
           | Guard_raises_other msg \<Rightarrow> Some (GuardConditionFailedError msg nm)))"

text \<open>
  \<^verbatim>\<open>trigger\<close>: \<open>now\<close> is the clock reading of the history record.  The value of
  the action plays no part: its failure is logged and the transition proceeds.
\<close>

definition trigger ::
  "('st \<Rightarrow> string) \<Rightarrow> time \<Rightarrow> ('st, 'kw, 'z) StateMachine_scheme \<Rightarrow> string \<Rightarrow>
   (string, pyval) dict option \<Rightarrow> string option \<Rightarrow> string option \<Rightarrow> 'kw \<Rightarrow>
   (sm_error, 'st, ('st, 'kw, 'z) StateMachine_scheme) pyres" where
  "trigger val now sm event metadata idempotency_key approved_by guard_kwargs =
     (if truthy idempotency_key \<and> is_duplicate sm (the idempotency_key)
      then py_return (sm_current_state sm) sm
      else
        (case dict_get (sm_transitions sm) (sm_current_state sm, event) of
           None \<Rightarrow>
             py_raise (InvalidTransitionError (val (sm_current_state sm))
               (val (sm_current_state sm)) event) sm
         | Some transition \<Rightarrow>
             if requires_approval transition \<and> \<not> truthy approved_by
             then py_raise
               (GuardConditionFailedError ''Approval required for this transition''
                  ''approval_required'')
               (sm\<lparr>sm_pending_approval := Some transition\<rparr>)
             else
               (case guard_failure transition guard_kwargs of
                  Some err \<Rightarrow> py_raise err sm
                | None \<Rightarrow>
                    (let r = \<lparr>rec_from_state = val (sm_current_state sm),
                              rec_to_state = val (to_state transition),
                              rec_event = event, rec_timestamp = now,
                              rec_metadata = or_else metadata [],
                              rec_approved_by = approved_by,
                              rec_idempotency_key = idempotency_key\<rparr>;
                         sm1 = add_history sm r;
                         sm2 = sm1\<lparr>sm_current_state := to_state transition,
                                   sm_pending_approval := None\<rparr>
                     in py_return (sm_current_state sm2) sm2))))"

definition force_state ::
  "('st \<Rightarrow> string) \<Rightarrow> time \<Rightarrow> ('st, 'kw, 'z) StateMachine_scheme \<Rightarrow> 'st \<Rightarrow> string \<Rightarrow>
   ('st, 'kw, 'z) StateMachine_scheme" where
  "force_state val now sm st reason =
     (let r = \<lparr>rec_from_state = val (sm_current_state sm), rec_to_state = val st,
               rec_event = ''FORCE_STATE'', rec_timestamp = now,
               rec_metadata = [(''reason'', PStr reason), (''admin_override'', PBool True)],
               rec_approved_by = None, rec_idempotency_key = None\<rparr>
      in (add_history sm r)\<lparr>sm_current_state := st\<rparr>)"

definition sm_to_dict ::
  "('st \<Rightarrow> string) \<Rightarrow> ('st, 'kw, 'z) StateMachine_scheme \<Rightarrow> (string, pyval) dict" where
  "sm_to_dict val sm =
     [(''entity_id'', PStr (sm_entity_id sm)),
      (''current_state'', PStr (val (sm_current_state sm))),
      (''has_pending_approval'', PBool (has_pending_approval sm)),
      (''history_count'', PInt (int (length (sm_history sm)))),
      (''available_events'',
         PList (map (PStr \<circ> tr_event) (get_valid_transitions sm)))]"

subsection \<open>The deployment machine\<close>

definition deployment_transitions :: "(DeploymentState, 'kw) StateTransition list" where
  "deployment_transitions =
     [plain_transition DS_CREATED DS_PENDING ''INITIATE_ENROLLMENT'',
      plain_transition DS_PENDING DS_ENROLLED ''COMPLETE_ENROLLMENT'',
      plain_transition DS_PENDING DS_CREATED ''ENROLLMENT_FAILED'',
      approval_transition DS_ENROLLED DS_RUNNING ''START_RUN'',
      plain_transition DS_RUNNING DS_PAUSED ''PAUSE_RUN'',
      plain_transition DS_RUNNING DS_STOPPED ''STOP_RUN'',
      approval_transition DS_PAUSED DS_RUNNING ''RESUME_RUN'',
      plain_transition DS_PAUSED DS_STOPPED ''STOP_RUN'',
      approval_transition DS_STOPPED DS_RUNNING ''START_RUN'']
     @ map (\<lambda>s. plain_transition s DS_REVOKED ''REVOKE_CREDENTIALS'')
         [DS_ENROLLED, DS_RUNNING, DS_PAUSED, DS_STOPPED]
     @ [plain_transition DS_REVOKED DS_TERMINATED ''TERMINATE'']
     @ map (\<lambda>s. plain_transition s DS_TERMINATED ''TERMINATE'') [DS_ENROLLED, DS_STOPPED]"

definition init_DeploymentStateMachine ::
  "string \<Rightarrow> DeploymentState \<Rightarrow> int \<Rightarrow> (sm_error, unit, 'kw deployment_machine) pyres" where
  "init_DeploymentStateMachine deployment_id initial_state max_history =
     register_transitions DeploymentState_value deployment_transitions
       \<lparr>sm_current_state = initial_state, sm_entity_id = deployment_id,
        sm_max_history = max_history, sm_history = [], sm_transitions = [],
        sm_pending_approval = None\<rparr>"

definition is_operational :: "'kw deployment_machine \<Rightarrow> bool" where
  "is_operational sm = (sm_current_state sm \<in> {DS_RUNNING, DS_PAUSED, DS_STOPPED})"

definition deployment_is_terminal :: "'kw deployment_machine \<Rightarrow> bool" where
  "deployment_is_terminal sm = (sm_current_state sm = DS_TERMINATED)"

definition is_revoked :: "'kw deployment_machine \<Rightarrow> bool" where
  "is_revoked sm = (sm_current_state sm = DS_REVOKED)"

subsection \<open>The run machine\<close>

definition run_transitions :: "(RunState, 'kw) StateTransition list" where
  "run_transitions =
     [plain_transition RS_INITIALIZING RS_RUNNING ''STARTUP_COMPLETE'',
      plain_transition RS_INITIALIZING RS_HALTED ''STARTUP_FAILED'',
      plain_transition RS_INITIALIZING RS_STOPPED ''STOP'',
      plain_transition RS_RUNNING RS_PAUSED ''PAUSE'',
      plain_transition RS_RUNNING RS_HALTED ''ERROR'',
      plain_transition RS_RUNNING RS_STOPPED ''STOP'',
      approval_transition RS_PAUSED RS_RUNNING ''RESUME'',
      plain_transition RS_PAUSED RS_STOPPED ''STOP'',
      plain_transition RS_PAUSED RS_HALTED ''ERROR'',
      approval_transition RS_HALTED RS_RUNNING ''RECOVER'',
      plain_transition RS_HALTED RS_STOPPED ''STOP'']"

definition init_RunStateMachine ::
  "string \<Rightarrow> string \<Rightarrow> RunState \<Rightarrow> int \<Rightarrow> (sm_error, unit, 'kw run_machine) pyres" where
  "init_RunStateMachine run_id deployment_id initial_state max_history =
     register_transitions RunState_value run_transitions
       \<lparr>sm_current_state = initial_state, sm_entity_id = run_id,
        sm_max_history = max_history, sm_history = [], sm_transitions = [],
        sm_pending_approval = None, rm_deployment_id = deployment_id\<rparr>"

definition run_is_active :: "'kw run_machine \<Rightarrow> bool" where
  "run_is_active sm = (sm_current_state sm = RS_RUNNING)"

definition run_is_terminal :: "'kw run_machine \<Rightarrow> bool" where
  "run_is_terminal sm = (sm_current_state sm = RS_STOPPED)"

definition needs_attention :: "'kw run_machine \<Rightarrow> bool" where
  "needs_attention sm = (sm_current_state sm = RS_HALTED)"

subsection \<open>The manager\<close>

record 'kw StateMachineManager =
  mg_deployments :: "(string, 'kw deployment_machine) dict"
  mg_runs :: "(string, 'kw run_machine) dict"

definition init_StateMachineManager :: "'kw StateMachineManager" where
  "init_StateMachineManager = \<lparr>mg_deployments = [], mg_runs = []\<rparr>"

text \<open>The constructor calls use the default \<^verbatim>\<open>max_history\<close> of each class: 1000 and 500.\<close>

definition create_deployment ::
  "'kw StateMachineManager \<Rightarrow> string \<Rightarrow> DeploymentState \<Rightarrow>
   (sm_error, 'kw deployment_machine, 'kw StateMachineManager) pyres" where
  "create_deployment m deployment_id initial_state =
     (if dict_has (mg_deployments m) deployment_id
      then py_raise (Deployment_exists deployment_id) m
      else (case init_DeploymentStateMachine deployment_id initial_state 1000 of
              (Inl e, _) \<Rightarrow> py_raise e m
            | (Inr _, sm) \<Rightarrow>
                py_return sm
                  (m\<lparr>mg_deployments := dict_set (mg_deployments m) deployment_id sm\<rparr>)))"

definition create_run ::
  "'kw StateMachineManager \<Rightarrow> string \<Rightarrow> string \<Rightarrow> RunState \<Rightarrow>
   (sm_error, 'kw run_machine, 'kw StateMachineManager) pyres" where
  "create_run m run_id deployment_id initial_state =
     (if dict_has (mg_runs m) run_id then py_raise (Run_exists run_id) m
      else if \<not> dict_has (mg_deployments m) deployment_id
      then py_raise (Deployment_not_found deployment_id) m
      else (case init_RunStateMachine run_id deployment_id initial_state 500 of
              (Inl e, _) \<Rightarrow> py_raise e m
            | (Inr _, sm) \<Rightarrow>
                py_return sm (m\<lparr>mg_runs := dict_set (mg_runs m) run_id sm\<rparr>)))"

definition get_deployment ::
  "'kw StateMachineManager \<Rightarrow> string \<Rightarrow> 'kw deployment_machine option" where
  "get_deployment m deployment_id = dict_get (mg_deployments m) deployment_id"

definition get_run :: "'kw StateMachineManager \<Rightarrow> string \<Rightarrow> 'kw run_machine option" where
  "get_run m run_id = dict_get (mg_runs m) run_id"

definition get_runs_for_deployment ::
  "'kw StateMachineManager \<Rightarrow> string \<Rightarrow> 'kw run_machine list" where
  "get_runs_for_deployment m deployment_id =
     filter (\<lambda>r. rm_deployment_id r = deployment_id) (dict_values (mg_runs m))"

text \<open>\<^verbatim>\<open>for run_id in ids: del self._runs[run_id]\<close>; \<^verbatim>\<open>del\<close> raises on a missing key.\<close>

fun del_runs ::
  "(string, 'kw run_machine) dict \<Rightarrow> string list \<Rightarrow>
   (sm_error, unit, (string, 'kw run_machine) dict) pyres" where
  "del_runs d [] = py_return () d"
| "del_runs d (i # is) =
     (if dict_has d i then del_runs (dict_del d i) is else py_raise (KeyError i) d)"

definition remove_deployment ::
  "'kw StateMachineManager \<Rightarrow> string \<Rightarrow> (sm_error, bool, 'kw StateMachineManager) pyres" where
  "remove_deployment m deployment_id =
     (if \<not> dict_has (mg_deployments m) deployment_id then py_return False m
      else
        (let run_ids_to_remove = map sm_entity_id (get_runs_for_deployment m deployment_id)
         in case del_runs (mg_runs m) run_ids_to_remove of
              (Inl e, d) \<Rightarrow> py_raise e (m\<lparr>mg_runs := d\<rparr>)
            | (Inr _, d) \<Rightarrow>
                py_return True
                  (m\<lparr>mg_runs := d,
                     mg_deployments := dict_del (mg_deployments m) deployment_id\<rparr>)))"

definition remove_run ::
  "'kw StateMachineManager \<Rightarrow> string \<Rightarrow> bool \<times> 'kw StateMachineManager" where
  "remove_run m run_id =
     (if \<not> dict_has (mg_runs m) run_id then (False, m)
      else (True, m\<lparr>mg_runs := dict_del (mg_runs m) run_id\<rparr>))"

definition get_deployments_in_state ::
  "'kw StateMachineManager \<Rightarrow> DeploymentState \<Rightarrow> 'kw deployment_machine list" where
  "get_deployments_in_state m st =
     filter (\<lambda>d. sm_current_state d = st) (dict_values (mg_deployments m))"

definition get_runs_in_state ::
  "'kw StateMachineManager \<Rightarrow> RunState \<Rightarrow> 'kw run_machine list" where
  "get_runs_in_state m st =
     filter (\<lambda>r. sm_current_state r = st) (dict_values (mg_runs m))"

subsection \<open>Calls and runs of one machine\<close>

text \<open>
  A client's calls on one machine, and the machine a sequence of calls leaves: an exception
  does not end the client, the next call finds the machine as the failed call left it.
\<close>

datatype ('st, 'kw) sm_call =
    Trigger_call time string "(string, pyval) dict option" "string option" "string option" 'kw
  | Force_call time 'st string

fun sm_exec ::
  "('st \<Rightarrow> string) \<Rightarrow> ('st, 'kw, 'z) StateMachine_scheme \<Rightarrow> ('st, 'kw) sm_call \<Rightarrow>
   ('st, 'kw, 'z) StateMachine_scheme" where
  "sm_exec val sm (Trigger_call now e md ik ab kw) = snd (trigger val now sm e md ik ab kw)"
| "sm_exec val sm (Force_call now st reason) = force_state val now sm st reason"

abbreviation sm_run ::
  "('st \<Rightarrow> string) \<Rightarrow> ('st, 'kw, 'z) StateMachine_scheme \<Rightarrow> ('st, 'kw) sm_call list \<Rightarrow>
   ('st, 'kw, 'z) StateMachine_scheme" where
  "sm_run val \<equiv> foldl (sm_exec val)"

fun is_trigger :: "('st, 'kw) sm_call \<Rightarrow> bool" where
  "is_trigger (Trigger_call now e md ik ab kw) = True"
| "is_trigger (Force_call now st reason) = False"

fun call_approver :: "('st, 'kw) sm_call \<Rightarrow> string option" where
  "call_approver (Trigger_call now e md ik ab kw) = ab"
| "call_approver (Force_call now st reason) = None"

subsection \<open>The abstract graph a transition table denotes\<close>

text \<open>
  The specification of a machine is a labelled graph: an edge per registered transition.  The
  refinement lemma below says that a successful trigger is an edge or, for a repeated
  idempotency key, no move at all.
\<close>

inductive edge :: "('st, 'kw) StateTransition list \<Rightarrow> 'st \<Rightarrow> string \<Rightarrow> 'st \<Rightarrow> bool"
  for table where
  edgeI: "t \<in> set table \<Longrightarrow> edge table (from_state t) (tr_event t) (to_state t)"

inductive_simps edge_iff: "edge table s e s'"

definition table_dict ::
  "('st, 'kw) StateTransition list \<Rightarrow> ('st \<times> string, ('st, 'kw) StateTransition) dict" where
  "table_dict table = map (\<lambda>t. ((from_state t, tr_event t), t)) table"

abbreviation table_keys :: "('st, 'kw) StateTransition list \<Rightarrow> ('st \<times> string) list" where
  "table_keys table \<equiv> map (\<lambda>t. (from_state t, tr_event t)) table"

lemma keys_table_dict [simp]: "dict_keys (table_dict table) = table_keys table"
  by (simp add: table_dict_def)

lemma table_dict_Some:
  "dict_get (table_dict table) (s, e) = Some t \<Longrightarrow>
   t \<in> set table \<and> from_state t = s \<and> tr_event t = e"
  by (drule map_of_SomeD) (auto simp: table_dict_def)

lemma table_dict_get:
  "distinct (table_keys table) \<Longrightarrow> t \<in> set table \<Longrightarrow>
   dict_get (table_dict table) (from_state t, tr_event t) = Some t"
  by (rule map_of_is_SomeI) (auto simp: table_dict_def comp_def)

text \<open>Registration: with distinct keys no duplicate is reported and the table is stored in order.\<close>

lemma register_transitions_ok:
  assumes "distinct (dict_keys (sm_transitions sm) @ table_keys ts)"
  shows "register_transitions val ts sm =
    (Inr (), sm\<lparr>sm_transitions := sm_transitions sm @ table_dict ts\<rparr>)"
  using assms
proof (induction ts arbitrary: sm)
  case Nil
  then show ?case by (simp add: table_dict_def)
next
  case (Cons t ts)
  let ?k = "(from_state t, tr_event t)"
  have new: "\<not> dict_has (sm_transitions sm) ?k"
    using Cons.prems by (auto simp: dict_has_iff)
  then have set: "dict_set (sm_transitions sm) ?k t = sm_transitions sm @ [(?k, t)]"
    by (intro dict_set_new) (simp add: dict_has_def)
  have "distinct (dict_keys (sm_transitions sm @ [(?k, t)]) @ table_keys ts)"
    using Cons.prems by auto
  then show ?case
    using new set Cons.IH [of "sm\<lparr>sm_transitions := sm_transitions sm @ [(?k, t)]\<rparr>"]
    by (simp add: add_transition_def Let_def table_dict_def)
qed

subsection \<open>Trigger, branch by branch\<close>

lemma trigger_duplicate:
  "truthy ik \<Longrightarrow> is_duplicate sm (the ik) \<Longrightarrow>
   trigger val now sm e md ik ab kw = (Inr (sm_current_state sm), sm)"
  by (simp add: trigger_def)

text \<open>Everything a trigger can do, as one case rule.\<close>

lemma trigger_cases:
  obtains
    (duplicate) "truthy ik" "is_duplicate sm (the ik)"
      "trigger val now sm e md ik ab kw = (Inr (sm_current_state sm), sm)"
  | (invalid) "dict_get (sm_transitions sm) (sm_current_state sm, e) = None"
      "trigger val now sm e md ik ab kw =
        (Inl (InvalidTransitionError (val (sm_current_state sm)) (val (sm_current_state sm)) e), sm)"
  | (unapproved) t where "dict_get (sm_transitions sm) (sm_current_state sm, e) = Some t"
      "requires_approval t" "\<not> truthy ab"
      "trigger val now sm e md ik ab kw =
        (Inl (GuardConditionFailedError ''Approval required for this transition''
           ''approval_required''), sm\<lparr>sm_pending_approval := Some t\<rparr>)"
  | (guarded) t err where "dict_get (sm_transitions sm) (sm_current_state sm, e) = Some t"
      "guard_failure t kw = Some err" "trigger val now sm e md ik ab kw = (Inl err, sm)"
  | (moved) t r where "dict_get (sm_transitions sm) (sm_current_state sm, e) = Some t"
      "requires_approval t \<longrightarrow> truthy ab" "guard_failure t kw = None"
      "rec_from_state r = val (sm_current_state sm)" "rec_to_state r = val (to_state t)"
      "rec_event r = e" "rec_approved_by r = ab" "rec_idempotency_key r = ik"
      "trigger val now sm e md ik ab kw =
        (Inr (to_state t), (add_history sm r)
           \<lparr>sm_current_state := to_state t, sm_pending_approval := None\<rparr>)"
proof (cases "truthy ik \<and> is_duplicate sm (the ik)")
  case True
  then show ?thesis by (intro duplicate) (auto simp: trigger_duplicate)
next
  case nodup: False
  show ?thesis
  proof (cases "dict_get (sm_transitions sm) (sm_current_state sm, e)")
    case None
    with nodup show ?thesis by (intro invalid) (auto simp: trigger_def)
  next
    case (Some t)
    show ?thesis
    proof (cases "requires_approval t \<and> \<not> truthy ab")
      case True
      with nodup Some show ?thesis by (intro unapproved) (auto simp: trigger_def)
    next
      case appr: False
      show ?thesis
      proof (cases "guard_failure t kw")
        case None
        with nodup Some appr show ?thesis
          by (intro moved [of t "\<lparr>rec_from_state = val (sm_current_state sm),
                              rec_to_state = val (to_state t), rec_event = e,
                              rec_timestamp = now, rec_metadata = or_else md [],
                              rec_approved_by = ab, rec_idempotency_key = ik\<rparr>"])
            (auto simp: trigger_def Let_def)
      next
        case (Some err)
        with nodup appr \<open>dict_get (sm_transitions sm) (sm_current_state sm, e) = Some t\<close>
        show ?thesis by (intro guarded) (auto simp: trigger_def)
      qed
    qed
  qed
qed

lemma add_history_frame [simp]:
  "sm_current_state (add_history sm r) = sm_current_state sm"
  "sm_transitions (add_history sm r) = sm_transitions sm"
  "sm_max_history (add_history sm r) = sm_max_history sm"
  "sm_entity_id (add_history sm r) = sm_entity_id sm"
  "sm_pending_approval (add_history sm r) = sm_pending_approval sm"
  "sm_history (add_history sm r) = append_trim (sm_max_history sm) (sm_history sm) r"
  by (simp_all add: add_history_def)

lemma add_history_run_frame [simp]: "rm_deployment_id (add_history sm r) = rm_deployment_id sm"
  by (simp add: add_history_def)

text \<open>No call touches the table, the entity or the history bound.\<close>

lemma sm_exec_frame [simp]:
  "sm_transitions (sm_exec val sm c) = sm_transitions sm"
  "sm_max_history (sm_exec val sm c) = sm_max_history sm"
  "sm_entity_id (sm_exec val sm c) = sm_entity_id sm"
proof -
  have "sm_transitions (sm_exec val sm c) = sm_transitions sm \<and>
        sm_max_history (sm_exec val sm c) = sm_max_history sm \<and>
        sm_entity_id (sm_exec val sm c) = sm_entity_id sm"
  proof (cases c)
    case (Trigger_call now e md ik ab kw)
    then show ?thesis
      by (cases rule: trigger_cases [of ik sm val now e md ab kw]) auto
  qed (simp add: force_state_def Let_def)
  then show "sm_transitions (sm_exec val sm c) = sm_transitions sm"
    and "sm_max_history (sm_exec val sm c) = sm_max_history sm"
    and "sm_entity_id (sm_exec val sm c) = sm_entity_id sm" by auto
qed

lemma sm_run_frame [simp]:
  "sm_transitions (sm_run val sm cs) = sm_transitions sm"
  "sm_max_history (sm_run val sm cs) = sm_max_history sm"
  "sm_entity_id (sm_run val sm cs) = sm_entity_id sm"
  by (induction cs arbitrary: sm) auto

subsection \<open>Audit trail\<close>

text \<open>
  The retained history is a chain: each record starts where the one before ended, and the
  last one ends in the current state.
\<close>

definition audit_chain :: "('st \<Rightarrow> string) \<Rightarrow> ('st, 'kw, 'z) StateMachine_scheme \<Rightarrow> bool" where
  "audit_chain val sm \<longleftrightarrow>
     successively (\<lambda>a b. rec_to_state a = rec_from_state b) (sm_history sm) \<and>
     (sm_history sm \<noteq> [] \<longrightarrow> rec_to_state (last (sm_history sm)) = val (sm_current_state sm))"

lemma successively_suffix: "suffix xs ys \<Longrightarrow> successively P ys \<Longrightarrow> successively P xs"
  by (auto simp: suffix_def successively_append_iff)

lemma successively_append_trim:
  assumes "successively P xs" and "xs \<noteq> [] \<Longrightarrow> P (last xs) x"
  shows "successively P (append_trim cap xs x)"
proof -
  have "successively P (xs @ [x])" using assms by (auto simp: successively_append_iff)
  then show ?thesis by (rule successively_suffix [OF append_trim_suffix])
qed

lemma audit_chain_pending [simp]:
  "audit_chain val (sm\<lparr>sm_pending_approval := p\<rparr>) \<longleftrightarrow> audit_chain val sm"
  by (simp add: audit_chain_def)

lemma audit_chain_push:
  assumes inv: "audit_chain val sm" and max: "0 < sm_max_history sm"
    and src: "rec_from_state r = val (sm_current_state sm)" and to: "rec_to_state r = val st"
  shows "audit_chain val ((add_history sm r)\<lparr>sm_current_state := st\<rparr>)"
proof -
  let ?h = "append_trim (sm_max_history sm) (sm_history sm) r"
  have "successively (\<lambda>a b. rec_to_state a = rec_from_state b) ?h"
    by (rule successively_append_trim) (use inv src in \<open>auto simp: audit_chain_def\<close>)
  moreover have "last ?h = r" using append_trim_last [OF max, of "sm_history sm" r] by simp
  ultimately show ?thesis using to by (simp add: audit_chain_def)
qed

lemma sm_exec_audit_chain:
  assumes inv: "audit_chain val sm" and max: "0 < sm_max_history sm"
  shows "audit_chain val (sm_exec val sm c)"
proof (cases c)
  case (Trigger_call now e md ik ab kw)
  then show ?thesis
    by (cases rule: trigger_cases [of ik sm val now e md ab kw])
      (simp_all add: inv audit_chain_push [OF inv max])
next
  case (Force_call now st reason)
  then show ?thesis
    by (simp add: force_state_def Let_def audit_chain_push [OF inv max])
qed

lemma sm_exec_history_bound:
  assumes "0 < sm_max_history sm" and "int (length (sm_history sm)) \<le> sm_max_history sm"
  shows "int (length (sm_history (sm_exec val sm c))) \<le> sm_max_history sm"
proof (cases c)
  case (Trigger_call now e md ik ab kw)
  then show ?thesis using assms
    by (cases rule: trigger_cases [of ik sm val now e md ab kw]) (auto intro: append_trim_length)
next
  case (Force_call now st reason)
  then show ?thesis using assms by (auto simp: force_state_def Let_def intro: append_trim_length)
qed

text \<open>The invariant of every machine, and that every call keeps it.\<close>

definition sm_ok :: "('st \<Rightarrow> string) \<Rightarrow> ('st, 'kw, 'z) StateMachine_scheme \<Rightarrow> bool" where
  "sm_ok val sm \<longleftrightarrow> 0 < sm_max_history sm \<and> audit_chain val sm \<and>
     int (length (sm_history sm)) \<le> sm_max_history sm"

interpretation sm: step_system
  "\<lambda>sm :: ('st, 'kw, 'z) StateMachine_scheme. sm_history sm = [] \<and> 0 < sm_max_history sm"
  "sm_exec val" "sm_ok val"
  for val :: "'st \<Rightarrow> string"
proof (unfold_locales, goal_cases)
  case (1 s)
  then show ?case by (simp add: sm_ok_def audit_chain_def)
next
  case (2 s l)
  then show ?case by (simp add: sm_ok_def sm_exec_audit_chain sm_exec_history_bound)
qed

subsection \<open>The idempotency window\<close>

text \<open>A record with key \<open>k\<close> that is at most \<open>n\<close> records old is still retained.\<close>

definition recent_key :: "nat \<Rightarrow> string \<Rightarrow> ('st, 'kw, 'z) StateMachine_scheme \<Rightarrow> bool" where
  "recent_key n k sm \<longleftrightarrow>
     (\<exists>xs r ys. sm_history sm = xs @ r # ys \<and> length ys \<le> n \<and> rec_idempotency_key r = Some k)"

lemma recent_key_duplicate: "recent_key n k sm \<Longrightarrow> is_duplicate sm k"
  by (auto simp: recent_key_def is_duplicate_def)

lemma append_trim_keeps:
  assumes "0 < cap" and "int (Suc (length ys)) < cap"
  shows "\<exists>zs. append_trim cap (xs @ r # ys) x = zs @ r # ys @ [x]"
proof (cases "int (length ((xs @ r # ys) @ [x])) > cap")
  case True
  define d where "d = length ((xs @ r # ys) @ [x]) - nat cap"
  have "append_trim cap (xs @ r # ys) x = drop d ((xs @ r # ys) @ [x])"
    using True assms(1) by (simp add: append_trim_def Let_def slice_from_neg d_def)
  moreover have "d \<le> length xs" using assms True unfolding d_def by simp
  ultimately have "append_trim cap (xs @ r # ys) x = drop d xs @ r # ys @ [x]" by simp
  then show ?thesis by blast
next
  case False
  then show ?thesis by (simp add: append_trim_def)
qed

lemma recent_key_push:
  assumes "recent_key n k sm" and "int (Suc n) < sm_max_history sm"
    and "sm_history sm' = append_trim (sm_max_history sm) (sm_history sm) x"
  shows "recent_key (Suc n) k sm'"
proof -
  obtain xs r ys where h: "sm_history sm = xs @ r # ys" "length ys \<le> n"
    "rec_idempotency_key r = Some k" using assms(1) by (auto simp: recent_key_def)
  then obtain zs where "sm_history sm' = zs @ r # (ys @ [x])"
    using assms append_trim_keeps [of "sm_max_history sm" ys xs r x] by force
  with h show ?thesis unfolding recent_key_def by fastforce
qed

lemma recent_key_mono: "recent_key n k sm \<Longrightarrow> sm_history sm' = sm_history sm \<Longrightarrow> recent_key (Suc n) k sm'"
  unfolding recent_key_def by (metis le_SucI)

lemma recent_key_exec:
  assumes "recent_key n k sm" and "int (Suc n) < sm_max_history sm"
  shows "recent_key (Suc n) k (sm_exec val sm c)"
proof (cases c)
  case (Trigger_call now e md ik ab kw)
  then show ?thesis
    by (cases rule: trigger_cases [of ik sm val now e md ab kw])
      (auto intro: recent_key_mono [OF assms(1)] recent_key_push [OF assms])
next
  case (Force_call now st reason)
  then show ?thesis
    by (auto simp: force_state_def Let_def intro: recent_key_push [OF assms])
qed

lemma recent_key_run:
  "recent_key n k sm \<Longrightarrow> int (n + length cs) < sm_max_history sm \<Longrightarrow>
   recent_key (n + length cs) k (sm_run val sm cs)"
proof (induction cs arbitrary: n sm)
  case Nil
  then show ?case by simp
next
  case (Cons c cs)
  have "recent_key (Suc n) k (sm_exec val sm c)"
    using Cons.prems by (intro recent_key_exec) auto
  from Cons.IH [OF this] show ?case using Cons.prems by simp
qed

lemma trigger_makes_recent:
  assumes "trigger val now sm e md (Some k) ab kw = (Inr st, sm')" and "k \<noteq> []"
    and "\<not> is_duplicate sm k" and "0 < sm_max_history sm"
  shows "recent_key 0 k sm'"
proof (cases rule: trigger_cases [of "Some k" sm val now e md ab kw])
  case (moved t r)
  let ?h = "append_trim (sm_max_history sm) (sm_history sm) r"
  have "?h \<noteq> []" "last ?h = r" using append_trim_last [OF assms(4), of "sm_history sm" r] by simp_all
  then have "?h = butlast ?h @ r # []" by (metis append_butlast_last_id)
  then have "sm_history sm' = butlast ?h @ r # []" using moved assms(1) by simp
  with moved show ?thesis unfolding recent_key_def by fastforce
qed (use assms in auto)

subsection \<open>Interface: a machine with an approval gate and a terminal state\<close>

text \<open>
  What the platform relies on in a transition table: registration cannot fail, entering
  \<open>running\<close> from a gated state asks for approval, gated states are not left for
  ungated ones, no transition has a guard and none leaves the terminal state.
\<close>

locale gated_machine =
  fixes val :: "'st \<Rightarrow> string"
    and table :: "('st, 'kw) StateTransition list"
    and running :: 'st
    and gated :: "'st \<Rightarrow> bool"
    and terminal :: 'st
  assumes distinct_keys: "distinct (table_keys table)"
    and gate: "t \<in> set table \<Longrightarrow> to_state t = running \<Longrightarrow> gated (from_state t) \<Longrightarrow> requires_approval t"
    and stays_gated: "t \<in> set table \<Longrightarrow> gated (from_state t) \<Longrightarrow> gated (to_state t)"
    and unguarded: "t \<in> set table \<Longrightarrow> tr_guard t = None"
    and sink: "t \<in> set table \<Longrightarrow> from_state t \<noteq> terminal"
begin

lemma guard_none: "t \<in> set table \<Longrightarrow> guard_failure t kw = None"
  by (simp add: guard_failure_def unguarded)

text \<open>Refinement, both ways: a successful trigger is an edge; every edge can be taken.\<close>

lemma trigger_refines_edge:
  assumes "sm_transitions sm = table_dict table"
    and "trigger val now sm e md ik ab kw = (Inr st, sm')"
  shows "edge table (sm_current_state sm) e st \<and> sm_current_state sm' = st
    \<or> truthy ik \<and> is_duplicate sm (the ik) \<and> sm' = sm \<and> st = sm_current_state sm"
proof (cases rule: trigger_cases [of ik sm val now e md ab kw])
  case (moved t r)
  then have "t \<in> set table" "from_state t = sm_current_state sm" "tr_event t = e"
    using assms(1) by (auto dest: table_dict_Some)
  then have "edge table (sm_current_state sm) e (to_state t)" using edgeI by metis
  with moved assms(2) show ?thesis by simp
qed (use assms in auto)

lemma edge_taken:
  assumes "sm_transitions sm = table_dict table" and "edge table (sm_current_state sm) e st"
    and "truthy ab" and "\<not> (truthy ik \<and> is_duplicate sm (the ik))"
  shows "fst (trigger val now sm e md ik ab kw) = Inr st"
proof -
  obtain t where t: "t \<in> set table" "from_state t = sm_current_state sm" "tr_event t = e"
    "to_state t = st" using assms(2) by (auto simp: edge_iff)
  then have "dict_get (table_dict table) (sm_current_state sm, e) = Some t"
    using table_dict_get [OF distinct_keys] by metis
  then show ?thesis using assms t
    by (cases rule: trigger_cases [of ik sm val now e md ab kw]) (auto simp: guard_none)
qed

lemma trigger_success_iff:
  assumes "sm_transitions sm = table_dict table" and "\<not> (truthy ik \<and> is_duplicate sm (the ik))"
  shows "fst (trigger val now sm e md ik ab kw) = Inr st \<longleftrightarrow>
    (\<exists>t \<in> set table. from_state t = sm_current_state sm \<and> tr_event t = e \<and> to_state t = st \<and>
       (requires_approval t \<longrightarrow> truthy ab))"
proof
  assume "fst (trigger val now sm e md ik ab kw) = Inr st"
  then show "\<exists>t \<in> set table. from_state t = sm_current_state sm \<and> tr_event t = e \<and>
      to_state t = st \<and> (requires_approval t \<longrightarrow> truthy ab)" using assms
    by (cases rule: trigger_cases [of ik sm val now e md ab kw]) (auto dest!: table_dict_Some)
next
  assume "\<exists>t \<in> set table. from_state t = sm_current_state sm \<and> tr_event t = e \<and>
      to_state t = st \<and> (requires_approval t \<longrightarrow> truthy ab)"
  then obtain t where t: "t \<in> set table" "from_state t = sm_current_state sm" "tr_event t = e"
    "to_state t = st" "requires_approval t \<longrightarrow> truthy ab" by blast
  then have "dict_get (table_dict table) (sm_current_state sm, e) = Some t"
    using table_dict_get [OF distinct_keys] by metis
  then show "fst (trigger val now sm e md ik ab kw) = Inr st" using assms t
    by (cases rule: trigger_cases [of ik sm val now e md ab kw]) (auto simp: guard_none)
qed

text \<open>A set of states closed under the edges is not left by any trigger.\<close>

lemma closed_step:
  assumes "sm_transitions sm = table_dict table" and "is_trigger c"
    and "\<And>t. t \<in> set table \<Longrightarrow> from_state t \<in> S \<Longrightarrow> to_state t \<in> S"
    and "sm_current_state sm \<in> S"
  shows "sm_current_state (sm_exec val sm c) \<in> S"
proof (cases c)
  case (Trigger_call now e md ik ab kw)
  then show ?thesis using assms
    by (cases rule: trigger_cases [of ik sm val now e md ab kw]) (auto dest!: table_dict_Some)
qed (use assms in simp)

lemma closed_run:
  assumes "\<And>t. t \<in> set table \<Longrightarrow> from_state t \<in> S \<Longrightarrow> to_state t \<in> S"
  shows "sm_transitions sm = table_dict table \<Longrightarrow> list_all is_trigger cs \<Longrightarrow>
    sm_current_state sm \<in> S \<Longrightarrow> sm_current_state (sm_run val sm cs) \<in> S"
proof (induction cs arbitrary: sm)
  case Nil
  then show ?case by simp
next
  case (Cons c cs)
  have "sm_current_state (sm_exec val sm c) \<in> S"
    by (rule closed_step [OF _ _ assms]) (use Cons.prems in auto)
  with Cons.prems show ?case using Cons.IH [of "sm_exec val sm c"] by simp
qed

lemma terminal_run:
  "sm_transitions sm = table_dict table \<Longrightarrow> list_all is_trigger cs \<Longrightarrow>
   sm_current_state sm = terminal \<Longrightarrow> sm_current_state (sm_run val sm cs) = terminal"
  using closed_run [of "{terminal}" sm cs] sink by auto

text \<open>Without an approver no run enters \<open>running\<close>.\<close>

lemma unapproved_step:
  assumes "sm_transitions sm = table_dict table" and "is_trigger c" and "\<not> truthy (call_approver c)"
    and "gated (sm_current_state sm)" and "sm_current_state sm \<noteq> running"
  shows "gated (sm_current_state (sm_exec val sm c)) \<and> sm_current_state (sm_exec val sm c) \<noteq> running"
proof (cases c)
  case (Trigger_call now e md ik ab kw)
  then show ?thesis using assms
    by (cases rule: trigger_cases [of ik sm val now e md ab kw])
      (auto dest!: table_dict_Some dest: gate stays_gated)
qed (use assms in simp)

lemma unapproved_run:
  "sm_transitions sm = table_dict table \<Longrightarrow> list_all is_trigger cs \<Longrightarrow>
   list_all (\<lambda>c. \<not> truthy (call_approver c)) cs \<Longrightarrow>
   gated (sm_current_state sm) \<Longrightarrow> sm_current_state sm \<noteq> running \<Longrightarrow>
   sm_current_state (sm_run val sm cs) \<noteq> running"
proof (induction cs arbitrary: sm)
  case Nil
  then show ?case by simp
next
  case (Cons c cs)
  have "gated (sm_current_state (sm_exec val sm c)) \<and> sm_current_state (sm_exec val sm c) \<noteq> running"
    using Cons.prems by (intro unapproved_step) auto
  then show ?case using Cons.prems Cons.IH [of "sm_exec val sm c"] by simp
qed

end

lemmas table_defs = deployment_transitions_def run_transitions_def plain_transition_def
  approval_transition_def

interpretation dep: gated_machine DeploymentState_value deployment_transitions DS_RUNNING
  "\<lambda>_. True" DS_TERMINATED
  by unfold_locales (auto simp: table_defs)

interpretation rn: gated_machine RunState_value run_transitions RS_RUNNING
  "\<lambda>s. s \<noteq> RS_INITIALIZING" RS_STOPPED
  by unfold_locales (auto simp: table_defs)

lemma init_DeploymentStateMachine_eq:
  "init_DeploymentStateMachine d st n = (Inr (),
     \<lparr>sm_current_state = st, sm_entity_id = d, sm_max_history = n, sm_history = [],
      sm_transitions = table_dict deployment_transitions, sm_pending_approval = None\<rparr>)"
  unfolding init_DeploymentStateMachine_def
  by (subst register_transitions_ok) (simp_all add: dep.distinct_keys)

lemma init_RunStateMachine_eq:
  "init_RunStateMachine i d st n = (Inr (),
     \<lparr>sm_current_state = st, sm_entity_id = i, sm_max_history = n, sm_history = [],
      sm_transitions = table_dict run_transitions, sm_pending_approval = None,
      rm_deployment_id = d\<rparr>)"
  unfolding init_RunStateMachine_def
  by (subst register_transitions_ok) (simp_all add: rn.distinct_keys)

subsection \<open>The manager's invariant\<close>

lemma sm_exec_run_frame [simp]: "rm_deployment_id (sm_exec val sm c) = rm_deployment_id sm"
proof (cases c)
  case (Trigger_call now e md ik ab kw)
  then show ?thesis by (cases rule: trigger_cases [of ik sm val now e md ab kw]) auto
qed (simp add: force_state_def Let_def)

text \<open>
  Calls on a manager.  A machine handed out by the manager is shared with its caller, so a
  call on it is a change of the manager's entry.
\<close>

datatype 'kw mg_call =
    Create_deployment string DeploymentState
  | Create_run string string RunState
  | Remove_deployment string
  | Remove_run string
  | On_deployment string "(DeploymentState, 'kw) sm_call"
  | On_run string "(RunState, 'kw) sm_call"

fun mg_exec :: "'kw StateMachineManager \<Rightarrow> 'kw mg_call \<Rightarrow> 'kw StateMachineManager" where
  "mg_exec m (Create_deployment d st) = snd (create_deployment m d st)"
| "mg_exec m (Create_run i d st) = snd (create_run m i d st)"
| "mg_exec m (Remove_deployment d) = snd (remove_deployment m d)"
| "mg_exec m (Remove_run i) = snd (remove_run m i)"
| "mg_exec m (On_deployment d c) =
     (case get_deployment m d of None \<Rightarrow> m
      | Some sm \<Rightarrow> m\<lparr>mg_deployments :=
          dict_set (mg_deployments m) d (sm_exec DeploymentState_value sm c)\<rparr>)"
| "mg_exec m (On_run i c) =
     (case get_run m i of None \<Rightarrow> m
      | Some sm \<Rightarrow> m\<lparr>mg_runs := dict_set (mg_runs m) i (sm_exec RunState_value sm c)\<rparr>)"

definition deployment_entry_ok :: "string \<times> 'kw deployment_machine \<Rightarrow> bool" where
  "deployment_entry_ok p \<longleftrightarrow> sm_entity_id (snd p) = fst p \<and>
     sm_transitions (snd p) = table_dict deployment_transitions \<and>
     sm_ok DeploymentState_value (snd p)"

definition run_entry_ok ::
  "(string, 'kw deployment_machine) dict \<Rightarrow> string \<times> 'kw run_machine \<Rightarrow> bool" where
  "run_entry_ok ds p \<longleftrightarrow> sm_entity_id (snd p) = fst p \<and> dict_has ds (rm_deployment_id (snd p)) \<and>
     sm_transitions (snd p) = table_dict run_transitions \<and> sm_ok RunState_value (snd p)"

definition mg_ok :: "'kw StateMachineManager \<Rightarrow> bool" where
  "mg_ok m \<longleftrightarrow> dict_ok (mg_deployments m) \<and> dict_ok (mg_runs m) \<and>
     (\<forall>p \<in> set (mg_deployments m). deployment_entry_ok p) \<and>
     (\<forall>p \<in> set (mg_runs m). run_entry_ok (mg_deployments m) p)"

lemma mg_okI:
  "dict_ok (mg_deployments m) \<Longrightarrow> dict_ok (mg_runs m) \<Longrightarrow>
   (\<And>p. p \<in> set (mg_deployments m) \<Longrightarrow> deployment_entry_ok p) \<Longrightarrow>
   (\<And>p. p \<in> set (mg_runs m) \<Longrightarrow> run_entry_ok (mg_deployments m) p) \<Longrightarrow> mg_ok m"
  by (auto simp: mg_ok_def)

lemma sm_ok_fresh: "sm_history sm = [] \<Longrightarrow> 0 < sm_max_history sm \<Longrightarrow> sm_ok val sm"
  by (rule sm.inv_init) simp

lemma create_deployment_ok:
  assumes "mg_ok m" shows "mg_ok (snd (create_deployment m d st))"
proof -
  let ?sm = "snd (init_DeploymentStateMachine d st 1000)"
  have "deployment_entry_ok (d, ?sm)"
    by (simp add: deployment_entry_ok_def init_DeploymentStateMachine_eq sm_ok_fresh)
  then show ?thesis using assms
    by (auto simp: create_deployment_def mg_ok_def init_DeploymentStateMachine_eq set_dict_set
        intro: dict_ok_set) (auto simp: run_entry_ok_def)
qed

lemma create_run_ok:
  assumes "mg_ok m" shows "mg_ok (snd (create_run m i d st))"
proof (cases "dict_has (mg_runs m) i \<or> \<not> dict_has (mg_deployments m) d")
  case True
  with assms show ?thesis by (auto simp: create_run_def)
next
  case False
  then have "run_entry_ok (mg_deployments m) (i, snd (init_RunStateMachine i d st 500))"
    by (simp add: run_entry_ok_def init_RunStateMachine_eq sm_ok_fresh)
  with False assms show ?thesis
    by (auto simp: create_run_def mg_ok_def init_RunStateMachine_eq set_dict_set intro: dict_ok_set)
qed

lemma del_runs_all:
  "distinct is \<Longrightarrow> set is \<subseteq> set (dict_keys d) \<Longrightarrow>
   del_runs d is = (Inr (), filter (\<lambda>p. fst p \<notin> set is) d)"
proof (induction "is" arbitrary: d)
  case Nil
  then show ?case by simp
next
  case (Cons i "is")
  have "del_runs (dict_del d i) is = (Inr (), filter (\<lambda>p. fst p \<notin> set is) (dict_del d i))"
    using Cons.prems by (intro Cons.IH) (auto simp: dict_keys_del)
  moreover have "filter (\<lambda>p. fst p \<notin> set is) (dict_del d i) = filter (\<lambda>p. fst p \<notin> set (i # is)) d"
    by (auto simp: dict_del_def intro: filter_cong)
  moreover have "dict_has d i" using Cons.prems by (simp add: dict_has_iff)
  ultimately show ?case by simp
qed

text \<open>Under the invariant, removing a deployment removes exactly its runs and never raises.\<close>

lemma remove_deployment_eq:
  assumes ok: "mg_ok m" and has: "dict_has (mg_deployments m) d"
  shows "remove_deployment m d = (Inr True,
    m\<lparr>mg_runs := filter (\<lambda>p. rm_deployment_id (snd p) \<noteq> d) (mg_runs m),
      mg_deployments := dict_del (mg_deployments m) d\<rparr>)"
proof -
  let ?runs = "mg_runs m"
  let ?mine = "filter (\<lambda>p. rm_deployment_id (snd p) = d) ?runs"
  have ids: "map sm_entity_id (get_runs_for_deployment m d) = map fst ?mine"
    using ok by (auto simp: get_runs_for_deployment_def filter_map mg_ok_def run_entry_ok_def comp_def)
  have dist: "distinct (map fst ?runs)" using ok by (simp add: mg_ok_def dict_ok_def)
  have "del_runs ?runs (map fst ?mine) =
      (Inr (), filter (\<lambda>p. fst p \<notin> set (map fst ?mine)) ?runs)"
    by (rule del_runs_all) (use dist in \<open>auto intro: distinct_map_filter\<close>)
  moreover have "fst p \<in> set (map fst ?mine) \<longleftrightarrow> rm_deployment_id (snd p) = d" if "p \<in> set ?runs" for p
  proof
    assume "fst p \<in> set (map fst ?mine)"
    then obtain q where q: "q \<in> set ?runs" "rm_deployment_id (snd q) = d" "fst q = fst p" by auto
    then have "q = p" using that dist by (metis eq_key_imp_eq_value prod.collapse)
    with q show "rm_deployment_id (snd p) = d" by simp
  qed (use that in auto)
  then have "filter (\<lambda>p. fst p \<notin> set (map fst ?mine)) ?runs =
      filter (\<lambda>p. rm_deployment_id (snd p) \<noteq> d) ?runs"
    by (intro filter_cong) auto
  ultimately show ?thesis using has by (simp only: remove_deployment_def ids Let_def) simp
qed

lemma remove_deployment_ok:
  assumes "mg_ok m" shows "mg_ok (snd (remove_deployment m d))"
proof (cases "dict_has (mg_deployments m) d")
  case True
  have "deployment_entry_ok p" if "p \<in> set (dict_del (mg_deployments m) d)" for p
    using assms that by (auto simp: mg_ok_def dict_del_def)
  moreover have "run_entry_ok (dict_del (mg_deployments m) d) p"
    if "p \<in> set (mg_runs m)" "rm_deployment_id (snd p) \<noteq> d" for p
    using assms that by (auto simp: mg_ok_def run_entry_ok_def)
  moreover have "dict_ok (filter (\<lambda>p. rm_deployment_id (snd p) \<noteq> d) (mg_runs m))"
    using assms by (simp add: mg_ok_def dict_ok_def distinct_map_filter)
  ultimately show ?thesis
    using assms by (intro mg_okI) (auto simp: remove_deployment_eq [OF assms True] mg_ok_def)
next
  case False
  with assms show ?thesis by (simp add: remove_deployment_def)
qed

lemma on_deployment_ok:
  assumes ok: "mg_ok m" shows "mg_ok (mg_exec m (On_deployment d c))"
proof (cases "get_deployment m d")
  case None
  with ok show ?thesis by simp
next
  case (Some sm)
  then have "(d, sm) \<in> set (mg_deployments m)" by (auto simp: get_deployment_def dest: map_of_SomeD)
  with ok have "deployment_entry_ok (d, sm)" by (auto simp: mg_ok_def)
  then have "deployment_entry_ok (d, sm_exec DeploymentState_value sm c)"
    by (simp add: deployment_entry_ok_def sm.inv_step)
  with ok Some show ?thesis
    by (auto simp: mg_ok_def set_dict_set intro: dict_ok_set) (auto simp: run_entry_ok_def)
qed

lemma on_run_ok:
  assumes ok: "mg_ok m" shows "mg_ok (mg_exec m (On_run i c))"
proof (cases "get_run m i")
  case None
  with ok show ?thesis by simp
next
  case (Some sm)
  then have "(i, sm) \<in> set (mg_runs m)" by (auto simp: get_run_def dest: map_of_SomeD)
  with ok have "run_entry_ok (mg_deployments m) (i, sm)" by (auto simp: mg_ok_def)
  then have "run_entry_ok (mg_deployments m) (i, sm_exec RunState_value sm c)"
    by (simp add: run_entry_ok_def sm.inv_step)
  with ok Some show ?thesis by (auto simp: mg_ok_def set_dict_set intro: dict_ok_set)
qed

interpretation mg: step_system "\<lambda>m. m = init_StateMachineManager" mg_exec mg_ok
proof (unfold_locales, goal_cases)
  case (1 s)
  then show ?case by (simp add: init_StateMachineManager_def mg_ok_def)
next
  case (2 s l)
  then show ?case
  proof (cases l)
    case (Remove_run i)
    with 2 show ?thesis
      by (auto simp: remove_run_def mg_ok_def dict_del_def dict_ok_def distinct_map_filter)
  qed (auto simp: create_deployment_ok create_run_ok remove_deployment_ok on_deployment_ok on_run_ok
      simp del: mg_exec.simps(5,6))
qed

subsection \<open>Properties of the two machines\<close>

text \<open>The machine a constructor call followed by any calls leaves behind.\<close>

abbreviation deployment_after ::
  "string \<Rightarrow> DeploymentState \<Rightarrow> int \<Rightarrow> (DeploymentState, 'kw) sm_call list \<Rightarrow> 'kw deployment_machine" where
  "deployment_after d st n cs \<equiv>
     sm_run DeploymentState_value (snd (init_DeploymentStateMachine d st n)) cs"

abbreviation run_after ::
  "string \<Rightarrow> string \<Rightarrow> RunState \<Rightarrow> int \<Rightarrow> (RunState, 'kw) sm_call list \<Rightarrow> 'kw run_machine" where
  "run_after i d st n cs \<equiv> sm_run RunState_value (snd (init_RunStateMachine i d st n)) cs"

lemma deployment_after_table [simp]:
  "sm_transitions (deployment_after d st n cs) = table_dict deployment_transitions"
  by (simp add: init_DeploymentStateMachine_eq)

lemma run_after_table [simp]: "sm_transitions (run_after i d st n cs) = table_dict run_transitions"
  by (simp add: init_RunStateMachine_eq)

text \<open>
  C14: A deployment that is not trading cannot be brought to RUNNING by any sequence of
  trigger calls none of which carries an approver, from whatever state it was created in.
\<close>

theorem deployment_running_needs_approval:
  assumes "st \<noteq> DS_RUNNING" and "list_all is_trigger cs"
    and "list_all (\<lambda>c. \<not> truthy (call_approver c)) cs"
  shows "sm_current_state (deployment_after d st n cs) \<noteq> DS_RUNNING"
  using assms
  by (intro dep.unapproved_run) (simp_all add: init_DeploymentStateMachine_eq)

theorem deployment_running_needs_approval_witness:
  "DS_ENROLLED \<noteq> DS_RUNNING \<and>
   sm_current_state (deployment_after ''d'' DS_ENROLLED 1000
     [Trigger_call 0 ''START_RUN'' None None None (), Trigger_call 1 ''START_RUN'' None None (Some []) ()])
   \<noteq> DS_RUNNING"
proof -
  let ?cs = "[Trigger_call 0 ''START_RUN'' None None None (), Trigger_call 1 ''START_RUN'' None None (Some []) ()]"
  show ?thesis using deployment_running_needs_approval [of DS_ENROLLED ?cs "''d''" 1000] by simp
qed

text \<open>
  Once credentials are revoked (or the deployment is terminated), no sequence of triggers
  brings it back: only REVOKED and TERMINATED are ever seen again, approved or not.
\<close>

theorem revoked_deployment_never_returns:
  fixes cs cs' :: "(DeploymentState, 'kw) sm_call list"
  assumes "sm_current_state (deployment_after d st n cs) \<in> {DS_REVOKED, DS_TERMINATED}"
    and "list_all is_trigger cs'"
  shows "sm_current_state (deployment_after d st n (cs @ cs')) \<in> {DS_REVOKED, DS_TERMINATED}"
proof -
  have "to_state t \<in> {DS_REVOKED, DS_TERMINATED}"
    if "t \<in> set (deployment_transitions :: (DeploymentState, 'kw) StateTransition list)" "from_state t \<in> {DS_REVOKED, DS_TERMINATED}" for t
    using that by (auto simp: table_defs)
  then have "sm_current_state (sm_run DeploymentState_value (deployment_after d st n cs) cs')
      \<in> {DS_REVOKED, DS_TERMINATED}"
    by (rule dep.closed_run [OF _ deployment_after_table assms(2,1)])
  then show ?thesis by simp
qed

theorem revoked_deployment_never_returns_witness:
  "sm_current_state (deployment_after ''d'' DS_REVOKED 10 [] :: unit deployment_machine) \<in> {DS_REVOKED, DS_TERMINATED} \<and>
   sm_current_state (deployment_after ''d'' DS_REVOKED 10
     ([] @ [Trigger_call 0 ''START_RUN'' None None (Some ''ops'') ()])) \<in> {DS_REVOKED, DS_TERMINATED}"
proof -
  have h: "sm_current_state (deployment_after ''d'' DS_REVOKED 10 [] :: unit deployment_machine) \<in> {DS_REVOKED, DS_TERMINATED}"
    by (simp add: init_DeploymentStateMachine_eq)
  show ?thesis using h revoked_deployment_never_returns [OF h,
      of "[Trigger_call 0 ''START_RUN'' None None (Some ''ops'') ()]"] by simp
qed

text \<open>
  A deployment machine implements its transition graph: for a call whose key is not a
  repeat, trigger returns a state exactly when the table has that edge and an approver is
  given where the edge asks for one.
\<close>

theorem deployment_trigger_implements_table:
  fixes cs :: "(DeploymentState, 'kw) sm_call list" and kw :: 'kw
  assumes "\<not> (truthy ik \<and> is_duplicate (deployment_after d st n cs) (the ik))"
  shows "fst (trigger DeploymentState_value now (deployment_after d st n cs) e md ik ab kw) = Inr st' \<longleftrightarrow>
    (\<exists>t \<in> set (deployment_transitions :: (DeploymentState, 'kw) StateTransition list).
       from_state t = sm_current_state (deployment_after d st n cs) \<and>
       tr_event t = e \<and> to_state t = st' \<and> (requires_approval t \<longrightarrow> truthy ab))"
  by (rule dep.trigger_success_iff [OF deployment_after_table assms])

theorem deployment_trigger_implements_table_witness:
  "\<not> (truthy (None :: string option) \<and> is_duplicate (deployment_after ''d'' DS_ENROLLED 5 [] :: unit deployment_machine) (the None)) \<and>
   fst (trigger DeploymentState_value 0 (deployment_after ''d'' DS_ENROLLED 5 []) ''START_RUN'' None
     None (Some ''ops'') ()) = Inr DS_RUNNING"
proof -
  have h: "\<not> (truthy (None :: string option) \<and>
      is_duplicate (deployment_after ''d'' DS_ENROLLED 5 [] :: unit deployment_machine) (the None))" by simp
  have "(approval_transition DS_ENROLLED DS_RUNNING ''START_RUN'' :: (DeploymentState, unit) StateTransition)
      \<in> set deployment_transitions"
    by (simp add: deployment_transitions_def)
  then have "\<exists>t \<in> set (deployment_transitions :: (DeploymentState, unit) StateTransition list).
      from_state t = sm_current_state (deployment_after ''d'' DS_ENROLLED 5 [] :: unit deployment_machine) \<and>
      tr_event t = ''START_RUN'' \<and> to_state t = DS_RUNNING \<and>
      (requires_approval t \<longrightarrow> truthy (Some ''ops''))"
    by (rule rev_bexI) (simp add: init_DeploymentStateMachine_eq approval_transition_def plain_transition_def)
  with h deployment_trigger_implements_table [OF h] show ?thesis by blast
qed

text \<open>
  The stop action is always at hand: in every state but STOPPED a run accepts STOP without
  an approver, and ends in STOPPED; STOPPED is final.
\<close>

theorem run_stop_always_available:
  fixes cs cs' :: "(RunState, 'kw) sm_call list" and kw :: 'kw
  assumes "sm_current_state (run_after i d st n cs) \<noteq> RS_STOPPED" and "list_all is_trigger cs'"
  shows "fst (trigger RunState_value now (run_after i d st n cs) ''STOP'' md None None kw) = Inr RS_STOPPED \<and>
    sm_current_state (run_after i d st n
      (cs @ Trigger_call now ''STOP'' md None None kw # cs')) = RS_STOPPED"
proof -
  let ?sm = "run_after i d st n cs" and ?c = "Trigger_call now ''STOP'' md None None kw"
  have "\<exists>t \<in> set (run_transitions :: (RunState, 'kw) StateTransition list).
      from_state t = sm_current_state ?sm \<and> tr_event t = ''STOP'' \<and>
      to_state t = RS_STOPPED \<and> (requires_approval t \<longrightarrow> truthy None)"
    using assms(1) by (cases "sm_current_state ?sm") (auto simp: table_defs)
  then have ok: "fst (trigger RunState_value now ?sm ''STOP'' md None None kw) = Inr RS_STOPPED"
    by (subst rn.trigger_success_iff [OF run_after_table]) auto
  then have "sm_current_state (sm_exec RunState_value ?sm ?c) = RS_STOPPED"
    by (cases rule: trigger_cases [of None ?sm RunState_value now "''STOP''" md None kw]) auto
  then have "sm_current_state (sm_run RunState_value (sm_exec RunState_value ?sm ?c) cs') = RS_STOPPED"
    by (intro rn.terminal_run) (simp_all only: sm_exec_frame run_after_table assms(2))
  with ok show ?thesis by simp
qed

theorem run_stop_always_available_witness:
  "sm_current_state (run_after ''r'' ''d'' RS_HALTED 5 [] :: unit run_machine) \<noteq> RS_STOPPED \<and>
   fst (trigger RunState_value 7 (run_after ''r'' ''d'' RS_HALTED 5 []) ''STOP'' None None None ()) = Inr RS_STOPPED"
proof -
  have h: "sm_current_state (run_after ''r'' ''d'' RS_HALTED 5 [] :: unit run_machine) \<noteq> RS_STOPPED"
    by (simp add: init_RunStateMachine_eq)
  show ?thesis using h run_stop_always_available [OF h, of "[]"] by simp
qed

text \<open>
  A run that has left INITIALIZING and is not running (paused, halted or stopped) does not
  trade again unless some trigger call carries an approver.
\<close>

theorem run_resume_needs_approval:
  fixes cs cs' :: "(RunState, 'kw) sm_call list"
  assumes "sm_current_state (run_after i d st n cs) \<in> {RS_PAUSED, RS_HALTED, RS_STOPPED}"
    and "list_all is_trigger cs'" and "list_all (\<lambda>c. \<not> truthy (call_approver c)) cs'"
  shows "sm_current_state (run_after i d st n (cs @ cs')) \<noteq> RS_RUNNING"
  using rn.unapproved_run [OF run_after_table, of cs' i d st n cs] assms by auto

theorem run_resume_needs_approval_witness:
  "sm_current_state (run_after ''r'' ''d'' RS_PAUSED 5 [] :: unit run_machine) \<in> {RS_PAUSED, RS_HALTED, RS_STOPPED} \<and>
   sm_current_state (run_after ''r'' ''d'' RS_PAUSED 5
     ([] @ [Trigger_call 0 ''RESUME'' None None None ()])) \<noteq> RS_RUNNING"
proof -
  have h: "sm_current_state (run_after ''r'' ''d'' RS_PAUSED 5 [] :: unit run_machine)
      \<in> {RS_PAUSED, RS_HALTED, RS_STOPPED}"
    by (simp add: init_RunStateMachine_eq)
  show ?thesis using h run_resume_needs_approval [OF h, of "[Trigger_call 0 ''RESUME'' None None None ()]"]
    by simp
qed

text \<open>
  Idempotency.  After a trigger with a new key succeeded, a call with the same key, whatever
  its event, is ignored as long as fewer calls than the history bound came in between: it
  returns the current state and leaves the machine as it is.
\<close>

theorem trigger_idempotent_within_window:
  assumes "trigger val now sm e md (Some k) ab kw = (Inr st, sm')" and "k \<noteq> []"
    and "\<not> is_duplicate sm k" and "int (length cs) < sm_max_history sm"
  shows "trigger val now' (sm_run val sm' cs) e' md' (Some k) ab' kw' =
    (Inr (sm_current_state (sm_run val sm' cs)), sm_run val sm' cs)"
proof -
  have max: "0 < sm_max_history sm" using assms(4) by linarith
  have eq: "sm_max_history sm' = sm_max_history sm"
    using assms(1) sm_exec_frame(2) [of val sm "Trigger_call now e md (Some k) ab kw"] by simp
  have "recent_key 0 k sm'" using trigger_makes_recent [OF assms(1-3) max] .
  then have "recent_key (0 + length cs) k (sm_run val sm' cs)"
    by (rule recent_key_run) (simp add: eq assms(4))
  then show ?thesis using assms(2) by (intro trigger_duplicate) (auto dest: recent_key_duplicate)
qed

theorem trigger_idempotent_within_window_witness:
  "\<exists>sm'. trigger RunState_value 0 (run_after ''r'' ''d'' RS_RUNNING 5 []) ''PAUSE'' None (Some ''k1'') None ()
      = (Inr RS_PAUSED, sm') \<and>
    trigger RunState_value 1 (sm_run RunState_value sm' []) ''STOP'' None (Some ''k1'') None () =
      (Inr (sm_current_state (sm_run RunState_value sm' [])), sm_run RunState_value sm' [])"
proof -
  let ?sm = "run_after ''r'' ''d'' RS_RUNNING 5 [] :: unit run_machine"
  let ?t = "trigger RunState_value 0 ?sm ''PAUSE'' None (Some ''k1'') None ()"
  have h: "?t = (Inr RS_PAUSED, snd ?t)"
    by (simp add: init_RunStateMachine_eq trigger_def is_duplicate_def table_dict_def table_defs
        guard_failure_def Let_def)
  have nd: "\<not> is_duplicate ?sm ''k1''" by (simp add: is_duplicate_def init_RunStateMachine_eq)
  show ?thesis
    using h trigger_idempotent_within_window [OF h _ nd, of "[]"]
    by (intro exI [of _ "snd ?t"]) (simp add: init_RunStateMachine_eq)
qed

text \<open>
  The audit trail.  With a positive history bound, after any calls, forced changes included,
  the retained history is a gapless chain that ends in the current state, and it never
  exceeds the bound; for deployments and for runs.
\<close>

theorem history_is_bounded_audit_chain:
  assumes "0 < n"
  shows "sm_ok DeploymentState_value (deployment_after d st n cs) \<and>
    sm_ok RunState_value (run_after i d' st' n cs')"
proof
  show "sm_ok DeploymentState_value (deployment_after d st n cs)"
    by (rule sm.inv_reachable) (simp add: init_DeploymentStateMachine_eq assms)
  show "sm_ok RunState_value (run_after i d' st' n cs')"
    by (rule sm.inv_reachable) (simp add: init_RunStateMachine_eq assms)
qed

theorem history_is_bounded_audit_chain_witness:
  "(0 :: int) < 1 \<and> sm_ok DeploymentState_value (deployment_after ''d'' DS_CREATED 1
     [Trigger_call 0 ''INITIATE_ENROLLMENT'' None None None (), Force_call 1 DS_STOPPED ''x''])"
  using history_is_bounded_audit_chain [of 1 "''d''" DS_CREATED
      "[Trigger_call 0 ''INITIATE_ENROLLMENT'' None None None (), Force_call 1 DS_STOPPED ''x'']", THEN conjunct1]
  by simp

text \<open>
  A refused trigger has no effect but the note of the transition that waits for approval:
  state, history, table and identity are unchanged, and the note is set exactly when the
  refusal is the missing approval.
\<close>

theorem refused_trigger_changes_nothing:
  assumes "trigger val now sm e md ik ab kw = (Inl err, sm')"
  shows "sm' = sm \<and> (\<forall>t. dict_get (sm_transitions sm) (sm_current_state sm, e) = Some t \<longrightarrow>
           requires_approval t \<longrightarrow> truthy ab)
    \<or> (\<exists>t. dict_get (sm_transitions sm) (sm_current_state sm, e) = Some t \<and> requires_approval t \<and>
         \<not> truthy ab \<and> sm' = sm\<lparr>sm_pending_approval := Some t\<rparr> \<and>
         guard_name err = ''approval_required'')"
  using assms by (auto simp: trigger_def Let_def split: if_splits option.splits)

theorem refused_trigger_changes_nothing_witness:
  "\<exists>t sm'. trigger DeploymentState_value 0 (deployment_after ''d'' DS_ENROLLED 5 []) ''START_RUN'' None None
      None () = (Inl (GuardConditionFailedError ''Approval required for this transition'' ''approval_required''), sm') \<and>
    sm' = (deployment_after ''d'' DS_ENROLLED 5 [])\<lparr>sm_pending_approval := Some t\<rparr>"
proof -
  let ?sm = "deployment_after ''d'' DS_ENROLLED 5 [] :: unit deployment_machine"
  let ?t = "trigger DeploymentState_value 0 ?sm ''START_RUN'' None None None ()"
  have h: "?t = (Inl (GuardConditionFailedError ''Approval required for this transition''
      ''approval_required''), snd ?t)"
    by (simp add: init_DeploymentStateMachine_eq trigger_def is_duplicate_def table_dict_def table_defs)
  have g: "dict_get (sm_transitions ?sm) (sm_current_state ?sm, ''START_RUN'') =
      Some (approval_transition DS_ENROLLED DS_RUNNING ''START_RUN'')"
    by (simp add: init_DeploymentStateMachine_eq table_dict_def table_defs)
  show ?thesis using refused_trigger_changes_nothing [OF h] g h
    by (auto simp: approval_transition_def)
qed

text \<open>
  Whatever calls a manager and its machines receive, every run belongs to a registered
  deployment, every machine is filed under its own id and keeps its class's table, and
  all histories are bounded audit chains.
\<close>

theorem manager_has_no_orphans:
  "mg_ok (foldl mg_exec init_StateMachineManager cs) \<and>
   (\<forall>i r. get_run (foldl mg_exec init_StateMachineManager cs) i = Some r \<longrightarrow>
      (\<exists>d. get_deployment (foldl mg_exec init_StateMachineManager cs) (rm_deployment_id r) = Some d))"
proof -
  have ok: "mg_ok (foldl mg_exec init_StateMachineManager cs)" by (rule mg.inv_reachable) simp
  then have "dict_has (mg_deployments (foldl mg_exec init_StateMachineManager cs)) (rm_deployment_id r)"
    if "get_run (foldl mg_exec init_StateMachineManager cs) i = Some r" for i r
    using that by (fastforce simp: mg_ok_def run_entry_ok_def get_run_def dest: map_of_SomeD)
  then show ?thesis using ok by (auto simp: get_deployment_def dict_has_def)
qed

theorem manager_has_no_orphans_witness:
  "\<exists>r d. get_run (foldl mg_exec init_StateMachineManager
       [Create_deployment ''d'' DS_CREATED, Create_run ''r'' ''d'' RS_INITIALIZING] :: unit StateMachineManager) ''r'' = Some r \<and>
     get_deployment (foldl mg_exec init_StateMachineManager
       [Create_deployment ''d'' DS_CREATED, Create_run ''r'' ''d'' RS_INITIALIZING] :: unit StateMachineManager)
       (rm_deployment_id r) = Some d"
proof -
  let ?cs = "[Create_deployment ''d'' DS_CREATED, Create_run ''r'' ''d'' RS_INITIALIZING] :: unit mg_call list"
  have "\<exists>r. get_run (foldl mg_exec init_StateMachineManager ?cs) ''r'' = Some r"
    by (simp add: create_deployment_def create_run_def init_StateMachineManager_def get_run_def dict_has_def
        init_DeploymentStateMachine_eq init_RunStateMachine_eq)
  then show ?thesis using manager_has_no_orphans [of ?cs] by blast
qed

text \<open>
  Removing a registered deployment never raises, deletes exactly the runs of that deployment
  and the deployment itself, and keeps every other entry, in every manager any calls lead to.
\<close>

theorem remove_deployment_cascades:
  assumes "dict_has (mg_deployments (foldl mg_exec init_StateMachineManager cs)) d"
  shows "remove_deployment (foldl mg_exec init_StateMachineManager cs) d = (Inr True,
    \<lparr>mg_deployments = dict_del (mg_deployments (foldl mg_exec init_StateMachineManager cs)) d,
     mg_runs = filter (\<lambda>p. rm_deployment_id (snd p) \<noteq> d)
       (mg_runs (foldl mg_exec init_StateMachineManager cs))\<rparr>)"
proof -
  have "mg_ok (foldl mg_exec init_StateMachineManager cs)" by (rule mg.inv_reachable) simp
  from remove_deployment_eq [OF this assms] show ?thesis
    by (cases "foldl mg_exec init_StateMachineManager cs") simp
qed

theorem remove_deployment_cascades_witness:
  "dict_has (mg_deployments (foldl mg_exec init_StateMachineManager
       [Create_deployment ''d'' DS_CREATED, Create_run ''r'' ''d'' RS_INITIALIZING] :: unit StateMachineManager)) ''d'' \<and>
   fst (remove_deployment (foldl mg_exec init_StateMachineManager
       [Create_deployment ''d'' DS_CREATED, Create_run ''r'' ''d'' RS_INITIALIZING] :: unit StateMachineManager) ''d'') = Inr True"
proof -
  let ?cs = "[Create_deployment ''d'' DS_CREATED, Create_run ''r'' ''d'' RS_INITIALIZING] :: unit mg_call list"
  have h: "dict_has (mg_deployments (foldl mg_exec init_StateMachineManager ?cs)) ''d''"
    by (simp add: create_deployment_def create_run_def init_StateMachineManager_def
        init_DeploymentStateMachine_eq init_RunStateMachine_eq dict_has_def)
  show ?thesis using h remove_deployment_cascades [OF h] by simp
qed

end
