(* ===== verification/Py_Text.thy ===== *)
theory Py_Text
  imports Prelude
begin

section \<open>Text: numbers, searching, splitting\<close>

text \<open>
  What the parsers and printers of the components take from Python's \<^verbatim>\<open>str\<close>: decimal
  digits and \<^verbatim>\<open>int(s)\<close>, \<^verbatim>\<open>strip\<close>, \<^verbatim>\<open>find\<close> and
  \<^verbatim>\<open>rfind\<close>, \<^verbatim>\<open>split\<close>, \<^verbatim>\<open>partition\<close>,
  \<^verbatim>\<open>join\<close>, \<^verbatim>\<open>upper\<close>.  Conversions between integers and
  decimal text refuse more than 4300 digits, as the interpreter does.
\<close>

named_theorems text_simps \<open>rewrite rules of the text functions\<close>

subsection \<open>Decimal text\<close>

definition is_digit :: "char \<Rightarrow> bool" where
  "is_digit c = (48 \<le> (of_char c :: nat) \<and> of_char c \<le> (57 :: nat))"

definition digit_val :: "char \<Rightarrow> nat" where
  "digit_val c = of_char c - 48"

definition digit_char :: "nat \<Rightarrow> char" where
  "digit_char d = char_of (48 + d)"

definition digits_val :: "string \<Rightarrow> nat" where
  "digits_val ds = foldl (\<lambda>n c. 10 * n + digit_val c) 0 ds"

fun str_nat :: "nat \<Rightarrow> string" where
  "str_nat n = (if n < 10 then [digit_char n] else str_nat (n div 10) @ [digit_char (n mod 10)])"

declare str_nat.simps [simp del]

definition max_str_digits :: nat where
  "max_str_digits = 4300"

definition is_space :: "char \<Rightarrow> bool" where
  "is_space c = (of_char c \<in> ({9, 10, 11, 12, 13, 28, 29, 30, 31, 32, 133, 160} :: nat set))"

definition strip :: "string \<Rightarrow> string" where
  "strip s = rev (dropWhile is_space (rev (dropWhile is_space s)))"

definition str_int :: "int \<Rightarrow> string" where
  "str_int i = (if i < 0 then ''-'' @ str_nat (nat (- i)) else str_nat (nat i))"

fun join :: "string \<Rightarrow> string list \<Rightarrow> string" where
  "join sep [] = []"
| "join sep [x] = x"
| "join sep (x # xs) = x @ sep @ join sep xs"

text \<open>
  \<^verbatim>\<open>int(s)\<close> for a text: surrounding white space, a sign, digits with single
  underscores between them.  The white space here is not quite that of \<^verbatim>\<open>strip\<close>: the
  four separators 28 to 31 are not skipped.
\<close>

fun split_on :: "char \<Rightarrow> string \<Rightarrow> string list" where
  "split_on c [] = [[]]"
| "split_on c (x # xs) =
     (if x = c then [] # split_on c xs
      else case split_on c xs of [] \<Rightarrow> [[x]] | g # gs \<Rightarrow> (x # g) # gs)"

definition int_space :: "char \<Rightarrow> bool" where
  "int_space c = (of_char c \<in> ({9, 10, 11, 12, 13, 32, 133, 160} :: nat set))"

definition int_strip :: "string \<Rightarrow> string" where
  "int_strip s = rev (dropWhile int_space (rev (dropWhile int_space s)))"

definition py_digits :: "string \<Rightarrow> nat option" where
  "py_digits s =
     (let gs = split_on (CHR ''_'') s in
      if list_all (\<lambda>g. g \<noteq> [] \<and> list_all is_digit g) gs \<and> length (concat gs) \<le> max_str_digits
      then Some (digits_val (concat gs)) else None)"

definition py_int :: "string \<Rightarrow> int option" where
  "py_int s =
     (case int_strip s of
        [] \<Rightarrow> None
      | c # cs \<Rightarrow>
          if c = CHR ''-'' then map_option (\<lambda>n. - int n) (py_digits cs)
          else if c = CHR ''+'' then map_option int (py_digits cs)
          else map_option int (py_digits (c # cs)))"

subsection \<open>Searching\<close>

text \<open>
  \<^verbatim>\<open>s.find(t)\<close>, \<^verbatim>\<open>s.find(t, i)\<close> for \<open>0 \<le> i\<close> and
  \<^verbatim>\<open>s.rfind(t)\<close>, the answer \<open>-1\<close> being \<open>None\<close>.
\<close>

fun find_sub :: "string \<Rightarrow> string \<Rightarrow> nat option" where
  "find_sub t [] = (if t = [] then Some 0 else None)"
| "find_sub t (c # cs) = (if prefix t (c # cs) then Some 0 else map_option Suc (find_sub t cs))"

definition find_at :: "string \<Rightarrow> string \<Rightarrow> nat \<Rightarrow> nat option" where
  "find_at t s i = (if length s < i then None else map_option (\<lambda>k. i + k) (find_sub t (drop i s)))"

fun rfind_sub :: "string \<Rightarrow> string \<Rightarrow> nat option" where
  "rfind_sub t [] = (if t = [] then Some 0 else None)"
| "rfind_sub t (c # cs) =
     (case rfind_sub t cs of
        Some k \<Rightarrow> Some (Suc k)
      | None \<Rightarrow> if prefix t (c # cs) then Some 0 else None)"

text \<open>\<^verbatim>\<open>s.partition(c)\<close>: before, whether \<open>c\<close> occurs, after.\<close>

definition partition_at :: "char \<Rightarrow> string \<Rightarrow> string \<times> bool \<times> string" where
  "partition_at c s = (takeWhile (\<lambda>x. x \<noteq> c) s, c \<in> set s, drop 1 (dropWhile (\<lambda>x. x \<noteq> c) s))"

text \<open>
  \<^verbatim>\<open>s.upper()\<close>.  The capitals of the characters 181 and 255 lie above the 256 code
  points and are kept; no text the sources compare with contains them.
\<close>

definition upper_char :: "char \<Rightarrow> string" where
  "upper_char c =
     (let n = of_char c :: nat in
      if (97 \<le> n \<and> n \<le> 122) \<or> (224 \<le> n \<and> n \<le> 254 \<and> n \<noteq> 247) then [char_of (n - 32)]
      else if n = 223 then ''SS'' else [c])"

definition upper :: "string \<Rightarrow> string" where
  "upper s = concat (map upper_char s)"

subsection \<open>Lemmas on numbers\<close>

lemma digit_char_digit [simp]: "d < 10 \<Longrightarrow> is_digit (digit_char d)"
  by (simp add: is_digit_def digit_char_def)

lemma digit_val_char [simp]: "d < 10 \<Longrightarrow> digit_val (digit_char d) = d"
  by (simp add: digit_val_def digit_char_def)

lemma digit_not_space: "is_digit c \<Longrightarrow> \<not> is_space c"
  by (auto simp: is_digit_def is_space_def)

lemma dot_not_digit [simp]: "\<not> is_digit CHR ''.''"
  by (simp add: is_digit_def)

lemma str_nat_nonempty [simp]: "str_nat n \<noteq> []"
  by (subst str_nat.simps) simp

lemma str_nat_digits: "c \<in> set (str_nat n) \<Longrightarrow> is_digit c"
proof (induction n rule: str_nat.induct)
  case (1 n)
  then show ?case by (cases "n < 10") (auto simp: str_nat.simps [of n])
qed

lemma digits_val_snoc: "digits_val (ds @ [c]) = 10 * digits_val ds + digit_val c"
  by (simp add: digits_val_def)

lemma digits_val_str_nat [simp]: "digits_val (str_nat n) = n"
proof (induction n rule: str_nat.induct)
  case (1 n)
  show ?case
  proof (cases "n < 10")
    case True
    then show ?thesis by (simp add: str_nat.simps [of n] digits_val_def)
  next
    case False
    with 1 show ?thesis by (simp add: str_nat.simps [of n] digits_val_snoc)
  qed
qed

lemma str_nat_length: "0 < k \<Longrightarrow> n < 10 ^ k \<Longrightarrow> length (str_nat n) \<le> k"
proof (induction n arbitrary: k rule: str_nat.induct)
  case (1 n)
  show ?case
  proof (cases "n < 10")
    case True
    with "1.prems" show ?thesis by (simp add: str_nat.simps [of n])
  next
    case False
    with "1.prems" obtain j where k: "k = Suc j" "0 < j"
      by (cases k; cases "k - 1") auto
    from "1.prems"(2) k have "n div 10 < 10 ^ j" by (simp add: less_mult_imp_div_less)
    with "1.IH" [OF False k(2)] False k show ?thesis by (simp add: str_nat.simps [of n])
  qed
qed

text \<open>The length of a Python object is below \<open>2 ^ 63\<close>.\<close>

definition max_len :: nat where
  "max_len = 9223372036854775808"

lemma str_nat_printable: "n < max_len \<Longrightarrow> length (str_nat n) \<le> max_str_digits"
  using str_nat_length [of 19 n] by (simp add: max_len_def max_str_digits_def)

lemma split_on_absent: "c \<notin> set s \<Longrightarrow> split_on c s = [s]"
  by (induction s) auto

lemma split_on_snoc: "c \<notin> set a \<Longrightarrow> split_on c (a @ c # b) = a # split_on c b"
  by (induction a) auto

lemma split_on_not_Nil [simp]: "split_on c s \<noteq> []"
  by (induction s) (auto split: list.splits)

lemma split_on_frame: "c \<notin> set a \<Longrightarrow> split_on c (concat (map (\<lambda>x. x @ [c]) xs) @ a) = xs @ [a]"
  if "\<And>x. x \<in> set xs \<Longrightarrow> c \<notin> set x"
  using that by (induction xs) (auto simp: split_on_snoc split_on_absent)

lemma digit_not_int_space: "is_digit c \<Longrightarrow> \<not> int_space c"
  by (auto simp: is_digit_def int_space_def)

lemma dropWhile_head: "(\<And>x xs. s = x # xs \<Longrightarrow> \<not> P x) \<Longrightarrow> dropWhile P s = s"
  by (cases s) auto

lemma int_strip_digits: "list_all is_digit s \<Longrightarrow> int_strip s = s"
proof -
  assume s: "list_all is_digit s"
  then have "\<not> int_space c" if "c \<in> set s" for c
    using that by (auto simp: list_all_iff digit_not_int_space)
  then have "dropWhile int_space s = s" "dropWhile int_space (rev s) = rev s"
    by (auto intro!: dropWhile_head simp: rev_eq_Cons_iff)
  then show ?thesis by (simp add: int_strip_def)
qed

lemma digit_not_sign: "is_digit c \<Longrightarrow> c \<noteq> CHR ''_'' \<and> c \<noteq> CHR ''-'' \<and> c \<noteq> CHR ''+''"
  by (auto simp: is_digit_def)

lemma py_digits_digits:
  "list_all is_digit s \<Longrightarrow> s \<noteq> [] \<Longrightarrow> length s \<le> max_str_digits \<Longrightarrow> py_digits s = Some (digits_val s)"
  unfolding py_digits_def
  by (subst split_on_absent) (auto simp: list_all_iff dest: digit_not_sign)

lemma py_int_digits:
  "list_all is_digit s \<Longrightarrow> s \<noteq> [] \<Longrightarrow> length s \<le> max_str_digits \<Longrightarrow> py_int s = Some (int (digits_val s))"
  using py_digits_digits [of s]
  by (cases s) (auto simp: py_int_def int_strip_digits dest: digit_not_sign)

lemma py_int_str_nat [text_simps]:
  "length (str_nat n) \<le> max_str_digits \<Longrightarrow> py_int (str_nat n) = Some (int n)"
  using py_int_digits [of "str_nat n"] by (auto simp: list_all_iff str_nat_digits)

subsection \<open>Lemmas on searching\<close>

lemma find_sub_bound: "find_sub t s = Some k \<Longrightarrow> k + length t \<le> length s"
proof (induction s arbitrary: k)
  case Nil
  then show ?case by (auto split: if_splits)
next
  case (Cons a s)
  then show ?case by (auto split: if_splits dest!: prefix_length_le)
qed

lemma prefix_shorter: "prefix t (s @ x) \<Longrightarrow> length t \<le> length s \<Longrightarrow> prefix t s"
  by (metis prefix_append prefix_length_prefix prefix_order.refl prefixI)

lemma find_sub_append: "find_sub t s = Some k \<Longrightarrow> find_sub t (s @ x) = Some k"
proof (induction s arbitrary: k)
  case Nil
  then show ?case by (cases x) (auto split: if_splits)
next
  case (Cons a s)
  show ?case
  proof (cases "prefix t (a # s)")
    case True
    then have "prefix t (a # s @ x)" using prefix_prefix [of t "a # s" x] by simp
    with True Cons.prems show ?thesis by simp
  next
    case False
    with Cons.prems obtain z where z: "find_sub t s = Some z" "k = Suc z" by auto
    have "\<not> prefix t (a # s @ x)"
      using False find_sub_bound [OF z(1)] prefix_shorter [of t "a # s" x] by auto
    with z Cons.IH [OF z(1)] show ?thesis by simp
  qed
qed

lemma find_sub_prefix: "prefix t s \<Longrightarrow> find_sub t s = Some 0"
  by (cases s) auto

lemma find_sub_char: "c \<notin> set a \<Longrightarrow> find_sub [c] (a @ c # b) = Some (length a)"
  by (induction a) auto

lemma find_sub_led: "c \<notin> set a \<Longrightarrow> prefix (c # t) (c # b) \<Longrightarrow> find_sub (c # t) (a @ c # b) = Some (length a)"
  by (induction a) auto

lemma find_sub_char_None: "find_sub [c] s = None \<longleftrightarrow> c \<notin> set s"
  by (induction s) auto

lemma find_sub_charD: "find_sub [c] s = Some k \<Longrightarrow> k < length s \<and> s ! k = c \<and> c \<notin> set (take k s)"
  by (induction s arbitrary: k) (auto split: if_splits)

lemma find_at_append: "find_at t s i = Some k \<Longrightarrow> find_at t (s @ x) i = Some k"
  by (auto simp: find_at_def split: if_splits dest: find_sub_append [where x = x])

lemma find_at_bound: "find_at t s i = Some k \<Longrightarrow> i \<le> k \<and> k + length t \<le> length s"
  by (auto simp: find_at_def split: if_splits dest!: find_sub_bound)

lemma rfind_sub_bound: "rfind_sub t s = Some k \<Longrightarrow> k + length t \<le> length s \<and> prefix t (drop k s)"
proof (induction s arbitrary: k)
  case Nil
  then show ?case by (auto split: if_splits)
next
  case (Cons a s)
  then show ?case by (auto split: if_splits option.splits dest: prefix_length_le)
qed

text \<open>The last occurrence of a separator-led tag that does not occur in what follows.\<close>

lemma rfind_sub_last:
  assumes "rfind_sub t s = None" and "prefix t (c # s)"
  shows "rfind_sub t (a @ c # s) = Some (length a)"
  using assms by (induction a) auto

lemma rfind_sub_tail: "c \<notin> set a \<Longrightarrow> rfind_sub (c # t) b = None \<Longrightarrow> rfind_sub (c # t) (a @ b) = None"
  by (induction a) auto

lemma rfind_sub_absent: "c \<notin> set s \<Longrightarrow> rfind_sub (c # t) s = None"
  by (induction s) auto

lemma partition_at_first: "c \<notin> set a \<Longrightarrow> partition_at c (a @ c # b) = (a, True, b)"
proof -
  assume "c \<notin> set a"
  then have "takeWhile (\<lambda>x. x \<noteq> c) (a @ c # b) = a" "dropWhile (\<lambda>x. x \<noteq> c) (a @ c # b) = c # b"
    by (induction a) auto
  then show ?thesis by (simp add: partition_at_def)
qed

end
