(* ===== verification/Schema_Versioning.thy ===== *)
theory Schema_Versioning
  imports Py_Text
begin

section \<open>Schema version negotiation\<close>

text \<open>
  Model of \<^verbatim>\<open>ccea/protocol/schema_versioning.py\<close>: the semantic version type with its
  parser, printer and order, the Cloud side negotiator with its cache, and the two utility
  functions.  The regular expression \<^verbatim>\<open>^(\d+)\.(\d+)\.(\d+)$\<close> is deterministic (a dot
  is no digit), so matching it is splitting the digits off three times; \<^verbatim>\<open>$\<close> also
  matches before a final newline, and the code strips the text first.  Conversions between
  integers and decimal text refuse more than 4300 digits, as the interpreter does.
\<close>

subsection \<open>The version type\<close>

text \<open>The fields are declared \<^verbatim>\<open>ge=0\<close>, so they are naturals.\<close>

datatype SchemaVersion = SchemaVersion (major: nat) (minor: nat) (patch: nat)

datatype NegotiationStatus = NEG_PENDING | NEG_SUCCESS | NEG_FAILED | NEG_TIMEOUT

datatype VersionCompatibility =
    COMPATIBLE | INCOMPATIBLE_MAJOR | INCOMPATIBLE_TOO_OLD | INCOMPATIBLE_TOO_NEW | INVALID_VERSION

datatype version_error = Invalid_version_format string | Bad_range string string

definition to_tuple :: "SchemaVersion \<Rightarrow> nat \<times> nat \<times> nat" where
  "to_tuple v = (major v, minor v, patch v)"

text \<open>\<^verbatim>\<open>(\d+)\<close>: the longest run of digits, which must not be empty.\<close>

definition digit_group :: "string \<Rightarrow> (string \<times> string) option" where
  "digit_group s =
     (let ds = takeWhile is_digit s in if ds = [] then None else Some (ds, dropWhile is_digit s))"

definition dot :: "string \<Rightarrow> string option" where
  "dot s = (case s of c # cs \<Rightarrow> if c = CHR ''.'' then Some cs else None | [] \<Rightarrow> None)"

definition match_semver :: "string \<Rightarrow> (string \<times> string \<times> string) option" where
  "match_semver s =
     (case digit_group s of None \<Rightarrow> None | Some (a, r1) \<Rightarrow>
      (case dot r1 of None \<Rightarrow> None | Some r2 \<Rightarrow>
       (case digit_group r2 of None \<Rightarrow> None | Some (b, r3) \<Rightarrow>
        (case dot r3 of None \<Rightarrow> None | Some r4 \<Rightarrow>
         (case digit_group r4 of None \<Rightarrow> None | Some (c, r5) \<Rightarrow>
            if r5 = [] \<or> r5 = [CHR 10] then Some (a, b, c) else None)))))"

definition parse :: "string \<Rightarrow> version_error + SchemaVersion" where
  "parse version_str =
     (case match_semver (strip version_str) of
        None \<Rightarrow> Inl (Invalid_version_format version_str)
      | Some (a, b, c) \<Rightarrow>
          if length a > max_str_digits \<or> length b > max_str_digits \<or> length c > max_str_digits
          then Inl (Invalid_version_format version_str)
          else Inr (SchemaVersion (digits_val a) (digits_val b) (digits_val c)))"

definition str_version :: "SchemaVersion \<Rightarrow> string" where
  "str_version v = str_nat (major v) @ ''.'' @ str_nat (minor v) @ ''.'' @ str_nat (patch v)"

text \<open>\<^verbatim>\<open>__lt__\<close> and \<^verbatim>\<open>__le__\<close>: tuples in lexicographic order.\<close>

definition version_lt :: "SchemaVersion \<Rightarrow> SchemaVersion \<Rightarrow> bool" where
  "version_lt v w = (to_tuple v < to_tuple w)"

definition version_le :: "SchemaVersion \<Rightarrow> SchemaVersion \<Rightarrow> bool" where
  "version_le v w = (to_tuple v \<le> to_tuple w)"

lemmas version_order = version_lt_def version_le_def

instantiation SchemaVersion :: linorder
begin

definition less_SchemaVersion :: "SchemaVersion \<Rightarrow> SchemaVersion \<Rightarrow> bool" where
  "less_SchemaVersion = version_lt"

definition less_eq_SchemaVersion :: "SchemaVersion \<Rightarrow> SchemaVersion \<Rightarrow> bool" where
  "less_eq_SchemaVersion = version_le"

instance
proof
  fix x y z :: SchemaVersion
  have inj: "to_tuple x = to_tuple y \<Longrightarrow> x = y"
    by (cases x; cases y) (simp add: to_tuple_def)
  show "x < y \<longleftrightarrow> x \<le> y \<and> \<not> y \<le> x"
    by (auto simp: less_SchemaVersion_def less_eq_SchemaVersion_def version_order)
  show "x \<le> x" by (simp add: less_eq_SchemaVersion_def version_order)
  show "x \<le> y \<Longrightarrow> y \<le> z \<Longrightarrow> x \<le> z"
    unfolding less_eq_SchemaVersion_def version_order by (rule order_trans)
  show "x \<le> y \<Longrightarrow> y \<le> x \<Longrightarrow> x = y"
    unfolding less_eq_SchemaVersion_def version_order by (rule inj) (rule order_antisym)
  show "x \<le> y \<or> y \<le> x" unfolding less_eq_SchemaVersion_def version_order by (rule linear)
qed

end

definition version_eq_str :: "SchemaVersion \<Rightarrow> string \<Rightarrow> bool" where
  "version_eq_str v s = (case parse s of Inl _ \<Rightarrow> False | Inr w \<Rightarrow> to_tuple v = to_tuple w)"

definition is_compatible_with :: "SchemaVersion \<Rightarrow> SchemaVersion \<Rightarrow> bool" where
  "is_compatible_with v w = (if major v \<noteq> major w then False else True)"

subsection \<open>Requests and results\<close>

record VersionNegotiationRequest =
  rq_agent_id :: string
  rq_min_supported :: string
  rq_max_supported :: string
  rq_preferred :: "string option"
  rq_timestamp :: time

text \<open>The field validator of \<^verbatim>\<open>max_supported\<close>; \<open>info\<close> is the validated minimum, if any.\<close>

definition validate_version_range :: "string \<Rightarrow> string option \<Rightarrow> version_error + string" where
  "validate_version_range v info =
     (if \<not> truthy info then Inr v
      else (case parse (the info) of Inl e \<Rightarrow> Inl e
            | Inr min_ver \<Rightarrow>
               (case parse v of Inl e \<Rightarrow> Inl e
                | Inr max_ver \<Rightarrow> if max_ver < min_ver then Inl (Bad_range v (the info)) else Inr v)))"

definition get_preferred_version ::
  "VersionNegotiationRequest \<Rightarrow> version_error + SchemaVersion option" where
  "get_preferred_version rq =
     (if truthy (rq_preferred rq)
      then (case parse (the (rq_preferred rq)) of Inl e \<Rightarrow> Inl e | Inr v \<Rightarrow> Inr (Some v))
      else Inr None)"

record VersionNegotiationResult =
  rs_status :: NegotiationStatus
  rs_selected_version :: "SchemaVersion option"
  rs_compatibility :: VersionCompatibility
  rs_error_message :: "pymsg option"
  rs_agent_min :: SchemaVersion
  rs_agent_max :: SchemaVersion
  rs_cloud_min :: SchemaVersion
  rs_cloud_max :: SchemaVersion
  rs_negotiated_at :: time

definition is_success :: "VersionNegotiationResult \<Rightarrow> bool" where
  "is_success r = (rs_status r = NEG_SUCCESS)"

record SchemaVersionNegotiator =
  ng_min_supported :: SchemaVersion
  ng_max_supported :: SchemaVersion
  ng_prefer_latest :: bool
  ng_cache :: "(string, VersionNegotiationResult) dict"

definition init_SchemaVersionNegotiator ::
  "string \<Rightarrow> string \<Rightarrow> bool \<Rightarrow> version_error + SchemaVersionNegotiator" where
  "init_SchemaVersionNegotiator min_supported max_supported prefer_latest =
     (case parse min_supported of Inl e \<Rightarrow> Inl e
      | Inr mn \<Rightarrow>
         (case parse max_supported of Inl e \<Rightarrow> Inl e
          | Inr mx \<Rightarrow>
              if mx < mn then Inl (Bad_range max_supported min_supported)
              else Inr \<lparr>ng_min_supported = mn, ng_max_supported = mx,
                        ng_prefer_latest = prefer_latest, ng_cache = []\<rparr>))"

subsection \<open>Negotiation\<close>

abbreviation pver :: "SchemaVersion \<Rightarrow> pyval" where
  "pver v \<equiv> PStr (str_version v)"

definition failed_result ::
  "time \<Rightarrow> VersionCompatibility \<Rightarrow> pymsg \<Rightarrow> SchemaVersion \<Rightarrow> SchemaVersion \<Rightarrow>
   SchemaVersionNegotiator \<Rightarrow> VersionNegotiationResult" where
  "failed_result now cmp msg agent_min agent_max ng =
     \<lparr>rs_status = NEG_FAILED, rs_selected_version = None, rs_compatibility = cmp,
      rs_error_message = Some msg, rs_agent_min = agent_min, rs_agent_max = agent_max,
      rs_cloud_min = ng_min_supported ng, rs_cloud_max = ng_max_supported ng,
      rs_negotiated_at = now\<rparr>"

text \<open>The body of \<^verbatim>\<open>negotiate\<close> once the request's three versions are parsed.\<close>

definition negotiate_versions ::
  "time \<Rightarrow> SchemaVersionNegotiator \<Rightarrow> string \<Rightarrow> SchemaVersion \<Rightarrow> SchemaVersion \<Rightarrow>
   SchemaVersion option \<Rightarrow> VersionNegotiationResult \<times> SchemaVersionNegotiator" where
  "negotiate_versions now ng agent_id agent_min agent_max agent_preferred =
     (let overlap_min = max agent_min (ng_min_supported ng);
          overlap_max = min agent_max (ng_max_supported ng)
      in if overlap_min > overlap_max then
           (if agent_max < ng_min_supported ng then
              (failed_result now INCOMPATIBLE_TOO_OLD
                 (FStr ''Agent max version {} is below Cloud min version {}''
                    [pver agent_max, pver (ng_min_supported ng)]) agent_min agent_max ng, ng)
            else if agent_min > ng_max_supported ng then
              (failed_result now INCOMPATIBLE_TOO_NEW
                 (FStr ''Agent min version {} is above Cloud max version {}''
                    [pver agent_min, pver (ng_max_supported ng)]) agent_min agent_max ng, ng)
            else
              (failed_result now INCOMPATIBLE_MAJOR
                 (FStr ''No compatible version found between Agent [{}-{}] and Cloud [{}-{}]''
                    [pver agent_min, pver agent_max, pver (ng_min_supported ng),
                     pver (ng_max_supported ng)]) agent_min agent_max ng, ng))
         else
           (let selected =
              (case agent_preferred of
                 Some p \<Rightarrow> if overlap_min \<le> p \<and> p \<le> overlap_max then p
                           else if ng_prefer_latest ng then overlap_max else overlap_min
               | None \<Rightarrow> if ng_prefer_latest ng then overlap_max else overlap_min);
              result = \<lparr>rs_status = NEG_SUCCESS, rs_selected_version = Some selected,
                        rs_compatibility = COMPATIBLE, rs_error_message = None,
                        rs_agent_min = agent_min, rs_agent_max = agent_max,
                        rs_cloud_min = ng_min_supported ng, rs_cloud_max = ng_max_supported ng,
                        rs_negotiated_at = now\<rparr>
            in (result, ng\<lparr>ng_cache := dict_set (ng_cache ng) agent_id result\<rparr>)))"

definition negotiate ::
  "time \<Rightarrow> SchemaVersionNegotiator \<Rightarrow> VersionNegotiationRequest \<Rightarrow>
   (version_error, VersionNegotiationResult, SchemaVersionNegotiator) pyres" where
  "negotiate now ng rq =
     (case parse (rq_min_supported rq) of Inl e \<Rightarrow> py_raise e ng
      | Inr agent_min \<Rightarrow>
         (case parse (rq_max_supported rq) of Inl e \<Rightarrow> py_raise e ng
          | Inr agent_max \<Rightarrow>
             (case get_preferred_version rq of Inl e \<Rightarrow> py_raise e ng
              | Inr agent_preferred \<Rightarrow>
                 (let (r, ng') = negotiate_versions now ng (rq_agent_id rq) agent_min agent_max
                                   agent_preferred
                  in py_return r ng'))))"

definition get_cached_negotiation ::
  "SchemaVersionNegotiator \<Rightarrow> string \<Rightarrow> VersionNegotiationResult option" where
  "get_cached_negotiation ng agent_id = dict_get (ng_cache ng) agent_id"

definition clear_cache :: "SchemaVersionNegotiator \<Rightarrow> string option \<Rightarrow> SchemaVersionNegotiator" where
  "clear_cache ng agent_id =
     (if truthy agent_id then ng\<lparr>ng_cache := dict_del (ng_cache ng) (the agent_id)\<rparr>
      else ng\<lparr>ng_cache := []\<rparr>)"

definition get_supported_range :: "SchemaVersionNegotiator \<Rightarrow> SchemaVersion \<times> SchemaVersion" where
  "get_supported_range ng = (ng_min_supported ng, ng_max_supported ng)"

subsection \<open>Utility functions\<close>

definition check_version_compatibility :: "string \<Rightarrow> string \<Rightarrow> string \<Rightarrow> VersionCompatibility" where
  "check_version_compatibility version min_supported max_supported =
     (case parse version of Inl _ \<Rightarrow> INVALID_VERSION
      | Inr ver \<Rightarrow>
         (case parse min_supported of Inl _ \<Rightarrow> INVALID_VERSION
          | Inr min_ver \<Rightarrow>
             (case parse max_supported of Inl _ \<Rightarrow> INVALID_VERSION
              | Inr max_ver \<Rightarrow>
                  if ver < min_ver then
                    (if major ver < major min_ver then INCOMPATIBLE_MAJOR else INCOMPATIBLE_TOO_OLD)
                  else if ver > max_ver then
                    (if major ver > major max_ver then INCOMPATIBLE_MAJOR else INCOMPATIBLE_TOO_NEW)
                  else COMPATIBLE)))"

definition negotiate_version ::
  "string \<Rightarrow> string \<Rightarrow> string \<Rightarrow> string \<Rightarrow> bool \<Rightarrow> string option" where
  "negotiate_version agent_min agent_max cloud_min cloud_max prefer_latest =
     (case parse agent_min of Inl _ \<Rightarrow> None
      | Inr a_min \<Rightarrow>
         (case parse agent_max of Inl _ \<Rightarrow> None
          | Inr a_max \<Rightarrow>
             (case parse cloud_min of Inl _ \<Rightarrow> None
              | Inr c_min \<Rightarrow>
                 (case parse cloud_max of Inl _ \<Rightarrow> None
                  | Inr c_max \<Rightarrow>
                     (let overlap_min = max a_min c_min; overlap_max = min a_max c_max
                      in if overlap_min > overlap_max then None
                         else Some (str_version
                           (if prefer_latest then overlap_max else overlap_min)))))))"

definition get_current_schema_version :: "version_error + SchemaVersion" where
  "get_current_schema_version = parse ''1.0.0''"

definition get_supported_version_range ::
  "(version_error + SchemaVersion) \<times> (version_error + SchemaVersion)" where
  "get_supported_version_range = (parse ''1.0.0'', parse ''1.0.0'')"

subsection \<open>Printing and parsing\<close>

lemma digit_group_str_nat:
  "(\<And>c cs. rest = c # cs \<Longrightarrow> \<not> is_digit c) \<Longrightarrow>
   digit_group (str_nat n @ rest) = Some (str_nat n, rest)"
proof -
  assume rest: "\<And>c cs. rest = c # cs \<Longrightarrow> \<not> is_digit c"
  have "takeWhile is_digit (str_nat n @ rest) = str_nat n @ takeWhile is_digit rest"
    by (rule takeWhile_append2) (rule str_nat_digits)
  moreover have "dropWhile is_digit (str_nat n @ rest) = dropWhile is_digit rest"
    by (rule dropWhile_append2) (rule str_nat_digits)
  moreover have "takeWhile is_digit rest = [] \<and> dropWhile is_digit rest = rest"
    using rest by (cases rest) auto
  ultimately show ?thesis by (simp add: digit_group_def)
qed

lemma match_semver_str_version:
  "match_semver (str_version v) = Some (str_nat (major v), str_nat (minor v), str_nat (patch v))"
proof -
  have "digit_group (str_version v) =
      Some (str_nat (major v), ''.'' @ str_nat (minor v) @ ''.'' @ str_nat (patch v))"
    unfolding str_version_def by (rule digit_group_str_nat) simp
  moreover have "digit_group (str_nat (minor v) @ ''.'' @ str_nat (patch v)) =
      Some (str_nat (minor v), ''.'' @ str_nat (patch v))"
    by (rule digit_group_str_nat) simp
  moreover have "digit_group (str_nat (patch v)) = Some (str_nat (patch v), [])"
    using digit_group_str_nat [of "[]" "patch v"] by simp
  ultimately show ?thesis by (simp add: match_semver_def dot_def)
qed

lemma strip_str_version: "strip (str_version v) = str_version v"
proof -
  obtain a as where a: "str_nat (major v) = a # as" by (meson list.exhaust str_nat_nonempty)
  obtain bs b where b: "str_nat (patch v) = bs @ [b]" by (meson rev_exhaust str_nat_nonempty)
  have "\<not> is_space a" "\<not> is_space b"
    using a b str_nat_digits [of a "major v"] str_nat_digits [of b "patch v"]
    by (simp_all add: digit_not_space)
  then show ?thesis by (simp add: strip_def str_version_def a b)
qed

lemma parse_str_version:
  assumes "length (str_nat (major v)) \<le> max_str_digits" "length (str_nat (minor v)) \<le> max_str_digits"
    "length (str_nat (patch v)) \<le> max_str_digits"
  shows "parse (str_version v) = Inr v"
  using assms by (cases v) (simp add: parse_def strip_str_version match_semver_str_version not_le [symmetric])

lemma negotiate_parsed:
  "parse (rq_min_supported rq) = Inr a \<Longrightarrow> parse (rq_max_supported rq) = Inr b \<Longrightarrow>
   get_preferred_version rq = Inr p \<Longrightarrow>
   negotiate now ng rq = map_prod Inr id (negotiate_versions now ng (rq_agent_id rq) a b p)"
  by (simp add: negotiate_def map_prod_def split: prod.splits)

lemmas negotiate_defs = negotiate_versions_def Let_def failed_result_def

lemma parse_1_0_0: "parse ''1.0.0'' = Inr (SchemaVersion 1 0 0)"
  by (simp add: parse_def strip_def is_space_def match_semver_def digit_group_def is_digit_def dot_def
      digits_val_def digit_val_def max_str_digits_def Let_def)

text \<open>Surrounding whitespace does not matter to the parser.\<close>

lemma dropWhile_space_append: "list_all is_space us \<Longrightarrow> dropWhile is_space (us @ xs) = dropWhile is_space xs"
  by (rule dropWhile_append2) (simp add: list_all_iff)

lemma strip_spaces:
  assumes "list_all is_space ws" and "list_all is_space ws'"
  shows "strip (ws @ str_version v @ ws') = str_version v"
proof -
  obtain a as where a: "str_version v = a # as"
    by (cases "str_version v") (auto simp: str_version_def)
  then have "a = hd (str_nat (major v))"
    by (metis append_is_Nil_conv hd_append2 list.sel(1) str_nat_nonempty str_version_def)
  then have "is_digit a" by (metis hd_in_set str_nat_digits str_nat_nonempty)
  then have ns: "\<not> is_space a" by (rule digit_not_space)
  have "list_all is_space (rev ws')" using assms(2) by (simp add: list_all_iff)
  then have "strip (ws @ str_version v @ ws') = strip (str_version v)"
    using assms(1) a ns by (simp add: strip_def dropWhile_space_append)
  then show ?thesis by (simp add: strip_str_version)
qed

text \<open>A version both sides support.\<close>

definition common_version ::
  "SchemaVersionNegotiator \<Rightarrow> SchemaVersion \<Rightarrow> SchemaVersion \<Rightarrow> SchemaVersion \<Rightarrow> bool" where
  "common_version ng a_min a_max v \<longleftrightarrow>
     a_min \<le> v \<and> v \<le> a_max \<and> ng_min_supported ng \<le> v \<and> v \<le> ng_max_supported ng"

lemma common_version_iff:
  "common_version ng a b v \<longleftrightarrow> max a (ng_min_supported ng) \<le> v \<and> v \<le> min b (ng_max_supported ng)"
  by (auto simp: common_version_def)

lemma overlap_iff:
  "(\<exists>v. common_version ng a b v) \<longleftrightarrow> \<not> max a (ng_min_supported ng) > min b (ng_max_supported ng)"
proof -
  have "(\<exists>v. lo \<le> v \<and> v \<le> hi) \<longleftrightarrow> lo \<le> hi" for lo hi :: SchemaVersion
    by (meson order.refl order.trans)
  then show ?thesis by (simp only: common_version_iff not_less)
qed

text \<open>Which version is taken from the common range.\<close>

definition selection_ok ::
  "SchemaVersionNegotiator \<Rightarrow> SchemaVersion \<Rightarrow> SchemaVersion \<Rightarrow> SchemaVersion option \<Rightarrow> SchemaVersion \<Rightarrow> bool" where
  "selection_ok ng a_min a_max pref v \<longleftrightarrow> common_version ng a_min a_max v \<and>
     (case pref of
        Some p \<Rightarrow> common_version ng a_min a_max p \<longrightarrow> v = p
      | None \<Rightarrow> \<forall>w. common_version ng a_min a_max w \<longrightarrow> (if ng_prefer_latest ng then w \<le> v else v \<le> w))"

lemma negotiate_versions_success:
  assumes "\<exists>v. common_version ng a b v"
  shows "\<exists>v. rs_selected_version (fst (negotiate_versions now ng i a b p)) = Some v \<and> selection_ok ng a b p v \<and>
    is_success (fst (negotiate_versions now ng i a b p))"
proof -
  let ?lo = "max a (ng_min_supported ng)" and ?hi = "min b (ng_max_supported ng)"
  have le: "?lo \<le> ?hi" using assms by (simp only: overlap_iff not_less simp_thms)
  define v where "v = (case p of
      Some q \<Rightarrow> if ?lo \<le> q \<and> q \<le> ?hi then q else if ng_prefer_latest ng then ?hi else ?lo
    | None \<Rightarrow> if ng_prefer_latest ng then ?hi else ?lo)"
  have "rs_selected_version (fst (negotiate_versions now ng i a b p)) = Some v \<and>
      is_success (fst (negotiate_versions now ng i a b p))"
    using le by (simp add: negotiate_versions_def Let_def v_def is_success_def not_less [symmetric])
  moreover have "selection_ok ng a b p v"
    using le by (simp only: selection_ok_def common_version_iff v_def) (simp split: option.splits)
  ultimately show ?thesis by blast
qed

lemma negotiate_versions_failure:
  assumes "\<not> (\<exists>v. common_version ng a b v)"
  shows "\<not> is_success (fst (negotiate_versions now ng i a b p)) \<and> snd (negotiate_versions now ng i a b p) = ng"
  using assms unfolding overlap_iff by (simp add: negotiate_defs is_success_def)

subsection \<open>Properties\<close>

text \<open>
  Printing and parsing are inverse: the text of any version whose numbers stay within the
  interpreter's digit limit parses back to that version, also inside surrounding whitespace.
\<close>

theorem version_roundtrip:
  assumes "length (str_nat (major v)) \<le> max_str_digits" and "length (str_nat (minor v)) \<le> max_str_digits"
    and "length (str_nat (patch v)) \<le> max_str_digits" and "list_all is_space ws" and "list_all is_space ws'"
  shows "parse (ws @ str_version v @ ws') = Inr v"
  using assms
  by (cases v) (simp add: parse_def strip_spaces match_semver_str_version not_le [symmetric])

theorem version_roundtrip_witness:
  "list_all is_space '' '' \<and> parse ('' '' @ str_version (SchemaVersion 1 20 3) @ '' '') = Inr (SchemaVersion 1 20 3)"
proof -
  have "list_all is_space '' ''" by (simp add: is_space_def)
  then show ?thesis
    using version_roundtrip [of "SchemaVersion 1 20 3" "'' ''" "'' ''"]
    by (simp add: str_nat.simps max_str_digits_def)
qed

text \<open>
  Negotiation is sound and complete.  For a request whose versions parse, it succeeds exactly
  when some version is supported by both sides; the version it selects is then one of them, the
  agent's preferred one when that is acceptable, and with no preference the newest (or,
  configured so, the oldest) common version.
\<close>

theorem negotiate_selects_common_version:
  assumes "parse (rq_min_supported rq) = Inr a_min" and "parse (rq_max_supported rq) = Inr a_max"
    and "get_preferred_version rq = Inr pref"
  shows "\<exists>r ng'. negotiate now ng rq = (Inr r, ng') \<and>
    (is_success r \<longleftrightarrow> (\<exists>v. common_version ng a_min a_max v)) \<and>
    (is_success r \<longrightarrow> (\<exists>v. rs_selected_version r = Some v \<and> selection_ok ng a_min a_max pref v))"
proof -
  let ?n = "negotiate_versions now ng (rq_agent_id rq) a_min a_max pref"
  have "negotiate now ng rq = (Inr (fst ?n), snd ?n)"
    using assms by (simp add: negotiate_parsed map_prod_def split: prod.splits)
  then show ?thesis
    using negotiate_versions_success [of ng a_min a_max now "rq_agent_id rq" pref]
      negotiate_versions_failure [of ng a_min a_max now "rq_agent_id rq" pref] by auto
qed

theorem negotiate_selects_common_version_witness:
  "parse ''1.0.0'' = Inr (SchemaVersion 1 0 0) \<and>
   (\<exists>r ng'. negotiate 0 \<lparr>ng_min_supported = SchemaVersion 1 0 0, ng_max_supported = SchemaVersion 1 2 0,
        ng_prefer_latest = True, ng_cache = []\<rparr>
      \<lparr>rq_agent_id = ''a'', rq_min_supported = ''1.0.0'', rq_max_supported = ''1.0.0'', rq_preferred = None,
       rq_timestamp = 0\<rparr> = (Inr r, ng') \<and> is_success r)"
proof -
  let ?ng = "\<lparr>ng_min_supported = SchemaVersion 1 0 0, ng_max_supported = SchemaVersion 1 2 0,
        ng_prefer_latest = True, ng_cache = []\<rparr>"
  let ?rq = "\<lparr>rq_agent_id = ''a'', rq_min_supported = ''1.0.0'', rq_max_supported = ''1.0.0'',
       rq_preferred = None, rq_timestamp = 0\<rparr>"
  note p = parse_1_0_0
  have "common_version ?ng (SchemaVersion 1 0 0) (SchemaVersion 1 0 0) (SchemaVersion 1 0 0)"
    by (simp add: common_version_def less_eq_SchemaVersion_def version_order to_tuple_def)
  moreover obtain r ng' where "negotiate 0 ?ng ?rq = (Inr r, ng')"
    "is_success r \<longleftrightarrow> (\<exists>v. common_version ?ng (SchemaVersion 1 0 0) (SchemaVersion 1 0 0) v)"
    using negotiate_selects_common_version [of ?rq "SchemaVersion 1 0 0" "SchemaVersion 1 0 0" None 0 ?ng] p
    by (auto simp: get_preferred_version_def)
  ultimately show ?thesis using p by blast
qed

text \<open>
  The two implementations agree: for a negotiator built from the same Cloud range and a request
  without a preference, the class's negotiate selects the version whose text the utility function
  negotiate_version returns, and fails where that returns nothing.
\<close>

theorem negotiate_agrees_with_negotiate_version:
  assumes "init_SchemaVersionNegotiator c_min c_max latest = Inr ng"
    and "parse (rq_min_supported rq) = Inr a_min" and "parse (rq_max_supported rq) = Inr a_max"
    and "rq_preferred rq = None"
  shows "\<exists>r ng'. negotiate now ng rq = (Inr r, ng') \<and>
    map_option str_version (rs_selected_version r) =
      negotiate_version (rq_min_supported rq) (rq_max_supported rq) c_min c_max latest"
proof -
  obtain mn mx where "parse c_min = Inr mn" "parse c_max = Inr mx" "ng_min_supported ng = mn"
    "ng_max_supported ng = mx" "ng_prefer_latest ng = latest"
    using assms(1) by (auto simp: init_SchemaVersionNegotiator_def split: sum.splits if_splits)
  with assms show ?thesis
    by (simp add: negotiate_def get_preferred_version_def negotiate_version_def negotiate_defs)
qed

theorem negotiate_agrees_with_negotiate_version_witness:
  "\<exists>r ng'. negotiate 0 \<lparr>ng_min_supported = SchemaVersion 1 0 0, ng_max_supported = SchemaVersion 1 0 0,
        ng_prefer_latest = True, ng_cache = []\<rparr>
      \<lparr>rq_agent_id = ''a'', rq_min_supported = ''1.0.0'', rq_max_supported = ''1.0.0'', rq_preferred = None,
       rq_timestamp = 0\<rparr> = (Inr r, ng') \<and>
    map_option str_version (rs_selected_version r) = negotiate_version ''1.0.0'' ''1.0.0'' ''1.0.0'' ''1.0.0'' True"
proof -
  note p = parse_1_0_0
  have i: "init_SchemaVersionNegotiator ''1.0.0'' ''1.0.0'' True =
      Inr \<lparr>ng_min_supported = SchemaVersion 1 0 0, ng_max_supported = SchemaVersion 1 0 0,
        ng_prefer_latest = True, ng_cache = []\<rparr>"
    by (simp add: init_SchemaVersionNegotiator_def p)
  show ?thesis
    using negotiate_agrees_with_negotiate_version [OF i, of "\<lparr>rq_agent_id = ''a'', rq_min_supported = ''1.0.0'',
        rq_max_supported = ''1.0.0'', rq_preferred = None, rq_timestamp = 0\<rparr>"] p by simp
qed

text \<open>
  Between well-formed ranges the verdict is always too old or too new; the branch that reports
  a major version mismatch is never taken, and a failed negotiation leaves the cache (and so an
  earlier agreement with that agent) as it was.
\<close>

theorem negotiate_never_reports_major_mismatch:
  assumes "ng_min_supported ng \<le> ng_max_supported ng" and "a_min \<le> a_max"
  shows "rs_compatibility (fst (negotiate_versions now ng i a_min a_max p)) \<noteq> INCOMPATIBLE_MAJOR \<and>
    (\<not> is_success (fst (negotiate_versions now ng i a_min a_max p)) \<longrightarrow>
       snd (negotiate_versions now ng i a_min a_max p) = ng)"
proof -
  have "a_max < ng_min_supported ng \<or> ng_max_supported ng < a_min"
    if "min a_max (ng_max_supported ng) < max a_min (ng_min_supported ng)"
    using that assms by (auto simp: min_def max_def split: if_splits)
  then show ?thesis by (auto simp: negotiate_defs is_success_def)
qed

theorem negotiate_never_reports_major_mismatch_witness:
  "SchemaVersion 2 0 0 \<le> SchemaVersion 2 1 0 \<and>
   rs_compatibility (fst (negotiate_versions 0 \<lparr>ng_min_supported = SchemaVersion 2 0 0,
     ng_max_supported = SchemaVersion 2 1 0, ng_prefer_latest = True, ng_cache = []\<rparr> ''a''
     (SchemaVersion 1 0 0) (SchemaVersion 1 0 0) None)) \<noteq> INCOMPATIBLE_MAJOR"
proof -
  have h: "SchemaVersion 2 0 0 \<le> SchemaVersion 2 1 0"
    by (simp add: less_eq_SchemaVersion_def version_order to_tuple_def)
  show ?thesis using h negotiate_never_reports_major_mismatch [of "\<lparr>ng_min_supported = SchemaVersion 2 0 0,
     ng_max_supported = SchemaVersion 2 1 0, ng_prefer_latest = True, ng_cache = []\<rparr>"
     "SchemaVersion 1 0 0" "SchemaVersion 1 0 0"] by simp
qed

end
