(* ===== verification/Hash_Chain.thy ===== *)
theory Hash_Chain
  imports Schema_Versioning
begin

section \<open>The tamper-evident hash chain\<close>

text \<open>
  Model of \<^verbatim>\<open>packages/agent/audit/hash_chain.py\<close>.  The two digests,
  \<^verbatim>\<open>hashlib.sha256(m).hexdigest()\<close> and \<^verbatim>\<open>hmac.new(k, m, sha256).hexdigest()\<close>,
  are the parameters \<open>sha\<close> and \<open>hm\<close> of the definitions; what is used of them is only
  that their hexadecimal text has 64 ASCII characters.  No theorem assumes that they are free
  of collisions: tamper evidence is stated as a reduction, "the records agree or here are two
  messages with the same digest".

  \<^verbatim>\<open>json.dumps(sort_keys=True, separators=(",", ":"), default=str)\<close> is written out; the
  text of a float and of the objects \<^verbatim>\<open>default=str\<close> renders is the parameter
  \<open>rep\<close>.  The separators are an argument, since other callers use the default ones.
\<close>

subsection \<open>Canonical JSON\<close>

type_synonym digests = "(string \<Rightarrow> string) \<times> (string \<Rightarrow> string \<Rightarrow> string)"

definition hex_digit :: "nat \<Rightarrow> char" where
  "hex_digit d = (if d < 10 then char_of (48 + d) else char_of (87 + d))"

fun json_char :: "char \<Rightarrow> string" where
  "json_char c =
     (let n = of_char c :: nat in
      if n = 34 then [CHR 92, CHR 34]
      else if n = 92 then [CHR 92, CHR 92]
      else if n = 10 then [CHR 92, CHR ''n'']
      else if n = 13 then [CHR 92, CHR ''r'']
      else if n = 9 then [CHR 92, CHR ''t'']
      else if n = 12 then [CHR 92, CHR ''f'']
      else if n = 8 then [CHR 92, CHR ''b'']
      else if n < 32 \<or> n > 126 then [CHR 92, CHR ''u'', CHR ''0'', CHR ''0'', hex_digit (n div 16), hex_digit (n mod 16)]
      else [c])"

definition json_string :: "string \<Rightarrow> string" where
  "json_string s = [CHR 34] @ concat (map json_char s) @ [CHR 34]"

text \<open>Objects JSON does not know (sets, decimals, rendered texts) are the string \<open>rep\<close> gives.\<close>

function json_dumps :: "string \<times> string \<Rightarrow> (pyval \<Rightarrow> string) \<Rightarrow> pyval \<Rightarrow> string" where
  "json_dumps sp rep PNone = ''null''"
| "json_dumps sp rep (PBool b) = (if b then ''true'' else ''false'')"
| "json_dumps sp rep (PInt i) = str_int i"
| "json_dumps sp rep (PFloat f) = rep (PFloat f)"
| "json_dumps sp rep (PStr s) = json_string s"
| "json_dumps sp rep (PList vs) = ''['' @ join (fst sp) (map (json_dumps sp rep) vs) @ '']''"
| "json_dumps sp rep (PDict kvs) =
     ''{'' @ join (fst sp) (map (\<lambda>kv. json_string (fst kv) @ snd sp @ json_dumps sp rep (snd kv))
               (sort_key fst kvs)) @ ''}''"
| "json_dumps sp rep (PDecimal d) = json_string (rep (PDecimal d))"
| "json_dumps sp rep (PStrOf v) = json_string (rep (PStrOf v))"
| "json_dumps sp rep (PIso t) = json_string (rep (PIso t))"
| "json_dumps sp rep (PSet vs) = json_string (rep (PSet vs))"
| "json_dumps sp rep (PFormat f vs) = json_string (rep (PFormat f vs))"
  by pat_completeness auto
termination
proof (relation "measure (\<lambda>(sp, rep, v). size v)", goal_cases)
  case 1
  then show ?case by simp
next
  case (2 sp rep vs v)
  then show ?case by (simp add: less_Suc_eq_le size_list_estimation')
next
  case (3 sp rep kvs kv)
  then have "kv \<in> set kvs" by simp
  then have "size_prod (\<lambda>x. 0) size kv \<le> size_list (size_prod (\<lambda>x. 0) size) kvs"
    by (rule size_list_estimation') simp
  moreover have "size (snd kv) \<le> size_prod (\<lambda>x. 0) size kv" by (cases kv) simp
  ultimately show ?case by simp
qed

abbreviation payload_json :: "(pyval \<Rightarrow> string) \<Rightarrow> (string, pyval) dict \<Rightarrow> string" where
  "payload_json rep p \<equiv> json_dumps ('','', '':'') rep (PDict p)"

definition canonical :: "(pyval \<Rightarrow> string) \<Rightarrow> (string, pyval) dict \<Rightarrow> string" where
  "canonical rep payload = payload_json rep payload"

subsection \<open>The chain\<close>

definition GENESIS_HASH :: string where
  "GENESIS_HASH = replicate 64 CHR ''0''"

datatype chain_error = UnicodeEncodeError string

definition is_ascii :: "string \<Rightarrow> bool" where
  "is_ascii s = list_all (\<lambda>c. of_char c < (128 :: nat)) s"

text \<open>The digest a key selects: HMAC for a non-empty key, plain SHA-256 otherwise.\<close>

definition digest :: "digests \<Rightarrow> string option \<Rightarrow> string \<Rightarrow> string" where
  "digest D key m = (if truthy key then snd D (the key) m else fst D m)"

definition chain_msg :: "(pyval \<Rightarrow> string) \<Rightarrow> string \<Rightarrow> (string, pyval) dict \<Rightarrow> int \<Rightarrow> string" where
  "chain_msg rep prev_hash payload seq = prev_hash @ canonical rep payload @ str_int seq"

definition chain_hash ::
  "digests \<Rightarrow> (pyval \<Rightarrow> string) \<Rightarrow> string \<Rightarrow> (string, pyval) dict \<Rightarrow> int \<Rightarrow> string option \<Rightarrow>
   chain_error + string" where
  "chain_hash D rep prev_hash payload seq key =
     (if \<not> is_ascii prev_hash then Inl (UnicodeEncodeError prev_hash)
      else Inr (digest D key (chain_msg rep prev_hash payload seq)))"

record ChainRecord =
  cr_seq :: int
  cr_payload :: "(string, pyval) dict"
  cr_prev_hash :: string
  cr_entry_hash :: string

record HashChain =
  hc_key :: "string option"
  hc_records :: "ChainRecord list"

definition head_hash :: "HashChain \<Rightarrow> string" where
  "head_hash hc = (if hc_records hc = [] then GENESIS_HASH else cr_entry_hash (last (hc_records hc)))"

definition keyed :: "HashChain \<Rightarrow> bool" where
  "keyed hc = (hc_key hc \<noteq> None)"

definition chain_append ::
  "digests \<Rightarrow> (pyval \<Rightarrow> string) \<Rightarrow> HashChain \<Rightarrow> (string, pyval) dict \<Rightarrow>
   (chain_error, ChainRecord, HashChain) pyres" where
  "chain_append D rep hc payload =
     (let seq = int (length (hc_records hc)) + 1; prev = head_hash hc in
      case chain_hash D rep prev payload seq (hc_key hc) of
        Inl e \<Rightarrow> py_raise e hc
      | Inr h \<Rightarrow>
          (let r = \<lparr>cr_seq = seq, cr_payload = payload, cr_prev_hash = prev, cr_entry_hash = h\<rparr>
           in py_return r (hc\<lparr>hc_records := hc_records hc @ [r]\<rparr>)))"

record verify_result =
  vr_valid :: bool
  vr_n :: nat
  vr_broken_at :: "int option"
  vr_reason :: pymsg

text \<open>The loop of \<^verbatim>\<open>verify_chain\<close>: \<open>i\<close> is the expected sequence number.\<close>

fun verify_from ::
  "digests \<Rightarrow> (pyval \<Rightarrow> string) \<Rightarrow> string option \<Rightarrow> nat \<Rightarrow> int \<Rightarrow> string \<Rightarrow> ChainRecord list \<Rightarrow>
   chain_error + verify_result" where
  "verify_from D rep key n i prev [] =
     Inr \<lparr>vr_valid = True, vr_n = n, vr_broken_at = None, vr_reason = FStr ''ok'' []\<rparr>"
| "verify_from D rep key n i prev (r # rs) =
     (if cr_seq r \<noteq> i then
        Inr \<lparr>vr_valid = False, vr_n = n, vr_broken_at = Some (cr_seq r),
             vr_reason = FStr ''sequence gap: expected {}, got {}'' [PInt i, PInt (cr_seq r)]\<rparr>
      else if cr_prev_hash r \<noteq> prev then
        Inr \<lparr>vr_valid = False, vr_n = n, vr_broken_at = Some (cr_seq r),
             vr_reason = FStr ''prev_hash linkage broken (insertion/deletion/reorder)'' []\<rparr>
      else case chain_hash D rep prev (cr_payload r) (cr_seq r) key of
             Inl e \<Rightarrow> Inl e
           | Inr expect \<Rightarrow>
               if expect \<noteq> cr_entry_hash r then
                 Inr \<lparr>vr_valid = False, vr_n = n, vr_broken_at = Some (cr_seq r),
                      vr_reason = FStr ''entry_hash mismatch (record payload was mutated)'' []\<rparr>
               else verify_from D rep key n (i + 1) (cr_entry_hash r) rs)"

definition verify_chain ::
  "digests \<Rightarrow> (pyval \<Rightarrow> string) \<Rightarrow> ChainRecord list \<Rightarrow> string option \<Rightarrow> chain_error + verify_result" where
  "verify_chain D rep records key = verify_from D rep key (length records) 1 GENESIS_HASH records"

definition chain_verify ::
  "digests \<Rightarrow> (pyval \<Rightarrow> string) \<Rightarrow> HashChain \<Rightarrow> chain_error + verify_result" where
  "chain_verify D rep hc = verify_chain D rep (hc_records hc) (hc_key hc)"

definition record_to_dict :: "ChainRecord \<Rightarrow> (string, pyval) dict" where
  "record_to_dict r =
     [(''seq'', PInt (cr_seq r)), (''payload'', PDict (cr_payload r)),
      (''prev_hash'', PStr (cr_prev_hash r)), (''entry_hash'', PStr (cr_entry_hash r))]"

subsection \<open>What verification accepts\<close>

definition valid_result :: "nat \<Rightarrow> verify_result" where
  "valid_result n = \<lparr>vr_valid = True, vr_n = n, vr_broken_at = None, vr_reason = FStr ''ok'' []\<rparr>"

text \<open>The declarative reading of a good chain from expected number \<open>i\<close> and hash \<open>prev\<close>.\<close>

fun linked :: "digests \<Rightarrow> (pyval \<Rightarrow> string) \<Rightarrow> string option \<Rightarrow> int \<Rightarrow> string \<Rightarrow> ChainRecord list \<Rightarrow> bool" where
  "linked D rep key i prev [] = True"
| "linked D rep key i prev (r # rs) =
     (cr_seq r = i \<and> cr_prev_hash r = prev \<and> is_ascii prev \<and>
      cr_entry_hash r = digest D key (chain_msg rep prev (cr_payload r) i) \<and>
      linked D rep key (i + 1) (cr_entry_hash r) rs)"

lemma verify_from_valid_iff:
  "(\<exists>v. verify_from D rep key n i prev rs = Inr v \<and> vr_valid v) \<longleftrightarrow> linked D rep key i prev rs"
  by (induction D rep key n i prev rs rule: verify_from.induct) (auto simp: chain_hash_def)

lemma verify_from_valid:
  "linked D rep key i prev rs \<Longrightarrow> verify_from D rep key n i prev rs = Inr (valid_result n)"
  by (induction D rep key n i prev rs rule: verify_from.induct)
    (auto simp: chain_hash_def valid_result_def)

lemma linked_append:
  "linked D rep key i prev (rs @ [r]) \<longleftrightarrow>
   linked D rep key i prev rs \<and>
   linked D rep key (i + int (length rs)) (if rs = [] then prev else cr_entry_hash (last rs)) [r]"
  by (induction rs arbitrary: i prev) (auto simp: algebra_simps)

lemma linked_prefix: "linked D rep key i prev (rs @ rs') \<Longrightarrow> linked D rep key i prev rs"
  by (induction rs arbitrary: i prev) auto

text \<open>What the model relies on of the digests: 64 characters of ASCII text.\<close>

definition hex_digests :: "digests \<Rightarrow> bool" where
  "hex_digests D \<longleftrightarrow> (\<forall>k m. length (digest D k m) = 64 \<and> is_ascii (digest D k m))"

lemma GENESIS_ok [simp]: "length GENESIS_HASH = 64" "is_ascii GENESIS_HASH"
  by (simp_all add: GENESIS_HASH_def is_ascii_def list_all_iff)

abbreviation good_chain :: "digests \<Rightarrow> (pyval \<Rightarrow> string) \<Rightarrow> string option \<Rightarrow> ChainRecord list \<Rightarrow> bool" where
  "good_chain D rep key \<equiv> linked D rep key 1 GENESIS_HASH"

lemma verify_chain_valid_iff:
  "(\<exists>v. verify_chain D rep rs key = Inr v \<and> vr_valid v) \<longleftrightarrow> good_chain D rep key rs"
  by (simp add: verify_chain_def verify_from_valid_iff)

text \<open>The hash the next record links to, in a good chain.\<close>

lemma linked_entry_hex:
  "linked D rep key i prev rs \<Longrightarrow> hex_digests D \<Longrightarrow> r \<in> set rs \<Longrightarrow>
   length (cr_entry_hash r) = 64 \<and> is_ascii (cr_entry_hash r)"
  by (induction rs arbitrary: i prev) (auto simp: hex_digests_def)

lemma good_chain_head:
  assumes "good_chain D rep key rs" and "hex_digests D"
  shows "length (if rs = [] then GENESIS_HASH else cr_entry_hash (last rs)) = 64 \<and>
    is_ascii (if rs = [] then GENESIS_HASH else cr_entry_hash (last rs))"
  using linked_entry_hex [OF assms, of "last rs"] by (cases "rs = []") simp_all

lemma chain_append_good:
  assumes "good_chain D rep (hc_key hc) (hc_records hc)" and "hex_digests D"
  shows "\<exists>r. chain_append D rep hc p = (Inr r, hc\<lparr>hc_records := hc_records hc @ [r]\<rparr>) \<and>
    cr_payload r = p \<and> good_chain D rep (hc_key hc) (hc_records hc @ [r])"
proof -
  let ?prev = "head_hash hc" and ?seq = "int (length (hc_records hc)) + 1"
  have prev: "is_ascii ?prev" using good_chain_head [OF assms] by (simp add: head_hash_def)
  define r where "r = \<lparr>cr_seq = ?seq, cr_payload = p, cr_prev_hash = ?prev,
    cr_entry_hash = digest D (hc_key hc) (chain_msg rep ?prev p ?seq)\<rparr>"
  have "chain_append D rep hc p = (Inr r, hc\<lparr>hc_records := hc_records hc @ [r]\<rparr>)"
    using prev by (simp add: chain_append_def chain_hash_def Let_def r_def)
  moreover have "good_chain D rep (hc_key hc) (hc_records hc @ [r])"
    unfolding linked_append using assms prev by (auto simp: r_def head_hash_def algebra_simps)
  ultimately show ?thesis by (auto simp: r_def)
qed

text \<open>The client's view of a chain: append payloads one after the other.\<close>

abbreviation append_all ::
  "digests \<Rightarrow> (pyval \<Rightarrow> string) \<Rightarrow> HashChain \<Rightarrow> (string, pyval) dict list \<Rightarrow> HashChain" where
  "append_all D rep \<equiv> foldl (\<lambda>hc p. snd (chain_append D rep hc p))"

lemma append_all_good:
  assumes "hex_digests D" and "good_chain D rep (hc_key hc) (hc_records hc)"
  shows "good_chain D rep (hc_key hc) (hc_records (append_all D rep hc ps)) \<and>
    map cr_payload (hc_records (append_all D rep hc ps)) = map cr_payload (hc_records hc) @ ps \<and>
    hc_key (append_all D rep hc ps) = hc_key hc"
  using assms(2)
proof (induction ps arbitrary: hc)
  case Nil
  then show ?case by simp
next
  case (Cons p ps)
  obtain r where r: "chain_append D rep hc p = (Inr r, hc\<lparr>hc_records := hc_records hc @ [r]\<rparr>)"
    "cr_payload r = p" "good_chain D rep (hc_key hc) (hc_records hc @ [r])"
    using chain_append_good [OF Cons.prems assms(1)] by blast
  then show ?case using Cons.IH [of "hc\<lparr>hc_records := hc_records hc @ [r]\<rparr>"] by simp
qed

text \<open>What a record commits to.\<close>

definition commitment :: "(pyval \<Rightarrow> string) \<Rightarrow> ChainRecord \<Rightarrow> int \<times> string \<times> string \<times> string" where
  "commitment rep r = (cr_seq r, cr_prev_hash r, canonical rep (cr_payload r), cr_entry_hash r)"

text \<open>
  The text a record's hash is taken of, and a collision between two records: different texts with
  one digest.
\<close>

definition record_msg :: "(pyval \<Rightarrow> string) \<Rightarrow> ChainRecord \<Rightarrow> string" where
  "record_msg rep r = chain_msg rep (cr_prev_hash r) (cr_payload r) (cr_seq r)"

definition collide :: "digests \<Rightarrow> (pyval \<Rightarrow> string) \<Rightarrow> string option \<Rightarrow> ChainRecord \<Rightarrow> ChainRecord \<Rightarrow> bool" where
  "collide D rep key r s \<longleftrightarrow>
     record_msg rep r \<noteq> record_msg rep s \<and> digest D key (record_msg rep r) = digest D key (record_msg rep s)"

lemma good_chain_binds:
  assumes hex: "hex_digests D"
  shows "good_chain D rep key rs \<Longrightarrow> good_chain D rep key rs' \<Longrightarrow> length rs = length rs' \<Longrightarrow>
    \<not> (\<exists>k < length rs. collide D rep key (rs ! k) (rs' ! k)) \<Longrightarrow>
    (rs \<noteq> [] \<Longrightarrow> cr_entry_hash (last rs) = cr_entry_hash (last rs')) \<Longrightarrow>
    map (commitment rep) rs = map (commitment rep) rs'"
proof (induction rs arbitrary: rs' rule: rev_induct)
  case Nil
  then show ?case by simp
next
  case (snoc r rs)
  then obtain ss s where rs': "rs' = ss @ [s]" "length ss = length rs"
    by (metis length_append_singleton length_Suc_conv_rev)
  let ?h = "\<lambda>xs. if xs = [] then GENESIS_HASH else cr_entry_hash (last xs)"
  have g: "good_chain D rep key rs" "good_chain D rep key ss"
    and lr: "linked D rep key (1 + int (length rs)) (?h rs) [r]"
    and ls: "linked D rep key (1 + int (length rs)) (?h ss) [s]"
    using snoc.prems rs' by (simp_all add: linked_append)
  have ent: "cr_entry_hash r = cr_entry_hash s" using snoc.prems(5) rs' by simp
  have nc: "\<not> collide D rep key ((rs @ [r]) ! k) ((ss @ [s]) ! k)" if "k < Suc (length rs)" for k
    using snoc.prems(4) rs' that by simp
  have ncrs: "\<not> (\<exists>k < length rs. collide D rep key (rs ! k) (ss ! k))"
  proof clarify
    fix k assume "k < length rs" "collide D rep key (rs ! k) (ss ! k)"
    then show False using nc [of k] rs'(2) by (simp add: nth_append)
  qed
  have "\<not> collide D rep key r s" using nc [of "length rs"] rs'(2) by (simp add: nth_append)
  moreover have "digest D key (record_msg rep r) = digest D key (record_msg rep s)"
    using lr ls ent by (simp add: record_msg_def)
  ultimately have "record_msg rep r = record_msg rep s" by (simp add: collide_def)
  then have "chain_msg rep (?h rs) (cr_payload r) (1 + int (length rs)) =
      chain_msg rep (?h ss) (cr_payload s) (1 + int (length rs))"
    using lr ls by (simp add: record_msg_def)
  moreover have "length (?h rs) = length (?h ss)"
    using good_chain_head [OF g(1) hex] good_chain_head [OF g(2) hex] by simp
  ultimately have eq: "?h rs = ?h ss" "canonical rep (cr_payload r) = canonical rep (cr_payload s)"
    by (simp_all add: chain_msg_def)
  have "map (commitment rep) rs = map (commitment rep) ss"
    by (rule snoc.IH) (use g rs' eq ncrs in \<open>auto split: if_splits\<close>)
  moreover have "cr_seq r = cr_seq s" using lr ls by simp
  moreover have "cr_prev_hash r = ?h rs" "cr_prev_hash s = ?h ss" using lr ls by simp_all
  then have "cr_prev_hash r = cr_prev_hash s" using eq(1) by (simp only:)
  ultimately have "map (commitment rep) rs = map (commitment rep) ss"
    "commitment rep r = commitment rep s"
    using eq(2) ent by (simp_all only: commitment_def)
  then show ?case by (simp add: rs')
qed

lemma verify_from_broken:
  "verify_from D rep key n i prev rs = Inr v \<Longrightarrow> \<not> vr_valid v \<Longrightarrow>
   \<exists>k < length rs. linked D rep key i prev (take k rs) \<and> \<not> linked D rep key i prev (take (Suc k) rs) \<and>
     vr_broken_at v = Some (cr_seq (rs ! k))"
proof (induction D rep key n i prev rs rule: verify_from.induct)
  case (1 D rep key n i prev)
  then show ?case by auto
next
  case (2 D rep key n i prev r rs)
  show ?case
  proof (cases "linked D rep key i prev [r]")
    case True
    then have "verify_from D rep key n (i + 1) (cr_entry_hash r) rs = Inr v"
      using "2.prems"(1) by (simp add: chain_hash_def)
    then obtain k where "k < length rs" "linked D rep key (i + 1) (cr_entry_hash r) (take k rs)"
      "\<not> linked D rep key (i + 1) (cr_entry_hash r) (take (Suc k) rs)"
      "vr_broken_at v = Some (cr_seq (rs ! k))"
      using "2.IH" "2.prems"(2) True by (auto simp: chain_hash_def)
    with True show ?thesis by (intro exI [of _ "Suc k"]) simp
  next
    case False
    then have "vr_broken_at v = Some (cr_seq r)"
      using "2.prems" by (auto simp: chain_hash_def split: if_splits)
    with False show ?thesis by (intro exI [of _ 0]) simp
  qed
qed

subsection \<open>Properties\<close>

text \<open>
  C26: tamper evidence as a reduction.  Take two record lists of the same length that both pass
  verification under the same key and end in the same entry hash.  Then they commit to the same
  sequence numbers, links, canonical payloads and hashes at every position, or at some position the
  texts hashed for the two records differ and have the same digest.  Whoever rewrites a past record
  of a chain whose head is known has therefore exhibited a collision of the digest.
\<close>

theorem chain_tamper_evident:
  assumes "hex_digests D"
    and "verify_chain D rep rs key = Inr v" and "vr_valid v"
    and "verify_chain D rep rs' key = Inr v'" and "vr_valid v'"
    and "length rs = length rs'" and "rs \<noteq> []" and "cr_entry_hash (last rs) = cr_entry_hash (last rs')"
  shows "map (commitment rep) rs = map (commitment rep) rs' \<or>
    (\<exists>k < length rs. collide D rep key (rs ! k) (rs' ! k))"
proof -
  have "good_chain D rep key rs" "good_chain D rep key rs'"
    using assms verify_chain_valid_iff by blast+
  then show ?thesis using good_chain_binds [OF assms(1), of rep key rs rs'] assms(6-8) by metis
qed

text \<open>The constant digest meets the format; it is used to instantiate the parameters.\<close>

definition const_digests :: digests where
  "const_digests = (\<lambda>m. GENESIS_HASH, \<lambda>k m. GENESIS_HASH)"

lemma hex_const_digests: "hex_digests const_digests"
  by (simp add: hex_digests_def digest_def const_digests_def)

theorem chain_tamper_evident_witness:
  "\<exists>v. verify_chain const_digests (\<lambda>_. []) [\<lparr>cr_seq = 1, cr_payload = [], cr_prev_hash = GENESIS_HASH,
        cr_entry_hash = GENESIS_HASH\<rparr>] None = Inr v \<and> vr_valid v \<and>
     (map (commitment (\<lambda>_. [])) [\<lparr>cr_seq = 1, cr_payload = [], cr_prev_hash = GENESIS_HASH,
        cr_entry_hash = GENESIS_HASH\<rparr>] = map (commitment (\<lambda>_. [])) [\<lparr>cr_seq = 1, cr_payload = [(''a'', PNone)],
        cr_prev_hash = GENESIS_HASH, cr_entry_hash = GENESIS_HASH\<rparr>] \<or>
      (\<exists>k < 1. collide const_digests (\<lambda>_. []) None
        ([\<lparr>cr_seq = 1, cr_payload = [], cr_prev_hash = GENESIS_HASH, cr_entry_hash = GENESIS_HASH\<rparr>] ! k)
        ([\<lparr>cr_seq = 1, cr_payload = [(''a'', PNone)], cr_prev_hash = GENESIS_HASH,
          cr_entry_hash = GENESIS_HASH\<rparr>] ! k)))"
proof -
  let ?r = "\<lambda>p. \<lparr>cr_seq = 1, cr_payload = p, cr_prev_hash = GENESIS_HASH, cr_entry_hash = GENESIS_HASH\<rparr>"
  have v: "verify_chain const_digests (\<lambda>_. []) [?r p] None = Inr (valid_result 1)" for p
    unfolding verify_chain_def
    by (simp add: chain_hash_def digest_def const_digests_def valid_result_def)
  have "vr_valid (valid_result 1)" by (simp add: valid_result_def)
  with v chain_tamper_evident [OF hex_const_digests v _ v, of "[]" "[(''a'', PNone)]"] show ?thesis by simp
qed

text \<open>
  Every chain that is built by appending verifies: appending never raises, the result holds
  exactly the appended payloads in order and is accepted with its length.
\<close>

theorem appended_chain_verifies:
  assumes "hex_digests D"
  shows "map cr_payload (hc_records (append_all D rep \<lparr>hc_key = key, hc_records = []\<rparr> ps)) = ps \<and>
    chain_verify D rep (append_all D rep \<lparr>hc_key = key, hc_records = []\<rparr> ps) = Inr (valid_result (length ps))"
proof -
  let ?hc = "append_all D rep \<lparr>hc_key = key, hc_records = []\<rparr> ps"
  have "good_chain D rep key (hc_records ?hc)" "map cr_payload (hc_records ?hc) = ps" "hc_key ?hc = key"
    using append_all_good [OF assms, of rep "\<lparr>hc_key = key, hc_records = []\<rparr>" ps] by simp_all
  then show ?thesis
    by (metis chain_verify_def length_map verify_chain_def verify_from_valid)
qed

theorem appended_chain_verifies_witness:
  "hex_digests const_digests \<and>
   chain_verify const_digests (\<lambda>_. []) (append_all const_digests (\<lambda>_. []) \<lparr>hc_key = Some ''k'', hc_records = []\<rparr>
     [[(''a'', PInt 1)], [(''b'', PNone)]]) = Inr (valid_result (length [[(''a'', PInt 1)], [(''b'', PNone)]]))"
  using appended_chain_verifies [OF hex_const_digests] hex_const_digests by blast

text \<open>
  When verification rejects, the reported position is the first bad record: everything before it
  is a good chain and adding that record is not.
\<close>

theorem verify_reports_first_broken_record:
  assumes "verify_chain D rep rs key = Inr v" and "\<not> vr_valid v"
  shows "\<exists>k < length rs. good_chain D rep key (take k rs) \<and> \<not> good_chain D rep key (take (Suc k) rs) \<and>
    vr_broken_at v = Some (cr_seq (rs ! k))"
  using verify_from_broken assms unfolding verify_chain_def by blast

theorem verify_reports_first_broken_record_witness:
  "\<exists>v. verify_chain const_digests (\<lambda>_. []) [\<lparr>cr_seq = 2, cr_payload = [], cr_prev_hash = [], cr_entry_hash = []\<rparr>]
       None = Inr v \<and> \<not> vr_valid v \<and>
     (\<exists>k < length [\<lparr>cr_seq = 2, cr_payload = [], cr_prev_hash = [], cr_entry_hash = []\<rparr>].
        vr_broken_at v = Some (cr_seq ([\<lparr>cr_seq = 2, cr_payload = [], cr_prev_hash = [], cr_entry_hash = []\<rparr>] ! k)))"
proof -
  let ?rs = "[\<lparr>cr_seq = 2, cr_payload = [], cr_prev_hash = [], cr_entry_hash = []\<rparr>]"
  obtain v where v: "verify_chain const_digests (\<lambda>_. []) ?rs None = Inr v" "\<not> vr_valid v"
    by (simp add: verify_chain_def)
  show ?thesis using v verify_reports_first_broken_record [OF v] by blast
qed

text \<open>
  Dropping records from the end is not detected: every prefix of a chain that verifies is
  accepted as valid, so deletion is evident only to someone who knows the head or the count.
\<close>

theorem truncated_chain_still_verifies:
  assumes "verify_chain D rep (rs @ rs') key = Inr v" and "vr_valid v"
  shows "verify_chain D rep rs key = Inr (valid_result (length rs))"
proof -
  have "good_chain D rep key (rs @ rs')" using assms verify_chain_valid_iff by blast
  then have "good_chain D rep key rs" by (rule linked_prefix)
  then show ?thesis by (simp add: verify_chain_def verify_from_valid)
qed

theorem truncated_chain_still_verifies_witness:
  "\<exists>v. verify_chain const_digests (\<lambda>_. []) ([] @ [\<lparr>cr_seq = 1, cr_payload = [], cr_prev_hash = GENESIS_HASH,
        cr_entry_hash = GENESIS_HASH\<rparr>]) None = Inr v \<and> vr_valid v \<and>
     verify_chain const_digests (\<lambda>_. []) [] None = Inr (valid_result 0)"
proof -
  let ?rs = "[\<lparr>cr_seq = 1, cr_payload = [], cr_prev_hash = GENESIS_HASH, cr_entry_hash = GENESIS_HASH\<rparr>]"
  have v: "verify_chain const_digests (\<lambda>_. []) ([] @ ?rs) None = Inr (valid_result 1)"
    by (simp add: verify_chain_def chain_hash_def digest_def const_digests_def valid_result_def)
  have "vr_valid (valid_result 1)" by (simp add: valid_result_def)
  from v this truncated_chain_still_verifies [OF v this] show ?thesis by auto
qed

text \<open>
  An empty key counts as a key for the chain's own report but not for the digest: the records are
  then protected by plain SHA-256 only.
\<close>

lemma empty_key_is_reported_keyed_but_unkeyed:
  "keyed \<lparr>hc_key = Some [], hc_records = rs\<rparr> \<and> digest D (Some []) m = digest D None m"
  by (simp add: keyed_def digest_def)

end
