(* ===== verification/Command_Service.thy ===== *)
theory Command_Service
  imports State_Machines
begin

section \<open>The cloud's command service\<close>

text \<open>
  Model of \<^verbatim>\<open>ccea/control_plane/commands.py\<close> with the command classes of
  \<^verbatim>\<open>ccea/models/protocol.py\<close>: the record store, the per-agent queues, the service that
  creates, acknowledges, approves and completes commands, and the typed dispatcher.

  Records are mutable objects that the store and the queues share, so they live in a heap (the list
  of all records made; an address is an index) and store and queues hold addresses.  What the
  service draws at random or reads from the clock (a command id, an idempotency key, the current
  time) is an argument of the operation.  \<^verbatim>\<open>model_dump\<close>, which belongs to pydantic, is the
  parameter \<open>dump\<close>.  The operations run one after the other, as the locks of store and queue
  make them do; a poll sees the queue as it is when the poll runs.
\<close>

subsection \<open>Commands\<close>

datatype CommandStatus =
    PENDING | RECEIVED | AWAITING_APPROVAL | APPROVED | REJECTED | EXECUTING | COMPLETED | FAILED

datatype CommandType =
    REQUEST_START_RUN | REQUEST_STOP_RUN | REQUEST_PAUSE_RUN | REQUEST_UPGRADE_ARTIFACT
  | REQUEST_UPDATE_CONFIG | REQUEST_ROTATE_AGENT_SESSION | REQUEST_EXPORT_LOGS

fun CommandType_value :: "CommandType \<Rightarrow> string" where
  "CommandType_value REQUEST_START_RUN = ''REQUEST_START_RUN''"
| "CommandType_value REQUEST_STOP_RUN = ''REQUEST_STOP_RUN''"
| "CommandType_value REQUEST_PAUSE_RUN = ''REQUEST_PAUSE_RUN''"
| "CommandType_value REQUEST_UPGRADE_ARTIFACT = ''REQUEST_UPGRADE_ARTIFACT''"
| "CommandType_value REQUEST_UPDATE_CONFIG = ''REQUEST_UPDATE_CONFIG''"
| "CommandType_value REQUEST_ROTATE_AGENT_SESSION = ''REQUEST_ROTATE_AGENT_SESSION''"
| "CommandType_value REQUEST_EXPORT_LOGS = ''REQUEST_EXPORT_LOGS''"

lemma CommandType_value_inj: "CommandType_value a = CommandType_value b \<longleftrightarrow> a = b"
  by (cases a; cases b; simp)

text \<open>
  The fields of \<^verbatim>\<open>BaseMessage\<close> and \<^verbatim>\<open>BaseCommand\<close>, then one constructor per
  command class with the fields a caller chooses; literal fields are functions of the constructor.
\<close>

record BaseCommand =
  bc_timestamp :: time
  bc_signature :: "(string, pyval) dict option"
  bc_idempotency_key :: string

datatype Command =
    RequestStartRunCommand BaseCommand (deployment_id: string) (artifact_digest: string) (config_digest: "string option")
  | RequestStopRunCommand BaseCommand (deployment_id: string) (reason: "string option")
  | RequestPauseRunCommand BaseCommand (deployment_id: string) (reason: "string option")
  | RequestUpgradeArtifactCommand BaseCommand (deployment_id: string) (new_artifact_digest: string)
      (old_artifact_digest: "string option")
  | RequestUpdateConfigCommand BaseCommand (deployment_id: string) (new_config_digest: string)
      (old_config_digest: "string option") (cfg_change_class: ChangeClass) (cfg_requires_approval: bool)
  | RequestRotateAgentSessionCommand BaseCommand (cmd_agent_id: string) (reason: "string option")
  | RequestExportLogsCommand BaseCommand (cmd_agent_id: string) (export_config: "(string, pyval) dict")
      (break_glass_reason: "string option")

fun command_base :: "Command \<Rightarrow> BaseCommand" where
  "command_base (RequestStartRunCommand b _ _ _) = b"
| "command_base (RequestStopRunCommand b _ _) = b"
| "command_base (RequestPauseRunCommand b _ _) = b"
| "command_base (RequestUpgradeArtifactCommand b _ _ _) = b"
| "command_base (RequestUpdateConfigCommand b _ _ _ _ _) = b"
| "command_base (RequestRotateAgentSessionCommand b _ _) = b"
| "command_base (RequestExportLogsCommand b _ _ _) = b"

fun command_type_of :: "Command \<Rightarrow> CommandType" where
  "command_type_of (RequestStartRunCommand _ _ _ _) = REQUEST_START_RUN"
| "command_type_of (RequestStopRunCommand _ _ _) = REQUEST_STOP_RUN"
| "command_type_of (RequestPauseRunCommand _ _ _) = REQUEST_PAUSE_RUN"
| "command_type_of (RequestUpgradeArtifactCommand _ _ _ _) = REQUEST_UPGRADE_ARTIFACT"
| "command_type_of (RequestUpdateConfigCommand _ _ _ _ _ _) = REQUEST_UPDATE_CONFIG"
| "command_type_of (RequestRotateAgentSessionCommand _ _ _) = REQUEST_ROTATE_AGENT_SESSION"
| "command_type_of (RequestExportLogsCommand _ _ _ _) = REQUEST_EXPORT_LOGS"

text \<open>\<^verbatim>\<open>hasattr(command, "change_class")\<close> and its value: \<open>None\<close> when the class has no such field.\<close>

fun change_class_of :: "Command \<Rightarrow> ChangeClass option" where
  "change_class_of (RequestStartRunCommand _ _ _ _) = Some TRADING_IMPACTING"
| "change_class_of (RequestUpgradeArtifactCommand _ _ _ _) = Some TRADING_IMPACTING"
| "change_class_of (RequestUpdateConfigCommand _ _ _ _ c _) = Some c"
| "change_class_of _ = None"

text \<open>The field patterns, and the validator of a configuration update.\<close>

definition in_range :: "char \<Rightarrow> char \<Rightarrow> char \<Rightarrow> bool" where
  "in_range lo hi c = (of_char lo \<le> (of_char c :: nat) \<and> of_char c \<le> (of_char hi :: nat))"

definition is_alnum :: "char \<Rightarrow> bool" where
  "is_alnum c = (in_range CHR ''a'' CHR ''z'' c \<or> in_range CHR ''A'' CHR ''Z'' c \<or> in_range CHR ''0'' CHR ''9'' c)"

definition IDEMPOTENCY_KEY_PATTERN :: "string \<Rightarrow> bool" where
  "IDEMPOTENCY_KEY_PATTERN k =
     (16 \<le> length k \<and> length k \<le> 64 \<and>
      list_all (\<lambda>c. is_alnum c \<or> c = CHR ''_'' \<or> c = CHR ''-'') k)"

definition DIGEST_PATTERN :: "string \<Rightarrow> bool" where
  "DIGEST_PATTERN d =
     (take 7 d = ''sha256:'' \<and> length d = 71 \<and>
      list_all (\<lambda>c. in_range CHR ''a'' CHR ''f'' c \<or> in_range CHR ''0'' CHR ''9'' c) (drop 7 d))"

definition AGENT_ID_PATTERN :: "string \<Rightarrow> bool" where
  "AGENT_ID_PATTERN a =
     (take 6 a = ''agent_'' \<and> 22 \<le> length a \<and> length a \<le> 38 \<and> list_all is_alnum (drop 6 a))"

definition opt_matches :: "(string \<Rightarrow> bool) \<Rightarrow> string option \<Rightarrow> bool" where
  "opt_matches p s = (case s of None \<Rightarrow> True | Some t \<Rightarrow> p t)"

fun fields_valid :: "Command \<Rightarrow> bool" where
  "fields_valid (RequestStartRunCommand _ _ a c) = (DIGEST_PATTERN a \<and> opt_matches DIGEST_PATTERN c)"
| "fields_valid (RequestStopRunCommand _ _ _) = True"
| "fields_valid (RequestPauseRunCommand _ _ _) = True"
| "fields_valid (RequestUpgradeArtifactCommand _ _ n old) = (DIGEST_PATTERN n \<and> opt_matches DIGEST_PATTERN old)"
| "fields_valid (RequestUpdateConfigCommand _ _ n old cc ra) =
     (DIGEST_PATTERN n \<and> opt_matches DIGEST_PATTERN old \<and> \<not> (cc = TRADING_IMPACTING \<and> \<not> ra))"
| "fields_valid (RequestRotateAgentSessionCommand _ a _) = AGENT_ID_PATTERN a"
| "fields_valid (RequestExportLogsCommand _ a _ _) = AGENT_ID_PATTERN a"

datatype command_error =
    Command_type_not_allowed string
  | ValidationError Command
  | Negative_timeout rat

definition validated :: "Command \<Rightarrow> command_error + Command" where
  "validated c =
     (if IDEMPOTENCY_KEY_PATTERN (bc_idempotency_key (command_base c)) \<and> fields_valid c
      then Inr c else Inl (ValidationError c))"

definition ALLOWED_COMMAND_TYPES :: "string set" where
  "ALLOWED_COMMAND_TYPES = set (map CommandType_value
     [REQUEST_START_RUN, REQUEST_STOP_RUN, REQUEST_PAUSE_RUN, REQUEST_UPGRADE_ARTIFACT,
      REQUEST_UPDATE_CONFIG, REQUEST_ROTATE_AGENT_SESSION, REQUEST_EXPORT_LOGS])"

definition APPROVAL_REQUIRED :: "string set" where
  "APPROVAL_REQUIRED = set (map CommandType_value
     [REQUEST_START_RUN, REQUEST_UPGRADE_ARTIFACT, REQUEST_UPDATE_CONFIG,
      REQUEST_ROTATE_AGENT_SESSION, REQUEST_EXPORT_LOGS])"

definition SAFETY_COMMANDS :: "string set" where
  "SAFETY_COMMANDS = set (map CommandType_value [REQUEST_STOP_RUN, REQUEST_PAUSE_RUN])"

subsection \<open>Records and the store\<close>

record CommandRecord =
  command_id :: string
  idempotency_key :: string
  agent_id :: string
  command_type :: string
  payload :: "(string, pyval) dict"
  status :: CommandStatus
  requires_approval :: bool
  change_class :: "string option"
  created_at :: time
  received_at :: "time option"
  approved_at :: "time option"
  completed_at :: "time option"
  approval_status :: "string option"
  evidence_hash :: "string option"
  result :: "(string, pyval) dict option"
  error :: "(string, string) dict option"

definition is_complete :: "CommandRecord \<Rightarrow> bool" where
  "is_complete r = (status r = COMPLETED \<or> status r = FAILED \<or> status r = REJECTED)"

type_synonym addr = nat
type_synonym heap = "CommandRecord list"

record InMemoryCommandStore =
  st_commands :: "(string, addr) dict"
  st_by_idem_key :: "(string, string) dict"

definition init_store :: InMemoryCommandStore where
  "init_store = \<lparr>st_commands = [], st_by_idem_key = []\<rparr>"

definition idem_string :: "string \<Rightarrow> string \<Rightarrow> string" where
  "idem_string ag key = ag @ '':'' @ key"

definition save :: "heap \<Rightarrow> InMemoryCommandStore \<Rightarrow> addr \<Rightarrow> InMemoryCommandStore" where
  "save h st a =
     (let r = h ! a in
      st\<lparr>st_commands := dict_set (st_commands st) (command_id r) a,
         st_by_idem_key := dict_set (st_by_idem_key st) (idem_string (agent_id r) (idempotency_key r)) (command_id r)\<rparr>)"

definition store_get :: "InMemoryCommandStore \<Rightarrow> string \<Rightarrow> addr option" where
  "store_get st cid = dict_get (st_commands st) cid"

definition get_by_idempotency_key :: "InMemoryCommandStore \<Rightarrow> string \<Rightarrow> string \<Rightarrow> addr option" where
  "get_by_idempotency_key st ag key =
     (case dict_get (st_by_idem_key st) (idem_string ag key) of
        None \<Rightarrow> None
      | Some cid \<Rightarrow> if cid \<noteq> [] then dict_get (st_commands st) cid else None)"

definition update :: "heap \<Rightarrow> InMemoryCommandStore \<Rightarrow> addr \<Rightarrow> InMemoryCommandStore" where
  "update h st a =
     (if dict_has (st_commands st) (command_id (h ! a))
      then st\<lparr>st_commands := dict_set (st_commands st) (command_id (h ! a)) a\<rparr> else st)"

definition list_pending :: "heap \<Rightarrow> InMemoryCommandStore \<Rightarrow> string \<Rightarrow> addr list" where
  "list_pending h st ag =
     filter (\<lambda>a. agent_id (h ! a) = ag \<and> \<not> is_complete (h ! a)) (dict_values (st_commands st))"

subsection \<open>The queues\<close>

text \<open>A \<^verbatim>\<open>defaultdict(Queue)\<close>: reading a missing agent creates an empty queue.\<close>

record CommandQueue =
  poll_timeout :: rat
  cq_queues :: "(string, addr list) dict"

definition init_queue :: "rat \<Rightarrow> CommandQueue" where
  "init_queue t = \<lparr>poll_timeout = t, cq_queues = []\<rparr>"

definition queue_of :: "CommandQueue \<Rightarrow> string \<Rightarrow> addr list" where
  "queue_of q ag = (case dict_get (cq_queues q) ag of None \<Rightarrow> [] | Some xs \<Rightarrow> xs)"

definition set_queue :: "CommandQueue \<Rightarrow> string \<Rightarrow> addr list \<Rightarrow> CommandQueue" where
  "set_queue q ag xs = q\<lparr>cq_queues := dict_set (cq_queues q) ag xs\<rparr>"

definition enqueue :: "CommandQueue \<Rightarrow> string \<Rightarrow> addr \<Rightarrow> CommandQueue" where
  "enqueue q ag a = set_queue q ag (queue_of q ag @ [a])"

text \<open>The loop around \<^verbatim>\<open>get_nowait\<close>: the commands taken and the queue left over.\<close>

fun drain :: "addr list \<Rightarrow> addr list \<Rightarrow> addr list \<times> addr list" where
  "drain taken [] = (taken, [])"
| "drain taken (a # rest) = drain (taken @ [a]) rest"

text \<open>
  \<^verbatim>\<open>timeout or self.poll_timeout\<close> takes the default for \<open>0\<close> too.  \<^verbatim>\<open>Queue.get\<close>
  refuses a negative timeout before it looks at the queue, and by then the queue exists.
\<close>

definition poll :: "CommandQueue \<Rightarrow> string \<Rightarrow> rat option \<Rightarrow> (command_error, addr list, CommandQueue) pyres" where
  "poll q ag timeout =
     (let t = (case timeout of None \<Rightarrow> poll_timeout q | Some x \<Rightarrow> if x = 0 then poll_timeout q else x);
          queue = queue_of q ag in
      if t < 0 then py_raise (Negative_timeout t) (set_queue q ag queue)
      else case queue of
        [] \<Rightarrow> py_return [] (set_queue q ag [])
      | cmd # rest \<Rightarrow> (case drain [cmd] rest of (commands, left) \<Rightarrow> py_return commands (set_queue q ag left)))"

fun empty_queue :: "addr list \<Rightarrow> addr list" where
  "empty_queue [] = []"
| "empty_queue (a # rest) = empty_queue rest"

definition clear :: "CommandQueue \<Rightarrow> string \<Rightarrow> CommandQueue" where
  "clear q ag = (if dict_has (cq_queues q) ag then set_queue q ag (empty_queue (queue_of q ag)) else q)"

subsection \<open>The service\<close>

record CommandService =
  heap_of :: heap
  store :: InMemoryCommandStore
  queue :: CommandQueue

definition init_service :: "rat \<Rightarrow> CommandService" where
  "init_service t = \<lparr>heap_of = [], store = init_store, queue = init_queue t\<rparr>"

type_synonym dumper = "Command \<Rightarrow> (string, pyval) dict"

text \<open>What the caller's call draws: a generated key, a generated id and the creation time.\<close>

record draws =
  dr_key :: string
  dr_id :: string
  dr_now :: time

definition needs_approval :: "Command \<Rightarrow> bool" where
  "needs_approval command =
     (let cmd_type = CommandType_value (command_type_of command) in
      case change_class_of command of
        None \<Rightarrow> cmd_type \<in> APPROVAL_REQUIRED
      | Some cc \<Rightarrow> if cmd_type = CommandType_value REQUEST_UPDATE_CONFIG
                  then ChangeClass_value cc = ChangeClass_value TRADING_IMPACTING
                  else cmd_type \<in> APPROVAL_REQUIRED)"

definition new_record :: "dumper \<Rightarrow> string \<Rightarrow> Command \<Rightarrow> string \<Rightarrow> draws \<Rightarrow> CommandRecord" where
  "new_record dump ag command idem_key d =
     \<lparr>command_id = dr_id d, idempotency_key = idem_key, agent_id = ag,
      command_type = CommandType_value (command_type_of command), payload = dump command,
      status = PENDING, requires_approval = needs_approval command,
      change_class = map_option ChangeClass_value (change_class_of command),
      created_at = dr_now d, received_at = None, approved_at = None, completed_at = None,
      approval_status = None, evidence_hash = None, result = None, error = None\<rparr>"

definition create_command ::
  "dumper \<Rightarrow> CommandService \<Rightarrow> string \<Rightarrow> Command \<Rightarrow> string option \<Rightarrow> draws \<Rightarrow>
   (command_error, addr, CommandService) pyres" where
  "create_command dump cs ag command key d =
     (let cmd_type = CommandType_value (command_type_of command) in
      if cmd_type \<notin> ALLOWED_COMMAND_TYPES then py_raise (Command_type_not_allowed cmd_type) cs
      else let idem_key = or_else key (dr_key d) in
      case get_by_idempotency_key (store cs) ag idem_key of
        Some a \<Rightarrow> py_return a cs
      | None \<Rightarrow>
          (let a = length (heap_of cs);
               h = heap_of cs @ [new_record dump ag command idem_key d] in
           py_return a (cs\<lparr>heap_of := h, store := save h (store cs) a, queue := enqueue (queue cs) ag a\<rparr>)))"

text \<open>The three updates: find the record, assign its fields, store it again.\<close>

definition mutate :: "CommandService \<Rightarrow> string \<Rightarrow> (CommandRecord \<Rightarrow> CommandRecord) \<Rightarrow> bool \<times> CommandService" where
  "mutate cs cid f =
     (case store_get (store cs) cid of
        None \<Rightarrow> (False, cs)
      | Some a \<Rightarrow>
          (let h = (heap_of cs)[a := f (heap_of cs ! a)] in
           (True, cs\<lparr>heap_of := h, store := update h (store cs) a\<rparr>)))"

definition acknowledge :: "CommandService \<Rightarrow> string \<Rightarrow> CommandStatus \<Rightarrow> time \<Rightarrow> bool \<times> CommandService" where
  "acknowledge cs cid s now = mutate cs cid (\<lambda>r. r\<lparr>status := s, received_at := Some now\<rparr>)"

definition set_approval ::
  "CommandService \<Rightarrow> string \<Rightarrow> bool \<Rightarrow> string option \<Rightarrow> time \<Rightarrow> bool \<times> CommandService" where
  "set_approval cs cid approved evidence now =
     mutate cs cid (\<lambda>r.
       (if approved then r\<lparr>status := APPROVED, approval_status := Some ''APPROVED''\<rparr>
        else r\<lparr>status := REJECTED, approval_status := Some ''REJECTED''\<rparr>)
       \<lparr>approved_at := Some now, evidence_hash := evidence\<rparr>)"

definition complete ::
  "CommandService \<Rightarrow> string \<Rightarrow> (string, pyval) dict option \<Rightarrow> (string, string) dict option \<Rightarrow> time \<Rightarrow>
   bool \<times> CommandService" where
  "complete cs cid res err now =
     mutate cs cid (\<lambda>r.
       (if truthy err then r\<lparr>status := FAILED, error := err\<rparr>
        else r\<lparr>status := COMPLETED, result := res\<rparr>)
       \<lparr>completed_at := Some now\<rparr>)"

definition service_get :: "CommandService \<Rightarrow> string \<Rightarrow> addr option" where
  "service_get cs cid = store_get (store cs) cid"

definition poll_commands ::
  "CommandService \<Rightarrow> string \<Rightarrow> rat option \<Rightarrow> (command_error, addr list, CommandService) pyres" where
  "poll_commands cs ag timeout =
     (case poll (queue cs) ag timeout of (r, q) \<Rightarrow> (r, cs\<lparr>queue := q\<rparr>))"

subsection \<open>The dispatcher\<close>

text \<open>
  Every method builds a command with a generated key of its own, which pydantic validates, and hands
  it to \<open>create_command\<close> without a key.
\<close>

definition dispatch ::
  "dumper \<Rightarrow> CommandService \<Rightarrow> string \<Rightarrow> Command \<Rightarrow> draws \<Rightarrow> (command_error, addr, CommandService) pyres" where
  "dispatch dump cs ag command d =
     (case validated command of
        Inl e \<Rightarrow> py_raise e cs
      | Inr c \<Rightarrow> create_command dump cs ag c None d)"

definition new_base :: "time \<Rightarrow> string \<Rightarrow> BaseCommand" where
  "new_base now key = \<lparr>bc_timestamp = now, bc_signature = None, bc_idempotency_key = key\<rparr>"

definition request_start_run where
  "request_start_run dump cs ag dep art cfg now key d =
     dispatch dump cs ag (RequestStartRunCommand (new_base now key) dep art cfg) d"

definition request_stop_run where
  "request_stop_run dump cs ag dep rsn now key d =
     dispatch dump cs ag (RequestStopRunCommand (new_base now key) dep rsn) d"

definition request_pause_run where
  "request_pause_run dump cs ag dep rsn now key d =
     dispatch dump cs ag (RequestPauseRunCommand (new_base now key) dep rsn) d"

definition request_upgrade_artifact where
  "request_upgrade_artifact dump cs ag dep new old now key d =
     dispatch dump cs ag (RequestUpgradeArtifactCommand (new_base now key) dep new old) d"

definition request_update_config where
  "request_update_config dump cs ag dep new old trading_impacting now key d =
     dispatch dump cs ag
       (RequestUpdateConfigCommand (new_base now key) dep new old
          (if trading_impacting then TRADING_IMPACTING else NON_TRADING_IMPACTING) trading_impacting) d"

subsection \<open>Interface: what the service relies on of a store\<close>

text \<open>
  The contract of \<^verbatim>\<open>CommandStore\<close>: lookup after save, the idempotency index, an update
  that leaves a stored object where it is, and the pending list as a selection of the stored
  records in the order they were saved.
\<close>

locale command_store =
  fixes sv :: "heap \<Rightarrow> 's \<Rightarrow> addr \<Rightarrow> 's"
    and gt :: "'s \<Rightarrow> string \<Rightarrow> addr option"
    and gk :: "'s \<Rightarrow> string \<Rightarrow> string \<Rightarrow> addr option"
    and up :: "heap \<Rightarrow> 's \<Rightarrow> addr \<Rightarrow> 's"
    and recs :: "'s \<Rightarrow> addr list"
    and pend :: "heap \<Rightarrow> 's \<Rightarrow> string \<Rightarrow> addr list"
    and ok :: "'s \<Rightarrow> bool"
  assumes get_save: "gt (sv h s a) c = (if c = command_id (h ! a) then Some a else gt s c)"
    and key_save: "command_id (h ! a) \<noteq> [] \<Longrightarrow> gk (sv h s a) (agent_id (h ! a)) (idempotency_key (h ! a)) = Some a"
    and key_keep: "ok s \<Longrightarrow> gt s (command_id (h ! a)) = None \<Longrightarrow>
      gk s (agent_id (h ! a)) (idempotency_key (h ! a)) = None \<Longrightarrow> gk s ag k = Some b \<Longrightarrow> gk (sv h s a) ag k = Some b"
    and update_stored: "ok s \<Longrightarrow> gt s (command_id (h ! a)) = Some a \<Longrightarrow> up h s a = s"
    and ok_save: "ok s \<Longrightarrow> command_id (h ! a) \<noteq> [] \<Longrightarrow> ok (sv h s a)"
    and recs_save: "gt s (command_id (h ! a)) = None \<Longrightarrow> recs (sv h s a) = recs s @ [a]"
    and pend_eq: "pend h s ag = filter (\<lambda>a. agent_id (h ! a) = ag \<and> \<not> is_complete (h ! a)) (recs s)"
begin

text \<open>
  Storing a list of records, each with an unused id, each only when its key is free: a key that was
  claimed once keeps naming the same record, and the stored records are in order of arrival.
\<close>

definition arrive :: "heap \<Rightarrow> 's \<Rightarrow> addr \<Rightarrow> 's" where
  "arrive h s a = (if gk s (agent_id (h ! a)) (idempotency_key (h ! a)) = None then sv h s a else s)"

lemma arrive_keeps:
  assumes "ok s" and "gt s (command_id (h ! a)) = None" and "gk s ag k = Some b"
  shows "gk (arrive h s a) ag k = Some b"
  using assms by (auto simp: arrive_def intro: key_keep)

lemma arrive_claims:
  assumes "command_id (h ! a) \<noteq> []"
  shows "gk (arrive h s a) (agent_id (h ! a)) (idempotency_key (h ! a)) \<noteq> None"
  using key_save [OF assms] by (auto simp: arrive_def)

lemma arrive_ok: "ok s \<Longrightarrow> command_id (h ! a) \<noteq> [] \<Longrightarrow> ok (arrive h s a)"
  by (simp add: arrive_def ok_save)

lemma pend_save:
  assumes "gt s (command_id (h ! a)) = None"
  shows "pend h (sv h s a) ag =
    pend h s ag @ (if agent_id (h ! a) = ag \<and> \<not> is_complete (h ! a) then [a] else [])"
  by (simp add: pend_eq recs_save [OF assms])

end

definition store_ok :: "InMemoryCommandStore \<Rightarrow> bool" where
  "store_ok st \<longleftrightarrow> dict_ok (st_commands st) \<and>
     (\<forall>p \<in> set (st_by_idem_key st). snd p \<noteq> [] \<and> dict_has (st_commands st) (snd p))"

lemma store_ok_key:
  "store_ok st \<Longrightarrow> dict_get (st_by_idem_key st) k = Some c \<Longrightarrow> c \<noteq> [] \<and> dict_has (st_commands st) c"
  unfolding store_ok_def by (metis map_of_SomeD snd_conv)

lemma store_ok_free:
  "store_ok st \<Longrightarrow> get_by_idempotency_key st ag k = None \<longleftrightarrow> dict_get (st_by_idem_key st) (idem_string ag k) = None"
  using store_ok_key [of st "idem_string ag k"]
  by (auto simp: get_by_idempotency_key_def dict_has_def split: option.splits)

lemma dict_set_same: "dict_get d k = Some v \<Longrightarrow> dict_set d k v = d"
  by (induction d k v rule: dict_set.induct) (auto split: if_splits)

interpretation ims: command_store save store_get get_by_idempotency_key update
  "\<lambda>st. dict_values (st_commands st)" list_pending store_ok
proof (unfold_locales, goal_cases)
  case (1 h s a c)
  then show ?case by (simp add: store_get_def save_def Let_def)
next
  case (2 h a s)
  then show ?case by (simp add: get_by_idempotency_key_def save_def Let_def)
next
  case (3 s h a ag k b)
  let ?new = "idem_string (agent_id (h ! a)) (idempotency_key (h ! a))"
  have free: "dict_get (st_by_idem_key s) ?new = None" using 3 store_ok_free by blast
  then have ne: "idem_string ag k \<noteq> ?new"
    using 3(4) by (auto simp: get_by_idempotency_key_def)
  obtain c where c: "dict_get (st_by_idem_key s) (idem_string ag k) = Some c" "c \<noteq> []"
      "dict_get (st_commands s) c = Some b"
    using 3(4) by (auto simp: get_by_idempotency_key_def split: option.splits if_splits)
  with 3(2) have "c \<noteq> command_id (h ! a)" by (auto simp: store_get_def)
  with c ne show ?case by (simp add: get_by_idempotency_key_def save_def Let_def)
next
  case (4 s h a)
  then show ?case by (simp add: update_def store_get_def dict_has_def dict_set_same)
next
  case (5 s h a)
  have "set (dict_set (st_by_idem_key s) (idem_string (agent_id (h ! a)) (idempotency_key (h ! a))) (command_id (h ! a)))
      \<subseteq> insert (idem_string (agent_id (h ! a)) (idempotency_key (h ! a)), command_id (h ! a)) (set (st_by_idem_key s))"
    by (rule set_dict_set_subset)
  with 5 show ?case by (fastforce simp: store_ok_def save_def Let_def dict_ok_set)
next
  case (6 s h a)
  then show ?case by (simp add: save_def Let_def store_get_def dict_set_new)
next
  case (7 h s ag)
  then show ?case by (simp add: list_pending_def)
qed

subsection \<open>Calls, runs and the invariant\<close>

datatype cs_call =
    Create string Command "string option" draws
  | Acknowledge string CommandStatus time
  | Set_Approval string bool "string option" time
  | Complete string "(string, pyval) dict option" "(string, string) dict option" time
  | Poll string "rat option"
  | Clear string

text \<open>What a call does to the queues of the agents: a new record goes in, records come out.\<close>

datatype cs_event =
    Created string addr
  | Delivered string "addr list"
  | Cleared string
  | Quiet

fun cs_exec :: "dumper \<Rightarrow> CommandService \<Rightarrow> cs_call \<Rightarrow> cs_event \<times> CommandService" where
  "cs_exec dump cs (Create ag c k d) =
     (case create_command dump cs ag c k d of
        (Inr a, cs') \<Rightarrow> (if a = length (heap_of cs) then Created ag a else Quiet, cs')
      | (Inl e, cs') \<Rightarrow> (Quiet, cs'))"
| "cs_exec dump cs (Acknowledge cid s now) = (Quiet, snd (acknowledge cs cid s now))"
| "cs_exec dump cs (Set_Approval cid b e now) = (Quiet, snd (set_approval cs cid b e now))"
| "cs_exec dump cs (Complete cid r e now) = (Quiet, snd (complete cs cid r e now))"
| "cs_exec dump cs (Poll ag t) =
     (case poll_commands cs ag t of
        (Inr xs, cs') \<Rightarrow> (Delivered ag xs, cs')
      | (Inl e, cs') \<Rightarrow> (Quiet, cs'))"
| "cs_exec dump cs (Clear ag) = (Cleared ag, cs\<lparr>queue := clear (queue cs) ag\<rparr>)"

text \<open>Generated ids are not empty and not in use.\<close>

fun fresh_draw :: "CommandService \<Rightarrow> cs_call \<Rightarrow> bool" where
  "fresh_draw cs (Create ag c k d) = (dr_id d \<noteq> [] \<and> store_get (store cs) (dr_id d) = None)"
| "fresh_draw cs _ = True"

inductive served :: "dumper \<Rightarrow> CommandService \<Rightarrow> cs_event list \<Rightarrow> CommandService \<Rightarrow> bool"
  for dump cs where
  served_refl: "served dump cs [] cs"
| served_step: "served dump cs es cs' \<Longrightarrow> fresh_draw cs' call \<Longrightarrow> cs_exec dump cs' call = (e, cs'') \<Longrightarrow>
    served dump cs (es @ [e]) cs''"

text \<open>
  The approval rule a record carries: a configuration update needs approval exactly when it impacts
  trading, the safety commands never do, every other command does.
\<close>

definition approval_rule :: "CommandRecord \<Rightarrow> bool" where
  "approval_rule r \<longleftrightarrow> requires_approval r =
     (if command_type r = CommandType_value REQUEST_UPDATE_CONFIG
      then change_class r = Some (ChangeClass_value TRADING_IMPACTING)
      else command_type r \<notin> SAFETY_COMMANDS)"

definition queues_ok :: "heap \<Rightarrow> CommandQueue \<Rightarrow> bool" where
  "queues_ok h q \<longleftrightarrow> (\<forall>ag a. a \<in> set (queue_of q ag) \<longrightarrow> a < length h \<and> agent_id (h ! a) = ag)"

definition service_ok :: "CommandService \<Rightarrow> bool" where
  "service_ok cs \<longleftrightarrow> store_ok (store cs) \<and>
     dict_values (st_commands (store cs)) = [0..<length (heap_of cs)] \<and>
     (\<forall>c a. store_get (store cs) c = Some a \<longrightarrow> command_id (heap_of cs ! a) = c) \<and>
     (\<forall>ag k a. get_by_idempotency_key (store cs) ag k = Some a \<longrightarrow>
        idem_string (agent_id (heap_of cs ! a)) (idempotency_key (heap_of cs ! a)) = idem_string ag k) \<and>
     queues_ok (heap_of cs) (queue cs) \<and> list_all approval_rule (heap_of cs)"

text \<open>What an update of a record may not change.\<close>

definition same_identity :: "CommandRecord \<Rightarrow> CommandRecord \<Rightarrow> bool" where
  "same_identity r s \<longleftrightarrow> command_id s = command_id r \<and> idempotency_key s = idempotency_key r \<and>
     agent_id s = agent_id r \<and> command_type s = command_type r \<and> payload s = payload r \<and>
     requires_approval s = requires_approval r \<and> change_class s = change_class r"

lemma queue_of_set [simp]: "queue_of (set_queue q ag xs) ag' = (if ag' = ag then xs else queue_of q ag')"
  by (simp add: queue_of_def set_queue_def)

lemma drain_eq [simp]: "drain taken xs = (taken @ xs, [])"
  by (induction taken xs rule: drain.induct) auto

lemma empty_queue_eq [simp]: "empty_queue xs = []"
  by (induction xs) auto

lemma poll_cases:
  "poll q ag t = (Inr (queue_of q ag), set_queue q ag []) \<or> (\<exists>e. poll q ag t = (Inl e, set_queue q ag (queue_of q ag)))"
  by (auto simp: poll_def Let_def split: list.splits)

lemma clear_eq: "queue_of (clear q ag) ag' = (if ag' = ag then [] else queue_of q ag')"
  by (auto simp: clear_def queue_of_def set_queue_def dict_has_def)

lemma needs_approval_rule: "approval_rule (new_record dump ag c k d)"
  by (cases c; simp add: approval_rule_def new_record_def needs_approval_def APPROVAL_REQUIRED_def
      SAFETY_COMMANDS_def Let_def; cases "cfg_change_class c"; simp)

lemma all_types_allowed [simp]: "CommandType_value t \<in> ALLOWED_COMMAND_TYPES"
  by (cases t) (simp_all add: ALLOWED_COMMAND_TYPES_def)

lemma create_existing:
  "get_by_idempotency_key (store cs) ag (or_else k (dr_key d)) = Some a \<Longrightarrow> create_command dump cs ag c k d = (Inr a, cs)"
  by (simp add: create_command_def Let_def)

lemma create_new:
  assumes "get_by_idempotency_key (store cs) ag (or_else k (dr_key d)) = None"
  shows "create_command dump cs ag c k d =
    (let h = heap_of cs @ [new_record dump ag c (or_else k (dr_key d)) d] in
     (Inr (length (heap_of cs)), cs\<lparr>heap_of := h, store := save h (store cs) (length (heap_of cs)),
        queue := enqueue (queue cs) ag (length (heap_of cs))\<rparr>))"
  using assms by (simp add: create_command_def Let_def)

lemma service_ok_get:
  assumes "service_ok cs" and "store_get (store cs) c = Some a"
  shows "a < length (heap_of cs) \<and> command_id (heap_of cs ! a) = c"
proof -
  have "a \<in> set (dict_values (st_commands (store cs)))"
    using assms(2) unfolding store_get_def by (metis image_eqI map_of_SomeD set_map snd_conv)
  with assms show ?thesis by (auto simp: service_ok_def)
qed

lemma service_ok_key:
  assumes "service_ok cs" and "get_by_idempotency_key (store cs) ag k = Some a"
  shows "a < length (heap_of cs) \<and>
    idem_string (agent_id (heap_of cs ! a)) (idempotency_key (heap_of cs ! a)) = idem_string ag k"
proof -
  obtain c where "store_get (store cs) c = Some a"
    using assms(2) by (auto simp: get_by_idempotency_key_def store_get_def split: option.splits if_splits)
  then have "a < length (heap_of cs)" using service_ok_get [OF assms(1)] by blast
  then show ?thesis using assms unfolding service_ok_def by blast
qed

lemma store_key_new:
  assumes "store_ok st" and "command_id (h ! a) \<noteq> []" and "store_get st (command_id (h ! a)) = None"
    and "get_by_idempotency_key (save h st a) ag k = Some b"
  shows "idem_string ag k = idem_string (agent_id (h ! a)) (idempotency_key (h ! a)) \<and> b = a \<or>
    get_by_idempotency_key st ag k = Some b"
proof (cases "idem_string ag k = idem_string (agent_id (h ! a)) (idempotency_key (h ! a))")
  case True
  with assms show ?thesis by (simp add: get_by_idempotency_key_def save_def Let_def)
next
  case False
  then obtain c where c: "dict_get (st_by_idem_key st) (idem_string ag k) = Some c" "c \<noteq> []"
    "((dict_get (st_commands st))(command_id (h ! a) \<mapsto> a)) c = Some b"
    using assms(4) by (auto simp: get_by_idempotency_key_def save_def Let_def split: option.splits if_splits)
  have "dict_has (st_commands st) c" using store_ok_key [OF assms(1) c(1)] by blast
  then have "c \<noteq> command_id (h ! a)" using assms(3) by (auto simp: store_get_def dict_has_def)
  with c show ?thesis by (simp add: get_by_idempotency_key_def)
qed

lemma create_ok:
  assumes ok: "service_ok cs" and id: "dr_id d \<noteq> []" "store_get (store cs) (dr_id d) = None"
  shows "service_ok (snd (create_command dump cs ag c k d))"
proof (cases "get_by_idempotency_key (store cs) ag (or_else k (dr_key d))")
  case (Some a)
  then show ?thesis using ok create_existing by simp
next
  case None
  let ?key = "or_else k (dr_key d)" and ?n = "length (heap_of cs)"
  define h where "h = heap_of cs @ [new_record dump ag c ?key d]"
  have new: "h ! ?n = new_record dump ag c ?key d" and old: "\<And>i. i < ?n \<Longrightarrow> h ! i = heap_of cs ! i"
    by (simp_all add: h_def nth_append)
  have rid: "command_id (h ! ?n) = dr_id d" "agent_id (h ! ?n) = ag" "idempotency_key (h ! ?n) = ?key"
    by (simp_all add: new new_record_def)
  have sok: "store_ok (store cs)" using ok by (simp add: service_ok_def)
  have "store_ok (save h (store cs) ?n)" using ims.ok_save [of "store cs" h ?n] sok id rid by simp
  moreover have "dict_values (st_commands (save h (store cs) ?n)) = [0..<Suc ?n]"
    using ims.recs_save [of "store cs" h ?n] id rid ok by (simp add: service_ok_def)
  moreover have "command_id (h ! a) = x" if "store_get (save h (store cs) ?n) x = Some a" for x a
    using that service_ok_get [OF ok, of x a] old [of a] rid
    by (auto simp: ims.get_save split: if_splits)
  moreover have "idem_string (agent_id (h ! a)) (idempotency_key (h ! a)) = idem_string ag' k'"
    if "get_by_idempotency_key (save h (store cs) ?n) ag' k' = Some a" for ag' k' a
    using store_key_new [OF sok _ _ that] id rid service_ok_key [OF ok, of ag' k' a] old [of a] by auto
  moreover have "queues_ok h (enqueue (queue cs) ag ?n)"
    using ok old rid by (auto simp: service_ok_def queues_ok_def enqueue_def h_def less_Suc_eq)
  moreover have "list_all approval_rule h"
    using ok by (simp add: h_def service_ok_def needs_approval_rule)
  moreover have "length h = Suc ?n" by (simp add: h_def)
  ultimately show ?thesis
    unfolding create_new [OF None] Let_def h_def [symmetric] service_ok_def by simp
qed

lemma mutate_eq:
  assumes "service_ok cs" and "store_get (store cs) cid = Some a" and "same_identity (heap_of cs ! a) (f (heap_of cs ! a))"
  shows "mutate cs cid f = (True, cs\<lparr>heap_of := (heap_of cs)[a := f (heap_of cs ! a)]\<rparr>)"
proof -
  let ?h = "(heap_of cs)[a := f (heap_of cs ! a)]"
  have "a < length (heap_of cs)" "command_id (heap_of cs ! a) = cid" using service_ok_get [OF assms(1,2)] by auto
  then have "store_get (store cs) (command_id (?h ! a)) = Some a"
    using assms(2,3) by (simp add: same_identity_def)
  then have "update ?h (store cs) a = store cs"
    using ims.update_stored assms(1) by (simp add: service_ok_def)
  then show ?thesis using assms(2) by (simp add: mutate_def Let_def)
qed

lemma heap_update_ok:
  assumes ok: "service_ok cs" and a: "a < length (heap_of cs)" and id: "same_identity (heap_of cs ! a) r"
  shows "service_ok (cs\<lparr>heap_of := (heap_of cs)[a := r]\<rparr>)"
proof -
  have same: "command_id ((heap_of cs)[a := r] ! i) = command_id (heap_of cs ! i)"
    "agent_id ((heap_of cs)[a := r] ! i) = agent_id (heap_of cs ! i)"
    "idempotency_key ((heap_of cs)[a := r] ! i) = idempotency_key (heap_of cs ! i)" for i
    using a id by (auto simp: nth_list_update same_identity_def)
  have "approval_rule (heap_of cs ! a)" using ok a by (simp add: service_ok_def list_all_length)
  then have "approval_rule r" using id by (simp add: approval_rule_def same_identity_def)
  then have "list_all approval_rule ((heap_of cs)[a := r])"
    using ok a by (simp add: service_ok_def list_all_length nth_list_update)
  then show ?thesis using ok by (simp add: service_ok_def same queues_ok_def)
qed

lemma mutate_ok:
  assumes "service_ok cs" and "\<And>r. same_identity r (f r)"
  shows "service_ok (snd (mutate cs cid f))"
proof (cases "store_get (store cs) cid")
  case None
  then show ?thesis using assms by (simp add: mutate_def)
next
  case (Some a)
  then show ?thesis
    using mutate_eq [OF assms(1) Some, of f] heap_update_ok [OF assms(1), of a "f (heap_of cs ! a)"]
      assms(2) [of "heap_of cs ! a"] service_ok_get [OF assms(1) Some]
    by simp
qed

lemma updates_same_identity [simp]:
  "same_identity r (r\<lparr>status := s, received_at := t\<rparr>)"
  "same_identity r ((if b then r\<lparr>status := APPROVED, approval_status := x\<rparr>
     else r\<lparr>status := REJECTED, approval_status := y\<rparr>)\<lparr>approved_at := t, evidence_hash := e\<rparr>)"
  "same_identity r ((if b then r\<lparr>status := FAILED, error := er\<rparr> else r\<lparr>status := COMPLETED, result := re\<rparr>)\<lparr>completed_at := t\<rparr>)"
  by (simp_all add: same_identity_def)

lemma service_ok_queue: "service_ok cs \<Longrightarrow> queues_ok (heap_of cs) q \<Longrightarrow> service_ok (cs\<lparr>queue := q\<rparr>)"
  by (simp add: service_ok_def)

lemma cs_exec_ok:
  assumes "service_ok cs" and "fresh_draw cs call"
  shows "service_ok (snd (cs_exec dump cs call))"
proof (cases call)
  case (Create ag c k d)
  then show ?thesis using create_ok [OF assms(1), of d dump ag c k] assms(2)
    by (auto split: prod.splits sum.splits)
next
  case (Poll ag t)
  have q: "queues_ok (heap_of cs) (queue cs)" using assms(1) by (simp add: service_ok_def)
  show ?thesis
    using poll_cases [of "queue cs" ag t] q Poll assms(1)
    by (auto simp: poll_commands_def queues_ok_def intro!: service_ok_queue)
next
  case (Clear ag)
  then show ?thesis using assms(1)
    by (auto simp: clear_eq queues_ok_def service_ok_def)
qed (use assms mutate_ok in \<open>simp_all add: acknowledge_def set_approval_def complete_def\<close>)

lemma init_service_ok: "service_ok (init_service t)"
  by (simp add: service_ok_def init_service_def init_store_def init_queue_def store_ok_def queues_ok_def
      queue_of_def get_by_idempotency_key_def store_get_def)

lemma served_ok: "served dump cs es cs' \<Longrightarrow> service_ok cs \<Longrightarrow> service_ok cs'"
proof (induction rule: served.induct)
  case (served_step es cs' call e cs'')
  then show ?case using cs_exec_ok [of cs' call dump] by simp
qed

subsection \<open>What one call does to keys and queues\<close>

lemma mutate_store [simp]:
  assumes "service_ok cs" and "\<And>r. same_identity r (f r)"
  shows "store (snd (mutate cs cid f)) = store cs" and "queue (snd (mutate cs cid f)) = queue cs"
    and "length (heap_of (snd (mutate cs cid f))) = length (heap_of cs)"
  using mutate_eq [OF assms(1), of cid _ f] assms(2)
  by (cases "store_get (store cs) cid"; auto simp: mutate_def Let_def)+

lemmas update_defs = acknowledge_def set_approval_def complete_def

lemma exec_keeps_key:
  assumes ok: "service_ok cs" and "fresh_draw cs call" and key: "get_by_idempotency_key (store cs) ag k = Some a"
  shows "get_by_idempotency_key (store (snd (cs_exec dump cs call))) ag k = Some a"
proof (cases call)
  case (Create ag' c k' d)
  let ?key = "or_else k' (dr_key d)" and ?n = "length (heap_of cs)"
  define h where "h = heap_of cs @ [new_record dump ag' c ?key d]"
  have r: "command_id (h ! ?n) = dr_id d" "agent_id (h ! ?n) = ag'" "idempotency_key (h ! ?n) = ?key"
    by (simp_all add: h_def new_record_def)
  have "store (snd (create_command dump cs ag' c k' d)) = ims.arrive h (store cs) ?n"
    by (cases "get_by_idempotency_key (store cs) ag' ?key")
      (simp_all add: create_existing create_new ims.arrive_def r Let_def flip: h_def)
  moreover have "get_by_idempotency_key (ims.arrive h (store cs) ?n) ag k = Some a"
    using ims.arrive_keeps [of "store cs" h ?n ag k a] ok key r assms(2) Create by (simp add: service_ok_def)
  ultimately show ?thesis using Create by (auto split: prod.splits sum.splits)
next
  case (Poll ag' t)
  then show ?thesis using key by (auto simp: poll_commands_def split: prod.splits sum.splits)
qed (use ok key in \<open>simp_all add: update_defs\<close>)

lemma served_keeps_key:
  "served dump cs es cs' \<Longrightarrow> service_ok cs \<Longrightarrow> get_by_idempotency_key (store cs) ag k = Some a \<Longrightarrow>
   get_by_idempotency_key (store cs') ag k = Some a"
proof (induction rule: served.induct)
  case (served_step es cs' call e cs'')
  then show ?case using exec_keeps_key [of cs' call ag k a dump] served_ok [of dump cs es cs'] by simp
qed

lemma create_claims_key:
  assumes ok: "service_ok cs" and "dr_id d \<noteq> []" and "create_command dump cs ag c k d = (Inr a, cs')"
  shows "get_by_idempotency_key (store cs') ag (or_else k (dr_key d)) = Some a"
proof (cases "get_by_idempotency_key (store cs) ag (or_else k (dr_key d))")
  case (Some b)
  then show ?thesis using create_existing [OF Some] assms(3) by simp
next
  case None
  let ?n = "length (heap_of cs)"
  define h where "h = heap_of cs @ [new_record dump ag c (or_else k (dr_key d)) d]"
  have r: "command_id (h ! ?n) = dr_id d" "agent_id (h ! ?n) = ag" "idempotency_key (h ! ?n) = or_else k (dr_key d)"
    by (simp_all add: h_def new_record_def)
  have "a = ?n" "store cs' = save h (store cs) ?n"
    using create_new [OF None, of dump c] assms(3) by (auto simp: Let_def h_def)
  then show ?thesis using ims.key_save [of h ?n "store cs"] r assms(2) by simp
qed

text \<open>The queues after a call, read off its event.\<close>

fun queue_after :: "string \<Rightarrow> cs_event \<Rightarrow> addr list \<Rightarrow> addr list" where
  "queue_after ag (Created ag' a) xs = (if ag' = ag then xs @ [a] else xs)"
| "queue_after ag (Delivered ag' ys) xs = (if ag' = ag then [] else xs)"
| "queue_after ag (Cleared ag') xs = (if ag' = ag then [] else xs)"
| "queue_after ag Quiet xs = xs"

definition event_ok :: "CommandService \<Rightarrow> cs_event \<Rightarrow> CommandService \<Rightarrow> bool" where
  "event_ok cs e cs' \<longleftrightarrow> (\<forall>ag. queue_of (queue cs') ag = queue_after ag e (queue_of (queue cs) ag)) \<and>
     (\<forall>ag xs. e = Delivered ag xs \<longrightarrow> xs = queue_of (queue cs) ag) \<and>
     length (heap_of cs') = (case e of Created ag a \<Rightarrow> Suc (length (heap_of cs)) | _ \<Rightarrow> length (heap_of cs)) \<and>
     (\<forall>ag a. e = Created ag a \<longrightarrow> a = length (heap_of cs))"

lemma cs_exec_event:
  assumes ok: "service_ok cs" and "fresh_draw cs call"
  shows "event_ok cs (fst (cs_exec dump cs call)) (snd (cs_exec dump cs call))"
proof (cases call)
  case (Create ag c k d)
  show ?thesis
  proof (cases "get_by_idempotency_key (store cs) ag (or_else k (dr_key d))")
    case None
    then show ?thesis using Create by (simp add: create_new Let_def event_ok_def enqueue_def)
  next
    case (Some a)
    then have "a \<noteq> length (heap_of cs)" using service_ok_key [OF ok Some] by simp
    then show ?thesis using Create Some by (simp add: create_existing event_ok_def)
  qed
next
  case (Poll ag t)
  then show ?thesis using poll_cases [of "queue cs" ag t] by (auto simp: poll_commands_def event_ok_def)
qed (use ok in \<open>simp_all add: update_defs event_ok_def clear_eq\<close>)

fun created :: "string \<Rightarrow> cs_event list \<Rightarrow> addr list" where
  "created ag [] = []"
| "created ag (Created ag' a # es) = (if ag' = ag then a # created ag es else created ag es)"
| "created ag (_ # es) = created ag es"

fun delivered :: "string \<Rightarrow> cs_event list \<Rightarrow> addr list" where
  "delivered ag [] = []"
| "delivered ag (Delivered ag' xs # es) = (if ag' = ag then xs @ delivered ag es else delivered ag es)"
| "delivered ag (_ # es) = delivered ag es"

lemma created_append [simp]: "created ag (es @ es') = created ag es @ created ag es'"
  by (induction ag es rule: created.induct) auto

lemma delivered_append [simp]: "delivered ag (es @ es') = delivered ag es @ delivered ag es'"
  by (induction ag es rule: delivered.induct) auto

lemma served_queue:
  assumes "served dump cs es cs'" and "service_ok cs" and "queue_of (queue cs) ag = []" and "Cleared ag \<notin> set es"
  shows "delivered ag es @ queue_of (queue cs') ag = created ag es \<and> sorted_wrt (<) (created ag es) \<and>
    (\<forall>a \<in> set (created ag es). a < length (heap_of cs')) \<and> length (heap_of cs) \<le> length (heap_of cs')"
  using assms
proof (induction rule: served.induct)
  case (served_step es cs1 call e cs2)
  have ok: "service_ok cs1" using served_step served_ok by blast
  have ev: "event_ok cs1 e cs2" using cs_exec_event [OF ok served_step.hyps(2), of dump] served_step.hyps(3) by simp
  have IH: "delivered ag es @ queue_of (queue cs1) ag = created ag es" "sorted_wrt (<) (created ag es)"
    "\<forall>a \<in> set (created ag es). a < length (heap_of cs1)" "length (heap_of cs) \<le> length (heap_of cs1)"
    using served_step by auto
  show ?case
  proof (cases e)
    case (Created ag' a)
    then show ?thesis using ev IH by (auto simp: event_ok_def sorted_wrt_append less_Suc_eq)
  next
    case (Delivered ag' xs)
    then show ?thesis using ev IH by (auto simp: event_ok_def)
  qed (use ev IH served_step.prems in \<open>auto simp: event_ok_def\<close>)
qed simp

text \<open>Keys without a colon make the index key of the store unambiguous.\<close>

definition no_colon :: "string \<Rightarrow> bool" where
  "no_colon k \<longleftrightarrow> CHR '':'' \<notin> set k"

lemma no_colon_tail: "no_colon k \<Longrightarrow> takeWhile (\<lambda>c. c \<noteq> CHR '':'') (rev (idem_string ag k)) = rev k"
  by (auto simp: idem_string_def no_colon_def takeWhile_append)

lemma idem_string_inj:
  assumes "no_colon k" and "no_colon k'" and "idem_string ag k = idem_string ag' k'"
  shows "ag = ag' \<and> k = k'"
proof -
  have "k = k'" using no_colon_tail [OF assms(1), of ag] no_colon_tail [OF assms(2), of ag'] assms(3) by simp
  with assms(3) show ?thesis by (simp add: idem_string_def)
qed

lemma IDEMPOTENCY_KEY_no_colon: "IDEMPOTENCY_KEY_PATTERN k \<Longrightarrow> no_colon k"
  by (auto simp: IDEMPOTENCY_KEY_PATTERN_def no_colon_def list_all_iff is_alnum_def in_range_def)

subsection \<open>Properties\<close>

text \<open>
  C28: idempotency.  Once a key has been used for an agent, every later request with this key, after
  any calls in between and whatever command it carries, returns the record of the first one and
  changes nothing: no second record, no second delivery.
\<close>

theorem create_command_idempotent:
  assumes "served dump (init_service t) es cs" and "k \<noteq> []"
    and "dr_id d \<noteq> []" and "store_get (store cs) (dr_id d) = None"
    and "create_command dump cs ag c (Some k) d = (Inr a, cs1)" and "served dump cs1 es' cs2"
  shows "create_command dump cs2 ag c' (Some k) d' = (Inr a, cs2)"
proof -
  have ok: "service_ok cs" using served_ok [OF assms(1) init_service_ok] .
  have ok1: "service_ok cs1" using create_ok [OF ok assms(3,4), of dump ag c "Some k"] assms(5) by simp
  have "get_by_idempotency_key (store cs1) ag k = Some a"
    using create_claims_key [OF ok assms(3,5)] assms(2) by (simp add: or_else_def)
  then have "get_by_idempotency_key (store cs2) ag k = Some a" by (rule served_keeps_key [OF assms(6) ok1])
  then show ?thesis using assms(2) by (simp add: create_existing or_else_def)
qed

definition sample_command :: Command where
  "sample_command = RequestStopRunCommand (new_base 0 ''abcdefghijklmnop'') ''dep'' None"

definition sample_draws :: "string \<Rightarrow> draws" where
  "sample_draws cid = \<lparr>dr_key = ''generated'', dr_id = cid, dr_now = 0\<rparr>"

definition sample_service :: CommandService where
  "sample_service = snd (create_command (\<lambda>_. []) (init_service 30) ''a1'' sample_command (Some ''k'') (sample_draws ''c1''))"

lemma sample_created:
  "create_command (\<lambda>_. []) (init_service 30) ''a1'' sample_command (Some ''k'') (sample_draws ''c1'') =
   (Inr 0, sample_service)"
  by (simp add: sample_service_def create_command_def Let_def or_else_def init_service_def init_store_def
      get_by_idempotency_key_def)

lemma sample_served: "served (\<lambda>_. []) (init_service 30) [Created ''a1'' 0] sample_service"
proof -
  let ?call = "Create ''a1'' sample_command (Some ''k'') (sample_draws ''c1'')"
  have "fresh_draw (init_service 30) ?call"
    by (simp add: init_service_def init_store_def store_get_def sample_draws_def)
  moreover have "cs_exec (\<lambda>_. []) (init_service 30) ?call = (Created ''a1'' 0, sample_service)"
    by (simp add: sample_created) (simp add: init_service_def)
  ultimately show ?thesis using served_step [OF served_refl [of "\<lambda>_. []" "init_service 30"]] by fastforce
qed

theorem create_command_idempotent_witness:
  "create_command (\<lambda>_. []) sample_service ''a1'' (RequestPauseRunCommand (new_base 7 ''x'') ''dep'' None) (Some ''k'')
     (sample_draws ''c2'') = (Inr 0, sample_service)"
  using create_command_idempotent [OF served_refl [of "\<lambda>_. []" "init_service 30"] _ _ _ sample_created served_refl]
  by (simp add: sample_draws_def init_service_def init_store_def store_get_def)

text \<open>
  Delivery.  As long as an agent's queue is not cleared, what its polls returned so far followed
  by what still waits is exactly the sequence of commands created for it, in order, each once.
\<close>

theorem commands_delivered_once_in_order:
  assumes "served dump (init_service t) es cs" and "Cleared ag \<notin> set es"
  shows "delivered ag es @ queue_of (queue cs) ag = created ag es \<and> distinct (created ag es)"
proof -
  have "queue_of (queue (init_service t)) ag = []" by (simp add: init_service_def init_queue_def queue_of_def)
  from served_queue [OF assms(1) init_service_ok this assms(2)] show ?thesis
    by (auto simp: strict_sorted_iff)
qed

theorem commands_delivered_once_in_order_witness:
  "delivered ''a1'' [Created ''a1'' 0] @ queue_of (queue sample_service) ''a1'' = created ''a1'' [Created ''a1'' 0] \<and>
   created ''a1'' [Created ''a1'' 0] = [0]"
  using commands_delivered_once_in_order [OF sample_served, of "''a1''"] by simp

text \<open>
  The approval gate.  In every state the service can reach, every record asks for approval by
  the rule of the design: a configuration update exactly when it impacts trading, a stop or a pause
  never, every other command always; no acknowledgement, decision or completion changes it.
\<close>

theorem approval_requirement_is_fixed:
  assumes "served dump (init_service t) es cs" and "r \<in> set (heap_of cs)"
  shows "requires_approval r \<longleftrightarrow>
    (if command_type r = CommandType_value REQUEST_UPDATE_CONFIG
     then change_class r = Some (ChangeClass_value TRADING_IMPACTING)
     else command_type r \<notin> {CommandType_value REQUEST_STOP_RUN, CommandType_value REQUEST_PAUSE_RUN})"
  using served_ok [OF assms(1) init_service_ok] assms(2)
  by (auto simp: service_ok_def list_all_iff approval_rule_def SAFETY_COMMANDS_def)

lemma sample_heap:
  "heap_of sample_service = [new_record (\<lambda>_. []) ''a1'' sample_command ''k'' (sample_draws ''c1'')]"
  by (simp add: sample_service_def create_command_def Let_def or_else_def init_service_def init_store_def
      get_by_idempotency_key_def)

theorem approval_requirement_is_fixed_witness:
  "\<not> requires_approval (new_record (\<lambda>_. []) ''a1'' sample_command ''k'' (sample_draws ''c1''))"
  using approval_requirement_is_fixed [OF sample_served, of "new_record (\<lambda>_. []) ''a1'' sample_command ''k'' (sample_draws ''c1'')"]
  by (simp add: sample_heap) (simp add: new_record_def sample_command_def)

text \<open>
  A request is answered with a record of its own agent and its own key, if no key contains a
  colon (the key pattern of the protocol excludes it, the service does not check it).
\<close>

theorem created_command_belongs_to_agent:
  assumes "served dump (init_service t) es cs" and "dr_id d \<noteq> []" and "store_get (store cs) (dr_id d) = None"
    and "list_all (\<lambda>r. no_colon (idempotency_key r)) (heap_of cs)" and "no_colon (or_else k (dr_key d))"
  shows "\<exists>a cs'. create_command dump cs ag c k d = (Inr a, cs') \<and> a < length (heap_of cs') \<and>
    agent_id (heap_of cs' ! a) = ag \<and> idempotency_key (heap_of cs' ! a) = or_else k (dr_key d)"
proof (cases "get_by_idempotency_key (store cs) ag (or_else k (dr_key d))")
  case None
  then show ?thesis by (simp add: create_new Let_def new_record_def)
next
  case (Some a)
  have ok: "service_ok cs" using served_ok [OF assms(1) init_service_ok] .
  have "a < length (heap_of cs)"
    "idem_string (agent_id (heap_of cs ! a)) (idempotency_key (heap_of cs ! a)) = idem_string ag (or_else k (dr_key d))"
    using service_ok_key [OF ok Some] by simp_all
  moreover from this(1) have "no_colon (idempotency_key (heap_of cs ! a))"
    using assms(4) by (simp add: list_all_length)
  ultimately show ?thesis using idem_string_inj assms(5) create_existing [OF Some] by blast
qed

theorem created_command_belongs_to_agent_witness:
  "\<exists>a cs'. create_command (\<lambda>_. []) sample_service ''a2'' sample_command (Some ''k'') (sample_draws ''c2'') = (Inr a, cs') \<and>
     agent_id (heap_of cs' ! a) = ''a2''"
proof -
  have "store_get (store sample_service) (dr_id (sample_draws ''c2'')) = None"
    by (simp add: sample_service_def create_command_def Let_def or_else_def init_service_def init_store_def
      get_by_idempotency_key_def store_get_def save_def sample_draws_def new_record_def)
  then show ?thesis
    using created_command_belongs_to_agent [OF sample_served, of "sample_draws ''c2''" "Some ''k''" "''a2''" sample_command]
    by (auto simp: sample_heap or_else_def no_colon_def) (auto simp: sample_draws_def new_record_def)
qed

text \<open>With a colon in a key, an agent is answered with the command of another agent.\<close>

lemma colon_key_returns_other_agents_command:
  fixes dump :: dumper
  defines "cs \<equiv> snd (create_command dump (init_service 30) ''a'' sample_command (Some ''b:c'') (sample_draws ''c1''))"
  shows "create_command dump cs ''a:b'' sample_command (Some ''c'') (sample_draws ''c2'') = (Inr 0, cs) \<and>
    agent_id (heap_of cs ! 0) = ''a''"
  by (simp add: cs_def create_command_def Let_def or_else_def init_service_def init_store_def
      get_by_idempotency_key_def save_def idem_string_def new_record_def sample_draws_def)

text \<open>
  Acknowledgement, decision and completion.  For an id that is not stored each returns false and
  changes nothing.  For a stored id each returns true and rewrites exactly one record, the one the
  agent's queue shares, whatever its status was; store and queues stay as they are.
\<close>

theorem updates_rewrite_one_shared_record:
  assumes "served dump (init_service t) es cs"
  shows "(store_get (store cs) cid = None \<longrightarrow> acknowledge cs cid s now = (False, cs) \<and>
      set_approval cs cid b e now = (False, cs) \<and> complete cs cid res err now = (False, cs)) \<and>
    (\<forall>a. store_get (store cs) cid = Some a \<longrightarrow> a < length (heap_of cs) \<and> command_id (heap_of cs ! a) = cid \<and>
      acknowledge cs cid s now =
        (True, cs\<lparr>heap_of := (heap_of cs)[a := (heap_of cs ! a)\<lparr>status := s, received_at := Some now\<rparr>]\<rparr>) \<and>
      set_approval cs cid b e now =
        (True, cs\<lparr>heap_of := (heap_of cs)[a := (heap_of cs ! a)\<lparr>status := (if b then APPROVED else REJECTED),
           approval_status := Some (if b then ''APPROVED'' else ''REJECTED''), approved_at := Some now,
           evidence_hash := e\<rparr>]\<rparr>) \<and>
      complete cs cid res err now =
        (True, cs\<lparr>heap_of := (heap_of cs)[a := (if truthy err
           then (heap_of cs ! a)\<lparr>status := FAILED, error := err, completed_at := Some now\<rparr>
           else (heap_of cs ! a)\<lparr>status := COMPLETED, result := res, completed_at := Some now\<rparr>)]\<rparr>))"
proof -
  have ok: "service_ok cs" using served_ok [OF assms init_service_ok] .
  show ?thesis
  proof (cases "store_get (store cs) cid")
    case None
    then show ?thesis by (simp add: update_defs mutate_def)
  next
    case (Some a)
    have "mutate cs cid f = (True, cs\<lparr>heap_of := (heap_of cs)[a := f (heap_of cs ! a)]\<rparr>)"
      if "\<And>r. same_identity r (f r)" for f
      using mutate_eq [OF ok Some, of f] that by simp
    with Some service_ok_get [OF ok Some] show ?thesis by (simp add: update_defs)
  qed
qed

theorem updates_rewrite_one_shared_record_witness:
  "set_approval sample_service ''c1'' False None 5 =
     (True, sample_service\<lparr>heap_of := (heap_of sample_service)[0 := (heap_of sample_service ! 0)\<lparr>status := REJECTED,
        approval_status := Some ''REJECTED'', approved_at := Some 5, evidence_hash := None\<rparr>]\<rparr>)"
proof -
  have "store_get (store sample_service) ''c1'' = Some 0"
    by (simp add: sample_service_def create_command_def Let_def or_else_def init_service_def init_store_def
      get_by_idempotency_key_def store_get_def save_def sample_draws_def new_record_def)
  then show ?thesis
    using updates_rewrite_one_shared_record [OF sample_served, of "''c1''" _ 5 False None None None] by simp
qed

text \<open>
  The pending list of an agent is exactly its records that are not completed, failed or
  rejected, in the order they were created.
\<close>

theorem pending_commands_in_creation_order:
  assumes "served dump (init_service t) es cs"
  shows "list_pending (heap_of cs) (store cs) ag =
    filter (\<lambda>a. agent_id (heap_of cs ! a) = ag \<and> status (heap_of cs ! a) \<notin> {COMPLETED, FAILED, REJECTED})
      [0..<length (heap_of cs)]"
  using served_ok [OF assms init_service_ok] ims.pend_eq [of "heap_of cs" "store cs" ag]
  by (auto simp: service_ok_def is_complete_def intro: filter_cong)

theorem pending_commands_in_creation_order_witness:
  "list_pending (heap_of sample_service) (store sample_service) ''a1'' = [0]"
  using pending_commands_in_creation_order [OF sample_served, of "''a1''"]
  by (simp add: sample_heap new_record_def)

text \<open>
  The dispatcher's own key stays in the payload: the record is filed under the second key that
  \<open>create_command\<close> draws, so repeating a dispatch with the same command makes a second record.
\<close>

lemma dispatch_files_under_drawn_key:
  assumes "validated c = Inr c" and "get_by_idempotency_key (store cs) ag (dr_key d) = None"
  shows "\<exists>cs'. dispatch dump cs ag c d = (Inr (length (heap_of cs)), cs') \<and>
    heap_of cs' = heap_of cs @ [new_record dump ag c (dr_key d) d]"
proof -
  have "or_else None (dr_key d) = dr_key d" by (simp add: or_else_def)
  then show ?thesis using assms create_new [of cs ag None d dump c] by (simp add: dispatch_def Let_def)
qed

end
