(* ===== verification/Kill_Switch.thy ===== *)
theory Kill_Switch
  imports Hash_Chain "HOL-Library.Monad_Syntax"
begin

section \<open>The agent's kill switch\<close>

text \<open>
  Model of \<^verbatim>\<open>packages/agent/daemon/kill_switch.py\<close>.  A halt event is a mutable object that
  the current halt and the history share: events live in a heap (the list of all events made, an
  address is an index).  The callbacks act on a world \<open>'w\<close>; a callback that raises is one that
  returns \<open>None\<close>, since every caller swallows the exception.  The history file is the state
  component \<open>disk\<close>: absent, a document, or a file that stopped in the middle because an object
  was not serialisable.  Random identifiers and the readings of the clock are arguments, one per
  reading.  \<^verbatim>\<open>Decimal\<close> results are rounded to the context by the parameter \<open>ctx\<close>;
  Decimals are finite.  SHA-256 is the parameter \<open>sha\<close>, the texts of floats and f-strings the
  parameter \<open>rep\<close>.
\<close>

subsection \<open>Reasons and events\<close>

definition MAX_HALT_HISTORY :: int where
  "MAX_HALT_HISTORY = 1000"

datatype HaltReasonType =
    MAX_DAILY_LOSS | MAX_DRAWDOWN | BROKER_ERROR_BURST | LATENCY_SPIKE | ORDER_SPAM | STATE_DIVERGENCE
  | DATA_FEED_INVALID | POSITION_MISMATCH | HARD_CAP_EXCEEDED | MANUAL_TRIGGER | NETWORK_DOWN
  | CLOUD_UNREACHABLE | TIME_SYNC_DRIFT | SIGNATURE_INVALID | POLICY_VIOLATION | RECONCILIATION_FAILED
  | PREFLIGHT_FAILED

definition all_reason_types :: "HaltReasonType list" where
  "all_reason_types =
     [MAX_DAILY_LOSS, MAX_DRAWDOWN, BROKER_ERROR_BURST, LATENCY_SPIKE, ORDER_SPAM, STATE_DIVERGENCE,
      DATA_FEED_INVALID, POSITION_MISMATCH, HARD_CAP_EXCEEDED, MANUAL_TRIGGER, NETWORK_DOWN,
      CLOUD_UNREACHABLE, TIME_SYNC_DRIFT, SIGNATURE_INVALID, POLICY_VIOLATION, RECONCILIATION_FAILED,
      PREFLIGHT_FAILED]"

fun reason_type_name :: "HaltReasonType \<Rightarrow> string" where
  "reason_type_name MAX_DAILY_LOSS = ''MAX_DAILY_LOSS''"
| "reason_type_name MAX_DRAWDOWN = ''MAX_DRAWDOWN''"
| "reason_type_name BROKER_ERROR_BURST = ''BROKER_ERROR_BURST''"
| "reason_type_name LATENCY_SPIKE = ''LATENCY_SPIKE''"
| "reason_type_name ORDER_SPAM = ''ORDER_SPAM''"
| "reason_type_name STATE_DIVERGENCE = ''STATE_DIVERGENCE''"
| "reason_type_name DATA_FEED_INVALID = ''DATA_FEED_INVALID''"
| "reason_type_name POSITION_MISMATCH = ''POSITION_MISMATCH''"
| "reason_type_name HARD_CAP_EXCEEDED = ''HARD_CAP_EXCEEDED''"
| "reason_type_name MANUAL_TRIGGER = ''MANUAL_TRIGGER''"
| "reason_type_name NETWORK_DOWN = ''NETWORK_DOWN''"
| "reason_type_name CLOUD_UNREACHABLE = ''CLOUD_UNREACHABLE''"
| "reason_type_name TIME_SYNC_DRIFT = ''TIME_SYNC_DRIFT''"
| "reason_type_name SIGNATURE_INVALID = ''SIGNATURE_INVALID''"
| "reason_type_name POLICY_VIOLATION = ''POLICY_VIOLATION''"
| "reason_type_name RECONCILIATION_FAILED = ''RECONCILIATION_FAILED''"
| "reason_type_name PREFLIGHT_FAILED = ''PREFLIGHT_FAILED''"

datatype HaltSeverity = SEV_CRITICAL | SEV_HIGH | SEV_MEDIUM | SEV_LOW

fun HaltSeverity_value :: "HaltSeverity \<Rightarrow> string" where
  "HaltSeverity_value SEV_CRITICAL = ''critical''"
| "HaltSeverity_value SEV_HIGH = ''high''"
| "HaltSeverity_value SEV_MEDIUM = ''medium''"
| "HaltSeverity_value SEV_LOW = ''low''"

datatype HaltAction = HALT_ONLY | CANCEL_ORDERS | FLATTEN_LOCAL | FLATTEN_EMERGENCY

fun HaltAction_value :: "HaltAction \<Rightarrow> string" where
  "HaltAction_value HALT_ONLY = ''halt_only''"
| "HaltAction_value CANCEL_ORDERS = ''cancel_orders''"
| "HaltAction_value FLATTEN_LOCAL = ''flatten_local''"
| "HaltAction_value FLATTEN_EMERGENCY = ''flatten_emergency''"

text \<open>
  Enum lookup by name or by value.  What Python leaves unchecked (the type of a loaded field) is a
  \<open>pyval\<close>.
\<close>

definition find_by :: "('a \<Rightarrow> string) \<Rightarrow> 'a list \<Rightarrow> pyval \<Rightarrow> 'a option" where
  "find_by f xs v = find (\<lambda>x. PStr (f x) = v) xs"

record HaltReason =
  reason_id :: pyval
  reason_type :: HaltReasonType
  severity :: HaltSeverity
  message :: pyval
  details :: pyval
  hr_timestamp :: time
  trigger_source :: pyval
  recovery_action :: pyval
  acknowledgment_required :: pyval

definition reason_to_dict :: "HaltReason \<Rightarrow> (string, pyval) dict" where
  "reason_to_dict r =
     [(''reason_id'', reason_id r), (''reason_type'', PStr (reason_type_name (reason_type r))),
      (''severity'', PStr (HaltSeverity_value (severity r))), (''message'', message r),
      (''details'', details r), (''timestamp'', PIso (hr_timestamp r)),
      (''trigger_source'', trigger_source r), (''recovery_action'', recovery_action r),
      (''acknowledgment_required'', acknowledgment_required r)]"

definition dict_get_default :: "(string, pyval) dict \<Rightarrow> string \<Rightarrow> pyval \<Rightarrow> pyval" where
  "dict_get_default d k v = (case dict_get d k of None \<Rightarrow> v | Some x \<Rightarrow> x)"

definition fromisoformat :: "pyval \<Rightarrow> time option" where
  "fromisoformat v = (case v of PIso t \<Rightarrow> Some t | _ \<Rightarrow> None)"

text \<open>\<open>None\<close> stands for the exception; every caller catches all of them.\<close>

definition reason_from_dict :: "(string, pyval) dict \<Rightarrow> HaltReason option" where
  "reason_from_dict data = do {
     rid \<leftarrow> dict_get data ''reason_id'';
     rt \<leftarrow> Option.bind (dict_get data ''reason_type'') (find_by reason_type_name all_reason_types);
     sev \<leftarrow> Option.bind (dict_get data ''severity'')
              (find_by HaltSeverity_value [SEV_CRITICAL, SEV_HIGH, SEV_MEDIUM, SEV_LOW]);
     msg \<leftarrow> dict_get data ''message'';
     ts \<leftarrow> Option.bind (dict_get data ''timestamp'') fromisoformat;
     Some \<lparr>reason_id = rid, reason_type = rt, severity = sev, message = msg,
           details = dict_get_default data ''details'' (PDict []), hr_timestamp = ts,
           trigger_source = dict_get_default data ''trigger_source'' (PStr []),
           recovery_action = dict_get_default data ''recovery_action'' PNone,
           acknowledgment_required = dict_get_default data ''acknowledgment_required'' (PBool True)\<rparr>
   }"

definition sensitive_key :: "string \<Rightarrow> bool" where
  "sensitive_key key =
     list_ex (\<lambda>s. substring s (lower key)) [''key'', ''secret'', ''password'', ''token'', ''credential'']"

definition telemetry_value :: "pyval \<Rightarrow> pyval" where
  "telemetry_value v =
     (case v of
        PDecimal d \<Rightarrow> PStrOf v
      | PNone \<Rightarrow> PStr (type_name v) | PList _ \<Rightarrow> PStr (type_name v)
      | PSet _ \<Rightarrow> PStr (type_name v) | PDict _ \<Rightarrow> PStr (type_name v)
      | _ \<Rightarrow> v)"

fun get_telemetry_safe_details :: "(string, pyval) dict \<Rightarrow> (string, pyval) dict" where
  "get_telemetry_safe_details [] = []"
| "get_telemetry_safe_details ((key, v) # ds) =
     (key, if sensitive_key key then PStr ''[REDACTED]'' else telemetry_value v) # get_telemetry_safe_details ds"

record HaltEvent =
  event_id :: pyval
  halt_reason :: HaltReason
  action_taken :: HaltAction
  orders_cancelled :: pyval
  positions_flattened :: pyval
  recovery_timestamp :: "time option"
  recovery_approval_code :: "string option"
  acknowledged_by :: pyval
  acknowledged_at :: "time option"
  evidence_hash :: pyval

text \<open>What \<^verbatim>\<open>json.dumps\<close> accepts when no \<^verbatim>\<open>default\<close> is given.\<close>

fun json_ok :: "pyval \<Rightarrow> bool" where
  "json_ok (PDecimal d) = False"
| "json_ok (PSet vs) = False"
| "json_ok (PList vs) = list_all json_ok vs"
| "json_ok (PDict kvs) = list_all (\<lambda>kv. json_ok (snd kv)) kvs"
| "json_ok _ = True"

definition hash_data :: "HaltEvent \<Rightarrow> pyval" where
  "hash_data e = PDict
     [(''event_id'', event_id e), (''reason'', PDict (reason_to_dict (halt_reason e))),
      (''action'', PStr (HaltAction_value (action_taken e))), (''orders_cancelled'', orders_cancelled e),
      (''positions_flattened'', positions_flattened e)]"

type_synonym hasher = "(string \<Rightarrow> string) \<times> (pyval \<Rightarrow> string)"

text \<open>\<open>None\<close>: the \<^verbatim>\<open>TypeError\<close> of \<^verbatim>\<open>json.dumps\<close>.\<close>

definition compute_hash :: "hasher \<Rightarrow> HaltEvent \<Rightarrow> string option" where
  "compute_hash H e =
     (if json_ok (hash_data e) then Some (fst H (json_dumps ('', '', '': '') (snd H) (hash_data e))) else None)"

definition post_init :: "hasher \<Rightarrow> HaltEvent \<Rightarrow> HaltEvent option" where
  "post_init H e =
     (if py_truth (evidence_hash e) then Some e
      else map_option (\<lambda>h. e\<lparr>evidence_hash := PStr h\<rparr>) (compute_hash H e))"

definition opt_iso :: "time option \<Rightarrow> pyval" where
  "opt_iso t = (case t of None \<Rightarrow> PNone | Some x \<Rightarrow> PIso x)"

definition opt_str :: "string option \<Rightarrow> pyval" where
  "opt_str s = (case s of None \<Rightarrow> PNone | Some x \<Rightarrow> PStr x)"

definition event_to_dict :: "HaltEvent \<Rightarrow> (string, pyval) dict" where
  "event_to_dict e =
     [(''event_id'', event_id e), (''halt_reason'', PDict (reason_to_dict (halt_reason e))),
      (''action_taken'', PStr (HaltAction_value (action_taken e))),
      (''orders_cancelled'', orders_cancelled e), (''positions_flattened'', positions_flattened e),
      (''recovery_timestamp'', opt_iso (recovery_timestamp e)),
      (''recovery_approval_code'', opt_str (recovery_approval_code e)),
      (''acknowledged_by'', acknowledged_by e), (''acknowledged_at'', opt_iso (acknowledged_at e)),
      (''evidence_hash'', evidence_hash e)]"

subsection \<open>Configuration and manager\<close>

record KillSwitchConfig =
  max_daily_loss_pct :: rat
  max_drawdown_pct :: rat
  max_broker_errors_per_minute :: int
  max_broker_errors_per_hour :: int
  max_consecutive_errors :: int
  max_latency_ms :: int
  latency_spike_window_seconds :: int
  max_latency_spikes_in_window :: int
  max_orders_per_second :: int
  max_orders_per_minute :: int
  position_mismatch_tolerance_pct :: rat
  max_data_gap_seconds :: int
  stale_price_threshold_seconds :: int
  max_time_drift_seconds :: int
  cooldown_seconds :: int
  require_manual_reset :: bool
  allow_flatten_on_halt :: bool

definition default_config :: KillSwitchConfig where
  "default_config = \<lparr>max_daily_loss_pct = 3/10, max_drawdown_pct = 1/2,
     max_broker_errors_per_minute = 5, max_broker_errors_per_hour = 20, max_consecutive_errors = 3,
     max_latency_ms = 5000, latency_spike_window_seconds = 60, max_latency_spikes_in_window = 3,
     max_orders_per_second = 10, max_orders_per_minute = 100, position_mismatch_tolerance_pct = 1/100,
     max_data_gap_seconds = 30, stale_price_threshold_seconds = 60, max_time_drift_seconds = 5,
     cooldown_seconds = 300, require_manual_reset = True, allow_flatten_on_halt = False\<rparr>"

definition config_to_dict :: "KillSwitchConfig \<Rightarrow> (string, pyval) dict" where
  "config_to_dict c =
     [(''max_daily_loss_pct'', PStrOf (PDecimal (max_daily_loss_pct c))),
      (''max_drawdown_pct'', PStrOf (PDecimal (max_drawdown_pct c))),
      (''max_broker_errors_per_minute'', PInt (max_broker_errors_per_minute c)),
      (''max_broker_errors_per_hour'', PInt (max_broker_errors_per_hour c)),
      (''max_consecutive_errors'', PInt (max_consecutive_errors c)),
      (''max_latency_ms'', PInt (max_latency_ms c)),
      (''max_orders_per_second'', PInt (max_orders_per_second c)),
      (''max_orders_per_minute'', PInt (max_orders_per_minute c)),
      (''max_data_gap_seconds'', PInt (max_data_gap_seconds c)),
      (''cooldown_seconds'', PInt (cooldown_seconds c)),
      (''require_manual_reset'', PBool (require_manual_reset c)),
      (''allow_flatten_on_halt'', PBool (allow_flatten_on_halt c))]"

datatype disk = No_file | Document pyval | Broken_file

record 'w KillSwitchManager =
  config :: KillSwitchConfig
  on_trigger :: "('w \<Rightarrow> HaltReason \<Rightarrow> 'w) option"
  cancel_orders_fn :: "('w \<Rightarrow> int option \<times> 'w) option"
  flatten_fn :: "('w \<Rightarrow> bool option \<times> 'w) option"
  triggered :: bool
  current_halt :: "nat option"
  halt_history :: "nat list"
  last_trigger_time :: "time option"
  errors :: "time list"
  latency_spikes :: "time list"
  orders :: "time list"
  last_data_time :: "time option"
  events :: "HaltEvent list"
  history_file :: disk
  world :: 'w

datatype ks_error = Not_serialisable | No_current_halt

subsection \<open>Persistence\<close>

text \<open>
  One element of the stored history; \<open>None\<close> is an exception, which ends the loading but keeps
  the events loaded before it.
\<close>

definition load_event :: "hasher \<Rightarrow> pyval \<Rightarrow> HaltEvent option" where
  "load_event H item =
     (case item of
        PDict it \<Rightarrow>
          (case dict_get_default it ''halt_reason'' (PDict []) of
             PDict rd \<Rightarrow> do {
               reason \<leftarrow> reason_from_dict rd;
               eid \<leftarrow> dict_get it ''event_id'';
               act \<leftarrow> Option.bind (dict_get it ''action_taken'')
                        (find_by HaltAction_value [HALT_ONLY, CANCEL_ORDERS, FLATTEN_LOCAL, FLATTEN_EMERGENCY]);
               event \<leftarrow> post_init H
                 \<lparr>event_id = eid, halt_reason = reason, action_taken = act,
                  orders_cancelled = dict_get_default it ''orders_cancelled'' (PInt 0),
                  positions_flattened = dict_get_default it ''positions_flattened'' (PBool False),
                  recovery_timestamp = None, recovery_approval_code = None, acknowledged_by = PNone,
                  acknowledged_at = None, evidence_hash = dict_get_default it ''evidence_hash'' (PStr [])\<rparr>;
               rts \<leftarrow> (let v = dict_get_default it ''recovery_timestamp'' PNone in
                       if py_truth v then map_option Some (fromisoformat v) else Some None);
               ats \<leftarrow> (let v = dict_get_default it ''acknowledged_at'' PNone in
                       if py_truth v then map_option Some (fromisoformat v) else Some None);
               Some (event\<lparr>recovery_timestamp := rts,
                           acknowledged_by := (let v = dict_get_default it ''acknowledged_by'' PNone in
                                               if py_truth v then v else PNone),
                           acknowledged_at := ats\<rparr>)
             }
           | _ \<Rightarrow> None)
      | _ \<Rightarrow> None)"

fun load_events :: "hasher \<Rightarrow> pyval list \<Rightarrow> HaltEvent list" where
  "load_events H [] = []"
| "load_events H (it # its) = (case load_event H it of None \<Rightarrow> [] | Some e \<Rightarrow> e # load_events H its)"

definition loaded_history :: "hasher \<Rightarrow> disk \<Rightarrow> HaltEvent list" where
  "loaded_history H f =
     (case f of
        Document (PDict data) \<Rightarrow>
          (case dict_get_default data ''history'' (PList []) of
             PList its \<Rightarrow> load_events H its
           | _ \<Rightarrow> [])
      | _ \<Rightarrow> [])"

definition load_history :: "hasher \<Rightarrow> 'w KillSwitchManager \<Rightarrow> 'w KillSwitchManager" where
  "load_history H ks =
     (let es = loaded_history H (history_file ks); n = length (events ks) in
      ks\<lparr>events := events ks @ es, halt_history := halt_history ks @ [n..<n + length es]\<rparr>)"

text \<open>
  \<open>io\<close> tells whether the file system accepts the write.  An object that is not serialisable
  stops the dump in the middle of the file.
\<close>

definition history_document :: "'w KillSwitchManager \<Rightarrow> time \<Rightarrow> pyval" where
  "history_document ks now = PDict
     [(''version'', PStr ''1.0.0''), (''updated_at'', PIso now),
      (''history'', PList (map (\<lambda>a. PDict (event_to_dict (events ks ! a)))
                           (slice_from (halt_history ks) (- MAX_HALT_HISTORY))))]"

definition save_history :: "'w KillSwitchManager \<Rightarrow> time \<Rightarrow> bool \<Rightarrow> 'w KillSwitchManager" where
  "save_history ks now io =
     (if \<not> io then ks
      else ks\<lparr>history_file :=
        (if json_ok (history_document ks now) then Document (history_document ks now) else Broken_file)\<rparr>)"

definition init_KillSwitchManager ::
  "hasher \<Rightarrow> KillSwitchConfig \<Rightarrow> ('w \<Rightarrow> HaltReason \<Rightarrow> 'w) option \<Rightarrow> ('w \<Rightarrow> int option \<times> 'w) option \<Rightarrow>
   ('w \<Rightarrow> bool option \<times> 'w) option \<Rightarrow> disk \<Rightarrow> 'w \<Rightarrow> 'w KillSwitchManager" where
  "init_KillSwitchManager H c ot co fl f w = load_history H
     \<lparr>config = c, on_trigger = ot, cancel_orders_fn = co, flatten_fn = fl, triggered = False,
      current_halt = None, halt_history = [], last_trigger_time = None, errors = [],
      latency_spikes = [], orders = [], last_data_time = None, events = [], history_file = f, world = w\<rparr>"

definition export_for_evidence :: "'w KillSwitchManager \<Rightarrow> time \<Rightarrow> (string, pyval) dict" where
  "export_for_evidence ks now =
     [(''export_timestamp'', PIso now), (''config'', PDict (config_to_dict (config ks))),
      (''current_triggered'', PBool (triggered ks)),
      (''current_halt'', case current_halt ks of None \<Rightarrow> PNone | Some a \<Rightarrow> PDict (event_to_dict (events ks ! a))),
      (''history_count'', PInt (int (length (halt_history ks)))),
      (''history'', PList (map (\<lambda>a. PDict (event_to_dict (events ks ! a))) (halt_history ks)))]"

subsection \<open>Trigger, acknowledge, reset\<close>

definition cancel_step :: "HaltAction \<Rightarrow> 'w KillSwitchManager \<Rightarrow> int \<times> 'w" where
  "cancel_step action ks =
     (if action \<in> {CANCEL_ORDERS, FLATTEN_LOCAL, FLATTEN_EMERGENCY} then
        (case cancel_orders_fn ks of
           None \<Rightarrow> (0, world ks)
         | Some f \<Rightarrow> (case f (world ks) of (None, w) \<Rightarrow> (0, w) | (Some n, w) \<Rightarrow> (n, w)))
      else (0, world ks))"

definition flatten_step :: "HaltAction \<Rightarrow> 'w KillSwitchManager \<Rightarrow> 'w \<Rightarrow> bool \<times> 'w" where
  "flatten_step action ks w =
     (if action \<in> {FLATTEN_LOCAL, FLATTEN_EMERGENCY} then
        (case flatten_fn ks of
           None \<Rightarrow> (False, w)
         | Some f \<Rightarrow>
             if allow_flatten_on_halt (config ks)
             then (case f w of (None, w') \<Rightarrow> (False, w') | (Some b, w') \<Rightarrow> (b, w'))
             else (False, w))
      else (False, w))"

text \<open>What a trigger draws: the event id, two readings of the clock, the file system's answer.\<close>

record trigger_draws =
  td_event_id :: string
  td_now :: time
  td_saved_at :: time
  td_io :: bool

definition ks_trigger ::
  "hasher \<Rightarrow> 'w KillSwitchManager \<Rightarrow> HaltReason \<Rightarrow> HaltAction \<Rightarrow> trigger_draws \<Rightarrow>
   (ks_error, nat, 'w KillSwitchManager) pyres" where
  "ks_trigger H ks reason action d =
     (if triggered ks then
        (case current_halt ks of
           None \<Rightarrow> py_raise No_current_halt ks
         | Some a \<Rightarrow>
             if HaltSeverity_value (severity reason) < HaltSeverity_value (severity (halt_reason (events ks ! a)))
             then py_return a (ks\<lparr>events := (events ks)[a := (events ks ! a)\<lparr>halt_reason := reason\<rparr>]\<rparr>)
             else py_return a ks)
      else
        (let ks1 = ks\<lparr>triggered := True, last_trigger_time := Some (td_now d)\<rparr>;
             (cancelled, w1) = cancel_step action ks1;
             (flattened, w2) = flatten_step action ks1 w1;
             ks2 = ks1\<lparr>world := w2\<rparr> in
         case post_init H \<lparr>event_id = PStr (td_event_id d), halt_reason = reason, action_taken = action,
                orders_cancelled = PInt cancelled, positions_flattened = PBool flattened,
                recovery_timestamp = None, recovery_approval_code = None, acknowledged_by = PNone,
                acknowledged_at = None, evidence_hash = PStr []\<rparr> of
           None \<Rightarrow> py_raise Not_serialisable ks2
         | Some event \<Rightarrow>
             (let a = length (events ks2);
                  ks3 = ks2\<lparr>events := events ks2 @ [event], current_halt := Some a,
                            halt_history := append_trim MAX_HALT_HISTORY (halt_history ks2) a\<rparr>;
                  ks4 = save_history ks3 (td_saved_at d) (td_io d) in
              py_return a (case on_trigger ks4 of
                             None \<Rightarrow> ks4 | Some f \<Rightarrow> ks4\<lparr>world := f (world ks4) reason\<rparr>))))"

definition ks_acknowledge ::
  "'w KillSwitchManager \<Rightarrow> string \<Rightarrow> string \<Rightarrow> time \<Rightarrow> time \<Rightarrow> bool \<Rightarrow> bool \<times> 'w KillSwitchManager" where
  "ks_acknowledge ks who code now saved_at io =
     (case current_halt ks of
        None \<Rightarrow> (False, ks)
      | Some a \<Rightarrow>
          if \<not> triggered ks then (False, ks)
          else if \<not> prefix ''APPROVE_RESET_'' code then (False, ks)
          else (True, save_history (ks\<lparr>events := (events ks)[a := (events ks ! a)
                  \<lparr>acknowledged_by := PStr who, acknowledged_at := Some now,
                   recovery_approval_code := Some code\<rparr>]\<rparr>) saved_at io))"

definition reset ::
  "'w KillSwitchManager \<Rightarrow> time \<Rightarrow> time \<Rightarrow> time \<Rightarrow> bool \<Rightarrow> bool \<times> 'w KillSwitchManager" where
  "reset ks now recovered_at saved_at io =
     (if \<not> triggered ks then (True, ks)
      else if (case current_halt ks of None \<Rightarrow> False | Some a \<Rightarrow> \<not> py_truth (acknowledged_by (events ks ! a)))
              \<and> require_manual_reset (config ks) then (False, ks)
      else if (case last_trigger_time ks of None \<Rightarrow> False
               | Some t \<Rightarrow> now < t + seconds (cooldown_seconds (config ks))) then (False, ks)
      else
        (let ks1 = (case current_halt ks of
                      None \<Rightarrow> ks
                    | Some a \<Rightarrow> save_history (ks\<lparr>events := (events ks)[a := (events ks ! a)
                                   \<lparr>recovery_timestamp := Some recovered_at\<rparr>]\<rparr>) saved_at io)
         in (True, ks1\<lparr>triggered := False, current_halt := None, errors := [], latency_spikes := []\<rparr>)))"

subsection \<open>Checks and monitors\<close>

text \<open>What the construction of a reason draws: its id and its time stamp.\<close>

type_synonym stamp = "string \<times> time"

definition mk_reason ::
  "stamp \<Rightarrow> HaltReasonType \<Rightarrow> HaltSeverity \<Rightarrow> pyval \<Rightarrow> (string, pyval) dict \<Rightarrow> string \<Rightarrow> HaltReason" where
  "mk_reason s rt sev msg ds src =
     \<lparr>reason_id = PStr (fst s), reason_type = rt, severity = sev, message = msg, details = PDict ds,
      hr_timestamp = snd s, trigger_source = PStr src, recovery_action = PNone,
      acknowledgment_required = PBool True\<rparr>"

definition create_halt_reason ::
  "stamp \<Rightarrow> HaltReasonType \<Rightarrow> string \<Rightarrow> HaltSeverity \<Rightarrow> (string, pyval) dict option \<Rightarrow> string \<Rightarrow> HaltReason" where
  "create_halt_reason s rt msg sev ds src = mk_reason s rt sev (PStr msg) (or_else ds []) src"

definition check_daily_loss ::
  "(rat \<Rightarrow> rat) \<Rightarrow> 'w KillSwitchManager \<Rightarrow> rat \<Rightarrow> rat \<Rightarrow> stamp \<Rightarrow> HaltReason option" where
  "check_daily_loss ctx ks daily_pnl equity s =
     (if equity \<le> 0 then None
      else let loss_pct = (if daily_pnl < 0 then ctx \<bar>ctx (daily_pnl / equity)\<bar> else 0);
               limit = max_daily_loss_pct (config ks) in
      if limit \<le> loss_pct then Some (mk_reason s MAX_DAILY_LOSS SEV_CRITICAL
          (PFormat ''Daily loss {:.2%} exceeds maximum {:.2%}'' [PDecimal loss_pct, PDecimal limit])
          [(''daily_pnl'', PStrOf (PDecimal daily_pnl)), (''equity'', PStrOf (PDecimal equity)),
           (''loss_pct'', PStrOf (PDecimal loss_pct)), (''threshold'', PStrOf (PDecimal limit))]
          ''KillSwitchManager.check_daily_loss'')
      else None)"

definition check_drawdown ::
  "(rat \<Rightarrow> rat) \<Rightarrow> 'w KillSwitchManager \<Rightarrow> rat \<Rightarrow> rat \<Rightarrow> stamp \<Rightarrow> HaltReason option" where
  "check_drawdown ctx ks current_equity peak_equity s =
     (if peak_equity \<le> 0 then None
      else let drawdown = ctx (ctx (peak_equity - current_equity) / peak_equity);
               limit = max_drawdown_pct (config ks) in
      if limit \<le> drawdown then Some (mk_reason s MAX_DRAWDOWN SEV_CRITICAL
          (PFormat ''Drawdown {:.2%} exceeds maximum {:.2%}'' [PDecimal drawdown, PDecimal limit])
          [(''current_equity'', PStrOf (PDecimal current_equity)), (''peak_equity'', PStrOf (PDecimal peak_equity)),
           (''drawdown'', PStrOf (PDecimal drawdown)), (''threshold'', PStrOf (PDecimal limit))]
          ''KillSwitchManager.check_drawdown'')
      else None)"

definition count_after :: "time \<Rightarrow> time list \<Rightarrow> int" where
  "count_after cutoff ts = int (length (filter (\<lambda>t. t > cutoff) ts))"

definition record_error ::
  "'w KillSwitchManager \<Rightarrow> time \<Rightarrow> stamp \<Rightarrow> HaltReason option \<times> 'w KillSwitchManager" where
  "record_error ks now s =
     (let errs = filter (\<lambda>e. e > now - seconds 3600) (errors ks @ [now]);
          ks' = ks\<lparr>errors := errs\<rparr>;
          per_minute = count_after (now - seconds 60) errs; per_hour = int (length errs);
          c = config ks in
      (if max_broker_errors_per_minute c \<le> per_minute then
         Some (mk_reason s BROKER_ERROR_BURST SEV_CRITICAL
           (PFormat ''Broker errors ({}/min) exceeds maximum ({}/min)''
              [PInt per_minute, PInt (max_broker_errors_per_minute c)])
           [(''errors_per_minute'', PInt per_minute), (''threshold'', PInt (max_broker_errors_per_minute c))]
           ''KillSwitchManager.record_error'')
       else if max_broker_errors_per_hour c \<le> per_hour then
         Some (mk_reason s BROKER_ERROR_BURST SEV_HIGH
           (PFormat ''Broker errors ({}/hr) exceeds maximum ({}/hr)''
              [PInt per_hour, PInt (max_broker_errors_per_hour c)])
           [(''errors_per_hour'', PInt per_hour), (''threshold'', PInt (max_broker_errors_per_hour c))]
           ''KillSwitchManager.record_error'')
       else None, ks'))"

definition record_latency ::
  "'w KillSwitchManager \<Rightarrow> int \<Rightarrow> time \<Rightarrow> stamp \<Rightarrow> HaltReason option \<times> 'w KillSwitchManager" where
  "record_latency ks latency_ms now s =
     (let c = config ks in
      if max_latency_ms c \<le> latency_ms then
        (let spikes = filter (\<lambda>t. t > now - seconds (latency_spike_window_seconds c)) (latency_spikes ks @ [now]);
             n = int (length spikes) in
         (if max_latency_spikes_in_window c \<le> n then
            Some (mk_reason s LATENCY_SPIKE SEV_HIGH
              (PFormat ''Latency spikes ({}) in {}s exceeds maximum'' [PInt n, PInt (latency_spike_window_seconds c)])
              [(''latency_ms'', PInt latency_ms), (''spikes_count'', PInt n),
               (''threshold_ms'', PInt (max_latency_ms c)), (''window_seconds'', PInt (latency_spike_window_seconds c))]
              ''KillSwitchManager.record_latency'')
          else None, ks\<lparr>latency_spikes := spikes\<rparr>))
      else (None, ks))"

definition record_order ::
  "'w KillSwitchManager \<Rightarrow> time \<Rightarrow> stamp \<Rightarrow> HaltReason option \<times> 'w KillSwitchManager" where
  "record_order ks now s =
     (let os = filter (\<lambda>t. t > now - seconds 60) (orders ks @ [now]);
          per_second = count_after (now - seconds 1) os; per_minute = int (length os); c = config ks in
      (if per_second > max_orders_per_second c then
         Some (mk_reason s ORDER_SPAM SEV_HIGH
           (PFormat ''Orders per second ({}) exceeds maximum ({})'' [PInt per_second, PInt (max_orders_per_second c)])
           [(''orders_per_second'', PInt per_second), (''threshold'', PInt (max_orders_per_second c))]
           ''KillSwitchManager.record_order'')
       else if per_minute > max_orders_per_minute c then
         Some (mk_reason s ORDER_SPAM SEV_MEDIUM
           (PFormat ''Orders per minute ({}) exceeds maximum ({})'' [PInt per_minute, PInt (max_orders_per_minute c)])
           [(''orders_per_minute'', PInt per_minute), (''threshold'', PInt (max_orders_per_minute c))]
           ''KillSwitchManager.record_order'')
       else None, ks\<lparr>orders := os\<rparr>))"

text \<open>\<^verbatim>\<open>total_seconds()\<close> is the nearest float, the parameter \<open>fl\<close>.\<close>

definition check_data_feed ::
  "(rat \<Rightarrow> rat) \<Rightarrow> 'w KillSwitchManager \<Rightarrow> time \<Rightarrow> time \<Rightarrow> stamp \<Rightarrow> HaltReason option \<times> 'w KillSwitchManager" where
  "check_data_feed fl ks data_time now s =
     (let gap = fl (of_int (now - data_time) / 1000000); c = config ks in
      (if gap > of_int (max_data_gap_seconds c) then
         Some (mk_reason s DATA_FEED_INVALID SEV_HIGH
           (PFormat ''Data feed gap ({:.1f}s) exceeds maximum ({}s)'' [PFloat (Fin gap), PInt (max_data_gap_seconds c)])
           [(''gap_seconds'', PFloat (Fin gap)), (''threshold'', PInt (max_data_gap_seconds c)),
            (''last_data_time'', PIso data_time)]
           ''KillSwitchManager.check_data_feed'')
       else None, ks\<lparr>last_data_time := Some data_time\<rparr>))"

definition check_position_mismatch ::
  "(rat \<Rightarrow> rat) \<Rightarrow> 'w KillSwitchManager \<Rightarrow> rat \<Rightarrow> rat \<Rightarrow> string \<Rightarrow> stamp \<Rightarrow> HaltReason option" where
  "check_position_mismatch ctx ks local broker symbol s =
     (if local = 0 \<and> broker = 0 then None
      else let base = max (max (ctx \<bar>local\<bar>) (ctx \<bar>broker\<bar>)) 1;
               diff_pct = ctx (ctx \<bar>ctx (local - broker)\<bar> / base);
               tol = position_mismatch_tolerance_pct (config ks) in
      if diff_pct > tol then Some (mk_reason s POSITION_MISMATCH SEV_HIGH
          (PFormat ''Position mismatch for {}: local={}, broker={}'' [PStr symbol, PDecimal local, PDecimal broker])
          [(''symbol'', PStr symbol), (''local_position'', PStrOf (PDecimal local)),
           (''broker_position'', PStrOf (PDecimal broker)), (''diff_pct'', PStrOf (PDecimal diff_pct)),
           (''tolerance'', PStrOf (PDecimal tol))]
          ''KillSwitchManager.check_position_mismatch'')
      else None)"

subsection \<open>Calls and the invariant\<close>

datatype ks_call =
    Trigger HaltReason HaltAction trigger_draws
  | Acknowledge string string time time bool
  | Reset time time time bool
  | Record_Error time stamp
  | Record_Latency int time stamp
  | Record_Order time stamp
  | Check_Data_Feed "rat \<Rightarrow> rat" time time stamp

fun ks_exec :: "hasher \<Rightarrow> 'w KillSwitchManager \<Rightarrow> ks_call \<Rightarrow> 'w KillSwitchManager" where
  "ks_exec H ks (Trigger r act d) = snd (ks_trigger H ks r act d)"
| "ks_exec H ks (Acknowledge who code n s io) = snd (ks_acknowledge ks who code n s io)"
| "ks_exec H ks (Reset n r s io) = snd (reset ks n r s io)"
| "ks_exec H ks (Record_Error n st) = snd (record_error ks n st)"
| "ks_exec H ks (Record_Latency ms n st) = snd (record_latency ks ms n st)"
| "ks_exec H ks (Record_Order n st) = snd (record_order ks n st)"
| "ks_exec H ks (Check_Data_Feed fl l n st) = snd (check_data_feed fl ks l n st)"

definition ks_started :: "'w KillSwitchManager \<Rightarrow> bool" where
  "ks_started ks \<longleftrightarrow> (\<exists>H c ot co fl w. ks = init_KillSwitchManager H c ot co fl No_file w)"

definition ks_ok :: "'w KillSwitchManager \<Rightarrow> bool" where
  "ks_ok ks \<longleftrightarrow> (\<forall>a \<in> set (halt_history ks). a < length (events ks)) \<and>
     int (length (halt_history ks)) \<le> MAX_HALT_HISTORY \<and>
     (\<forall>a. current_halt ks = Some a \<longrightarrow> triggered ks \<and> halt_history ks \<noteq> [] \<and> last (halt_history ks) = a)"

interpretation hh: bounded_log "append_trim MAX_HALT_HISTORY" MAX_HALT_HISTORY
  by (rule append_trim_bounded_log) (simp add: MAX_HALT_HISTORY_def)

lemma save_history_simps [simp]:
  "config (save_history ks n io) = config ks" "triggered (save_history ks n io) = triggered ks"
  "current_halt (save_history ks n io) = current_halt ks" "halt_history (save_history ks n io) = halt_history ks"
  "events (save_history ks n io) = events ks" "world (save_history ks n io) = world ks"
  "last_trigger_time (save_history ks n io) = last_trigger_time ks" "on_trigger (save_history ks n io) = on_trigger ks"
  "errors (save_history ks n io) = errors ks" "orders (save_history ks n io) = orders ks"
  "latency_spikes (save_history ks n io) = latency_spikes ks"
  by (simp_all add: save_history_def)

lemma started_fields:
  assumes "ks_started ks"
  shows "triggered ks = False" "current_halt ks = None" "halt_history ks = []" "events ks = []" "errors ks = []"
  using assms by (auto simp: ks_started_def init_KillSwitchManager_def load_history_def loaded_history_def)

text \<open>The monitors touch only their own logs.\<close>

definition same_core :: "'w KillSwitchManager \<Rightarrow> 'w KillSwitchManager \<Rightarrow> bool" where
  "same_core ks ks' \<longleftrightarrow> config ks' = config ks \<and> triggered ks' = triggered ks \<and> current_halt ks' = current_halt ks \<and>
     halt_history ks' = halt_history ks \<and> events ks' = events ks \<and> world ks' = world ks \<and>
     last_trigger_time ks' = last_trigger_time ks \<and> history_file ks' = history_file ks"

lemma monitors_same_core [simp]:
  "same_core ks (snd (record_error ks n st))" "same_core ks (snd (record_latency ks ms n st))"
  "same_core ks (snd (record_order ks n st))" "same_core ks (snd (check_data_feed fl ks l n st))"
  by (simp_all add: same_core_def record_error_def record_latency_def record_order_def check_data_feed_def Let_def)

text \<open>A trigger that finds the switch open: its outcome in three cases.\<close>

definition escalates :: "'w KillSwitchManager \<Rightarrow> nat \<Rightarrow> HaltReason \<Rightarrow> bool" where
  "escalates ks a r \<longleftrightarrow> HaltSeverity_value (severity r) < HaltSeverity_value (severity (halt_reason (events ks ! a)))"

lemma trigger_while_triggered:
  assumes "triggered ks" and "current_halt ks = Some a"
  shows "ks_trigger H ks r act d =
    (Inr a, if escalates ks a r then ks\<lparr>events := (events ks)[a := (events ks ! a)\<lparr>halt_reason := r\<rparr>]\<rparr> else ks)"
  using assms by (simp add: ks_trigger_def escalates_def)

definition new_event :: "'w KillSwitchManager \<Rightarrow> HaltReason \<Rightarrow> HaltAction \<Rightarrow> trigger_draws \<Rightarrow> HaltEvent" where
  "new_event ks r act d =
     \<lparr>event_id = PStr (td_event_id d), halt_reason = r, action_taken = act,
      orders_cancelled = PInt (fst (cancel_step act ks)),
      positions_flattened = PBool (fst (flatten_step act ks (snd (cancel_step act ks)))),
      recovery_timestamp = None, recovery_approval_code = None, acknowledged_by = PNone,
      acknowledged_at = None, evidence_hash = PStr []\<rparr>"

definition acted_world :: "'w KillSwitchManager \<Rightarrow> HaltAction \<Rightarrow> 'w" where
  "acted_world ks act = snd (flatten_step act ks (snd (cancel_step act ks)))"

definition notified_world :: "'w KillSwitchManager \<Rightarrow> HaltAction \<Rightarrow> HaltReason \<Rightarrow> 'w" where
  "notified_world ks act r =
     (case on_trigger ks of None \<Rightarrow> acted_world ks act | Some f \<Rightarrow> f (acted_world ks act) r)"

lemma steps_core [simp]:
  "cancel_step act (ks\<lparr>triggered := b, last_trigger_time := t\<rparr>) = cancel_step act ks"
  "flatten_step act (ks\<lparr>triggered := b, last_trigger_time := t\<rparr>) w = flatten_step act ks w"
  by (simp_all add: cancel_step_def flatten_step_def split: option.split)

lemma new_event_core [simp]:
  "new_event (ks\<lparr>triggered := b, last_trigger_time := t\<rparr>) r act d = new_event ks r act d"
  by (simp add: new_event_def)

lemma post_init_new:
  "post_init H (new_event ks r act d) = map_option (\<lambda>h. (new_event ks r act d)\<lparr>evidence_hash := PStr h\<rparr>)
     (compute_hash H (new_event ks r act d))"
  by (simp add: post_init_def new_event_def)

lemma trigger_fresh:
  assumes "\<not> triggered ks" and h: "compute_hash H (new_event ks r act d) = Some h"
  shows "\<exists>ks'. ks_trigger H ks r act d = (Inr (length (events ks)), ks') \<and>
    triggered ks' \<and> current_halt ks' = Some (length (events ks)) \<and>
    events ks' = events ks @ [(new_event ks r act d)\<lparr>evidence_hash := PStr h\<rparr>] \<and>
    halt_history ks' = append_trim MAX_HALT_HISTORY (halt_history ks) (length (events ks)) \<and>
    last_trigger_time ks' = Some (td_now d) \<and> config ks' = config ks \<and> world ks' = notified_world ks act r \<and>
    errors ks' = errors ks \<and> on_trigger ks' = on_trigger ks"
proof -
  have "post_init H (new_event ks r act d) = Some ((new_event ks r act d)\<lparr>evidence_hash := PStr h\<rparr>)"
    using h by (simp add: post_init_new)
  then show ?thesis
    using assms(1) unfolding ks_trigger_def
    by (simp add: Let_def case_prod_unfold new_event_def [symmetric] notified_world_def acted_world_def
        split: option.split)
qed

lemma trigger_unserialisable:
  assumes "\<not> triggered ks" and "compute_hash H (new_event ks r act d) = None"
  shows "ks_trigger H ks r act d = (Inl Not_serialisable,
    ks\<lparr>triggered := True, last_trigger_time := Some (td_now d), world := acted_world ks act\<rparr>)"
proof -
  have "post_init H (new_event ks r act d) = None" using assms(2) by (simp add: post_init_new)
  then show ?thesis
    using assms(1) unfolding ks_trigger_def
    by (simp add: Let_def case_prod_unfold new_event_def [symmetric] acted_world_def)
qed

lemma ks_trigger_cases:
  obtains (open_halt) a where "triggered ks" "current_halt ks = Some a"
  | (no_halt) "triggered ks" "current_halt ks = None" "ks_trigger H ks r act d = (Inl No_current_halt, ks)"
  | (fresh) h where "\<not> triggered ks" "compute_hash H (new_event ks r act d) = Some h"
  | (unserialisable) "\<not> triggered ks" "compute_hash H (new_event ks r act d) = None"
proof (cases "triggered ks")
  case True
  then show thesis
    by (cases "current_halt ks") (auto simp: ks_trigger_def intro: open_halt no_halt)
next
  case False
  then show thesis by (cases "compute_hash H (new_event ks r act d)") (auto intro: fresh unserialisable)
qed

fun valid_ack :: "ks_call \<Rightarrow> bool" where
  "valid_ack (Acknowledge who code n s io) = (who \<noteq> [] \<and> prefix ''APPROVE_RESET_'' code)"
| "valid_ack _ = False"

fun is_reset :: "ks_call \<Rightarrow> bool" where
  "is_reset (Reset _ _ _ _) = True"
| "is_reset _ = False"

lemma ks_call_cases:
  obtains (trigger) r act d where "c = Trigger r act d"
  | (acknowledge) who code n s io where "c = Acknowledge who code n s io"
  | (reset) n r s io where "c = Reset n r s io"
  | (monitor) "same_core ks (ks_exec H ks c)"
  by (cases c) auto

lemma same_core_ok: "same_core ks ks' \<Longrightarrow> ks_ok ks \<Longrightarrow> ks_ok ks'"
  by (simp add: same_core_def ks_ok_def)

lemma trigger_ok:
  assumes ok: "ks_ok ks"
  shows "ks_ok (snd (ks_trigger H ks r act d))"
proof (cases rule: ks_trigger_cases [where ks = ks and H = H and r = r and act = act and d = d])
  case (open_halt a)
  then show ?thesis using ok trigger_while_triggered [of ks a H r act d] by (simp add: ks_ok_def)
next
  case no_halt
  then show ?thesis using ok by simp
next
  case unserialisable
  then show ?thesis using ok trigger_unserialisable [of ks H r act d] by (simp add: ks_ok_def)
next
  case (fresh h)
  let ?n = "length (events ks)"
  obtain ks' where ks': "ks_trigger H ks r act d = (Inr ?n, ks')" "triggered ks'" "current_halt ks' = Some ?n"
    "events ks' = events ks @ [(new_event ks r act d)\<lparr>evidence_hash := PStr h\<rparr>]"
    "halt_history ks' = append_trim MAX_HALT_HISTORY (halt_history ks) ?n"
    using trigger_fresh [OF fresh] by blast
  moreover have "\<forall>a \<in> set (halt_history ks'). a < length (events ks')"
    using hh.push_subset [of "halt_history ks" ?n] ok ks' by (fastforce simp: ks_ok_def)
  moreover have "int (length (halt_history ks')) \<le> MAX_HALT_HISTORY"
    using hh.push_length [of "halt_history ks" ?n] ok ks' by (simp add: ks_ok_def)
  ultimately show ?thesis using hh.push_last [of "halt_history ks" ?n] by (simp add: ks_ok_def)
qed

lemma ks_exec_ok:
  assumes "ks_ok ks"
  shows "ks_ok (ks_exec H ks c)"
proof (cases rule: ks_call_cases [where c = c and ks = ks and H = H])
  case (trigger r act d)
  then show ?thesis using trigger_ok [OF assms] by simp
next
  case (acknowledge who code n s io)
  then show ?thesis using assms by (auto simp: ks_acknowledge_def ks_ok_def split: option.split)
next
  case (reset n r s io)
  then show ?thesis using assms by (auto simp: reset_def ks_ok_def Let_def split: option.split)
next
  case monitor
  then show ?thesis using assms by (rule same_core_ok)
qed

lemma ks_started_ok: "ks_started ks \<Longrightarrow> ks_ok ks"
  by (simp add: ks_ok_def started_fields MAX_HALT_HISTORY_def)

interpretation ksm: step_system ks_started "ks_exec H" ks_ok
  by unfold_locales (simp_all only: ks_exec_ok ks_started_ok)

subsection \<open>A halt is held\<close>

definition held :: "nat \<Rightarrow> 'w KillSwitchManager \<Rightarrow> bool" where
  "held a ks \<longleftrightarrow> triggered ks \<and> current_halt ks = Some a \<and> a < length (events ks) \<and>
     \<not> py_truth (acknowledged_by (events ks ! a)) \<and> require_manual_reset (config ks)"

lemma same_core_held: "same_core ks ks' \<Longrightarrow> held a ks \<Longrightarrow> held a ks'"
  by (simp add: same_core_def held_def)

lemma ks_exec_held:
  assumes "held a ks" and "\<not> valid_ack c"
  shows "held a (ks_exec H ks c)"
proof (cases rule: ks_call_cases [where c = c and ks = ks and H = H])
  case (trigger r act d)
  then show ?thesis
    using assms(1) trigger_while_triggered [of ks a H r act d] by (simp add: held_def)
next
  case (acknowledge who code n s io)
  then show ?thesis
    using assms by (auto simp: ks_acknowledge_def held_def)
next
  case (reset n r s io)
  then show ?thesis using assms(1) by (simp add: reset_def held_def)
next
  case monitor
  then show ?thesis using assms(1) by (rule same_core_held)
qed

lemma run_held:
  "held a ks \<Longrightarrow> \<forall>c \<in> set cs. \<not> valid_ack c \<Longrightarrow> held a (foldl (ks_exec H) ks cs)"
  by (induction cs arbitrary: ks) (auto intro: ks_exec_held)

lemma ks_exec_triggered_world:
  assumes "triggered ks" and "\<not> is_reset c"
  shows "triggered (ks_exec H ks c) \<and> world (ks_exec H ks c) = world ks"
proof (cases rule: ks_call_cases [where c = c and ks = ks and H = H])
  case (trigger r act d)
  then show ?thesis using assms(1) by (auto simp: ks_trigger_def split: option.split)
next
  case (acknowledge who code n s io)
  then show ?thesis using assms(1) by (auto simp: ks_acknowledge_def split: option.split)
next
  case (reset n r s io)
  then show ?thesis using assms(2) by simp
next
  case monitor
  then show ?thesis using assms(1) by (simp add: same_core_def)
qed

lemma run_triggered_world:
  "triggered ks \<Longrightarrow> \<forall>c \<in> set cs. \<not> is_reset c \<Longrightarrow>
   triggered (foldl (ks_exec H) ks cs) \<and> world (foldl (ks_exec H) ks cs) = world ks"
proof (induction cs arbitrary: ks)
  case (Cons c cs)
  then show ?case using ks_exec_triggered_world [of ks c H] by simp
qed simp

subsection \<open>The pruned error log\<close>

fun record_errors :: "'w KillSwitchManager \<Rightarrow> (time \<times> stamp) list \<Rightarrow> 'w KillSwitchManager" where
  "record_errors ks [] = ks"
| "record_errors ks ((now, s) # es) = record_errors (snd (record_error ks now s)) es"

lemma filter_nested:
  "b \<le> (c :: int) \<Longrightarrow> filter (\<lambda>t. b < t \<and> c < t) ts = filter (\<lambda>t. c < t) ts"
  "b \<le> (c :: int) \<Longrightarrow> filter (\<lambda>t. c < t) (filter (\<lambda>t. b < t) ts) = filter (\<lambda>t. c < t) ts"
  by (induction ts) auto

lemma record_errors_log:
  assumes "sorted (map fst es)" and "\<forall>t \<in> set (map fst es). t0 \<le> t"
    and "\<exists>old. errors ks = filter (\<lambda>t. t0 - seconds 3600 < t) old \<and> all = old"
    and "last (t0 # map fst es) \<le> now"
  shows "filter (\<lambda>t. now - seconds 3600 < t) (errors (record_errors ks es)) =
     filter (\<lambda>t. now - seconds 3600 < t) (all @ map fst es) \<and> config (record_errors ks es) = config ks"
  using assms
proof (induction es arbitrary: ks t0 all)
  case Nil
  then show ?case by (auto simp: filter_nested)
next
  case (Cons e es)
  obtain t s where e: "e = (t, s)" by (cases e)
  let ?ks = "snd (record_error ks t s)"
  have "t0 \<le> t" using Cons.prems(2) e by simp
  then have "errors ?ks = filter (\<lambda>x. t - seconds 3600 < x) (all @ [t])"
    using Cons.prems(3) by (auto simp: record_error_def Let_def filter_nested)
  moreover have "config ?ks = config ks" by (simp add: record_error_def Let_def)
  moreover have "\<forall>x \<in> set (map fst es). t \<le> x" using Cons.prems(1) e by auto
  moreover have "last (t # map fst es) \<le> now" using Cons.prems(4) e by (simp split: if_splits)
  ultimately show ?case
    using Cons.IH [of t ?ks "all @ [t]"] Cons.prems(1) e by auto
qed

subsection \<open>What loading restores\<close>

text \<open>The approval code is not read back, and an empty operator name becomes none.\<close>

definition restored :: "HaltEvent \<Rightarrow> HaltEvent" where
  "restored e = e\<lparr>recovery_approval_code := None,
     acknowledged_by := (if py_truth (acknowledged_by e) then acknowledged_by e else PNone)\<rparr>"

lemma find_by_roundtrip [simp]:
  "find_by reason_type_name all_reason_types (PStr (reason_type_name t)) = Some t"
  "find_by HaltSeverity_value [SEV_CRITICAL, SEV_HIGH, SEV_MEDIUM, SEV_LOW] (PStr (HaltSeverity_value sv)) = Some sv"
  "find_by HaltAction_value [HALT_ONLY, CANCEL_ORDERS, FLATTEN_LOCAL, FLATTEN_EMERGENCY] (PStr (HaltAction_value a)) = Some a"
proof -
  show "find_by reason_type_name all_reason_types (PStr (reason_type_name t)) = Some t"
    by (cases t) (simp_all add: find_by_def all_reason_types_def)
  show "find_by HaltSeverity_value [SEV_CRITICAL, SEV_HIGH, SEV_MEDIUM, SEV_LOW] (PStr (HaltSeverity_value sv)) = Some sv"
    by (cases sv) (simp_all add: find_by_def)
  show "find_by HaltAction_value [HALT_ONLY, CANCEL_ORDERS, FLATTEN_LOCAL, FLATTEN_EMERGENCY] (PStr (HaltAction_value a)) = Some a"
    by (cases a) (simp_all add: find_by_def)
qed

lemma reason_roundtrip [simp]: "reason_from_dict (reason_to_dict r) = Some r"
  by (simp add: reason_from_dict_def reason_to_dict_def dict_get_default_def fromisoformat_def)

lemma iso_roundtrip [simp]:
  "(if py_truth (opt_iso t) then map_option Some (fromisoformat (opt_iso t)) else Some None) = Some t"
  by (cases t) (simp_all add: opt_iso_def fromisoformat_def)

lemma event_fields [simp]:
  "dict_get (event_to_dict e) ''event_id'' = Some (event_id e)"
  "dict_get (event_to_dict e) ''action_taken'' = Some (PStr (HaltAction_value (action_taken e)))"
  "dict_get_default (event_to_dict e) ''halt_reason'' v = PDict (reason_to_dict (halt_reason e))"
  "dict_get_default (event_to_dict e) ''orders_cancelled'' v = orders_cancelled e"
  "dict_get_default (event_to_dict e) ''positions_flattened'' v = positions_flattened e"
  "dict_get_default (event_to_dict e) ''recovery_timestamp'' v = opt_iso (recovery_timestamp e)"
  "dict_get_default (event_to_dict e) ''acknowledged_at'' v = opt_iso (acknowledged_at e)"
  "dict_get_default (event_to_dict e) ''acknowledged_by'' v = acknowledged_by e"
  "dict_get_default (event_to_dict e) ''evidence_hash'' v = evidence_hash e"
  by (simp_all add: event_to_dict_def dict_get_default_def)

lemma load_event_roundtrip:
  assumes "py_truth (evidence_hash e)"
  shows "load_event H (PDict (event_to_dict e)) = Some (restored e)"
  using assms by (simp add: load_event_def post_init_def restored_def Let_def)

lemma load_events_roundtrip:
  "\<forall>e \<in> set es. py_truth (evidence_hash e) \<Longrightarrow>
   load_events H (map (\<lambda>e. PDict (event_to_dict e)) es) = map restored es"
  by (induction es) (simp_all add: load_event_roundtrip)

subsection \<open>Properties\<close>

text \<open>
  C13: A halt is held.  After a trigger that created an event, with manual reset required, the switch
  stays triggered on that event whatever calls follow (further triggers, resets at any time,
  monitors), as long as no acknowledgement carries both an operator name and an approval code with
  the prescribed prefix.
\<close>

theorem halt_held_until_acknowledged:
  assumes "ks_started ks0" and "ks = foldl (ks_exec H) ks0 before" and "\<not> triggered ks"
    and "require_manual_reset (config ks)"
    and "ks_trigger H ks r act d = (Inr a, ks1)" and "\<forall>c \<in> set calls. \<not> valid_ack c"
  shows "triggered (foldl (ks_exec H) ks1 calls) \<and> current_halt (foldl (ks_exec H) ks1 calls) = Some a"
proof -
  obtain h where h: "compute_hash H (new_event ks r act d) = Some h"
    using assms(3,5) trigger_unserialisable [of ks H r act d]
    by (cases "compute_hash H (new_event ks r act d)") auto
  have "held a ks1"
    using trigger_fresh [OF assms(3) h] assms(4,5) by (auto simp: held_def new_event_def)
  then have "held a (foldl (ks_exec H) ks1 calls)" using assms(6) by (rule run_held)
  then show ?thesis by (simp add: held_def)
qed

definition sample_hasher :: hasher where
  "sample_hasher = (\<lambda>m. ''h'', \<lambda>v. [])"

definition sample_ks :: "unit KillSwitchManager" where
  "sample_ks = init_KillSwitchManager sample_hasher default_config None None None No_file ()"

definition sample_reason :: HaltReason where
  "sample_reason = create_halt_reason (''r1'', 0) MANUAL_TRIGGER ''stop'' SEV_CRITICAL None ''test''"

definition sample_td :: trigger_draws where
  "sample_td = \<lparr>td_event_id = ''e1'', td_now = 0, td_saved_at = 0, td_io = True\<rparr>"

definition sample_halted :: "unit KillSwitchManager" where
  "sample_halted = snd (ks_trigger sample_hasher sample_ks sample_reason CANCEL_ORDERS sample_td)"

lemma sample_started: "ks_started sample_ks"
  unfolding ks_started_def sample_ks_def by blast

lemma sample_hash:
  "compute_hash sample_hasher (new_event sample_ks sample_reason CANCEL_ORDERS sample_td) = Some ''h''"
  by (simp add: compute_hash_def hash_data_def new_event_def sample_reason_def create_halt_reason_def
      mk_reason_def reason_to_dict_def or_else_def sample_hasher_def)

lemma sample_config [simp]: "config sample_ks = default_config"
  by (simp add: sample_ks_def init_KillSwitchManager_def load_history_def loaded_history_def)

lemma sample_triggered:
  "ks_trigger sample_hasher sample_ks sample_reason CANCEL_ORDERS sample_td = (Inr 0, sample_halted)"
  using trigger_fresh [OF _ sample_hash] started_fields [OF sample_started] by (auto simp: sample_halted_def)

theorem halt_held_until_acknowledged_witness:
  "triggered (foldl (ks_exec sample_hasher) sample_halted
     [Reset (seconds 1000) 0 0 True, Acknowledge ''ops'' ''please'' 0 0 True, Reset (seconds 2000) 0 0 True])"
  using halt_held_until_acknowledged [OF sample_started refl, of sample_hasher "[]" sample_reason CANCEL_ORDERS sample_td
      0 sample_halted "[Reset (seconds 1000) 0 0 True, Acknowledge ''ops'' ''please'' 0 0 True, Reset (seconds 2000) 0 0 True]"]
    started_fields [OF sample_started] sample_triggered
  by (simp add: default_config_def)

text \<open>
  Recovery.  After a trigger at time \<open>td_now d\<close> and an acknowledgement with an operator
  and a valid code, a reset succeeds exactly from the end of the cooldown on; it then opens the
  switch again and leaves in the history an event with the operator, the code and the time of
  recovery.
\<close>

theorem acknowledged_halt_resets_after_cooldown:
  assumes "ks_started ks0" and "ks = foldl (ks_exec H) ks0 before" and "\<not> triggered ks"
    and "ks_trigger H ks r act d = (Inr a, ks1)"
    and "who \<noteq> []" and "prefix ''APPROVE_RESET_'' code"
    and "ks2 = snd (ks_acknowledge ks1 who code t_ack s io)"
  shows "fst (reset ks2 now t_rec s' io') = (td_now d + seconds (cooldown_seconds (config ks)) \<le> now) \<and>
    (let ks3 = snd (reset ks2 now t_rec s' io') in
     td_now d + seconds (cooldown_seconds (config ks)) \<le> now \<longrightarrow>
       \<not> triggered ks3 \<and> current_halt ks3 = None \<and> a \<in> set (halt_history ks3) \<and>
       acknowledged_by (events ks3 ! a) = PStr who \<and> recovery_approval_code (events ks3 ! a) = Some code \<and>
       recovery_timestamp (events ks3 ! a) = Some t_rec)"
proof -
  obtain h where h: "compute_hash H (new_event ks r act d) = Some h"
    using assms(3,4) trigger_unserialisable [of ks H r act d]
    by (cases "compute_hash H (new_event ks r act d)") auto
  have t: "triggered ks1" "current_halt ks1 = Some a" "a < length (events ks1)" "config ks1 = config ks"
    "last_trigger_time ks1 = Some (td_now d)"
    and hist: "halt_history ks1 = append_trim MAX_HALT_HISTORY (halt_history ks) a"
    using trigger_fresh [OF assms(3) h] assms(4) by auto
  have "a \<in> set (halt_history ks1)" unfolding hist by (rule hh.push_member)
  then show ?thesis
    using t assms(5,6) by (auto simp: assms(7) ks_acknowledge_def reset_def Let_def not_less)
qed

theorem acknowledged_halt_resets_after_cooldown_witness:
  "fst (reset (snd (ks_acknowledge sample_halted ''ops'' ''APPROVE_RESET_1'' 5 5 True)) (seconds 300) 9 9 True) \<and>
   \<not> fst (reset (snd (ks_acknowledge sample_halted ''ops'' ''APPROVE_RESET_1'' 5 5 True)) (seconds 299) 9 9 True)"
  using acknowledged_halt_resets_after_cooldown [OF sample_started refl, of sample_hasher "[]" sample_reason CANCEL_ORDERS
      sample_td 0 sample_halted "''ops''" "''APPROVE_RESET_1''" _ 5 5 True "seconds 300" 9 9 True]
    acknowledged_halt_resets_after_cooldown [OF sample_started refl, of sample_hasher "[]" sample_reason CANCEL_ORDERS
      sample_td 0 sample_halted "''ops''" "''APPROVE_RESET_1''" _ 5 5 True "seconds 299" 9 9 True]
    started_fields [OF sample_started] sample_triggered
  by (simp add: default_config_def sample_td_def)

text \<open>
  The history.  Whatever calls a manager that started without a history file receives, it keeps
  at most a thousand events, and a current halt always is the newest event of the history of a
  triggered switch.
\<close>

theorem halt_history_bounded:
  assumes "ks_started ks0" and "ks = foldl (ks_exec H) ks0 calls"
  shows "length (halt_history ks) \<le> 1000 \<and> (\<forall>a \<in> set (halt_history ks). a < length (events ks)) \<and>
    (\<forall>a. current_halt ks = Some a \<longrightarrow> triggered ks \<and> last (halt_history ks) = a \<and> a \<in> set (halt_history ks))"
proof -
  have "ks_ok ks" unfolding assms(2) by (rule ksm.inv_reachable [OF assms(1)])
  then show ?thesis by (auto simp: ks_ok_def MAX_HALT_HISTORY_def)
qed

theorem halt_history_bounded_witness:
  "length (halt_history (foldl (ks_exec sample_hasher) sample_ks [Trigger sample_reason CANCEL_ORDERS sample_td])) \<le> 1000"
  using halt_history_bounded [OF sample_started refl, of sample_hasher "[Trigger sample_reason CANCEL_ORDERS sample_td]"]
  by blast

text \<open>
  The halt action runs once.  A trigger on an open switch cancels, then flattens only if the
  configuration allows it and the action asks for it, then notifies; until a reset no call touches
  the outside world again.
\<close>

theorem halt_acts_once:
  assumes "\<not> triggered ks" and "ks_trigger H ks r act d = (Inr a, ks1)" and "\<forall>c \<in> set calls. \<not> is_reset c"
  shows "world (foldl (ks_exec H) ks1 calls) =
    (let w1 = (case cancel_orders_fn ks of None \<Rightarrow> world ks
                 | Some f \<Rightarrow> if act = HALT_ONLY then world ks else snd (f (world ks)));
         w2 = (case flatten_fn ks of None \<Rightarrow> w1
                 | Some f \<Rightarrow> if (act = FLATTEN_LOCAL \<or> act = FLATTEN_EMERGENCY) \<and> allow_flatten_on_halt (config ks)
                           then snd (f w1) else w1)
     in case on_trigger ks of None \<Rightarrow> w2 | Some f \<Rightarrow> f w2 r)"
proof -
  obtain h where h: "compute_hash H (new_event ks r act d) = Some h"
    using assms(1,2) trigger_unserialisable [of ks H r act d]
    by (cases "compute_hash H (new_event ks r act d)") auto
  have "triggered ks1" "world ks1 = notified_world ks act r"
    using trigger_fresh [OF assms(1) h] assms(2) by auto
  then have nw: "world (foldl (ks_exec H) ks1 calls) = notified_world ks act r"
    using run_triggered_world [OF _ assms(3), of ks1 H] by simp
  have cs: "snd (cancel_step act ks) = (case cancel_orders_fn ks of None \<Rightarrow> world ks
      | Some f \<Rightarrow> if act = HALT_ONLY then world ks else snd (f (world ks)))"
    by (cases act) (auto simp: cancel_step_def split: option.splits prod.splits)
  have fs: "snd (flatten_step act ks w) = (case flatten_fn ks of None \<Rightarrow> w
      | Some f \<Rightarrow> if (act = FLATTEN_LOCAL \<or> act = FLATTEN_EMERGENCY) \<and> allow_flatten_on_halt (config ks)
                then snd (f w) else w)" for w
    by (cases act) (auto simp: flatten_step_def split: option.splits prod.splits)
  show ?thesis unfolding nw notified_world_def acted_world_def Let_def cs fs by (rule refl)
qed

definition counting_ks :: "nat KillSwitchManager" where
  "counting_ks = init_KillSwitchManager sample_hasher default_config None (Some (\<lambda>w. (Some 3, w + 1))) None No_file 0"

theorem halt_acts_once_witness:
  "world (foldl (ks_exec sample_hasher)
     (snd (ks_trigger sample_hasher counting_ks sample_reason CANCEL_ORDERS sample_td))
     [Trigger sample_reason CANCEL_ORDERS sample_td]) = 1"
proof -
  have c: "\<not> triggered counting_ks" "cancel_orders_fn counting_ks = Some (\<lambda>w. (Some 3, w + 1))" "world counting_ks = 0"
    "flatten_fn counting_ks = None" "on_trigger counting_ks = None"
    by (simp_all add: counting_ks_def init_KillSwitchManager_def load_history_def Let_def)
  have "compute_hash sample_hasher (new_event counting_ks sample_reason CANCEL_ORDERS sample_td) = Some ''h''"
    by (simp add: compute_hash_def hash_data_def new_event_def sample_reason_def create_halt_reason_def
      mk_reason_def reason_to_dict_def or_else_def sample_hasher_def)
  then obtain ks1 where "ks_trigger sample_hasher counting_ks sample_reason CANCEL_ORDERS sample_td =
      (Inr (length (events counting_ks)), ks1)"
    using trigger_fresh c(1) by blast
  then show ?thesis
    using halt_acts_once [OF c(1), of sample_hasher sample_reason CANCEL_ORDERS sample_td _ ks1
        "[Trigger sample_reason CANCEL_ORDERS sample_td]"] c by simp
qed

text \<open>Every event carries a hash, if the digest is never the empty text.\<close>

definition all_hashed :: "'w KillSwitchManager \<Rightarrow> bool" where
  "all_hashed ks \<longleftrightarrow> (\<forall>e \<in> set (events ks). py_truth (evidence_hash e))"

lemma all_hashed_update:
  assumes "all_hashed ks" and "evidence_hash e = evidence_hash (events ks ! a)"
  shows "all_hashed (ks\<lparr>events := (events ks)[a := e]\<rparr>)"
proof (cases "a < length (events ks)")
  case True
  then show ?thesis using assms set_update_subset_insert [of "events ks" a e] by (fastforce simp: all_hashed_def)
qed (use assms in \<open>simp add: all_hashed_def list_update_beyond\<close>)

lemma all_hashed_save [simp]:
  "all_hashed (save_history ks n io) = all_hashed ks"
  "all_hashed (ks\<lparr>triggered := b, current_halt := h, errors := es, latency_spikes := ls\<rparr>) = all_hashed ks"
  by (simp_all add: all_hashed_def)

lemma ks_exec_hashed:
  assumes "all_hashed ks" and "\<And>m. fst H m \<noteq> []"
  shows "all_hashed (ks_exec H ks c)"
proof (cases rule: ks_call_cases [where c = c and ks = ks and H = H])
  case (trigger r act d)
  show ?thesis
  proof (cases rule: ks_trigger_cases [where ks = ks and H = H and r = r and act = act and d = d])
    case (open_halt a)
    then show ?thesis using assms(1) trigger trigger_while_triggered [of ks a H r act d]
        all_hashed_update [OF assms(1), of "(events ks ! a)\<lparr>halt_reason := r\<rparr>" a] by simp
  next
    case (fresh h)
    then have "h \<noteq> []" using assms(2) by (auto simp: compute_hash_def split: if_splits)
    then show ?thesis using trigger_fresh [OF fresh] assms(1) trigger by (auto simp: all_hashed_def)
  next
    case unserialisable
    then show ?thesis using trigger_unserialisable [OF unserialisable] assms(1) trigger by (simp add: all_hashed_def)
  qed (use assms(1) trigger in simp)
next
  case (acknowledge who code n s io)
  then show ?thesis using assms(1)
    by (auto simp: ks_acknowledge_def intro!: all_hashed_update split: option.split)
next
  case (reset n r s io)
  then show ?thesis using assms(1)
    by (auto simp: reset_def Let_def intro!: all_hashed_update split: option.split)
next
  case monitor
  then show ?thesis using assms(1) by (simp add: same_core_def all_hashed_def)
qed

lemma run_hashed: "all_hashed ks \<Longrightarrow> (\<And>m. fst H m \<noteq> []) \<Longrightarrow> all_hashed (foldl (ks_exec H) ks cs)"
  by (induction cs arbitrary: ks) (auto intro: ks_exec_hashed)

text \<open>
  Persistence.  What a started manager writes, if serialisable, is read back as the same events
  in the same order, except that the approval code of a recovery is lost and an empty operator name
  becomes none.
\<close>

theorem saved_history_reloads:
  assumes "ks_started ks0" and "ks = foldl (ks_exec H) ks0 calls" and "\<forall>m. fst H m \<noteq> []"
    and "json_ok (history_document ks now)"
  shows "loaded_history H (history_file (save_history ks now True)) =
    map (\<lambda>a. restored (events ks ! a)) (halt_history ks)"
proof -
  have ok: "ks_ok ks" unfolding assms(2) by (rule ksm.inv_reachable [OF assms(1)])
  have "all_hashed ks0" using started_fields [OF assms(1)] by (simp add: all_hashed_def)
  then have hashed: "all_hashed ks" unfolding assms(2) using assms(3) by (intro run_hashed) simp_all
  have slice: "slice_from (halt_history ks) (- MAX_HALT_HISTORY) = halt_history ks"
    using ok by (simp add: slice_from_neg MAX_HALT_HISTORY_def ks_ok_def)
  have "\<forall>e \<in> set (map (\<lambda>a. events ks ! a) (halt_history ks)). py_truth (evidence_hash e)"
    using ok hashed by (auto simp: ks_ok_def all_hashed_def)
  from load_events_roundtrip [OF this, of H]
  have "load_events H (map (\<lambda>a. PDict (event_to_dict (events ks ! a))) (halt_history ks)) =
      map (\<lambda>a. restored (events ks ! a)) (halt_history ks)"
    by (simp add: comp_def)
  moreover have "history_file (save_history ks now True) = Document (history_document ks now)"
    using assms(4) by (simp add: save_history_def)
  ultimately show ?thesis
    by (simp add: loaded_history_def history_document_def slice dict_get_default_def)
qed

theorem saved_history_reloads_witness:
  "loaded_history sample_hasher (history_file (save_history sample_halted 7 True)) =
   map (\<lambda>a. restored (events sample_halted ! a)) (halt_history sample_halted)"
proof -
  have run: "sample_halted = foldl (ks_exec sample_hasher) sample_ks [Trigger sample_reason CANCEL_ORDERS sample_td]"
    by (simp add: sample_halted_def)
  obtain ks' where ks': "ks_trigger sample_hasher sample_ks sample_reason CANCEL_ORDERS sample_td = (Inr 0, ks')"
    "halt_history ks' = append_trim MAX_HALT_HISTORY [] 0"
    "events ks' = [(new_event sample_ks sample_reason CANCEL_ORDERS sample_td)\<lparr>evidence_hash := PStr ''h''\<rparr>]"
    using trigger_fresh [OF _ sample_hash] started_fields [OF sample_started] by auto
  then have "halt_history sample_halted = [0]" "events sample_halted = events ks'"
    using sample_triggered by (simp_all add: append_trim_def MAX_HALT_HISTORY_def)
  then have "json_ok (history_document sample_halted 7)"
    using ks'(3) by (simp add: history_document_def slice_from_def MAX_HALT_HISTORY_def event_to_dict_def new_event_def
      sample_reason_def create_halt_reason_def mk_reason_def reason_to_dict_def or_else_def opt_iso_def opt_str_def)
  then show ?thesis
    using saved_history_reloads [OF sample_started run, of 7] by (simp add: sample_hasher_def)
qed

text \<open>
  The pruned error log answers as the full log would.  After errors at the times \<open>ts\<close>, in
  order, the next one reports a burst exactly when the last minute or the last hour holds as many
  errors as the limits allow, counted over all errors ever recorded, and it is critical exactly in
  the first case.
\<close>

theorem error_burst_detected_exactly:
  assumes "ks_started ks0" and "ks = record_errors ks0 es" and "sorted (map fst es @ [now])"
  defines "m \<equiv> count_after (now - seconds 60) (map fst es @ [now])"
    and "h \<equiv> count_after (now - seconds 3600) (map fst es @ [now])"
  shows "map_option severity (fst (record_error ks now st)) =
    (if max_broker_errors_per_minute (config ks0) \<le> m then Some SEV_CRITICAL
     else if max_broker_errors_per_hour (config ks0) \<le> h then Some SEV_HIGH else None)"
proof -
  let ?t0 = "hd (map fst es @ [now])"
  have "\<forall>t \<in> set (map fst es). ?t0 \<le> t" using assms(3) by (cases es) auto
  moreover have "last (?t0 # map fst es) \<le> now"
    using assms(3) last_in_set [of "map fst es"] by (cases "es = []") (auto simp: sorted_append)
  ultimately have log: "filter (\<lambda>t. now - seconds 3600 < t) (errors ks) =
      filter (\<lambda>t. now - seconds 3600 < t) (map fst es)" and cfg: "config ks = config ks0"
    using record_errors_log [of es ?t0 ks0 "[]" now] assms(2,3) started_fields [OF assms(1)]
    by (auto simp: sorted_append)
  have pruned: "filter (\<lambda>e. e > now - seconds 3600) (errors ks @ [now]) =
      filter (\<lambda>e. now - seconds 3600 < e) (map fst es @ [now])"
    using log by simp
  have minute: "count_after (now - seconds 60) (filter (\<lambda>e. now - seconds 3600 < e) (map fst es @ [now])) = m"
    unfolding m_def count_after_def by (subst filter_nested(2)) (simp_all add: seconds_def)
  show ?thesis
    unfolding record_error_def Let_def pruned minute cfg
    unfolding h_def count_after_def by (simp add: mk_reason_def)
qed

theorem error_burst_detected_exactly_witness:
  "map_option severity (fst (record_error (record_errors sample_ks [(0, ''a'', 0), (1, ''b'', 0), (2, ''c'', 0), (3, ''d'', 0)])
     4 (''e'', 0))) = Some SEV_CRITICAL"
  using error_burst_detected_exactly [OF sample_started refl, of "[(0, ''a'', 0), (1, ''b'', 0), (2, ''c'', 0), (3, ''d'', 0)]" 4 "(''e'', 0)"]
  by (simp add: count_after_def seconds_def default_config_def)

subsection \<open>Further behaviour\<close>

text \<open>
  Severities are compared as texts: \<open>critical < high < low < medium\<close>.  A critical reason is
  never replaced and replaces every other one, but a low reason replaces a medium one.
\<close>

lemma critical_escalates:
  "\<not> HaltSeverity_value sv < HaltSeverity_value SEV_CRITICAL"
  "sv \<noteq> SEV_CRITICAL \<Longrightarrow> HaltSeverity_value SEV_CRITICAL < HaltSeverity_value sv"
  by (cases sv; simp add: less_list_code)+

lemma low_replaces_medium:
  "HaltSeverity_value SEV_LOW < HaltSeverity_value SEV_MEDIUM \<and> \<not> HaltSeverity_value SEV_MEDIUM < HaltSeverity_value SEV_LOW"
  by (simp add: less_list_code)

text \<open>
  A reason whose details are not serialisable leaves the switch triggered without an event: the next
  trigger raises again, and a reset needs no acknowledgement any more.
\<close>

lemma unserialisable_reason_bypasses_acknowledgement:
  assumes "\<not> triggered ks" and "current_halt ks = None" and "\<not> json_ok (details r)"
    and "ks' = snd (ks_trigger H ks r act d)"
  shows "fst (ks_trigger H ks r act d) = Inl Not_serialisable \<and> triggered ks' \<and> current_halt ks' = None \<and>
    fst (ks_trigger H ks' r' act' d') = Inl No_current_halt \<and>
    fst (reset ks' (td_now d + seconds (cooldown_seconds (config ks))) t s io)"
proof -
  have "compute_hash H (new_event ks r act d) = None"
    using assms(3) by (simp add: compute_hash_def hash_data_def new_event_def reason_to_dict_def)
  then show ?thesis
    using trigger_unserialisable [OF assms(1), of H r act d] assms(2,4)
    by (simp add: ks_trigger_def [of H "ks\<lparr>triggered := b, last_trigger_time := l, world := w\<rparr>" for b l w] reset_def)
qed

text \<open>A loss that exactly reaches the limit is reported, if rounding is monotone and keeps the limit.\<close>

lemma daily_loss_detected:
  assumes "mono ctx" and "ctx (max_daily_loss_pct (config ks)) = max_daily_loss_pct (config ks)"
    and "\<And>x. ctx (- x) = - ctx x" and "0 < equity" and "0 \<le> max_daily_loss_pct (config ks)" and "pnl < 0"
    and "max_daily_loss_pct (config ks) \<le> - pnl / equity"
  shows "\<exists>r. check_daily_loss ctx ks pnl equity s = Some r \<and> reason_type r = MAX_DAILY_LOSS \<and> severity r = SEV_CRITICAL"
proof -
  let ?L = "max_daily_loss_pct (config ks)"
  have "?L \<le> ctx (- pnl / equity)" using monoD [OF assms(1) assms(7)] assms(2) by simp
  also have "ctx (- pnl / equity) = - ctx (pnl / equity)" using assms(3) [of "pnl / equity"] by simp
  also have "\<dots> \<le> \<bar>ctx (pnl / equity)\<bar>" by simp
  finally have "?L \<le> ctx \<bar>ctx (pnl / equity)\<bar>" using monoD [OF assms(1), of ?L] assms(2) by fastforce
  then show ?thesis using assms(4,6) by (simp add: check_daily_loss_def Let_def mk_reason_def)
qed

text \<open>Telemetry keeps the keys and shows no value of a sensitive key.\<close>

lemma telemetry_redacts:
  "dict_keys (get_telemetry_safe_details ds) = dict_keys ds \<and>
   (\<forall>(k, v) \<in> set (get_telemetry_safe_details ds). sensitive_key k \<longrightarrow> v = PStr ''[REDACTED]'')"
  by (induction ds rule: get_telemetry_safe_details.induct) auto

end
