(* ===== verification/Layered_Policy.thy ===== *)
theory Layered_Policy
  imports Hash_Chain "HOL-Library.Multiset"
begin

section \<open>The layered policy engine\<close>

text \<open>
  Model of \<^verbatim>\<open>packages/agent/policy/layered_policy.py\<close>: four layers of policy values
  (local, cloud, manifest, defaults), the merge of a local with a cloud value, the locks and the
  local-only keys, and the bounded conflict log.

  Policy values are of type \<^verbatim>\<open>Any\<close>; comparison, equality and hashing of Python are written
  out on \<open>pyval\<close>, with the exceptions they raise.  (Values given by callers are plain: the
  rendered texts of the prelude do not occur among them and compare as incomparable.)  The order in
  which a set is iterated is not specified by the language: it is the parameter \<open>it\<close>, of which
  only is used that it permutes.  The clock is read once per stored value; \<open>clk\<close> gives the
  reading for each key.  The conflict callback acts on a world and may raise, which nothing catches.
\<close>

subsection \<open>Comparison of values\<close>

datatype lp_error = TypeError | Unhashable | InvalidOperation | Callback_raised

fun num_of :: "pyval \<Rightarrow> pyfloat option" where
  "num_of (PBool b) = Some (Fin (if b then 1 else 0))"
| "num_of (PInt i) = Some (Fin (of_int i))"
| "num_of (PFloat f) = Some f"
| "num_of (PDecimal d) = Some (Fin d)"
| "num_of _ = None"

fun num_eq :: "pyfloat \<Rightarrow> pyfloat \<Rightarrow> bool" where
  "num_eq (Fin a) (Fin b) = (a = b)"
| "num_eq PInf PInf = True"
| "num_eq NInf NInf = True"
| "num_eq _ _ = False"

fun num_lt :: "pyfloat \<Rightarrow> pyfloat \<Rightarrow> bool" where
  "num_lt (Fin a) (Fin b) = (a < b)"
| "num_lt (Fin a) PInf = True"
| "num_lt NInf (Fin b) = True"
| "num_lt NInf PInf = True"
| "num_lt _ _ = False"

lemma size_snd_list: "kv \<in> set kvs \<Longrightarrow> size (snd kv) \<le> size_list (size_prod (\<lambda>x. 0) size) kvs"
proof -
  assume "kv \<in> set kvs"
  then have "size_prod (\<lambda>x. 0) size kv \<le> size_list (size_prod (\<lambda>x. 0) size) kvs"
    by (rule size_list_estimation') simp
  moreover have "size (snd kv) \<le> size_prod (\<lambda>x. 0) size kv" by (cases kv) simp
  ultimately show ?thesis by simp
qed

function py_eq :: "pyval \<Rightarrow> pyval \<Rightarrow> bool" and py_eq_list :: "pyval list \<Rightarrow> pyval list \<Rightarrow> bool" where
  "py_eq v w =
     (case (num_of v, num_of w) of
        (Some a, Some b) \<Rightarrow> num_eq a b
      | _ \<Rightarrow>
        (case (v, w) of
           (PNone, PNone) \<Rightarrow> True
         | (PStr s, PStr t) \<Rightarrow> s = t
         | (PList xs, PList ys) \<Rightarrow> py_eq_list xs ys
         | (PSet xs, PSet ys) \<Rightarrow> length xs = length ys \<and> (\<forall>x \<in> set xs. \<exists>y \<in> set ys. py_eq x y)
         | (PDict kvs, PDict kws) \<Rightarrow> length kvs = length kws \<and>
             (\<forall>kv \<in> set kvs. \<exists>kw \<in> set kws. fst kv = fst kw \<and> py_eq (snd kv) (snd kw))
         | _ \<Rightarrow> False))"
| "py_eq_list [] [] = True"
| "py_eq_list (x # xs) (y # ys) = (py_eq x y \<and> py_eq_list xs ys)"
| "py_eq_list [] (y # ys) = False"
| "py_eq_list (x # xs) [] = False"
  by pat_completeness auto
termination
  by (relation "measure (\<lambda>a. case a of Inl (v, w) \<Rightarrow> size v | Inr (xs, ys) \<Rightarrow> size_list size xs)")
    (auto simp: less_Suc_eq_le size_list_estimation' dest!: size_snd_list)

definition py_in :: "pyval \<Rightarrow> pyval list \<Rightarrow> bool" where
  "py_in x ys = list_ex (\<lambda>y. py_eq x y) ys"

fun is_decimal :: "pyval \<Rightarrow> bool" where
  "is_decimal (PDecimal d) = True"
| "is_decimal _ = False"

text \<open>Lists compare at the first position where they differ; sets by strict inclusion.\<close>

function py_lt :: "pyval \<Rightarrow> pyval \<Rightarrow> lp_error + bool" and py_lt_list :: "pyval list \<Rightarrow> pyval list \<Rightarrow> lp_error + bool" where
  "py_lt v w =
     (case (num_of v, num_of w) of
        (Some a, Some b) \<Rightarrow>
          if is_decimal v \<and> w = PFloat NaN \<or> v = PFloat NaN \<and> is_decimal w
          then Inl InvalidOperation else Inr (num_lt a b)
      | _ \<Rightarrow>
        (case (v, w) of
           (PStr s, PStr t) \<Rightarrow> Inr (s < t)
         | (PList xs, PList ys) \<Rightarrow> py_lt_list xs ys
         | (PSet xs, PSet ys) \<Rightarrow> Inr (length xs < length ys \<and> list_all (\<lambda>x. py_in x ys) xs)
         | _ \<Rightarrow> Inl TypeError))"
| "py_lt_list xs [] = Inr False"
| "py_lt_list [] (y # ys) = Inr True"
| "py_lt_list (x # xs) (y # ys) = (if py_eq x y then py_lt_list xs ys else py_lt x y)"
  by pat_completeness auto
termination
  by (relation "measure (\<lambda>a. case a of Inl (v, w) \<Rightarrow> size v | Inr (xs, ys) \<Rightarrow> size_list size xs)") auto

declare py_eq.simps [simp del] py_lt.simps [simp del]

text \<open>\<^verbatim>\<open>min(a, b)\<close> and \<^verbatim>\<open>max(a, b)\<close>: the first argument unless the second is smaller, greater.\<close>

definition py_min :: "pyval \<Rightarrow> pyval \<Rightarrow> lp_error + pyval" where
  "py_min a b = (case py_lt b a of Inl e \<Rightarrow> Inl e | Inr c \<Rightarrow> Inr (if c then b else a))"

definition py_max :: "pyval \<Rightarrow> pyval \<Rightarrow> lp_error + pyval" where
  "py_max a b = (case py_lt a b of Inl e \<Rightarrow> Inl e | Inr c \<Rightarrow> Inr (if c then b else a))"

fun hashable :: "pyval \<Rightarrow> bool" where
  "hashable (PList _) = False"
| "hashable (PSet _) = False"
| "hashable (PDict _) = False"
| "hashable _ = True"

fun elements :: "pyval \<Rightarrow> pyval list option" where
  "elements (PList vs) = Some vs"
| "elements (PSet vs) = Some vs"
| "elements _ = None"

text \<open>\<^verbatim>\<open>set(xs)\<close>: the first of equal elements is kept.\<close>

fun to_set_acc :: "pyval list \<Rightarrow> pyval list \<Rightarrow> pyval list" where
  "to_set_acc acc [] = acc"
| "to_set_acc acc (x # xs) = to_set_acc (if py_in x acc then acc else acc @ [x]) xs"

definition to_set :: "pyval list \<Rightarrow> lp_error + pyval list" where
  "to_set xs = (if list_all hashable xs then Inr (to_set_acc [] xs) else Inl Unhashable)"

definition set_union :: "pyval list \<Rightarrow> pyval list \<Rightarrow> pyval list" where
  "set_union a b = to_set_acc a b"

text \<open>The intersection takes its elements from the smaller set, from the second one on a tie.\<close>

definition set_inter :: "pyval list \<Rightarrow> pyval list \<Rightarrow> pyval list" where
  "set_inter a b =
     (if length b > length a then filter (\<lambda>x. py_in x b) a else filter (\<lambda>x. py_in x a) b)"

subsection \<open>Data\<close>

datatype PolicySource = LOCAL | CLOUD | MANIFEST | DEFAULT

fun PolicySource_name :: "PolicySource \<Rightarrow> string" where
  "PolicySource_name LOCAL = ''LOCAL''"
| "PolicySource_name CLOUD = ''CLOUD''"
| "PolicySource_name MANIFEST = ''MANIFEST''"
| "PolicySource_name DEFAULT = ''DEFAULT''"

record PolicyValue =
  pv_key :: string
  pv_value :: pyval
  pv_source :: PolicySource
  pv_set_at :: time
  pv_reason :: string
  pv_locked :: bool

definition pv_to_dict :: "PolicyValue \<Rightarrow> (string, pyval) dict" where
  "pv_to_dict p =
     [(''key'', PStr (pv_key p)), (''value'', pv_value p), (''source'', PStr (PolicySource_name (pv_source p))),
      (''set_at'', PIso (pv_set_at p)), (''reason'', PStr (pv_reason p)), (''locked'', PBool (pv_locked p))]"

record PolicyConflict =
  pc_key :: string
  pc_winner_source :: PolicySource
  pc_winner_value :: pyval
  pc_loser_source :: PolicySource
  pc_loser_value :: pyval
  pc_resolved_at :: time

definition pc_to_dict :: "PolicyConflict \<Rightarrow> (string, pyval) dict" where
  "pc_to_dict c =
     [(''key'', PStr (pc_key c)), (''winner_source'', PStr (PolicySource_name (pc_winner_source c))),
      (''winner_value'', pc_winner_value c), (''loser_source'', PStr (PolicySource_name (pc_loser_source c))),
      (''loser_value'', pc_loser_value c), (''resolved_at'', PIso (pc_resolved_at c))]"

datatype MergeStrategy = MERGE_REPLACE | MERGE_MIN | MERGE_MAX | MERGE_UNION | MERGE_INTERSECT

definition DEFAULT_MERGE_STRATEGIES :: "(string, MergeStrategy) dict" where
  "DEFAULT_MERGE_STRATEGIES =
     [(''max_position'', MERGE_MIN), (''max_order_size'', MERGE_MIN), (''max_daily_loss'', MERGE_MIN),
      (''max_drawdown'', MERGE_MIN), (''max_leverage'', MERGE_MIN), (''max_orders_per_second'', MERGE_MIN),
      (''allowed_symbols'', MERGE_INTERSECT), (''allowed_exchanges'', MERGE_INTERSECT), (''egress_allowlist'', MERGE_INTERSECT),
      (''blocked_symbols'', MERGE_UNION), (''blocked_strategies'', MERGE_UNION),
      (''timeout_seconds'', MERGE_MIN), (''max_execution_time'', MERGE_MIN),
      (''max_memory_mb'', MERGE_MIN), (''max_cpu_percent'', MERGE_MIN)]"

record LayeredPolicyConfig =
  merge_strategies :: "(string, MergeStrategy) dict"
  lockable_keys :: "string set"
  local_only_keys :: "string set"
  audit_enabled :: bool

definition default_policy_config :: LayeredPolicyConfig where
  "default_policy_config = \<lparr>merge_strategies = DEFAULT_MERGE_STRATEGIES,
     lockable_keys = {''max_position'', ''max_daily_loss'', ''allowed_symbols'', ''blocked_strategies'',
                      ''kill_switch_triggers''},
     local_only_keys = {''vault_master_key'', ''local_credentials'', ''keychain_config'', ''auto_approve_commands''},
     audit_enabled = True\<rparr>"

record 'w LayeredPolicyEngine =
  lp_config :: LayeredPolicyConfig
  on_conflict :: "('w \<Rightarrow> PolicyConflict \<Rightarrow> bool \<times> 'w) option"
  lp_local :: "(string, PolicyValue) dict"
  lp_cloud :: "(string, PolicyValue) dict"
  lp_manifest :: "(string, PolicyValue) dict"
  lp_defaults :: "(string, PolicyValue) dict"
  conflicts :: "PolicyConflict list"
  lp_world :: 'w

type_synonym clock = "string \<Rightarrow> time"

definition mk_pv :: "clock \<Rightarrow> string \<Rightarrow> pyval \<Rightarrow> PolicySource \<Rightarrow> string \<Rightarrow> bool \<Rightarrow> PolicyValue" where
  "mk_pv clk key v src rsn lck =
     \<lparr>pv_key = key, pv_value = v, pv_source = src, pv_set_at = clk key, pv_reason = rsn, pv_locked = lck\<rparr>"

text \<open>The float \<^verbatim>\<open>0.10\<close> is the nearest double.\<close>

definition system_defaults :: "(string, pyval) dict" where
  "system_defaults =
     [(''max_position'', PInt 1000000), (''max_order_size'', PInt 100000), (''max_daily_loss'', PInt 50000),
      (''max_drawdown'', PFloat (Fin (3602879701896397 / 36028797018963968))), (''max_leverage'', PFloat (Fin 1)),
      (''max_orders_per_second'', PInt 10), (''max_orders_per_minute'', PInt 100),
      (''timeout_seconds'', PInt 30), (''max_execution_time'', PInt 3600),
      (''max_memory_mb'', PInt 512), (''max_cpu_percent'', PFloat (Fin 100)),
      (''network_enabled'', PBool False), (''egress_allowlist'', PList []), (''filesystem_readonly'', PBool True)]"

fun set_layer ::
  "(string \<Rightarrow> pyval \<Rightarrow> PolicyValue) \<Rightarrow> (string, PolicyValue) dict \<Rightarrow> (string, pyval) dict \<Rightarrow> (string, PolicyValue) dict" where
  "set_layer mk layer [] = layer"
| "set_layer mk layer ((key, v) # ps) = set_layer mk (dict_set layer key (mk key v)) ps"

definition init_LayeredPolicyEngine ::
  "LayeredPolicyConfig \<Rightarrow> ('w \<Rightarrow> PolicyConflict \<Rightarrow> bool \<times> 'w) option \<Rightarrow> clock \<Rightarrow> 'w \<Rightarrow> 'w LayeredPolicyEngine" where
  "init_LayeredPolicyEngine c cb clk w =
     \<lparr>lp_config = c, on_conflict = cb, lp_local = [], lp_cloud = [], lp_manifest = [],
      lp_defaults = set_layer (\<lambda>k v. mk_pv clk k v DEFAULT ''System default'' False) [] system_defaults,
      conflicts = [], lp_world = w\<rparr>"

subsection \<open>Setting policies\<close>

definition set_local_policy ::
  "'w LayeredPolicyEngine \<Rightarrow> (string, pyval) dict \<Rightarrow> string set option \<Rightarrow> string \<Rightarrow> clock \<Rightarrow> 'w LayeredPolicyEngine" where
  "set_local_policy lp policy lock_keys rsn clk =
     lp\<lparr>lp_local := set_layer
          (\<lambda>k v. mk_pv clk k v LOCAL rsn (case lock_keys of None \<Rightarrow> False | Some ks \<Rightarrow> k \<in> ks))
          (lp_local lp) policy\<rparr>"

definition log_conflict ::
  "'w LayeredPolicyEngine \<Rightarrow> PolicyConflict \<Rightarrow> (lp_error, unit, 'w LayeredPolicyEngine) pyres" where
  "log_conflict lp c =
     (let lp1 = lp\<lparr>conflicts := append_trim 1000 (conflicts lp) c\<rparr> in
      case on_conflict lp1 of
        None \<Rightarrow> py_return () lp1
      | Some f \<Rightarrow> (case f (lp_world lp1) c of
                   (True, w) \<Rightarrow> py_return () (lp1\<lparr>lp_world := w\<rparr>)
                 | (False, w) \<Rightarrow> py_raise Callback_raised (lp1\<lparr>lp_world := w\<rparr>)))"

definition cloud_conflict :: "'w LayeredPolicyEngine \<Rightarrow> clock \<Rightarrow> string \<Rightarrow> pyval \<Rightarrow> PolicyConflict" where
  "cloud_conflict lp clk key v =
     \<lparr>pc_key = key, pc_winner_source = LOCAL,
      pc_winner_value = (case dict_get (lp_local lp) key of None \<Rightarrow> PNone | Some p \<Rightarrow> pv_value p),
      pc_loser_source = CLOUD, pc_loser_value = v, pc_resolved_at = clk key\<rparr>"

definition locked_key :: "'w LayeredPolicyEngine \<Rightarrow> string \<Rightarrow> bool" where
  "locked_key lp key = (case dict_get (lp_local lp) key of None \<Rightarrow> False | Some p \<Rightarrow> pv_locked p)"

fun set_cloud_from ::
  "'w LayeredPolicyEngine \<Rightarrow> int \<Rightarrow> (string, pyval) dict \<Rightarrow> string \<Rightarrow> clock \<Rightarrow>
   (lp_error, int, 'w LayeredPolicyEngine) pyres" where
  "set_cloud_from lp rejected [] rsn clk = py_return rejected lp"
| "set_cloud_from lp rejected ((key, v) # ps) rsn clk =
     (if key \<in> local_only_keys (lp_config lp) \<or> locked_key lp key then
        (case log_conflict lp (cloud_conflict lp clk key v) of
           (Inl e, lp') \<Rightarrow> py_raise e lp'
         | (Inr _, lp') \<Rightarrow> set_cloud_from lp' (rejected + 1) ps rsn clk)
      else set_cloud_from (lp\<lparr>lp_cloud := dict_set (lp_cloud lp) key (mk_pv clk key v CLOUD rsn False)\<rparr>)
             rejected ps rsn clk)"

definition set_cloud_policy ::
  "'w LayeredPolicyEngine \<Rightarrow> (string, pyval) dict \<Rightarrow> string \<Rightarrow> clock \<Rightarrow> (lp_error, int, 'w LayeredPolicyEngine) pyres" where
  "set_cloud_policy lp policy rsn clk = set_cloud_from lp 0 policy rsn clk"

definition set_manifest_policy ::
  "'w LayeredPolicyEngine \<Rightarrow> (string, pyval) dict \<Rightarrow> string \<Rightarrow> clock \<Rightarrow> 'w LayeredPolicyEngine" where
  "set_manifest_policy lp policy rsn clk =
     lp\<lparr>lp_manifest := set_layer (\<lambda>k v. mk_pv clk k v MANIFEST rsn False) (lp_manifest lp) policy\<rparr>"

definition clear_cloud_policy :: "'w LayeredPolicyEngine \<Rightarrow> 'w LayeredPolicyEngine" where
  "clear_cloud_policy lp = lp\<lparr>lp_cloud := []\<rparr>"

definition clear_manifest_policy :: "'w LayeredPolicyEngine \<Rightarrow> 'w LayeredPolicyEngine" where
  "clear_manifest_policy lp = lp\<lparr>lp_manifest := []\<rparr>"

definition set_lock :: "'w LayeredPolicyEngine \<Rightarrow> string \<Rightarrow> bool \<Rightarrow> 'w LayeredPolicyEngine" where
  "set_lock lp key b =
     (case dict_get (lp_local lp) key of
        None \<Rightarrow> lp
      | Some p \<Rightarrow> lp\<lparr>lp_local := dict_set (lp_local lp) key (p\<lparr>pv_locked := b\<rparr>)\<rparr>)"

definition lock_local_key :: "'w LayeredPolicyEngine \<Rightarrow> string \<Rightarrow> bool \<times> 'w LayeredPolicyEngine" where
  "lock_local_key lp key =
     (if \<not> dict_has (lp_local lp) key then (False, lp)
      else if key \<notin> lockable_keys (lp_config lp) then (False, lp)
      else (True, set_lock lp key True))"

definition unlock_local_key :: "'w LayeredPolicyEngine \<Rightarrow> string \<Rightarrow> bool \<times> 'w LayeredPolicyEngine" where
  "unlock_local_key lp key =
     (if \<not> dict_has (lp_local lp) key then (False, lp) else (True, set_lock lp key False))"

definition create_policy_engine ::
  "(string, pyval) dict option \<Rightarrow> ('w \<Rightarrow> PolicyConflict \<Rightarrow> bool \<times> 'w) option \<Rightarrow> clock \<Rightarrow> clock \<Rightarrow> 'w \<Rightarrow>
   'w LayeredPolicyEngine" where
  "create_policy_engine local_policy cb clk clk' w =
     (let engine = init_LayeredPolicyEngine default_policy_config cb clk w in
      if truthy local_policy then set_local_policy engine (the local_policy) None ''Local configuration'' clk'
      else engine)"

subsection \<open>Reading policies\<close>

text \<open>Exact match first, then the first pattern that occurs in the key.\<close>

definition get_merge_strategy :: "LayeredPolicyConfig \<Rightarrow> string \<Rightarrow> MergeStrategy" where
  "get_merge_strategy c key =
     (case dict_get (merge_strategies c) key of
        Some s \<Rightarrow> s
      | None \<Rightarrow> (case find (\<lambda>p. substring (fst p) key) (merge_strategies c) of
                  Some p \<Rightarrow> snd p
                | None \<Rightarrow> MERGE_REPLACE))"

definition or_higher :: "pyval \<Rightarrow> lp_error + pyval \<Rightarrow> lp_error + pyval" where
  "or_higher h r = (case r of Inl TypeError \<Rightarrow> Inr h | _ \<Rightarrow> r)"

definition merge_sets ::
  "(pyval list \<Rightarrow> pyval list \<Rightarrow> pyval) \<Rightarrow> pyval \<Rightarrow> pyval \<Rightarrow> lp_error + pyval" where
  "merge_sets f higher lowval =
     (case (elements higher, elements lowval) of
        (Some xs, Some ys) \<Rightarrow>
          (case to_set xs of
             Inl e \<Rightarrow> Inl e
           | Inr a \<Rightarrow> (case to_set ys of Inl e \<Rightarrow> Inl e | Inr b \<Rightarrow> Inr (f a b)))
      | _ \<Rightarrow> Inr higher)"

definition merge_values ::
  "(pyval list \<Rightarrow> pyval list) \<Rightarrow> LayeredPolicyConfig \<Rightarrow> string \<Rightarrow> pyval \<Rightarrow> pyval \<Rightarrow> lp_error + pyval" where
  "merge_values it c key higher lowval =
     (case get_merge_strategy c key of
        MERGE_REPLACE \<Rightarrow> Inr higher
      | MERGE_MIN \<Rightarrow> or_higher higher (py_min higher lowval)
      | MERGE_MAX \<Rightarrow> or_higher higher (py_max higher lowval)
      | MERGE_UNION \<Rightarrow> merge_sets (\<lambda>a b. PList (it (set_union a b))) higher lowval
      | MERGE_INTERSECT \<Rightarrow>
          merge_sets (\<lambda>a b. let res = it (set_inter a b) in
                        if res = [] \<and> py_truth higher then higher else PList res) higher lowval)"

definition get_policy ::
  "(pyval list \<Rightarrow> pyval list) \<Rightarrow> 'w LayeredPolicyEngine \<Rightarrow> string \<Rightarrow> lp_error + pyval \<times> PolicySource" where
  "get_policy it lp key =
     (case (dict_get (lp_local lp) key, dict_get (lp_cloud lp) key) of
        (Some l, Some c) \<Rightarrow> map_sum id (\<lambda>v. (v, LOCAL)) (merge_values it (lp_config lp) key (pv_value l) (pv_value c))
      | (Some l, None) \<Rightarrow> Inr (pv_value l, LOCAL)
      | (None, Some c) \<Rightarrow> Inr (pv_value c, CLOUD)
      | (None, None) \<Rightarrow>
          (case dict_get (lp_manifest lp) key of
             Some m \<Rightarrow> Inr (pv_value m, MANIFEST)
           | None \<Rightarrow> (case dict_get (lp_defaults lp) key of
                       Some d \<Rightarrow> Inr (pv_value d, DEFAULT)
                     | None \<Rightarrow> Inr (PNone, DEFAULT))))"

definition all_keys :: "'w LayeredPolicyEngine \<Rightarrow> string list" where
  "all_keys lp = remdups (dict_keys (lp_defaults lp) @ dict_keys (lp_manifest lp) @
                          dict_keys (lp_cloud lp) @ dict_keys (lp_local lp))"

fun collect :: "(string \<Rightarrow> 'e + 'a) \<Rightarrow> (string, 'a) dict \<Rightarrow> string list \<Rightarrow> 'e + (string, 'a) dict" where
  "collect f res [] = Inr res"
| "collect f res (k # ks) = (case f k of Inl e \<Rightarrow> Inl e | Inr v \<Rightarrow> collect f (dict_set res k v) ks)"

definition get_effective_policy ::
  "(pyval list \<Rightarrow> pyval list) \<Rightarrow> (string list \<Rightarrow> string list) \<Rightarrow> 'w LayeredPolicyEngine \<Rightarrow>
   lp_error + (string, pyval) dict" where
  "get_effective_policy it itk lp = collect (\<lambda>k. map_sum id fst (get_policy it lp k)) [] (itk (all_keys lp))"

definition layer_dict :: "(string, PolicyValue) dict \<Rightarrow> string \<Rightarrow> pyval" where
  "layer_dict layer key = (case dict_get layer key of None \<Rightarrow> PNone | Some p \<Rightarrow> PDict (pv_to_dict p))"

definition get_policy_audit ::
  "(pyval list \<Rightarrow> pyval list) \<Rightarrow> 'w LayeredPolicyEngine \<Rightarrow> lp_error + (string, pyval) dict" where
  "get_policy_audit it lp =
     collect (\<lambda>k. map_sum id (\<lambda>(v, src). PDict
         [(''effective_value'', v), (''effective_source'', PStr (PolicySource_name src)),
          (''local'', layer_dict (lp_local lp) k), (''cloud'', layer_dict (lp_cloud lp) k),
          (''manifest'', layer_dict (lp_manifest lp) k), (''default'', layer_dict (lp_defaults lp) k)])
       (get_policy it lp k)) [] (sort (all_keys lp))"

definition get_conflicts :: "'w LayeredPolicyEngine \<Rightarrow> int \<Rightarrow> (string, pyval) dict list" where
  "get_conflicts lp limit = map pc_to_dict (slice_from (conflicts lp) (- limit))"

fun is_numeric :: "pyval \<Rightarrow> bool" where
  "is_numeric (PBool _) = True"
| "is_numeric (PInt _) = True"
| "is_numeric (PFloat _) = True"
| "is_numeric _ = False"

text \<open>The common start of the messages, with the key's quotation marks (character 39).\<close>

definition quoted_key :: "string" where
  "quoted_key = ''Key '' @ [CHR 0x27] @ ''{}'' @ [CHR 0x27]"

definition key_errors :: "'w LayeredPolicyEngine \<Rightarrow> PolicySource \<Rightarrow> string \<Rightarrow> pyval \<Rightarrow> pymsg list" where
  "key_errors lp source key v =
     (if source \<noteq> LOCAL \<and> key \<in> local_only_keys (lp_config lp)
      then [FStr (quoted_key @ '' can only be set locally'') [PStr key]] else []) @
     (if source \<noteq> LOCAL \<and> locked_key lp key
      then [FStr (quoted_key @ '' is locked by local policy'') [PStr key]] else []) @
     (if substring ''max_'' key \<or> substring ''min_'' key
      then if is_numeric v then [] else [FStr (quoted_key @ '' must be numeric, got {}'') [PStr key, PStr (type_name v)]] else []) @
     (if substring ''allowlist'' key \<or> substring ''allowed_'' key \<or> substring ''blocked_'' key
      then if elements v \<noteq> None then [] else [FStr (quoted_key @ '' must be a list, got {}'') [PStr key, PStr (type_name v)]] else [])"

definition validate_policy ::
  "'w LayeredPolicyEngine \<Rightarrow> (string, pyval) dict \<Rightarrow> PolicySource \<Rightarrow> bool \<times> pymsg list" where
  "validate_policy lp policy source =
     (let errors = concat (map (\<lambda>(k, v). key_errors lp source k v) policy) in (length errors = 0, errors))"

definition get_status :: "'w LayeredPolicyEngine \<Rightarrow> (string, pyval) dict" where
  "get_status lp =
     [(''local_policies'', PInt (int (length (lp_local lp)))),
      (''cloud_policies'', PInt (int (length (lp_cloud lp)))),
      (''manifest_policies'', PInt (int (length (lp_manifest lp)))),
      (''default_policies'', PInt (int (length (lp_defaults lp)))),
      (''locked_keys'', PList (map (\<lambda>(k, p). PStr k) (filter (\<lambda>(k, p). pv_locked p) (lp_local lp)))),
      (''recent_conflicts'', PInt (int (length (conflicts lp)))),
      (''audit_enabled'', PBool (audit_enabled (lp_config lp)))]"

subsection \<open>Calls and the invariant\<close>

datatype lp_call =
    Set_Local "(string, pyval) dict" "string set option" string clock
  | Set_Cloud "(string, pyval) dict" string clock
  | Set_Manifest "(string, pyval) dict" string clock
  | Lock string
  | Unlock string
  | Clear_Cloud
  | Clear_Manifest

fun lp_exec :: "'w LayeredPolicyEngine \<Rightarrow> lp_call \<Rightarrow> 'w LayeredPolicyEngine" where
  "lp_exec lp (Set_Local p lks rsn clk) = set_local_policy lp p lks rsn clk"
| "lp_exec lp (Set_Cloud p rsn clk) = snd (set_cloud_policy lp p rsn clk)"
| "lp_exec lp (Set_Manifest p rsn clk) = set_manifest_policy lp p rsn clk"
| "lp_exec lp (Lock k) = snd (lock_local_key lp k)"
| "lp_exec lp (Unlock k) = snd (unlock_local_key lp k)"
| "lp_exec lp Clear_Cloud = clear_cloud_policy lp"
| "lp_exec lp Clear_Manifest = clear_manifest_policy lp"

definition lp_started :: "'w LayeredPolicyEngine \<Rightarrow> bool" where
  "lp_started lp \<longleftrightarrow> (\<exists>c cb clk w. lp = init_LayeredPolicyEngine c cb clk w)"

definition layer_ok :: "PolicySource \<Rightarrow> (string, PolicyValue) dict \<Rightarrow> bool" where
  "layer_ok src layer \<longleftrightarrow> (\<forall>k p. dict_get layer k = Some p \<longrightarrow> pv_key p = k \<and> pv_source p = src)"

definition lp_ok :: "'w LayeredPolicyEngine \<Rightarrow> bool" where
  "lp_ok lp \<longleftrightarrow> layer_ok LOCAL (lp_local lp) \<and> layer_ok CLOUD (lp_cloud lp) \<and>
     layer_ok MANIFEST (lp_manifest lp) \<and> layer_ok DEFAULT (lp_defaults lp) \<and>
     (\<forall>k \<in> local_only_keys (lp_config lp). dict_get (lp_cloud lp) k = None) \<and>
     int (length (conflicts lp)) \<le> 1000"

interpretation cl: bounded_log "append_trim 1000" 1000
  by (rule append_trim_bounded_log) simp

lemma layer_ok_set: "layer_ok src layer \<Longrightarrow> pv_key p = k \<Longrightarrow> pv_source p = src \<Longrightarrow> layer_ok src (dict_set layer k p)"
  by (auto simp: layer_ok_def)

lemma layer_ok_empty [simp]: "layer_ok src []"
  by (simp add: layer_ok_def)

lemma set_layer_ok:
  assumes "\<And>k v. pv_key (mk k v) = k \<and> pv_source (mk k v) = src"
  shows "layer_ok src layer \<Longrightarrow> layer_ok src (set_layer mk layer ps)"
proof (induction ps arbitrary: layer)
  case (Cons kv ps)
  then show ?case using assms layer_ok_set by (cases kv) simp
qed simp

lemma mk_pv_fields [simp]: "pv_key (mk_pv clk k v src rsn b) = k" "pv_source (mk_pv clk k v src rsn b) = src"
  "pv_value (mk_pv clk k v src rsn b) = v" "pv_locked (mk_pv clk k v src rsn b) = b"
  by (simp_all add: mk_pv_def)

text \<open>A protected key is one the cloud may not set.\<close>

definition protected :: "'w LayeredPolicyEngine \<Rightarrow> string \<Rightarrow> bool" where
  "protected lp key \<longleftrightarrow> key \<in> local_only_keys (lp_config lp) \<or> locked_key lp key"

lemma log_conflict_frame:
  assumes "log_conflict lp c = (r, lp')"
  shows "lp_config lp' = lp_config lp \<and> lp_local lp' = lp_local lp \<and> lp_cloud lp' = lp_cloud lp \<and>
    lp_manifest lp' = lp_manifest lp \<and> lp_defaults lp' = lp_defaults lp \<and> on_conflict lp' = on_conflict lp \<and>
    conflicts lp' = append_trim 1000 (conflicts lp) c"
  using assms by (auto simp: log_conflict_def Let_def split: option.splits prod.splits bool.splits)

lemma lp_ok_log:
  assumes "lp_ok lp" and "log_conflict lp c = (r, lp')"
  shows "lp_ok lp'"
  using assms(1) log_conflict_frame [OF assms(2)] cl.push_length [of "conflicts lp" c] by (simp add: lp_ok_def)

lemma lp_ok_cloud:
  assumes "lp_ok lp" and "k \<notin> local_only_keys (lp_config lp)"
  shows "lp_ok (lp\<lparr>lp_cloud := dict_set (lp_cloud lp) k (mk_pv clk k v CLOUD rsn False)\<rparr>)"
  using assms by (auto simp: lp_ok_def intro: layer_ok_set)

lemma set_cloud_from_ok: "lp_ok lp \<Longrightarrow> lp_ok (snd (set_cloud_from lp n ps rsn clk))"
proof (induction lp n ps rsn clk rule: set_cloud_from.induct)
  case (1 lp rejected rsn clk)
  then show ?case by simp
next
  case (2 lp rejected key v ps rsn clk)
  show ?case
  proof (cases "key \<in> local_only_keys (lp_config lp) \<or> locked_key lp key")
    case True
    obtain r lp' where l: "log_conflict lp (cloud_conflict lp clk key v) = (r, lp')" by (cases "log_conflict lp (cloud_conflict lp clk key v)")
    have "lp_ok lp'" using lp_ok_log [OF "2.prems" l] .
    then show ?thesis using "2.IH"(1) [OF True l [symmetric]] True l by (cases r) auto
  next
    case False
    then show ?thesis using "2.IH"(2) [OF False] lp_ok_cloud [OF "2.prems"] by simp
  qed
qed

lemma set_lock_ok: "lp_ok lp \<Longrightarrow> lp_ok (set_lock lp k b)"
  by (auto simp: set_lock_def lp_ok_def layer_ok_def split: option.split)

lemma lp_exec_ok:
  assumes "lp_ok lp"
  shows "lp_ok (lp_exec lp c)"
proof (cases c)
  case (Set_Local p lks rsn clk)
  then show ?thesis using assms by (auto simp: set_local_policy_def lp_ok_def intro: set_layer_ok)
next
  case (Set_Cloud p rsn clk)
  then show ?thesis using assms by (simp add: set_cloud_policy_def set_cloud_from_ok)
next
  case (Set_Manifest p rsn clk)
  then show ?thesis using assms by (auto simp: set_manifest_policy_def lp_ok_def intro: set_layer_ok)
qed (use assms set_lock_ok in \<open>auto simp: lock_local_key_def unlock_local_key_def clear_cloud_policy_def
      clear_manifest_policy_def lp_ok_def\<close>)

lemma lp_started_ok: "lp_started lp \<Longrightarrow> lp_ok lp"
  by (auto simp: lp_started_def init_LayeredPolicyEngine_def lp_ok_def intro!: set_layer_ok)

interpretation lpe: step_system lp_started lp_exec lp_ok
  by unfold_locales (simp_all only: lp_exec_ok lp_started_ok)

subsection \<open>What a cloud update does\<close>

lemma log_quiet:
  "on_conflict lp = None \<Longrightarrow> log_conflict lp c = (Inr (), lp\<lparr>conflicts := append_trim 1000 (conflicts lp) c\<rparr>)"
  by (simp add: log_conflict_def Let_def)

lemma protected_frame [simp]:
  "protected (lp\<lparr>conflicts := cs\<rparr>) = protected lp" "protected (lp\<lparr>lp_cloud := cl\<rparr>) = protected lp"
  "cloud_conflict (lp\<lparr>conflicts := cs\<rparr>) = cloud_conflict lp" "cloud_conflict (lp\<lparr>lp_cloud := cl\<rparr>) = cloud_conflict lp"
  by (auto simp: protected_def locked_key_def cloud_conflict_def fun_eq_iff)

definition accepted :: "'w LayeredPolicyEngine \<Rightarrow> (string, pyval) dict \<Rightarrow> (string, pyval) dict" where
  "accepted lp ps = filter (\<lambda>kv. \<not> protected lp (fst kv)) ps"

definition refused :: "'w LayeredPolicyEngine \<Rightarrow> (string, pyval) dict \<Rightarrow> (string, pyval) dict" where
  "refused lp ps = filter (\<lambda>kv. protected lp (fst kv)) ps"

lemma set_cloud_from_eq:
  assumes "on_conflict lp = None"
  shows "set_cloud_from lp n ps rsn clk =
    (Inr (n + int (length (refused lp ps))),
     lp\<lparr>lp_cloud := set_layer (\<lambda>k v. mk_pv clk k v CLOUD rsn False) (lp_cloud lp) (accepted lp ps),
        conflicts := foldl (append_trim 1000) (conflicts lp) (map (\<lambda>(k, v). cloud_conflict lp clk k v) (refused lp ps))\<rparr>)"
  using assms
proof (induction ps arbitrary: lp n)
  case Nil
  then show ?case by (simp add: refused_def accepted_def)
next
  case (Cons kv ps)
  obtain k v where kv: "kv = (k, v)" by (cases kv)
  show ?case
  proof (cases "protected lp k")
    case True
    let ?lp = "lp\<lparr>conflicts := append_trim 1000 (conflicts lp) (cloud_conflict lp clk k v)\<rparr>"
    have "set_cloud_from lp n (kv # ps) rsn clk = set_cloud_from ?lp (n + 1) ps rsn clk"
      using True kv Cons.prems by (simp add: protected_def log_quiet)
    then show ?thesis using True kv Cons by (simp add: refused_def accepted_def)
  next
    case False
    let ?lp = "lp\<lparr>lp_cloud := dict_set (lp_cloud lp) k (mk_pv clk k v CLOUD rsn False)\<rparr>"
    have "set_cloud_from lp n (kv # ps) rsn clk = set_cloud_from ?lp n ps rsn clk"
      using False kv by (simp add: protected_def)
    then show ?thesis using False kv Cons by (simp add: refused_def accepted_def)
  qed
qed

lemma set_layer_get:
  "dict_ok ps \<Longrightarrow> dict_get (set_layer mk layer ps) k =
     (case dict_get ps k of Some v \<Rightarrow> Some (mk k v) | None \<Rightarrow> dict_get layer k)"
proof (induction mk layer ps rule: set_layer.induct)
  case (1 mk layer)
  then show ?case by simp
next
  case (2 mk layer key v ps)
  have "dict_ok ps" "dict_get ps key = None"
    using "2.prems" by (simp_all add: dict_ok_def map_of_eq_None_iff)
  then show ?case using "2.IH" by (cases "k = key"; cases "dict_get ps k") simp_all
qed

subsection \<open>What a merge does\<close>

lemma to_set_acc_subset: "set (to_set_acc acc xs) \<subseteq> set acc \<union> set xs"
proof (induction acc xs rule: to_set_acc.induct)
  case (2 acc x xs)
  then show ?case by auto
qed simp

lemma to_set_acc_keeps: "set acc \<subseteq> set (to_set_acc acc xs)"
proof (induction acc xs rule: to_set_acc.induct)
  case (2 acc x xs)
  then show ?case by (auto split: if_splits)
qed simp

lemma py_in_mono: "py_in x ys \<Longrightarrow> set ys \<subseteq> set zs \<Longrightarrow> py_in x zs"
  by (auto simp: py_in_def list_ex_iff)

lemma to_set_acc_covers: "x \<in> set xs \<Longrightarrow> x \<in> set (to_set_acc acc xs) \<or> py_in x (to_set_acc acc xs)"
proof (induction acc xs rule: to_set_acc.induct)
  case (2 acc y xs)
  show ?case
  proof (cases "x = y")
    case True
    then show ?thesis using to_set_acc_keeps [of "if py_in y acc then acc else acc @ [y]" xs]
      by (auto dest: py_in_mono split: if_splits)
  next
    case False
    then show ?thesis using 2 by simp
  qed
qed simp

lemma set_inter_subset: "y \<in> set (set_inter a b) \<Longrightarrow> y \<in> set a \<or> py_in y a"
  by (auto simp: set_inter_def split: if_splits)

lemma merge_min_tightens:
  assumes "or_higher l (py_min l c) = Inr v" and "num_of l = Some a" and "a \<noteq> NaN"
  shows "\<exists>b. num_of v = Some b \<and> \<not> num_lt a b"
proof (cases "num_of c")
  case None
  then have "py_lt c l = Inl TypeError"
    using assms(2) by (cases c; cases l; simp add: py_lt.simps)
  then have "v = l" using assms(1) by (simp add: or_higher_def py_min_def)
  then show ?thesis using assms(2,3) by (cases a) auto
next
  case (Some b)
  have "v = (if num_lt b a then c else l)"
    using assms(1) Some assms(2)
    by (auto simp: py_min_def py_lt.simps [of c l] or_higher_def split: if_splits)
  then show ?thesis
    using Some assms(2,3) by (cases a; cases b) auto
qed

lemma merge_inter_tightens:
  assumes "merge_sets (\<lambda>a b. let res = it (set_inter a b) in if res = [] \<and> py_truth l then l else PList res) l c = Inr v"
    and "elements l = Some xs" and "\<And>zs. mset (it zs) = mset zs"
  shows "\<exists>ys. elements v = Some ys \<and> (\<forall>y \<in> set ys. y \<in> set xs \<or> py_in y xs)"
proof -
  have it: "set (it zs) = set zs" for zs using assms(3) by (metis set_mset_mset)
  consider "v = l" | a b where "a = to_set_acc [] xs" "v = PList (it (set_inter a b))"
    using assms(1,2) by (auto simp: merge_sets_def to_set_def Let_def split: option.splits if_splits)
  then show ?thesis
  proof cases
    case 1
    then show ?thesis using assms(2) by auto
  next
    case 2
    have "set a \<subseteq> set xs" using to_set_acc_subset [of "[]" xs] 2(1) by simp
    then have "\<forall>y \<in> set (it (set_inter a b)). y \<in> set xs \<or> py_in y xs"
      using set_inter_subset py_in_mono by (fastforce simp: it)
    then show ?thesis using 2 by simp
  qed
qed

lemma merge_union_tightens:
  assumes "merge_sets (\<lambda>a b. PList (it (set_union a b))) l c = Inr v"
    and "elements l = Some xs" and "\<And>zs. mset (it zs) = mset zs"
  shows "\<exists>ys. elements v = Some ys \<and> (\<forall>x \<in> set xs. x \<in> set ys \<or> py_in x ys)"
proof -
  have it: "set (it zs) = set zs" for zs using assms(3) by (metis set_mset_mset)
  consider "v = l" | a b where "a = to_set_acc [] xs" "v = PList (it (set_union a b))"
    using assms(1,2) by (auto simp: merge_sets_def to_set_def split: option.splits if_splits)
  then show ?thesis
  proof cases
    case 1
    then show ?thesis using assms(2) by auto
  next
    case 2
    have "set a \<subseteq> set (it (set_union a b))" using to_set_acc_keeps [of a b] by (simp add: it set_union_def)
    then have "\<forall>x \<in> set xs. x \<in> set (it (set_union a b)) \<or> py_in x (it (set_union a b))"
      using to_set_acc_covers [of _ xs "[]"] 2(1) py_in_mono by blast
    then show ?thesis using 2 by simp
  qed
qed

subsection \<open>Properties\<close>

text \<open>
  C12: the cloud only tightens.  When the local and the cloud layer both hold a key, the effective
  value is never looser than the local one: a numeric limit merged by minimum does not exceed the
  local limit, an intersected allowlist holds nothing the local list lacks, a united blocklist loses
  nothing the local list has, and a key without a strategy has exactly the local value.
\<close>

theorem cloud_only_tightens:
  assumes "dict_get (lp_local lp) key = Some l" and "dict_get (lp_cloud lp) key = Some c"
    and "get_policy it lp key = Inr (v, src)" and "\<And>zs. mset (it zs) = mset zs"
  shows "src = LOCAL \<and>
    (case get_merge_strategy (lp_config lp) key of
       MERGE_MIN \<Rightarrow> \<forall>a. num_of (pv_value l) = Some a \<and> a \<noteq> NaN \<longrightarrow> (\<exists>b. num_of v = Some b \<and> \<not> num_lt a b)
     | MERGE_INTERSECT \<Rightarrow> \<forall>xs. elements (pv_value l) = Some xs \<longrightarrow>
         (\<exists>ys. elements v = Some ys \<and> (\<forall>y \<in> set ys. y \<in> set xs \<or> py_in y xs))
     | MERGE_UNION \<Rightarrow> \<forall>xs. elements (pv_value l) = Some xs \<longrightarrow>
         (\<exists>ys. elements v = Some ys \<and> (\<forall>x \<in> set xs. x \<in> set ys \<or> py_in x ys))
     | MERGE_REPLACE \<Rightarrow> v = pv_value l
     | MERGE_MAX \<Rightarrow> True)"
proof -
  have m: "merge_values it (lp_config lp) key (pv_value l) (pv_value c) = Inr v" and src: "src = LOCAL"
    using assms(1-3) by (cases "merge_values it (lp_config lp) key (pv_value l) (pv_value c)"; simp add: get_policy_def)+
  show ?thesis
  proof (cases "get_merge_strategy (lp_config lp) key")
    case MERGE_MIN
    then show ?thesis using m src merge_min_tightens by (auto simp: merge_values_def)
  next
    case MERGE_UNION
    then show ?thesis using m src merge_union_tightens [OF _ _ assms(4)] by (simp add: merge_values_def)
  next
    case MERGE_INTERSECT
    then show ?thesis using m src merge_inter_tightens [OF _ _ assms(4)] by (simp add: merge_values_def)
  qed (use m src in \<open>simp_all add: merge_values_def\<close>)
qed

definition sample_engine :: "unit LayeredPolicyEngine" where
  "sample_engine = foldl lp_exec (init_LayeredPolicyEngine default_policy_config None (\<lambda>_. 0) ())
     [Set_Local [(''max_position'', PInt 100), (''allowed_symbols'', PList [PStr ''BTC''])] None ''l'' (\<lambda>_. 1),
      Set_Cloud [(''max_position'', PInt 500), (''vault_master_key'', PStr ''x'')] ''c'' (\<lambda>_. 2)]"

lemma sample_layers:
  "dict_get (lp_local sample_engine) ''max_position'' = Some (mk_pv (\<lambda>_. 1) ''max_position'' (PInt 100) LOCAL ''l'' False)"
  "dict_get (lp_cloud sample_engine) ''max_position'' = Some (mk_pv (\<lambda>_. 2) ''max_position'' (PInt 500) CLOUD ''c'' False)"
  "lp_config sample_engine = default_policy_config" "dict_get (lp_local sample_engine) ''vault_master_key'' = None"
  "dict_get (lp_manifest sample_engine) ''vault_master_key'' = None"
  "dict_get (lp_defaults sample_engine) ''vault_master_key'' = None"
  by (simp_all add: sample_engine_def set_local_policy_def set_cloud_policy_def init_LayeredPolicyEngine_def
      default_policy_config_def locked_key_def mk_pv_def log_conflict_def Let_def system_defaults_def)

lemma sample_strategy: "get_merge_strategy default_policy_config ''max_position'' = MERGE_MIN"
  by (simp add: get_merge_strategy_def default_policy_config_def DEFAULT_MERGE_STRATEGIES_def)

lemma sample_policy: "get_policy (\<lambda>zs. zs) sample_engine ''max_position'' = Inr (PInt 100, LOCAL)"
  by (simp add: get_policy_def sample_layers merge_values_def sample_strategy py_min_def py_lt.simps or_higher_def)

theorem cloud_only_tightens_witness:
  "\<exists>b. num_of (PInt 100) = Some b \<and> \<not> num_lt (Fin 100) b"
  using cloud_only_tightens [OF sample_layers(1,2) sample_policy] by (simp add: sample_layers sample_strategy)

text \<open>
  Local-only keys.  Whatever policies are set, locked, unlocked or cleared, the effective value
  of a local-only key is the local one, else the manifest's, else the default; the cloud is never its
  source and never part of it.
\<close>

theorem local_only_keys_ignore_cloud:
  assumes "lp_started lp0" and "lp = foldl lp_exec lp0 calls" and "key \<in> local_only_keys (lp_config lp)"
  shows "dict_get (lp_cloud lp) key = None \<and>
    get_policy it lp key =
      (case dict_get (lp_local lp) key of Some l \<Rightarrow> Inr (pv_value l, LOCAL)
       | None \<Rightarrow> (case dict_get (lp_manifest lp) key of Some m \<Rightarrow> Inr (pv_value m, MANIFEST)
       | None \<Rightarrow> (case dict_get (lp_defaults lp) key of Some d \<Rightarrow> Inr (pv_value d, DEFAULT)
       | None \<Rightarrow> Inr (PNone, DEFAULT))))"
proof -
  have "lp_ok lp" unfolding assms(2) by (rule lpe.inv_reachable [OF assms(1)])
  then have "dict_get (lp_cloud lp) key = None" using assms(3) by (simp add: lp_ok_def)
  then show ?thesis by (simp add: get_policy_def split: option.split)
qed

lemma sample_engine_started: "lp_started (init_LayeredPolicyEngine default_policy_config None (\<lambda>_. 0) () :: unit LayeredPolicyEngine)"
  unfolding lp_started_def by blast

theorem local_only_keys_ignore_cloud_witness:
  "get_policy (\<lambda>zs. zs) sample_engine ''vault_master_key'' = Inr (PNone, DEFAULT)"
  using local_only_keys_ignore_cloud [OF sample_engine_started, of sample_engine _ "''vault_master_key''" "\<lambda>zs. zs",
      OF sample_engine_def]
  by (simp add: sample_layers) (simp add: default_policy_config_def)

text \<open>
  A cloud update.  Without a callback it never raises; it takes exactly the keys that are neither
  local-only nor locked, reports the number of the others and logs one conflict for each of them, in
  order; every other layer stays as it is.
\<close>

theorem cloud_update_takes_unprotected_keys:
  assumes "on_conflict lp = None" and "dict_ok ps"
  shows "\<exists>lp'. set_cloud_policy lp ps rsn clk = (Inr (int (length (refused lp ps))), lp') \<and>
    (\<forall>k. dict_get (lp_cloud lp') k =
       (if protected lp k \<or> dict_get ps k = None then dict_get (lp_cloud lp) k
        else Some (mk_pv clk k (the (dict_get ps k)) CLOUD rsn False))) \<and>
    conflicts lp' = foldl (append_trim 1000) (conflicts lp) (map (\<lambda>(k, v). cloud_conflict lp clk k v) (refused lp ps)) \<and>
    lp_local lp' = lp_local lp \<and> lp_manifest lp' = lp_manifest lp \<and> lp_defaults lp' = lp_defaults lp"
proof -
  have "distinct (map fst (filter (\<lambda>kv. \<not> protected lp (fst kv)) ps))"
    using assms(2) unfolding dict_ok_def by (rule distinct_map_filter)
  then have ok: "dict_ok (accepted lp ps)" by (simp add: dict_ok_def accepted_def)
  have "dict_get (accepted lp ps) k = (if protected lp k then None else dict_get ps k)" for k
    unfolding accepted_def by (induction ps) auto
  then show ?thesis
    by (auto simp: set_cloud_policy_def set_cloud_from_eq [OF assms(1)] set_layer_get [OF ok] split: option.splits)
qed

theorem cloud_update_takes_unprotected_keys_witness:
  "fst (set_cloud_policy (init_LayeredPolicyEngine default_policy_config None (\<lambda>_. 0) () :: unit LayeredPolicyEngine)
     [(''vault_master_key'', PStr ''x''), (''max_position'', PInt 1)] ''c'' (\<lambda>_. 2)) = Inr 1"
  using cloud_update_takes_unprotected_keys
    [of "init_LayeredPolicyEngine default_policy_config None (\<lambda>_. 0) () :: unit LayeredPolicyEngine"
      "[(''vault_master_key'', PStr ''x''), (''max_position'', PInt 1)]" "''c''" "\<lambda>_. 2"]
  by (auto simp: init_LayeredPolicyEngine_def dict_ok_def refused_def protected_def locked_key_def default_policy_config_def)

text \<open>
  Precedence.  In every reachable state a key that is not set both locally and by the cloud has
  the value and the source found by reading the four layers as one map in which local overrides
  cloud, cloud overrides the manifest and the manifest overrides the defaults.
\<close>

theorem layers_resolve_by_precedence:
  assumes "lp_started lp0" and "lp = foldl lp_exec lp0 calls"
    and "dict_get (lp_local lp) key = None \<or> dict_get (lp_cloud lp) key = None"
  shows "get_policy it lp key =
    (case (dict_get (lp_defaults lp) ++ dict_get (lp_manifest lp) ++ dict_get (lp_cloud lp) ++ dict_get (lp_local lp)) key of
       None \<Rightarrow> Inr (PNone, DEFAULT)
     | Some p \<Rightarrow> Inr (pv_value p, pv_source p))"
proof -
  have "lp_ok lp" unfolding assms(2) by (rule lpe.inv_reachable [OF assms(1)])
  then have "layer_ok LOCAL (lp_local lp)" "layer_ok CLOUD (lp_cloud lp)" "layer_ok MANIFEST (lp_manifest lp)"
    "layer_ok DEFAULT (lp_defaults lp)"
    by (simp_all add: lp_ok_def)
  then show ?thesis using assms(3)
    by (auto simp: get_policy_def map_add_def layer_ok_def split: option.splits)
qed

theorem layers_resolve_by_precedence_witness:
  "get_policy (\<lambda>zs. zs) sample_engine ''timeout_seconds'' = Inr (PInt 30, DEFAULT)"
proof -
  have "dict_get (lp_local sample_engine) ''timeout_seconds'' = None" "dict_get (lp_cloud sample_engine) ''timeout_seconds'' = None"
    "dict_get (lp_manifest sample_engine) ''timeout_seconds'' = None"
    "dict_get (lp_defaults sample_engine) ''timeout_seconds'' = Some (mk_pv (\<lambda>_. 0) ''timeout_seconds'' (PInt 30) DEFAULT ''System default'' False)"
    by (simp_all add: sample_engine_def set_local_policy_def set_cloud_policy_def init_LayeredPolicyEngine_def
      default_policy_config_def locked_key_def mk_pv_def log_conflict_def Let_def system_defaults_def)
  then show ?thesis
    using layers_resolve_by_precedence [OF sample_engine_started sample_engine_def, of "''timeout_seconds''" "\<lambda>zs. zs"]
    by (simp add: map_add_def mk_pv_def)
qed

lemma collect_get:
  "collect f res ks = Inr d \<Longrightarrow>
   dict_get d k = (if k \<in> set ks then (case f k of Inr v \<Rightarrow> Some v | Inl _ \<Rightarrow> None) else dict_get res k)"
proof (induction f res ks rule: collect.induct)
  case (2 f res x ks)
  then show ?case by (auto split: sum.splits if_splits)
qed auto

lemma collect_total:
  "(\<forall>k \<in> set ks. \<exists>v. f k = Inr v) \<Longrightarrow> \<exists>d. collect f res ks = Inr d"
  by (induction f res ks rule: collect.induct) (auto split: sum.splits)

lemma collect_failed: "collect f res ks = Inr d \<Longrightarrow> k \<in> set ks \<Longrightarrow> \<exists>v. f k = Inr v"
  by (induction f res ks rule: collect.induct) (auto split: sum.splits)

text \<open>
  The effective policy is the pointwise one.  If it is computed at all, it holds exactly the keys
  of the four layers, each with the value \<open>get_policy\<close> gives, whatever the iteration order.
\<close>

theorem effective_policy_pointwise:
  assumes "\<And>ks. mset (itk ks) = mset ks"
  shows "(\<forall>d. get_effective_policy it itk lp = Inr d \<longrightarrow>
      (\<forall>k v. dict_get d k = Some v \<longleftrightarrow> k \<in> set (all_keys lp) \<and> (\<exists>src. get_policy it lp k = Inr (v, src)))) \<and>
    ((\<exists>d. get_effective_policy it itk lp = Inr d) \<longleftrightarrow> (\<forall>k \<in> set (all_keys lp). \<exists>r. get_policy it lp k = Inr r))"
proof -
  let ?f = "\<lambda>k. map_sum id fst (get_policy it lp k)"
  have s: "set (itk ks) = set ks" for ks using assms by (metis set_mset_mset)
  have f: "(\<exists>v. ?f k = Inr v) \<longleftrightarrow> (\<exists>r. get_policy it lp k = Inr r)" for k
    by (cases "get_policy it lp k") auto
  have get: "dict_get d k = Some v \<longleftrightarrow> k \<in> set (all_keys lp) \<and> (\<exists>src. get_policy it lp k = Inr (v, src))"
    if "get_effective_policy it itk lp = Inr d" for d k v
    using collect_get [of ?f "[]" "itk (all_keys lp)" d k] that
    by (cases "get_policy it lp k") (auto simp: get_effective_policy_def s)
  have "(\<exists>d. get_effective_policy it itk lp = Inr d) \<longleftrightarrow> (\<forall>k \<in> set (all_keys lp). \<exists>r. get_policy it lp k = Inr r)"
    using collect_total [of "itk (all_keys lp)" ?f "[]"] collect_failed [of ?f "[]" "itk (all_keys lp)"] f
    unfolding get_effective_policy_def s by blast
  with get show ?thesis by blast
qed

theorem effective_policy_pointwise_witness:
  "\<exists>d. get_effective_policy (\<lambda>zs. zs) (\<lambda>ks. ks)
     (init_LayeredPolicyEngine default_policy_config None (\<lambda>_. 0) () :: unit LayeredPolicyEngine) = Inr d"
proof -
  let ?lp = "init_LayeredPolicyEngine default_policy_config None (\<lambda>_. 0) () :: unit LayeredPolicyEngine"
  have "\<forall>k \<in> set (all_keys ?lp). \<exists>r. get_policy (\<lambda>zs. zs) ?lp k = Inr r"
    by (auto simp: get_policy_def init_LayeredPolicyEngine_def split: option.split)
  then show ?thesis using effective_policy_pointwise [of "\<lambda>ks. ks" "\<lambda>zs. zs" ?lp] by blast
qed

text \<open>
  A lock does not remove what the cloud set before it: the value of a key that is locked afterwards
  is still merged with the cloud's.
\<close>

lemma lock_keeps_earlier_cloud_value:
  "get_policy (\<lambda>zs. zs) (snd (lock_local_key
      (foldl lp_exec (init_LayeredPolicyEngine default_policy_config None (\<lambda>_. 0) ())
        [Set_Local [(''max_position'', PInt 100)] None ''l'' (\<lambda>_. 1), Set_Cloud [(''max_position'', PInt 7)] ''c'' (\<lambda>_. 2)])
      ''max_position'')) ''max_position'' = Inr (PInt 7, LOCAL)"
  by (simp add: set_local_policy_def set_cloud_policy_def init_LayeredPolicyEngine_def lock_local_key_def set_lock_def
      locked_key_def mk_pv_def get_policy_def merge_values_def py_min_def py_lt.simps or_higher_def
      get_merge_strategy_def default_policy_config_def DEFAULT_MERGE_STRATEGIES_def)

end
