(* ===== verification/Approval_Manager.thy ===== *)
theory Approval_Manager
  imports Hash_Chain "HOL-Library.Monad_Syntax"
begin

section \<open>The local approval workflow\<close>

text \<open>
  Model of \<^verbatim>\<open>packages/agent/approval/manager.py\<close> with the parts it uses of
  \<^verbatim>\<open>persistence.py\<close> (the pending and history files), of \<^verbatim>\<open>evidence.py\<close> (the
  evidence hash) and of \<^verbatim>\<open>packages/shared/contracts/config.py\<close> (the change classes).

  A request object is held by the dictionary of pending requests or by the history, never by both,
  so requests are values.  Random identifiers, the readings of the clock and the answers of the
  file system are arguments; the readings one call makes for a request are a function of their
  number.  The approval callback acts on a world and may raise.  The metric calls are the trace
  \<open>am_metrics\<close>.  Field types a JSON file leaves unchecked are \<open>pyval\<close>.  Request ids are the
  texts of UUIDs, the pending files are those the manager wrote, listed in the order of writing.
\<close>

subsection \<open>Requests\<close>

datatype ChangeClass = TRADING_IMPACTING | OPERATIONAL | INFORMATIONAL | DATA_SENSITIVE | SAFETY_OPERATION

fun ChangeClass_value :: "ChangeClass \<Rightarrow> string" where
  "ChangeClass_value TRADING_IMPACTING = ''trading_impacting''"
| "ChangeClass_value OPERATIONAL = ''operational''"
| "ChangeClass_value INFORMATIONAL = ''informational''"
| "ChangeClass_value DATA_SENSITIVE = ''data_sensitive''"
| "ChangeClass_value SAFETY_OPERATION = ''safety_operation''"

definition all_change_classes :: "ChangeClass list" where
  "all_change_classes = [TRADING_IMPACTING, OPERATIONAL, INFORMATIONAL, DATA_SENSITIVE, SAFETY_OPERATION]"

text \<open>\<^verbatim>\<open>ChangeClass.requires_local_approval\<close>\<close>

definition requires_local_approval :: "ChangeClass \<Rightarrow> bool" where
  "requires_local_approval cc = (cc = TRADING_IMPACTING \<or> cc = DATA_SENSITIVE)"

datatype ApprovalStatus = PENDING | APPROVED | DENIED | EXPIRED | CANCELLED

fun ApprovalStatus_value :: "ApprovalStatus \<Rightarrow> string" where
  "ApprovalStatus_value PENDING = ''pending''"
| "ApprovalStatus_value APPROVED = ''approved''"
| "ApprovalStatus_value DENIED = ''denied''"
| "ApprovalStatus_value EXPIRED = ''expired''"
| "ApprovalStatus_value CANCELLED = ''cancelled''"

definition all_statuses :: "ApprovalStatus list" where
  "all_statuses = [PENDING, APPROVED, DENIED, EXPIRED, CANCELLED]"

text \<open>Enum lookup by value; \<open>None\<close> is the \<^verbatim>\<open>ValueError\<close>.\<close>

definition enum_by_value :: "('a \<Rightarrow> string) \<Rightarrow> 'a list \<Rightarrow> pyval \<Rightarrow> 'a option" where
  "enum_by_value f xs v = find (\<lambda>x. PStr (f x) = v) xs"

record ApprovalRequest =
  request_id :: string
  change_class :: ChangeClass
  command_type :: pyval
  description :: pyval
  details :: pyval
  config_digest_old :: pyval
  config_digest_new :: pyval
  artifact_digest :: pyval
  diff_summary :: pyval
  status :: ApprovalStatus
  created_at :: time
  expires_at :: "time option"
  decided_at :: "time option"
  evidence_hash :: pyval
  decision_reason :: pyval

definition is_expired :: "ApprovalRequest \<Rightarrow> time \<Rightarrow> bool" where
  "is_expired r now = (case expires_at r of None \<Rightarrow> False | Some t \<Rightarrow> now > t)"

definition iso_opt :: "time option \<Rightarrow> pyval" where
  "iso_opt t = (case t of None \<Rightarrow> PNone | Some x \<Rightarrow> PIso x)"

definition str_opt :: "string option \<Rightarrow> pyval" where
  "str_opt s = (case s of None \<Rightarrow> PNone | Some x \<Rightarrow> PStr x)"

text \<open>\<open>now\<close> is the reading of the clock the \<^verbatim>\<open>is_expired\<close> entry makes.\<close>

definition request_to_dict :: "ApprovalRequest \<Rightarrow> time \<Rightarrow> (string, pyval) dict" where
  "request_to_dict r now =
     [(''request_id'', PStr (request_id r)), (''change_class'', PStr (ChangeClass_value (change_class r))),
      (''command_type'', command_type r), (''description'', description r), (''details'', details r),
      (''config_digest_old'', config_digest_old r), (''config_digest_new'', config_digest_new r),
      (''artifact_digest'', artifact_digest r), (''diff_summary'', diff_summary r),
      (''status'', PStr (ApprovalStatus_value (status r))), (''created_at'', PIso (created_at r)),
      (''expires_at'', iso_opt (expires_at r)), (''decided_at'', iso_opt (decided_at r)),
      (''evidence_hash'', evidence_hash r), (''decision_reason'', decision_reason r),
      (''is_expired'', PBool (is_expired r now))]"

subsection \<open>Persistence\<close>

text \<open>What \<^verbatim>\<open>json.dump(default=str)\<close> followed by \<^verbatim>\<open>json.load\<close> makes of a value.\<close>

fun json_norm :: "pyval \<Rightarrow> pyval" where
  "json_norm (PDecimal d) = PStrOf (PDecimal d)"
| "json_norm (PSet vs) = PStrOf (PSet vs)"
| "json_norm (PList vs) = PList (map json_norm vs)"
| "json_norm (PDict kvs) = PDict (map (\<lambda>kv. (fst kv, json_norm (snd kv))) kvs)"
| "json_norm v = v"

record ApprovalPersistence =
  pending_files :: "(string, (string, pyval) dict) dict"
  history_files :: "(string, (string, pyval) dict) dict"

definition file_content :: "(string, pyval) dict \<Rightarrow> (string, pyval) dict" where
  "file_content data = map (\<lambda>kv. (fst kv, json_norm (snd kv))) data"

definition save_pending :: "ApprovalPersistence \<Rightarrow> string \<Rightarrow> (string, pyval) dict \<Rightarrow> bool \<Rightarrow> ApprovalPersistence" where
  "save_pending p rid data io =
     (if io then p\<lparr>pending_files := dict_set (pending_files p) rid (file_content data)\<rparr> else p)"

text \<open>The history file is written first, then the pending file is removed.\<close>

definition save_history :: "ApprovalPersistence \<Rightarrow> string \<Rightarrow> (string, pyval) dict \<Rightarrow> bool \<Rightarrow> ApprovalPersistence" where
  "save_history p rid data io =
     (if io then p\<lparr>history_files := dict_set (history_files p) rid (file_content data),
                   pending_files := dict_del (pending_files p) rid\<rparr>
      else p)"

definition load_all_pending :: "ApprovalPersistence \<Rightarrow> (string, pyval) dict list" where
  "load_all_pending p = dict_values (pending_files p)"

subsection \<open>Manager\<close>

datatype metric =
    Auto_approved string ChangeClass
  | Request_created string ChangeClass
  | Decision pyval string string int
  | Expired_metric pyval
  | Pending_count nat

record 'w ApprovalManager =
  auto_approve_operational :: bool
  timeout_seconds :: int
  on_approval_requested :: "('w \<Rightarrow> ApprovalRequest \<Rightarrow> bool \<times> 'w) option"
  persistence :: "ApprovalPersistence option"
  requests :: "(string, ApprovalRequest) dict"
  am_history :: "ApprovalRequest list"
  auto_approve_commands :: "string set"
  am_metrics :: "metric list"
  am_world :: 'w

datatype am_error = Callback_raised

definition get_default :: "(string, pyval) dict \<Rightarrow> string \<Rightarrow> pyval \<Rightarrow> pyval" where
  "get_default d k v = (case dict_get d k of None \<Rightarrow> v | Some x \<Rightarrow> x)"

text \<open>The text of a timestamp is a \<open>PIso\<close>; anything else is a \<^verbatim>\<open>ValueError\<close>.\<close>

definition from_iso :: "pyval \<Rightarrow> time option" where
  "from_iso v = (case v of PIso t \<Rightarrow> Some t | _ \<Rightarrow> None)"

definition opt_time :: "pyval \<Rightarrow> time option option" where
  "opt_time v = (if py_truth v then map_option Some (from_iso v) else Some None)"

text \<open>
  One persisted record; \<open>None\<close> is a \<^verbatim>\<open>KeyError\<close> or \<^verbatim>\<open>ValueError\<close>, after which the
  record is skipped.  \<open>now\<close> is the clock for a record without a creation time.
\<close>

definition request_from_data :: "(string, pyval) dict \<Rightarrow> time \<Rightarrow> ApprovalRequest option" where
  "request_from_data data now = do {
     rid \<leftarrow> (case dict_get data ''request_id'' of Some (PStr s) \<Rightarrow> Some s | _ \<Rightarrow> None);
     cc \<leftarrow> enum_by_value ChangeClass_value all_change_classes (get_default data ''change_class'' (PStr ''TRADING_IMPACTING''));
     st \<leftarrow> enum_by_value ApprovalStatus_value all_statuses (get_default data ''status'' (PStr ''pending''));
     created \<leftarrow> (let v = get_default data ''created_at'' PNone in if py_truth v then from_iso v else Some now);
     expires \<leftarrow> opt_time (get_default data ''expires_at'' PNone);
     decided \<leftarrow> opt_time (get_default data ''decided_at'' PNone);
     Some \<lparr>request_id = rid, change_class = cc, command_type = get_default data ''command_type'' (PStr []),
           description = get_default data ''description'' (PStr []), details = get_default data ''details'' (PDict []),
           config_digest_old = get_default data ''config_digest_old'' PNone,
           config_digest_new = get_default data ''config_digest_new'' PNone,
           artifact_digest = get_default data ''artifact_digest'' PNone,
           diff_summary = get_default data ''diff_summary'' PNone, status = st, created_at = created,
           expires_at = expires, decided_at = decided,
           evidence_hash = get_default data ''evidence_hash'' PNone,
           decision_reason = get_default data ''decision_reason'' PNone\<rparr>
   }"

fun load_requests ::
  "(string, ApprovalRequest) dict \<Rightarrow> (string, pyval) dict list \<Rightarrow> time \<Rightarrow> (string, ApprovalRequest) dict" where
  "load_requests rs [] now = rs"
| "load_requests rs (data # ds) now =
     (case request_from_data data now of
        None \<Rightarrow> load_requests rs ds now
      | Some r \<Rightarrow> load_requests (dict_set rs (request_id r) r) ds now)"

definition init_ApprovalManager ::
  "bool \<Rightarrow> int \<Rightarrow> ('w \<Rightarrow> ApprovalRequest \<Rightarrow> bool \<times> 'w) option \<Rightarrow> ApprovalPersistence option \<Rightarrow> time \<Rightarrow> 'w \<Rightarrow>
   'w ApprovalManager" where
  "init_ApprovalManager auto timeout cb p now w =
     \<lparr>auto_approve_operational = auto, timeout_seconds = timeout, on_approval_requested = cb, persistence = p,
      requests = (case p of None \<Rightarrow> [] | Some fs \<Rightarrow> load_requests [] (load_all_pending fs) now),
      am_history = [], auto_approve_commands = {}, am_metrics = [], am_world = w\<rparr>"

definition persist_pending :: "'w ApprovalManager \<Rightarrow> ApprovalRequest \<Rightarrow> time \<Rightarrow> bool \<Rightarrow> 'w ApprovalManager" where
  "persist_pending am r now io =
     am\<lparr>persistence := map_option (\<lambda>p. save_pending p (request_id r) (request_to_dict r now) io) (persistence am)\<rparr>"

definition persist_history :: "'w ApprovalManager \<Rightarrow> ApprovalRequest \<Rightarrow> time \<Rightarrow> bool \<Rightarrow> 'w ApprovalManager" where
  "persist_history am r now io =
     am\<lparr>persistence := map_option (\<lambda>p. save_history p (request_id r) (request_to_dict r now) io) (persistence am)\<rparr>"

definition emit :: "'w ApprovalManager \<Rightarrow> metric list \<Rightarrow> 'w ApprovalManager" where
  "emit am ms = am\<lparr>am_metrics := am_metrics am @ ms\<rparr>"

definition should_auto_approve :: "'w ApprovalManager \<Rightarrow> string \<Rightarrow> ChangeClass \<Rightarrow> bool" where
  "should_auto_approve am ct cc =
     (if cc = TRADING_IMPACTING then ct \<in> auto_approve_commands am
      else if cc = OPERATIONAL then auto_approve_operational am
      else True)"

type_synonym hasher = "(string \<Rightarrow> string) \<times> (pyval \<Rightarrow> string)"

definition compute_evidence_hash :: "hasher \<Rightarrow> (string, pyval) dict \<Rightarrow> pyval" where
  "compute_evidence_hash H data = PStr (fst H (json_dumps ('','', '':'') (snd H) (PDict data)))"

record request_args =
  ra_command_type :: string
  ra_description :: string
  ra_change_class :: ChangeClass
  ra_details :: "(string, pyval) dict option"
  ra_config_digest_old :: "string option"
  ra_config_digest_new :: "string option"
  ra_artifact_digest :: "string option"

text \<open>The id a new request draws, the readings of the clock and the answer of the file system.\<close>

record request_draws =
  rd_id :: string
  rd_created :: time
  rd_now :: time
  rd_persist :: time
  rd_io :: bool

definition new_request :: "request_args \<Rightarrow> request_draws \<Rightarrow> ApprovalRequest" where
  "new_request a d =
     \<lparr>request_id = rd_id d, change_class = ra_change_class a, command_type = PStr (ra_command_type a),
      description = PStr (ra_description a), details = PDict (or_else (ra_details a) []),
      config_digest_old = str_opt (ra_config_digest_old a), config_digest_new = str_opt (ra_config_digest_new a),
      artifact_digest = str_opt (ra_artifact_digest a), diff_summary = PNone, status = PENDING,
      created_at = rd_created d, expires_at = None, decided_at = None, evidence_hash = PNone,
      decision_reason = PNone\<rparr>"

definition diff_text :: "request_args \<Rightarrow> pyval" where
  "diff_text a =
     (if truthy (ra_config_digest_old a) \<and> truthy (ra_config_digest_new a) then
        PFormat ''Config change: {}... -> {}...''
          [PStr (take 8 (the (ra_config_digest_old a))), PStr (take 8 (the (ra_config_digest_new a)))]
      else if truthy (ra_artifact_digest a) then
        PFormat ''Artifact change: {}...'' [PStr (take 16 (the (ra_artifact_digest a)))]
      else PNone)"

definition create_request ::
  "hasher \<Rightarrow> 'w ApprovalManager \<Rightarrow> request_args \<Rightarrow> request_draws \<Rightarrow> (am_error, ApprovalRequest, 'w ApprovalManager) pyres" where
  "create_request H am a d =
     (if should_auto_approve am (ra_command_type a) (ra_change_class a) then
        (let r = (new_request a d)\<lparr>status := APPROVED, decided_at := Some (rd_now d),
                   evidence_hash := compute_evidence_hash H
                     [(''command_type'', PStr (ra_command_type a)), (''auto_approved'', PBool True)],
                   decision_reason := PStr ''Auto-approved by local policy''\<rparr>;
             am1 = persist_history (am\<lparr>am_history := am_history am @ [r]\<rparr>) r (rd_persist d) (rd_io d) in
         py_return r (emit am1 [Auto_approved (ra_command_type a) (ra_change_class a)]))
      else
        (let r = (new_request a d)\<lparr>expires_at := Some (rd_now d + seconds (timeout_seconds am)),
                   diff_summary := diff_text a\<rparr>;
             am1 = persist_pending (am\<lparr>requests := dict_set (requests am) (request_id r) r\<rparr>) r (rd_persist d) (rd_io d);
             am2 = emit am1 [Request_created (ra_command_type a) (ra_change_class a), Pending_count (length (requests am1))] in
         case on_approval_requested am2 of
           None \<Rightarrow> py_return r am2
         | Some f \<Rightarrow> (case f (am_world am2) r of
                      (True, w) \<Rightarrow> py_return r (am2\<lparr>am_world := w\<rparr>)
                    | (False, w) \<Rightarrow> py_raise Callback_raised (am2\<lparr>am_world := w\<rparr>))))"

text \<open>Clock readings and file-system answer of a decision.\<close>

record decision_draws =
  dd_check :: time
  dd_now :: time
  dd_persist :: time
  dd_io :: bool

text \<open>The common tail of \<^verbatim>\<open>approve\<close> and \<^verbatim>\<open>deny\<close>: history, file, dictionary, metrics.\<close>

definition finish ::
  "'w ApprovalManager \<Rightarrow> string \<Rightarrow> ApprovalRequest \<Rightarrow> string \<Rightarrow> string \<Rightarrow> decision_draws \<Rightarrow> 'w ApprovalManager" where
  "finish am rid r decision who d =
     (let am1 = persist_history (am\<lparr>am_history := am_history am @ [r]\<rparr>) r (dd_persist d) (dd_io d);
          am2 = am1\<lparr>requests := dict_del (requests am1) rid\<rparr> in
      emit am2 [Decision (command_type r) decision who (dd_now d - created_at r), Pending_count (length (requests am2))])"

definition approve ::
  "hasher \<Rightarrow> 'w ApprovalManager \<Rightarrow> string \<Rightarrow> string \<Rightarrow> string \<Rightarrow> decision_draws \<Rightarrow> bool \<times> 'w ApprovalManager" where
  "approve H am rid rsn who d =
     (case dict_get (requests am) rid of
        None \<Rightarrow> (False, am)
      | Some r \<Rightarrow>
          if is_expired r (dd_check d)
          then (False, am\<lparr>requests := dict_set (requests am) rid (r\<lparr>status := EXPIRED\<rparr>)\<rparr>)
          else if status r \<noteq> PENDING then (False, am)
          else (True, finish am rid
            (r\<lparr>status := APPROVED, decided_at := Some (dd_now d), decision_reason := PStr rsn,
               evidence_hash := compute_evidence_hash H
                 [(''request_id'', PStr rid), (''command_type'', command_type r),
                  (''config_digest_new'', config_digest_new r), (''artifact_digest'', artifact_digest r),
                  (''decided_by'', PStr who), (''decided_at'', PIso (dd_now d))]\<rparr>)
            ''approved'' who d))"

definition deny ::
  "hasher \<Rightarrow> 'w ApprovalManager \<Rightarrow> string \<Rightarrow> string \<Rightarrow> string \<Rightarrow> decision_draws \<Rightarrow> bool \<times> 'w ApprovalManager" where
  "deny H am rid rsn who d =
     (case dict_get (requests am) rid of
        None \<Rightarrow> (False, am)
      | Some r \<Rightarrow>
          if status r \<noteq> PENDING then (False, am)
          else (True, finish am rid
            (r\<lparr>status := DENIED, decided_at := Some (dd_now d), decision_reason := PStr rsn,
               evidence_hash := compute_evidence_hash H
                 [(''request_id'', PStr rid), (''command_type'', command_type r),
                  (''config_digest_new'', config_digest_new r), (''artifact_digest'', artifact_digest r),
                  (''approved'', PBool False), (''decided_by'', PStr who), (''decided_at'', PIso (dd_now d)),
                  (''reason'', PStr rsn)]\<rparr>)
            ''denied'' who d))"

definition decide ::
  "hasher \<Rightarrow> 'w ApprovalManager \<Rightarrow> string \<Rightarrow> bool \<Rightarrow> string \<Rightarrow> string \<Rightarrow> decision_draws \<Rightarrow>
   ApprovalRequest option \<times> 'w ApprovalManager" where
  "decide H am rid approved rsn who d =
     (case dict_get (requests am) rid of
        None \<Rightarrow> (None, am)
      | Some _ \<Rightarrow>
          (case (if approved then approve H am rid rsn who d else deny H am rid rsn who d) of
             (False, am') \<Rightarrow> (None, am')
           | (True, am') \<Rightarrow> (find (\<lambda>r. request_id r = rid) (rev (am_history am')), am')))"

text \<open>The sweep over the pending requests; \<open>clk rid i\<close> is the \<open>i\<close>-th reading for a request.\<close>

fun sweep ::
  "'w ApprovalManager \<Rightarrow> ApprovalRequest list \<Rightarrow> (string \<Rightarrow> nat \<Rightarrow> time) \<Rightarrow> (string \<Rightarrow> bool) \<Rightarrow> nat \<Rightarrow>
   'w ApprovalManager \<times> nat" where
  "sweep am [] clk io n = (am, n)"
| "sweep am (r # rs) clk io n =
     (if is_expired r (clk (request_id r) 0) then
        (let r' = r\<lparr>status := EXPIRED, decided_at := Some (clk (request_id r) 1), decision_reason := PStr ''Expired''\<rparr>;
             am1 = persist_history (am\<lparr>am_history := am_history am @ [r']\<rparr>) r' (clk (request_id r) 2) (io (request_id r));
             am2 = am1\<lparr>requests := dict_del (requests am1) (request_id r)\<rparr> in
         sweep (emit am2 [Expired_metric (command_type r)]) rs clk io (n + 1))
      else sweep am rs clk io n)"

definition get_pending_requests ::
  "'w ApprovalManager \<Rightarrow> (string \<Rightarrow> nat \<Rightarrow> time) \<Rightarrow> (string \<Rightarrow> bool) \<Rightarrow> ApprovalRequest list \<times> 'w ApprovalManager" where
  "get_pending_requests am clk io =
     (let (am1, n) = sweep am (dict_values (requests am)) clk io 0;
          am2 = (if n > 0 then emit am1 [Pending_count (length (requests am1))] else am1) in
      (dict_values (requests am2), am2))"

definition get_request :: "'w ApprovalManager \<Rightarrow> string \<Rightarrow> ApprovalRequest option" where
  "get_request am rid = dict_get (requests am) rid"

definition get_history :: "'w ApprovalManager \<Rightarrow> int \<Rightarrow> ApprovalRequest list" where
  "get_history am limit = slice_from (am_history am) (- limit)"

definition add_auto_approve_command :: "'w ApprovalManager \<Rightarrow> string \<Rightarrow> 'w ApprovalManager" where
  "add_auto_approve_command am ct = am\<lparr>auto_approve_commands := insert ct (auto_approve_commands am)\<rparr>"

definition remove_auto_approve_command :: "'w ApprovalManager \<Rightarrow> string \<Rightarrow> 'w ApprovalManager" where
  "remove_auto_approve_command am ct = am\<lparr>auto_approve_commands := auto_approve_commands am - {ct}\<rparr>"

subsection \<open>Calls and the invariant\<close>

datatype am_call =
    Create request_args request_draws
  | Approve string string string decision_draws
  | Deny string string string decision_draws
  | Decide string bool string string decision_draws
  | Sweep "string \<Rightarrow> nat \<Rightarrow> time" "string \<Rightarrow> bool"
  | Add_Auto string
  | Remove_Auto string

fun am_exec :: "hasher \<Rightarrow> 'w ApprovalManager \<Rightarrow> am_call \<Rightarrow> 'w ApprovalManager" where
  "am_exec H am (Create a d) = snd (create_request H am a d)"
| "am_exec H am (Approve rid rsn who d) = snd (approve H am rid rsn who d)"
| "am_exec H am (Deny rid rsn who d) = snd (deny H am rid rsn who d)"
| "am_exec H am (Decide rid b rsn who d) = snd (decide H am rid b rsn who d)"
| "am_exec H am (Sweep clk io) = snd (get_pending_requests am clk io)"
| "am_exec H am (Add_Auto ct) = add_auto_approve_command am ct"
| "am_exec H am (Remove_Auto ct) = remove_auto_approve_command am ct"

text \<open>A decision is one of the two elementary calls.\<close>

lemma decide_exec:
  "am_exec H am (Decide rid b rsn who d) =
     am_exec H am (if b then Approve rid rsn who d else Deny rid rsn who d)"
  by (auto simp: decide_def approve_def deny_def split: option.splits prod.splits bool.splits)

definition history_ids :: "'w ApprovalManager \<Rightarrow> string list" where
  "history_ids am = map request_id (am_history am)"

definition known_ids :: "'w ApprovalManager \<Rightarrow> string list" where
  "known_ids am = history_ids am @ dict_keys (requests am)"

text \<open>New ids are not known yet.\<close>

fun fresh_am :: "'w ApprovalManager \<Rightarrow> am_call \<Rightarrow> bool" where
  "fresh_am am (Create a d) = (rd_id d \<notin> set (known_ids am))"
| "fresh_am am _ = True"

fun fresh_run :: "hasher \<Rightarrow> 'w ApprovalManager \<Rightarrow> am_call list \<Rightarrow> bool" where
  "fresh_run H am [] = True"
| "fresh_run H am (c # cs) = (fresh_am am c \<and> fresh_run H (am_exec H am c) cs)"

definition am_started :: "'w ApprovalManager \<Rightarrow> bool" where
  "am_started am \<longleftrightarrow> (\<exists>auto t cb p now w. am = init_ApprovalManager auto t cb p now w \<and>
     (p = None \<or> p = Some \<lparr>pending_files = [], history_files = []\<rparr>))"

definition am_ok :: "'w ApprovalManager \<Rightarrow> bool" where
  "am_ok am \<longleftrightarrow> distinct (known_ids am) \<and>
     (\<forall>(k, r) \<in> set (requests am). request_id r = k \<and> status r \<in> {PENDING, EXPIRED} \<and> expires_at r \<noteq> None)"

lemma persist_simps [simp]:
  "requests (persist_history am r t io) = requests am" "am_history (persist_history am r t io) = am_history am"
  "auto_approve_commands (persist_history am r t io) = auto_approve_commands am"
  "requests (persist_pending am r t io) = requests am" "am_history (persist_pending am r t io) = am_history am"
  "auto_approve_commands (persist_pending am r t io) = auto_approve_commands am"
  "requests (emit am ms) = requests am" "am_history (emit am ms) = am_history am"
  "auto_approve_commands (emit am ms) = auto_approve_commands am" "persistence (emit am ms) = persistence am"
  by (simp_all add: persist_history_def persist_pending_def emit_def)

lemma finish_simps [simp]:
  "requests (finish am rid r dec who d) = dict_del (requests am) rid"
  "am_history (finish am rid r dec who d) = am_history am @ [r]"
  "auto_approve_commands (finish am rid r dec who d) = auto_approve_commands am"
  by (simp_all add: finish_def Let_def)

definition auto_request :: "hasher \<Rightarrow> request_args \<Rightarrow> request_draws \<Rightarrow> ApprovalRequest" where
  "auto_request H a d = (new_request a d)\<lparr>status := APPROVED, decided_at := Some (rd_now d),
     evidence_hash := compute_evidence_hash H
       [(''command_type'', PStr (ra_command_type a)), (''auto_approved'', PBool True)],
     decision_reason := PStr ''Auto-approved by local policy''\<rparr>"

definition pending_request :: "'w ApprovalManager \<Rightarrow> request_args \<Rightarrow> request_draws \<Rightarrow> ApprovalRequest" where
  "pending_request am a d = (new_request a d)\<lparr>expires_at := Some (rd_now d + seconds (timeout_seconds am)),
     diff_summary := diff_text a\<rparr>"

lemma created_fields [simp]:
  "request_id (auto_request H a d) = rd_id d" "status (auto_request H a d) = APPROVED"
  "change_class (auto_request H a d) = ra_change_class a" "command_type (auto_request H a d) = PStr (ra_command_type a)"
  "request_id (pending_request am a d) = rd_id d" "status (pending_request am a d) = PENDING"
  "expires_at (pending_request am a d) = Some (rd_now d + seconds (timeout_seconds am))"
  by (simp_all add: auto_request_def pending_request_def new_request_def)

lemma create_auto:
  assumes "should_auto_approve am (ra_command_type a) (ra_change_class a)"
  shows "requests (snd (create_request H am a d)) = requests am \<and>
    am_history (snd (create_request H am a d)) = am_history am @ [auto_request H a d] \<and>
    auto_approve_commands (snd (create_request H am a d)) = auto_approve_commands am \<and>
    fst (create_request H am a d) = Inr (auto_request H a d) \<and>
    persistence (snd (create_request H am a d)) =
      map_option (\<lambda>p. save_history p (rd_id d) (request_to_dict (auto_request H a d) (rd_persist d)) (rd_io d)) (persistence am)"
  using assms unfolding create_request_def
  by (simp add: Let_def auto_request_def [symmetric]) (simp add: persist_history_def)

lemma create_pending:
  assumes "\<not> should_auto_approve am (ra_command_type a) (ra_change_class a)"
  shows "requests (snd (create_request H am a d)) = dict_set (requests am) (rd_id d) (pending_request am a d) \<and>
    am_history (snd (create_request H am a d)) = am_history am \<and>
    auto_approve_commands (snd (create_request H am a d)) = auto_approve_commands am \<and>
    persistence (snd (create_request H am a d)) =
      map_option (\<lambda>p. save_pending p (rd_id d) (request_to_dict (pending_request am a d) (rd_persist d)) (rd_io d)) (persistence am)"
  using assms unfolding create_request_def
  by (simp add: Let_def pending_request_def [symmetric] split: option.split prod.split bool.split)
    (simp add: persist_pending_def)

definition expire :: "(string \<Rightarrow> nat \<Rightarrow> time) \<Rightarrow> ApprovalRequest \<Rightarrow> ApprovalRequest" where
  "expire clk r = r\<lparr>status := EXPIRED, decided_at := Some (clk (request_id r) 1), decision_reason := PStr ''Expired''\<rparr>"

lemma expire_fields [simp]: "request_id (expire clk r) = request_id r" "status (expire clk r) = EXPIRED"
  "change_class (expire clk r) = change_class r" "command_type (expire clk r) = command_type r"
  by (simp_all add: expire_def)

abbreviation exp_now :: "(string \<Rightarrow> nat \<Rightarrow> time) \<Rightarrow> ApprovalRequest \<Rightarrow> bool" where
  "exp_now clk r \<equiv> is_expired r (clk (request_id r) 0)"

lemma sweep_eq:
  "requests (fst (sweep am rs clk io n)) =
     filter (\<lambda>kv. fst kv \<notin> request_id ` set (filter (exp_now clk) rs)) (requests am) \<and>
   am_history (fst (sweep am rs clk io n)) = am_history am @ map (expire clk) (filter (exp_now clk) rs) \<and>
   auto_approve_commands (fst (sweep am rs clk io n)) = auto_approve_commands am"
proof (induction am rs clk io n rule: sweep.induct)
  case (1 am clk io n)
  then show ?case by simp
next
  case (2 am r rs clk io n)
  then show ?case
    by (simp add: Let_def expire_def dict_del_def conj_commute cong: filter_cong)
qed

lemma sweep_requests:
  assumes "\<forall>(k, r) \<in> set (requests am). request_id r = k" and "distinct (dict_keys (requests am))"
  shows "requests (fst (sweep am (dict_values (requests am)) clk io n)) =
    filter (\<lambda>(k, r). \<not> exp_now clk r) (requests am)"
proof -
  have "fst kv \<in> request_id ` set (filter (exp_now clk) (dict_values (requests am))) \<longleftrightarrow> exp_now clk (snd kv)"
    if "kv \<in> set (requests am)" for kv
  proof
    assume "fst kv \<in> request_id ` set (filter (exp_now clk) (dict_values (requests am)))"
    then obtain k' r' where r': "(k', r') \<in> set (requests am)" "exp_now clk r'" "fst kv = request_id r'" by auto
    then have "k' = fst kv" using assms(1) by auto
    then have "snd kv = r'" using r'(1) that assms(2) by (metis eq_key_imp_eq_value prod.collapse)
    with r' show "exp_now clk (snd kv)" by simp
  next
    assume "exp_now clk (snd kv)"
    then show "fst kv \<in> request_id ` set (filter (exp_now clk) (dict_values (requests am)))"
      using assms(1) that by (cases kv) force
  qed
  then have "filter (\<lambda>kv. fst kv \<notin> request_id ` set (filter (exp_now clk) (dict_values (requests am)))) (requests am) =
      filter (\<lambda>(k, r). \<not> exp_now clk r) (requests am)"
    by (intro filter_cong) auto
  then show ?thesis using sweep_eq [of am "dict_values (requests am)" clk io n] by simp
qed

lemma known_ids_finish:
  "known_ids (finish am rid r dec who d) = history_ids am @ request_id r # dict_keys (dict_del (requests am) rid)"
  by (simp add: known_ids_def history_ids_def)

lemma am_ok_get:
  assumes "am_ok am" and "dict_get (requests am) rid = Some r"
  shows "request_id r = rid \<and> status r \<in> {PENDING, EXPIRED} \<and> expires_at r \<noteq> None \<and> rid \<in> set (dict_keys (requests am))"
  using assms(1) map_of_SomeD [OF assms(2)] unfolding am_ok_def by force

lemma am_ok_ids: "am_ok am \<Longrightarrow> distinct (dict_keys (requests am))"
  by (simp add: am_ok_def known_ids_def)

lemma finish_ok:
  assumes "am_ok am" and "dict_get (requests am) rid = Some r" and "request_id r' = rid"
  shows "am_ok (finish am rid r' dec who d) \<and> set (known_ids (finish am rid r' dec who d)) = set (known_ids am)"
proof -
  have g: "rid \<in> set (dict_keys (requests am))" using am_ok_get [OF assms(1,2)] by blast
  have keys: "dict_keys (dict_del (requests am) rid) = filter (\<lambda>x. x \<noteq> rid) (dict_keys (requests am))" by (rule dict_keys_del)
  show ?thesis
    using assms(1,3) g unfolding am_ok_def known_ids_finish keys
    by (auto simp: known_ids_def dict_del_def)
qed

lemma am_ok_set_status:
  assumes "am_ok am" and "dict_get (requests am) rid = Some r" and "st \<in> {PENDING, EXPIRED}"
  shows "am_ok (am\<lparr>requests := dict_set (requests am) rid (r\<lparr>status := st\<rparr>)\<rparr>) \<and>
    known_ids (am\<lparr>requests := dict_set (requests am) rid (r\<lparr>status := st\<rparr>)\<rparr>) = known_ids am"
proof -
  have g: "request_id r = rid" "expires_at r \<noteq> None" "rid \<in> set (dict_keys (requests am))"
    using am_ok_get [OF assms(1,2)] by auto
  have k: "dict_keys (dict_set (requests am) rid (r\<lparr>status := st\<rparr>)) = dict_keys (requests am)"
    using g(3) by (simp add: dict_keys_set)
  have "set (dict_set (requests am) rid (r\<lparr>status := st\<rparr>)) \<subseteq> insert (rid, r\<lparr>status := st\<rparr>) (set (requests am))"
    by (rule set_dict_set_subset)
  then show ?thesis
    using assms(1,3) g unfolding am_ok_def known_ids_def history_ids_def by (auto simp: k)
qed

text \<open>One call keeps the invariant and forgets no request.\<close>

definition created_id :: "am_call \<Rightarrow> string set" where
  "created_id c = (case c of Create a d \<Rightarrow> {rd_id d} | _ \<Rightarrow> {})"

lemma create_exec_ok:
  assumes "am_ok am" and "rd_id d \<notin> set (known_ids am)"
  shows "am_ok (snd (create_request H am a d)) \<and>
    set (known_ids (snd (create_request H am a d))) = insert (rd_id d) (set (known_ids am))"
proof (cases "should_auto_approve am (ra_command_type a) (ra_change_class a)")
  case True
  then show ?thesis
    using create_auto [OF True, of H d] assms by (auto simp: am_ok_def known_ids_def history_ids_def)
next
  case False
  have "dict_set (requests am) (rd_id d) (pending_request am a d) = requests am @ [(rd_id d, pending_request am a d)]"
    using assms(2) by (intro dict_set_new) (simp add: known_ids_def map_of_eq_None_iff)
  then show ?thesis
    using create_pending [OF False, of H d] assms by (auto simp: am_ok_def known_ids_def history_ids_def)
qed

lemma approve_exec_ok:
  assumes "am_ok am"
  shows "am_ok (snd (approve H am rid rsn who d)) \<and> set (known_ids (snd (approve H am rid rsn who d))) = set (known_ids am)"
proof (cases "dict_get (requests am) rid")
  case None
  then show ?thesis using assms by (simp add: approve_def)
next
  case (Some r)
  then show ?thesis
    using am_ok_set_status [OF assms Some, of EXPIRED] finish_ok [OF assms Some] am_ok_get [OF assms Some] assms
    by (simp add: approve_def)
qed

lemma deny_exec_ok:
  assumes "am_ok am"
  shows "am_ok (snd (deny H am rid rsn who d)) \<and> set (known_ids (snd (deny H am rid rsn who d))) = set (known_ids am)"
proof (cases "dict_get (requests am) rid")
  case None
  then show ?thesis using assms by (simp add: deny_def)
next
  case (Some r)
  then show ?thesis
    using finish_ok [OF assms Some] am_ok_get [OF assms Some] assms by (simp add: deny_def)
qed

lemma pending_after_sweep:
  "requests (snd (get_pending_requests am clk io)) = requests (fst (sweep am (dict_values (requests am)) clk io 0)) \<and>
   am_history (snd (get_pending_requests am clk io)) = am_history (fst (sweep am (dict_values (requests am)) clk io 0)) \<and>
   auto_approve_commands (snd (get_pending_requests am clk io)) = auto_approve_commands am \<and>
   fst (get_pending_requests am clk io) = dict_values (requests (fst (sweep am (dict_values (requests am)) clk io 0)))"
proof -
  obtain am1 n where "sweep am (dict_values (requests am)) clk io 0 = (am1, n)" by fastforce
  then show ?thesis
    using sweep_eq [of am "dict_values (requests am)" clk io 0] by (simp add: get_pending_requests_def Let_def)
qed

lemma expired_ids:
  "\<forall>(k, r) \<in> set rs. request_id r = k \<Longrightarrow>
   map request_id (map (expire clk) (filter (exp_now clk) (dict_values rs))) = dict_keys (filter (\<lambda>(k, r). exp_now clk r) rs)"
  by (induction rs) auto

lemma filter_split_keys:
  "distinct (dict_keys rs) \<Longrightarrow>
   distinct (dict_keys (filter (\<lambda>(k, r). P r) rs) @ dict_keys (filter (\<lambda>(k, r). \<not> P r) rs))"
proof (induction rs)
  case (Cons kv rs)
  obtain k r where kv: "kv = (k, r)" by (cases kv)
  have "k \<notin> set (dict_keys (filter Q rs))" for Q
    using Cons.prems kv by auto
  then show ?case using Cons kv by auto
qed simp

lemma sweep_exec_ok:
  assumes "am_ok am"
  shows "am_ok (snd (get_pending_requests am clk io)) \<and>
    set (known_ids (snd (get_pending_requests am clk io))) = set (known_ids am)"
proof -
  let ?rs = "requests am" and ?am' = "snd (get_pending_requests am clk io)"
  have key: "\<forall>(k, r) \<in> set ?rs. request_id r = k" using assms by (auto simp: am_ok_def)
  have r: "requests ?am' = filter (\<lambda>(k, r). \<not> exp_now clk r) ?rs"
    using pending_after_sweep [of am clk io] sweep_requests [OF key am_ok_ids [OF assms]] by simp
  have "map request_id (map (expire clk) (filter (exp_now clk) (dict_values ?rs))) =
      dict_keys (filter (\<lambda>(k, r). exp_now clk r) ?rs)"
    by (rule expired_ids [OF key])
  then have h: "history_ids ?am' = history_ids am @ dict_keys (filter (\<lambda>(k, r). exp_now clk r) ?rs)"
    using pending_after_sweep [of am clk io] sweep_eq [of am "dict_values ?rs" clk io 0]
    by (simp add: history_ids_def)
  have "distinct (dict_keys (filter (\<lambda>(k, r). exp_now clk r) ?rs) @ dict_keys (filter (\<lambda>(k, r). \<not> exp_now clk r) ?rs))"
    by (rule filter_split_keys [OF am_ok_ids [OF assms]])
  moreover have "set (dict_keys (filter (\<lambda>(k, r). exp_now clk r) ?rs)) \<union>
      set (dict_keys (filter (\<lambda>(k, r). \<not> exp_now clk r) ?rs)) = set (dict_keys ?rs)"
    by force
  ultimately show ?thesis
    using assms unfolding am_ok_def known_ids_def h r by auto
qed

lemma am_exec_ok:
  assumes "am_ok am" and "fresh_am am c"
  shows "am_ok (am_exec H am c) \<and> set (known_ids (am_exec H am c)) = created_id c \<union> set (known_ids am)"
proof (cases c)
  case (Create a d)
  then show ?thesis using create_exec_ok [OF assms(1), of d H a] assms(2) by (simp add: created_id_def)
next
  case (Approve rid rsn who d)
  then show ?thesis using approve_exec_ok [OF assms(1)] by (simp add: created_id_def)
next
  case (Deny rid rsn who d)
  then show ?thesis using deny_exec_ok [OF assms(1)] by (simp add: created_id_def)
next
  case (Decide rid b rsn who d)
  then show ?thesis
    using approve_exec_ok [OF assms(1)] deny_exec_ok [OF assms(1)]
    by (cases b; simp only: decide_exec; simp add: created_id_def)
next
  case (Sweep clk io)
  then show ?thesis using sweep_exec_ok [OF assms(1)] by (simp add: created_id_def)
next
  case (Add_Auto ct)
  then show ?thesis using assms(1)
    by (simp add: created_id_def add_auto_approve_command_def am_ok_def known_ids_def history_ids_def)
next
  case (Remove_Auto ct)
  then show ?thesis using assms(1)
    by (simp add: created_id_def remove_auto_approve_command_def am_ok_def known_ids_def history_ids_def)
qed

lemma am_started_ok: "am_started am \<Longrightarrow> am_ok am \<and> requests am = [] \<and> am_history am = [] \<and> auto_approve_commands am = {}"
  by (auto simp: am_started_def init_ApprovalManager_def am_ok_def known_ids_def history_ids_def load_all_pending_def)

lemma run_ok:
  "am_ok am \<Longrightarrow> fresh_run H am cs \<Longrightarrow> am_ok (foldl (am_exec H) am cs) \<and>
   set (known_ids (foldl (am_exec H) am cs)) = (\<Union>c \<in> set cs. created_id c) \<union> set (known_ids am)"
proof (induction cs arbitrary: am)
  case (Cons c cs)
  then show ?case using am_exec_ok [of am c H] by auto
qed simp

subsection \<open>Where history entries come from\<close>

definition decides_for :: "am_call \<Rightarrow> string \<Rightarrow> decision_draws \<Rightarrow> bool" where
  "decides_for c rid d \<longleftrightarrow> (\<exists>rsn who. c = Approve rid rsn who d \<or> c = Decide rid True rsn who d)"

lemma approve_history:
  assumes "am_ok am" and "r \<in> set (am_history (snd (approve H am rid rsn who d)))"
  shows "r \<in> set (am_history am) \<or> request_id r = rid \<and>
    (\<exists>r0. dict_get (requests am) rid = Some r0 \<and> status r0 = PENDING \<and> \<not> is_expired r0 (dd_check d))"
proof (cases "dict_get (requests am) rid")
  case None
  then show ?thesis using assms by (simp add: approve_def)
next
  case (Some r0)
  then show ?thesis
    using assms(2) am_ok_get [OF assms(1) Some] by (auto simp: approve_def split: if_splits)
qed

lemma deny_history:
  "r \<in> set (am_history (snd (deny H am rid rsn who d))) \<Longrightarrow> r \<in> set (am_history am) \<or> status r = DENIED"
  by (auto simp: deny_def split: option.splits if_splits)

lemma history_step:
  assumes ok: "am_ok am" and r: "r \<in> set (am_history (am_exec H am c))"
  shows "r \<in> set (am_history am) \<or> status r \<in> {DENIED, EXPIRED} \<or>
    (\<exists>a d. c = Create a d \<and> r = auto_request H a d \<and> should_auto_approve am (ra_command_type a) (ra_change_class a)) \<or>
    (\<exists>d r0. decides_for c (request_id r) d \<and> dict_get (requests am) (request_id r) = Some r0 \<and>
       status r0 = PENDING \<and> \<not> is_expired r0 (dd_check d))"
proof (cases c)
  case (Create a d)
  then show ?thesis using create_auto [of am a H d] create_pending [of am a H d] r
    by (cases "should_auto_approve am (ra_command_type a) (ra_change_class a)") auto
next
  case (Approve rid rsn who d)
  then show ?thesis using approve_history [OF ok, of r H rid rsn who d] r by (auto simp: decides_for_def)
next
  case (Deny rid rsn who d)
  then show ?thesis using deny_history [of r H am rid rsn who d] r by auto
next
  case (Decide rid b rsn who d)
  then show ?thesis
    using approve_history [OF ok, of r H rid rsn who d] deny_history [of r H am rid rsn who d] r
      decide_exec [of H am rid b rsn who d]
    by (cases b) (auto simp: decides_for_def)
next
  case (Sweep clk io)
  then show ?thesis
    using r pending_after_sweep [of am clk io] sweep_eq [of am "dict_values (requests am)" clk io 0] by auto
qed (use r in \<open>auto simp: add_auto_approve_command_def remove_auto_approve_command_def\<close>)

lemma auto_commands_step:
  "auto_approve_commands (am_exec H am c) \<subseteq> auto_approve_commands am \<union> {ct. c = Add_Auto ct}"
proof (cases c)
  case (Create a d)
  then show ?thesis
    using create_auto [of am a H d] create_pending [of am a H d]
    by (cases "should_auto_approve am (ra_command_type a) (ra_change_class a)") auto
next
  case (Sweep clk io)
  then show ?thesis using pending_after_sweep [of am clk io] by auto
qed (auto simp: approve_def deny_def decide_def add_auto_approve_command_def remove_auto_approve_command_def
      split: option.splits prod.splits bool.splits if_splits)

text \<open>A pending request keeps its expiry time as long as it is pending.\<close>

lemma approve_requests:
  "dict_get (requests (snd (approve H am rid rsn who d))) k = Some r \<Longrightarrow>
   \<exists>r0. dict_get (requests am) k = Some r0 \<and> expires_at r = expires_at r0"
  by (auto simp: approve_def split: option.splits if_splits)

lemma deny_requests:
  "dict_get (requests (snd (deny H am rid rsn who d))) k = Some r \<Longrightarrow> dict_get (requests am) k = Some r"
  by (auto simp: deny_def split: option.splits if_splits)

lemma requests_step:
  assumes ok: "am_ok am" and r: "dict_get (requests (am_exec H am c)) k = Some r"
  shows "(\<exists>r0. dict_get (requests am) k = Some r0 \<and> expires_at r = expires_at r0) \<or> k \<in> created_id c"
proof (cases c)
  case (Create a d)
  then show ?thesis using create_auto [of am a H d] create_pending [of am a H d] r
    by (cases "should_auto_approve am (ra_command_type a) (ra_change_class a)")
      (auto simp: created_id_def split: if_splits)
next
  case (Approve rid rsn who d)
  then show ?thesis using approve_requests [of H am rid rsn who d k r] r by simp
next
  case (Deny rid rsn who d)
  then show ?thesis using deny_requests [of H am rid rsn who d k r] r by simp
next
  case (Decide rid b rsn who d)
  then show ?thesis
    using approve_requests [of H am rid rsn who d k r] deny_requests [of H am rid rsn who d k r] r
      decide_exec [of H am rid b rsn who d]
    by (cases b) simp_all
next
  case (Sweep clk io)
  have key: "\<forall>(k, r) \<in> set (requests am). request_id r = k" using ok by (auto simp: am_ok_def)
  have "(k, r) \<in> set (requests am)"
    using r Sweep pending_after_sweep [of am clk io] sweep_requests [OF key am_ok_ids [OF ok], of clk io 0]
    by (auto dest!: map_of_SomeD)
  then have "dict_get (requests am) k = Some r" using am_ok_ids [OF ok] by simp
  then show ?thesis by blast
qed (use r in \<open>auto simp: add_auto_approve_command_def remove_auto_approve_command_def\<close>)

lemma fresh_run_append [simp]:
  "fresh_run H am (cs @ [c]) \<longleftrightarrow> fresh_run H am cs \<and> fresh_am (foldl (am_exec H) am cs) c"
  by (induction cs arbitrary: am) auto

definition authorised :: "am_call list \<Rightarrow> ApprovalRequest \<Rightarrow> bool" where
  "authorised calls r \<longleftrightarrow>
     (\<exists>ct. command_type r = PStr ct \<and> Add_Auto ct \<in> set calls) \<or> (\<exists>c \<in> set calls. \<exists>d. decides_for c (request_id r) d)"

lemma authorised_mono: "authorised cs r \<Longrightarrow> authorised (cs @ [c]) r"
  by (auto simp: authorised_def)

lemma run_authorised:
  assumes st: "am_started am0"
  shows "fresh_run H am0 calls \<Longrightarrow>
    auto_approve_commands (foldl (am_exec H) am0 calls) \<subseteq> {ct. Add_Auto ct \<in> set calls} \<and>
    (\<forall>r \<in> set (am_history (foldl (am_exec H) am0 calls)).
       status r = APPROVED \<and> change_class r = TRADING_IMPACTING \<longrightarrow> authorised calls r)"
proof (induction calls rule: rev_induct)
  case Nil
  then show ?case using am_started_ok [OF st] by simp
next
  case (snoc c cs)
  let ?am = "foldl (am_exec H) am0 cs"
  have IH: "auto_approve_commands ?am \<subseteq> {ct. Add_Auto ct \<in> set cs}"
    "\<forall>r \<in> set (am_history ?am). status r = APPROVED \<and> change_class r = TRADING_IMPACTING \<longrightarrow> authorised cs r"
    using snoc by auto
  have ok: "am_ok ?am" using run_ok [of am0 H cs] am_started_ok [OF st] snoc.prems by simp
  have "authorised (cs @ [c]) r"
    if h: "r \<in> set (am_history (am_exec H ?am c))" "status r = APPROVED" "change_class r = TRADING_IMPACTING" for r
  proof -
    consider "r \<in> set (am_history ?am)"
      | a d where "c = Create a d" "r = auto_request H a d" "should_auto_approve ?am (ra_command_type a) (ra_change_class a)"
      | d where "decides_for c (request_id r) d"
      using history_step [OF ok h(1)] h(2) by auto
    then show ?thesis
    proof cases
      case 1
      then show ?thesis using IH(2) h authorised_mono by blast
    next
      case 2
      then have "ra_command_type a \<in> auto_approve_commands ?am" using h(3) by (simp add: should_auto_approve_def)
      then show ?thesis using IH(1) 2(2) by (auto simp: authorised_def)
    next
      case 3
      then show ?thesis by (auto simp: authorised_def)
    qed
  qed
  moreover have "auto_approve_commands (am_exec H ?am c) \<subseteq> {ct. Add_Auto ct \<in> set (cs @ [c])}"
    using auto_commands_step [of H ?am c] IH(1) by auto
  ultimately show ?case by simp
qed

lemma run_expired:
  assumes "am_ok am" and "fresh_run H am calls" and "rid \<in> set (known_ids am)"
    and "\<forall>r. dict_get (requests am) rid = Some r \<longrightarrow> expires_at r = Some E"
    and "\<forall>r \<in> set (am_history am). request_id r = rid \<longrightarrow> status r \<noteq> APPROVED"
    and "\<forall>c \<in> set calls. \<forall>d. decides_for c rid d \<longrightarrow> E < dd_check d"
  shows "\<forall>r \<in> set (am_history (foldl (am_exec H) am calls)). request_id r = rid \<longrightarrow> status r \<noteq> APPROVED"
  using assms
proof (induction calls arbitrary: am)
  case Nil
  then show ?case by simp
next
  case (Cons c cs)
  let ?am = "am_exec H am c"
  have new: "rid \<notin> created_id c" using Cons.prems(2,3) by (cases c) (auto simp: created_id_def)
  have ok: "am_ok ?am" "rid \<in> set (known_ids ?am)"
    using am_exec_ok [OF Cons.prems(1), of c H] Cons.prems(2,3) by auto
  have exp: "\<forall>r. dict_get (requests ?am) rid = Some r \<longrightarrow> expires_at r = Some E"
    using requests_step [OF Cons.prems(1), of H c rid] new Cons.prems(4) by fastforce
  have "\<forall>r \<in> set (am_history ?am). request_id r = rid \<longrightarrow> status r \<noteq> APPROVED"
  proof (intro ballI impI)
    fix r assume r: "r \<in> set (am_history ?am)" "request_id r = rid"
    consider "r \<in> set (am_history am)" | "status r \<in> {DENIED, EXPIRED}" | a d where "c = Create a d" "r = auto_request H a d"
      | d r0 where "decides_for c rid d" "dict_get (requests am) rid = Some r0" "\<not> is_expired r0 (dd_check d)"
      using history_step [OF Cons.prems(1) r(1)] r(2) by blast
    then show "status r \<noteq> APPROVED"
    proof cases
      case 1
      then show ?thesis using Cons.prems(5) r(2) by blast
    next
      case 3
      then show ?thesis using new r(2) by (simp add: created_id_def)
    next
      case 4
      then have "expires_at r0 = Some E" "E < dd_check d" using Cons.prems(4,6) by auto
      then show ?thesis using 4(3) by (simp add: is_expired_def)
    qed auto
  qed
  then show ?case using Cons.IH [OF ok(1) _ ok(2) exp] Cons.prems(2,6) by simp
qed

subsection \<open>Files and requests\<close>

text \<open>What a JSON round trip makes of a request.\<close>

definition norm_request :: "ApprovalRequest \<Rightarrow> ApprovalRequest" where
  "norm_request r = r\<lparr>command_type := json_norm (command_type r), description := json_norm (description r),
     details := json_norm (details r), config_digest_old := json_norm (config_digest_old r),
     config_digest_new := json_norm (config_digest_new r), artifact_digest := json_norm (artifact_digest r),
     diff_summary := json_norm (diff_summary r), evidence_hash := json_norm (evidence_hash r),
     decision_reason := json_norm (decision_reason r)\<rparr>"

lemma enum_roundtrip [simp]:
  "enum_by_value ChangeClass_value all_change_classes (PStr (ChangeClass_value cc)) = Some cc"
  "enum_by_value ApprovalStatus_value all_statuses (PStr (ApprovalStatus_value st)) = Some st"
proof -
  show "enum_by_value ChangeClass_value all_change_classes (PStr (ChangeClass_value cc)) = Some cc"
    by (cases cc) (simp_all add: enum_by_value_def all_change_classes_def)
  show "enum_by_value ApprovalStatus_value all_statuses (PStr (ApprovalStatus_value st)) = Some st"
    by (cases st) (simp_all add: enum_by_value_def all_statuses_def)
qed

lemma iso_norm [simp]: "json_norm (iso_opt t) = iso_opt t" "opt_time (iso_opt t) = Some t"
  by (cases t; simp add: iso_opt_def opt_time_def from_iso_def)+

lemma request_file_roundtrip:
  "request_from_data (file_content (request_to_dict r t)) now = Some (norm_request r)"
  by (simp add: request_from_data_def file_content_def request_to_dict_def get_default_def from_iso_def norm_request_def)

definition in_step :: "'w ApprovalManager \<Rightarrow> bool" where
  "in_step am \<longleftrightarrow> (\<exists>p. persistence am = Some p \<and> dict_ok (pending_files p) \<and>
     (\<forall>rid. \<exists>t. dict_get (pending_files p) rid =
        map_option (\<lambda>r. file_content (request_to_dict (r\<lparr>status := PENDING\<rparr>) t)) (dict_get (requests am) rid)))"

fun io_ok :: "am_call \<Rightarrow> bool" where
  "io_ok (Create a d) = rd_io d"
| "io_ok (Approve rid rsn who d) = dd_io d"
| "io_ok (Deny rid rsn who d) = dd_io d"
| "io_ok (Decide rid b rsn who d) = dd_io d"
| "io_ok (Sweep clk io) = (\<forall>x. io x)"
| "io_ok _ = True"

lemma in_step_cong: "persistence am' = persistence am \<Longrightarrow> requests am' = requests am \<Longrightarrow> in_step am' = in_step am"
  by (simp add: in_step_def)

lemma in_step_remove:
  assumes "in_step am" and "persistence am' = map_option (\<lambda>p. save_history p rid data True) (persistence am)"
    and "requests am' = dict_del (requests am) rid"
  shows "in_step am'"
proof -
  obtain p where p: "persistence am = Some p" "dict_ok (pending_files p)"
    "\<And>k. \<exists>t. dict_get (pending_files p) k =
       map_option (\<lambda>r. file_content (request_to_dict (r\<lparr>status := PENDING\<rparr>) t)) (dict_get (requests am) k)"
    using assms(1) by (auto simp: in_step_def)
  then show ?thesis using assms(2,3) by (auto simp: in_step_def save_history_def dict_ok_del)
qed

lemma in_step_finish:
  assumes "in_step am" and "request_id r = rid" and "dd_io d"
  shows "in_step (finish am rid r dec who d)"
  by (rule in_step_remove [OF assms(1), where rid = rid and data = "request_to_dict r (dd_persist d)"])
    (use assms(2,3) in \<open>simp_all add: finish_def Let_def persist_history_def\<close>)

lemma in_step_sweep: "in_step am \<Longrightarrow> \<forall>x. io x \<Longrightarrow> in_step (fst (sweep am rs clk io n))"
proof (induction am rs clk io n rule: sweep.induct)
  case (1 am clk io n)
  then show ?case by simp
next
  case (2 am r rs clk io n)
  let ?r = "r\<lparr>status := EXPIRED, decided_at := Some (clk (request_id r) 1), decision_reason := PStr ''Expired''\<rparr>"
  let ?am1 = "persist_history (am\<lparr>am_history := am_history am @ [?r]\<rparr>) ?r (clk (request_id r) 2) (io (request_id r))"
  let ?am2 = "emit (?am1\<lparr>requests := dict_del (requests ?am1) (request_id r)\<rparr>) [Expired_metric (command_type r)]"
  have "in_step ?am2"
    by (rule in_step_remove [OF "2.prems"(1), where rid = "request_id r" and data = "request_to_dict ?r (clk (request_id r) 2)"])
      (use "2.prems"(2) in \<open>simp_all add: persist_history_def\<close>)
  then show ?case using 2 by (simp add: Let_def)
qed

lemma in_step_create:
  assumes "in_step am" and "rd_id d \<notin> set (known_ids am)" and "rd_io d"
  shows "in_step (snd (create_request H am a d))"
proof (cases "should_auto_approve am (ra_command_type a) (ra_change_class a)")
  case True
  have "dict_del (requests am) (rd_id d) = requests am"
    using assms(2) by (force simp: dict_del_def known_ids_def intro!: filter_True)
  then show ?thesis
    using in_step_remove [OF assms(1), where rid = "rd_id d" and am' = "snd (create_request H am a d)"
        and data = "request_to_dict (auto_request H a d) (rd_persist d)"]
      create_auto [OF True, of H d] assms(3) by simp
next
  case False
  obtain p where p: "persistence am = Some p" "dict_ok (pending_files p)"
    "\<And>k. \<exists>t. dict_get (pending_files p) k =
       map_option (\<lambda>r. file_content (request_to_dict (r\<lparr>status := PENDING\<rparr>) t)) (dict_get (requests am) k)"
    using assms(1) by (auto simp: in_step_def)
  have eq: "(pending_request am a d)\<lparr>status := PENDING\<rparr> = pending_request am a d"
    by (simp add: pending_request_def new_request_def)
  show ?thesis
    using create_pending [OF False, of H d] p assms(3)
    by (auto simp: in_step_def save_pending_def dict_ok_set eq)
qed

lemma in_step_approve:
  assumes ok: "am_ok am" and "in_step am" and "dd_io d"
  shows "in_step (snd (approve H am rid rsn who d))"
proof (cases "dict_get (requests am) rid")
  case None
  then show ?thesis using assms(2) by (simp add: approve_def)
next
  case (Some r)
  have "in_step (am\<lparr>requests := dict_set (requests am) rid (r\<lparr>status := EXPIRED\<rparr>)\<rparr>)"
  proof -
    obtain p where p: "persistence am = Some p" "dict_ok (pending_files p)"
      "\<And>k. \<exists>t. dict_get (pending_files p) k =
         map_option (\<lambda>r. file_content (request_to_dict (r\<lparr>status := PENDING\<rparr>) t)) (dict_get (requests am) k)"
      using assms(2) by (auto simp: in_step_def)
    then show ?thesis using Some p(3) [of rid] by (auto simp: in_step_def)
  qed
  then show ?thesis
    using in_step_finish [OF assms(2), of _ rid d] am_ok_get [OF ok Some] assms(2,3) Some by (simp add: approve_def)
qed

lemma in_step_deny:
  assumes ok: "am_ok am" and "in_step am" and "dd_io d"
  shows "in_step (snd (deny H am rid rsn who d))"
proof (cases "dict_get (requests am) rid")
  case None
  then show ?thesis using assms(2) by (simp add: deny_def)
next
  case (Some r)
  then show ?thesis
    using in_step_finish [OF assms(2), of _ rid d] am_ok_get [OF ok Some] assms(2,3) by (simp add: deny_def)
qed

lemma am_exec_in_step:
  assumes "am_ok am" and "in_step am" and "fresh_am am c" and "io_ok c"
  shows "in_step (am_exec H am c)"
proof (cases c)
  case (Create a d)
  then show ?thesis using in_step_create assms by simp
next
  case (Approve rid rsn who d)
  then show ?thesis using in_step_approve assms by simp
next
  case (Deny rid rsn who d)
  then show ?thesis using in_step_deny assms by simp
next
  case (Decide rid b rsn who d)
  then show ?thesis using in_step_approve in_step_deny assms by (cases b; simp only: decide_exec; simp)
next
  case (Sweep clk io)
  obtain am1 n where s: "sweep am (dict_values (requests am)) clk io 0 = (am1, n)" by fastforce
  have "in_step am1" using in_step_sweep [OF assms(2), of io "dict_values (requests am)" clk 0] s assms(4) Sweep by simp
  then show ?thesis using Sweep s by (simp add: get_pending_requests_def Let_def in_step_cong [of "emit am1 ms" am1 for ms])
next
  case (Add_Auto ct)
  then show ?thesis using assms(2) by (simp add: add_auto_approve_command_def in_step_def)
next
  case (Remove_Auto ct)
  then show ?thesis using assms(2) by (simp add: remove_auto_approve_command_def in_step_def)
qed

lemma run_in_step:
  "am_ok am \<Longrightarrow> in_step am \<Longrightarrow> fresh_run H am cs \<Longrightarrow> list_all io_ok cs \<Longrightarrow> in_step (foldl (am_exec H) am cs)"
proof (induction cs arbitrary: am)
  case (Cons c cs)
  then show ?case using am_exec_ok [of am c H] am_exec_in_step [of am c H] by simp
qed simp

lemma load_requests_get:
  assumes "distinct (map fst files)"
    and "\<forall>(k, data) \<in> set files. \<exists>r. request_from_data data now = Some r \<and> request_id r = k"
  shows "dict_get (load_requests rs (map snd files) now) k =
    (case dict_get files k of Some data \<Rightarrow> request_from_data data now | None \<Rightarrow> dict_get rs k)"
  using assms
proof (induction files arbitrary: rs)
  case Nil
  then show ?case by simp
next
  case (Cons f files)
  obtain x data r where f: "f = (x, data)" "request_from_data data now = Some r" "request_id r = x"
    using Cons.prems(2) by (cases f) auto
  have "dict_get files x = None" using Cons.prems(1) f(1) by (simp add: map_of_eq_None_iff)
  then show ?case using Cons.IH [of "dict_set rs x r"] Cons.prems f
    by (cases "k = x") (auto split: option.split)
qed

subsection \<open>Properties\<close>

text \<open>
  C11: nothing trades without consent.  Whatever calls a fresh manager receives, a trading-impacting
  request is approved in its history only if its command type was put on the local whitelist or an
  approval was given for its id.
\<close>

theorem trading_change_needs_local_consent:
  assumes "am_started am0" and "fresh_run H am0 calls" and "r \<in> set (am_history (foldl (am_exec H) am0 calls))"
    and "status r = APPROVED" and "change_class r = TRADING_IMPACTING"
  shows "(\<exists>ct. command_type r = PStr ct \<and> Add_Auto ct \<in> set calls) \<or>
    (\<exists>rsn who d. Approve (request_id r) rsn who d \<in> set calls \<or> Decide (request_id r) True rsn who d \<in> set calls)"
proof -
  have "authorised calls r" using run_authorised [OF assms(1,2)] assms(3-5) by blast
  then show ?thesis by (auto simp: authorised_def decides_for_def)
qed

definition sample_am :: "unit ApprovalManager" where
  "sample_am = init_ApprovalManager True 300 None (Some \<lparr>pending_files = [], history_files = []\<rparr>) 0 ()"

definition sample_args :: request_args where
  "sample_args = \<lparr>ra_command_type = ''RUN'', ra_description = [], ra_change_class = TRADING_IMPACTING, ra_details = None,
     ra_config_digest_old = None, ra_config_digest_new = None, ra_artifact_digest = None\<rparr>"

definition sample_rd :: request_draws where
  "sample_rd = \<lparr>rd_id = ''r1'', rd_created = 0, rd_now = 0, rd_persist = 0, rd_io = True\<rparr>"

definition sample_dd :: "time \<Rightarrow> decision_draws" where
  "sample_dd t = \<lparr>dd_check = t, dd_now = t, dd_persist = t, dd_io = True\<rparr>"

definition sample_hash :: hasher where
  "sample_hash = (\<lambda>m. ''h'', \<lambda>v. [])"

lemma sample_am_started: "am_started sample_am"
  unfolding am_started_def sample_am_def by blast

lemma sample_fresh: "fresh_run sample_hash sample_am [Create sample_args sample_rd, Approve ''r1'' [] ''u'' (sample_dd t)]"
  using am_started_ok [OF sample_am_started] by (simp add: known_ids_def history_ids_def)

lemma sample_pending:
  "requests (am_exec sample_hash sample_am (Create sample_args sample_rd)) = [(''r1'', pending_request sample_am sample_args sample_rd)]"
  using create_pending [of sample_am sample_args sample_hash sample_rd] am_started_ok [OF sample_am_started]
  by (simp add: should_auto_approve_def) (simp add: sample_args_def sample_rd_def)

definition sample_approved :: ApprovalRequest where
  "sample_approved = last (am_history (foldl (am_exec sample_hash) sample_am
     [Create sample_args sample_rd, Approve ''r1'' [] ''u'' (sample_dd 5)]))"

lemma sample_not_expired:
  "\<not> is_expired (pending_request sample_am sample_args sample_rd) (dd_check (sample_dd 5))"
  by (simp add: is_expired_def sample_rd_def sample_dd_def sample_am_def init_ApprovalManager_def seconds_def)

lemma sample_approved_in_history:
  "sample_approved \<in> set (am_history (foldl (am_exec sample_hash) sample_am
     [Create sample_args sample_rd, Approve ''r1'' [] ''u'' (sample_dd 5)])) \<and> status sample_approved = APPROVED \<and>
   change_class sample_approved = TRADING_IMPACTING \<and> request_id sample_approved = ''r1''"
  using sample_pending sample_not_expired
  by (simp add: sample_approved_def approve_def)
    (simp add: pending_request_def new_request_def sample_args_def sample_rd_def)

theorem trading_change_needs_local_consent_witness:
  "\<exists>rsn who d. Approve ''r1'' rsn who d \<in> set [Create sample_args sample_rd, Approve ''r1'' [] ''u'' (sample_dd 5)]"
  using trading_change_needs_local_consent [OF sample_am_started sample_fresh, of sample_approved 5] sample_approved_in_history
  by auto

text \<open>
  No approval after expiry.  Take a pending request that expires at \<open>E\<close>.  If every
  approval tried for it from now on checks the clock after \<open>E\<close>, it never enters the history
  as approved, whatever else happens in between.
\<close>

theorem expired_request_never_approved:
  assumes "am_started am0" and "fresh_run H am0 before" and "am = foldl (am_exec H) am0 before"
    and "dict_get (requests am) rid = Some r" and "expires_at r = Some E"
    and "fresh_run H am calls"
    and "\<forall>c \<in> set calls. \<forall>rsn who d. c = Approve rid rsn who d \<or> c = Decide rid True rsn who d \<longrightarrow> E < dd_check d"
  shows "\<forall>h \<in> set (am_history (foldl (am_exec H) am calls)). request_id h = rid \<longrightarrow> status h \<noteq> APPROVED"
proof -
  have ok: "am_ok am" using run_ok [of am0 H before] am_started_ok [OF assms(1)] assms(2,3) by simp
  have rid: "rid \<in> set (dict_keys (requests am))" using am_ok_get [OF ok assms(4)] by blast
  then have "rid \<notin> set (history_ids am)" using ok by (auto simp: am_ok_def known_ids_def)
  then have "\<forall>h \<in> set (am_history am). request_id h = rid \<longrightarrow> status h \<noteq> APPROVED"
    by (auto simp: history_ids_def)
  then show ?thesis
    using run_expired [OF ok assms(6), of rid E] rid assms(4,5,7) by (simp add: known_ids_def decides_for_def) blast
qed

theorem expired_request_never_approved_witness:
  "list_all (\<lambda>h. \<not> (request_id h = ''r1'' \<and> status h = APPROVED))
     (am_history (foldl (am_exec sample_hash) (foldl (am_exec sample_hash) sample_am [Create sample_args sample_rd])
        [Approve ''r1'' [] ''u'' (sample_dd (seconds 301))]))"
proof -
  let ?am = "foldl (am_exec sample_hash) sample_am [Create sample_args sample_rd]"
  have f: "fresh_run sample_hash sample_am [Create sample_args sample_rd]"
    using am_started_ok [OF sample_am_started] by (simp add: known_ids_def history_ids_def)
  have g: "dict_get (requests ?am) ''r1'' = Some (pending_request sample_am sample_args sample_rd)"
    using sample_pending by simp
  have e: "expires_at (pending_request sample_am sample_args sample_rd) = Some (seconds 300)"
    by (simp add: sample_rd_def sample_am_def init_ApprovalManager_def)
  show ?thesis
    using expired_request_never_approved [OF sample_am_started f refl g e, of "[Approve ''r1'' [] ''u'' (sample_dd (seconds 301))]"]
    by (simp add: sample_dd_def seconds_def list_all_iff)
qed

text \<open>
  Every request is accounted for exactly once.  After any calls the ids in the history and the
  ids of the open requests are pairwise different and are together exactly the ids created: a
  request is decided at most once and never lost.
\<close>

theorem requests_accounted_once:
  assumes "am_started am0" and "fresh_run H am0 calls" and "am = foldl (am_exec H) am0 calls"
  shows "distinct (map request_id (am_history am) @ dict_keys (requests am)) \<and>
    set (map request_id (am_history am) @ dict_keys (requests am)) = {rid. \<exists>a d. Create a d \<in> set calls \<and> rd_id d = rid}"
proof -
  have "am_ok am \<and> set (known_ids am) = (\<Union>c \<in> set calls. created_id c) \<union> set (known_ids am0)"
    using run_ok [of am0 H calls] am_started_ok [OF assms(1)] assms(2,3) by simp
  moreover have "known_ids am0 = []" using am_started_ok [OF assms(1)] by (simp add: known_ids_def history_ids_def)
  moreover have "(\<Union>c \<in> set calls. created_id c) = {rid. \<exists>a d. Create a d \<in> set calls \<and> rd_id d = rid}"
    by (force simp: created_id_def split: am_call.splits)
  ultimately show ?thesis by (simp add: am_ok_def known_ids_def history_ids_def)
qed

theorem requests_accounted_once_witness:
  "set (map request_id (am_history (foldl (am_exec sample_hash) sample_am [Create sample_args sample_rd, Approve ''r1'' [] ''u'' (sample_dd 5)])) @
     dict_keys (requests (foldl (am_exec sample_hash) sample_am [Create sample_args sample_rd, Approve ''r1'' [] ''u'' (sample_dd 5)]))) = {''r1''}"
  using requests_accounted_once [OF sample_am_started sample_fresh refl, of 5] by (auto simp: sample_rd_def)

text \<open>
  The sweep.  Asking for the pending requests returns exactly the open requests whose time has
  not run out, in order, and moves exactly the others to the history as expired.
\<close>

theorem pending_requests_sweeps_expired:
  assumes "am_started am0" and "fresh_run H am0 calls" and "am = foldl (am_exec H) am0 calls"
  shows "fst (get_pending_requests am clk io) =
      filter (\<lambda>r. \<not> is_expired r (clk (request_id r) 0)) (dict_values (requests am)) \<and>
    am_history (snd (get_pending_requests am clk io)) = am_history am @
      map (\<lambda>r. r\<lparr>status := EXPIRED, decided_at := Some (clk (request_id r) 1), decision_reason := PStr ''Expired''\<rparr>)
        (filter (\<lambda>r. is_expired r (clk (request_id r) 0)) (dict_values (requests am)))"
proof -
  have ok: "am_ok am" using run_ok [of am0 H calls] am_started_ok [OF assms(1)] assms(2,3) by simp
  have key: "\<forall>(k, r) \<in> set (requests am). request_id r = k" using ok by (auto simp: am_ok_def)
  have "dict_values (filter (\<lambda>(k, r). \<not> exp_now clk r) rs) = filter (\<lambda>r. \<not> exp_now clk r) (dict_values rs)"
    for rs :: "(string, ApprovalRequest) dict"
    by (induction rs) auto
  moreover have "expire clk = (\<lambda>r. r\<lparr>status := EXPIRED, decided_at := Some (clk (request_id r) 1), decision_reason := PStr ''Expired''\<rparr>)"
    by (simp add: expire_def fun_eq_iff)
  moreover have "fst (get_pending_requests am clk io) = dict_values (filter (\<lambda>(k, r). \<not> exp_now clk r) (requests am))"
    using pending_after_sweep [of am clk io] sweep_requests [OF key am_ok_ids [OF ok], of clk io 0] by (simp only:)
  moreover have "am_history (snd (get_pending_requests am clk io)) =
      am_history am @ map (expire clk) (filter (exp_now clk) (dict_values (requests am)))"
    using pending_after_sweep [of am clk io] sweep_eq [of am "dict_values (requests am)" clk io 0] by (simp only:)
  ultimately show ?thesis by (simp only: simp_thms)
qed

theorem pending_requests_sweeps_expired_witness:
  "fst (get_pending_requests (foldl (am_exec sample_hash) sample_am [Create sample_args sample_rd]) (\<lambda>_ _. seconds 301) (\<lambda>_. True)) = []"
proof -
  have f: "fresh_run sample_hash sample_am [Create sample_args sample_rd]"
    using am_started_ok [OF sample_am_started] by (simp add: known_ids_def history_ids_def)
  have "is_expired (pending_request sample_am sample_args sample_rd) (seconds 301)"
    by (simp add: is_expired_def sample_rd_def sample_am_def init_ApprovalManager_def seconds_def)
  then show ?thesis
    using pending_requests_sweeps_expired [OF sample_am_started f refl, of "\<lambda>_ _. seconds 301" "\<lambda>_. True"] sample_pending by simp
qed

text \<open>
  Restart.  If the file system accepted every write, a manager started on the files of another
  one has exactly its open requests, each as JSON renders it and pending again.
\<close>

theorem restart_restores_open_requests:
  assumes "am_started am0" and "persistence am0 \<noteq> None" and "fresh_run H am0 calls" and "list_all io_ok calls"
    and "am = foldl (am_exec H) am0 calls"
  shows "dict_get (requests (init_ApprovalManager auto t cb (persistence am) now w)) rid =
    map_option (\<lambda>r. norm_request (r\<lparr>status := PENDING\<rparr>)) (dict_get (requests am) rid)"
proof -
  have st: "am_ok am0" "requests am0 = []" using am_started_ok [OF assms(1)] by auto
  have ok: "am_ok am" using run_ok [of am0 H calls] st assms(3,5) by simp
  have "in_step am0"
    using assms(1,2) st(2) by (auto simp: am_started_def init_ApprovalManager_def in_step_def)
  then have "in_step am" unfolding assms(5) using run_in_step st(1) assms(3,4) by blast
  then obtain p where p: "persistence am = Some p" "dict_ok (pending_files p)"
    "\<And>k. \<exists>t. dict_get (pending_files p) k =
       map_option (\<lambda>r. file_content (request_to_dict (r\<lparr>status := PENDING\<rparr>) t)) (dict_get (requests am) k)"
    by (auto simp: in_step_def)
  have content: "\<exists>r t. dict_get (requests am) k = Some r \<and> data = file_content (request_to_dict (r\<lparr>status := PENDING\<rparr>) t)"
    if "(k, data) \<in> set (pending_files p)" for k data
    using that p(2) p(3) [of k] by (cases "dict_get (requests am) k") (auto simp: dict_ok_get_iff [symmetric])
  have "\<forall>(k, data) \<in> set (pending_files p). \<exists>r. request_from_data data now = Some r \<and> request_id r = k"
    using content am_ok_get [OF ok] by (fastforce simp: request_file_roundtrip norm_request_def)
  from load_requests_get [OF _ this, of "[]" rid] p(2)
  have "dict_get (requests (init_ApprovalManager auto t cb (persistence am) now w)) rid =
      (case dict_get (pending_files p) rid of Some data \<Rightarrow> request_from_data data now | None \<Rightarrow> None)"
    by (simp add: init_ApprovalManager_def p(1) load_all_pending_def dict_ok_def split: option.split)
  then show ?thesis using p(3) [of rid] by (cases "dict_get (requests am) rid") (auto simp: request_file_roundtrip)
qed

theorem restart_restores_open_requests_witness:
  "dict_get (requests (init_ApprovalManager True 300 None
      (persistence (foldl (am_exec sample_hash) sample_am [Create sample_args sample_rd])) 9 () :: unit ApprovalManager)) ''r1'' =
   Some (norm_request ((pending_request sample_am sample_args sample_rd)\<lparr>status := PENDING\<rparr>))"
proof -
  have f: "fresh_run sample_hash sample_am [Create sample_args sample_rd]"
    using am_started_ok [OF sample_am_started] by (simp add: known_ids_def history_ids_def)
  have "persistence sample_am \<noteq> None" by (simp add: sample_am_def init_ApprovalManager_def)
  then show ?thesis
    using restart_restores_open_requests [OF sample_am_started _ f, where auto = True and t = 300 and cb = None
        and now = 9 and w = "()" and rid = "''r1''"] sample_pending
    by (simp add: sample_rd_def)
qed

subsection \<open>Classes without consent\<close>

text \<open>
  Data-sensitive changes require local approval by the contract of the change classes, yet the
  manager approves them by itself, as it does safety operations.
\<close>

lemma data_sensitive_auto_approved:
  assumes "ra_change_class a = DATA_SENSITIVE"
  shows "requires_local_approval (ra_change_class a) \<and>
    fst (create_request H am a d) = Inr (auto_request H a d) \<and> status (auto_request H a d) = APPROVED"
  using create_auto [of am a H d] assms by (simp add: requires_local_approval_def should_auto_approve_def)

text \<open>The default change class of a persisted record is not a value of the enum: the record is dropped.\<close>

lemma record_without_class_is_dropped:
  "dict_get data ''change_class'' = None \<Longrightarrow> request_from_data data now = None"
  by (simp add: request_from_data_def get_default_def enum_by_value_def all_change_classes_def
      split: option.split pyval.split)

end
