(* ===== verification/Py_Float.thy ===== *)
theory Py_Float
  imports Py_Text
begin

section \<open>Floats\<close>

text \<open>
  Comparison of floats is exact and false for NaN; \<^verbatim>\<open>min\<close> and \<^verbatim>\<open>max\<close> keep
  their first argument unless the second is strictly smaller or larger.  The rounding of the
  arithmetic operations is a parameter; \<open>exact_ops\<close> is the arithmetic without rounding.
\<close>

fun flt_lt :: "pyfloat \<Rightarrow> pyfloat \<Rightarrow> bool" where
  "flt_lt NaN _ = False"
| "flt_lt _ NaN = False"
| "flt_lt (Fin a) (Fin b) = (a < b)"
| "flt_lt NInf NInf = False"
| "flt_lt NInf _ = True"
| "flt_lt _ NInf = False"
| "flt_lt PInf _ = False"
| "flt_lt _ PInf = True"

fun flt_le :: "pyfloat \<Rightarrow> pyfloat \<Rightarrow> bool" where
  "flt_le NaN _ = False"
| "flt_le _ NaN = False"
| "flt_le (Fin a) (Fin b) = (a \<le> b)"
| "flt_le NInf _ = True"
| "flt_le _ NInf = False"
| "flt_le _ PInf = True"
| "flt_le PInf _ = False"

definition flt_min :: "pyfloat \<Rightarrow> pyfloat \<Rightarrow> pyfloat" where
  "flt_min a b = (if flt_lt b a then b else a)"

definition flt_max :: "pyfloat \<Rightarrow> pyfloat \<Rightarrow> pyfloat" where
  "flt_max a b = (if flt_lt a b then b else a)"

fun flt_neg :: "pyfloat \<Rightarrow> pyfloat" where
  "flt_neg (Fin a) = Fin (- a)"
| "flt_neg PInf = NInf"
| "flt_neg NInf = PInf"
| "flt_neg NaN = NaN"

fun flt_abs :: "pyfloat \<Rightarrow> pyfloat" where
  "flt_abs (Fin a) = Fin \<bar>a\<bar>"
| "flt_abs NInf = PInf"
| "flt_abs x = x"

text \<open>\<^verbatim>\<open>x ** n\<close> for an integer \<open>n\<close> raises when the result is too large.  No
  caller divides by zero.\<close>

record float_ops =
  fadd :: "pyfloat \<Rightarrow> pyfloat \<Rightarrow> pyfloat"
  fsub :: "pyfloat \<Rightarrow> pyfloat \<Rightarrow> pyfloat"
  fmul :: "pyfloat \<Rightarrow> pyfloat \<Rightarrow> pyfloat"
  fdiv :: "pyfloat \<Rightarrow> pyfloat \<Rightarrow> pyfloat"
  fpow :: "pyfloat \<Rightarrow> int \<Rightarrow> pyfloat option"

fun lift_op :: "(rat \<Rightarrow> rat \<Rightarrow> rat) \<Rightarrow> pyfloat \<Rightarrow> pyfloat \<Rightarrow> pyfloat" where
  "lift_op f (Fin a) (Fin b) = Fin (f a b)"
| "lift_op f _ _ = NaN"

definition exact_pow :: "pyfloat \<Rightarrow> int \<Rightarrow> pyfloat option" where
  "exact_pow x n = (case x of Fin a \<Rightarrow> Some (Fin (a ^ nat n)) | _ \<Rightarrow> Some NaN)"

definition exact_ops :: float_ops where
  "exact_ops = \<lparr>fadd = lift_op (+), fsub = lift_op (-), fmul = lift_op (*), fdiv = lift_op (/), fpow = exact_pow\<rparr>"

lemma flt_le_refl [simp]: "flt_le a a \<longleftrightarrow> a \<noteq> NaN"
  by (cases a) auto

lemma flt_lt_imp_le: "flt_lt a b \<Longrightarrow> flt_le a b"
  by (cases a; cases b) auto

lemma flt_le_trans: "flt_le a b \<Longrightarrow> flt_le b c \<Longrightarrow> flt_le a c"
  by (cases a; cases b; cases c) auto

lemma flt_lt_le_trans: "flt_lt a b \<Longrightarrow> flt_le b c \<Longrightarrow> flt_lt a c"
  by (cases a; cases b; cases c) auto

lemma flt_le_lt_trans: "flt_le a b \<Longrightarrow> flt_lt b c \<Longrightarrow> flt_lt a c"
  by (cases a; cases b; cases c) auto

lemma flt_not_lt: "a \<noteq> NaN \<Longrightarrow> b \<noteq> NaN \<Longrightarrow> \<not> flt_lt a b \<longleftrightarrow> flt_le b a"
  by (cases a; cases b) auto

lemma flt_lt_irrefl [simp]: "\<not> flt_lt a a"
  by (cases a) auto

lemma flt_min_le: "a \<noteq> NaN \<Longrightarrow> flt_le (flt_min a b) a"
  by (cases a; cases b) (auto simp: flt_min_def)

lemma flt_max_ge: "a \<noteq> NaN \<Longrightarrow> flt_le a (flt_max a b)"
  by (auto simp: flt_max_def flt_lt_imp_le)

lemma flt_min_not_NaN: "a \<noteq> NaN \<Longrightarrow> flt_min a b \<noteq> NaN"
  by (cases a; cases b) (auto simp: flt_min_def)

end
