(* ===== verification/Fix_Protocol.thy ===== *)
theory Fix_Protocol
  imports Py_Text
begin

section \<open>The FIX 4.4 message codec\<close>

text \<open>
  Model of \<^verbatim>\<open>packages/agent/execution/fix_protocol.py\<close>: building a message with its
  body length and checksum, taking it apart, checking the checksum, and the four message
  builders with the session's sequence number.  A message is a text whose characters are the
  latin-1 bytes of the wire.  A field value is the text \<^verbatim>\<open>str(v)\<close> gives.  The shortest
  decimal of a fractional float, \<^verbatim>\<open>repr(f)\<close>, is the parameter \<open>rep\<close>.
\<close>

subsection \<open>Tags and enumerations\<close>

definition SOH :: char where
  "SOH = CHR 0x01"

definition BEGIN_STRING :: string where
  "BEGIN_STRING = ''FIX.4.4''"

abbreviation "Tag_BeginString \<equiv> ''8''"
abbreviation "Tag_BodyLength \<equiv> ''9''"
abbreviation "Tag_MsgType \<equiv> ''35''"
abbreviation "Tag_SenderCompID \<equiv> ''49''"
abbreviation "Tag_TargetCompID \<equiv> ''56''"
abbreviation "Tag_MsgSeqNum \<equiv> ''34''"
abbreviation "Tag_SendingTime \<equiv> ''52''"
abbreviation "Tag_CheckSum \<equiv> ''10''"
abbreviation "Tag_ClOrdID \<equiv> ''11''"
abbreviation "Tag_OrigClOrdID \<equiv> ''41''"
abbreviation "Tag_OrderID \<equiv> ''37''"
abbreviation "Tag_ExecID \<equiv> ''17''"
abbreviation "Tag_Symbol \<equiv> ''55''"
abbreviation "Tag_Side \<equiv> ''54''"
abbreviation "Tag_OrderQty \<equiv> ''38''"
abbreviation "Tag_OrdType \<equiv> ''40''"
abbreviation "Tag_Price \<equiv> ''44''"
abbreviation "Tag_TimeInForce \<equiv> ''59''"
abbreviation "Tag_TransactTime \<equiv> ''60''"
abbreviation "Tag_OrdStatus \<equiv> ''39''"
abbreviation "Tag_ExecType \<equiv> ''150''"
abbreviation "Tag_CumQty \<equiv> ''14''"
abbreviation "Tag_AvgPx \<equiv> ''6''"
abbreviation "Tag_LeavesQty \<equiv> ''151''"

datatype Side = BUY | SELL

fun Side_value :: "Side \<Rightarrow> string" where
  "Side_value BUY = ''1''"
| "Side_value SELL = ''2''"

datatype OrdType = MARKET | LIMIT

fun OrdType_value :: "OrdType \<Rightarrow> string" where
  "OrdType_value MARKET = ''1''"
| "OrdType_value LIMIT = ''2''"

datatype MsgType =
    NEW_ORDER_SINGLE | ORDER_CANCEL_REQUEST | ORDER_CANCEL_REPLACE_REQUEST
  | EXECUTION_REPORT | LOGON | HEARTBEAT

fun MsgType_value :: "MsgType \<Rightarrow> string" where
  "MsgType_value NEW_ORDER_SINGLE = ''D''"
| "MsgType_value ORDER_CANCEL_REQUEST = ''F''"
| "MsgType_value ORDER_CANCEL_REPLACE_REQUEST = ''G''"
| "MsgType_value EXECUTION_REPORT = ''8''"
| "MsgType_value LOGON = ''A''"
| "MsgType_value HEARTBEAT = ''0''"

text \<open>An argument that is a member of the enumeration or a text of its own.\<close>

datatype 'e enum_arg = Member 'e | Text string

fun arg_value :: "('e \<Rightarrow> string) \<Rightarrow> 'e enum_arg \<Rightarrow> string" where
  "arg_value val (Member e) = val e"
| "arg_value val (Text s) = s"

subsection \<open>Encoding and decoding\<close>

type_synonym fix_fields = "(string \<times> string) list"

definition pad3 :: "string \<Rightarrow> string" where
  "pad3 s = replicate (3 - length s) (CHR ''0'') @ s"

definition checksum :: "string \<Rightarrow> string" where
  "checksum s = pad3 (str_nat (sum_list (map of_char s) mod 256))"

definition field :: "string \<times> string \<Rightarrow> string" where
  "field tv = fst tv @ ''='' @ snd tv"

definition body :: "string \<Rightarrow> fix_fields \<Rightarrow> string" where
  "body msg_type fields = join [SOH] (field (Tag_MsgType, msg_type) # map field fields) @ [SOH]"

definition prelim :: "string \<Rightarrow> string \<Rightarrow> fix_fields \<Rightarrow> string" where
  "prelim begin msg_type fields =
     field (Tag_BeginString, begin) @ [SOH] @
     field (Tag_BodyLength, str_nat (length (body msg_type fields))) @ [SOH] @ body msg_type fields"

definition encode_with :: "string \<Rightarrow> string \<Rightarrow> fix_fields \<Rightarrow> string" where
  "encode_with begin msg_type fields =
     (let pre = prelim begin msg_type fields in pre @ field (Tag_CheckSum, checksum pre) @ [SOH])"

definition encode_message :: "string \<Rightarrow> fix_fields \<Rightarrow> string" where
  "encode_message msg_type fields = encode_with BEGIN_STRING msg_type fields"

fun parse_part :: "(string, string) dict \<Rightarrow> string \<Rightarrow> (string, string) dict" where
  "parse_part out [] = out"
| "parse_part out part =
     (case partition_at (CHR ''='') part of (tag, sep, val) \<Rightarrow> if sep then dict_set out tag val else out)"

definition parse_message :: "string \<Rightarrow> (string, string) dict" where
  "parse_message raw = foldl parse_part [] (split_on SOH raw)"

text \<open>
  \<^verbatim>\<open>raw[i:].split(SOH)[0].split("=")[1]\<close> where \<^verbatim>\<open>raw[i:]\<close> begins with
  \<^verbatim>\<open>10=\<close>: both indices exist.
\<close>

definition checksum_field :: "string \<Rightarrow> string" where
  "checksum_field s = split_on (CHR ''='') (hd (split_on SOH s)) ! 1"

definition verify_checksum :: "string \<Rightarrow> bool" where
  "verify_checksum raw =
     (case rfind_sub (SOH # Tag_CheckSum @ ''='') raw of
        Some idx \<Rightarrow> checksum (take (idx + 1) raw) = checksum_field (drop (idx + 1) raw)
      | None \<Rightarrow>
          (case find_sub (Tag_CheckSum @ ''='') raw of
             None \<Rightarrow> False
           | Some idx \<Rightarrow> checksum (take idx raw) = checksum_field (drop idx raw)))"

subsection \<open>Message builders\<close>

record FixSession =
  fs_sender :: string
  fs_target :: string
  fs_seq :: int

definition init_FixSession :: FixSession where
  "init_FixSession = \<lparr>fs_sender = ''RIVEN'', fs_target = ''BROKER'', fs_seq = 1\<rparr>"

definition next_seq :: "FixSession \<Rightarrow> int \<times> FixSession" where
  "next_seq s = (fs_seq s, s\<lparr>fs_seq := fs_seq s + 1\<rparr>)"

definition session_fields :: "string \<Rightarrow> FixSession \<Rightarrow> fix_fields \<times> FixSession" where
  "session_fields sending_time s =
     (case next_seq s of (n, s') \<Rightarrow>
        ([(Tag_SenderCompID, fs_sender s), (Tag_TargetCompID, fs_target s),
          (Tag_MsgSeqNum, str_int n), (Tag_SendingTime, sending_time)], s'))"

text \<open>\<^verbatim>\<open>if session is not None: fields += session._session_fields(transact_time)\<close>\<close>

fun leading_fields :: "string \<Rightarrow> FixSession option \<Rightarrow> fix_fields \<times> FixSession option" where
  "leading_fields time None = ([], None)"
| "leading_fields time (Some s) = (case session_fields time s of (fs, s') \<Rightarrow> (fs, Some s'))"

datatype num_error = Value_error | Overflow_error

text \<open>\<^verbatim>\<open>int(f)\<close> raises for NaN and the infinities.\<close>

fun num :: "(rat \<Rightarrow> string) \<Rightarrow> pyfloat \<Rightarrow> num_error + string" where
  "num rep (Fin q) = Inr (if q = of_int \<lfloor>q\<rfloor> then str_int \<lfloor>q\<rfloor> else rep q)"
| "num rep PInf = Inl Overflow_error"
| "num rep NInf = Inl Overflow_error"
| "num rep NaN = Inl Value_error"

fun price_field :: "(rat \<Rightarrow> string) \<Rightarrow> pyfloat option \<Rightarrow> num_error + fix_fields" where
  "price_field rep None = Inr []"
| "price_field rep (Some p) = map_sum id (\<lambda>s. [(Tag_Price, s)]) (num rep p)"

text \<open>
  The two builders with a quantity share their fields: \<open>ids\<close> are the identifiers they
  begin with.  A number that cannot be printed raises after the sequence number was taken.
\<close>

definition order_fields ::
  "(rat \<Rightarrow> string) \<Rightarrow> fix_fields \<Rightarrow> string \<Rightarrow> Side enum_arg \<Rightarrow> pyfloat \<Rightarrow> OrdType enum_arg \<Rightarrow> pyfloat option \<Rightarrow>
   string \<Rightarrow> string \<Rightarrow> num_error + fix_fields" where
  "order_fields rep ids symbol side qty ord_type price tif transact_time =
     (case num rep qty of
        Inl e \<Rightarrow> Inl e
      | Inr q \<Rightarrow>
          map_sum id (\<lambda>ps. ids @
              [(Tag_Symbol, symbol), (Tag_Side, arg_value Side_value side), (Tag_OrderQty, q),
               (Tag_OrdType, arg_value OrdType_value ord_type)] @ ps @
              [(Tag_TimeInForce, tif), (Tag_TransactTime, transact_time)])
            (price_field rep price))"

definition new_order_single ::
  "(rat \<Rightarrow> string) \<Rightarrow> string \<Rightarrow> string \<Rightarrow> Side enum_arg \<Rightarrow> pyfloat \<Rightarrow> OrdType enum_arg \<Rightarrow> pyfloat option \<Rightarrow>
   string \<Rightarrow> string \<Rightarrow> FixSession option \<Rightarrow> (num_error, string, FixSession option) pyres" where
  "new_order_single rep cl_ord_id symbol side qty ord_type price tif transact_time session =
     (case leading_fields transact_time session of (lead, session') \<Rightarrow>
        (map_sum id (\<lambda>fs. encode_message (MsgType_value NEW_ORDER_SINGLE) (lead @ fs))
           (order_fields rep [(Tag_ClOrdID, cl_ord_id)] symbol side qty ord_type price tif transact_time),
         session'))"

definition order_cancel_request ::
  "string \<Rightarrow> string \<Rightarrow> string \<Rightarrow> Side enum_arg \<Rightarrow> string \<Rightarrow> FixSession option \<Rightarrow> string \<times> FixSession option" where
  "order_cancel_request orig_cl_ord_id cl_ord_id symbol side transact_time session =
     (case leading_fields transact_time session of (lead, session') \<Rightarrow>
        (encode_message (MsgType_value ORDER_CANCEL_REQUEST)
           (lead @ [(Tag_OrigClOrdID, orig_cl_ord_id), (Tag_ClOrdID, cl_ord_id), (Tag_Symbol, symbol),
                    (Tag_Side, arg_value Side_value side), (Tag_TransactTime, transact_time)]),
         session'))"

definition order_cancel_replace_request ::
  "(rat \<Rightarrow> string) \<Rightarrow> string \<Rightarrow> string \<Rightarrow> string \<Rightarrow> Side enum_arg \<Rightarrow> pyfloat \<Rightarrow> OrdType enum_arg \<Rightarrow>
   pyfloat option \<Rightarrow> string \<Rightarrow> string \<Rightarrow> FixSession option \<Rightarrow> (num_error, string, FixSession option) pyres" where
  "order_cancel_replace_request rep orig_cl_ord_id cl_ord_id symbol side qty ord_type price tif transact_time session =
     (case leading_fields transact_time session of (lead, session') \<Rightarrow>
        (map_sum id (\<lambda>fs. encode_message (MsgType_value ORDER_CANCEL_REPLACE_REQUEST) (lead @ fs))
           (order_fields rep [(Tag_OrigClOrdID, orig_cl_ord_id), (Tag_ClOrdID, cl_ord_id)]
              symbol side qty ord_type price tif transact_time),
         session'))"

fun all_nums :: "(rat \<Rightarrow> string) \<Rightarrow> (string \<times> pyfloat) list \<Rightarrow> num_error + fix_fields" where
  "all_nums rep [] = Inr []"
| "all_nums rep ((t, x) # xs) =
     (case num rep x of
        Inl e \<Rightarrow> Inl e
      | Inr s \<Rightarrow> map_sum id (\<lambda>fs. (t, s) # fs) (all_nums rep xs))"

definition execution_report ::
  "(rat \<Rightarrow> string) \<Rightarrow> string \<Rightarrow> string \<Rightarrow> string \<Rightarrow> string \<Rightarrow> Side enum_arg \<Rightarrow> string \<Rightarrow> string \<Rightarrow>
   pyfloat \<Rightarrow> pyfloat \<Rightarrow> pyfloat \<Rightarrow> num_error + string" where
  "execution_report rep order_id cl_ord_id exec_id symbol side ord_status exec_type cum_qty avg_px leaves_qty =
     map_sum id (\<lambda>ns. encode_message (MsgType_value EXECUTION_REPORT)
         ([(Tag_OrderID, order_id), (Tag_ClOrdID, cl_ord_id), (Tag_ExecID, exec_id), (Tag_Symbol, symbol),
           (Tag_Side, arg_value Side_value side), (Tag_OrdStatus, ord_status), (Tag_ExecType, exec_type)] @ ns))
       (all_nums rep [(Tag_CumQty, cum_qty), (Tag_AvgPx, avg_px), (Tag_LeavesQty, leaves_qty)])"

subsection \<open>Fields on the wire\<close>

text \<open>A field that survives the wire: no separator in it, and no equals sign in its tag.\<close>

definition field_ok :: "string \<times> string \<Rightarrow> bool" where
  "field_ok tv = (SOH \<notin> set (fst tv) \<and> CHR ''='' \<notin> set (fst tv) \<and> SOH \<notin> set (snd tv))"

lemma SOH_facts [simp]: "\<not> is_digit SOH" "SOH \<noteq> CHR ''=''" "SOH \<noteq> CHR ''8''" "SOH \<noteq> CHR ''0''"
  "SOH \<noteq> CHR ''1''" "SOH \<noteq> CHR ''9''" "SOH \<noteq> CHR ''3''" "SOH \<noteq> CHR ''5''"
  by (simp_all add: SOH_def is_digit_def)

lemma field_ok_simps [simp]:
  "field_ok (t, v) \<longleftrightarrow> SOH \<notin> set t \<and> CHR ''='' \<notin> set t \<and> SOH \<notin> set v"
  by (simp add: field_ok_def)

lemma SOH_not_field: "field_ok tv \<Longrightarrow> SOH \<notin> set (field tv)"
  by (auto simp: field_ok_def field_def)

lemma field_not_Nil [simp]: "field tv \<noteq> []"
  by (simp add: field_def)

lemma join_terminated: "xs \<noteq> [] \<Longrightarrow> join [c] xs @ [c] = concat (map (\<lambda>x. x @ [c]) xs)"
  by (induction "[c]" xs rule: join.induct) auto

lemma body_terminated:
  "body mt fs = concat (map (\<lambda>f. field f @ [SOH]) ((Tag_MsgType, mt) # fs))"
  using join_terminated [of "map field ((Tag_MsgType, mt) # fs)" SOH]
  by (simp add: body_def comp_def)

text \<open>All fields of an encoded message, in order.\<close>

definition wire_fields :: "string \<Rightarrow> fix_fields \<Rightarrow> fix_fields" where
  "wire_fields mt fs =
     [(Tag_BeginString, BEGIN_STRING), (Tag_BodyLength, str_nat (length (body mt fs))),
      (Tag_MsgType, mt)] @ fs @ [(Tag_CheckSum, checksum (prelim BEGIN_STRING mt fs))]"

lemma encode_terminated:
  "encode_message mt fs = concat (map (\<lambda>f. field f @ [SOH]) (wire_fields mt fs))"
  by (simp add: encode_message_def encode_with_def Let_def wire_fields_def prelim_def body_terminated)

lemma SOH_not_checksum: "SOH \<notin> set (checksum s)"
  by (auto simp: checksum_def pad3_def dest: str_nat_digits)

lemma eq_not_checksum: "CHR ''='' \<notin> set (checksum s)"
  by (auto simp: checksum_def pad3_def is_digit_def dest: str_nat_digits)

lemma SOH_not_str_nat [simp]: "SOH \<notin> set (str_nat n)"
  by (auto dest: str_nat_digits)

lemma wire_fields_ok: "list_all field_ok fs \<Longrightarrow> SOH \<notin> set mt \<Longrightarrow> list_all field_ok (wire_fields mt fs)"
  by (auto simp: wire_fields_def BEGIN_STRING_def SOH_not_checksum) (auto simp: SOH_def)

lemma parse_part_field: "field_ok tv \<Longrightarrow> parse_part out (field tv) = dict_set out (fst tv) (snd tv)"
proof -
  assume "field_ok tv"
  then have "partition_at (CHR ''='') (field tv) = (fst tv, True, snd tv)"
    by (auto simp: field_def field_ok_def intro: partition_at_first)
  moreover obtain c cs where "field tv = c # cs" by (cases "field tv") auto
  ultimately show ?thesis by simp
qed

lemma parse_fields:
  "list_all field_ok fs \<Longrightarrow>
   parse_message (concat (map (\<lambda>f. field f @ [SOH]) fs)) = foldl (\<lambda>d f. dict_set d (fst f) (snd f)) [] fs"
proof -
  assume fs: "list_all field_ok fs"
  have "split_on SOH (concat (map (\<lambda>x. x @ [SOH]) (map field fs)) @ []) = map field fs @ [[]]"
    by (rule split_on_frame) (use fs in \<open>auto simp: list_all_iff dest: SOH_not_field\<close>)
  then have "parse_message (concat (map (\<lambda>f. field f @ [SOH]) fs)) = foldl parse_part [] (map field fs)"
    by (simp add: parse_message_def comp_def)
  also have "\<dots> = foldl (\<lambda>d f. dict_set d (fst f) (snd f)) [] fs"
  proof -
    have "foldl parse_part d (map field fs) = foldl (\<lambda>d f. dict_set d (fst f) (snd f)) d fs" for d
      using fs by (induction fs arbitrary: d) (auto simp: parse_part_field simp del: parse_part.simps)
    then show ?thesis .
  qed
  finally show ?thesis .
qed

lemma fold_dict_set_distinct:
  "distinct (map fst (d @ fs)) \<Longrightarrow> foldl (\<lambda>d f. dict_set d (fst f) (snd f)) d fs = d @ fs"
proof (induction fs arbitrary: d)
  case Nil
  then show ?case by simp
next
  case (Cons f fs)
  then have "dict_set d (fst f) (snd f) = d @ [f]"
    by (subst dict_set_new) (auto simp: map_of_eq_None_iff)
  with Cons show ?case by simp
qed

text \<open>
  A header or trailer tag is never the tag of a caller's field, the tags of one message differ.
\<close>

definition tags_ok :: "fix_fields \<Rightarrow> bool" where
  "tags_ok fs =
     (distinct (map fst fs) \<and>
      list_all (\<lambda>f. fst f \<notin> {Tag_BeginString, Tag_BodyLength, Tag_MsgType, Tag_CheckSum}) fs)"

lemma wire_fields_distinct: "tags_ok fs \<Longrightarrow> distinct (map fst (wire_fields mt fs))"
  by (auto simp: tags_ok_def wire_fields_def list_all_iff)

subsection \<open>Round trip\<close>

text \<open>
  C23: decoding an encoded message gives back exactly its fields, in order, between the header
  (version, body length, type) and the checksum, when no field contains the separator and the
  tags are distinct and not those of header and trailer.
\<close>

theorem parse_encode_roundtrip:
  assumes "list_all field_ok fs" and "SOH \<notin> set mt" and "tags_ok fs"
  shows "parse_message (encode_message mt fs) = wire_fields mt fs"
proof -
  have "parse_message (encode_message mt fs) =
      foldl (\<lambda>d f. dict_set d (fst f) (snd f)) [] (wire_fields mt fs)"
    unfolding encode_terminated by (rule parse_fields) (rule wire_fields_ok [OF assms(1,2)])
  also have "\<dots> = [] @ wire_fields mt fs"
    by (rule fold_dict_set_distinct) (simp add: wire_fields_distinct [OF assms(3)])
  finally show ?thesis by simp
qed

theorem parse_encode_roundtrip_witness:
  "parse_message (encode_message ''D'' [(Tag_ClOrdID, ''c=1''), (Tag_Symbol, [])]) =
   wire_fields ''D'' [(Tag_ClOrdID, ''c=1''), (Tag_Symbol, [])]"
  by (rule parse_encode_roundtrip) (simp_all add: tags_ok_def SOH_def)

subsection \<open>Checksums\<close>

text \<open>Where the trailer begins: the last separator that is followed by its tag.\<close>

lemma rfind_trailer:
  assumes "SOH \<notin> set cs"
  shows "rfind_sub (SOH # Tag_CheckSum @ ''='') (a @ SOH # field (Tag_CheckSum, cs) @ [SOH]) = Some (length a)"
proof (rule rfind_sub_last)
  have "SOH \<notin> set (field (Tag_CheckSum, cs))" using assms by (auto simp: field_def)
  then show "rfind_sub (SOH # Tag_CheckSum @ ''='') (field (Tag_CheckSum, cs) @ [SOH]) = None"
    by (rule rfind_sub_tail) simp
  show "prefix (SOH # Tag_CheckSum @ ''='') (SOH # field (Tag_CheckSum, cs) @ [SOH])"
    by (simp add: field_def)
qed

lemma checksum_field_trailer:
  "SOH \<notin> set cs \<Longrightarrow> CHR ''='' \<notin> set cs \<Longrightarrow> checksum_field (field (Tag_CheckSum, cs) @ [SOH]) = cs"
proof -
  assume cs: "SOH \<notin> set cs" "CHR ''='' \<notin> set cs"
  then have "split_on SOH (field (Tag_CheckSum, cs) @ SOH # []) = [field (Tag_CheckSum, cs), []]"
    by (subst split_on_snoc) (auto simp: field_def)
  moreover have "split_on (CHR ''='') (''10'' @ CHR ''='' # cs) = [''10'', cs]"
    using cs by (subst split_on_snoc) (auto simp: split_on_absent)
  ultimately show ?thesis by (simp add: checksum_field_def field_def)
qed

lemma verify_checksum_trailer:
  assumes "SOH \<notin> set cs" and "CHR ''='' \<notin> set cs"
  shows "verify_checksum (a @ [SOH] @ field (Tag_CheckSum, cs) @ [SOH]) \<longleftrightarrow> checksum (a @ [SOH]) = cs"
  using rfind_trailer [OF assms(1), of a] checksum_field_trailer [OF assms]
  by (simp add: verify_checksum_def del: rfind_sub.simps)

text \<open>What is summed up ends with a separator.\<close>

lemma prelim_ends: "\<exists>a. prelim begin mt fs = a @ [SOH]"
  by (simp add: prelim_def body_def)

lemma encode_shape: "encode_with begin mt fs = prelim begin mt fs @ field (Tag_CheckSum, checksum (prelim begin mt fs)) @ [SOH]"
  by (simp only: encode_with_def Let_def)

text \<open>
  Every encoded message passes the checksum test, whatever its fields contain: the trailer is
  found from the right.
\<close>

theorem encoded_checksum_verifies: "verify_checksum (encode_message mt fs)"
proof -
  obtain a where a: "prelim BEGIN_STRING mt fs = a @ [SOH]" using prelim_ends by blast
  have "verify_checksum (a @ [SOH] @ field (Tag_CheckSum, checksum (a @ [SOH])) @ [SOH])"
    by (simp only: verify_checksum_trailer [OF SOH_not_checksum eq_not_checksum])
  with a show ?thesis by (simp only: encode_message_def encode_shape append_assoc)
qed

lemma pad3_inj: "length s \<le> 3 \<Longrightarrow> length t \<le> 3 \<Longrightarrow> list_all is_digit s \<Longrightarrow> list_all is_digit t \<Longrightarrow>
    pad3 s = pad3 t \<Longrightarrow> digits_val s = digits_val t"
proof -
  assume eq: "pad3 s = pad3 t"
  have "digits_val (pad3 u) = digits_val u" for u
  proof -
    have "foldl (\<lambda>n c. 10 * n + digit_val c) 0 (replicate k (CHR ''0'')) = 0" for k
      by (induction k) (simp_all add: digit_val_def)
    then show ?thesis by (simp add: digits_val_def pad3_def)
  qed
  with eq show "digits_val s = digits_val t" by metis
qed

lemma checksum_eq_iff:
  "checksum s = checksum t \<longleftrightarrow>
   sum_list (map of_char s) mod 256 = (sum_list (map of_char t) mod 256 :: nat)"
proof
  let ?n = "sum_list (map of_char s) mod 256 :: nat" and ?m = "sum_list (map of_char t) mod 256 :: nat"
  assume "checksum s = checksum t"
  then have eq: "pad3 (str_nat ?n) = pad3 (str_nat ?m)" by (simp add: checksum_def)
  have "?n < 10 ^ 3" "?m < 10 ^ 3" by (rule less_trans [of _ 256]; simp)+
  then have len: "length (str_nat ?n) \<le> 3" "length (str_nat ?m) \<le> 3"
    by (simp_all only: str_nat_length zero_less_numeral)
  have "digits_val (str_nat ?n) = digits_val (str_nat ?m)"
    by (rule pad3_inj [OF len _ _ eq]) (auto simp: list_all_iff str_nat_digits)
  then show "?n = ?m" by simp
qed (simp add: checksum_def)

lemma mod_256_cancel:
  fixes a b k :: nat
  assumes "a < 256" and "b < 256" and "(a + k) mod 256 = (b + k) mod 256"
  shows "a = b"
proof -
  have "(int a + int k) mod 256 = (int b + int k) mod 256"
    using assms(3) by (metis of_nat_add of_nat_mod of_nat_numeral)
  then have "256 dvd (int a + int k) - (int b + int k)" by (simp only: mod_eq_dvd_iff)
  then have "256 dvd int a - int b" by simp
  then have "int a - int b = 0" using assms(1,2) dvd_imp_le_int [of "int a - int b" 256] by fastforce
  then show ?thesis by simp
qed

lemma of_char_less_256: "of_char (c :: char) < (256 :: nat)"
  by simp

text \<open>
  A single corrupted byte anywhere before the trailer is detected.  The other bytes may be
  anything: the byte that replaces one of the message, up to the last separator before the
  checksum, changes the sum by less than 256.
\<close>

theorem corrupted_byte_detected:
  assumes "prelim BEGIN_STRING mt fs = pre @ c # post" and "post \<noteq> []" and "c \<noteq> d"
  shows "\<not> verify_checksum (pre @ d # post @ field (Tag_CheckSum, checksum (prelim BEGIN_STRING mt fs)) @ [SOH])"
proof
  let ?cs = "checksum (prelim BEGIN_STRING mt fs)"
  assume bad: "verify_checksum (pre @ d # post @ field (Tag_CheckSum, ?cs) @ [SOH])"
  obtain a where "prelim BEGIN_STRING mt fs = a @ [SOH]" using prelim_ends by blast
  with assms(1,2) obtain p where p: "post = p @ [SOH]" by (cases post rule: rev_cases) auto
  have "checksum ((pre @ d # p) @ [SOH]) = ?cs"
    using bad verify_checksum_trailer [OF SOH_not_checksum eq_not_checksum, of "pre @ d # p"]
    by (simp add: p)
  then have "checksum (pre @ d # post) = checksum (pre @ c # post)" by (simp add: assms(1) p)
  then have "(of_char d + (sum_list (map of_char pre) + sum_list (map of_char post))) mod 256 =
      (of_char c + (sum_list (map of_char pre) + sum_list (map of_char post)) :: nat) mod 256"
    by (simp add: checksum_eq_iff algebra_simps)
  then have "(of_char d :: nat) = of_char c"
    by (rule mod_256_cancel [OF of_char_less_256 of_char_less_256])
  with assms(3) show False by simp
qed

theorem corrupted_byte_detected_witness:
  "\<not> verify_checksum (''8=FIX.4.4'' @ [SOH] @ ''9=5'' @ [SOH] @ ''35='' @ CHR ''F'' # [SOH] @
     field (Tag_CheckSum, checksum (prelim BEGIN_STRING ''D'' [])) @ [SOH])"
proof -
  have "str_nat (Suc (Suc (Suc (Suc (Suc 0))))) = ''5''" by code_simp
  then have p: "prelim BEGIN_STRING ''D'' [] =
      (''8=FIX.4.4'' @ [SOH] @ ''9=5'' @ [SOH] @ ''35='') @ CHR ''D'' # [SOH]"
    by (simp add: prelim_def body_def field_def BEGIN_STRING_def)
  from corrupted_byte_detected [OF p, of "CHR ''F''"] show ?thesis by simp
qed

text \<open>
  An order whose quantity cannot be printed raises after its sequence number was taken: the next
  message of the session leaves a gap.
\<close>

lemma failed_order_uses_number:
  "new_order_single rep cl_ord_id symbol side NaN ord_type price tif tt (Some s) =
   (Inl Value_error, Some (s\<lparr>fs_seq := fs_seq s + 1\<rparr>))"
  by (simp add: new_order_single_def session_fields_def next_seq_def order_fields_def)

end
