(* ===== verification/Fix_Session.thy ===== *)
theory Fix_Session
  imports Fix_Protocol
begin

section \<open>The FIX session engine\<close>

text \<open>
  Model of \<^verbatim>\<open>packages/agent/execution/fix_session.py\<close>: sequence numbers and
  their file, logon, heartbeats, resend requests and sequence resets, the extraction of
  messages from the byte stream, dispatch to the application.  The reader and heartbeat
  threads are the functions \<open>read_step\<close> and \<open>heartbeat_tick\<close>, one per turn of their
  loops; the bytes the socket returned and the clock are arguments.  A clock reading is the
  text \<^verbatim>\<open>_now()\<close> and the number \<^verbatim>\<open>time.time()\<close> in microseconds.
  The calls of \<^verbatim>\<open>on_app_message\<close> are the list \<open>delivered\<close>; its exceptions are
  swallowed by the code.
\<close>

subsection \<open>Session tags, message types, states\<close>

abbreviation "STag_HeartBtInt \<equiv> ''108''"
abbreviation "STag_EncryptMethod \<equiv> ''98''"
abbreviation "STag_TestReqID \<equiv> ''112''"
abbreviation "STag_ResetSeqNumFlag \<equiv> ''141''"
abbreviation "STag_BeginSeqNo \<equiv> ''7''"
abbreviation "STag_EndSeqNo \<equiv> ''16''"
abbreviation "STag_GapFillFlag \<equiv> ''123''"
abbreviation "STag_NewSeqNo \<equiv> ''36''"
abbreviation "STag_PossDupFlag \<equiv> ''43''"
abbreviation "STag_Text \<equiv> ''58''"

abbreviation "SMsg_TEST_REQUEST \<equiv> ''1''"
abbreviation "SMsg_RESEND_REQUEST \<equiv> ''2''"
abbreviation "SMsg_SEQUENCE_RESET \<equiv> ''4''"
abbreviation "SMsg_LOGOUT \<equiv> ''5''"

datatype SessionState = DISCONNECTED | CONNECTING | LOGON_SENT | ACTIVE | LOGOUT_SENT

fun SessionState_value :: "SessionState \<Rightarrow> string" where
  "SessionState_value DISCONNECTED = ''disconnected''"
| "SessionState_value CONNECTING = ''connecting''"
| "SessionState_value LOGON_SENT = ''logon_sent''"
| "SessionState_value ACTIVE = ''active''"
| "SessionState_value LOGOUT_SENT = ''logout_sent''"

subsection \<open>Transports\<close>

text \<open>
  A TCP socket raises when the connection is down (\<open>tr_up\<close>) or closed, the paired test
  transport drops what is sent after closing.  \<open>tr_out\<close> is what was put on the wire.
\<close>

datatype transport_kind = TCPTransport | PairedTransport

record Transport =
  tr_kind :: transport_kind
  tr_up :: bool
  tr_closed :: bool
  tr_out :: "string list"

datatype fe_error = Send_failed | Connect_failed | Bad_number | Bad_quantity num_error

fun transport_send :: "string \<Rightarrow> Transport \<Rightarrow> (fe_error, unit, Transport) pyres" where
  "transport_send data t =
     (case tr_kind t of
        TCPTransport \<Rightarrow>
          if tr_up t \<and> \<not> tr_closed t then py_return () (t\<lparr>tr_out := tr_out t @ [data]\<rparr>)
          else py_raise Send_failed t
      | PairedTransport \<Rightarrow>
          py_return () (if tr_closed t then t else t\<lparr>tr_out := tr_out t @ [data]\<rparr>))"

definition transport_close :: "Transport \<Rightarrow> Transport" where
  "transport_close t = t\<lparr>tr_closed := True\<rparr>"

subsection \<open>Sequence numbers and their file\<close>

text \<open>
  The file is absent, unreadable (anything \<^verbatim>\<open>json.load\<close> or \<^verbatim>\<open>int\<close>
  rejects), or an object with the two numbers, either of which may be missing.
\<close>

datatype seq_file = No_file | Broken_file | Seq_file "int option" "int option"

record SeqStore =
  sq_path :: bool
  out_seq :: int
  in_seq :: int
  sq_file :: seq_file
  sq_writable :: bool

definition seq_load :: "SeqStore \<Rightarrow> SeqStore" where
  "seq_load s =
     (if sq_path s
      then case sq_file s of
             No_file \<Rightarrow> s
           | Broken_file \<Rightarrow> s
           | Seq_file out inn \<Rightarrow>
               s\<lparr>out_seq := (case out of Some n \<Rightarrow> n | None \<Rightarrow> 1),
                 in_seq := (case inn of Some n \<Rightarrow> n | None \<Rightarrow> 1)\<rparr>
      else s)"

definition init_SeqStore :: "bool \<Rightarrow> seq_file \<Rightarrow> bool \<Rightarrow> SeqStore" where
  "init_SeqStore path file writable =
     seq_load \<lparr>sq_path = path, out_seq = 1, in_seq = 1, sq_file = file, sq_writable = writable\<rparr>"

definition seq_save :: "SeqStore \<Rightarrow> SeqStore" where
  "seq_save s =
     (if \<not> sq_path s then s
      else if sq_writable s then s\<lparr>sq_file := Seq_file (Some (out_seq s)) (Some (in_seq s))\<rparr> else s)"

definition seq_reset :: "SeqStore \<Rightarrow> SeqStore" where
  "seq_reset s = seq_save (s\<lparr>out_seq := 1, in_seq := 1\<rparr>)"

subsection \<open>The engine\<close>

record FixSessionEngine =
  fe_sender :: string
  fe_target :: string
  heartbeat_int :: int
  reset_seq_on_logon :: bool
  has_app :: bool
  is_acceptor :: bool
  fe_state :: SessionState
  fe_seq :: SeqStore
  fe_transport :: "Transport option"
  fe_buf :: string
  running :: bool
  reader_alive :: bool
  last_recv :: time
  last_sent :: time
  sent_messages :: "(int, string) dict"
  logged_on :: bool
  delivered :: "(string, string) dict list"

type_synonym clock = "string \<times> time"

definition init_FixSessionEngine ::
  "string \<Rightarrow> string \<Rightarrow> int \<Rightarrow> bool \<Rightarrow> bool \<Rightarrow> bool \<Rightarrow> SeqStore \<Rightarrow> Transport option \<Rightarrow> time \<Rightarrow> time \<Rightarrow> FixSessionEngine" where
  "init_FixSessionEngine sender target hb reset app acceptor store transport now1 now2 =
     \<lparr>fe_sender = sender, fe_target = target, heartbeat_int = hb, reset_seq_on_logon = reset,
      has_app = app, is_acceptor = acceptor, fe_state = DISCONNECTED, fe_seq = store,
      fe_transport = transport, fe_buf = [], running = False, reader_alive = False,
      last_recv = now1, last_sent = now2, sent_messages = [], logged_on = False, delivered = []\<rparr>"

subsection \<open>Sending\<close>

definition take_seq :: "string \<Rightarrow> FixSessionEngine \<Rightarrow> int \<times> fix_fields \<times> FixSessionEngine" where
  "take_seq stamp e =
     (let n = out_seq (fe_seq e) in
      (n, [(Tag_SenderCompID, fe_sender e), (Tag_TargetCompID, fe_target e),
           (Tag_MsgSeqNum, str_int n), (Tag_SendingTime, stamp)],
       e\<lparr>fe_seq := seq_save ((fe_seq e)\<lparr>out_seq := n + 1\<rparr>)\<rparr>))"

definition fe_send ::
  "clock \<Rightarrow> string \<Rightarrow> fix_fields \<Rightarrow> FixSessionEngine \<Rightarrow> (fe_error, int, FixSessionEngine) pyres" where
  "fe_send clk msg_type fl e =
     (case take_seq (fst clk) e of (n, sess, e1) \<Rightarrow>
        (let raw = encode_message msg_type (sess @ fl);
             e2 = e1\<lparr>sent_messages := dict_set (sent_messages e1) n raw\<rparr> in
         case fe_transport e2 of
           None \<Rightarrow> py_return n (e2\<lparr>last_sent := snd clk\<rparr>)
         | Some t \<Rightarrow>
             (case transport_send raw t of
                (Inl x, t') \<Rightarrow> py_raise x (e2\<lparr>fe_transport := Some t'\<rparr>)
              | (Inr _, t') \<Rightarrow> py_return n (e2\<lparr>fe_transport := Some t', last_sent := snd clk\<rparr>))))"

definition send_logon :: "clock \<Rightarrow> FixSessionEngine \<Rightarrow> (fe_error, int, FixSessionEngine) pyres" where
  "send_logon clk e =
     fe_send clk (MsgType_value LOGON)
       ([(STag_EncryptMethod, ''0''), (STag_HeartBtInt, str_int (heartbeat_int e))] @
        (if reset_seq_on_logon e then [(STag_ResetSeqNumFlag, ''Y'')] else []))
       (e\<lparr>fe_state := LOGON_SENT\<rparr>)"

definition side_code :: "string \<Rightarrow> string" where
  "side_code side =
     (if side = ''1'' \<or> side = ''2'' then side
      else if upper side = ''BUY'' then Side_value BUY else Side_value SELL)"

text \<open>
  The numbers are printed before the sequence number is taken, so a bad quantity leaves the
  session as it was.  \<open>tt\<close> is the text \<^verbatim>\<open>_now()\<close> of the transaction time.
\<close>

definition new_order_fields ::
  "(rat \<Rightarrow> string) \<Rightarrow> string \<Rightarrow> string \<Rightarrow> string \<Rightarrow> pyfloat \<Rightarrow> string \<Rightarrow> pyfloat option \<Rightarrow> string \<Rightarrow> string \<Rightarrow>
   num_error + fix_fields" where
  "new_order_fields rep cl_ord_id symbol side qty ord_type price tif tt =
     (case num rep qty of
        Inl x \<Rightarrow> Inl x
      | Inr q \<Rightarrow>
          map_sum id (\<lambda>ps.
              [(Tag_ClOrdID, cl_ord_id), (Tag_Symbol, symbol), (Tag_Side, side_code side), (Tag_OrderQty, q),
               (Tag_OrdType, if upper ord_type = ''LIMIT'' then OrdType_value LIMIT else OrdType_value MARKET)] @
              ps @ [(Tag_TimeInForce, tif), (Tag_TransactTime, tt)])
            (price_field rep price))"

definition send_new_order ::
  "(rat \<Rightarrow> string) \<Rightarrow> clock \<Rightarrow> string \<Rightarrow> string \<Rightarrow> string \<Rightarrow> string \<Rightarrow> pyfloat \<Rightarrow> string \<Rightarrow> pyfloat option \<Rightarrow> string \<Rightarrow>
   FixSessionEngine \<Rightarrow> (fe_error, int, FixSessionEngine) pyres" where
  "send_new_order rep clk tt cl_ord_id symbol side qty ord_type price tif e =
     (case new_order_fields rep cl_ord_id symbol side qty ord_type price tif tt of
        Inl x \<Rightarrow> py_raise (Bad_quantity x) e
      | Inr fs \<Rightarrow> fe_send clk (MsgType_value NEW_ORDER_SINGLE) fs e)"

definition send_cancel ::
  "clock \<Rightarrow> string \<Rightarrow> string \<Rightarrow> string \<Rightarrow> string \<Rightarrow> string \<Rightarrow> FixSessionEngine \<Rightarrow>
   (fe_error, int, FixSessionEngine) pyres" where
  "send_cancel clk tt orig_cl_ord_id cl_ord_id symbol side e =
     fe_send clk (MsgType_value ORDER_CANCEL_REQUEST)
       [(Tag_OrigClOrdID, orig_cl_ord_id), (Tag_ClOrdID, cl_ord_id), (Tag_Symbol, symbol),
        (Tag_Side, side_code side), (Tag_TransactTime, tt)] e"

subsection \<open>Receiving\<close>

definition get_or :: "(string, string) dict \<Rightarrow> string \<Rightarrow> string \<Rightarrow> string" where
  "get_or d k v = (case dict_get d k of None \<Rightarrow> v | Some x \<Rightarrow> x)"

definition send_logon_ack ::
  "clock \<Rightarrow> (string, string) dict \<Rightarrow> FixSessionEngine \<Rightarrow> (fe_error, int, FixSessionEngine) pyres" where
  "send_logon_ack clk fl e =
     (let f = [(STag_EncryptMethod, ''0''),
               (STag_HeartBtInt, get_or fl STag_HeartBtInt (str_int (heartbeat_int e)))] in
      if dict_get fl STag_ResetSeqNumFlag = Some ''Y''
      then fe_send clk (MsgType_value LOGON) (f @ [(STag_ResetSeqNumFlag, ''Y'')])
             (e\<lparr>fe_seq := seq_reset (fe_seq e)\<rparr>)
      else fe_send clk (MsgType_value LOGON) f e)"

definition log_on :: "FixSessionEngine \<Rightarrow> FixSessionEngine" where
  "log_on e = e\<lparr>fe_state := ACTIVE, logged_on := True\<rparr>"

definition on_logon ::
  "clock \<Rightarrow> (string, string) dict \<Rightarrow> FixSessionEngine \<Rightarrow> (fe_error, unit, FixSessionEngine) pyres" where
  "on_logon clk fl e =
     (if is_acceptor e \<and> fe_state e \<noteq> ACTIVE
      then run_then (send_logon_ack clk fl e) (\<lambda>e'. py_return () (log_on e'))
      else py_return () (log_on e))"

definition handle_resend ::
  "clock \<Rightarrow> (string, string) dict \<Rightarrow> FixSessionEngine \<Rightarrow> (fe_error, unit, FixSessionEngine) pyres" where
  "handle_resend clk fl e =
     (case (py_int (get_or fl STag_BeginSeqNo ''1''), py_int (get_or fl STag_EndSeqNo ''0'')) of
        (Some begin, Some end0) \<Rightarrow>
          (let end1 = (if end0 > 0 then end0 else out_seq (fe_seq e) - 1) in
           run_then (fe_send clk SMsg_SEQUENCE_RESET
               [(STag_GapFillFlag, ''Y''), (STag_PossDupFlag, ''Y''), (STag_NewSeqNo, str_int (end1 + 1))] e)
             (\<lambda>e'. py_return () e'))
      | _ \<Rightarrow> py_raise Bad_number e)"

definition dispatch ::
  "clock \<Rightarrow> (string, string) dict \<Rightarrow> FixSessionEngine \<Rightarrow> (fe_error, unit, FixSessionEngine) pyres" where
  "dispatch clk fl e =
     (let mtype = get_or fl Tag_MsgType [] in
      if mtype = MsgType_value LOGON then on_logon clk fl e
      else if mtype = MsgType_value HEARTBEAT then py_return () e
      else if mtype = SMsg_TEST_REQUEST then
        run_then (fe_send clk (MsgType_value HEARTBEAT) [(STag_TestReqID, get_or fl STag_TestReqID [])] e)
          (\<lambda>e'. py_return () e')
      else if mtype = SMsg_RESEND_REQUEST then handle_resend clk fl e
      else if mtype = SMsg_LOGOUT then py_return () (e\<lparr>fe_state := DISCONNECTED, logged_on := False\<rparr>)
      else if has_app e then py_return () (e\<lparr>delivered := delivered e @ [fl]\<rparr>)
      else py_return () e)"

definition set_in_seq :: "int \<Rightarrow> FixSessionEngine \<Rightarrow> FixSessionEngine" where
  "set_in_seq n e = e\<lparr>fe_seq := seq_save ((fe_seq e)\<lparr>in_seq := n\<rparr>)\<rparr>"

definition msg_seq :: "(string, string) dict \<Rightarrow> int" where
  "msg_seq fl = (case py_int (get_or fl Tag_MsgSeqNum ''0'') of Some n \<Rightarrow> n | None \<Rightarrow> 0)"

definition poss_dup :: "(string, string) dict \<Rightarrow> bool" where
  "poss_dup fl = (get_or fl STag_PossDupFlag ''N'' = ''Y'')"

definition handle_fields ::
  "clock \<Rightarrow> (string, string) dict \<Rightarrow> FixSessionEngine \<Rightarrow> (fe_error, unit, FixSessionEngine) pyres" where
  "handle_fields clk fl e =
     (let seq = msg_seq fl; expected = in_seq (fe_seq e) in
      if get_or fl Tag_MsgType [] = SMsg_SEQUENCE_RESET then
        (case py_int (get_or fl STag_NewSeqNo (str_int expected)) of
           None \<Rightarrow> py_raise Bad_number e
         | Some new_seq \<Rightarrow> py_return () (set_in_seq new_seq e))
      else if seq > expected \<and> \<not> poss_dup fl \<and> (fe_state e = ACTIVE \<or> fe_state e = LOGON_SENT) then
        run_then (fe_send clk SMsg_RESEND_REQUEST
            [(STag_BeginSeqNo, str_int expected), (STag_EndSeqNo, ''0'')] e)
          (\<lambda>e'. py_return () e')
      else if seq < expected \<and> \<not> poss_dup fl then py_return () e
      else dispatch clk fl (set_in_seq (max expected (seq + 1)) e))"

definition handle_message ::
  "clock \<Rightarrow> string \<Rightarrow> FixSessionEngine \<Rightarrow> (fe_error, unit, FixSessionEngine) pyres" where
  "handle_message clk raw e =
     (if verify_checksum raw then handle_fields clk (parse_message raw) e else py_return () e)"

subsection \<open>Taking messages off the byte stream\<close>

text \<open>
  \<^verbatim>\<open>text.find(s, i)\<close> for any integer \<open>i\<close>: a negative one counts from the
  end and is clipped at the start.
\<close>

definition py_find :: "string \<Rightarrow> string \<Rightarrow> int \<Rightarrow> nat option" where
  "py_find t s i = find_at t s (nat (if i < 0 then max 0 (int (length s) + i) else i))"

text \<open>
  Where the begin string starts, where the text of the body length starts and ends.
\<close>

definition frame_header :: "string \<Rightarrow> (nat \<times> nat \<times> nat) option" where
  "frame_header b =
     (case find_sub (field (Tag_BeginString, BEGIN_STRING) @ [SOH]) b of None \<Rightarrow> None | Some start \<Rightarrow>
      (case find_at (SOH # Tag_BodyLength @ ''='') b start of None \<Rightarrow> None | Some blpos \<Rightarrow>
       (case find_at [SOH] b (blpos + 3) of None \<Rightarrow> None | Some soh_after_bl \<Rightarrow>
          Some (start, blpos + 3, soh_after_bl))))"

text \<open>
  One turn of the loop of \<^verbatim>\<open>_extract_and_handle\<close>: wait for more bytes, drop the
  begin of a message whose length is no number, or hand a message over and keep the rest.
\<close>

datatype frame = Wait | Skip string | Frame string string

definition next_frame :: "string \<Rightarrow> frame" where
  "next_frame b =
     (case frame_header b of
        None \<Rightarrow> Wait
      | Some (start, blval_start, soh_after_bl) \<Rightarrow>
          (case py_int (take (soh_after_bl - blval_start) (drop blval_start b)) of
             None \<Rightarrow> Skip (drop (start + 1) b)
           | Some body_len \<Rightarrow>
               (case py_find [SOH] b (int soh_after_bl + 1 + body_len) of
                  None \<Rightarrow> Wait
                | Some cs_end \<Rightarrow>
                    if cs_end + 1 > length b then Wait
                    else Frame (take (cs_end + 1 - start) (drop start b)) (drop (cs_end + 1) b))))"

lemma frame_header_bounds:
  "frame_header b = Some (start, bl, e) \<Longrightarrow> start < bl \<and> bl \<le> e \<and> e < length b"
  by (auto simp: frame_header_def split: option.splits dest!: find_at_bound)

lemma next_frame_shorter:
  "next_frame b = Skip b' \<Longrightarrow> length b' < length b"
  "next_frame b = Frame m b' \<Longrightarrow> length b' < length b"
  by (auto simp: next_frame_def split: option.splits if_splits dest!: frame_header_bounds)

lemma next_frame_rest:
  "next_frame b = Skip b' \<Longrightarrow> suffix b' b"
  "next_frame b = Frame m b' \<Longrightarrow> suffix b' b"
  by (auto simp: next_frame_def suffix_drop split: option.splits if_splits)

lemma fe_send_buf: "fe_buf (snd (fe_send clk mt fs e)) = fe_buf e"
  by (auto simp: fe_send_def take_seq_def Let_def split: option.splits prod.splits sum.splits)

lemma fe_send_bufD: "fe_send clk mt fs e = (r, e') \<Longrightarrow> fe_buf e' = fe_buf e"
  using fe_send_buf [of clk mt fs e] by simp

lemma send_logon_ack_buf: "fe_buf (snd (send_logon_ack clk fl e)) = fe_buf e"
  by (simp add: send_logon_ack_def Let_def fe_send_buf)

lemma on_logon_buf: "fe_buf (snd (on_logon clk fl e)) = fe_buf e"
  using send_logon_ack_buf [of clk fl e]
  by (auto simp: on_logon_def log_on_def split: prod.splits sum.splits)

lemma handle_resend_buf: "fe_buf (snd (handle_resend clk fl e)) = fe_buf e"
  by (auto simp: handle_resend_def Let_def split: prod.splits sum.splits option.splits dest: fe_send_bufD)

lemma dispatch_buf: "fe_buf (snd (dispatch clk fl e)) = fe_buf e"
  unfolding dispatch_def Let_def
  by (auto simp: on_logon_buf handle_resend_buf split: prod.splits sum.splits dest: fe_send_bufD)

lemma handle_fields_buf: "fe_buf (snd (handle_fields clk fl e)) = fe_buf e"
  unfolding handle_fields_def Let_def
  by (auto simp: dispatch_buf set_in_seq_def split: prod.splits sum.splits option.splits dest: fe_send_bufD)

lemma handle_message_buf: "fe_buf (snd (handle_message clk m e)) = fe_buf e"
  by (simp add: handle_message_def handle_fields_buf)

text \<open>
  \<^verbatim>\<open>_extract_and_handle\<close>.  The \<open>k\<close>-th message handled reads the clock
  \<open>clk k\<close>.  A message whose handling raises ends the loop; it has left the buffer already.
\<close>

function extract_and_handle ::
  "(nat \<Rightarrow> clock) \<Rightarrow> FixSessionEngine \<Rightarrow> (fe_error, unit, FixSessionEngine) pyres" where
  "extract_and_handle clk e =
     (case next_frame (fe_buf e) of
        Wait \<Rightarrow> py_return () e
      | Skip b \<Rightarrow> extract_and_handle clk (e\<lparr>fe_buf := b\<rparr>)
      | Frame m b \<Rightarrow>
          (case handle_message (clk 0) m (e\<lparr>fe_buf := b\<rparr>) of
             (Inl x, e') \<Rightarrow> (Inl x, e')
           | (Inr _, e') \<Rightarrow> extract_and_handle (\<lambda>k. clk (Suc k)) e'))"
  by pat_completeness auto
termination
proof (relation "measure (\<lambda>(clk, e). length (fe_buf e))")
  fix clk :: "nat \<Rightarrow> clock" and e m b r e' and u :: unit
  assume step: "next_frame (fe_buf e) = Frame m b"
    and run: "(r, e') = handle_message (clk 0) m (e\<lparr>fe_buf := b\<rparr>)"
  have "fe_buf e' = b" using handle_message_buf [of "clk 0" m "e\<lparr>fe_buf := b\<rparr>"] run [symmetric] by simp
  then show "((\<lambda>k. clk (Suc k), e'), clk, e) \<in> measure (\<lambda>(clk, e). length (fe_buf e))"
    using next_frame_shorter(2) [OF step] by simp
qed (auto dest: next_frame_shorter)

declare extract_and_handle.simps [simp del]

text \<open>
  One turn of \<^verbatim>\<open>_read_loop\<close> on what \<^verbatim>\<open>recv\<close> returned (nothing when it
  raised or timed out).  An exception from a handler is not caught: it ends the reader thread.
\<close>

definition read_step ::
  "(nat \<Rightarrow> clock) \<Rightarrow> time \<Rightarrow> string \<Rightarrow> FixSessionEngine \<Rightarrow> FixSessionEngine" where
  "read_step clk now data e =
     (if running e \<and> reader_alive e \<and> data \<noteq> [] then
        (case extract_and_handle clk (e\<lparr>fe_buf := fe_buf e @ data, last_recv := now\<rparr>) of
           (Inl _, e') \<Rightarrow> e'\<lparr>reader_alive := False\<rparr>
         | (Inr _, e') \<Rightarrow> e')
      else e)"

subsection \<open>Heartbeats, connecting, disconnecting\<close>

text \<open>
  One turn of \<^verbatim>\<open>_heartbeat_loop\<close> after its sleep, at time \<open>now\<close>; an exception
  ends that thread, which the result tells.
\<close>

definition heartbeat_tick ::
  "(nat \<Rightarrow> clock) \<Rightarrow> time \<Rightarrow> FixSessionEngine \<Rightarrow> (fe_error, unit, FixSessionEngine) pyres" where
  "heartbeat_tick clk now e =
     (if fe_state e \<noteq> ACTIVE then py_return () e
      else run_then
        (if now - last_sent e \<ge> seconds (heartbeat_int e)
         then fe_send (clk 0) (MsgType_value HEARTBEAT) [] e else py_return 0 e)
        (\<lambda>e1. if now - last_recv e1 \<ge> 2 * seconds (heartbeat_int e1)
               then run_then (fe_send (clk 1) SMsg_TEST_REQUEST
                      [(STag_TestReqID, ''TR'' @ str_int (now div seconds 1))] e1)
                    (\<lambda>e2. py_return () e2)
               else py_return () e1))"

text \<open>
  \<^verbatim>\<open>tcp\<close> is the socket the constructor of \<^verbatim>\<open>TCPTransport\<close> gives, or
  nothing when it raises.
\<close>

definition connect ::
  "clock \<Rightarrow> Transport option \<Rightarrow> FixSessionEngine \<Rightarrow> (fe_error, unit, FixSessionEngine) pyres" where
  "connect clk tcp e =
     (let e1 = (if fe_transport e = None then e\<lparr>fe_state := CONNECTING, fe_transport := tcp\<rparr> else e) in
      if fe_transport e1 = None then py_raise Connect_failed e1
      else
        (let e2 = (if reset_seq_on_logon e1 then e1\<lparr>fe_seq := seq_reset (fe_seq e1)\<rparr> else e1);
             e3 = e2\<lparr>running := True, reader_alive := True\<rparr> in
         if is_acceptor e3 then py_return () e3
         else run_then (send_logon clk e3) (\<lambda>e4. py_return () e4)))"

definition disconnect ::
  "clock \<Rightarrow> string \<Rightarrow> FixSessionEngine \<Rightarrow> (fe_error, unit, FixSessionEngine) pyres" where
  "disconnect clk text e =
     (let (r, e1) = (if fe_state e = ACTIVE
            then (case fe_send clk SMsg_LOGOUT [(STag_Text, text)] e of
                    (Inl x, s) \<Rightarrow> (Inl x, s)
                  | (Inr _, s) \<Rightarrow> (Inr (), s\<lparr>fe_state := LOGOUT_SENT\<rparr>))
            else (Inr (), e)) in
      (r, e1\<lparr>running := False, fe_seq := seq_save (fe_seq e1),
             fe_transport := map_option transport_close (fe_transport e1), fe_state := DISCONNECTED\<rparr>))"

definition status :: "FixSessionEngine \<Rightarrow> (string, pyval) dict" where
  "status e =
     [(''state'', PStr (SessionState_value (fe_state e))), (''out_seq'', PInt (out_seq (fe_seq e))),
      (''in_seq'', PInt (in_seq (fe_seq e))), (''logged_on'', PBool (logged_on e)),
      (''sender'', PStr (fe_sender e)), (''target'', PStr (fe_target e))]"

subsection \<open>Framing\<close>

text \<open>An encoded message: header, body, trailer.\<close>

lemma encode_parts:
  "encode_message mt fs =
     ''8=FIX.4.4'' @ SOH # ''9='' @ str_nat (length (body mt fs)) @ SOH # body mt fs @
     ''10='' @ checksum (prelim BEGIN_STRING mt fs) @ [SOH]"
  by (simp add: encode_message_def encode_shape prelim_def field_def BEGIN_STRING_def)

lemma SOH_not_begin [simp]: "SOH \<noteq> CHR ''F''" "SOH \<noteq> CHR ''I''" "SOH \<noteq> CHR ''X''" "SOH \<noteq> CHR ''.''"
    "SOH \<noteq> CHR ''4''" "SOH \<noteq> CHR ''Y''" "SOH \<noteq> CHR ''2''" "SOH \<noteq> CHR ''6''" "SOH \<noteq> CHR ''7''"
  by (simp_all add: SOH_def)

definition wire_ok :: "string \<Rightarrow> fix_fields \<Rightarrow> bool" where
  "wire_ok mt fs = (length (body mt fs) < max_len)"

abbreviation "body_at mt fs \<equiv> 13 + length (str_nat (length (body mt fs)))"

lemma encode_length: "length (encode_message mt fs) =
    body_at mt fs + length (body mt fs) + 4 + length (checksum (prelim BEGIN_STRING mt fs))"
  by (simp add: encode_parts)

lemma frame_header_encode: "frame_header (encode_message mt fs @ rest) = Some (0, 12, body_at mt fs - 1)"
proof -
  let ?n = "str_nat (length (body mt fs))"
  obtain tl where tl: "encode_message mt fs @ rest = ''8=FIX.4.4'' @ SOH # ''9='' @ ?n @ SOH # tl"
    by (simp add: encode_parts)
  have 1: "find_sub (field (Tag_BeginString, BEGIN_STRING) @ [SOH]) (encode_message mt fs @ rest) = Some 0"
    unfolding tl by (rule find_sub_prefix) (simp add: field_def BEGIN_STRING_def)
  have 2: "find_at (SOH # Tag_BodyLength @ ''='') (encode_message mt fs @ rest) 0 = Some 9"
  proof -
    have "find_sub (SOH # Tag_BodyLength @ ''='') (''8=FIX.4.4'' @ SOH # ''9='' @ ?n @ SOH # tl) =
        Some (length ''8=FIX.4.4'')"
      by (rule find_sub_led) simp_all
    then show ?thesis unfolding tl by (simp add: find_at_def)
  qed
  have 3: "find_at [SOH] (encode_message mt fs @ rest) 12 = Some (12 + length ?n)"
  proof -
    have "find_sub [SOH] (?n @ SOH # tl) = Some (length ?n)" by (rule find_sub_char) simp
    then show ?thesis unfolding tl by (simp add: find_at_def)
  qed
  show ?thesis
    unfolding frame_header_def 1 option.case 2 using 3 by simp
qed

lemma encode_drop_header:
  "drop 12 (encode_message mt fs) =
   str_nat (length (body mt fs)) @ SOH # body mt fs @ ''10='' @ checksum (prelim BEGIN_STRING mt fs) @ [SOH]"
  by (simp add: encode_parts)

lemma encode_drop_body:
  "drop (body_at mt fs + length (body mt fs)) (encode_message mt fs) =
   ''10='' @ checksum (prelim BEGIN_STRING mt fs) @ [SOH]"
proof -
  have "drop (body_at mt fs + length (body mt fs)) (encode_message mt fs) =
      drop (length (str_nat (length (body mt fs))) + 1 + length (body mt fs)) (drop 12 (encode_message mt fs))"
    by (simp add: add.commute add.left_commute)
  then show ?thesis unfolding encode_drop_header by simp
qed

lemma find_trailer:
  "find_at [SOH] (encode_message mt fs @ rest) (body_at mt fs + length (body mt fs)) =
   Some (length (encode_message mt fs) - 1)"
proof -
  let ?cs = "checksum (prelim BEGIN_STRING mt fs)"
  have "drop (body_at mt fs + length (body mt fs)) (encode_message mt fs @ rest) = (''10='' @ ?cs) @ SOH # rest"
    using encode_drop_body [of mt fs] by (simp add: encode_length)
  moreover have "find_sub [SOH] ((''10='' @ ?cs) @ SOH # rest) = Some (length (''10='' @ ?cs))"
    by (rule find_sub_char) (simp add: SOH_not_checksum)
  ultimately show ?thesis by (simp add: find_at_def encode_length)
qed

lemma body_length_text: "wire_ok mt fs \<Longrightarrow> py_int (str_nat (length (body mt fs))) = Some (int (length (body mt fs)))"
  by (simp add: py_int_str_nat str_nat_printable wire_ok_def)

lemma next_frame_encode:
  assumes "wire_ok mt fs"
  shows "next_frame (encode_message mt fs @ rest) = Frame (encode_message mt fs) rest"
proof -
  let ?b = "encode_message mt fs @ rest"
  have len: "12 \<le> length (encode_message mt fs)" by (simp add: encode_length)
  have "take (body_at mt fs - 1 - 12) (drop 12 ?b) = str_nat (length (body mt fs))"
    using len by (simp add: encode_drop_header)
  then have int: "py_int (take (body_at mt fs - 1 - 12) (drop 12 ?b)) = Some (int (length (body mt fs)))"
    by (simp add: body_length_text [OF assms])
  have "nat (int (body_at mt fs - 1) + 1 + int (length (body mt fs))) = body_at mt fs + length (body mt fs)"
    by simp
  then have find: "py_find [SOH] ?b (int (body_at mt fs - 1) + 1 + int (length (body mt fs))) =
      Some (length (encode_message mt fs) - 1)"
    using find_trailer [of mt fs rest] by (simp add: py_find_def)
  have pos: "0 < length (encode_message mt fs)" using len by linarith
  show ?thesis
    unfolding next_frame_def frame_header_encode
    using pos by (simp only: option.case prod.case int find) (simp add: Suc_diff_Suc)
qed

lemma frame_header_append:
  assumes "frame_header b = Some h"
  shows "frame_header (b @ x) = Some h"
proof -
  obtain s where s: "find_sub (field (Tag_BeginString, BEGIN_STRING) @ [SOH]) b = Some s"
    using assms by (auto simp: frame_header_def split: option.splits)
  with assms obtain bl where bl: "find_at (SOH # Tag_BodyLength @ ''='') b s = Some bl"
    unfolding frame_header_def by (auto split: option.splits)
  with assms s obtain e where e: "find_at [SOH] b (bl + 3) = Some e"
    unfolding frame_header_def by (auto split: option.splits)
  have "h = (s, bl + 3, e)" using assms unfolding frame_header_def s bl e option.case by simp
  then show ?thesis
    unfolding frame_header_def find_sub_append [OF s] option.case find_at_append [OF bl] find_at_append [OF e]
    by simp
qed

text \<open>A proper prefix of a message is kept in the buffer.\<close>

lemma next_frame_prefix:
  assumes ok: "wire_ok mt fs" and p: "encode_message mt fs = p @ x" and x: "x \<noteq> []"
  shows "next_frame p = Wait"
proof (cases "frame_header p")
  case None
  then show ?thesis by (simp add: next_frame_def)
next
  case (Some h)
  with frame_header_append [OF this, of x] frame_header_encode [of mt fs "[]"] p
  have h: "h = (0, 12, body_at mt fs - 1)" by simp
  with Some have "body_at mt fs - 1 < length p" using frame_header_bounds [of p] by auto
  then have "take (body_at mt fs - 1 - 12) (drop 12 p) = take (body_at mt fs - 1 - 12) (drop 12 (p @ x))"
    by simp
  then have "take (body_at mt fs - 1 - 12) (drop 12 p) = str_nat (length (body mt fs))"
    by (simp add: p [symmetric] encode_drop_header)
  then have int: "py_int (take (body_at mt fs - 1 - 12) (drop 12 p)) = Some (int (length (body mt fs)))"
    by (simp add: body_length_text [OF ok])
  have "find_at [SOH] p (body_at mt fs + length (body mt fs)) = None"
  proof (rule ccontr)
    assume "find_at [SOH] p (body_at mt fs + length (body mt fs)) \<noteq> None"
    then obtain j where j: "find_at [SOH] p (body_at mt fs + length (body mt fs)) = Some j" by auto
    then have "j < length p" using find_at_bound by fastforce
    moreover have "j = length (encode_message mt fs) - 1"
      using find_at_append [OF j, of x] find_trailer [of mt fs "[]"] p by simp
    moreover have "0 < length x" using x by simp
    ultimately show False using arg_cong [OF p, of length] unfolding length_append by linarith
  qed
  moreover have "nat (int (body_at mt fs - 1) + 1 + int (length (body mt fs))) = body_at mt fs + length (body mt fs)"
    by simp
  ultimately have "py_find [SOH] p (int (body_at mt fs - 1) + 1 + int (length (body mt fs))) = None"
    by (simp add: py_find_def)
  with int show ?thesis by (simp add: next_frame_def Some h)
qed

lemma extraction_drains_buffer_aux:
  "case extract_and_handle clk e of
     (Inr _, e') \<Rightarrow> next_frame (fe_buf e') = Wait \<and> suffix (fe_buf e') (fe_buf e)
   | (Inl _, e') \<Rightarrow> suffix (fe_buf e') (fe_buf e) \<and> fe_buf e' \<noteq> fe_buf e"
proof (induction clk e rule: extract_and_handle.induct)
  case (1 clk e)
  show ?case
  proof (cases "next_frame (fe_buf e)")
    case Wait
    then show ?thesis by (simp add: extract_and_handle.simps [of clk e])
  next
    case (Skip b)
    then have "suffix b (fe_buf e) \<and> length b < length (fe_buf e)"
      using next_frame_rest next_frame_shorter by blast
    with "1.IH"(1) [OF Skip] Skip show ?thesis
      by (auto simp: extract_and_handle.simps [of clk e] split: sum.splits prod.splits
          dest: suffix_order.trans suffix_length_le)
  next
    case (Frame m b)
    then have b: "suffix b (fe_buf e) \<and> length b < length (fe_buf e)"
      using next_frame_rest next_frame_shorter by blast
    obtain r e' where run: "handle_message (clk 0) m (e\<lparr>fe_buf := b\<rparr>) = (r, e')" by fastforce
    then have "fe_buf e' = b" using handle_message_buf [of "clk 0" m "e\<lparr>fe_buf := b\<rparr>"] by simp
    with "1.IH"(2) [OF Frame run [symmetric]] Frame run b show ?thesis
      by (cases r) (auto simp: extract_and_handle.simps [of clk e] split: sum.splits prod.splits
          dest: suffix_order.trans suffix_length_le)
  qed
qed

lemma extract_waits: "extract_and_handle clk e = (Inr u, e') \<Longrightarrow> next_frame (fe_buf e') = Wait"
  using extraction_drains_buffer_aux [where clk = clk and e = e] by simp

text \<open>
  C37: the extraction loop ends on every buffer, and when no handler raised it leaves only an
  incomplete message behind.
\<close>

theorem extraction_drains_buffer:
  "case extract_and_handle clk e of
     (Inr _, e') \<Rightarrow> next_frame (fe_buf e') = Wait \<and> suffix (fe_buf e') (fe_buf e)
   | (Inl _, e') \<Rightarrow> suffix (fe_buf e') (fe_buf e) \<and> fe_buf e' \<noteq> fe_buf e"
  by (rule extraction_drains_buffer_aux)

end
