(* ===== verification/Fix_Exchange.thy ===== *)
theory Fix_Exchange
  imports Fix_Session
begin

section \<open>FIX sessions: what arrives, and what does not\<close>

text \<open>
  The properties of the session engine.  First the stream: whatever the chunks, messages come
  off it in order and complete.  Then two engines: an unbroken stream of orders is delivered as
  sent, each message at most once; but the answer to a resend request is itself numbered past
  the number it announces, so the receiver stays one behind and drops every later order.
\<close>

subsection \<open>Sending over a working link\<close>

definition accepts :: "Transport \<Rightarrow> bool" where
  "accepts t = (\<not> tr_closed t \<and> (tr_kind t = PairedTransport \<or> tr_up t))"

definition link_ok :: "FixSessionEngine \<Rightarrow> bool" where
  "link_ok e = (case fe_transport e of None \<Rightarrow> False | Some t \<Rightarrow> accepts t)"

definition wire :: "FixSessionEngine \<Rightarrow> string list" where
  "wire e = (case fe_transport e of None \<Rightarrow> [] | Some t \<Rightarrow> tr_out t)"

abbreviation out_no :: "FixSessionEngine \<Rightarrow> int" where
  "out_no e \<equiv> out_seq (fe_seq e)"

abbreviation in_no :: "FixSessionEngine \<Rightarrow> int" where
  "in_no e \<equiv> in_seq (fe_seq e)"

text \<open>What sending and numbering leave alone.\<close>

definition same_rest :: "FixSessionEngine \<Rightarrow> FixSessionEngine \<Rightarrow> bool" where
  "same_rest e e' =
     (fe_sender e' = fe_sender e \<and> fe_target e' = fe_target e \<and> has_app e' = has_app e \<and>
      is_acceptor e' = is_acceptor e \<and> fe_state e' = fe_state e \<and> fe_buf e' = fe_buf e \<and>
      running e' = running e \<and> reader_alive e' = reader_alive e \<and> delivered e' = delivered e)"

lemma same_rest_refl [simp]: "same_rest e e"
  by (simp add: same_rest_def)

lemma same_rest_trans: "same_rest a b \<Longrightarrow> same_rest b c \<Longrightarrow> same_rest a c"
  by (simp add: same_rest_def)

lemma seq_save_numbers [simp]: "out_seq (seq_save s) = out_seq s" "in_seq (seq_save s) = in_seq s"
  by (simp_all add: seq_save_def)

text \<open>The four fields every message of a session begins with.\<close>

definition all_fields :: "string \<Rightarrow> string \<Rightarrow> int \<Rightarrow> string \<Rightarrow> fix_fields \<Rightarrow> fix_fields" where
  "all_fields s t n stamp fs =
     [(Tag_SenderCompID, s), (Tag_TargetCompID, t), (Tag_MsgSeqNum, str_int n), (Tag_SendingTime, stamp)] @ fs"

lemma fe_send_up:
  assumes "link_ok e"
  obtains e' where "fe_send clk mt fs e = (Inr (out_no e), e')"
    and "out_no e' = out_no e + 1" and "in_no e' = in_no e"
    and "wire e' = wire e @ [encode_message mt (all_fields (fe_sender e) (fe_target e) (out_no e) (fst clk) fs)]"
    and "link_ok e'" and "same_rest e e'"
proof -
  obtain t where t: "fe_transport e = Some t" "accepts t"
    using assms by (auto simp: link_ok_def split: option.splits)
  let ?raw = "encode_message mt (all_fields (fe_sender e) (fe_target e) (out_no e) (fst clk) fs)"
  have sent: "transport_send ?raw t = (Inr (), t\<lparr>tr_out := tr_out t @ [?raw]\<rparr>)"
    using t(2) by (auto simp: accepts_def split: transport_kind.splits)
  let ?e = "e\<lparr>fe_seq := seq_save ((fe_seq e)\<lparr>out_seq := out_no e + 1\<rparr>),
      sent_messages := dict_set (sent_messages e) (out_no e) ?raw,
      fe_transport := Some (t\<lparr>tr_out := tr_out t @ [?raw]\<rparr>), last_sent := snd clk\<rparr>"
  have "fe_send clk mt fs e = (Inr (out_no e), ?e)"
    using sent t(1) by (simp add: fe_send_def take_seq_def Let_def all_fields_def del: transport_send.simps)
  then show thesis
    by (rule that) (use t in \<open>simp_all add: wire_def link_ok_def accepts_def same_rest_def\<close>)
qed

subsection \<open>Messages of a session\<close>

type_synonym wire_msg = "int \<times> string \<times> string \<times> fix_fields"

definition enc :: "string \<Rightarrow> string \<Rightarrow> wire_msg \<Rightarrow> string" where
  "enc s t m = (case m of (n, stamp, mt, fs) \<Rightarrow> encode_message mt (all_fields s t n stamp fs))"

definition dec :: "string \<Rightarrow> string \<Rightarrow> wire_msg \<Rightarrow> (string, string) dict" where
  "dec s t m = (case m of (n, stamp, mt, fs) \<Rightarrow> wire_fields mt (all_fields s t n stamp fs))"

text \<open>
  A message without separators inside its fields, with distinct tags, of a length and a number
  that are printed and read back.
\<close>

definition msg_ok :: "string \<Rightarrow> string \<Rightarrow> wire_msg \<Rightarrow> bool" where
  "msg_ok s t m = (case m of (n, stamp, mt, fs) \<Rightarrow>
     list_all field_ok (all_fields s t n stamp fs) \<and> SOH \<notin> set mt \<and> tags_ok (all_fields s t n stamp fs) \<and>
     wire_ok mt (all_fields s t n stamp fs) \<and> 0 \<le> n \<and> n < int max_len)"

lemma msg_ok_wire: "msg_ok s t (n, stamp, mt, fs) \<Longrightarrow> wire_ok mt (all_fields s t n stamp fs)"
  by (simp add: msg_ok_def)

lemma msg_ok_parse: "msg_ok s t m \<Longrightarrow> parse_message (enc s t m) = dec s t m"
  by (auto simp: msg_ok_def enc_def dec_def parse_encode_roundtrip)

lemma enc_verifies: "verify_checksum (enc s t m)"
  by (simp add: enc_def encoded_checksum_verifies split: prod.split)

lemma enc_not_Nil [simp]: "enc s t m \<noteq> []"
  by (simp add: enc_def encode_parts split: prod.split)

lemma next_frame_enc: "msg_ok s t m \<Longrightarrow> next_frame (enc s t m @ rest) = Frame (enc s t m) rest"
  by (auto simp: enc_def next_frame_encode dest: msg_ok_wire split: prod.split)

lemma next_frame_enc_prefix: "msg_ok s t m \<Longrightarrow> enc s t m = p @ x \<Longrightarrow> x \<noteq> [] \<Longrightarrow> next_frame p = Wait"
  by (cases m) (auto simp: enc_def intro: next_frame_prefix dest: msg_ok_wire)

lemma dec_type: "get_or (dec s t (n, stamp, mt, fs)) Tag_MsgType v = mt"
  by (simp add: dec_def wire_fields_def get_or_def)

lemma py_int_str_int: "0 \<le> n \<Longrightarrow> n < int max_len \<Longrightarrow> py_int (str_int n) = Some n"
  by (simp add: str_int_def py_int_str_nat str_nat_printable nat_less_iff)

lemma dec_seq: "msg_ok s t (n, stamp, mt, fs) \<Longrightarrow> msg_seq (dec s t (n, stamp, mt, fs)) = n"
  by (simp add: msg_seq_def dec_def wire_fields_def get_or_def all_fields_def py_int_str_int msg_ok_def)

lemma dec_field:
  "msg_ok s t (n, stamp, mt, fs) \<Longrightarrow> tag \<notin> {''8'', ''9'', ''35'', ''49'', ''56'', ''34'', ''52'', ''10''} \<Longrightarrow>
   dict_get (dec s t (n, stamp, mt, fs)) tag = map_of fs tag"
  by (auto simp: dec_def wire_fields_def all_fields_def map_add_def split: option.splits)

lemma dec_not_poss_dup:
  "msg_ok s t (n, stamp, mt, fs) \<Longrightarrow> map_of fs STag_PossDupFlag \<noteq> Some ''Y'' \<Longrightarrow>
   \<not> poss_dup (dec s t (n, stamp, mt, fs))"
  by (auto simp: poss_dup_def get_or_def dec_field split: option.splits)

text \<open>Application messages: none of the administrative types, not marked as duplicates.\<close>

definition app_type :: "string \<Rightarrow> bool" where
  "app_type mt = (mt \<notin> {MsgType_value LOGON, MsgType_value HEARTBEAT, SMsg_TEST_REQUEST, SMsg_RESEND_REQUEST,
                          SMsg_SEQUENCE_RESET, SMsg_LOGOUT})"

definition app_msg :: "wire_msg \<Rightarrow> bool" where
  "app_msg m = (case m of (n, stamp, mt, fs) \<Rightarrow> app_type mt \<and> map_of fs STag_PossDupFlag \<noteq> Some ''Y'')"

fun numbered :: "int \<Rightarrow> wire_msg list \<Rightarrow> bool" where
  "numbered n [] = True"
| "numbered n (m # ms) = (fst m = n \<and> numbered (n + 1) ms)"

lemma numbered_append: "numbered n (ms @ ms') \<longleftrightarrow> numbered n ms \<and> numbered (n + int (length ms)) ms'"
  by (induction ms arbitrary: n) (auto simp: add.assoc add.commute)

lemma receive_app:
  assumes "msg_ok s t m" and "app_msg m" and "fst m = in_no e" and "has_app e"
  shows "handle_message clk (enc s t m) e =
    (Inr (), (set_in_seq (in_no e + 1) e)\<lparr>delivered := delivered e @ [dec s t m]\<rparr>)"
proof -
  obtain n stamp mt fs where m: "m = (n, stamp, mt, fs)" by (cases m)
  with assms have mt: "app_type mt" and dup: "\<not> poss_dup (dec s t m)" and n: "n = in_no e"
    by (auto simp: app_msg_def dec_not_poss_dup)
  have "handle_fields clk (dec s t m) e = dispatch clk (dec s t m) (set_in_seq (in_no e + 1) e)"
    using dup mt dec_seq [of s t n stamp mt fs] assms(1) n
    by (simp add: handle_fields_def Let_def m dec_type app_type_def)
  also have "\<dots> = (Inr (), (set_in_seq (in_no e + 1) e)\<lparr>delivered := delivered e @ [dec s t m]\<rparr>)"
    using mt assms(4) by (simp add: dispatch_def Let_def m dec_type app_type_def set_in_seq_def)
  finally show ?thesis
    by (simp add: handle_message_def enc_verifies msg_ok_parse [OF assms(1)])
qed

subsection \<open>Any chunks, the same messages\<close>

lemma next_frame_Nil [simp]: "next_frame [] = Wait"
  by (simp add: next_frame_def frame_header_def field_def)

text \<open>The receiver after some of the messages of a stream arrived, \<open>q\<close> left in its buffer.\<close>

definition received :: "string \<Rightarrow> string \<Rightarrow> wire_msg list \<Rightarrow> string \<Rightarrow> FixSessionEngine \<Rightarrow> FixSessionEngine \<Rightarrow> bool" where
  "received s t ms q e e' =
     (fe_buf e' = q \<and> delivered e' = delivered e @ map (dec s t) ms \<and> in_no e' = in_no e + int (length ms) \<and>
      out_no e' = out_no e \<and> wire e' = wire e \<and> link_ok e' = link_ok e \<and> fe_state e' = fe_state e \<and>
      has_app e' = has_app e \<and> running e' = running e \<and> reader_alive e' = reader_alive e)"

lemma extract_prefix:
  assumes "list_all (msg_ok s t) ms" and "list_all app_msg ms" and "numbered (in_no e) ms" and "has_app e"
    and "fe_buf e @ r = concat (map (enc s t) ms)"
  shows "\<exists>ms1 ms2 q e'. ms = ms1 @ ms2 \<and> extract_and_handle clk e = (Inr (), e') \<and>
    received s t ms1 q e e' \<and> q @ r = concat (map (enc s t) ms2) \<and> (r = [] \<longrightarrow> ms2 = [])"
  using assms
proof (induction ms arbitrary: e clk)
  case Nil
  then have "fe_buf e = []" "r = []" by simp_all
  then have "extract_and_handle clk e = (Inr (), e)" by (subst extract_and_handle.simps) simp
  then show ?case using \<open>fe_buf e = []\<close> \<open>r = []\<close> by (auto simp: received_def)
next
  case (Cons m ms)
  then have m: "msg_ok s t m" "app_msg m" "fst m = in_no e" by simp_all
  consider x where "enc s t m = fe_buf e @ x" "x \<noteq> []" | y where "fe_buf e = enc s t m @ y"
  proof -
    have "fe_buf e @ r = enc s t m @ concat (map (enc s t) ms)" using Cons.prems(5) by simp
    then obtain us where "fe_buf e = enc s t m @ us \<or> fe_buf e @ us = enc s t m"
      by (auto simp: append_eq_append_conv2)
    then show thesis using that(1) [of us] that(2) [of us] that(2) [of "[]"] by (cases "us = []") auto
  qed
  then show ?case
  proof cases
    case 1
    then have "next_frame (fe_buf e) = Wait" using next_frame_enc_prefix [OF m(1)] by blast
    then have "extract_and_handle clk e = (Inr (), e)" by (subst extract_and_handle.simps) simp
    moreover have "r \<noteq> []" using Cons.prems(5) 1 by auto
    moreover have "received s t [] (fe_buf e) e e" by (simp add: received_def)
    ultimately show ?thesis using Cons.prems(5)
      by (intro exI [of _ "[]"] exI [of _ "m # ms"] exI [of _ "fe_buf e"] exI [of _ e]) simp
  next
    case 2
    let ?e = "(set_in_seq (in_no e + 1) (e\<lparr>fe_buf := y\<rparr>))\<lparr>delivered := delivered e @ [dec s t m]\<rparr>"
    have step: "extract_and_handle clk e = extract_and_handle (\<lambda>k. clk (Suc k)) ?e"
      using receive_app [OF m(1,2), of "e\<lparr>fe_buf := y\<rparr>" "clk 0"] m(3) Cons.prems(4)
      by (subst extract_and_handle.simps) (simp add: 2 next_frame_enc [OF m(1)])
    have "fe_buf ?e @ r = concat (map (enc s t) ms)"
      using Cons.prems(5) 2 by (simp add: set_in_seq_def)
    then obtain ms1 ms2 q e' where IH: "ms = ms1 @ ms2"
        "extract_and_handle (\<lambda>k. clk (Suc k)) ?e = (Inr (), e')" "received s t ms1 q ?e e'"
        "q @ r = concat (map (enc s t) ms2)" "r = [] \<longrightarrow> ms2 = []"
      using Cons.IH [of ?e "\<lambda>k. clk (Suc k)"] Cons.prems by (auto simp: set_in_seq_def)
    have "received s t (m # ms1) q e e'"
      using IH(3) by (simp add: received_def set_in_seq_def wire_def link_ok_def)
    with IH step show ?thesis by (intro exI [of _ "m # ms1"] exI [of _ ms2]) auto
  qed
qed

text \<open>The reader fed one chunk after the other; each turn has its clock readings.\<close>

definition read_all :: "((nat \<Rightarrow> clock) \<times> time \<times> string) list \<Rightarrow> FixSessionEngine \<Rightarrow> FixSessionEngine" where
  "read_all chunks e = foldl (\<lambda>e (clk, now, data). read_step clk now data e) e chunks"

lemma read_chunks:
  assumes "list_all (msg_ok s t) ms" and "list_all app_msg ms" and "numbered (in_no e) ms" and "has_app e"
    and "running e" and "reader_alive e"
    and "fe_buf e @ concat (map (\<lambda>(clk, now, data). data) chunks) = concat (map (enc s t) ms)"
    and "fe_buf e = [] \<or> next_frame (fe_buf e) = Wait"
  shows "received s t ms [] e (read_all chunks e)"
  using assms
proof (induction chunks arbitrary: e ms)
  case Nil
  have "ms = []"
  proof (rule ccontr)
    assume "ms \<noteq> []"
    then obtain m ms' where ms: "ms = m # ms'" by (cases ms) auto
    with Nil have "next_frame (fe_buf e) = Frame (enc s t m) (concat (map (enc s t) ms'))"
      by (simp add: next_frame_enc)
    with Nil.prems(8) show False by auto
  qed
  with Nil show ?case by (simp add: received_def read_all_def)
next
  case (Cons c chunks)
  obtain clk now data where c: "c = (clk, now, data)" by (cases c)
  show ?case
  proof (cases "data = []")
    case True
    then have "read_all (c # chunks) e = read_all chunks e" by (simp add: read_all_def c read_step_def)
    with Cons True show ?thesis by (simp add: c)
  next
    case False
    let ?e = "e\<lparr>fe_buf := fe_buf e @ data, last_recv := now\<rparr>"
    let ?r = "concat (map (\<lambda>(clk, now, data). data) chunks)"
    have "fe_buf ?e @ ?r = concat (map (enc s t) ms)" using Cons.prems(7) by (simp add: c)
    then obtain ms1 ms2 q e' where ex: "ms = ms1 @ ms2" "extract_and_handle clk ?e = (Inr (), e')"
        "received s t ms1 q ?e e'" "q @ ?r = concat (map (enc s t) ms2)"
      using extract_prefix [of s t ms ?e ?r clk] Cons.prems by auto
    have step: "read_step clk now data e = e'"
      using ex(2) False Cons.prems(5,6) by (simp add: read_step_def)
    have "received s t ms2 [] e' (read_all chunks e')"
    proof (rule Cons.IH)
      show "numbered (in_no e') ms2"
        using Cons.prems(3) ex(1,3) numbered_append [of "in_no e" ms1 ms2] by (simp add: received_def)
    qed (use Cons.prems ex extract_waits [OF ex(2)] in \<open>simp_all add: received_def\<close>)
    with ex(1,3) step show ?thesis by (simp add: received_def read_all_def c wire_def link_ok_def)
  qed
qed

subsection \<open>Orders\<close>

record order_req =
  or_clk :: clock
  or_tt :: string
  or_id :: string
  or_symbol :: string
  or_side :: string
  or_qty :: pyfloat
  or_type :: string
  or_price :: "pyfloat option"
  or_tif :: string

definition req_fields :: "(rat \<Rightarrow> string) \<Rightarrow> order_req \<Rightarrow> num_error + fix_fields" where
  "req_fields rep r =
     new_order_fields rep (or_id r) (or_symbol r) (or_side r) (or_qty r) (or_type r) (or_price r) (or_tif r) (or_tt r)"

definition send_req :: "(rat \<Rightarrow> string) \<Rightarrow> order_req \<Rightarrow> FixSessionEngine \<Rightarrow> (fe_error, int, FixSessionEngine) pyres" where
  "send_req rep r e =
     send_new_order rep (or_clk r) (or_tt r) (or_id r) (or_symbol r) (or_side r) (or_qty r) (or_type r)
       (or_price r) (or_tif r) e"

definition send_reqs :: "(rat \<Rightarrow> string) \<Rightarrow> order_req list \<Rightarrow> FixSessionEngine \<Rightarrow> FixSessionEngine" where
  "send_reqs rep rs e = foldl (\<lambda>e r. snd (send_req rep r e)) e rs"

text \<open>
  The messages a list of orders becomes when the next number is \<open>n\<close>: an order whose quantity
  or price cannot be printed is refused without using a number.
\<close>

fun order_msgs :: "(rat \<Rightarrow> string) \<Rightarrow> int \<Rightarrow> order_req list \<Rightarrow> wire_msg list" where
  "order_msgs rep n [] = []"
| "order_msgs rep n (r # rs) =
     (case req_fields rep r of
        Inl _ \<Rightarrow> order_msgs rep n rs
      | Inr fs \<Rightarrow> (n, fst (or_clk r), MsgType_value NEW_ORDER_SINGLE, fs) # order_msgs rep (n + 1) rs)"

lemma order_msgs_numbered: "numbered n (order_msgs rep n rs)"
  by (induction rs arbitrary: n) (auto split: sum.splits)

lemma num_error_fields:
  "req_fields rep r = Inr fs \<Longrightarrow>
   map fst fs = [Tag_ClOrdID, Tag_Symbol, Tag_Side, Tag_OrderQty, Tag_OrdType, Tag_TimeInForce, Tag_TransactTime] \<or>
   map fst fs = [Tag_ClOrdID, Tag_Symbol, Tag_Side, Tag_OrderQty, Tag_OrdType, Tag_Price, Tag_TimeInForce, Tag_TransactTime]"
  by (cases "or_price r") (auto simp: req_fields_def new_order_fields_def map_sum_def split: sum.splits)

lemma order_msgs_app: "list_all app_msg (order_msgs rep n rs)"
proof (induction rs arbitrary: n)
  case Nil
  then show ?case by simp
next
  case (Cons r rs)
  have "map_of fs STag_PossDupFlag = None" if "req_fields rep r = Inr fs" for fs
    using num_error_fields [OF that] by (auto simp: map_of_eq_None_iff simp flip: set_map)
  with Cons show ?case by (auto simp: app_msg_def app_type_def split: sum.splits)
qed

lemma send_reqs_wire:
  assumes "link_ok e"
  shows "wire (send_reqs rep rs e) =
      wire e @ map (enc (fe_sender e) (fe_target e)) (order_msgs rep (out_no e) rs) \<and> link_ok (send_reqs rep rs e)"
  using assms
proof (induction rs arbitrary: e)
  case Nil
  then show ?case by (simp add: send_reqs_def)
next
  case (Cons r rs)
  show ?case
  proof (cases "req_fields rep r")
    case (Inl x)
    then have "send_req rep r e = (Inl (Bad_quantity x), e)"
      by (simp add: send_req_def send_new_order_def req_fields_def)
    then have "send_reqs rep (r # rs) e = send_reqs rep rs e" by (simp add: send_reqs_def)
    with Cons Inl show ?thesis by simp
  next
    case (Inr fs)
    then have "send_req rep r e = fe_send (or_clk r) (MsgType_value NEW_ORDER_SINGLE) fs e"
      by (simp add: send_req_def send_new_order_def req_fields_def)
    moreover obtain e' where e': "fe_send (or_clk r) (MsgType_value NEW_ORDER_SINGLE) fs e = (Inr (out_no e), e')"
        "out_no e' = out_no e + 1" "link_ok e'" "same_rest e e'"
        "wire e' = wire e @ [encode_message (MsgType_value NEW_ORDER_SINGLE)
           (all_fields (fe_sender e) (fe_target e) (out_no e) (fst (or_clk r)) fs)]"
      using fe_send_up [OF Cons.prems] by metis
    ultimately have "send_req rep r e = (Inr (out_no e), e')" by simp
    then have "send_reqs rep (r # rs) e = send_reqs rep rs e'" by (simp add: send_reqs_def)
    with Cons.IH [OF e'(3)] e' Inr show ?thesis by (simp add: same_rest_def enc_def)
  qed
qed


definition sample_order :: order_req where
  "sample_order = \<lparr>or_clk = (''20200101-00:00:00.000'', 0), or_tt = ''20200101-00:00:00.000'', or_id = ''c1'',
     or_symbol = ''BTC'', or_side = ''buy'', or_qty = Fin 100, or_type = ''limit'', or_price = Some (Fin (1 / 2)), or_tif = ''0''\<rparr>"

definition sample_sender :: FixSessionEngine where
  "sample_sender = init_FixSessionEngine ''A'' ''B'' 30 False True False (init_SeqStore False No_file True)
     (Some \<lparr>tr_kind = TCPTransport, tr_up = True, tr_closed = False, tr_out = []\<rparr>) 0 0"

definition sample_receiver :: FixSessionEngine where
  "sample_receiver = (init_FixSessionEngine ''B'' ''A'' 30 False True True (init_SeqStore False No_file True) None 0 0)
     \<lparr>fe_state := ACTIVE, running := True, reader_alive := True\<rparr>"

lemmas sample_defs = sample_order_def sample_sender_def sample_receiver_def init_FixSessionEngine_def
  init_SeqStore_def seq_load_def

lemma sample_fields:
  "req_fields (\<lambda>q. ''0.5'') sample_order =
     Inr [(Tag_ClOrdID, ''c1''), (Tag_Symbol, ''BTC''), (Tag_Side, ''1''), (Tag_OrderQty, ''100''),
          (Tag_OrdType, ''2''), (Tag_Price, ''0.5''), (Tag_TimeInForce, ''0''), (Tag_TransactTime, ''20200101-00:00:00.000'')]"
  by code_simp

lemma one_byte_each: "concat (map (\<lambda>(clk, now, data). data) (map (\<lambda>c. (k, n, [c])) s)) = s"
  by (induction s) auto

text \<open>
  Orders sent over a working link arrive.  Whatever the chunks in which the bytes are read, a
  receiver that expects the sender's next number hands exactly the orders sent, in their order and
  each once, to the application; refused orders leave no trace.
\<close>

theorem orders_arrive_in_order:
  assumes "link_ok a" and "has_app b" and "running b" and "reader_alive b" and "fe_buf b = []"
    and "in_no b = out_no a"
    and "list_all (msg_ok (fe_sender a) (fe_target a)) (order_msgs rep (out_no a) rs)"
    and "concat (map (\<lambda>(clk, now, data). data) chunks) = concat (drop (length (wire a)) (wire (send_reqs rep rs a)))"
  shows "delivered (read_all chunks b) =
    delivered b @ map (dec (fe_sender a) (fe_target a)) (order_msgs rep (out_no a) rs)"
proof -
  have "concat (map (\<lambda>(clk, now, data). data) chunks) =
      concat (map (enc (fe_sender a) (fe_target a)) (order_msgs rep (out_no a) rs))"
    using assms(8) send_reqs_wire [OF assms(1)] by simp
  then have "received (fe_sender a) (fe_target a) (order_msgs rep (out_no a) rs) [] b (read_all chunks b)"
    using assms order_msgs_numbered order_msgs_app by (intro read_chunks) auto
  then show ?thesis by (simp add: received_def)
qed

lemma sample_msgs_ok:
  "list_all (msg_ok ''A'' ''B'') (order_msgs (\<lambda>q. ''0.5'') 1 [sample_order, sample_order])"
proof -
  have n: "str_int 1 = ''1''" "str_int 2 = ''2''" by code_simp+
  show ?thesis
    unfolding order_msgs.simps sample_fields sum.case
    by (simp add: msg_ok_def all_fields_def n tags_ok_def wire_ok_def body_terminated
      field_def max_len_def sample_order_def SOH_def)
qed

theorem orders_arrive_in_order_witness:
  "delivered (read_all (map (\<lambda>c. (\<lambda>k. (''t'', 0), 0, [c]))
       (concat (wire (send_reqs (\<lambda>q. ''0.5'') [sample_order, sample_order] sample_sender)))) sample_receiver) =
   map (dec ''A'' ''B'') (order_msgs (\<lambda>q. ''0.5'') 1 [sample_order, sample_order])"
  using orders_arrive_in_order [of sample_sender sample_receiver "\<lambda>q. ''0.5''" "[sample_order, sample_order]"
      "map (\<lambda>c. (\<lambda>k. (''t'', 0), 0, [c])) (concat (wire (send_reqs (\<lambda>q. ''0.5'') [sample_order, sample_order] sample_sender)))"]
    sample_msgs_ok
  unfolding one_byte_each
  by (simp add: sample_defs link_ok_def wire_def [of "_ :: FixSessionEngine"] accepts_def)

subsection \<open>At most once\<close>

text \<open>
  Messages that may not renumber the session: no sequence reset, no duplicate flag, no logon that
  asks for a reset.
\<close>

definition renumbers :: "string \<Rightarrow> bool" where
  "renumbers raw =
     (let fl = parse_message raw in
      get_or fl Tag_MsgType [] = SMsg_SEQUENCE_RESET \<or> poss_dup fl \<or> dict_get fl STag_ResetSeqNumFlag = Some ''Y'')"

definition handle_each :: "(clock \<times> string) list \<Rightarrow> FixSessionEngine \<Rightarrow> FixSessionEngine" where
  "handle_each ms e = foldl (\<lambda>e (clk, raw). snd (handle_message clk raw e)) e ms"

lemma fe_send_keeps: "fe_send clk mt fs e = (r, e') \<Longrightarrow> in_no e' = in_no e \<and> delivered e' = delivered e"
  by (auto simp: fe_send_def take_seq_def Let_def split: option.splits prod.splits sum.splits)

lemma send_logon_ack_keeps:
  "dict_get fl STag_ResetSeqNumFlag \<noteq> Some ''Y'' \<Longrightarrow> send_logon_ack clk fl e = (r, e') \<Longrightarrow>
   in_no e' = in_no e \<and> delivered e' = delivered e"
  by (auto simp: send_logon_ack_def Let_def dest: fe_send_keeps)

lemma on_logon_keeps:
  "dict_get fl STag_ResetSeqNumFlag \<noteq> Some ''Y'' \<Longrightarrow> on_logon clk fl e = (r, e') \<Longrightarrow>
   in_no e' = in_no e \<and> delivered e' = delivered e"
  by (auto simp: on_logon_def log_on_def split: if_splits prod.splits sum.splits dest!: send_logon_ack_keeps)

lemma handle_resend_keeps: "handle_resend clk fl e = (r, e') \<Longrightarrow> in_no e' = in_no e \<and> delivered e' = delivered e"
  by (auto simp: handle_resend_def Let_def split: option.splits prod.splits sum.splits dest!: fe_send_keeps)

lemma dispatch_keeps:
  "dict_get fl STag_ResetSeqNumFlag \<noteq> Some ''Y'' \<Longrightarrow> dispatch clk fl e = (r, e') \<Longrightarrow>
   in_no e' = in_no e \<and> (delivered e' = delivered e \<or> delivered e' = delivered e @ [fl])"
  unfolding dispatch_def Let_def
  by (auto split: if_splits prod.splits sum.splits
      dest!: fe_send_keeps handle_resend_keeps dest: on_logon_keeps)

lemma handle_message_once:
  assumes "\<not> renumbers raw" and "handle_message clk raw e = (r, e')"
  shows "in_no e \<le> in_no e' \<and> (delivered e' = delivered e \<or>
      (delivered e' = delivered e @ [parse_message raw] \<and> in_no e \<le> msg_seq (parse_message raw) \<and>
       msg_seq (parse_message raw) < in_no e'))"
proof (cases "verify_checksum raw")
  case False
  with assms show ?thesis by (simp add: handle_message_def)
next
  case True
  let ?fl = "parse_message raw" and ?n = "max (in_no e) (msg_seq (parse_message raw) + 1)"
  have h: "handle_fields clk ?fl e = (r, e')" using True assms(2) by (simp add: handle_message_def)
  have nr: "get_or ?fl Tag_MsgType [] \<noteq> SMsg_SEQUENCE_RESET" "\<not> poss_dup ?fl"
      "dict_get ?fl STag_ResetSeqNumFlag \<noteq> Some ''Y''"
    using assms(1) by (simp_all add: renumbers_def Let_def)
  consider "msg_seq ?fl > in_no e \<and> (fe_state e = ACTIVE \<or> fe_state e = LOGON_SENT)" | "msg_seq ?fl < in_no e"
    | "in_no e \<le> msg_seq ?fl" "handle_fields clk ?fl e = dispatch clk ?fl (set_in_seq ?n e)"
  proof -
    assume c: "msg_seq ?fl > in_no e \<and> (fe_state e = ACTIVE \<or> fe_state e = LOGON_SENT) \<Longrightarrow> thesis"
      "msg_seq ?fl < in_no e \<Longrightarrow> thesis"
      "in_no e \<le> msg_seq ?fl \<Longrightarrow> handle_fields clk ?fl e = dispatch clk ?fl (set_in_seq ?n e) \<Longrightarrow> thesis"
    show thesis
    proof (cases "msg_seq ?fl > in_no e \<and> (fe_state e = ACTIVE \<or> fe_state e = LOGON_SENT) \<or> msg_seq ?fl < in_no e")
      case True
      with c(1,2) show thesis by blast
    next
      case False
      then have "handle_fields clk ?fl e = dispatch clk ?fl (set_in_seq ?n e)"
        using nr by (simp only: handle_fields_def Let_def if_False simp_thms) auto
      with False c(3) show thesis by linarith
    qed
  qed
  then show ?thesis
  proof cases
    case 1
    with h nr have "in_no e' = in_no e \<and> delivered e' = delivered e"
      by (auto simp: handle_fields_def Let_def split: prod.splits sum.splits dest!: fe_send_keeps)
    then show ?thesis by simp
  next
    case 2
    with h nr show ?thesis by (auto simp: handle_fields_def Let_def)
  next
    case 3
    with h dispatch_keeps [OF nr(3)] have "in_no e' = ?n"
        "delivered e' = delivered e \<or> delivered e' = delivered e @ [?fl]"
      by (fastforce simp: set_in_seq_def)+
    with 3(1) show ?thesis by auto
  qed
qed

text \<open>
  C21: whatever valid, damaged, repeated or reordered messages arrive, as long as none of them may
  renumber the session, the application gets every sequence number at most once and in strictly
  increasing order.
\<close>

theorem delivered_at_most_once:
  assumes "list_all (\<lambda>(clk, raw). \<not> renumbers raw) ms" and "delivered e = []"
  shows "sorted_wrt (<) (map msg_seq (delivered (handle_each ms e)))"
proof -
  have "\<exists>ds. delivered (handle_each ms e) = delivered e @ ds \<and> in_no e \<le> in_no (handle_each ms e) \<and>
      sorted_wrt (<) (map msg_seq ds) \<and> (\<forall>d \<in> set ds. in_no e \<le> msg_seq d \<and> msg_seq d < in_no (handle_each ms e))"
    if "list_all (\<lambda>(clk, raw). \<not> renumbers raw) ms" for e ms
    using that
  proof (induction ms arbitrary: e)
    case Nil
    then show ?case by (simp add: handle_each_def)
  next
    case (Cons m ms)
    obtain clk raw where m: "m = (clk, raw)" by (cases m)
    obtain r e' where e': "handle_message clk raw e = (r, e')" by fastforce
    have step: "handle_each (m # ms) e = handle_each ms e'" by (simp add: handle_each_def m e')
    from Cons.IH [of e'] Cons.prems obtain ds where ds: "delivered (handle_each ms e') = delivered e' @ ds"
        "in_no e' \<le> in_no (handle_each ms e')" "sorted_wrt (<) (map msg_seq ds)"
        "\<forall>d \<in> set ds. in_no e' \<le> msg_seq d \<and> msg_seq d < in_no (handle_each ms e')"
      by auto
    from handle_message_once [OF _ e'] Cons.prems m have once: "in_no e \<le> in_no e'"
        "delivered e' = delivered e \<or> (delivered e' = delivered e @ [parse_message raw] \<and>
          in_no e \<le> msg_seq (parse_message raw) \<and> msg_seq (parse_message raw) < in_no e')"
      by auto
    from once(2) show ?case
    proof
      assume "delivered e' = delivered e"
      with ds once(1) step show ?thesis by (intro exI [of _ ds]) fastforce
    next
      assume d: "delivered e' = delivered e @ [parse_message raw] \<and>
          in_no e \<le> msg_seq (parse_message raw) \<and> msg_seq (parse_message raw) < in_no e'"
      with ds once(1) step show ?thesis by (intro exI [of _ "parse_message raw # ds"]) fastforce
    qed
  qed
  from this [OF assms(1), of e] assms(2) show ?thesis by auto
qed

subsection \<open>Two engines on a paired link\<close>

text \<open>
  One direction of \<^verbatim>\<open>PairedTransport\<close>: everything one side has put into the queue is
  read by the other in one turn of its read loop.  An exchange is one turn in each direction.
\<close>

definition drain :: "FixSessionEngine \<Rightarrow> string \<times> FixSessionEngine" where
  "drain e = (concat (wire e), e\<lparr>fe_transport := map_option (\<lambda>t. t\<lparr>tr_out := []\<rparr>) (fe_transport e)\<rparr>)"

definition deliver_to :: "(nat \<Rightarrow> clock) \<times> time \<Rightarrow> FixSessionEngine \<times> FixSessionEngine \<Rightarrow> FixSessionEngine \<times> FixSessionEngine" where
  "deliver_to c ab = (let (d, a) = drain (fst ab) in (a, read_step (fst c) (snd c) d (snd ab)))"

definition exchange :: "(nat \<Rightarrow> clock) \<times> time \<Rightarrow> FixSessionEngine \<times> FixSessionEngine \<Rightarrow> FixSessionEngine \<times> FixSessionEngine" where
  "exchange c ab = prod.swap (deliver_to c (prod.swap (deliver_to c ab)))"

lemma read_one:
  assumes "msg_ok s t m" and "running e" and "reader_alive e" and "fe_buf e = []"
    and "handle_fields (clk 0) (dec s t m) (e\<lparr>last_recv := now\<rparr>) = (Inr (), e')"
  shows "read_step clk now (enc s t m) e = e'"
proof -
  let ?e = "e\<lparr>fe_buf := enc s t m, last_recv := now\<rparr>"
  have same: "?e\<lparr>fe_buf := []\<rparr> = e\<lparr>last_recv := now\<rparr>" using assms(4) by (cases e) simp
  have run: "handle_message (clk 0) (enc s t m) (?e\<lparr>fe_buf := []\<rparr>) = (Inr (), e')"
    unfolding same using assms(5) by (simp add: handle_message_def enc_verifies msg_ok_parse [OF assms(1)])
  then have "fe_buf e' = []"
    using handle_message_buf [of "clk 0" "enc s t m" "?e\<lparr>fe_buf := []\<rparr>"] by simp
  moreover have "next_frame (fe_buf ?e) = Frame (enc s t m) []" using next_frame_enc [OF assms(1), of "[]"] by simp
  ultimately have "extract_and_handle clk ?e = (Inr (), e')"
    using run by (subst extract_and_handle.simps) (simp only: frame.case prod.case sum.case,
        subst extract_and_handle.simps, simp)
  then show ?thesis using assms(2-4) by (simp add: read_step_def)
qed

lemma py_int_zero: "py_int ''0'' = Some 0"
  by (simp add: py_int_def int_strip_def int_space_def py_digits_def is_digit_def digits_val_def
      digit_val_def max_str_digits_def)

lemma read_nothing [simp]: "read_step clk now [] e = e"
  by (simp add: read_step_def)

text \<open>Texts of names and stamps that keep a message well formed.\<close>

definition text_ok :: "string \<Rightarrow> bool" where
  "text_ok s = (SOH \<notin> set s \<and> length s \<le> 1000)"

definition fields_ok :: "fix_fields \<Rightarrow> bool" where
  "fields_ok fs =
     (list_all field_ok fs \<and> sum_list (map (\<lambda>f. length (field f) + 1) fs) \<le> 100000 \<and>
      distinct (map fst fs) \<and>
      list_all (\<lambda>f. fst f \<notin> {''8'', ''9'', ''35'', ''10'', ''49'', ''56'', ''34'', ''52''}) fs)"

lemma str_int_ok: "0 \<le> n \<Longrightarrow> n < int max_len \<Longrightarrow> text_ok (str_int n)"
proof -
  assume n: "0 \<le> n" "n < int max_len"
  then have "nat n < 10 ^ 19" by (simp add: max_len_def nat_less_iff)
  then have "length (str_nat (nat n)) \<le> 19" by (rule str_nat_length [rotated]) simp
  with n(1) show ?thesis by (simp add: text_ok_def str_int_def)
qed

lemma msg_okI:
  assumes "text_ok s" and "text_ok t" and "text_ok stamp" and "text_ok mt" and "fields_ok fs"
    and "0 \<le> n" and "n < int max_len"
  shows "msg_ok s t (n, stamp, mt, fs)"
proof -
  let ?all = "all_fields s t n stamp fs"
  have n: "text_ok (str_int n)" using assms(6,7) by (rule str_int_ok)
  have "length (body mt ?all) = length (field (Tag_MsgType, mt)) + 1 + sum_list (map (\<lambda>f. length (field f) + 1) ?all)"
    by (simp add: body_terminated length_concat comp_def)
  also have "\<dots> \<le> 200000"
    using assms n by (simp add: all_fields_def field_def text_ok_def fields_ok_def)
  finally have "wire_ok mt ?all" by (simp add: wire_ok_def max_len_def)
  then show ?thesis
    using assms n by (auto simp: msg_ok_def all_fields_def text_ok_def fields_ok_def tags_ok_def list_all_iff)
qed

text \<open>
  The sender is ahead: the receiver waits for a number below the one the sender uses next, while
  in the other direction both agree.  Nothing is under way.
\<close>

definition ahead :: "FixSessionEngine \<Rightarrow> FixSessionEngine \<Rightarrow> bool" where
  "ahead a b =
     (link_ok a \<and> link_ok b \<and> wire a = [] \<and> wire b = [] \<and> fe_buf a = [] \<and> fe_buf b = [] \<and>
      running a \<and> running b \<and> reader_alive a \<and> reader_alive b \<and> fe_state a = ACTIVE \<and> fe_state b = ACTIVE \<and>
      list_all text_ok [fe_sender a, fe_target a, fe_sender b, fe_target b] \<and>
      0 \<le> in_no b \<and> in_no b < out_no a \<and> 0 \<le> in_no a \<and> in_no a = out_no b)"

definition clock_ok :: "(nat \<Rightarrow> clock) \<times> time \<Rightarrow> bool" where
  "clock_ok c = text_ok (fst (fst c 0))"

definition room :: "int \<Rightarrow> FixSessionEngine \<Rightarrow> FixSessionEngine \<Rightarrow> bool" where
  "room k a b = (out_no a + k < int max_len \<and> out_no b + k < int max_len)"

lemma drain_facts:
  "fst (drain e) = concat (wire e)" "wire (snd (drain e)) = []" "link_ok (snd (drain e)) = link_ok e"
  "out_no (snd (drain e)) = out_no e" "in_no (snd (drain e)) = in_no e" "same_rest e (snd (drain e))"
  by (auto simp: drain_def wire_def link_ok_def accepts_def same_rest_def split: option.splits)

text \<open>A message past the expected number is dropped and answered with a resend request.\<close>

lemma gap_fields:
  assumes "msg_ok s t (n, stamp, mt, fs)" and "in_no e < n" and "fe_state e = ACTIVE"
    and "mt \<noteq> SMsg_SEQUENCE_RESET" and "map_of fs STag_PossDupFlag \<noteq> Some ''Y''"
    and "fe_send clk SMsg_RESEND_REQUEST [(STag_BeginSeqNo, str_int (in_no e)), (STag_EndSeqNo, ''0'')] e = (Inr k, e')"
  shows "handle_fields clk (dec s t (n, stamp, mt, fs)) e = (Inr (), e')"
  using assms dec_seq [OF assms(1)] dec_not_poss_dup [OF assms(1,5)]
  by (simp add: handle_fields_def Let_def dec_type)

text \<open>
  The expected resend request, asking for everything from \<open>k\<close> on, is answered with a reset to
  the number the answer itself carries.
\<close>

lemma resend_fields:
  assumes "msg_ok s t (n, stamp, SMsg_RESEND_REQUEST, [(STag_BeginSeqNo, str_int k), (STag_EndSeqNo, ''0'')])"
    and "n = in_no e" and "0 \<le> k" and "k < int max_len"
    and "fe_send clk SMsg_SEQUENCE_RESET
      [(STag_GapFillFlag, ''Y''), (STag_PossDupFlag, ''Y''), (STag_NewSeqNo, str_int (out_no e))]
      (set_in_seq (in_no e + 1) e) = (Inr j, e')"
  shows "handle_fields clk (dec s t (n, stamp, SMsg_RESEND_REQUEST, [(STag_BeginSeqNo, str_int k), (STag_EndSeqNo, ''0'')])) e =
    (Inr (), e')"
proof -
  let ?d = "dec s t (n, stamp, SMsg_RESEND_REQUEST, [(STag_BeginSeqNo, str_int k), (STag_EndSeqNo, ''0'')])"
  have num: "py_int (get_or ?d STag_BeginSeqNo ''1'') = Some k" "py_int (get_or ?d STag_EndSeqNo ''0'') = Some 0"
    using assms(3,4) by (simp_all add: get_or_def dec_field [OF assms(1)] py_int_str_int py_int_zero)
  have out: "out_no (set_in_seq (in_no e + 1) e) = out_no e" by (simp add: set_in_seq_def)
  have "\<not> poss_dup ?d" by (rule dec_not_poss_dup [OF assms(1)]) simp
  then have "handle_fields clk ?d e = dispatch clk ?d (set_in_seq (in_no e + 1) e)"
    using dec_seq [OF assms(1)] assms(2) by (simp add: handle_fields_def Let_def dec_type)
  also have "\<dots> = handle_resend clk ?d (set_in_seq (in_no e + 1) e)"
    by (simp add: dispatch_def Let_def dec_type)
  also have "\<dots> = (Inr (), e')"
    using assms(5) by (simp add: handle_resend_def num out)
  finally show ?thesis .
qed

text \<open>A sequence reset is believed whatever its own number.\<close>

lemma reset_fields:
  assumes "msg_ok s t (n, stamp, SMsg_SEQUENCE_RESET,
      [(STag_GapFillFlag, ''Y''), (STag_PossDupFlag, ''Y''), (STag_NewSeqNo, str_int k)])"
    and "0 \<le> k" and "k < int max_len"
  shows "handle_fields clk (dec s t (n, stamp, SMsg_SEQUENCE_RESET,
      [(STag_GapFillFlag, ''Y''), (STag_PossDupFlag, ''Y''), (STag_NewSeqNo, str_int k)])) e = (Inr (), set_in_seq k e)"
  using assms by (simp add: handle_fields_def Let_def dec_type get_or_def [of _ STag_NewSeqNo] dec_field [OF assms(1)] py_int_str_int)

text \<open>One direction when a single message, or nothing, is under way.\<close>

lemma deliver_one:
  assumes "wire a = [enc s t m]" and "msg_ok s t m" and "running b" and "reader_alive b" and "fe_buf b = []"
    and "handle_fields (fst c 0) (dec s t m) (b\<lparr>last_recv := snd c\<rparr>) = (Inr (), b')"
  shows "deliver_to c (a, b) = (snd (drain a), b')"
  using assms read_one [OF assms(2-5), where clk = "fst c" and now = "snd c"] drain_facts(1) [of a]
  by (simp add: deliver_to_def case_prod_unfold)

lemma deliver_none: "wire a = [] \<Longrightarrow> deliver_to c (a, b) = (snd (drain a), b)"
  using drain_facts(1) [of a] by (simp add: deliver_to_def case_prod_unfold)

definition order_ok :: "(rat \<Rightarrow> string) \<Rightarrow> order_req \<Rightarrow> bool" where
  "order_ok rep r =
     (text_ok (fst (or_clk r)) \<and> (case req_fields rep r of Inl _ \<Rightarrow> True | Inr fs \<Rightarrow> fields_ok fs))"

lemma sample_order_ok: "order_ok (\<lambda>q. ''0.5'') sample_order"
  unfolding order_ok_def sample_fields sum.case
  by (simp add: sample_order_def text_ok_def fields_ok_def field_def SOH_def)

lemma link_recv [simp]: "link_ok (e\<lparr>last_recv := t\<rparr>) = link_ok e" "wire (e\<lparr>last_recv := t\<rparr>) = wire e"
    "same_rest (e\<lparr>last_recv := t\<rparr>) e' = same_rest e e'"
  by (simp_all add: link_ok_def wire_def same_rest_def)

lemma set_in_seq_facts [simp]: "link_ok (set_in_seq n e) = link_ok e" "wire (set_in_seq n e) = wire e"
    "in_no (set_in_seq n e) = n" "out_no (set_in_seq n e) = out_no e"
    "fe_sender (set_in_seq n e) = fe_sender e" "fe_target (set_in_seq n e) = fe_target e"
    "same_rest (set_in_seq n e) e' = same_rest e e'" "same_rest e (set_in_seq n e') = same_rest e e'"
  by (simp_all add: set_in_seq_def link_ok_def wire_def same_rest_def)

text \<open>
  The receiver drops the order and asks again; the sender answers with a reset that carries number
  \<open>n + 1\<close> and announces \<open>n + 1\<close>; the receiver now waits for that very number, which is used
  up.
\<close>

lemma gap_first_half:
  assumes "ahead a b" and "room 4 a b" and "clock_ok c" and "msg_ok (fe_sender a) (fe_target a) m"
    and "app_msg m" and "in_no b < fst m"
    and "link_ok a1" and "same_rest a a1" and "wire a1 = [enc (fe_sender a) (fe_target a) m]"
    and "out_no a1 = out_no a + 1" and "in_no a1 = in_no a"
  obtains a2 b2 where "exchange c (a1, b) = (a2, b2)" and "link_ok a2" and "link_ok b2" and "wire b2 = []"
    and "same_rest a a2" and "same_rest b b2" and "in_no b2 = in_no b" and "out_no b2 = out_no b + 1"
    and "in_no a2 = in_no a + 1" and "out_no a2 = out_no a + 2"
    and "wire a2 = [enc (fe_sender a) (fe_target a) (out_no a + 1, fst (fst c 0), SMsg_SEQUENCE_RESET,
      [(STag_GapFillFlag, ''Y''), (STag_PossDupFlag, ''Y''), (STag_NewSeqNo, str_int (out_no a + 1))])]"
proof -
  let ?k = "fst c 0" and ?now = "snd c"
  let ?req = "(out_no b, fst ?k, SMsg_RESEND_REQUEST, [(STag_BeginSeqNo, str_int (in_no b)), (STag_EndSeqNo, ''0'')])"
  obtain n stamp mt fs where m: "m = (n, stamp, mt, fs)" by (cases m)
  have A: "link_ok b" "wire b = []" "running b" "reader_alive b" "fe_buf b = []" "fe_state b = ACTIVE"
      "running a" "reader_alive a" "fe_buf a = []" "0 \<le> in_no b" "in_no b < out_no a" "0 \<le> in_no a" "in_no a = out_no b"
      "text_ok (fe_sender b)" "text_ok (fe_target b)"
    using assms(1) by (simp_all add: ahead_def)
  obtain b1 where b1: "fe_send ?k SMsg_RESEND_REQUEST [(STag_BeginSeqNo, str_int (in_no b)), (STag_EndSeqNo, ''0'')]
        (b\<lparr>last_recv := ?now\<rparr>) = (Inr (out_no b), b1)"
      "out_no b1 = out_no b + 1" "in_no b1 = in_no b" "link_ok b1" "same_rest b b1"
      "wire b1 = [enc (fe_sender b) (fe_target b) ?req]"
    using fe_send_up [of "b\<lparr>last_recv := ?now\<rparr>" ?k SMsg_RESEND_REQUEST "[(STag_BeginSeqNo, str_int (in_no b)), (STag_EndSeqNo, ''0'')]"]
      A(1,2) by (auto simp: enc_def)
  have "handle_fields ?k (dec (fe_sender a) (fe_target a) m) (b\<lparr>last_recv := ?now\<rparr>) = (Inr (), b1)"
    unfolding m by (rule gap_fields) (use assms(4-6) A(6) b1(1) in \<open>auto simp: m app_msg_def app_type_def\<close>)
  then have d1: "deliver_to c (a1, b) = (snd (drain a1), b1)"
    by (rule deliver_one [OF assms(9,4) A(3-5)])
  let ?a = "snd (drain a1)"
  have a: "link_ok ?a" "wire ?a = []" "out_no ?a = out_no a + 1" "in_no ?a = in_no a" "same_rest a ?a"
    using drain_facts [of a1] assms(7,8,10,11) by (auto intro: same_rest_trans)
  have idle: "running ?a" "reader_alive ?a" "fe_buf ?a = []" using A(7-9) a(5) by (simp_all add: same_rest_def)
  have ok: "text_ok (fst ?k)" using assms(3) by (simp add: clock_ok_def)
  have req: "msg_ok (fe_sender b) (fe_target b) ?req"
  proof (rule msg_okI)
    have "text_ok (str_int (in_no b))" using A(10,11) assms(2) by (intro str_int_ok) (auto simp: room_def)
    then show "fields_ok [(STag_BeginSeqNo, str_int (in_no b)), (STag_EndSeqNo, ''0'')]"
      by (simp add: fields_ok_def text_ok_def field_def)
  qed (use A ok assms(2) in \<open>simp_all add: room_def text_ok_def\<close>)
  obtain a2 where a2: "fe_send ?k SMsg_SEQUENCE_RESET
        [(STag_GapFillFlag, ''Y''), (STag_PossDupFlag, ''Y''), (STag_NewSeqNo, str_int (out_no ?a))]
        (set_in_seq (in_no ?a + 1) (?a\<lparr>last_recv := ?now\<rparr>)) = (Inr (out_no ?a), a2)"
      "out_no a2 = out_no ?a + 1" "in_no a2 = in_no ?a + 1" "link_ok a2" "same_rest ?a a2"
      "wire a2 = [enc (fe_sender ?a) (fe_target ?a) (out_no ?a, fst ?k, SMsg_SEQUENCE_RESET,
        [(STag_GapFillFlag, ''Y''), (STag_PossDupFlag, ''Y''), (STag_NewSeqNo, str_int (out_no ?a))])]"
    using fe_send_up [of "set_in_seq (in_no ?a + 1) (?a\<lparr>last_recv := ?now\<rparr>)" ?k SMsg_SEQUENCE_RESET
        "[(STag_GapFillFlag, ''Y''), (STag_PossDupFlag, ''Y''), (STag_NewSeqNo, str_int (out_no ?a))]"]
      a(1,2) by (auto simp: enc_def)
  have "handle_fields ?k (dec (fe_sender b) (fe_target b) ?req) (?a\<lparr>last_recv := ?now\<rparr>) = (Inr (), a2)"
    by (rule resend_fields [OF req]) (use A a assms(2) a2(1) in \<open>simp_all add: room_def\<close>)
  then have d2: "deliver_to c (b1, ?a) = (snd (drain b1), a2)"
    by (rule deliver_one [OF b1(6) req idle])
  have "exchange c (a1, b) = (a2, snd (drain b1))" by (simp add: exchange_def d1 d2)
  then show thesis
    by (rule that) (use drain_facts [of b1] a a2 b1 in \<open>auto simp: same_rest_def\<close>)
qed

lemma gap_second_half:
  assumes "msg_ok s t (k, stamp, SMsg_SEQUENCE_RESET,
        [(STag_GapFillFlag, ''Y''), (STag_PossDupFlag, ''Y''), (STag_NewSeqNo, str_int k)])"
    and "wire a = [enc s t (k, stamp, SMsg_SEQUENCE_RESET,
        [(STag_GapFillFlag, ''Y''), (STag_PossDupFlag, ''Y''), (STag_NewSeqNo, str_int k)])]"
    and "0 \<le> k" and "k < int max_len" and "running b" and "reader_alive b" and "fe_buf b = []" and "wire b = []"
  shows "exchange c (a, b) = (snd (drain a), snd (drain (set_in_seq k (b\<lparr>last_recv := snd c\<rparr>))))"
proof -
  have "deliver_to c (a, b) = (snd (drain a), set_in_seq k (b\<lparr>last_recv := snd c\<rparr>))"
    by (rule deliver_one [OF assms(2,1,5-7) reset_fields [OF assms(1,3,4)]])
  moreover have "deliver_to c (set_in_seq k (b\<lparr>last_recv := snd c\<rparr>), snd (drain a)) =
      (snd (drain (set_in_seq k (b\<lparr>last_recv := snd c\<rparr>))), snd (drain a))"
    by (rule deliver_none) (simp add: assms(8))
  ultimately show ?thesis by (simp add: exchange_def)
qed

definition order_round ::
  "(rat \<Rightarrow> string) \<Rightarrow> (nat \<Rightarrow> clock) \<times> time \<Rightarrow> order_req \<Rightarrow> FixSessionEngine \<times> FixSessionEngine \<Rightarrow> FixSessionEngine \<times> FixSessionEngine" where
  "order_round rep c r ab = exchange c (exchange c (snd (send_req rep r (fst ab)), snd ab))"

lemma ahead_idle:
  assumes "ahead a b"
  shows "\<exists>a' b'. exchange c (a, b) = (a', b') \<and> ahead a' b' \<and> delivered b' = delivered b \<and>
    out_no a' = out_no a \<and> out_no b' = out_no b"
proof -
  have w: "wire a = []" "wire b = []" using assms by (simp_all add: ahead_def)
  then have "exchange c (a, b) = (snd (drain a), snd (drain b))"
    by (simp add: exchange_def deliver_none)
  moreover have "ahead (snd (drain a)) (snd (drain b))"
    using assms drain_facts [of a] drain_facts [of b] by (simp add: ahead_def same_rest_def)
  ultimately show ?thesis using drain_facts [of a] drain_facts [of b] by (auto simp: same_rest_def)
qed

lemma ahead_transfer:
  "ahead a b \<Longrightarrow> same_rest a a' \<Longrightarrow> same_rest b b' \<Longrightarrow> link_ok a' \<Longrightarrow> link_ok b' \<Longrightarrow> wire a' = [] \<Longrightarrow> wire b' = [] \<Longrightarrow>
   0 \<le> in_no b' \<Longrightarrow> in_no b' < out_no a' \<Longrightarrow> 0 \<le> in_no a' \<Longrightarrow> in_no a' = out_no b' \<Longrightarrow> ahead a' b'"
  by (simp add: ahead_def same_rest_def)

lemma ahead_round:
  assumes "ahead a b" and "room 4 a b" and "clock_ok c" and "order_ok rep r"
  shows "\<exists>a' b'. order_round rep c r (a, b) = (a', b') \<and> ahead a' b' \<and> delivered b' = delivered b \<and>
    out_no a' \<le> out_no a + 2 \<and> out_no b' \<le> out_no b + 1"
proof (cases "req_fields rep r")
  case (Inl x)
  then have s: "snd (send_req rep r a) = a" by (simp add: send_req_def send_new_order_def req_fields_def)
  obtain a1 b1 where 1: "exchange c (a, b) = (a1, b1)" "ahead a1 b1" "delivered b1 = delivered b"
      "out_no a1 = out_no a" "out_no b1 = out_no b"
    using ahead_idle [OF assms(1)] by blast
  obtain a2 b2 where 2: "exchange c (a1, b1) = (a2, b2)" "ahead a2 b2" "delivered b2 = delivered b1"
      "out_no a2 = out_no a1" "out_no b2 = out_no b1"
    using ahead_idle [OF 1(2)] by blast
  have "order_round rep c r (a, b) = (a2, b2)" by (simp only: order_round_def fst_conv snd_conv s 1(1) 2(1))
  moreover have "delivered b2 = delivered b" "out_no a2 \<le> out_no a + 2" "out_no b2 \<le> out_no b + 1"
    using 1 2 by simp_all
  ultimately show ?thesis using 2(2) by blast
next
  case (Inr fs)
  let ?m = "(out_no a, fst (or_clk r), MsgType_value NEW_ORDER_SINGLE, fs)"
  have A: "link_ok a" "wire a = []" "running b" "reader_alive b" "fe_buf b = []" "wire b = []"
      "in_no b < out_no a" "0 \<le> in_no b" "0 \<le> in_no a" "in_no a = out_no b" "text_ok (fe_sender a)" "text_ok (fe_target a)"
    using assms(1) by (simp_all add: ahead_def)
  obtain a1 where f: "fe_send (or_clk r) (MsgType_value NEW_ORDER_SINGLE) fs a = (Inr (out_no a), a1)"
      and a1: "out_no a1 = out_no a + 1" "in_no a1 = in_no a" "link_ok a1" "same_rest a a1"
      and w: "wire a1 = wire a @ [encode_message (MsgType_value NEW_ORDER_SINGLE)
        (all_fields (fe_sender a) (fe_target a) (out_no a) (fst (or_clk r)) fs)]"
    by (rule fe_send_up [OF A(1)])
  have s: "snd (send_req rep r a) = a1"
    using Inr f by (simp only: send_req_def send_new_order_def req_fields_def sum.case snd_conv)
  have w1: "wire a1 = [enc (fe_sender a) (fe_target a) ?m]" by (simp only: w A(2) append_Nil enc_def prod.case)
  have m: "msg_ok (fe_sender a) (fe_target a) ?m"
    by (rule msg_okI) (use A assms(2,4) Inr in \<open>simp_all add: order_ok_def room_def text_ok_def SOH_def\<close>)
  have app: "app_msg ?m" using order_msgs_app [of rep "out_no a" "[r]"] Inr by simp
  obtain a2 b2 where h: "exchange c (a1, b) = (a2, b2)" "link_ok a2" "link_ok b2" "wire b2 = []"
      "same_rest a a2" "same_rest b b2" "in_no b2 = in_no b" "out_no b2 = out_no b + 1"
      "in_no a2 = in_no a + 1" "out_no a2 = out_no a + 2"
      "wire a2 = [enc (fe_sender a) (fe_target a) (out_no a + 1, fst (fst c 0), SMsg_SEQUENCE_RESET,
        [(STag_GapFillFlag, ''Y''), (STag_PossDupFlag, ''Y''), (STag_NewSeqNo, str_int (out_no a + 1))])]"
    by (rule gap_first_half [OF assms(1-3) m app _ a1(3,4) w1 a1(1,2)]) (use A(7) in simp)
  have k: "0 \<le> out_no a + 1" "out_no a + 1 < int max_len" using A(7,8) assms(2) by (simp_all add: room_def)
  have reset: "msg_ok (fe_sender a) (fe_target a) (out_no a + 1, fst (fst c 0), SMsg_SEQUENCE_RESET,
        [(STag_GapFillFlag, ''Y''), (STag_PossDupFlag, ''Y''), (STag_NewSeqNo, str_int (out_no a + 1))])"
  proof (rule msg_okI [OF A(11,12) _ _ _ k])
    show "fields_ok [(STag_GapFillFlag, ''Y''), (STag_PossDupFlag, ''Y''), (STag_NewSeqNo, str_int (out_no a + 1))]"
      using str_int_ok [OF k] by (simp add: fields_ok_def text_ok_def field_def)
    show "text_ok (fst (fst c 0))" using assms(3) by (simp only: clock_ok_def)
    show "text_ok SMsg_SEQUENCE_RESET" by (simp add: text_ok_def)
  qed
  let ?a = "snd (drain a2)" and ?b = "snd (drain (set_in_seq (out_no a + 1) (b2\<lparr>last_recv := snd c\<rparr>)))"
  have idle: "running b2" "reader_alive b2" "fe_buf b2 = []" using A(3-5) h(6) by (simp_all add: same_rest_def)
  have "order_round rep c r (a, b) = (?a, ?b)"
    using gap_second_half [OF reset h(11) k idle h(4)] by (simp only: order_round_def fst_conv snd_conv s h(1))
  moreover have "ahead ?a ?b"
  proof (rule ahead_transfer [OF assms(1)])
    show "same_rest a ?a" by (rule same_rest_trans [OF h(5) drain_facts(6)])
    have "same_rest b (set_in_seq (out_no a + 1) (b2\<lparr>last_recv := snd c\<rparr>))"
      using h(6) by (simp add: set_in_seq_def same_rest_def)
    then show "same_rest b ?b" by (rule same_rest_trans [OF _ drain_facts(6)])
  qed (use A(8-10) k in \<open>simp_all add: drain_facts h\<close>)
  moreover have "delivered ?b = delivered b"
    using h(6) by (simp add: drain_def same_rest_def set_in_seq_def)
  moreover have "out_no ?a = out_no a + 2" "out_no ?b = out_no b + 1"
    by (simp_all add: drain_facts h)
  ultimately show ?thesis by (intro exI [of _ ?a] exI [of _ ?b]) simp
qed

definition order_rounds ::
  "(rat \<Rightarrow> string) \<Rightarrow> ((nat \<Rightarrow> clock) \<times> time) \<Rightarrow> order_req list \<Rightarrow> FixSessionEngine \<times> FixSessionEngine \<Rightarrow> FixSessionEngine \<times> FixSessionEngine" where
  "order_rounds rep c rs ab = foldl (\<lambda>ab r. order_round rep c r ab) ab rs"

lemma ahead_rounds:
  assumes "ahead a b" and "room (2 * int (length rs) + 4) a b" and "clock_ok c" and "list_all (order_ok rep) rs"
  shows "delivered (snd (order_rounds rep c rs (a, b))) = delivered b"
  using assms
proof (induction rs arbitrary: a b)
  case Nil
  then show ?case by (simp add: order_rounds_def)
next
  case (Cons r rs)
  have "room 4 a b" using Cons.prems(2) by (simp add: room_def)
  then obtain a' b' where ab: "order_round rep c r (a, b) = (a', b')" "ahead a' b'" "delivered b' = delivered b"
      "out_no a' \<le> out_no a + 2" "out_no b' \<le> out_no b + 1"
    using ahead_round [OF Cons.prems(1) _ Cons.prems(3), of rep r] Cons.prems(4) by auto
  have "delivered (snd (order_rounds rep c rs (a', b'))) = delivered b'"
    using Cons.prems ab by (intro Cons.IH) (simp_all add: room_def)
  with ab show ?case by (simp add: order_rounds_def)
qed

text \<open>
  C35: A gap is never closed.  Once the receiver of an established session waits for a number below
  the sender's next one, no order reaches its application any more, however many are sent: each is
  dropped and answered with a resend request, and the answer to that, a sequence reset numbered like
  the number it announces, leaves the receiver one behind again.
\<close>

theorem gap_stops_all_orders:
  assumes "ahead a b" and "room (2 * int (length rs) + 4) a b" and "clock_ok c" and "list_all (order_ok rep) rs"
  shows "delivered (snd (order_rounds rep c rs (a, b))) = delivered b"
  using assms by (rule ahead_rounds)

subsection \<open>Logging on with a reset of the numbers\<close>

definition fresh_pair_end :: Transport where
  "fresh_pair_end = \<lparr>tr_kind = PairedTransport, tr_up = True, tr_closed = False, tr_out = []\<rparr>"

text \<open>Two fresh engines, the initiator configured with \<^verbatim>\<open>reset_seq_on_logon\<close>.\<close>

definition fresh_engine :: "string \<Rightarrow> string \<Rightarrow> int \<Rightarrow> bool \<Rightarrow> bool \<Rightarrow> FixSessionEngine" where
  "fresh_engine s t hb reset acceptor =
     init_FixSessionEngine s t hb reset True acceptor (init_SeqStore False No_file True) (Some fresh_pair_end) 0 0"

definition start_session :: "(nat \<Rightarrow> clock) \<times> time \<Rightarrow> FixSessionEngine \<times> FixSessionEngine \<Rightarrow> FixSessionEngine \<times> FixSessionEngine" where
  "start_session c ab =
     exchange c (snd (connect (fst c 0) None (fst ab)), snd (connect (fst c 0) None (snd ab)))"

abbreviation "logon_fields hb \<equiv> [(STag_EncryptMethod, ''0''), (STag_HeartBtInt, str_int hb), (STag_ResetSeqNumFlag, ''Y'')]"

lemma logon_msg_ok:
  assumes "text_ok s" and "text_ok t" and "text_ok stamp" and "0 \<le> hb" and "hb < int max_len"
  shows "msg_ok s t (1, stamp, MsgType_value LOGON, logon_fields hb)"
proof (rule msg_okI [OF assms(1-3)])
  show "fields_ok (logon_fields hb)"
    using str_int_ok [OF assms(4,5)] by (simp add: fields_ok_def text_ok_def field_def)
qed (simp_all add: text_ok_def SOH_def max_len_def)

lemma dec_logon:
  assumes "msg_ok s t (1, stamp, MsgType_value LOGON, logon_fields hb)"
  shows "dict_get (dec s t (1, stamp, MsgType_value LOGON, logon_fields hb)) STag_ResetSeqNumFlag = Some ''Y''"
    and "get_or (dec s t (1, stamp, MsgType_value LOGON, logon_fields hb)) STag_HeartBtInt v = str_int hb"
  by (simp_all add: dec_field [OF assms] get_or_def del: MsgType_value.simps)

text \<open>The first message of a session, at either end.\<close>

lemma logon_fields_dispatch:
  assumes "msg_ok s t (1, stamp, MsgType_value LOGON, logon_fields hb)" and "in_no e = 1"
  shows "handle_fields clk (dec s t (1, stamp, MsgType_value LOGON, logon_fields hb)) e =
    on_logon clk (dec s t (1, stamp, MsgType_value LOGON, logon_fields hb)) (set_in_seq 2 e)"
proof -
  have "\<not> poss_dup (dec s t (1, stamp, MsgType_value LOGON, logon_fields hb))"
    by (rule dec_not_poss_dup [OF assms(1)]) simp
  then show ?thesis
    using dec_seq [OF assms(1)] assms(2) by (simp add: handle_fields_def dispatch_def Let_def dec_type)
qed

lemma start_session_ahead:
  assumes names: "text_ok s" "text_ok t" and c: "clock_ok c" and hb: "0 \<le> hb" "hb < int max_len"
  shows "\<exists>a b. start_session c (fresh_engine s t hb True False, fresh_engine t s hb2 False True) = (a, b) \<and>
    ahead a b \<and> delivered b = [] \<and> out_no a = 2 \<and> out_no b = 2"
proof -
  let ?k = "fst c 0" and ?now = "snd c"
  let ?m = "(1, fst ?k, MsgType_value LOGON, logon_fields hb)"
  have k: "text_ok (fst ?k)" using c by (simp add: clock_ok_def)
  have m: "msg_ok s t ?m" "msg_ok t s ?m" using logon_msg_ok names k hb by blast+
  let ?ia = "fresh_engine s t hb True False" and ?ib = "fresh_engine t s hb2 False True"
  let ?a = "?ia\<lparr>running := True, reader_alive := True, fe_state := LOGON_SENT\<rparr>"
  let ?b = "?ib\<lparr>running := True, reader_alive := True\<rparr>"
  note fresh = fresh_engine_def init_FixSessionEngine_def init_SeqStore_def seq_load_def fresh_pair_end_def
  have A: "link_ok ?a" "wire ?a = []" "out_no ?a = 1" "in_no ?a = 1" "fe_sender ?a = s" "fe_target ?a = t"
    by (simp_all add: fresh link_ok_def wire_def accepts_def)
  have B: "link_ok ?b" "wire ?b = []" "out_no ?b = 1" "in_no ?b = 1" "fe_sender ?b = t" "fe_target ?b = s"
      "is_acceptor ?b" "fe_state ?b = DISCONNECTED" "fe_buf ?b = []" "running ?b" "reader_alive ?b"
    by (simp_all add: fresh link_ok_def wire_def accepts_def)
  obtain a1 where a1: "fe_send ?k (MsgType_value LOGON) (logon_fields hb) ?a = (Inr (out_no ?a), a1)"
      "out_no a1 = out_no ?a + 1" "in_no a1 = in_no ?a" "link_ok a1" "same_rest ?a a1"
      "wire a1 = wire ?a @ [encode_message (MsgType_value LOGON)
        (all_fields (fe_sender ?a) (fe_target ?a) (out_no ?a) (fst ?k) (logon_fields hb))]"
    by (rule fe_send_up [OF A(1)])
  have ca: "snd (connect ?k None ?ia) = a1"
    using a1(1) by (simp add: connect_def send_logon_def fresh seq_reset_def seq_save_def Let_def)
  have cb: "snd (connect ?k None ?ib) = ?b" by (simp add: connect_def fresh Let_def)
  have w: "wire a1 = [enc s t ?m]" by (simp only: a1(6) A append_Nil enc_def prod.case)
  let ?b1 = "set_in_seq 2 (?b\<lparr>last_recv := ?now\<rparr>)"
  let ?b2 = "?b1\<lparr>fe_seq := seq_reset (fe_seq ?b1)\<rparr>"
  have B2: "link_ok ?b2" "wire ?b2 = []" "out_no ?b2 = 1" "in_no ?b2 = 1" "fe_sender ?b2 = t" "fe_target ?b2 = s" "same_rest ?b ?b2"
    using B by (simp_all add: link_ok_def wire_def set_in_seq_def seq_reset_def same_rest_def)
  obtain b3 where b3: "fe_send ?k (MsgType_value LOGON) (logon_fields hb) ?b2 = (Inr (out_no ?b2), b3)"
      "out_no b3 = out_no ?b2 + 1" "in_no b3 = in_no ?b2" "link_ok b3" "same_rest ?b2 b3"
      "wire b3 = wire ?b2 @ [encode_message (MsgType_value LOGON)
        (all_fields (fe_sender ?b2) (fe_target ?b2) (out_no ?b2) (fst ?k) (logon_fields hb))]"
    by (rule fe_send_up [OF B2(1)])
  have ack: "send_logon_ack ?k (dec s t ?m) ?b1 = (Inr 1, b3)"
    using b3(1) B2(3) by (simp add: send_logon_ack_def Let_def dec_logon [OF m(1)] del: MsgType_value.simps)
  have "is_acceptor ?b1" "fe_state ?b1 \<noteq> ACTIVE" using B(7,8) by (simp_all add: set_in_seq_def)
  then have "handle_fields ?k (dec s t ?m) (?b\<lparr>last_recv := ?now\<rparr>) = (Inr (), log_on b3)"
    using logon_fields_dispatch [OF m(1), of "?b\<lparr>last_recv := ?now\<rparr>" ?k] B(4) ack
    by (simp add: on_logon_def del: MsgType_value.simps)
  then have d1: "deliver_to c (a1, ?b) = (snd (drain a1), log_on b3)"
    by (rule deliver_one [OF w m(1) B(10,11,9)])
  let ?a2 = "snd (drain a1)"
  have a2: "in_no ?a2 = 1" "out_no ?a2 = 2" "same_rest ?a ?a2" "link_ok ?a2" "wire ?a2 = []"
    using drain_facts [of a1] a1 A by (auto intro: same_rest_trans)
  have a2i: "running ?a2" "reader_alive ?a2" "fe_buf ?a2 = []" "\<not> is_acceptor ?a2"
    using a2(3) by (simp_all add: same_rest_def fresh)
  let ?a3 = "log_on (set_in_seq 2 (?a2\<lparr>last_recv := ?now\<rparr>))"
  have "handle_fields ?k (dec t s ?m) (?a2\<lparr>last_recv := ?now\<rparr>) = (Inr (), ?a3)"
    using logon_fields_dispatch [OF m(2), of "?a2\<lparr>last_recv := ?now\<rparr>" ?k] a2(1) a2i(4)
    by (simp add: on_logon_def set_in_seq_def del: MsgType_value.simps)
  moreover have "wire (log_on b3) = [enc t s ?m]"
    using b3(6) B2 by (simp add: log_on_def wire_def enc_def)
  ultimately have d2: "deliver_to c (log_on b3, ?a2) = (snd (drain (log_on b3)), ?a3)"
    by (intro deliver_one [OF _ m(2) a2i(1-3)])
  let ?b4 = "snd (drain (log_on b3))"
  have "start_session c (?ia, ?ib) = (?a3, ?b4)"
    by (simp only: start_session_def fst_conv snd_conv ca cb exchange_def d1 d2 prod.swap_def)
  moreover have b4: "link_ok ?b4" "wire ?b4 = []" "out_no ?b4 = 2" "in_no ?b4 = 1" "delivered ?b4 = []" "fe_state ?b4 = ACTIVE"
      "running ?b4" "reader_alive ?b4" "fe_buf ?b4 = []" "fe_sender ?b4 = t" "fe_target ?b4 = s"
    using b3 B2 by (simp_all add: drain_def log_on_def link_ok_def wire_def accepts_def same_rest_def fresh set_in_seq_def
        split: option.splits)
  moreover have "ahead ?a3 ?b4"
    using a2 a2i b4 names by (simp add: ahead_def log_on_def set_in_seq_def link_ok_def wire_def same_rest_def fresh)
  moreover have "out_no ?a3 = 2" using a2 by (simp add: log_on_def)
  ultimately show ?thesis by blast
qed

text \<open>
  A session whose initiator asks for a reset of the numbers never delivers an order.  The
  acceptor first moves its expected number past the logon and then resets it, so it waits for the
  logon's number for ever.
\<close>

theorem reset_logon_loses_all_orders:
  assumes "text_ok s" and "text_ok t" and "clock_ok c" and "0 \<le> hb" and "hb < int max_len"
    and "list_all (order_ok rep) rs" and "2 * int (length rs) + 6 < int max_len"
  shows "delivered (snd (order_rounds rep c rs
    (start_session c (fresh_engine s t hb True False, fresh_engine t s hb2 False True)))) = []"
proof -
  obtain a b where ab: "start_session c (fresh_engine s t hb True False, fresh_engine t s hb2 False True) = (a, b)"
      "ahead a b" "delivered b = []" "out_no a = 2" "out_no b = 2"
    using start_session_ahead [OF assms(1-5)] by blast
  have "room (2 * int (length rs) + 4) a b" using ab(4,5) assms(7) by (simp add: room_def)
  from ahead_rounds [OF ab(2) this assms(3,6)] ab show ?thesis by simp
qed

theorem delivered_at_most_once_witness:
  "sorted_wrt (<) (map msg_seq (delivered (handle_each
     (map (\<lambda>m. ((''t'', 0), enc ''A'' ''B'' m))
       (order_msgs (\<lambda>q. ''0.5'') 1 [sample_order] @ order_msgs (\<lambda>q. ''0.5'') 1 [sample_order])) sample_receiver)))"
proof (rule delivered_at_most_once)
  let ?m = "(1, ''20200101-00:00:00.000'', MsgType_value NEW_ORDER_SINGLE,
    [(Tag_ClOrdID, ''c1''), (Tag_Symbol, ''BTC''), (Tag_Side, ''1''), (Tag_OrderQty, ''100''),
     (Tag_OrdType, ''2''), (Tag_Price, ''0.5''), (Tag_TimeInForce, ''0''), (Tag_TransactTime, ''20200101-00:00:00.000'')])"
  have m: "order_msgs (\<lambda>q. ''0.5'') 1 [sample_order] = [?m]"
    unfolding order_msgs.simps sample_fields sum.case by (simp add: sample_order_def)
  have ok: "msg_ok ''A'' ''B'' ?m" using sample_msgs_ok unfolding order_msgs.simps sample_fields sum.case
    by (simp add: sample_order_def)
  have "\<not> poss_dup (dec ''A'' ''B'' ?m)" by (rule dec_not_poss_dup [OF ok]) simp
  then have "\<not> renumbers (enc ''A'' ''B'' ?m)"
    using dec_field [OF ok, of STag_ResetSeqNumFlag]
    by (simp only: renumbers_def msg_ok_parse [OF ok] Let_def dec_type) simp
  then show "list_all (\<lambda>(clk, raw). \<not> renumbers raw) (map (\<lambda>m. ((''t'', 0), enc ''A'' ''B'' m))
       (order_msgs (\<lambda>q. ''0.5'') 1 [sample_order] @ order_msgs (\<lambda>q. ''0.5'') 1 [sample_order]))"
    unfolding m by simp
qed (simp add: sample_receiver_def init_FixSessionEngine_def)

definition ahead_sender :: FixSessionEngine where
  "ahead_sender = (init_FixSessionEngine ''A'' ''B'' 30 False True False
      \<lparr>sq_path = False, out_seq = 8, in_seq = 3, sq_file = No_file, sq_writable = True\<rparr> (Some fresh_pair_end) 0 0)
      \<lparr>fe_state := ACTIVE, running := True, reader_alive := True\<rparr>"

definition behind_receiver :: FixSessionEngine where
  "behind_receiver = (init_FixSessionEngine ''B'' ''A'' 30 False True True
      \<lparr>sq_path = False, out_seq = 3, in_seq = 7, sq_file = No_file, sq_writable = True\<rparr> (Some fresh_pair_end) 0 0)
      \<lparr>fe_state := ACTIVE, running := True, reader_alive := True\<rparr>"

theorem gap_stops_all_orders_witness:
  "delivered (snd (order_rounds (\<lambda>q. ''0.5'') (\<lambda>k. (''20200101-00:00:01.000'', 1), 1) [sample_order, sample_order]
     (ahead_sender, behind_receiver))) = delivered behind_receiver"
proof (rule gap_stops_all_orders)
  show "ahead ahead_sender behind_receiver"
    by (simp add: ahead_def ahead_sender_def behind_receiver_def init_FixSessionEngine_def fresh_pair_end_def
        link_ok_def wire_def accepts_def text_ok_def SOH_def)
  show "room (2 * int (length [sample_order, sample_order]) + 4) ahead_sender behind_receiver"
    by (simp add: room_def ahead_sender_def behind_receiver_def init_FixSessionEngine_def max_len_def)
  show "clock_ok (\<lambda>k. (''20200101-00:00:01.000'', 1), 1)" by (simp add: clock_ok_def text_ok_def SOH_def)
qed (simp add: sample_order_ok)

theorem reset_logon_loses_all_orders_witness:
  "delivered (snd (order_rounds (\<lambda>q. ''0.5'') (\<lambda>k. (''20200101-00:00:01.000'', 1), 1) [sample_order, sample_order]
     (start_session (\<lambda>k. (''20200101-00:00:01.000'', 1), 1)
       (fresh_engine ''A'' ''B'' 30 True False, fresh_engine ''B'' ''A'' 30 False True)))) = []"
  by (rule reset_logon_loses_all_orders) (simp_all add: sample_order_ok clock_ok_def text_ok_def SOH_def max_len_def)

subsection \<open>A malformed reset ends the reader\<close>

text \<open>
  A sequence reset whose new number is no number raises out of the read loop.  The reader thread
  ends, while the engine keeps its state, active included, and its transport: whatever arrives later
  is never read, and nothing tells the application.
\<close>

theorem malformed_reset_ends_reading:
  assumes "msg_ok s t (n, stamp, SMsg_SEQUENCE_RESET, fs)" and "map_of fs STag_NewSeqNo = Some v" and "py_int v = None"
    and "running e" and "reader_alive e" and "fe_buf e = []"
  shows "read_all ((clk, now, enc s t (n, stamp, SMsg_SEQUENCE_RESET, fs)) # chunks) e =
    e\<lparr>last_recv := now, reader_alive := False\<rparr>"
proof -
  let ?m = "(n, stamp, SMsg_SEQUENCE_RESET, fs)"
  let ?e = "e\<lparr>fe_buf := enc s t ?m, last_recv := now\<rparr>"
  have same: "?e\<lparr>fe_buf := []\<rparr> = e\<lparr>last_recv := now\<rparr>" using assms(6) by (cases e) simp
  have "handle_fields (clk 0) (dec s t ?m) (e\<lparr>last_recv := now\<rparr>) = (Inl Bad_number, e\<lparr>last_recv := now\<rparr>)"
    using assms(2,3) by (simp add: handle_fields_def Let_def dec_type get_or_def [of _ STag_NewSeqNo] dec_field [OF assms(1)])
  then have run: "handle_message (clk 0) (enc s t ?m) (?e\<lparr>fe_buf := []\<rparr>) = (Inl Bad_number, e\<lparr>last_recv := now\<rparr>)"
    unfolding same by (simp add: handle_message_def enc_verifies msg_ok_parse [OF assms(1)])
  have "next_frame (fe_buf ?e) = Frame (enc s t ?m) []" using next_frame_enc [OF assms(1), of "[]"] by simp
  then have "extract_and_handle clk ?e = (Inl Bad_number, e\<lparr>last_recv := now\<rparr>)"
    using run by (subst extract_and_handle.simps) (simp only: frame.case prod.case sum.case)
  then have first: "read_step clk now (enc s t ?m) e = e\<lparr>last_recv := now, reader_alive := False\<rparr>"
    using assms(4-6) by (simp add: read_step_def)
  have "foldl (\<lambda>e (clk, now, data). read_step clk now data e) d chunks = d" if "\<not> reader_alive d" for d
    using that by (induction chunks) (auto simp: read_step_def)
  then show ?thesis by (simp add: read_all_def first)
qed

theorem malformed_reset_ends_reading_witness:
  "read_all [(\<lambda>k. (''t'', 0), 5, enc ''A'' ''B'' (1, ''t'', SMsg_SEQUENCE_RESET, [(STag_NewSeqNo, ''x'')])),
      (\<lambda>k. (''t'', 0), 6, enc ''A'' ''B'' (1, ''t'', MsgType_value HEARTBEAT, []))] sample_receiver =
   sample_receiver\<lparr>last_recv := 5, reader_alive := False\<rparr>"
proof (rule malformed_reset_ends_reading)
  show "msg_ok ''A'' ''B'' (1, ''t'', SMsg_SEQUENCE_RESET, [(STag_NewSeqNo, ''x'')])"
    by (rule msg_okI) (simp_all add: text_ok_def fields_ok_def field_def SOH_def max_len_def)
  show "py_int ''x'' = None" by code_simp
qed (simp_all add: sample_receiver_def init_FixSessionEngine_def)

subsection \<open>The numbers survive a restart\<close>

datatype fe_call =
    Call_connect clock "Transport option"
  | Call_disconnect clock string
  | Call_order "rat \<Rightarrow> string" order_req
  | Call_cancel clock string string string string string
  | Call_read "nat \<Rightarrow> clock" time string
  | Call_heartbeat "nat \<Rightarrow> clock" time

fun fe_exec :: "FixSessionEngine \<Rightarrow> fe_call \<Rightarrow> FixSessionEngine" where
  "fe_exec e (Call_connect c tcp) = snd (connect c tcp e)"
| "fe_exec e (Call_disconnect c text) = snd (disconnect c text e)"
| "fe_exec e (Call_order rep r) = snd (send_req rep r e)"
| "fe_exec e (Call_cancel c tt orig new symbol side) = snd (send_cancel c tt orig new symbol side e)"
| "fe_exec e (Call_read clk now data) = read_step clk now data e"
| "fe_exec e (Call_heartbeat clk now) = snd (heartbeat_tick clk now e)"

text \<open>Starting over from the file gives the store back.\<close>

definition stored :: "FixSessionEngine \<Rightarrow> bool" where
  "stored e = (sq_path (fe_seq e) \<and> sq_writable (fe_seq e) \<and>
     init_SeqStore True (sq_file (fe_seq e)) True = fe_seq e)"

lemma stored_save:
  "sq_path s \<Longrightarrow> sq_writable s \<Longrightarrow>
   sq_path (seq_save s) \<and> sq_writable (seq_save s) \<and> init_SeqStore True (sq_file (seq_save s)) True = seq_save s"
  by (simp add: seq_save_def init_SeqStore_def seq_load_def)

lemma stored_seq: "stored e \<Longrightarrow> fe_seq e' = fe_seq e \<Longrightarrow> stored e'"
  by (simp add: stored_def)

lemma stored_saved:
  "stored e \<Longrightarrow> fe_seq e' = seq_save s \<Longrightarrow> sq_path s = sq_path (fe_seq e) \<Longrightarrow> sq_writable s = sq_writable (fe_seq e) \<Longrightarrow> stored e'"
  by (simp add: stored_def stored_save)

lemma fe_send_stored: "fe_send clk mt fs e = (r, e') \<Longrightarrow> stored e \<Longrightarrow> stored e'"
  by (rule stored_saved [of e _ "(fe_seq e)\<lparr>out_seq := out_no e + 1\<rparr>"])
     (auto simp: fe_send_def take_seq_def Let_def split: option.splits prod.splits sum.splits)

lemma set_in_seq_stored [simp]: "stored e \<Longrightarrow> stored (set_in_seq n e)"
  by (rule stored_saved [of e _ "(fe_seq e)\<lparr>in_seq := n\<rparr>"]) (simp_all add: set_in_seq_def)

lemma reset_stored [simp]: "stored e \<Longrightarrow> stored (e\<lparr>fe_seq := seq_reset (fe_seq e)\<rparr>)"
  by (rule stored_saved [of e _ "(fe_seq e)\<lparr>out_seq := 1, in_seq := 1\<rparr>"]) (simp_all add: seq_reset_def)

lemma stored_updates [simp]:
  "stored (e\<lparr>fe_state := a\<rparr>) = stored e" "stored (e\<lparr>logged_on := b\<rparr>) = stored e" "stored (e\<lparr>delivered := d\<rparr>) = stored e"
  "stored (e\<lparr>fe_buf := s\<rparr>) = stored e" "stored (e\<lparr>last_recv := n\<rparr>) = stored e" "stored (e\<lparr>reader_alive := b\<rparr>) = stored e"
  "stored (e\<lparr>running := b\<rparr>) = stored e" "stored (e\<lparr>fe_transport := tr\<rparr>) = stored e"
  by (simp_all add: stored_def)

lemma send_logon_ack_stored: "send_logon_ack clk fl e = (r, e') \<Longrightarrow> stored e \<Longrightarrow> stored e'"
  by (auto simp: send_logon_ack_def Let_def split: if_splits dest: fe_send_stored)

lemma on_logon_stored: "on_logon clk fl e = (r, e') \<Longrightarrow> stored e \<Longrightarrow> stored e'"
  by (auto simp: on_logon_def log_on_def split: if_splits prod.splits sum.splits dest: send_logon_ack_stored)

lemma handle_resend_stored: "handle_resend clk fl e = (r, e') \<Longrightarrow> stored e \<Longrightarrow> stored e'"
  by (auto simp: handle_resend_def Let_def split: option.splits prod.splits sum.splits dest: fe_send_stored)

lemma dispatch_stored: "dispatch clk fl e = (r, e') \<Longrightarrow> stored e \<Longrightarrow> stored e'"
  unfolding dispatch_def Let_def
  by (auto split: if_splits prod.splits sum.splits dest: fe_send_stored handle_resend_stored on_logon_stored)

lemma handle_message_stored: "handle_message clk raw e = (r, e') \<Longrightarrow> stored e \<Longrightarrow> stored e'"
  unfolding handle_message_def handle_fields_def Let_def
  by (auto split: if_splits prod.splits sum.splits option.splits dest: fe_send_stored dispatch_stored)

lemma extract_stored: "stored e \<Longrightarrow> stored (snd (extract_and_handle clk e))"
proof (induction clk e rule: extract_and_handle.induct)
  case (1 clk e)
  show ?case
  proof (cases "next_frame (fe_buf e)")
    case Wait
    with 1 show ?thesis by (simp add: extract_and_handle.simps [of clk e])
  next
    case (Skip b)
    with 1 show ?thesis by (simp add: extract_and_handle.simps [of clk e])
  next
    case (Frame m b)
    obtain r e' where run: "handle_message (clk 0) m (e\<lparr>fe_buf := b\<rparr>) = (r, e')" by fastforce
    then have "stored e'" using handle_message_stored 1(3) by fastforce
    with "1.IH"(2) [OF Frame run [symmetric]] Frame run show ?thesis
      by (cases r) (auto simp: extract_and_handle.simps [of clk e])
  qed
qed

lemma read_step_stored: "stored e \<Longrightarrow> stored (read_step clk now data e)"
  using extract_stored [of "e\<lparr>fe_buf := fe_buf e @ data, last_recv := now\<rparr>" clk]
  by (auto simp: read_step_def split: prod.splits sum.splits)

lemma heartbeat_stored: "stored e \<Longrightarrow> stored (snd (heartbeat_tick clk now e))"
  by (auto simp: heartbeat_tick_def split: prod.splits sum.splits if_splits dest: fe_send_stored)

lemma send_logon_stored: "stored e \<Longrightarrow> stored (snd (send_logon clk e))"
  unfolding send_logon_def by (rule fe_send_stored [OF surjective_pairing]) simp

lemma connect_stored: "stored e \<Longrightarrow> stored (snd (connect clk tcp e))"
proof -
  assume e: "stored e"
  define e1 where "e1 = (if fe_transport e = None then e\<lparr>fe_state := CONNECTING, fe_transport := tcp\<rparr> else e)"
  define e2 where "e2 = (if reset_seq_on_logon e1 then e1\<lparr>fe_seq := seq_reset (fe_seq e1)\<rparr> else e1)"
  define e3 where "e3 = e2\<lparr>running := True, reader_alive := True\<rparr>"
  have "stored e1" using e by (simp add: e1_def)
  moreover from this have "stored e2" by (simp add: e2_def)
  then have "stored e3" "stored (snd (send_logon clk e3))" by (simp_all add: e3_def send_logon_stored)
  ultimately show ?thesis
    unfolding connect_def Let_def e1_def [symmetric] e2_def [symmetric] e3_def [symmetric]
    by (auto split: prod.splits sum.splits)
qed

lemma disconnect_stored: "stored e \<Longrightarrow> stored (snd (disconnect clk text e))"
proof -
  assume e: "stored e"
  define p where "p = (if fe_state e = ACTIVE
      then (case fe_send clk SMsg_LOGOUT [(STag_Text, text)] e of
              (Inl x, s) \<Rightarrow> (Inl x, s) | (Inr _, s) \<Rightarrow> (Inr (), s\<lparr>fe_state := LOGOUT_SENT\<rparr>))
      else (Inr (), e))"
  have "stored (snd p)" using e by (auto simp: p_def split: prod.splits sum.splits dest: fe_send_stored)
  then have "stored (snd p\<lparr>fe_seq := seq_save (fe_seq (snd p))\<rparr>)"
    by (rule stored_saved) simp_all
  then show ?thesis by (simp add: disconnect_def case_prod_unfold stored_def flip: p_def)
qed

lemma send_req_stored: "stored e \<Longrightarrow> stored (snd (send_req rep r e))"
  by (auto simp: send_req_def send_new_order_def split: sum.splits) (metis fe_send_stored prod.collapse)

lemma fe_exec_stored: "stored e \<Longrightarrow> stored (fe_exec e l)"
proof (cases l)
  case (Call_cancel c tt orig new symbol side)
  assume "stored e"
  then show ?thesis
    using fe_send_stored [of c "MsgType_value ORDER_CANCEL_REQUEST" _ e] unfolding Call_cancel
    by (auto simp: send_cancel_def) (metis fe_send_stored prod.collapse)
qed (auto simp: connect_stored disconnect_stored send_req_stored read_step_stored heartbeat_stored)

definition fresh_fe :: "FixSessionEngine \<Rightarrow> bool" where
  "fresh_fe e = (\<exists>file. fe_seq e = init_SeqStore True file True)"

lemma fresh_stored: "fresh_fe e \<Longrightarrow> stored e"
proof -
  assume "fresh_fe e"
  then obtain f where "fe_seq e = init_SeqStore True f True" by (auto simp: fresh_fe_def)
  then show ?thesis by (cases f) (simp_all add: stored_def init_SeqStore_def seq_load_def)
qed

interpretation fxs: step_system fresh_fe fe_exec stored
  by unfold_locales (fact fresh_stored, fact fe_exec_stored)

text \<open>
  A crash at any moment loses no number.  After any calls and any received bytes, an engine
  started on the file of a working file system has the very numbers of the engine that stopped.
\<close>

theorem restart_keeps_numbers:
  "init_SeqStore True (sq_file (fe_seq (foldl fe_exec
      (init_FixSessionEngine s t hb reset app acc (init_SeqStore True file True) tr n1 n2) calls))) True =
   fe_seq (foldl fe_exec (init_FixSessionEngine s t hb reset app acc (init_SeqStore True file True) tr n1 n2) calls)"
proof -
  have "fresh_fe (init_FixSessionEngine s t hb reset app acc (init_SeqStore True file True) tr n1 n2)"
    by (auto simp: fresh_fe_def init_FixSessionEngine_def)
  from fxs.inv_reachable [OF this, of calls] show ?thesis by (simp add: stored_def)
qed

end
