(* ===== verification/Resilience.thy ===== *)
theory Resilience
  imports Py_Float
begin

section \<open>Retries, circuit breaker, polling and start-up reconciliation\<close>

text \<open>
  Model of \<^verbatim>\<open>packages/agent/execution/resilience.py\<close>.  The clock, the random number
  for the jitter and the outcomes of the broker call are injected in the source and arguments
  here.  The broker call may return, or raise an exception that is or is not in the tuple of
  retryable classes.  Log messages have no counterpart.
\<close>

subsection \<open>Retry policy\<close>

record RetryPolicy =
  max_attempts :: int
  base_delay :: pyfloat
  max_delay :: pyfloat
  multiplier :: pyfloat
  jitter :: pyfloat

definition default_RetryPolicy :: RetryPolicy where
  "default_RetryPolicy = \<lparr>max_attempts = 5, base_delay = Fin (1 / 2), max_delay = Fin 30, multiplier = Fin 2, jitter = Fin 0\<rparr>"

text \<open>\<^verbatim>\<open>RetryPolicy.delay\<close>: nothing when the power overflows.\<close>

definition delay :: "float_ops \<Rightarrow> RetryPolicy \<Rightarrow> int \<Rightarrow> pyfloat \<Rightarrow> pyfloat option" where
  "delay F rp attempt rand =
     (case fpow F (multiplier rp) (max 0 (attempt - 1)) of
        None \<Rightarrow> None
      | Some p \<Rightarrow>
          (let d = flt_min (max_delay rp) (fmul F (base_delay rp) p);
               d' = (if flt_lt (Fin 0) (jitter rp)
                     then fmul F d (fadd F (Fin 1) (fmul F (jitter rp) (fsub F (fmul F (Fin 2) rand) (Fin 1))))
                     else d) in
           Some (flt_max (Fin 0) d')))"

subsection \<open>Circuit breaker\<close>

datatype CircuitState = CLOSED | OPEN | HALF_OPEN

record CircuitBreaker =
  failure_threshold :: int
  reset_timeout :: pyfloat
  half_open_max_calls :: int
  cb_state :: CircuitState
  failures :: int
  opened_at :: "pyfloat option"
  half_open_calls :: int

definition init_CircuitBreaker :: "int \<Rightarrow> pyfloat \<Rightarrow> int \<Rightarrow> CircuitBreaker" where
  "init_CircuitBreaker threshold timeout max_calls =
     \<lparr>failure_threshold = threshold, reset_timeout = timeout, half_open_max_calls = max_calls,
      cb_state = CLOSED, failures = 0, opened_at = None, half_open_calls = 0\<rparr>"

definition maybe_half_open :: "float_ops \<Rightarrow> pyfloat \<Rightarrow> CircuitBreaker \<Rightarrow> CircuitBreaker" where
  "maybe_half_open F now cb =
     (case opened_at cb of
        None \<Rightarrow> cb
      | Some t \<Rightarrow>
          if cb_state cb = OPEN \<and> flt_le (reset_timeout cb) (fsub F now t)
          then cb\<lparr>cb_state := HALF_OPEN, half_open_calls := 0\<rparr> else cb)"

text \<open>The property \<^verbatim>\<open>state\<close>.\<close>

definition state_of :: "float_ops \<Rightarrow> pyfloat \<Rightarrow> CircuitBreaker \<Rightarrow> CircuitState \<times> CircuitBreaker" where
  "state_of F now cb = (let cb' = maybe_half_open F now cb in (cb_state cb', cb'))"

definition allow :: "float_ops \<Rightarrow> pyfloat \<Rightarrow> CircuitBreaker \<Rightarrow> bool \<times> CircuitBreaker" where
  "allow F now cb =
     (let cb' = maybe_half_open F now cb in
      (case cb_state cb' of
         CLOSED \<Rightarrow> True
       | HALF_OPEN \<Rightarrow> half_open_calls cb' < half_open_max_calls cb'
       | OPEN \<Rightarrow> False,
       cb'))"

definition record_attempt :: "CircuitBreaker \<Rightarrow> CircuitBreaker" where
  "record_attempt cb =
     (if cb_state cb = HALF_OPEN then cb\<lparr>half_open_calls := half_open_calls cb + 1\<rparr> else cb)"

definition record_success :: "CircuitBreaker \<Rightarrow> CircuitBreaker" where
  "record_success cb = cb\<lparr>failures := 0, cb_state := CLOSED, opened_at := None, half_open_calls := 0\<rparr>"

definition trip :: "pyfloat \<Rightarrow> CircuitBreaker \<Rightarrow> CircuitBreaker" where
  "trip now cb = cb\<lparr>cb_state := OPEN, opened_at := Some now\<rparr>"

definition record_failure :: "pyfloat \<Rightarrow> CircuitBreaker \<Rightarrow> CircuitBreaker" where
  "record_failure now cb =
     (let cb1 = cb\<lparr>failures := failures cb + 1\<rparr> in
      if cb_state cb1 = HALF_OPEN then trip now cb1
      else if failure_threshold cb1 \<le> failures cb1 then trip now cb1 else cb1)"

subsection \<open>Resilient executor\<close>

datatype ('a, 'x) outcome = Returns 'a | Raises 'x

datatype 'x call_error = CircuitOpenError | MaxRetriesExceeded "'x option" | Propagated 'x | Delay_overflow

record ResilientExecutor =
  retry :: RetryPolicy
  breaker :: CircuitBreaker
  attempts_made :: int
  sleeps :: "pyfloat list"

definition init_ResilientExecutor :: "RetryPolicy \<Rightarrow> CircuitBreaker \<Rightarrow> ResilientExecutor" where
  "init_ResilientExecutor rp cb = \<lparr>retry = rp, breaker = cb, attempts_made = 0, sleeps = []\<rparr>"

text \<open>
  What the outside gives a call, for the attempt of each number: the outcome of the broker call, the
  clock when the breaker is asked and when it trips, the random number.
\<close>

record ('a, 'x) call_env =
  fn :: "int \<Rightarrow> ('a, 'x) outcome"
  retryable :: "'x \<Rightarrow> bool"
  allow_at :: "int \<Rightarrow> pyfloat"
  fail_at :: "int \<Rightarrow> pyfloat"
  rand :: "int \<Rightarrow> pyfloat"

text \<open>The loop over the remaining attempts; \<open>last_exc\<close> is the last retryable exception.\<close>

fun attempts ::
  "float_ops \<Rightarrow> ('a, 'x) call_env \<Rightarrow> int list \<Rightarrow> 'x option \<Rightarrow> ResilientExecutor \<Rightarrow>
   ('x call_error, 'a, ResilientExecutor) pyres" where
  "attempts F E [] last_exc ex = py_raise (MaxRetriesExceeded last_exc) ex"
| "attempts F E (n # ns) last_exc ex =
     (case allow F (allow_at E n) (breaker ex) of
        (False, cb) \<Rightarrow> py_raise CircuitOpenError (ex\<lparr>breaker := cb\<rparr>)
      | (True, cb) \<Rightarrow>
          (let ex1 = ex\<lparr>breaker := record_attempt cb, attempts_made := attempts_made ex + 1\<rparr> in
           case fn E n of
             Returns r \<Rightarrow> py_return r (ex1\<lparr>breaker := record_success (breaker ex1)\<rparr>)
           | Raises x \<Rightarrow>
               if \<not> retryable E x then py_raise (Propagated x) ex1
               else
                 (let ex2 = ex1\<lparr>breaker := record_failure (fail_at E n) (breaker ex1)\<rparr> in
                  if n < max_attempts (retry ex2) then
                    (case delay F (retry ex2) n (rand E n) of
                       None \<Rightarrow> py_raise Delay_overflow ex2
                     | Some d \<Rightarrow> attempts F E ns (Some x) (ex2\<lparr>sleeps := sleeps ex2 @ [d]\<rparr>))
                  else attempts F E ns (Some x) ex2)))"

definition call ::
  "float_ops \<Rightarrow> ('a, 'x) call_env \<Rightarrow> ResilientExecutor \<Rightarrow> ('x call_error, 'a, ResilientExecutor) pyres" where
  "call F E ex = attempts F E [1..max_attempts (retry ex)] None ex"

subsection \<open>Order status polling\<close>

definition terminal_statuses :: "string list" where
  "terminal_statuses = [''FILLED'', ''CANCELLED'', ''REJECTED'', ''EXPIRED'', ''ERROR'']"

record OrderStatus =
  os_order_id :: string
  os_status :: string
  os_filled_qty :: pyfloat
  os_raw :: "(string, pyval) dict"

definition is_terminal :: "OrderStatus \<Rightarrow> bool" where
  "is_terminal os = (upper (os_status os) \<in> set terminal_statuses)"

definition is_filled :: "OrderStatus \<Rightarrow> bool" where
  "is_filled os = (upper (os_status os) = ''FILLED'')"

text \<open>
  \<^verbatim>\<open>str(v)\<close> and \<^verbatim>\<open>float(v)\<close> of the broker's values are the parameters
  \<open>str_of\<close> and \<open>float_of\<close>, the latter partial.  An answer that is no dictionary or empty
  counts as empty.  The exception text of a failed request is \<open>x\<close>.
\<close>

definition get_val :: "(string, pyval) dict \<Rightarrow> string \<Rightarrow> pyval \<Rightarrow> pyval" where
  "get_val d k v = (case dict_get d k of None \<Rightarrow> v | Some x \<Rightarrow> x)"

definition status_of_answer ::
  "(pyval \<Rightarrow> string) \<Rightarrow> (pyval \<Rightarrow> pyfloat option) \<Rightarrow> string \<Rightarrow> (string, pyval) dict \<Rightarrow> OrderStatus option" where
  "status_of_answer str_of float_of oid raw =
     (let q = get_val raw ''filled_qty'' (get_val raw ''filled'' (PFloat (Fin 0))) in
      map_option (\<lambda>f. \<lparr>os_order_id = oid, os_status = upper (str_of (get_val raw ''status'' (PStr ''UNKNOWN''))),
          os_filled_qty = f, os_raw = raw\<rparr>)
        (float_of (if py_truth q then q else PFloat (Fin 0))))"

definition failed_poll :: "string \<Rightarrow> pyval \<Rightarrow> OrderStatus" where
  "failed_poll oid x =
     \<lparr>os_order_id = oid, os_status = ''ERROR'', os_filled_qty = Fin 0, os_raw = [(''error'', PStrOf x)]\<rparr>"

text \<open>\<^verbatim>\<open>poll\<close>: nothing when a quantity is no number, which raises out of the loop.\<close>

fun poll ::
  "(pyval \<Rightarrow> string) \<Rightarrow> (pyval \<Rightarrow> pyfloat option) \<Rightarrow> (string \<Rightarrow> ((string, pyval) dict, pyval) outcome) \<Rightarrow> string list \<Rightarrow>
   (string, OrderStatus) dict \<Rightarrow> (string, OrderStatus) dict option" where
  "poll str_of float_of status_fn [] out = Some out"
| "poll str_of float_of status_fn (oid # oids) out =
     (case status_fn oid of
        Raises x \<Rightarrow> poll str_of float_of status_fn oids (dict_set out oid (failed_poll oid x))
      | Returns raw \<Rightarrow>
          (case status_of_answer str_of float_of oid raw of
             None \<Rightarrow> None
           | Some os \<Rightarrow> poll str_of float_of status_fn oids (dict_set out oid os)))"

definition split_terminal ::
  "(string, OrderStatus) dict \<Rightarrow> (string, OrderStatus) dict \<times> (string, OrderStatus) dict" where
  "split_terminal statuses =
     (filter (\<lambda>(k, v). is_terminal v) statuses, filter (\<lambda>(k, v). \<not> is_terminal v) statuses)"

subsection \<open>Reconciliation at start-up\<close>

record mismatch =
  mm_symbol :: string
  mm_local :: pyfloat
  mm_broker :: pyfloat
  mm_delta :: pyfloat

record ReconcileReport =
  untracked_broker_orders :: "string list"
  missing_at_broker :: "string list"
  position_mismatches :: "mismatch list"
  rr_actions :: "pymsg list"

definition clean :: "ReconcileReport \<Rightarrow> bool" where
  "clean rep = (\<not> (untracked_broker_orders rep \<noteq> [] \<or> missing_at_broker rep \<noteq> [] \<or> position_mismatches rep \<noteq> []))"

definition position :: "(string, pyfloat) dict \<Rightarrow> string \<Rightarrow> pyfloat" where
  "position ps s = (case dict_get ps s of None \<Rightarrow> Fin 0 | Some q \<Rightarrow> q)"

definition sym_mismatch ::
  "float_ops \<Rightarrow> pyfloat \<Rightarrow> (string, pyfloat) dict \<Rightarrow> (string, pyfloat) dict \<Rightarrow> string \<Rightarrow> mismatch option" where
  "sym_mismatch F tol lp bp s =
     (let lq = position lp s; bq = position bp s in
      if flt_lt tol (flt_abs (fsub F lq bq))
      then Some \<lparr>mm_symbol = s, mm_local = lq, mm_broker = bq, mm_delta = fsub F bq lq\<rparr> else None)"

definition sorted_diff :: "string list \<Rightarrow> string list \<Rightarrow> string list" where
  "sorted_diff xs ys = sorted_list_of_set (set xs - set ys)"

definition mismatch_action :: "mismatch \<Rightarrow> pymsg" where
  "mismatch_action m =
     FStr ''reconcile position {}: local={} broker={} (trust broker)''
       [PStr (mm_symbol m), PFloat (mm_local m), PFloat (mm_broker m)]"

definition reconcile ::
  "float_ops \<Rightarrow> pyfloat \<Rightarrow> string list \<Rightarrow> string list \<Rightarrow> (string, pyfloat) dict \<Rightarrow> (string, pyfloat) dict \<Rightarrow> ReconcileReport" where
  "reconcile F tol local_ids broker_ids lp bp =
     (let untracked = sorted_diff broker_ids local_ids;
          missing = sorted_diff local_ids broker_ids;
          mms = List.map_filter (sym_mismatch F tol lp bp) (sorted_list_of_set (set (dict_keys lp) \<union> set (dict_keys bp))) in
      \<lparr>untracked_broker_orders = untracked, missing_at_broker = missing, position_mismatches = mms,
       rr_actions =
         map (\<lambda>o'. FStr ''adopt-or-cancel untracked broker order {}'' [PStr o']) untracked @
         map (\<lambda>o'. FStr ''mark/resubmit local order {} (not at broker)'' [PStr o']) missing @
         map mismatch_action mms\<rparr>)"

subsection \<open>The breaker as a state machine\<close>

lemmas breaker_defs = maybe_half_open_def record_attempt_def record_success_def record_failure_def trip_def

datatype cb_call = Ask pyfloat | Attempt | Success | Failure pyfloat

fun cb_exec :: "float_ops \<Rightarrow> CircuitBreaker \<Rightarrow> cb_call \<Rightarrow> CircuitBreaker" where
  "cb_exec F cb (Ask now) = snd (allow F now cb)"
| "cb_exec F cb Attempt = record_attempt cb"
| "cb_exec F cb Success = record_success cb"
| "cb_exec F cb (Failure now) = record_failure now cb"

text \<open>
  An open or half-open breaker knows when it opened; a closed one has seen fewer failures in a row
  than its threshold.
\<close>

definition cb_ok :: "CircuitBreaker \<Rightarrow> bool" where
  "cb_ok cb =
     (0 < failure_threshold cb \<and> 0 \<le> failures cb \<and> 0 \<le> half_open_calls cb \<and>
      (cb_state cb \<noteq> CLOSED \<longleftrightarrow> opened_at cb \<noteq> None) \<and>
      (cb_state cb = CLOSED \<longrightarrow> failures cb < failure_threshold cb))"

definition fresh_cb :: "CircuitBreaker \<Rightarrow> bool" where
  "fresh_cb cb = (\<exists>threshold timeout max_calls. 0 < threshold \<and> cb = init_CircuitBreaker threshold timeout max_calls)"

lemma cb_exec_ok: "cb_ok cb \<Longrightarrow> cb_ok (cb_exec F cb l)"
  by (cases l) (auto simp: cb_ok_def allow_def Let_def breaker_defs split: option.splits)

interpretation cbm: step_system fresh_cb "cb_exec F" cb_ok for F
proof unfold_locales
  show "fresh_cb s \<Longrightarrow> cb_ok s" for s by (auto simp: fresh_cb_def cb_ok_def init_CircuitBreaker_def)
qed (rule cb_exec_ok)

text \<open>
  The state of the breaker and its counters agree whatever calls were made: it is closed exactly
  when no opening time is recorded, and a closed breaker has fewer consecutive failures than the
  threshold.
\<close>

theorem breaker_state_consistent:
  assumes "0 < threshold"
  shows "cb_ok (foldl (cb_exec F) (init_CircuitBreaker threshold timeout max_calls) calls)"
  using assms by (intro cbm.inv_reachable) (auto simp: fresh_cb_def)

theorem breaker_state_consistent_witness:
  "cb_ok (foldl (cb_exec exact_ops) (init_CircuitBreaker 2 (Fin 30) 1)
     [Ask (Fin 0), Failure (Fin 1), Ask (Fin 2), Failure (Fin 3), Ask (Fin 40), Attempt])"
  by (rule breaker_state_consistent) simp

subsection \<open>An open breaker\<close>

text \<open>
  C25: while the breaker is open and the reset time has not passed, a call does not reach the broker:
  it is rejected at once and changes nothing.
\<close>

theorem open_breaker_rejects_call:
  assumes "cb_state (breaker ex) = OPEN" and "opened_at (breaker ex) = Some t"
    and "\<not> flt_le (reset_timeout (breaker ex)) (fsub F (allow_at E 1) t)" and "1 \<le> max_attempts (retry ex)"
  shows "call F E ex = (Inl CircuitOpenError, ex)"
proof -
  have "[1..max_attempts (retry ex)] = 1 # [2..max_attempts (retry ex)]"
    using assms(4) by (simp add: upto.simps [of 1])
  moreover have "allow F (allow_at E 1) (breaker ex) = (False, breaker ex)"
    using assms(1-3) by (simp add: allow_def maybe_half_open_def Let_def)
  ultimately show ?thesis by (simp add: call_def)
qed

definition sample_env :: "(int, bool) call_env" where
  "sample_env = \<lparr>fn = (\<lambda>n. if n < 3 then Raises (n = 1) else Returns n), retryable = (\<lambda>x. x),
     allow_at = (\<lambda>n. Fin 100), fail_at = (\<lambda>n. Fin 100), rand = (\<lambda>n. Fin 0)\<rparr>"

definition sample_open :: ResilientExecutor where
  "sample_open = init_ResilientExecutor default_RetryPolicy
     (trip (Fin 80) (init_CircuitBreaker 1 (Fin 30) 1))"

theorem open_breaker_rejects_call_witness:
  "call exact_ops sample_env sample_open = (Inl CircuitOpenError, sample_open)"
  by (rule open_breaker_rejects_call [of _ "Fin 80"])
     (simp_all add: sample_open_def sample_env_def init_ResilientExecutor_def default_RetryPolicy_def
        trip_def init_CircuitBreaker_def exact_ops_def)

subsection \<open>Attempts and delays are bounded\<close>

lemma delay_bounds:
  assumes "delay F rp n r = Some d" and "\<not> flt_lt (Fin 0) (jitter rp)" and "flt_le (Fin 0) (max_delay rp)"
  shows "flt_le (Fin 0) d \<and> flt_le d (max_delay rp)"
proof -
  have nan: "max_delay rp \<noteq> NaN" using assms(3) by auto
  obtain p where d: "d = flt_max (Fin 0) (flt_min (max_delay rp) (fmul F (base_delay rp) p))"
    using assms(1,2) by (auto simp: delay_def Let_def split: option.splits)
  have "flt_le d (max_delay rp)"
    using flt_min_le [OF nan] assms(3) by (auto simp: d flt_max_def)
  moreover have "flt_le (Fin 0) d" unfolding d by (rule flt_max_ge) simp
  ultimately show ?thesis by simp
qed

definition delay_ok :: "RetryPolicy \<Rightarrow> pyfloat \<Rightarrow> bool" where
  "delay_ok rp d = (flt_le (Fin 0) d \<and> flt_le d (max_delay rp))"

lemma attempts_bounded:
  assumes "\<not> flt_lt (Fin 0) (jitter (retry ex))" and "flt_le (Fin 0) (max_delay (retry ex))"
  shows "\<exists>ds. sleeps (snd (attempts F E ns l ex)) = sleeps ex @ ds \<and> length ds \<le> length ns \<and>
    list_all (delay_ok (retry ex)) ds \<and> attempts_made ex \<le> attempts_made (snd (attempts F E ns l ex)) \<and>
    attempts_made (snd (attempts F E ns l ex)) \<le> attempts_made ex + int (length ns)"
  using assms
proof (induction ns arbitrary: l ex)
  case Nil
  then show ?case by simp
next
  case (Cons n ns)
  obtain ok cb where al: "allow F (allow_at E n) (breaker ex) = (ok, cb)" by fastforce
  let ?ex1 = "ex\<lparr>breaker := record_attempt cb, attempts_made := attempts_made ex + 1\<rparr>"
  consider "\<not> ok" | r where "ok" "fn E n = Returns r" | x where "ok" "fn E n = Raises x" "\<not> retryable E x"
    | x where "ok" "fn E n = Raises x" "retryable E x" by (cases "fn E n") auto
  then show ?case
  proof cases
    case (4 x)
    let ?ex2 = "?ex1\<lparr>breaker := record_failure (fail_at E n) (breaker ?ex1)\<rparr>"
    show ?thesis
    proof (cases "n < max_attempts (retry ex)")
      case False
      then have "attempts F E (n # ns) l ex = attempts F E ns (Some x) ?ex2"
        using al 4 by (simp add: Let_def)
      with Cons.IH [of ?ex2 "Some x"] Cons.prems show ?thesis by fastforce
    next
      case True
      show ?thesis
      proof (cases "delay F (retry ex) n (rand E n)")
        case None
        with True al 4 show ?thesis by (simp add: Let_def)
      next
        case (Some d)
        let ?ex3 = "?ex2\<lparr>sleeps := sleeps ?ex2 @ [d]\<rparr>"
        have "attempts F E (n # ns) l ex = attempts F E ns (Some x) ?ex3"
          using al 4 True Some by (simp add: Let_def)
        moreover obtain ds where "sleeps (snd (attempts F E ns (Some x) ?ex3)) = sleeps ?ex3 @ ds"
            "length ds \<le> length ns" "list_all (delay_ok (retry ?ex3)) ds"
            "attempts_made ?ex3 \<le> attempts_made (snd (attempts F E ns (Some x) ?ex3))"
            "attempts_made (snd (attempts F E ns (Some x) ?ex3)) \<le> attempts_made ?ex3 + int (length ns)"
          using Cons.IH [of ?ex3 "Some x"] Cons.prems by auto
        moreover have "delay_ok (retry ex) d"
          using delay_bounds [OF Some] Cons.prems by (simp add: delay_ok_def)
        ultimately show ?thesis by (intro exI [of _ "d # ds"]) simp
      qed
    qed
  qed (use al in \<open>simp_all add: Let_def\<close>)
qed


definition sample_executor :: ResilientExecutor where
  "sample_executor = init_ResilientExecutor default_RetryPolicy (init_CircuitBreaker 5 (Fin 30) 1)"


subsection \<open>What a call returns\<close>

text \<open>The result read off the outcomes alone: the first success, or the first error that is not retried.\<close>

fun first_result :: "('a, 'x) call_env \<Rightarrow> int list \<Rightarrow> 'x option \<Rightarrow> 'x call_error + 'a" where
  "first_result E [] l = Inl (MaxRetriesExceeded l)"
| "first_result E (n # ns) l =
     (case fn E n of
        Returns r \<Rightarrow> Inr r
      | Raises x \<Rightarrow> if retryable E x then first_result E ns (Some x) else Inl (Propagated x))"

text \<open>No delay overflows.\<close>

definition delays_defined :: "float_ops \<Rightarrow> ('a, 'x) call_env \<Rightarrow> RetryPolicy \<Rightarrow> bool" where
  "delays_defined F E rp = list_all (\<lambda>n. delay F rp n (rand E n) \<noteq> None) [1..max_attempts rp]"

lemma attempts_first_result:
  assumes "cb_state (breaker ex) = CLOSED" and "opened_at (breaker ex) = None"
    and "failures (breaker ex) + int (length ns) \<le> failure_threshold (breaker ex)"
    and "list_all (\<lambda>n. delay F (retry ex) n (rand E n) \<noteq> None) ns"
  shows "fst (attempts F E ns l ex) = first_result E ns l"
  using assms
proof (induction ns arbitrary: l ex)
  case Nil
  then show ?case by simp
next
  case (Cons n ns)
  have al: "allow F (allow_at E n) (breaker ex) = (True, breaker ex)"
    using Cons.prems(1,2) by (simp add: allow_def maybe_half_open_def Let_def)
  have ra: "record_attempt (breaker ex) = breaker ex" using Cons.prems(1) by (simp add: record_attempt_def)
  show ?case
  proof (cases "fn E n")
    case (Returns r)
    with al ra show ?thesis by (simp add: Let_def)
  next
    case (Raises x)
    show ?thesis
    proof (cases "retryable E x")
      case False
      with al ra Raises show ?thesis by (simp add: Let_def)
    next
      case True
      let ?ex2 = "ex\<lparr>attempts_made := attempts_made ex + 1, breaker := record_failure (fail_at E n) (breaker ex)\<rparr>"
      obtain d where d: "delay F (retry ex) n (rand E n) = Some d" using Cons.prems(4) by auto
      define ex3 where "ex3 = (if n < max_attempts (retry ex) then ?ex2\<lparr>sleeps := sleeps ?ex2 @ [d]\<rparr> else ?ex2)"
      have step: "attempts F E (n # ns) l ex = attempts F E ns (Some x) ex3"
        using al ra Raises True d by (simp add: Let_def ex3_def)
      show ?thesis
      proof (cases ns)
        case Nil
        with step Raises True show ?thesis by simp
      next
        case (Cons m ms)
        have "cb_state (breaker ex3) = CLOSED \<and> opened_at (breaker ex3) = None \<and>
            failures (breaker ex3) + int (length ns) \<le> failure_threshold (breaker ex3) \<and> retry ex3 = retry ex"
          using Cons.prems(1-3) Cons by (simp add: ex3_def record_failure_def Let_def)
        then have "fst (attempts F E ns (Some x) ex3) = first_result E ns (Some x)"
          using Cons.prems(4) by (intro Cons.IH) simp_all
        with step Raises True show ?thesis by simp
      qed
    qed
  qed
qed

text \<open>
  With a closed breaker that cannot trip during the call, retrying is transparent: the result
  is that of the first attempt that succeeds or fails for good, and after \<open>max_attempts\<close>
  retryable failures the last of them.
\<close>

theorem call_returns_first_result:
  assumes "cb_state (breaker ex) = CLOSED" and "opened_at (breaker ex) = None"
    and "failures (breaker ex) + max 0 (max_attempts (retry ex)) \<le> failure_threshold (breaker ex)"
    and "delays_defined F E (retry ex)"
  shows "fst (call F E ex) = first_result E [1..max_attempts (retry ex)] None"
  unfolding call_def
  by (rule attempts_first_result) (use assms in \<open>auto simp: delays_defined_def max_def split: if_splits\<close>)

theorem call_returns_first_result_witness:
  "fst (call exact_ops sample_env sample_executor) = first_result sample_env [1..5] None"
proof -
  have "delays_defined exact_ops sample_env (retry sample_executor)"
    by (simp add: delays_defined_def delay_def exact_ops_def exact_pow_def sample_executor_def
        init_ResilientExecutor_def default_RetryPolicy_def Let_def upto.simps)
  from call_returns_first_result [OF _ _ _ this] show ?thesis
    by (simp add: sample_executor_def init_ResilientExecutor_def default_RetryPolicy_def init_CircuitBreaker_def)
qed

subsection \<open>A half-open breaker that lost its probe\<close>

definition call_seq ::
  "float_ops \<Rightarrow> ('a, 'x) call_env list \<Rightarrow> ResilientExecutor \<Rightarrow> ('x call_error + 'a) list \<times> ResilientExecutor" where
  "call_seq F Es ex =
     foldl (\<lambda>(rs, ex) E. case call F E ex of (r, ex') \<Rightarrow> (rs @ [r], ex')) ([], ex) Es"

lemma exhausted_half_open:
  assumes "cb_state (breaker ex) = HALF_OPEN" and "half_open_max_calls (breaker ex) \<le> half_open_calls (breaker ex)"
    and "1 \<le> max_attempts (retry ex)"
  shows "call F E ex = (Inl CircuitOpenError, ex)"
proof -
  have "[1..max_attempts (retry ex)] = 1 # [2..max_attempts (retry ex)]"
    using assms(3) by (simp add: upto.simps [of 1])
  moreover have "allow F (allow_at E 1) (breaker ex) = (False, breaker ex)"
    using assms(1,2) by (auto simp: allow_def maybe_half_open_def Let_def split: option.splits)
  ultimately show ?thesis by (simp add: call_def)
qed

lemma exhausted_half_open_seq:
  assumes "cb_state (breaker ex) = HALF_OPEN" and "half_open_max_calls (breaker ex) \<le> half_open_calls (breaker ex)"
    and "1 \<le> max_attempts (retry ex)"
  shows "call_seq F Es ex = (replicate (length Es) (Inl CircuitOpenError), ex)"
proof -
  have "foldl (\<lambda>(rs, ex) E. case call F E ex of (r, ex') \<Rightarrow> (rs @ [r], ex')) (rs, ex) Es =
      (rs @ replicate (length Es) (Inl CircuitOpenError), ex)" for rs
    by (induction Es arbitrary: rs) (simp_all add: exhausted_half_open [OF assms] flip: replicate_Suc replicate_append_same)
  then show ?thesis by (simp add: call_seq_def)
qed

text \<open>
  One error outside the retryable classes during the probe call locks the executor for good.
  The probe is counted but neither a success nor a failure is recorded, so the breaker stays half
  open with no probe left, and every later call is rejected, at any time and whatever the state of the
  broker.
\<close>

theorem lost_probe_rejects_forever:
  assumes "cb_state (breaker ex) = OPEN" and "opened_at (breaker ex) = Some t"
    and "flt_le (reset_timeout (breaker ex)) (fsub F (allow_at E 1) t)" and "half_open_max_calls (breaker ex) = 1"
    and "fn E 1 = Raises x" and "\<not> retryable E x" and "1 \<le> max_attempts (retry ex)"
  shows "fst (call_seq F Es (snd (call F E ex))) = replicate (length Es) (Inl CircuitOpenError)"
proof -
  let ?cb = "(breaker ex)\<lparr>cb_state := HALF_OPEN, half_open_calls := 0\<rparr>"
  have "[1..max_attempts (retry ex)] = 1 # [2..max_attempts (retry ex)]"
    using assms(7) by (simp add: upto.simps [of 1])
  moreover have "allow F (allow_at E 1) (breaker ex) = (True, ?cb)"
    using assms(1-4) by (simp add: allow_def maybe_half_open_def Let_def)
  ultimately have "snd (call F E ex) =
      ex\<lparr>breaker := ?cb\<lparr>half_open_calls := 1\<rparr>, attempts_made := attempts_made ex + 1\<rparr>"
    using assms(5,6) by (simp add: call_def Let_def record_attempt_def)
  then show ?thesis using assms(4,7) by (simp add: exhausted_half_open_seq)
qed

theorem lost_probe_rejects_forever_witness:
  "fst (call_seq exact_ops [sample_env, sample_env]
     (snd (call exact_ops (sample_env\<lparr>retryable := (\<lambda>x. False), allow_at := (\<lambda>n. Fin 200)\<rparr>) sample_open))) =
   [Inl CircuitOpenError, Inl CircuitOpenError]"
  using lost_probe_rejects_forever [of sample_open "Fin 80" exact_ops
      "sample_env\<lparr>retryable := (\<lambda>x. False), allow_at := (\<lambda>n. Fin 200)\<rparr>" True "[sample_env, sample_env]"]
  by (simp add: sample_open_def sample_env_def init_ResilientExecutor_def default_RetryPolicy_def
      trip_def init_CircuitBreaker_def exact_ops_def numeral_2_eq_2)

subsection \<open>Polling and reconciliation\<close>

lemma poll_keeps: "poll so fo f oids out = Some out' \<Longrightarrow> oid \<notin> set oids \<Longrightarrow> dict_get out' oid = dict_get out oid"
  by (induction so fo f oids out rule: poll.induct) (auto split: outcome.splits option.splits)

text \<open>
  A request for an order's status that fails makes the order count as terminal, although it may well
  be working at the broker.
\<close>

lemma failed_poll_is_terminal:
  assumes "poll so fo f oids [] = Some out" and "oids = pre @ oid # post" and "oid \<notin> set post" and "f oid = Raises x"
  shows "map_of (fst (split_terminal out)) oid = Some (failed_poll oid x)"
proof -
  have get: "dict_get out oid = Some (failed_poll oid x)"
  proof -
    have "poll so fo f (pre @ oid # post) d = Some out \<Longrightarrow> dict_get out oid = Some (failed_poll oid x)" for d
    proof (induction pre arbitrary: d)
      case Nil
      then show ?case using poll_keeps [of so fo f post _ out oid] assms(3,4) by simp
    next
      case (Cons a pre)
      then show ?case by (auto split: outcome.splits option.splits)
    qed
    with assms(1,2) show ?thesis by blast
  qed
  have "dict_ok out"
  proof -
    have "poll so fo f oids d = Some out \<Longrightarrow> dict_ok d \<Longrightarrow> dict_ok out" for d
      by (induction so fo f oids d rule: poll.induct) (auto split: outcome.splits option.splits intro: dict_ok_set)
    with assms(1) show ?thesis by (simp add: dict_ok_def)
  qed
  moreover have "is_terminal (failed_poll oid x)"
    by (simp add: is_terminal_def failed_poll_def upper_def upper_char_def terminal_statuses_def)
  ultimately have "(oid, failed_poll oid x) \<in> set (fst (split_terminal out)) \<and> distinct (map fst (fst (split_terminal out)))"
    using get by (auto simp: split_terminal_def dict_ok_def dict_ok_get_iff dest: map_of_SomeD intro: distinct_map_filter)
  then show ?thesis by simp
qed

text \<open>
  The start-up report is clean exactly when both sides know the same open orders and every
  symbol's positions agree within the tolerance; a symbol one side does not know counts as zero.
\<close>

theorem reconcile_clean_iff:
  "clean (reconcile F tol local_ids broker_ids lp bp) \<longleftrightarrow>
   set local_ids = set broker_ids \<and>
   (\<forall>s \<in> set (dict_keys lp) \<union> set (dict_keys bp).
      \<not> flt_lt tol (flt_abs (fsub F (position lp s) (position bp s))))"
proof -
  let ?syms = "sorted_list_of_set (set (dict_keys lp) \<union> set (dict_keys bp))"
  have "List.map_filter (sym_mismatch F tol lp bp) ?syms = [] \<longleftrightarrow>
      (\<forall>s \<in> set ?syms. sym_mismatch F tol lp bp s = None)"
    by (simp add: map_filter_def filter_empty_conv)
  moreover have "sorted_diff xs ys = [] \<longleftrightarrow> set xs \<subseteq> set ys" for xs ys
    by (simp add: sorted_diff_def sorted_list_of_set_eq_Nil_iff)
  ultimately show ?thesis
    by (auto simp: clean_def reconcile_def Let_def sym_mismatch_def split: if_splits)
qed

theorem reconcile_clean_iff_witness:
  "clean (reconcile exact_ops (Fin (1 / 1000000)) [''a''] [''a''] [] [(''BTC'', Fin 0)]) \<and>
   \<not> clean (reconcile exact_ops (Fin (1 / 1000000)) [''a''] [''a''] [] [(''BTC'', Fin 1)])"
  using reconcile_clean_iff [of exact_ops "Fin (1 / 1000000)" "[''a'']" "[''a'']" "[]" "[(''BTC'', Fin 0)]"]
    reconcile_clean_iff [of exact_ops "Fin (1 / 1000000)" "[''a'']" "[''a'']" "[]" "[(''BTC'', Fin 1)]"]
  by (simp add: position_def exact_ops_def)

end
