(* ===== verification/Live_Authorization.thy ===== *)
theory Live_Authorization
  imports Hash_Chain Py_Float
begin

section \<open>Authorization of live trading\<close>

text \<open>
  Model of \<^verbatim>\<open>packages/agent/approval/live_trading_authorization.py\<close>: mandates an
  operator grants for one strategy configuration and one broker, their ceilings, budgets and
  expiry, the check before a rebalance, the audit trail in a hash chain, the files.  Returned
  dictionaries are values of result types, whose constructors stand for the (Russian) texts.
  The store reads its clock through \<open>tick\<close>, one reading after the other.  Files: the state
  file holds the mandates as \<^verbatim>\<open>_save\<close> writes them, or is unreadable; an audit line
  is an entry or no JSON.  Parameters: the digests of the chain, the rounding of floats, SHA-256 and
  JSON text of a configuration, the texts of times, \<^verbatim>\<open>round(x, 2)\<close>.
\<close>

subsection \<open>Mandates\<close>

abbreviation "STATUS_ACTIVE \<equiv> ''active''"
abbreviation "STATUS_REVOKED \<equiv> ''revoked''"
abbreviation "STATUS_EXPIRED \<equiv> ''expired''"
abbreviation "STATUS_EXHAUSTED \<equiv> ''exhausted''"

definition HARD_MAX_TTL_SEC :: int where
  "HARD_MAX_TTL_SEC = 7 * 24 * 3600"

definition HARD_MAX_NOTIONAL_PER_REBALANCE :: pyfloat where
  "HARD_MAX_NOTIONAL_PER_REBALANCE = Fin 5000000"

definition HARD_MAX_TURNOVER :: pyfloat where
  "HARD_MAX_TURNOVER = Fin 1"

record la_env =
  la_digests :: digests
  la_rep :: "pyval \<Rightarrow> string"
  la_ops :: float_ops
  la_iso :: "pyfloat \<Rightarrow> string"
  la_round :: "pyfloat \<Rightarrow> pyfloat"
  la_sha :: "string \<Rightarrow> string"
  la_dump :: "pyval \<Rightarrow> string"

definition is_hex :: "string \<Rightarrow> bool" where
  "is_hex s = list_all (\<lambda>c. c \<in> set ''0123456789abcdef'') s"

fun canonical_config_hash :: "la_env \<Rightarrow> pyval \<Rightarrow> string" where
  "canonical_config_hash E (PStr s) =
     (if length s = 64 \<and> is_hex (lower s) then lower s else la_sha E s)"
| "canonical_config_hash E config = la_sha E (la_dump E config)"

record LimitCeiling =
  max_turnover :: pyfloat
  max_notional :: pyfloat
  max_orders :: int

definition clamp_to_hard :: "LimitCeiling \<Rightarrow> LimitCeiling" where
  "clamp_to_hard c =
     \<lparr>max_turnover = flt_min (max_turnover c) HARD_MAX_TURNOVER,
      max_notional = flt_min (max_notional c) HARD_MAX_NOTIONAL_PER_REBALANCE,
      max_orders = max_orders c\<rparr>"

record Mandate =
  auth_id :: string
  strategy_id :: string
  config_hash :: string
  broker :: string
  limit_ceiling :: LimitCeiling
  granted_at :: pyfloat
  expires_at :: pyfloat
  granted_by :: string
  status :: string
  max_total_notional :: "pyfloat option"
  max_rebalances :: "int option"
  consumed_notional :: pyfloat
  consumed_rebalances :: int
  revoked_at :: "pyfloat option"
  revoke_reason :: "string option"
  mandate_note :: string

definition is_active :: "pyfloat \<Rightarrow> Mandate \<Rightarrow> bool" where
  "is_active now a = (status a = STATUS_ACTIVE \<and> flt_lt now (expires_at a))"

subsection \<open>The store, its clock, its files\<close>

datatype state_file = No_state | Broken_state | State_file "Mandate list"

record LiveStore =
  state_file :: state_file
  state_writable :: bool
  audit_lines :: "(string, pyval) dict option list"
  audit_writable :: bool
  time_fn :: "nat \<Rightarrow> pyfloat"
  time_reads :: nat
  auths :: "(string, Mandate) dict"
  chain :: HashChain

datatype la_error = Save_failed | Audit_failed chain_error | Token_not_ascii

definition tick :: "LiveStore \<Rightarrow> pyfloat \<times> LiveStore" where
  "tick s = (time_fn s (time_reads s), s\<lparr>time_reads := time_reads s + 1\<rparr>)"

definition audit ::
  "la_env \<Rightarrow> string \<Rightarrow> (string, pyval) dict \<Rightarrow> LiveStore \<Rightarrow> (la_error, unit, LiveStore) pyres" where
  "audit E event payload s =
     (let (t1, s1) = tick s; (t2, s2) = tick s1;
          entry = put_all [(''event'', PStr event), (''at'', PFloat t1), (''at_iso'', PStr (la_iso E t2))] payload in
      case chain_append (la_digests E) (la_rep E) (chain s2) entry of
        (Inl x, c) \<Rightarrow> py_raise (Audit_failed x) (s2\<lparr>chain := c\<rparr>)
      | (Inr r, c) \<Rightarrow>
          (let line = put_all entry [(''seq'', PInt (cr_seq r)), (''entry_hash'', PStr (cr_entry_hash r)),
                 (''prev_hash'', PStr (cr_prev_hash r))] in
           py_return () (s2\<lparr>chain := c,
             audit_lines := (if audit_writable s2 then audit_lines s2 @ [Some line] else audit_lines s2)\<rparr>)))"

definition verify_audit :: "la_env \<Rightarrow> LiveStore \<Rightarrow> chain_error + verify_result" where
  "verify_audit E s = chain_verify (la_digests E) (la_rep E) (chain s)"

definition save_state :: "LiveStore \<Rightarrow> (la_error, unit, LiveStore) pyres" where
  "save_state s =
     (case tick s of (_, s') \<Rightarrow>
        if state_writable s' then py_return () (s'\<lparr>state_file := State_file (dict_values (auths s'))\<rparr>)
        else py_raise Save_failed s')"

text \<open>
  Rebuilding the chain from the audit file: what is not JSON is skipped, the recorded number and
  hashes of a line are dropped, an entry that cannot be appended is skipped.
\<close>

definition drop_links :: "(string, pyval) dict \<Rightarrow> (string, pyval) dict" where
  "drop_links d = filter (\<lambda>kv. fst kv \<notin> {''seq'', ''entry_hash'', ''prev_hash''}) d"

definition rebuild ::
  "la_env \<Rightarrow> string option \<Rightarrow> (string, pyval) dict option list \<Rightarrow> HashChain" where
  "rebuild E key ls =
     foldl (\<lambda>c l. case l of None \<Rightarrow> c | Some d \<Rightarrow> snd (chain_append (la_digests E) (la_rep E) c (drop_links d)))
       \<lparr>hc_key = key, hc_records = []\<rparr> ls"

definition load_mandates :: "Mandate list \<Rightarrow> (string, Mandate) dict" where
  "load_mandates as = foldl (\<lambda>d a. dict_set d (auth_id a) a) [] as"

text \<open>
  The constructor on existing files.  \<open>audit_exists\<close> tells whether there is an audit file; a
  missing or unreadable state file leaves the chain empty.
\<close>

definition init_store ::
  "la_env \<Rightarrow> string option \<Rightarrow> state_file \<Rightarrow> bool \<Rightarrow> (string, pyval) dict option list \<Rightarrow> bool \<Rightarrow> bool \<Rightarrow> (nat \<Rightarrow> pyfloat) \<Rightarrow> LiveStore" where
  "init_store E key file audit_exists lines sw aw tf =
     (let empty = \<lparr>state_file = file, state_writable = sw, audit_lines = lines, audit_writable = aw,
            time_fn = tf, time_reads = 0, auths = [], chain = \<lparr>hc_key = key, hc_records = []\<rparr>\<rparr> in
      case file of
        No_state \<Rightarrow> empty
      | Broken_state \<Rightarrow> empty
      | State_file as \<Rightarrow>
          empty\<lparr>auths := load_mandates as, chain := (if audit_exists then rebuild E key lines else chain empty)\<rparr>)"

subsection \<open>Granting\<close>

record grant_args =
  ga_strategy :: string
  ga_config :: pyval
  ga_broker :: string
  ga_ceiling :: LimitCeiling
  ga_ttl :: int
  ga_confirmation :: string
  ga_expected :: string
  ga_total :: "pyfloat option"
  ga_rebalances :: "int option"
  ga_by :: string
  ga_note :: string

datatype grant_result = Paper_broker | Token_mismatch | Granted Mandate pyfloat

definition norm_broker :: "string \<Rightarrow> string" where
  "norm_broker b = lower (strip b)"

text \<open>\<^verbatim>\<open>float(x) if x else None\<close> and \<^verbatim>\<open>int(x) if x else None\<close>\<close>

definition float_if_true :: "pyfloat option \<Rightarrow> pyfloat option" where
  "float_if_true x = (case x of None \<Rightarrow> None | Some f \<Rightarrow> if f = Fin 0 then None else Some f)"

definition int_if_true :: "int option \<Rightarrow> int option" where
  "int_if_true x = (case x of None \<Rightarrow> None | Some n \<Rightarrow> if n = 0 then None else Some n)"

definition granted_ttl :: "int \<Rightarrow> int" where
  "granted_ttl ttl = max 60 (min ttl HARD_MAX_TTL_SEC)"

definition new_mandate :: "la_env \<Rightarrow> string \<Rightarrow> pyfloat \<Rightarrow> grant_args \<Rightarrow> Mandate" where
  "new_mandate E new_id now g =
     \<lparr>auth_id = new_id, strategy_id = ga_strategy g, config_hash = canonical_config_hash E (ga_config g),
      broker = norm_broker (ga_broker g), limit_ceiling = clamp_to_hard (ga_ceiling g), granted_at = now,
      expires_at = fadd (la_ops E) now (Fin (of_int (granted_ttl (ga_ttl g)))), granted_by = ga_by g,
      status = STATUS_ACTIVE, max_total_notional = float_if_true (ga_total g),
      max_rebalances = int_if_true (ga_rebalances g), consumed_notional = Fin 0, consumed_rebalances = 0,
      revoked_at = None, revoke_reason = None, mandate_note = ga_note g\<rparr>"

definition set_auth :: "Mandate \<Rightarrow> LiveStore \<Rightarrow> LiveStore" where
  "set_auth a s = s\<lparr>auths := dict_set (auths s) (auth_id a) a\<rparr>"

definition revoked :: "pyfloat \<Rightarrow> string \<Rightarrow> Mandate \<Rightarrow> Mandate" where
  "revoked now reason a = a\<lparr>status := STATUS_REVOKED, revoked_at := Some now, revoke_reason := Some reason\<rparr>"

fun supersede ::
  "la_env \<Rightarrow> pyfloat \<Rightarrow> Mandate \<Rightarrow> string list \<Rightarrow> LiveStore \<Rightarrow> (la_error, unit, LiveStore) pyres" where
  "supersede E now new [] s = py_return () s"
| "supersede E now new (k # ks) s =
     (case dict_get (auths s) k of
        None \<Rightarrow> supersede E now new ks s
      | Some old \<Rightarrow>
          if strategy_id old = strategy_id new \<and> broker old = broker new \<and> status old = STATUS_ACTIVE
          then run_then
            (audit E ''SUPERSEDE'' [(''auth_id'', PStr (auth_id old))]
              (s\<lparr>auths := dict_set (auths s) k (revoked now ''superseded by new grant'' old)\<rparr>))
            (\<lambda>s'. supersede E now new ks s')
          else supersede E now new ks s)"

definition opt_float :: "pyfloat option \<Rightarrow> pyval" where
  "opt_float x = (case x of None \<Rightarrow> PNone | Some f \<Rightarrow> PFloat f)"

definition opt_int :: "int option \<Rightarrow> pyval" where
  "opt_int x = (case x of None \<Rightarrow> PNone | Some n \<Rightarrow> PInt n)"

definition ceiling_dict :: "LimitCeiling \<Rightarrow> (string, pyval) dict" where
  "ceiling_dict c =
     [(''max_turnover'', PFloat (max_turnover c)), (''max_notional_per_rebalance'', PFloat (max_notional c)),
      (''max_orders_per_rebalance'', PInt (max_orders c))]"

definition grant_entry :: "Mandate \<Rightarrow> string \<Rightarrow> (string, pyval) dict" where
  "grant_entry a by =
     [(''auth_id'', PStr (auth_id a)), (''strategy_id'', PStr (strategy_id a)),
      (''broker'', PStr (broker a)), (''config_hash'', PStr (config_hash a)),
      (''expires_at'', PFloat (expires_at a)), (''ceiling'', PDict (ceiling_dict (limit_ceiling a))),
      (''max_total_notional'', opt_float (max_total_notional a)),
      (''max_rebalances'', opt_int (max_rebalances a)), (''granted_by'', PStr by)]"

text \<open>From the lock on: the new mandate pushes the old ones out, is saved and recorded.\<close>

definition enter ::
  "la_env \<Rightarrow> Mandate \<Rightarrow> pyfloat \<Rightarrow> string \<Rightarrow> LiveStore \<Rightarrow> (la_error, grant_result, LiveStore) pyres" where
  "enter E a now by s =
     run_then (supersede E now a (dict_keys (auths s)) s) (\<lambda>s2.
     run_then (save_state (set_auth a s2)) (\<lambda>s3.
     run_then (audit E ''GRANT'' (grant_entry a by) s3) (\<lambda>s4.
     py_return (Granted a now) s4)))"

definition grant ::
  "la_env \<Rightarrow> string \<Rightarrow> grant_args \<Rightarrow> LiveStore \<Rightarrow> (la_error, grant_result, LiveStore) pyres" where
  "grant E new_id g s =
     (if norm_broker (ga_broker g) = ''sim_paper'' then py_return Paper_broker s
      else if \<not> (is_ascii (ga_confirmation g) \<and> is_ascii (ga_expected g)) then py_raise Token_not_ascii s
      else if ga_confirmation g \<noteq> ga_expected g then
        run_then
          (audit E ''REJECT_GRANT'' [(''strategy_id'', PStr (ga_strategy g)), (''broker'', PStr (ga_broker g)),
             (''reason'', PStr ''confirmation token mismatch'')] s)
          (\<lambda>s'. py_return Token_mismatch s')
      else
        (let (now, s1) = tick s in enter E (new_mandate E new_id now g) now (ga_by g) s1))"

subsection \<open>Revoking\<close>

datatype revoke_result = Not_found | Already string | Revoked

definition revoke :: "la_env \<Rightarrow> string \<Rightarrow> string \<Rightarrow> LiveStore \<Rightarrow> (la_error, revoke_result, LiveStore) pyres" where
  "revoke E i reason s =
     (case dict_get (auths s) i of
        None \<Rightarrow> py_return Not_found s
      | Some a \<Rightarrow>
          if status a \<noteq> STATUS_ACTIVE then py_return (Already (status a)) s
          else
            (let (now, s1) = tick s in
             run_then (save_state (s1\<lparr>auths := dict_set (auths s1) i (revoked now reason a)\<rparr>)) (\<lambda>s2.
             run_then (audit E ''REVOKE'' [(''auth_id'', PStr i), (''reason'', PStr reason)] s2) (\<lambda>s3.
             py_return Revoked s3))))"

text \<open>The loop of \<^verbatim>\<open>revoke_all\<close>, with the number of revoked mandates.\<close>

fun revoke_each :: "string \<Rightarrow> string list \<Rightarrow> LiveStore \<Rightarrow> int \<times> LiveStore" where
  "revoke_each reason [] s = (0, s)"
| "revoke_each reason (k # ks) s =
     (case dict_get (auths s) k of
        None \<Rightarrow> revoke_each reason ks s
      | Some a \<Rightarrow>
          if status a = STATUS_ACTIVE
          then (let (now, s1) = tick s;
                    (n, s2) = revoke_each reason ks (s1\<lparr>auths := dict_set (auths s1) k (revoked now reason a)\<rparr>) in
                (n + 1, s2))
          else revoke_each reason ks s)"

definition revoke_all :: "la_env \<Rightarrow> string \<Rightarrow> LiveStore \<Rightarrow> (la_error, int, LiveStore) pyres" where
  "revoke_all E reason s =
     (let (n, s1) = revoke_each reason (dict_keys (auths s)) s in
      if n = 0 then py_return 0 s1
      else run_then (save_state s1) (\<lambda>s2.
           run_then (audit E ''REVOKE_ALL'' [(''count'', PInt n), (''reason'', PStr reason)] s2) (\<lambda>s3.
           py_return n s3)))"

subsection \<open>Checking and consuming\<close>

definition expire_auth :: "Mandate \<Rightarrow> Mandate" where
  "expire_auth a = a\<lparr>status := STATUS_EXPIRED\<rparr>"

text \<open>
  The loop of \<^verbatim>\<open>_active_for\<close>: the last mandate of the strategy and broker that is still
  active; those past their time are marked on the way.
\<close>

fun scan ::
  "la_env \<Rightarrow> string \<Rightarrow> string \<Rightarrow> pyfloat \<Rightarrow> string list \<Rightarrow> Mandate option \<Rightarrow> bool \<Rightarrow> LiveStore \<Rightarrow>
   (la_error, Mandate option \<times> bool, LiveStore) pyres" where
  "scan E sid br now [] res expired s = py_return (res, expired) s"
| "scan E sid br now (k # ks) res expired s =
     (case dict_get (auths s) k of
        None \<Rightarrow> scan E sid br now ks res expired s
      | Some a \<Rightarrow>
          if strategy_id a \<noteq> sid \<or> broker a \<noteq> br then scan E sid br now ks res expired s
          else if status a = STATUS_ACTIVE \<and> flt_le (expires_at a) now
          then run_then
            (audit E ''EXPIRE'' [(''auth_id'', PStr (auth_id a))] (s\<lparr>auths := dict_set (auths s) k (expire_auth a)\<rparr>))
            (\<lambda>s'. scan E sid br now ks res True s')
          else if is_active now a then scan E sid br now ks (Some a) expired s
          else scan E sid br now ks res expired s)"

definition active_for ::
  "la_env \<Rightarrow> string \<Rightarrow> string \<Rightarrow> pyfloat \<Rightarrow> LiveStore \<Rightarrow> (la_error, Mandate option, LiveStore) pyres" where
  "active_for E sid br now s =
     (case scan E sid br now (dict_keys (auths s)) None False s of
        (Inl x, s1) \<Rightarrow> py_raise x s1
      | (Inr (res, expired), s1) \<Rightarrow>
          if expired then run_then (save_state s1) (\<lambda>s2. py_return res s2) else py_return res s1)"

datatype check_reason =
    No_authorization | Config_changed | Turnover_exceeded | Notional_exceeded | Orders_exceeded
  | Rebalances_exhausted | Notional_exhausted | Authorized

record AuthCheck =
  ac_allowed :: bool
  ac_reason :: check_reason
  ac_auth_id :: "string option"
  ac_ceiling :: "LimitCeiling option"

definition denied :: "check_reason \<Rightarrow> string option \<Rightarrow> AuthCheck" where
  "denied r i = \<lparr>ac_allowed = False, ac_reason = r, ac_auth_id = i, ac_ceiling = None\<rparr>"

text \<open>The tolerances are the doubles nearest to \<open>10 ^ -9\<close> and \<open>10 ^ -6\<close>.\<close>

definition eps9 :: pyfloat where
  "eps9 = Fin (4835703278458517 / 4835703278458516698824704)"

definition eps6 :: pyfloat where
  "eps6 = Fin (4722366482869645 / 4722366482869645213696)"

record check_args =
  ca_strategy :: string
  ca_config :: pyval
  ca_broker :: string
  ca_turnover :: pyfloat
  ca_notional :: pyfloat
  ca_orders :: int

definition reject_limit ::
  "la_env \<Rightarrow> Mandate \<Rightarrow> check_reason \<Rightarrow> string \<Rightarrow> pyval \<Rightarrow> pyval \<Rightarrow> LiveStore \<Rightarrow> (la_error, AuthCheck, LiveStore) pyres" where
  "reject_limit E a r kind value bound s =
     run_then
       (audit E ''REJECT'' [(''auth_id'', PStr (auth_id a)), (''reason'', PStr (kind @ '' exceeds ceiling'')),
          (''value'', value), (''ceiling'', bound)] s)
       (\<lambda>s'. py_return (denied r (Some (auth_id a))) s')"

text \<open>The checks of \<^verbatim>\<open>check\<close> on the mandate it found; \<open>cfg\<close> is the hash of the configuration.\<close>

definition judge ::
  "la_env \<Rightarrow> check_args \<Rightarrow> string \<Rightarrow> Mandate \<Rightarrow> LiveStore \<Rightarrow> (la_error, AuthCheck, LiveStore) pyres" where
  "judge E c cfg a s =
     (let l = limit_ceiling a in
      if config_hash a \<noteq> cfg then
        run_then (audit E ''REJECT'' [(''auth_id'', PStr (auth_id a)), (''reason'', PStr ''config hash mismatch''),
            (''expected'', PStr (config_hash a)), (''got'', PStr cfg)] s)
          (\<lambda>s2. py_return (denied Config_changed (Some (auth_id a))) s2)
      else if flt_lt (fadd (la_ops E) (max_turnover l) eps9) (ca_turnover c) then
        reject_limit E a Turnover_exceeded ''turnover'' (PFloat (ca_turnover c)) (PFloat (max_turnover l)) s
      else if flt_lt (fadd (la_ops E) (max_notional l) eps6) (ca_notional c) then
        reject_limit E a Notional_exceeded ''notional'' (PFloat (ca_notional c)) (PFloat (max_notional l)) s
      else if ca_orders c > max_orders l then
        reject_limit E a Orders_exceeded ''orders'' (PInt (ca_orders c)) (PInt (max_orders l)) s
      else if (case max_rebalances a of None \<Rightarrow> False | Some m \<Rightarrow> consumed_rebalances a \<ge> m) then
        py_return (denied Rebalances_exhausted (Some (auth_id a))) s
      else if (case max_total_notional a of None \<Rightarrow> False
               | Some m \<Rightarrow> flt_lt (fadd (la_ops E) m eps6) (fadd (la_ops E) (consumed_notional a) (ca_notional c))) then
        py_return (denied Notional_exhausted (Some (auth_id a))) s
      else py_return \<lparr>ac_allowed = True, ac_reason = Authorized, ac_auth_id = Some (auth_id a), ac_ceiling = Some l\<rparr> s)"

definition check :: "la_env \<Rightarrow> check_args \<Rightarrow> LiveStore \<Rightarrow> (la_error, AuthCheck, LiveStore) pyres" where
  "check E c s =
     (let (now, s0) = tick s; cfg = canonical_config_hash E (ca_config c); br = norm_broker (ca_broker c) in
      case active_for E (ca_strategy c) br now s0 of
        (Inl x, s1) \<Rightarrow> py_raise x s1
      | (Inr None, s1) \<Rightarrow>
          run_then (audit E ''REJECT'' [(''strategy_id'', PStr (ca_strategy c)), (''broker'', PStr br),
              (''reason'', PStr ''no active authorization'')] s1)
            (\<lambda>s2. py_return (denied No_authorization None) s2)
      | (Inr (Some a), s1) \<Rightarrow> judge E c cfg a s1)"

datatype consume_result = Inactive | Consumed bool pyfloat int

definition budget_used :: "Mandate \<Rightarrow> bool" where
  "budget_used a =
     ((case max_rebalances a of None \<Rightarrow> False | Some m \<Rightarrow> consumed_rebalances a \<ge> m) \<or>
      (case max_total_notional a of None \<Rightarrow> False | Some m \<Rightarrow> flt_le m (consumed_notional a)))"

definition use_mandate :: "la_env \<Rightarrow> pyfloat \<Rightarrow> Mandate \<Rightarrow> Mandate" where
  "use_mandate E notional a =
     (let b = a\<lparr>consumed_notional := fadd (la_ops E) (consumed_notional a) (flt_max (Fin 0) notional),
                consumed_rebalances := consumed_rebalances a + 1\<rparr> in
      if budget_used b then b\<lparr>status := STATUS_EXHAUSTED\<rparr> else b)"

definition consume ::
  "la_env \<Rightarrow> string \<Rightarrow> pyfloat \<Rightarrow> int \<Rightarrow> LiveStore \<Rightarrow> (la_error, consume_result, LiveStore) pyres" where
  "consume E i notional n_orders s =
     (let (now, s1) = tick s in
      case dict_get (auths s1) i of
        None \<Rightarrow> py_return Inactive s1
      | Some a \<Rightarrow>
          if \<not> is_active now a then py_return Inactive s1
          else
            (let b = use_mandate E notional a in
             run_then (save_state (s1\<lparr>auths := dict_set (auths s1) i b\<rparr>)) (\<lambda>s2.
             run_then
               (audit E ''CONSUME'' [(''auth_id'', PStr i), (''notional'', PFloat (la_round E notional)),
                  (''n_orders'', PInt n_orders), (''consumed_notional'', PFloat (la_round E (consumed_notional b))),
                  (''consumed_rebalances'', PInt (consumed_rebalances b)), (''exhausted'', PBool (budget_used b))] s2)
               (\<lambda>s3. py_return (Consumed (budget_used b) (la_round E (consumed_notional b)) (consumed_rebalances b)) s3))))"

subsection \<open>Status\<close>

fun sweep ::
  "la_env \<Rightarrow> pyfloat \<Rightarrow> string list \<Rightarrow> bool \<Rightarrow> LiveStore \<Rightarrow> (la_error, bool, LiveStore) pyres" where
  "sweep E now [] changed s = py_return changed s"
| "sweep E now (k # ks) changed s =
     (case dict_get (auths s) k of
        None \<Rightarrow> sweep E now ks changed s
      | Some a \<Rightarrow>
          if status a = STATUS_ACTIVE \<and> flt_le (expires_at a) now
          then run_then
            (audit E ''EXPIRE'' [(''auth_id'', PStr (auth_id a))] (s\<lparr>auths := dict_set (auths s) k (expire_auth a)\<rparr>))
            (\<lambda>s'. sweep E now ks True s')
          else sweep E now ks changed s)"

text \<open>The active mandates of the status report.\<close>

definition status_active :: "la_env \<Rightarrow> LiveStore \<Rightarrow> (la_error, Mandate list, LiveStore) pyres" where
  "status_active E s =
     (let (now, s0) = tick s in
      case sweep E now (dict_keys (auths s0)) False s0 of
        (Inl x, s1) \<Rightarrow> py_raise x s1
      | (Inr changed, s1) \<Rightarrow>
          (let rep = (\<lambda>s. filter (is_active now) (dict_values (auths s))) in
           if changed then run_then (save_state s1) (\<lambda>s2. py_return (rep s2) s2) else py_return (rep s1) s1))"

end
