(* ===== verification/Live_Mandates.thy ===== *)
theory Live_Mandates
  imports Live_Authorization
begin

section \<open>The life of trading mandates\<close>

text \<open>
  What the store of \<^verbatim>\<open>Live_Authorization\<close> promises over sequences of calls: it refines a life
  cycle of mandates, keeps one active mandate per strategy and broker, allows a rebalance exactly when
  a mandate permits it, and finds its mandates again after a restart.  Also what it does not promise.
\<close>

subsection \<open>Calls and runs\<close>

datatype la_call =
    Do_grant string grant_args
  | Do_revoke string string
  | Do_revoke_all string
  | Do_check check_args
  | Do_consume string pyfloat int
  | Do_status

definition la_exec :: "la_env \<Rightarrow> LiveStore \<Rightarrow> la_call \<Rightarrow> LiveStore" where
  "la_exec E s c =
     (case c of
        Do_grant i g \<Rightarrow> snd (grant E i g s)
      | Do_revoke i r \<Rightarrow> snd (revoke E i r s)
      | Do_revoke_all r \<Rightarrow> snd (revoke_all E r s)
      | Do_check a \<Rightarrow> snd (check E a s)
      | Do_consume i n k \<Rightarrow> snd (consume E i n k s)
      | Do_status \<Rightarrow> snd (status_active E s))"

definition fresh_store :: "LiveStore \<Rightarrow> bool" where
  "fresh_store s \<longleftrightarrow> state_file s = No_state \<and> auths s = [] \<and> hc_records (chain s) = []"

lemma fresh_init: "fresh_store (init_store E key No_state ae ls sw aw tf)"
  by (simp add: fresh_store_def init_store_def Let_def)

subsection \<open>The life of a mandate\<close>

text \<open>
  The contract of the store: a mandate enters by a confirmed grant, when no active mandate of its
  strategy and broker is left, and then is used while active, revoked or expired.  \<open>P\<close> tells
  the grants that were asked for.
\<close>

definition same_scope :: "Mandate \<Rightarrow> Mandate \<Rightarrow> bool" where
  "same_scope a b \<longleftrightarrow> strategy_id a = strategy_id b \<and> broker a = broker b"

definition vacant :: "(string, Mandate) dict \<Rightarrow> Mandate \<Rightarrow> bool" where
  "vacant A n \<longleftrightarrow> (\<forall>k a. dict_get A k = Some a \<longrightarrow> same_scope a n \<longrightarrow> status a \<noteq> STATUS_ACTIVE)"

inductive mandate_step ::
  "la_env \<Rightarrow> (string \<Rightarrow> grant_args \<Rightarrow> bool) \<Rightarrow> (string, Mandate) dict \<Rightarrow> (string, Mandate) dict \<Rightarrow> bool"
  for E P where
  Enter: "P i g \<Longrightarrow> ga_confirmation g = ga_expected g \<Longrightarrow> norm_broker (ga_broker g) \<noteq> ''sim_paper'' \<Longrightarrow>
    vacant A (new_mandate E i now g) \<Longrightarrow> mandate_step E P A (dict_set A i (new_mandate E i now g))"
| Use: "dict_get A k = Some a \<Longrightarrow> is_active now a \<Longrightarrow> mandate_step E P A (dict_set A k (use_mandate E n a))"
| Revoke: "dict_get A k = Some a \<Longrightarrow> status a = STATUS_ACTIVE \<Longrightarrow>
    mandate_step E P A (dict_set A k (revoked now reason a))"
| Expire: "dict_get A k = Some a \<Longrightarrow> status a = STATUS_ACTIVE \<Longrightarrow> flt_le (expires_at a) now \<Longrightarrow>
    mandate_step E P A (dict_set A k (expire_auth a))"

abbreviation mandate_steps where
  "mandate_steps E P \<equiv> (mandate_step E P)\<^sup>*\<^sup>*"

text \<open>What the calls share: the clock, the audit and saving leave the mandates alone.\<close>

lemma tick_auths [simp]: "auths (snd (tick s)) = auths s"
  by (simp add: tick_def)

lemma audit_frame [simp]:
  "auths (snd (audit E ev p s)) = auths s"
  "state_file (snd (audit E ev p s)) = state_file s"
  "state_writable (snd (audit E ev p s)) = state_writable s"
  by (simp_all add: audit_def tick_def Let_def split: prod.split sum.split)

lemma audit_auths: "audit E ev p s = (r, s') \<Longrightarrow> auths s' = auths s"
  using audit_frame(1) [of E ev p s] by simp

lemma save_auths [simp]: "auths (snd (save_state s)) = auths s"
  by (simp add: save_state_def tick_def)

lemma save_auths_eq: "save_state s = (r, s') \<Longrightarrow> auths s' = auths s"
  using save_auths [of s] by simp

lemma set_auth_auths [simp]: "auths (set_auth a s) = dict_set (auths s) (auth_id a) a"
  by (simp add: set_auth_def)

lemma run_then_inv:
  assumes "Q (snd r)" and "\<And>x s. r = (Inr x, s) \<Longrightarrow> Q s \<Longrightarrow> Q (snd (k s))"
  shows "Q (snd (run_then r k))"
  using assms by (auto split: prod.split sum.split)

lemma run_then_steps:
  assumes "mandate_steps E P A (auths (snd r))"
    and "\<And>x s. r = (Inr x, s) \<Longrightarrow> mandate_steps E P A (auths s) \<Longrightarrow> mandate_steps E P A (auths (snd (k s)))"
  shows "mandate_steps E P A (auths (snd (run_then r k)))"
  using run_then_inv [of "\<lambda>s. mandate_steps E P A (auths s)" r k] assms by blast

lemma revoked_step:
  assumes "mandate_steps E P A B" and "dict_get B k = Some a" and "status a = STATUS_ACTIVE"
  shows "mandate_steps E P A (dict_set B k (revoked now reason a))"
  by (rule rtranclp.rtrancl_into_rtrancl [OF assms(1)]) (rule Revoke [OF assms(2,3)])

lemma expired_step:
  assumes "mandate_steps E P A B" and "dict_get B k = Some a" and "status a = STATUS_ACTIVE"
    and "flt_le (expires_at a) now"
  shows "mandate_steps E P A (dict_set B k (expire_auth a))"
  by (rule rtranclp.rtrancl_into_rtrancl [OF assms(1)]) (rule Expire [OF assms(2-4)])

lemma supersede_steps:
  "mandate_steps E P A (auths s) \<Longrightarrow> mandate_steps E P A (auths (snd (supersede E now n ks s)))"
proof (induction ks arbitrary: s)
  case (Cons k ks)
  show ?case
  proof (cases "dict_get (auths s) k")
    case None
    with Cons show ?thesis by simp
  next
    case (Some a)
    have "mandate_steps E P A (auths (snd (run_then (audit E ev p (s\<lparr>auths := dict_set (auths s) k (revoked now r a)\<rparr>))
        (\<lambda>s'. supersede E now n ks s'))))" if "status a = STATUS_ACTIVE" for ev p r
      by (rule run_then_steps) (use revoked_step [OF Cons.prems Some that] Cons.IH in \<open>auto dest: audit_auths\<close>)
    with Some Cons show ?thesis by simp
  qed
qed simp

lemma revoke_each_steps:
  "mandate_steps E P A (auths s) \<Longrightarrow> mandate_steps E P A (auths (snd (revoke_each reason ks s)))"
proof (induction ks arbitrary: s)
  case (Cons k ks)
  show ?case
  proof (cases "dict_get (auths s) k")
    case None
    with Cons show ?thesis by simp
  next
    case (Some a)
    have "mandate_steps E P A (dict_set (auths s) k (revoked now reason a))" if "status a = STATUS_ACTIVE" for now
      by (rule revoked_step [OF Cons.prems Some that])
    with Some Cons show ?thesis by (simp add: tick_def Let_def case_prod_unfold)
  qed
qed simp

lemma scan_steps:
  "mandate_steps E P A (auths s) \<Longrightarrow> mandate_steps E P A (auths (snd (scan E sid br now ks res e s)))"
proof (induction ks arbitrary: s res e)
  case (Cons k ks)
  show ?case
  proof (cases "dict_get (auths s) k")
    case None
    with Cons show ?thesis by simp
  next
    case (Some a)
    have "mandate_steps E P A (auths (snd (run_then (audit E ev p (s\<lparr>auths := dict_set (auths s) k (expire_auth a)\<rparr>))
        (\<lambda>s'. scan E sid br now ks res True s'))))" if "status a = STATUS_ACTIVE" "flt_le (expires_at a) now" for ev p
      by (rule run_then_steps) (use expired_step [OF Cons.prems Some that] Cons.IH in \<open>auto dest: audit_auths\<close>)
    with Some Cons show ?thesis by simp
  qed
qed simp

lemma sweep_steps:
  "mandate_steps E P A (auths s) \<Longrightarrow> mandate_steps E P A (auths (snd (sweep E now ks e s)))"
proof (induction ks arbitrary: s e)
  case (Cons k ks)
  show ?case
  proof (cases "dict_get (auths s) k")
    case None
    with Cons show ?thesis by simp
  next
    case (Some a)
    have "mandate_steps E P A (auths (snd (run_then (audit E ev p (s\<lparr>auths := dict_set (auths s) k (expire_auth a)\<rparr>))
        (\<lambda>s'. sweep E now ks True s'))))" if "status a = STATUS_ACTIVE" "flt_le (expires_at a) now" for ev p
      by (rule run_then_steps) (use expired_step [OF Cons.prems Some that] Cons.IH in \<open>auto dest: audit_auths\<close>)
    with Some Cons show ?thesis by simp
  qed
qed simp

text \<open>After the loop of a grant no active mandate of the same strategy and broker is left.\<close>

lemma supersede_vacates:
  "supersede E now n ks s = (Inr u, s') \<Longrightarrow>
   (\<forall>k. k \<notin> set ks \<longrightarrow> dict_get (auths s') k = dict_get (auths s) k) \<and>
   (\<forall>k a. k \<in> set ks \<longrightarrow> dict_get (auths s') k = Some a \<longrightarrow> same_scope a n \<longrightarrow> status a \<noteq> STATUS_ACTIVE)"
proof (induction ks arbitrary: s)
  case (Cons k ks)
  show ?case
  proof (cases "dict_get (auths s) k")
    case None
    with Cons.prems have "supersede E now n ks s = (Inr u, s')" by simp
    from Cons.IH [OF this] None show ?thesis by (metis list.set_intros(2) option.distinct(1) set_ConsD)
  next
    case (Some a)
    show ?thesis
    proof (cases "same_scope a n \<and> status a = STATUS_ACTIVE")
      case True
      let ?s1 = "s\<lparr>auths := dict_set (auths s) k (revoked now ''superseded by new grant'' a)\<rparr>"
      obtain v s2 where s2: "audit E ''SUPERSEDE'' [(''auth_id'', PStr (auth_id a))] ?s1 = (Inr v, s2)"
        "supersede E now n ks s2 = (Inr u, s')"
        using Cons.prems Some True by (auto simp: same_scope_def split: prod.splits sum.splits)
      have "auths s2 = dict_set (auths s) k (revoked now ''superseded by new grant'' a)"
        using audit_auths [OF s2(1)] by simp
      with Cons.IH [OF s2(2)] show ?thesis
        by (cases "k \<in> set ks") (auto simp: revoked_def)
    next
      case False
      with Cons.prems Some have "supersede E now n ks s = (Inr u, s')" by (auto simp: same_scope_def)
      from Cons.IH [OF this] Some False show ?thesis by (cases "k \<in> set ks") auto
    qed
  qed
qed simp

lemma supersede_vacant:
  assumes "supersede E now n (dict_keys (auths s)) s = (Inr u, s')"
  shows "vacant (auths s') n"
  unfolding vacant_def
proof (intro allI impI)
  fix k a assume k: "dict_get (auths s') k = Some a" "same_scope a n"
  note v = supersede_vacates [OF assms]
  have "k \<in> set (dict_keys (auths s))"
  proof (rule ccontr)
    assume "k \<notin> set (dict_keys (auths s))"
    then have "dict_get (auths s) k = None" "dict_get (auths s') k = dict_get (auths s) k"
      using v by (simp_all add: map_of_eq_None_iff)
    with k show False by simp
  qed
  with v k show "status a \<noteq> STATUS_ACTIVE" by blast
qed

lemma enter_steps:
  assumes "P i g" "ga_confirmation g = ga_expected g" "norm_broker (ga_broker g) \<noteq> ''sim_paper''"
  shows "mandate_steps E P (auths s) (auths (snd (enter E (new_mandate E i now g) t by s)))"
proof -
  let ?n = "new_mandate E i now g"
  have i: "auth_id ?n = i" by (simp add: new_mandate_def)
  have in_set: "mandate_steps E P (auths s) (auths (set_auth ?n s2))"
    if "supersede E t ?n (dict_keys (auths s)) s = (Inr u, s2)" "mandate_steps E P (auths s) (auths s2)" for u s2
    using Enter [of P i g "auths s2" E now, OF assms supersede_vacant [OF that(1)]] that(2) i by auto
  show ?thesis
    unfolding enter_def
    by (intro run_then_steps)
      (use in_set supersede_steps in \<open>auto simp: audit_frame(1) save_auths simp del: set_auth_auths\<close>)
qed

lemma grant_steps: "P i g \<Longrightarrow> mandate_steps E P (auths s) (auths (snd (grant E i g s)))"
proof -
  assume P: "P i g"
  have rej: "auths (snd (run_then (audit E ev p s) (\<lambda>s'. py_return x s'))) = auths s" for ev p and x :: grant_result
    by (rule run_then_inv) (auto dest: audit_auths)
  have e: "mandate_steps E P (auths s) (auths (snd (enter E (new_mandate E i (fst (tick s)) g) (fst (tick s)) by (snd (tick s)))))"
    if "ga_confirmation g = ga_expected g" "norm_broker (ga_broker g) \<noteq> ''sim_paper''" for "by"
    using enter_steps [of P i g E "snd (tick s)", OF P that] by simp
  show ?thesis
    unfolding grant_def Let_def prod.case_eq_if [where prod = "tick s"]
    using e rej by simp
qed

lemma save_then_audit_steps:
  "mandate_steps E P A (auths s) \<Longrightarrow>
   mandate_steps E P A (auths (snd (run_then (save_state s) (\<lambda>s2. run_then (audit E ev p s2) (\<lambda>s3. py_return x s3)))))"
  by (intro run_then_steps) (auto dest: audit_auths)

lemma save_return_steps:
  "mandate_steps E P A (auths s) \<Longrightarrow> mandate_steps E P A (auths (snd (run_then (save_state s) (\<lambda>s2. py_return (x s2) s2))))"
  by (intro run_then_steps) auto

lemma audit_return_auths: "auths (snd (run_then (audit E ev p s) (\<lambda>s'. py_return x s'))) = auths s"
  by (rule run_then_inv) (auto dest: audit_auths)

lemma revoke_steps: "mandate_steps E P (auths s) (auths (snd (revoke E i r s)))"
proof (cases "dict_get (auths s) i")
  case (Some a)
  have "mandate_steps E P (auths s) (dict_set (auths s) i (revoked now r a))" if "status a = STATUS_ACTIVE" for now
    by (rule revoked_step [OF rtranclp.rtrancl_refl Some that])
  then have "mandate_steps E P (auths s) (auths (snd (run_then (save_state (s1\<lparr>auths := dict_set (auths s) i (revoked now r a)\<rparr>))
      (\<lambda>s2. run_then (audit E ev p s2) (\<lambda>s3. py_return x s3)))))" if "status a = STATUS_ACTIVE"
    for s1 now ev p and x :: revoke_result
    using that by (intro save_then_audit_steps) simp
  then show ?thesis
    unfolding revoke_def Let_def prod.case_eq_if [where prod = "tick s"] by (simp add: Some)
qed (simp add: revoke_def)

lemma revoke_all_steps: "mandate_steps E P (auths s) (auths (snd (revoke_all E r s)))"
  unfolding revoke_all_def Let_def prod.case_eq_if [where prod = "revoke_each r (dict_keys (auths s)) s"]
  using revoke_each_steps [of E P "auths s" s r] by (simp add: save_then_audit_steps)

lemma active_for_steps: "mandate_steps E P A (auths s) \<Longrightarrow> mandate_steps E P A (auths (snd (active_for E sid br now s)))"
proof -
  assume "mandate_steps E P A (auths s)"
  then have "mandate_steps E P A (auths (snd (scan E sid br now (dict_keys (auths s)) None False s)))" by (rule scan_steps)
  then show ?thesis
    unfolding active_for_def by (auto dest: save_auths_eq split: prod.splits sum.splits)
qed

lemma judge_auths: "auths (snd (judge E c cfg a s)) = auths s"
  by (simp add: judge_def Let_def reject_limit_def audit_return_auths)

lemma check_steps: "mandate_steps E P (auths s) (auths (snd (check E c s)))"
proof -
  let ?r = "active_for E (ca_strategy c) (norm_broker (ca_broker c)) (fst (tick s)) (snd (tick s))"
  have "auths (snd (check E c s)) = auths (snd ?r)"
    unfolding check_def Let_def prod.case_eq_if [where prod = "tick s"]
    by (auto simp: judge_auths dest: audit_auths split: prod.split sum.split option.split)
  moreover have "mandate_steps E P (auths s) (auths (snd ?r))" by (rule active_for_steps) simp
  ultimately show ?thesis by simp
qed

lemma consume_steps: "mandate_steps E P (auths s) (auths (snd (consume E i n k s)))"
proof (cases "dict_get (auths s) i")
  case (Some a)
  have "mandate_steps E P (auths s) (dict_set (auths s) i (use_mandate E n a))" if "is_active now a" for now
    using Use [OF Some that] by blast
  then have "mandate_steps E P (auths s) (auths (snd (run_then (save_state (s1\<lparr>auths := dict_set (auths s) i (use_mandate E n a)\<rparr>))
      (\<lambda>s2. run_then (audit E ev p s2) (\<lambda>s3. py_return x s3)))))" if "is_active now a"
    for s1 now ev p and x :: consume_result
    using that by (intro save_then_audit_steps) simp
  then show ?thesis
    unfolding consume_def Let_def prod.case_eq_if [where prod = "tick s"] by (simp add: Some)
qed (simp add: consume_def prod.case_eq_if)

lemma status_steps: "mandate_steps E P (auths s) (auths (snd (status_active E s)))"
proof -
  let ?s = "snd (tick s)"
  obtain r s1 where sw: "sweep E (fst (tick s)) (dict_keys (auths ?s)) False ?s = (r, s1)" by fastforce
  then have "mandate_steps E P (auths s) (auths s1)" using sweep_steps [of E P "auths s" ?s] by (metis snd_conv tick_auths rtranclp.rtrancl_refl)
  with sw show ?thesis
    unfolding status_active_def Let_def prod.case_eq_if [where prod = "tick s"]
    by (auto dest: save_auths_eq split: prod.split sum.split)
qed

definition asked_for :: "la_call list \<Rightarrow> string \<Rightarrow> grant_args \<Rightarrow> bool" where
  "asked_for cs i g \<longleftrightarrow> Do_grant i g \<in> set cs"

lemma la_exec_steps: "mandate_steps E (asked_for (c # cs)) (auths s) (auths (la_exec E s c))"
  by (cases c) (simp_all add: la_exec_def asked_for_def grant_steps revoke_steps revoke_all_steps check_steps
    consume_steps status_steps)

subsection \<open>What every step keeps\<close>

text \<open>
  A mandate is in one of the four states and has not been used beyond its number of rebalances; an
  active one with a budget has a rebalance left, unless the budget was negative from the start.
\<close>

definition mandate_ok :: "Mandate \<Rightarrow> bool" where
  "mandate_ok a \<longleftrightarrow>
     status a \<in> {STATUS_ACTIVE, STATUS_REVOKED, STATUS_EXPIRED, STATUS_EXHAUSTED} \<and> 0 \<le> consumed_rebalances a \<and>
     (case max_rebalances a of None \<Rightarrow> True
      | Some m \<Rightarrow> consumed_rebalances a \<le> max 1 m \<and>
          (status a = STATUS_ACTIVE \<longrightarrow> consumed_rebalances a < max 1 m))"

definition single_active :: "(string, Mandate) dict \<Rightarrow> bool" where
  "single_active A \<longleftrightarrow>
     (\<forall>k k' a a'. dict_get A k = Some a \<longrightarrow> dict_get A k' = Some a' \<longrightarrow> status a = STATUS_ACTIVE \<longrightarrow>
        status a' = STATUS_ACTIVE \<longrightarrow> same_scope a a' \<longrightarrow> k = k')"

definition mandates_ok :: "(string, Mandate) dict \<Rightarrow> bool" where
  "mandates_ok A \<longleftrightarrow> dict_ok A \<and> single_active A \<and> (\<forall>k a. dict_get A k = Some a \<longrightarrow> auth_id a = k \<and> mandate_ok a)"

text \<open>The parts of a mandate that never change.\<close>

definition terms :: "Mandate \<Rightarrow> Mandate" where
  "terms a = a\<lparr>status := [], consumed_notional := Fin 0, consumed_rebalances := 0, revoked_at := None,
               revoke_reason := None\<rparr>"

lemma terms_eq_iff:
  "terms a = terms b \<longleftrightarrow>
   auth_id a = auth_id b \<and> strategy_id a = strategy_id b \<and> config_hash a = config_hash b \<and> broker a = broker b \<and>
   limit_ceiling a = limit_ceiling b \<and> granted_at a = granted_at b \<and> expires_at a = expires_at b \<and>
   granted_by a = granted_by b \<and> max_total_notional a = max_total_notional b \<and>
   max_rebalances a = max_rebalances b \<and> mandate_note a = mandate_note b"
  by (cases a; cases b) (auto simp: terms_def)

lemma terms_kept [simp]:
  "terms (use_mandate E n a) = terms a" "terms (revoked now r a) = terms a" "terms (expire_auth a) = terms a"
  by (simp_all add: terms_def use_mandate_def Let_def revoked_def expire_auth_def)

lemma scope_of_terms: "terms a = terms b \<Longrightarrow> same_scope a c \<longleftrightarrow> same_scope b c"
  by (simp add: terms_eq_iff same_scope_def)

lemma scope_of_terms': "terms a = terms b \<Longrightarrow> same_scope c a \<longleftrightarrow> same_scope c b"
  by (simp add: terms_eq_iff same_scope_def)

lemma mandate_ok_new: "mandate_ok (new_mandate E i now g)"
  by (auto simp: mandate_ok_def new_mandate_def split: option.split)

lemma mandate_ok_closed:
  "mandate_ok a \<Longrightarrow> status a = STATUS_ACTIVE \<Longrightarrow> mandate_ok (revoked now r a) \<and> mandate_ok (expire_auth a)"
  by (auto simp: mandate_ok_def revoked_def expire_auth_def split: option.split)

lemma mandate_ok_use: "mandate_ok a \<Longrightarrow> status a = STATUS_ACTIVE \<Longrightarrow> mandate_ok (use_mandate E n a)"
  by (auto simp: mandate_ok_def use_mandate_def Let_def budget_used_def split: option.splits)

text \<open>Replacing an active mandate by one of the same terms keeps the well-formedness.\<close>

lemma mandates_ok_replace:
  assumes ok: "mandates_ok A" and a: "dict_get A k = Some a" "status a = STATUS_ACTIVE"
    and b: "terms b = terms a" "mandate_ok b"
  shows "mandates_ok (dict_set A k b)"
proof -
  have "single_active (dict_set A k b)"
    unfolding single_active_def
  proof (intro allI impI)
    fix k1 k2 a1 a2
    assume g: "dict_get (dict_set A k b) k1 = Some a1" "dict_get (dict_set A k b) k2 = Some a2"
      and s: "status a1 = STATUS_ACTIVE" "status a2 = STATUS_ACTIVE" "same_scope a1 a2"
    have old: "\<exists>c. dict_get A k' = Some c \<and> status c = STATUS_ACTIVE \<and> terms c = terms a'"
      if "dict_get (dict_set A k b) k' = Some a'" "status a' = STATUS_ACTIVE" for k' a'
      using that a b by (cases "k' = k") auto
    obtain c1 c2 where c: "dict_get A k1 = Some c1" "status c1 = STATUS_ACTIVE" "terms c1 = terms a1"
      "dict_get A k2 = Some c2" "status c2 = STATUS_ACTIVE" "terms c2 = terms a2"
      using old [OF g(1) s(1)] old [OF g(2) s(2)] by blast
    then have "same_scope c1 c2" using s(3) scope_of_terms scope_of_terms' by metis
    with ok c show "k1 = k2" unfolding mandates_ok_def single_active_def by blast
  qed
  with ok a b show ?thesis by (auto simp: mandates_ok_def terms_eq_iff dict_ok_set)
qed

lemma mandates_ok_enter:
  assumes ok: "mandates_ok A" and v: "vacant A n" and n: "auth_id n = k" "mandate_ok n"
  shows "mandates_ok (dict_set A k n)"
proof -
  have sym: "same_scope a b \<longleftrightarrow> same_scope b a" for a b by (auto simp: same_scope_def)
  have "single_active (dict_set A k n)"
    using ok v sym unfolding mandates_ok_def single_active_def vacant_def by (auto split: if_splits)
  with ok n show ?thesis by (auto simp: mandates_ok_def dict_ok_set)
qed

lemma mandate_step_ok: "mandate_step E P A B \<Longrightarrow> mandates_ok A \<Longrightarrow> mandates_ok B"
proof (induction rule: mandate_step.induct)
  case (Enter i g A now)
  then show ?case by (intro mandates_ok_enter mandate_ok_new) (simp_all add: new_mandate_def)
next
  case (Use A k a now n)
  then have "status a = STATUS_ACTIVE" by (simp add: is_active_def)
  then show ?case using Use mandate_ok_use by (intro mandates_ok_replace) (auto simp: mandates_ok_def)
next
  case (Revoke A k a now reason)
  then show ?case using mandate_ok_closed by (intro mandates_ok_replace) (auto simp: mandates_ok_def)
next
  case (Expire A k a now)
  then show ?case using mandate_ok_closed by (intro mandates_ok_replace) (auto simp: mandates_ok_def)
qed

lemma mandate_steps_ok: "mandate_steps E P A B \<Longrightarrow> mandates_ok A \<Longrightarrow> mandates_ok B"
  by (induction rule: rtranclp_induct) (auto intro: mandate_step_ok)

interpretation las: step_system fresh_store "la_exec E" "\<lambda>s. mandates_ok (auths s)" for E
proof unfold_locales
  fix s :: LiveStore assume "fresh_store s"
  then show "mandates_ok (auths s)" by (simp add: fresh_store_def mandates_ok_def single_active_def)
next
  fix s :: LiveStore and l assume "mandates_ok (auths s)"
  then show "mandates_ok (auths (la_exec E s l))" using mandate_steps_ok [OF la_exec_steps [of E l "[]" s]] by blast
qed

subsection \<open>Where mandates come from\<close>

definition from_grant :: "la_env \<Rightarrow> (string \<Rightarrow> grant_args \<Rightarrow> bool) \<Rightarrow> Mandate \<Rightarrow> bool" where
  "from_grant E P a \<longleftrightarrow>
     (\<exists>i g now. P i g \<and> ga_confirmation g = ga_expected g \<and> norm_broker (ga_broker g) \<noteq> ''sim_paper'' \<and>
        terms a = terms (new_mandate E i now g))"

lemma from_grant_terms: "terms b = terms a \<Longrightarrow> from_grant E P b = from_grant E P a"
  by (simp add: from_grant_def)

lemma from_grant_set:
  "\<forall>a \<in> set (dict_values A). from_grant E P a \<Longrightarrow> from_grant E P b \<Longrightarrow>
   \<forall>a \<in> set (dict_values (dict_set A k b)). from_grant E P a"
proof
  fix a
  assume A: "\<forall>a \<in> set (dict_values A). from_grant E P a" "from_grant E P b" and a: "a \<in> set (dict_values (dict_set A k b))"
  from a obtain x where "(x, a) \<in> set (dict_set A k b)" by force
  then have "a = b \<or> (x, a) \<in> set A" using set_dict_set_subset [of A k b] by blast
  then have "a = b \<or> a \<in> set (dict_values A)" by force
  with A show "from_grant E P a" by blast
qed

lemma from_grant_replace:
  assumes "\<forall>a \<in> set (dict_values A). from_grant E P a" and "dict_get A k = Some a" and "terms b = terms a"
  shows "\<forall>a \<in> set (dict_values (dict_set A k b)). from_grant E P a"
proof (rule from_grant_set [OF assms(1)])
  have "a \<in> set (dict_values A)" using map_of_SomeD [OF assms(2)] imageI [of "(k, a)" "set A" snd] by simp
  with assms(1) show "from_grant E P b" using from_grant_terms [OF assms(3)] by blast
qed

lemma mandate_step_from_grant:
  "mandate_step E P A B \<Longrightarrow> \<forall>a \<in> set (dict_values A). from_grant E P a \<Longrightarrow> \<forall>b \<in> set (dict_values B). from_grant E P b"
proof (induction rule: mandate_step.induct)
  case (Enter i g A now)
  then have "from_grant E P (new_mandate E i now g)" unfolding from_grant_def by blast
  with Enter.prems show ?case by (rule from_grant_set)
next
  case (Use A k a now n)
  then show ?case by (intro from_grant_replace [where a = a]) simp_all
next
  case (Revoke A k a now reason)
  then show ?case by (intro from_grant_replace [where a = a]) simp_all
next
  case (Expire A k a now)
  then show ?case by (intro from_grant_replace [where a = a]) simp_all
qed

lemma mandate_steps_from_grant:
  "mandate_steps E P A B \<Longrightarrow> \<forall>a \<in> set (dict_values A). from_grant E P a \<Longrightarrow> \<forall>b \<in> set (dict_values B). from_grant E P b"
  by (induction rule: rtranclp_induct) (simp, rule mandate_step_from_grant)

lemma mandate_step_mono: "mandate_step E P A B \<Longrightarrow> (\<And>i g. P i g \<Longrightarrow> Q i g) \<Longrightarrow> mandate_step E Q A B"
  by (induction rule: mandate_step.induct) (auto intro: mandate_step.intros)

lemma mandate_steps_mono: "mandate_steps E P A B \<Longrightarrow> (\<And>i g. P i g \<Longrightarrow> Q i g) \<Longrightarrow> mandate_steps E Q A B"
  by (induction rule: rtranclp_induct) (auto intro: mandate_step_mono rtranclp.rtrancl_into_rtrancl)

lemma run_steps: "mandate_steps E (asked_for cs) (auths s) (auths (foldl (la_exec E) s cs))"
proof (induction cs arbitrary: s)
  case (Cons c cs)
  have "mandate_steps E (asked_for (c # cs)) (auths (la_exec E s c)) (auths (foldl (la_exec E) (la_exec E s c) cs))"
    by (rule mandate_steps_mono [OF Cons.IH]) (simp add: asked_for_def)
  with la_exec_steps [of E c cs s] show ?case by simp
qed simp

subsection \<open>What the check finds\<close>

definition matches :: "string \<Rightarrow> string \<Rightarrow> pyfloat \<Rightarrow> Mandate \<Rightarrow> bool" where
  "matches sid br now a \<longleftrightarrow> strategy_id a = sid \<and> broker a = br \<and> is_active now a"

definition pick :: "(string, Mandate) dict \<Rightarrow> string \<Rightarrow> string \<Rightarrow> pyfloat \<Rightarrow> Mandate option \<Rightarrow> string \<Rightarrow> Mandate option" where
  "pick A sid br now res k =
     (case dict_get A k of None \<Rightarrow> res | Some a \<Rightarrow> if matches sid br now a then Some a else res)"

lemma pick_cong: "\<forall>k \<in> set ks. dict_get A k = dict_get B k \<Longrightarrow> foldl (pick A sid br now) res ks = foldl (pick B sid br now) res ks"
  by (rule foldl_cong) (simp_all add: pick_def)

lemma scan_pick:
  "scan E sid br now ks res e s = (Inr (r, e'), s') \<Longrightarrow> distinct ks \<Longrightarrow> r = foldl (pick (auths s) sid br now) res ks"
proof (induction ks arbitrary: res e s)
  case (Cons k ks)
  show ?case
  proof (cases "dict_get (auths s) k")
    case None
    with Cons show ?thesis by (simp add: pick_def)
  next
    case (Some a)
    show ?thesis
    proof (cases "strategy_id a = sid \<and> broker a = br \<and> status a = STATUS_ACTIVE \<and> flt_le (expires_at a) now")
      case True
      then obtain u s2 where s2: "audit E ''EXPIRE'' [(''auth_id'', PStr (auth_id a))]
          (s\<lparr>auths := dict_set (auths s) k (expire_auth a)\<rparr>) = (Inr u, s2)"
        "scan E sid br now ks res True s2 = (Inr (r, e'), s')"
        using Cons.prems(1) Some by (auto split: prod.splits sum.splits)
      have "\<not> flt_lt now (expires_at a)"
        using True by (cases now; cases "expires_at a") auto
      then have "pick (auths s) sid br now res k = res" using Some by (simp add: pick_def matches_def is_active_def)
      moreover have "foldl (pick (auths s2) sid br now) res ks = foldl (pick (auths s) sid br now) res ks"
        using audit_auths [OF s2(1)] Cons.prems(2) by (intro pick_cong) auto
      ultimately show ?thesis using Cons.IH [OF s2(2)] Cons.prems(2) by simp
    next
      case False
      with Cons.prems Some have "scan E sid br now ks (pick (auths s) sid br now res k) e s = (Inr (r, e'), s')"
        by (auto simp: pick_def matches_def split: if_splits)
      with Cons show ?thesis by simp
    qed
  qed
qed simp

lemma foldl_pick:
  "foldl (pick A sid br now) res ks = Some a \<Longrightarrow>
   res = Some a \<or> (\<exists>k \<in> set ks. dict_get A k = Some a \<and> matches sid br now a)"
proof (induction ks arbitrary: res)
  case (Cons k ks)
  then have "pick A sid br now res k = Some a \<or> (\<exists>k \<in> set ks. dict_get A k = Some a \<and> matches sid br now a)" by simp
  then show ?case by (auto simp: pick_def split: option.splits if_splits)
qed simp

lemma foldl_pick_keeps: "res \<noteq> None \<Longrightarrow> foldl (pick A sid br now) res ks \<noteq> None"
proof (induction ks arbitrary: res)
  case (Cons k ks)
  have "pick A sid br now res k \<noteq> None" using Cons.prems by (auto simp: pick_def split: option.split)
  from Cons.IH [OF this] show ?case by simp
qed simp

lemma foldl_pick_Some:
  "k \<in> set ks \<Longrightarrow> dict_get A k = Some a \<Longrightarrow> matches sid br now a \<Longrightarrow> foldl (pick A sid br now) res ks \<noteq> None"
proof (induction ks arbitrary: res)
  case (Cons k' ks)
  show ?case
  proof (cases "k' = k")
    case True
    then have "pick A sid br now res k' \<noteq> None" using Cons.prems by (simp add: pick_def)
    from foldl_pick_keeps [OF this] show ?thesis by simp
  next
    case False
    with Cons show ?thesis by simp
  qed
qed simp

text \<open>With one active mandate at most, the loop finds it when there is one.\<close>

lemma active_for_finds:
  assumes "active_for E sid br now s = (Inr r, s')" and ok: "mandates_ok (auths s)"
  shows "r = Some a \<longleftrightarrow> a \<in> set (dict_values (auths s)) \<and> matches sid br now a"
proof -
  let ?A = "auths s"
  obtain e s1 where "scan E sid br now (dict_keys ?A) None False s = (Inr (r, e), s1)"
    using assms(1) by (auto simp: active_for_def split: prod.splits sum.splits if_splits)
  then have r: "r = foldl (pick ?A sid br now) None (dict_keys ?A)"
    using ok scan_pick by (auto simp: mandates_ok_def dict_ok_def)
  have val: "b \<in> set (dict_values ?A) \<longleftrightarrow> (\<exists>k. dict_get ?A k = Some b)" for b
    using ok by (force simp: mandates_ok_def dict_ok_def)
  have dom: "dict_get ?A k = Some b \<Longrightarrow> k \<in> set (dict_keys ?A)" for k b by (force dest: map_of_SomeD)
  show ?thesis
  proof
    assume "r = Some a"
    then have "\<exists>k \<in> set (dict_keys ?A). dict_get ?A k = Some a \<and> matches sid br now a"
      using foldl_pick [of ?A sid br now None "dict_keys ?A" a] r by simp
    then show "a \<in> set (dict_values ?A) \<and> matches sid br now a" using val by blast
  next
    assume a: "a \<in> set (dict_values ?A) \<and> matches sid br now a"
    then obtain k where k: "dict_get ?A k = Some a" using val by blast
    have "r \<noteq> None" unfolding r using foldl_pick_Some [OF dom [OF k] k] a by blast
    then obtain b where b: "r = Some b" by blast
    then obtain k' where k': "dict_get ?A k' = Some b" "matches sid br now b"
      using foldl_pick [of ?A sid br now None "dict_keys ?A" b] r by auto
    have "same_scope a b" "status a = STATUS_ACTIVE" "status b = STATUS_ACTIVE"
      using a k' by (auto simp: matches_def same_scope_def is_active_def)
    then have "k = k'" using ok k k' unfolding mandates_ok_def single_active_def by blast
    with k k' b show "r = Some a" by simp
  qed
qed

text \<open>What an allowed check promises of the mandate it used.\<close>

definition permits :: "la_env \<Rightarrow> pyfloat \<Rightarrow> check_args \<Rightarrow> Mandate \<Rightarrow> bool" where
  "permits E now c a \<longleftrightarrow>
     status a = STATUS_ACTIVE \<and> flt_lt now (expires_at a) \<and>
     strategy_id a = ca_strategy c \<and> broker a = norm_broker (ca_broker c) \<and>
     config_hash a = canonical_config_hash E (ca_config c) \<and>
     \<not> flt_lt (fadd (la_ops E) (max_turnover (limit_ceiling a)) eps9) (ca_turnover c) \<and>
     \<not> flt_lt (fadd (la_ops E) (max_notional (limit_ceiling a)) eps6) (ca_notional c) \<and>
     ca_orders c \<le> max_orders (limit_ceiling a) \<and>
     (\<forall>m. max_rebalances a = Some m \<longrightarrow> consumed_rebalances a < m) \<and>
     (\<forall>m. max_total_notional a = Some m \<longrightarrow>
        \<not> flt_lt (fadd (la_ops E) m eps6) (fadd (la_ops E) (consumed_notional a) (ca_notional c)))"

lemma denied_simps [simp]: "\<not> ac_allowed (denied r i)"
  by (simp add: denied_def)

lemma judge_allowed:
  assumes "judge E c cfg a s = (Inr r, s')"
  shows "ac_allowed r \<longleftrightarrow> config_hash a = cfg \<and>
     \<not> flt_lt (fadd (la_ops E) (max_turnover (limit_ceiling a)) eps9) (ca_turnover c) \<and>
     \<not> flt_lt (fadd (la_ops E) (max_notional (limit_ceiling a)) eps6) (ca_notional c) \<and>
     ca_orders c \<le> max_orders (limit_ceiling a) \<and>
     (\<forall>m. max_rebalances a = Some m \<longrightarrow> consumed_rebalances a < m) \<and>
     (\<forall>m. max_total_notional a = Some m \<longrightarrow>
        \<not> flt_lt (fadd (la_ops E) m eps6) (fadd (la_ops E) (consumed_notional a) (ca_notional c)))"
  using assms
  by (auto simp: judge_def Let_def reject_limit_def split: if_splits prod.splits sum.splits option.splits)

subsection \<open>The files keep up with the store\<close>

text \<open>A store whose file can be written and whose chain is good: no call fails, and all are saved.\<close>

definition sound :: "la_env \<Rightarrow> LiveStore \<Rightarrow> bool" where
  "sound E s \<longleftrightarrow> state_writable s \<and>
     good_chain (la_digests E) (la_rep E) (hc_key (chain s)) (hc_records (chain s))"

definition quiet :: "la_env \<Rightarrow> LiveStore \<Rightarrow> LiveStore \<Rightarrow> bool" where
  "quiet E s s' \<longleftrightarrow> sound E s' \<and> state_file s' = state_file s"

definition saved :: "LiveStore \<Rightarrow> bool" where
  "saved s \<longleftrightarrow> state_file s = State_file (dict_values (auths s)) \<or> (state_file s = No_state \<and> auths s = [])"

lemma sound_simps [simp]:
  "sound E (s\<lparr>auths := A\<rparr>) = sound E s" "sound E (s\<lparr>time_reads := n\<rparr>) = sound E s"
  "sound E (s\<lparr>state_file := f\<rparr>) = sound E s" "sound E (snd (tick s)) = sound E s"
  by (simp_all add: sound_def tick_def)

lemma tick_frame [simp]: "state_file (snd (tick s)) = state_file s"
  by (simp add: tick_def)

lemma quiet_refl [simp]: "quiet E s s = sound E s"
  by (simp add: quiet_def)

lemma audit_quiet:
  assumes "hex_digests (la_digests E)" and "sound E s"
  obtains s' where "audit E ev p s = (Inr (), s')" "quiet E s s'" "auths s' = auths s"
proof -
  define s2 where "s2 = snd (tick (snd (tick s)))"
  let ?e = "put_all [(''event'', PStr ev), (''at'', PFloat (fst (tick s))),
    (''at_iso'', PStr (la_iso E (fst (tick (snd (tick s))))))] p"
  have g: "good_chain (la_digests E) (la_rep E) (hc_key (chain s2)) (hc_records (chain s2))"
    using assms(2) by (simp add: sound_def s2_def tick_def)
  obtain r where r: "chain_append (la_digests E) (la_rep E) (chain s2) ?e =
      (Inr r, (chain s2)\<lparr>hc_records := hc_records (chain s2) @ [r]\<rparr>)"
    "good_chain (la_digests E) (la_rep E) (hc_key (chain s2)) (hc_records (chain s2) @ [r])"
    using chain_append_good [OF g assms(1)] by blast
  let ?s' = "snd (audit E ev p s)"
  have "audit E ev p s = (Inr (), ?s')" and c: "chain ?s' = (chain s2)\<lparr>hc_records := hc_records (chain s2) @ [r]\<rparr>"
    using r(1) unfolding audit_def Let_def prod.case_eq_if [where prod = "tick s"]
      prod.case_eq_if [where prod = "tick (snd (tick s))"] by (simp_all add: s2_def)
  moreover have "quiet E s ?s'"
    using r(2) assms(2) c by (simp add: quiet_def sound_def)
  ultimately show thesis using that by simp
qed

lemma save_saves:
  assumes "sound E s"
  obtains s' where "save_state s = (Inr (), s')" "sound E s'" "auths s' = auths s" "saved s'"
  using assms that by (simp add: save_state_def tick_def sound_def saved_def)

lemma audit_return_saved:
  assumes "hex_digests (la_digests E)" and "sound E s" "saved s"
  shows "sound E (snd (run_then (audit E ev p s) (\<lambda>s'. py_return x s'))) \<and>
    saved (snd (run_then (audit E ev p s) (\<lambda>s'. py_return x s')))"
proof -
  obtain s' where s': "audit E ev p s = (Inr (), s')" "quiet E s s'" "auths s' = auths s"
    by (rule audit_quiet [OF assms(1,2)])
  then show ?thesis using assms(3) by (simp add: quiet_def saved_def)
qed

lemma save_audit_saved:
  assumes "hex_digests (la_digests E)" and "sound E s"
  shows "sound E (snd (run_then (save_state s) (\<lambda>s2. run_then (audit E ev p s2) (\<lambda>s3. py_return x s3)))) \<and>
    saved (snd (run_then (save_state s) (\<lambda>s2. run_then (audit E ev p s2) (\<lambda>s3. py_return x s3))))"
proof -
  obtain s' where s': "save_state s = (Inr (), s')" "sound E s'" "saved s'" using save_saves [OF assms(2)] by metis
  show ?thesis using audit_return_saved [OF assms(1) s'(2,3)] s'(1) by simp
qed

lemma quiet_trans: "quiet E s s1 \<Longrightarrow> quiet E s1 s2 \<Longrightarrow> quiet E s s2"
  by (simp add: quiet_def)

lemma quiet_sound: "quiet E s s1 \<Longrightarrow> sound E s1"
  by (simp add: quiet_def)

lemma supersede_quiet:
  assumes "hex_digests (la_digests E)"
  shows "sound E s \<Longrightarrow> \<exists>s'. supersede E now n ks s = (Inr (), s') \<and> quiet E s s'"
proof (induction ks arbitrary: s)
  case (Cons k ks)
  show ?case
  proof (cases "\<exists>a. dict_get (auths s) k = Some a \<and> strategy_id a = strategy_id n \<and> broker a = broker n \<and> status a = STATUS_ACTIVE")
    case True
    then obtain a where a: "dict_get (auths s) k = Some a" "strategy_id a = strategy_id n" "broker a = broker n"
      "status a = STATUS_ACTIVE" by blast
    let ?s1 = "s\<lparr>auths := dict_set (auths s) k (revoked now ''superseded by new grant'' a)\<rparr>"
    obtain s2 where s2: "audit E ''SUPERSEDE'' [(''auth_id'', PStr (auth_id a))] ?s1 = (Inr (), s2)" "quiet E ?s1 s2"
      using audit_quiet [OF assms, of ?s1 "''SUPERSEDE''" "[(''auth_id'', PStr (auth_id a))]"] Cons.prems by auto
    then have q: "quiet E s s2" by (simp add: quiet_def)
    obtain s' where "supersede E now n ks s2 = (Inr (), s')" "quiet E s2 s'"
      using Cons.IH [OF quiet_sound [OF q]] by blast
    then show ?thesis using a s2(1) quiet_trans [OF q] by simp
  next
    case False
    then have "supersede E now n (k # ks) s = supersede E now n ks s" by (auto split: option.split)
    with Cons show ?thesis by simp
  qed
qed simp

lemma scan_quiet:
  assumes "hex_digests (la_digests E)"
  shows "sound E s \<Longrightarrow> \<exists>r e' s'. scan E sid br now ks res e s = (Inr (r, e'), s') \<and> quiet E s s' \<and>
    (\<not> e' \<longrightarrow> \<not> e \<and> auths s' = auths s)"
proof (induction ks arbitrary: s res e)
  case (Cons k ks)
  show ?case
  proof (cases "\<exists>a. dict_get (auths s) k = Some a \<and> strategy_id a = sid \<and> broker a = br \<and> status a = STATUS_ACTIVE \<and> flt_le (expires_at a) now")
    case True
    then obtain a where a: "dict_get (auths s) k = Some a" "strategy_id a = sid" "broker a = br"
      "status a = STATUS_ACTIVE" "flt_le (expires_at a) now" by blast
    let ?s1 = "s\<lparr>auths := dict_set (auths s) k (expire_auth a)\<rparr>"
    obtain s2 where s2: "audit E ''EXPIRE'' [(''auth_id'', PStr (auth_id a))] ?s1 = (Inr (), s2)" "quiet E ?s1 s2"
      using audit_quiet [OF assms, of ?s1 "''EXPIRE''" "[(''auth_id'', PStr (auth_id a))]"] Cons.prems by auto
    then have q: "quiet E s s2" by (simp add: quiet_def)
    obtain r e' s' where i: "scan E sid br now ks res True s2 = (Inr (r, e'), s')" "quiet E s2 s'" "e'"
      using Cons.IH [OF quiet_sound [OF q], of res True] by blast
    have "scan E sid br now (k # ks) res e s = (Inr (r, e'), s')" using a s2(1) i(1) by simp
    then show ?thesis using i(3) quiet_trans [OF q i(2)] by blast
  next
    case False
    then have "scan E sid br now (k # ks) res e s = scan E sid br now ks (pick (auths s) sid br now res k) e s"
      by (auto simp: pick_def matches_def is_active_def split: option.split)
    with Cons show ?thesis by metis
  qed
qed simp

lemma sweep_quiet:
  assumes "hex_digests (la_digests E)"
  shows "sound E s \<Longrightarrow> \<exists>e' s'. sweep E now ks e s = (Inr e', s') \<and> quiet E s s' \<and> (\<not> e' \<longrightarrow> \<not> e \<and> auths s' = auths s)"
proof (induction ks arbitrary: s e)
  case (Cons k ks)
  show ?case
  proof (cases "\<exists>a. dict_get (auths s) k = Some a \<and> status a = STATUS_ACTIVE \<and> flt_le (expires_at a) now")
    case True
    then obtain a where a: "dict_get (auths s) k = Some a" "status a = STATUS_ACTIVE" "flt_le (expires_at a) now" by blast
    let ?s1 = "s\<lparr>auths := dict_set (auths s) k (expire_auth a)\<rparr>"
    obtain s2 where s2: "audit E ''EXPIRE'' [(''auth_id'', PStr (auth_id a))] ?s1 = (Inr (), s2)" "quiet E ?s1 s2"
      using audit_quiet [OF assms, of ?s1 "''EXPIRE''" "[(''auth_id'', PStr (auth_id a))]"] Cons.prems by auto
    then have q: "quiet E s s2" by (simp add: quiet_def)
    obtain e' s' where i: "sweep E now ks True s2 = (Inr e', s')" "quiet E s2 s'" "e'"
      using Cons.IH [OF quiet_sound [OF q], of True] by blast
    have "sweep E now (k # ks) e s = (Inr e', s')" using a s2(1) i(1) by simp
    then show ?thesis using i(3) quiet_trans [OF q i(2)] by blast
  next
    case False
    then have "sweep E now (k # ks) e s = sweep E now ks e s" by (cases "dict_get (auths s) k") auto
    with Cons show ?thesis by metis
  qed
qed simp

lemma revoke_each_quiet:
  "sound E s \<Longrightarrow> quiet E s (snd (revoke_each r ks s)) \<and> 0 \<le> fst (revoke_each r ks s) \<and>
   (fst (revoke_each r ks s) = 0 \<longrightarrow> auths (snd (revoke_each r ks s)) = auths s)"
proof (induction ks arbitrary: s)
  case (Cons k ks)
  show ?case
  proof (cases "\<exists>a. dict_get (auths s) k = Some a \<and> status a = STATUS_ACTIVE")
    case True
    then obtain a where a: "dict_get (auths s) k = Some a" "status a = STATUS_ACTIVE" by blast
    let ?s1 = "(snd (tick s))\<lparr>auths := dict_set (auths s) k (revoked (fst (tick s)) r a)\<rparr>"
    have "sound E ?s1" using Cons.prems by simp
    from Cons.IH [OF this] a show ?thesis
      by (simp add: case_prod_unfold Let_def quiet_def)
  next
    case False
    then have "revoke_each r (k # ks) s = revoke_each r ks s" by (cases "dict_get (auths s) k") auto
    with Cons show ?thesis by metis
  qed
qed simp

lemma save_return_saved:
  assumes "sound E s"
  shows "sound E (snd (run_then (save_state s) (\<lambda>s2. py_return (x s2) s2))) \<and>
    saved (snd (run_then (save_state s) (\<lambda>s2. py_return (x s2) s2)))"
proof -
  obtain s' where "save_state s = (Inr (), s')" "sound E s'" "saved s'" using save_saves [OF assms] by metis
  then show ?thesis by simp
qed

lemma saved_tick [simp]: "saved (snd (tick s)) = saved s"
  by (simp add: saved_def)

lemma saved_quiet: "saved s \<Longrightarrow> quiet E s s' \<Longrightarrow> auths s' = auths s \<Longrightarrow> saved s'"
  by (simp add: saved_def quiet_def)

lemma enter_saved:
  assumes hex: "hex_digests (la_digests E)" and "sound E s"
  shows "sound E (snd (enter E a t by s)) \<and> saved (snd (enter E a t by s))"
proof -
  obtain s2 where s2: "supersede E t a (dict_keys (auths s)) s = (Inr (), s2)" "quiet E s s2"
    using supersede_quiet [OF hex assms(2), of t a "dict_keys (auths s)"] by blast
  have "sound E (set_auth a s2)" using quiet_sound [OF s2(2)] by (simp add: set_auth_def)
  from save_audit_saved [OF hex this] show ?thesis unfolding enter_def s2(1) by simp
qed

lemma grant_saved:
  assumes hex: "hex_digests (la_digests E)" and s: "sound E s" "saved s"
  shows "sound E (snd (grant E i g s)) \<and> saved (snd (grant E i g s))"
  unfolding grant_def Let_def prod.case_eq_if [where prod = "tick s"]
  using s by (simp add: enter_saved [OF hex] audit_return_saved [OF hex s])

lemma revoke_saved:
  assumes hex: "hex_digests (la_digests E)" and s: "sound E s" "saved s"
  shows "sound E (snd (revoke E i r s)) \<and> saved (snd (revoke E i r s))"
  unfolding revoke_def Let_def prod.case_eq_if [where prod = "tick s"]
  using s by (simp add: save_audit_saved [OF hex] split: option.split)

lemma revoke_all_saved:
  assumes hex: "hex_digests (la_digests E)" and s: "sound E s" "saved s"
  shows "sound E (snd (revoke_all E r s)) \<and> saved (snd (revoke_all E r s))"
proof -
  note q = revoke_each_quiet [OF s(1), of r "dict_keys (auths s)"]
  then have "fst (revoke_each r (dict_keys (auths s)) s) = 0 \<Longrightarrow> saved (snd (revoke_each r (dict_keys (auths s)) s))"
    using saved_quiet [OF s(2)] by blast
  moreover have "sound E (snd (revoke_each r (dict_keys (auths s)) s))" using q quiet_sound by blast
  ultimately show ?thesis
    unfolding revoke_all_def Let_def prod.case_eq_if [where prod = "revoke_each r (dict_keys (auths s)) s"]
    by (simp add: save_audit_saved [OF hex])
qed

lemma active_for_saved:
  assumes hex: "hex_digests (la_digests E)" and s: "sound E s" "saved s"
  obtains r s' where "active_for E sid br now s = (Inr r, s')" "sound E s'" "saved s'"
proof -
  obtain r e s1 where r: "scan E sid br now (dict_keys (auths s)) None False s = (Inr (r, e), s1)" "quiet E s s1"
    "\<not> e \<longrightarrow> auths s1 = auths s" using scan_quiet [OF hex s(1)] by metis
  obtain s2 where s2: "save_state s1 = (Inr (), s2)" "sound E s2" "saved s2" using save_saves [OF quiet_sound [OF r(2)]] by metis
  show thesis
  proof (cases e)
    case True
    with r(1) s2 show thesis using that [of r s2] by (simp add: active_for_def)
  next
    case False
    then have "saved s1" using r saved_quiet [OF s(2)] by blast
    with False r show thesis using that [of r s1] quiet_sound [OF r(2)] by (simp add: active_for_def)
  qed
qed

lemma judge_saved:
  assumes hex: "hex_digests (la_digests E)" and s: "sound E s" "saved s"
  shows "sound E (snd (judge E c cfg a s)) \<and> saved (snd (judge E c cfg a s))"
  unfolding judge_def Let_def reject_limit_def using s by (simp add: audit_return_saved [OF hex s])

lemma check_saved:
  assumes hex: "hex_digests (la_digests E)" and s: "sound E s" "saved s"
  shows "sound E (snd (check E c s)) \<and> saved (snd (check E c s))"
proof -
  obtain r s1 where r: "active_for E (ca_strategy c) (norm_broker (ca_broker c)) (fst (tick s)) (snd (tick s)) = (Inr r, s1)"
    "sound E s1" "saved s1" by (rule active_for_saved [OF hex, of "snd (tick s)"]) (use s in simp_all)
  show ?thesis
    unfolding check_def Let_def prod.case_eq_if [where prod = "tick s"] r(1)
    by (cases r) (simp_all add: judge_saved [OF hex r(2,3)] audit_return_saved [OF hex r(2,3)])
qed

lemma consume_saved:
  assumes hex: "hex_digests (la_digests E)" and s: "sound E s" "saved s"
  shows "sound E (snd (consume E i n k s)) \<and> saved (snd (consume E i n k s))"
  unfolding consume_def Let_def prod.case_eq_if [where prod = "tick s"]
  using s by (simp add: save_audit_saved [OF hex] split: option.split)

lemma status_saved:
  assumes hex: "hex_digests (la_digests E)" and s: "sound E s" "saved s"
  shows "sound E (snd (status_active E s)) \<and> saved (snd (status_active E s))"
proof -
  let ?s = "snd (tick s)"
  obtain e s1 where r: "sweep E (fst (tick s)) (dict_keys (auths ?s)) False ?s = (Inr e, s1)" "quiet E ?s s1"
    "\<not> e \<longrightarrow> auths s1 = auths ?s" using sweep_quiet [OF hex, of ?s] s(1) by fastforce
  have "\<not> e \<Longrightarrow> saved s1" using r s saved_quiet [of ?s E s1] by simp
  then show ?thesis
    unfolding status_active_def Let_def prod.case_eq_if [where prod = "tick s"] r(1)
    using quiet_sound [OF r(2)] by (simp add: save_return_saved)
qed

lemma run_saved:
  assumes hex: "hex_digests (la_digests E)"
  shows "sound E s \<Longrightarrow> saved s \<Longrightarrow> sound E (foldl (la_exec E) s cs) \<and> saved (foldl (la_exec E) s cs)"
proof (induction cs arbitrary: s)
  case (Cons c cs)
  have "sound E (la_exec E s c) \<and> saved (la_exec E s c)"
    using Cons.prems grant_saved [OF hex] revoke_saved [OF hex] revoke_all_saved [OF hex] check_saved [OF hex]
      consume_saved [OF hex] status_saved [OF hex]
    by (simp add: la_exec_def split: la_call.split)
  with Cons.IH show ?case by simp
qed simp

lemma load_append: "load_mandates (as @ [a]) = dict_set (load_mandates as) (auth_id a) a"
  by (simp add: load_mandates_def)

lemma load_values: "dict_ok A \<Longrightarrow> (\<And>k a. (k, a) \<in> set A \<Longrightarrow> auth_id a = k) \<Longrightarrow> load_mandates (dict_values A) = A"
proof (induction A rule: rev_induct)
  case Nil
  then show ?case by (simp add: load_mandates_def)
next
  case (snoc p A)
  obtain k a where p: "p = (k, a)" by fastforce
  have "dict_ok A" "k \<notin> set (dict_keys A)" using snoc.prems(1) p by (auto simp: dict_ok_def)
  then have "load_mandates (dict_values A) = A" "dict_get A k = None"
    using snoc by (auto simp: map_of_eq_None_iff)
  moreover have "auth_id a = k" using snoc.prems(2) p by simp
  ultimately show ?case by (simp add: p load_append dict_set_new)
qed

subsection \<open>Properties\<close>

text \<open>
  Refinement of the mandate life cycle.  Whatever a call returns or raises, its effect on the
  mandates is a sequence of life cycle steps, and only a confirmed grant for a real broker that this very
  call asked for lets a mandate in, after the active ones of its strategy and broker are gone.
\<close>

theorem store_refines_mandate_lifecycle:
  "mandate_steps E (\<lambda>i g. c = Do_grant i g) (auths s) (auths (la_exec E s c))"
  by (rule mandate_steps_mono [OF la_exec_steps [of E c "[]" s]]) (auto simp: asked_for_def)

text \<open>
  Whatever is called on a fresh store, at most one mandate of a strategy and broker is active, no
  mandate was used more often than its budget of rebalances allows, and an active one has one left.
\<close>

theorem mandates_stay_well_formed:
  assumes "fresh_store s"
  shows "mandates_ok (auths (foldl (la_exec E) s cs))"
  by (rule las.inv_reachable [OF assms])


text \<open>
  C1: the check on a store that any calls have led to allows a rebalance exactly when the store holds a
  mandate that permits it at the time read first: active and not past its end, of this strategy, broker and
  configuration, and with turnover, notional and number of orders within its ceilings and budgets.
\<close>

theorem check_allows_iff_permitted:
  assumes "fresh_store s0" and "s = foldl (la_exec E) s0 cs" and "check E c s = (Inr r, s')"
  shows "ac_allowed r \<longleftrightarrow> (\<exists>a \<in> set (dict_values (auths s)). permits E (time_fn s (time_reads s)) c a)"
proof -
  let ?now = "time_fn s (time_reads s)" and ?s = "snd (tick s)" and ?br = "norm_broker (ca_broker c)"
  have ok: "mandates_ok (auths ?s)" using las.inv_reachable [OF assms(1)] assms(2) by simp
  have now: "fst (tick s) = ?now" by (simp add: tick_def)
  obtain r1 s1 where r1: "active_for E (ca_strategy c) ?br ?now ?s = (Inr r1, s1)"
    using assms(3) unfolding check_def Let_def prod.case_eq_if [where prod = "tick s"] now
    by (auto split: prod.splits sum.splits)
  note finds = active_for_finds [OF r1 ok]
  have perm: "permits E ?now c a \<Longrightarrow> matches (ca_strategy c) ?br ?now a" for a
    by (simp add: permits_def matches_def is_active_def)
  show ?thesis
  proof (cases r1)
    case None
    then have "\<not> ac_allowed r"
      using assms(3) r1 unfolding check_def Let_def prod.case_eq_if [where prod = "tick s"] now
      by (auto split: prod.splits sum.splits)
    moreover have "\<not> (\<exists>a \<in> set (dict_values (auths s)). permits E ?now c a)"
      using finds None perm by auto
    ultimately show ?thesis by blast
  next
    case (Some a)
    have j: "judge E c (canonical_config_hash E (ca_config c)) a s1 = (Inr r, s')"
      using assms(3) r1 Some unfolding check_def Let_def prod.case_eq_if [where prod = "tick s"] now by simp
    have "a \<in> set (dict_values (auths s))" "matches (ca_strategy c) ?br ?now a" using finds [of a] Some by auto
    moreover have "b = a" if "b \<in> set (dict_values (auths s))" "permits E ?now c b" for b
      using finds [of b] perm that Some by auto
    ultimately have "(\<exists>b \<in> set (dict_values (auths s)). permits E ?now c b) \<longleftrightarrow> permits E ?now c a" by blast
    also have "\<dots> \<longleftrightarrow> ac_allowed r"
      unfolding judge_allowed [OF j] using \<open>matches (ca_strategy c) ?br ?now a\<close>
      by (auto simp: permits_def matches_def is_active_def)
    finally show ?thesis by simp
  qed
qed

text \<open>
  Restart.  On a state file that can be written, after any calls the file holds exactly the mandates
  in memory: a new store on the files of the old one, at any time, has the same mandates in the same order.
\<close>

theorem restart_restores_mandates:
  assumes "hex_digests (la_digests E)" and "fresh_store s" and "state_writable s"
    and "s' = foldl (la_exec E) s cs"
  shows "auths (init_store E key (state_file s') ae ls sw aw tf) = auths s'"
proof -
  have "sound E s" "saved s" using assms(2,3) by (simp_all add: sound_def saved_def fresh_store_def)
  then have "saved s'" using run_saved [OF assms(1)] assms(4) by blast
  moreover have "mandates_ok (auths s')" using las.inv_reachable [OF assms(2)] assms(4) by simp
  then have "load_mandates (dict_values (auths s')) = auths s'"
    by (intro load_values) (auto simp: mandates_ok_def dict_ok_get_iff)
  ultimately show ?thesis by (auto simp: saved_def init_store_def Let_def)
qed

lemma rebuild_appends:
  "rebuild E key ls = append_all (la_digests E) (la_rep E) \<lparr>hc_key = key, hc_records = []\<rparr>
     (map drop_links (List.map_filter id ls))"
proof -
  have "foldl (\<lambda>c l. case l of None \<Rightarrow> c | Some d \<Rightarrow> snd (chain_append (la_digests E) (la_rep E) c (drop_links d))) c ls =
      append_all (la_digests E) (la_rep E) c (map drop_links (List.map_filter id ls))" for c
    by (induction ls arbitrary: c) (auto simp: map_filter_simps split: option.split)
  then show ?thesis by (simp add: rebuild_def)
qed

text \<open>
  The keyed audit chain does not protect the audit file.  Loading recomputes the hashes of whatever
  lines it finds instead of comparing them with the recorded ones, so the report after a restart calls
  every audit file valid: edited, reordered or shortened ones too.
\<close>

theorem any_audit_file_verifies_after_restart:
  assumes "hex_digests (la_digests E)"
  shows "\<exists>n. verify_audit E (init_store E key (State_file as) True ls sw aw tf) = Inr (valid_result n)"
proof -
  note r = rebuild_appends [of E key ls]
  have "good_chain (la_digests E) (la_rep E) (hc_key (rebuild E key ls)) (hc_records (rebuild E key ls))"
    unfolding r using append_all_good [OF assms, of "la_rep E" "\<lparr>hc_key = key, hc_records = []\<rparr>"] by simp
  then show ?thesis
    by (auto simp: verify_audit_def chain_verify_def verify_chain_def init_store_def Let_def dest: verify_from_valid)
qed

text \<open>Concrete parameters, a grant and a check.\<close>

definition plain_env :: la_env where
  "plain_env = \<lparr>la_digests = const_digests, la_rep = (\<lambda>_. []), la_ops = exact_ops, la_iso = (\<lambda>_. []),
     la_round = (\<lambda>x. x), la_sha = (\<lambda>s. s), la_dump = (\<lambda>_. [])\<rparr>"

definition plain_store :: LiveStore where
  "plain_store = init_store plain_env None No_state False [] True True (\<lambda>n. Fin (of_nat n))"

definition plain_grant :: grant_args where
  "plain_grant = \<lparr>ga_strategy = ''s'', ga_config = PStr ''c'', ga_broker = ''Binance '',
     ga_ceiling = \<lparr>max_turnover = Fin 2, max_notional = Fin 1000, max_orders = 5\<rparr>, ga_ttl = 3600, ga_confirmation = ''t'',
     ga_expected = ''t'', ga_total = None, ga_rebalances = Some 1, ga_by = ''op'', ga_note = []\<rparr>"

definition plain_check :: check_args where
  "plain_check = \<lparr>ca_strategy = ''s'', ca_config = PStr ''c'', ca_broker = ''binance'', ca_turnover = Fin 1,
     ca_notional = Fin 1000, ca_orders = 5\<rparr>"

lemma fresh_plain: "fresh_store plain_store" "state_writable plain_store"
  by (simp_all add: plain_store_def fresh_init) (simp add: init_store_def Let_def)

lemma plain_hex: "hex_digests (la_digests plain_env)"
  by (simp add: plain_env_def hex_const_digests)

lemma plain_run:
  "map (\<lambda>a. (auth_id a, broker a, max_turnover (limit_ceiling a))) (dict_values (auths (foldl (la_exec plain_env) plain_store [Do_grant ''i'' plain_grant]))) =
     [(''i'', ''binance'', Fin 1)]"
  by code_simp

lemma plain_allowed:
  "map_sum (\<lambda>_. ()) ac_allowed (fst (check plain_env plain_check (foldl (la_exec plain_env) plain_store [Do_grant ''i'' plain_grant]))) = Inr True"
  by code_simp

abbreviation "plain_end \<equiv> foldl (la_exec plain_env) plain_store [Do_grant ''i'' plain_grant]"

theorem mandates_stay_well_formed_witness:
  "length (auths plain_end) = 1 \<and> mandates_ok (auths plain_end)"
proof -
  have "length (auths plain_end) = 1" using arg_cong [OF plain_run, of length] by simp
  with mandates_stay_well_formed [OF fresh_plain(1), of plain_env "[Do_grant ''i'' plain_grant]"] show ?thesis by simp
qed


theorem check_allows_iff_permitted_witness:
  "\<exists>a \<in> set (dict_values (auths plain_end)). permits plain_env (time_fn plain_end (time_reads plain_end)) plain_check a"
proof -
  obtain r s' where r: "check plain_env plain_check plain_end = (Inr r, s')" "ac_allowed r"
    using plain_allowed by (cases "check plain_env plain_check plain_end"; cases "fst (check plain_env plain_check plain_end)") auto
  from check_allows_iff_permitted [OF fresh_plain(1) refl r(1)] r(2) show ?thesis by simp
qed

theorem restart_restores_mandates_witness:
  "length (auths (init_store plain_env (Some ''k'') (state_file plain_end) True [] True True (\<lambda>_. Fin 0))) = 1"
proof -
  have "length (auths plain_end) = 1" using arg_cong [OF plain_run, of length] by simp
  then show ?thesis using restart_restores_mandates [where cs = "[Do_grant ''i'' plain_grant]", OF plain_hex fresh_plain refl] by simp
qed

theorem any_audit_file_verifies_after_restart_witness:
  "\<exists>n. verify_audit plain_env (init_store plain_env (Some ''k'') (State_file []) True
     [Some [(''event'', PStr ''GRANT''), (''seq'', PInt 7), (''entry_hash'', PStr ''forged'')]] True True (\<lambda>_. Fin 0)) = Inr (valid_result n)"
  using any_audit_file_verifies_after_restart [OF plain_hex] by blast

text \<open>
  What the modelling showed besides.  A budget of zero is taken for no budget; a NaN turnover or notional
  passes every ceiling; a grant that cannot be saved raises and yet is active in memory, with no GRANT in
  the audit.
\<close>

lemma zero_budget_is_unlimited:
  "ga_total g = Some (Fin 0) \<Longrightarrow> ga_rebalances g = Some 0 \<Longrightarrow>
   max_total_notional (new_mandate E i now g) = None \<and> max_rebalances (new_mandate E i now g) = None"
  by (simp add: new_mandate_def float_if_true_def int_if_true_def)

lemma nan_passes_ceilings:
  "ca_turnover c = NaN \<Longrightarrow> ca_notional c = NaN \<Longrightarrow>
   \<not> flt_lt (fadd (la_ops E) (max_turnover l) eps9) (ca_turnover c) \<and>
   \<not> flt_lt (fadd (la_ops E) (max_notional l) eps6) (ca_notional c)"
  by (cases "fadd (la_ops E) (max_turnover l) eps9"; cases "fadd (la_ops E) (max_notional l) eps6") simp_all

lemma unsaved_grant_is_active:
  assumes "fresh_store s" and "\<not> state_writable s" and "norm_broker (ga_broker g) \<noteq> ''sim_paper''"
    and "is_ascii (ga_confirmation g)" and "ga_expected g = ga_confirmation g"
  shows "fst (grant E i g s) = Inl Save_failed \<and>
    dict_get (auths (snd (grant E i g s))) i = Some (new_mandate E i (time_fn s (time_reads s)) g) \<and>
    status (new_mandate E i (time_fn s (time_reads s)) g) = STATUS_ACTIVE"
  using assms
  by (simp add: grant_def enter_def fresh_store_def tick_def save_state_def set_auth_def new_mandate_def)

text \<open>A notional the check allowed keeps the mandate within its budget when it is consumed at once.\<close>

lemma permitted_consumption_within_budget:
  assumes "permits E now c a" and "max_total_notional a = Some m" and "flt_lt (Fin 0) (ca_notional c)"
  shows "\<not> flt_lt (fadd (la_ops E) m eps6) (consumed_notional (use_mandate E (ca_notional c) a))"
  using assms by (simp add: permits_def use_mandate_def Let_def flt_max_def)

end
