(* ===== verification/Order_Intents.thy ===== *)
theory Order_Intents
  imports Prelude
begin

section \<open>Order intents\<close>

text \<open>
  Model of \<^verbatim>\<open>packages/shared/contracts/intent.py\<close>: what a strategy may ask for.  A
  \<^verbatim>\<open>UUID\<close> is its text, a \<^verbatim>\<open>Decimal\<close> the rational it denotes.  Reading an
  intent back from a dictionary uses the parsers of the standard library for decimals, identifiers and
  times, which are parameters.
\<close>

datatype IntentType =
    MARKET_ENTRY | MARKET_EXIT | LIMIT_ENTRY | LIMIT_EXIT | STOP_ENTRY | STOP_EXIT
  | ADJUST_POSITION | CLOSE_POSITION | FLATTEN_ALL | HOLD | NO_ACTION

definition all_intent_types :: "IntentType list" where
  "all_intent_types =
     [MARKET_ENTRY, MARKET_EXIT, LIMIT_ENTRY, LIMIT_EXIT, STOP_ENTRY, STOP_EXIT,
      ADJUST_POSITION, CLOSE_POSITION, FLATTEN_ALL, HOLD, NO_ACTION]"

fun IntentType_value :: "IntentType \<Rightarrow> string" where
  "IntentType_value MARKET_ENTRY = ''market_entry''"
| "IntentType_value MARKET_EXIT = ''market_exit''"
| "IntentType_value LIMIT_ENTRY = ''limit_entry''"
| "IntentType_value LIMIT_EXIT = ''limit_exit''"
| "IntentType_value STOP_ENTRY = ''stop_entry''"
| "IntentType_value STOP_EXIT = ''stop_exit''"
| "IntentType_value ADJUST_POSITION = ''adjust_position''"
| "IntentType_value CLOSE_POSITION = ''close_position''"
| "IntentType_value FLATTEN_ALL = ''flatten_all''"
| "IntentType_value HOLD = ''hold''"
| "IntentType_value NO_ACTION = ''no_action''"

datatype IntentSide = LONG | SHORT | FLAT

definition all_sides :: "IntentSide list" where
  "all_sides = [LONG, SHORT, FLAT]"

fun IntentSide_value :: "IntentSide \<Rightarrow> string" where
  "IntentSide_value LONG = ''long''"
| "IntentSide_value SHORT = ''short''"
| "IntentSide_value FLAT = ''flat''"

datatype IntentPriority = PRIO_LOW | PRIO_NORMAL | PRIO_HIGH | PRIO_URGENT

definition all_priorities :: "IntentPriority list" where
  "all_priorities = [PRIO_LOW, PRIO_NORMAL, PRIO_HIGH, PRIO_URGENT]"

fun IntentPriority_value :: "IntentPriority \<Rightarrow> string" where
  "IntentPriority_value PRIO_LOW = ''low''"
| "IntentPriority_value PRIO_NORMAL = ''normal''"
| "IntentPriority_value PRIO_HIGH = ''high''"
| "IntentPriority_value PRIO_URGENT = ''urgent''"

record OrderIntent =
  in_strategy :: string
  in_symbol :: string
  in_type :: IntentType
  in_side :: IntentSide
  target_quantity :: "rat option"
  target_notional :: "rat option"
  in_limit_price :: "rat option"
  in_stop_price :: "rat option"
  in_tif :: string
  in_urgency :: IntentPriority
  in_reason :: string
  in_metadata :: "(string, pyval) dict"
  in_created_at :: time
  in_expires_at :: "time option"
  intent_id :: string

definition is_entry :: "OrderIntent \<Rightarrow> bool" where
  "is_entry i = (in_type i \<in> {MARKET_ENTRY, LIMIT_ENTRY, STOP_ENTRY})"

definition is_exit :: "OrderIntent \<Rightarrow> bool" where
  "is_exit i = (in_type i \<in> {MARKET_EXIT, LIMIT_EXIT, STOP_EXIT, CLOSE_POSITION, FLATTEN_ALL})"

definition is_limit :: "OrderIntent \<Rightarrow> bool" where
  "is_limit i = (in_type i \<in> {LIMIT_ENTRY, LIMIT_EXIT})"

definition is_stop :: "OrderIntent \<Rightarrow> bool" where
  "is_stop i = (in_type i \<in> {STOP_ENTRY, STOP_EXIT})"

definition is_passive :: "OrderIntent \<Rightarrow> bool" where
  "is_passive i = (in_type i \<in> {HOLD, NO_ACTION})"

definition is_expired_intent :: "time \<Rightarrow> OrderIntent \<Rightarrow> bool" where
  "is_expired_intent now i = (case in_expires_at i of None \<Rightarrow> False | Some t \<Rightarrow> now > t)"

text \<open>\<^verbatim>\<open>x or Decimal("0")\<close> and the truth of an optional decimal.\<close>

definition dec_or_zero :: "rat option \<Rightarrow> rat" where
  "dec_or_zero x = (case x of None \<Rightarrow> 0 | Some q \<Rightarrow> q)"

definition dec_true :: "rat option \<Rightarrow> bool" where
  "dec_true x = (dec_or_zero x \<noteq> 0)"

lemma dec_simps [simp]: "dec_or_zero None = 0" "dec_or_zero (Some q) = q" "\<not> dec_true None" "dec_true (Some q) \<longleftrightarrow> q \<noteq> 0"
  by (simp_all add: dec_or_zero_def dec_true_def)

subsection \<open>Dictionaries of intents\<close>

definition dec_text :: "rat option \<Rightarrow> pyval" where
  "dec_text x = (if dec_true x then PStrOf (PDecimal (dec_or_zero x)) else PNone)"

definition intent_to_dict :: "OrderIntent \<Rightarrow> (string, pyval) dict" where
  "intent_to_dict i =
     [(''intent_id'', PStr (intent_id i)), (''strategy_id'', PStr (in_strategy i)), (''symbol'', PStr (in_symbol i)),
      (''intent_type'', PStr (IntentType_value (in_type i))), (''side'', PStr (IntentSide_value (in_side i))),
      (''target_quantity'', dec_text (target_quantity i)), (''target_notional'', dec_text (target_notional i)),
      (''limit_price'', dec_text (in_limit_price i)), (''stop_price'', dec_text (in_stop_price i)),
      (''time_in_force'', PStr (in_tif i)), (''urgency'', PStr (IntentPriority_value (in_urgency i))),
      (''reason'', PStr (in_reason i)), (''metadata'', PDict (in_metadata i)), (''created_at'', PIso (in_created_at i)),
      (''expires_at'', case in_expires_at i of None \<Rightarrow> PNone | Some t \<Rightarrow> PIso t)]"

text \<open>
  The parsers: \<^verbatim>\<open>Decimal(v)\<close>, \<^verbatim>\<open>UUID(v)\<close>, \<^verbatim>\<open>datetime.fromisoformat(v)\<close>; \<open>None\<close>
  where they raise.  A value that is to be a text and a metadata value that is to be a dictionary are
  taken as they are by Python; the model reads \<open>None\<close> where they are something else.
\<close>

record parsers =
  dec_of :: "pyval \<Rightarrow> rat option"
  uuid_of :: "pyval \<Rightarrow> string option"
  iso_of :: "pyval \<Rightarrow> time option"

definition enum_of :: "('a \<Rightarrow> string) \<Rightarrow> 'a list \<Rightarrow> pyval \<Rightarrow> 'a option" where
  "enum_of val xs v = find (\<lambda>x. PStr (val x) = v) xs"

definition text_of :: "pyval \<Rightarrow> string option" where
  "text_of v = (case v of PStr s \<Rightarrow> Some s | _ \<Rightarrow> None)"

definition dict_of :: "pyval \<Rightarrow> (string, pyval) dict option" where
  "dict_of v = (case v of PDict d \<Rightarrow> Some d | _ \<Rightarrow> None)"

definition get_default :: "(string, pyval) dict \<Rightarrow> string \<Rightarrow> pyval \<Rightarrow> pyval" where
  "get_default d k v = (case dict_get d k of None \<Rightarrow> v | Some x \<Rightarrow> x)"

text \<open>\<^verbatim>\<open>f(d[k]) if d.get(k) else None\<close>: the outer option is the exception.\<close>

definition opt_field :: "(pyval \<Rightarrow> 'a option) \<Rightarrow> (string, pyval) dict \<Rightarrow> string \<Rightarrow> 'a option option" where
  "opt_field f d k =
     (if py_truth (get_default d k PNone) then map_option Some (f (get_default d k PNone)) else Some None)"

definition intent_from_dict :: "parsers \<Rightarrow> string \<Rightarrow> time \<Rightarrow> (string, pyval) dict \<Rightarrow> OrderIntent option" where
  "intent_from_dict P new_id now d =
     (case (case dict_get d ''intent_id'' of None \<Rightarrow> Some new_id | Some v \<Rightarrow> uuid_of P v,
            Option.bind (dict_get d ''strategy_id'') text_of, Option.bind (dict_get d ''symbol'') text_of) of
        (Some i, Some st, Some sy) \<Rightarrow>
          (case (Option.bind (dict_get d ''intent_type'') (enum_of IntentType_value all_intent_types),
                 Option.bind (dict_get d ''side'') (enum_of IntentSide_value all_sides),
                 opt_field (dec_of P) d ''target_quantity'', opt_field (dec_of P) d ''target_notional'',
                 opt_field (dec_of P) d ''limit_price'', opt_field (dec_of P) d ''stop_price'') of
             (Some ty, Some sd, Some tq, Some tn, Some lp, Some sp) \<Rightarrow>
               (case (text_of (get_default d ''time_in_force'' (PStr ''GTC'')),
                      enum_of IntentPriority_value all_priorities (get_default d ''urgency'' (PStr ''normal'')),
                      text_of (get_default d ''reason'' (PStr [])), dict_of (get_default d ''metadata'' (PDict [])),
                      case dict_get d ''created_at'' of None \<Rightarrow> Some now | Some v \<Rightarrow> iso_of P v,
                      opt_field (iso_of P) d ''expires_at'') of
                  (Some tif, Some ur, Some rs, Some md, Some ca, Some ea) \<Rightarrow>
                    Some \<lparr>in_strategy = st, in_symbol = sy, in_type = ty, in_side = sd, target_quantity = tq,
                      target_notional = tn, in_limit_price = lp, in_stop_price = sp, in_tif = tif, in_urgency = ur,
                      in_reason = rs, in_metadata = md, in_created_at = ca, in_expires_at = ea, intent_id = i\<rparr>
                | _ \<Rightarrow> None)
           | _ \<Rightarrow> None)
      | _ \<Rightarrow> None)"

definition parsers_ok :: "parsers \<Rightarrow> bool" where
  "parsers_ok P \<longleftrightarrow>
     (\<forall>q. dec_of P (PStrOf (PDecimal q)) = Some q) \<and> (\<forall>t. iso_of P (PIso t) = Some t)"

lemma enum_of_type [simp]: "enum_of IntentType_value all_intent_types (PStr (IntentType_value t)) = Some t"
  by (cases t) (simp_all add: enum_of_def all_intent_types_def)

lemma enum_of_side [simp]: "enum_of IntentSide_value all_sides (PStr (IntentSide_value t)) = Some t"
  by (cases t) (simp_all add: enum_of_def all_sides_def)

lemma enum_of_priority [simp]: "enum_of IntentPriority_value all_priorities (PStr (IntentPriority_value t)) = Some t"
  by (cases t) (simp_all add: enum_of_def all_priorities_def)

text \<open>A quantity or price of zero is printed as nothing and read back as missing.\<close>

definition drop_zero :: "rat option \<Rightarrow> rat option" where
  "drop_zero x = (if dec_true x then x else None)"

lemma opt_field_dec:
  assumes "parsers_ok P" and "dict_get d k = Some (dec_text x)"
  shows "opt_field (dec_of P) d k = Some (drop_zero x)"
  using assms by (cases x) (auto simp: opt_field_def get_default_def dec_text_def drop_zero_def parsers_ok_def)

text \<open>
  An intent that is written to a dictionary and read back is the same intent, except that a
  quantity, notional or price of zero is lost.
\<close>

theorem intent_dict_roundtrip:
  assumes "parsers_ok P" and "uuid_of P (PStr (intent_id i)) = Some (intent_id i)"
  shows "intent_from_dict P new_id now (intent_to_dict i) =
    Some (i\<lparr>target_quantity := drop_zero (target_quantity i), target_notional := drop_zero (target_notional i),
           in_limit_price := drop_zero (in_limit_price i), in_stop_price := drop_zero (in_stop_price i)\<rparr>)"
proof -
  let ?d = "intent_to_dict i"
  have nums: "opt_field (dec_of P) ?d ''target_quantity'' = Some (drop_zero (target_quantity i))"
    "opt_field (dec_of P) ?d ''target_notional'' = Some (drop_zero (target_notional i))"
    "opt_field (dec_of P) ?d ''limit_price'' = Some (drop_zero (in_limit_price i))"
    "opt_field (dec_of P) ?d ''stop_price'' = Some (drop_zero (in_stop_price i))"
    by (rule opt_field_dec [OF assms(1)]; simp add: intent_to_dict_def)+
  have exp: "opt_field (iso_of P) ?d ''expires_at'' = Some (in_expires_at i)"
    using assms(1) by (cases "in_expires_at i") (auto simp: opt_field_def get_default_def intent_to_dict_def parsers_ok_def)
  have iso: "iso_of P (PIso (in_created_at i)) = Some (in_created_at i)"
    using assms(1) by (simp add: parsers_ok_def)
  show ?thesis
    unfolding intent_from_dict_def nums exp
    using assms(2) iso by (simp add: intent_to_dict_def get_default_def text_of_def dict_of_def)
qed

definition sample_parsers :: parsers where
  "sample_parsers =
     \<lparr>dec_of = (\<lambda>v. case v of PStrOf (PDecimal q) \<Rightarrow> Some q | _ \<Rightarrow> None), uuid_of = text_of,
      iso_of = (\<lambda>v. case v of PIso t \<Rightarrow> Some t | _ \<Rightarrow> None)\<rparr>"

definition sample_intent :: OrderIntent where
  "sample_intent =
     \<lparr>in_strategy = ''s'', in_symbol = ''BTC'', in_type = MARKET_ENTRY, in_side = LONG, target_quantity = Some 2,
      target_notional = None, in_limit_price = None, in_stop_price = None, in_tif = ''GTC'', in_urgency = PRIO_NORMAL,
      in_reason = [], in_metadata = [], in_created_at = 5, in_expires_at = None, intent_id = ''i1''\<rparr>"

theorem intent_dict_roundtrip_witness:
  "intent_from_dict sample_parsers ''x'' 9 (intent_to_dict (sample_intent\<lparr>in_limit_price := Some 0\<rparr>)) = Some sample_intent"
  using intent_dict_roundtrip [of sample_parsers "sample_intent\<lparr>in_limit_price := Some 0\<rparr>" "''x''" 9]
  by (simp add: parsers_ok_def sample_parsers_def text_of_def sample_intent_def drop_zero_def)

end
