(* ===== verification/Policy_Firewall.thy ===== *)
theory Policy_Firewall
  imports Order_Intents
begin

section \<open>The policy firewall\<close>

text \<open>
  Model of \<^verbatim>\<open>packages/agent/policy/firewall.py\<close>: the local limits, the limits of the cloud,
  the limits in force, the check of an intent and of a change of the configuration, the counters of
  orders.  Results of decimal arithmetic are rounded to the context by \<open>ctx\<close>.  The limits in force
  are kept as numbers: the code prints them and reads them back, which is exact.  Violations carry no
  time stamp here.  \<^verbatim>\<open>modified_intent\<close> is never set by the code.
\<close>

subsection \<open>Limits\<close>

record PolicyConfig =
  max_position_size :: rat
  max_position_pct :: rat
  max_daily_loss :: rat
  max_drawdown_pct :: rat
  max_order_size :: rat
  max_orders_per_minute :: int
  max_orders_per_day :: int
  allowed_symbols :: "string list option"
  prohibited_symbols :: "string list"
  allow_short :: bool
  allow_leverage :: bool
  allow_live_trading :: bool
  auto_approve_operational :: bool
  auto_approve_threshold :: rat

definition default_PolicyConfig :: PolicyConfig where
  "default_PolicyConfig =
     \<lparr>max_position_size = 1000000, max_position_pct = 1, max_daily_loss = 100000, max_drawdown_pct = 1 / 2,
      max_order_size = 100000, max_orders_per_minute = 60, max_orders_per_day = 10000, allowed_symbols = None,
      prohibited_symbols = [], allow_short = True, allow_leverage = True, allow_live_trading = True,
      auto_approve_operational = True, auto_approve_threshold = 0\<rparr>"

text \<open>The risk configuration of the cloud (\<^verbatim>\<open>packages/shared/contracts/config.py\<close>), its numbers.\<close>

record RiskConfig =
  rc_max_position_size :: rat
  rc_max_position_pct :: rat
  rc_max_daily_loss :: rat
  rc_max_daily_loss_pct :: rat
  rc_max_drawdown_pct :: rat
  rc_max_order_size :: rat
  rc_max_orders_per_minute :: int
  rc_max_orders_per_day :: int
  rc_max_gross_exposure :: rat
  rc_max_net_exposure :: rat
  rc_max_single_symbol_pct :: rat

definition default_RiskConfig :: RiskConfig where
  "default_RiskConfig =
     \<lparr>rc_max_position_size = 100000, rc_max_position_pct = 1 / 10, rc_max_daily_loss = 1000, rc_max_daily_loss_pct = 1 / 50,
      rc_max_drawdown_pct = 1 / 10, rc_max_order_size = 10000, rc_max_orders_per_minute = 10, rc_max_orders_per_day = 100,
      rc_max_gross_exposure = 1000000, rc_max_net_exposure = 500000, rc_max_single_symbol_pct = 1 / 4\<rparr>"

record Effective =
  eff_position :: rat
  eff_loss :: rat
  eff_order :: rat
  eff_minute :: int
  eff_day :: int

definition compute_effective_config :: "PolicyConfig \<Rightarrow> RiskConfig option \<Rightarrow> Effective" where
  "compute_effective_config l cloud =
     (case cloud of
        None \<Rightarrow>
          \<lparr>eff_position = max_position_size l, eff_loss = max_daily_loss l, eff_order = max_order_size l,
           eff_minute = max_orders_per_minute l, eff_day = max_orders_per_day l\<rparr>
      | Some c \<Rightarrow>
          \<lparr>eff_position = min (max_position_size l) (rc_max_position_size c),
           eff_loss = min (max_daily_loss l) (rc_max_daily_loss c),
           eff_order = min (max_order_size l) (rc_max_order_size c),
           eff_minute = min (max_orders_per_minute l) (rc_max_orders_per_minute c),
           eff_day = min (max_orders_per_day l) (rc_max_orders_per_day c)\<rparr>)"

subsection \<open>Violations\<close>

datatype ViolationType =
    HARD_CAP_EXCEEDED | RISK_LIMIT_EXCEEDED | PROHIBITED_SYMBOL | PROHIBITED_ACTION | RATE_LIMIT_EXCEEDED
  | UNAUTHORIZED_CHANGE | APPROVAL_REQUIRED

record PolicyViolation =
  violation_type :: ViolationType
  v_message :: pymsg
  v_field :: "string option"
  v_value :: pyval
  v_limit :: pyval
  v_severity :: string

definition violation :: "ViolationType \<Rightarrow> pymsg \<Rightarrow> string option \<Rightarrow> pyval \<Rightarrow> pyval \<Rightarrow> PolicyViolation" where
  "violation t m f v l = \<lparr>violation_type = t, v_message = m, v_field = f, v_value = v, v_limit = l, v_severity = ''error''\<rparr>"

record PolicyResult =
  pr_allowed :: bool
  violations :: "PolicyViolation list"
  pr_warnings :: "PolicyViolation list"

definition fresh_result :: PolicyResult where
  "fresh_result = \<lparr>pr_allowed = True, violations = [], pr_warnings = []\<rparr>"

definition add_violation :: "PolicyViolation \<Rightarrow> PolicyResult \<Rightarrow> PolicyResult" where
  "add_violation v r =
     (if v_severity v = ''warning'' then r\<lparr>pr_warnings := pr_warnings r @ [v]\<rparr>
      else r\<lparr>violations := violations r @ [v], pr_allowed := False\<rparr>)"

abbreviation add_if :: "bool \<Rightarrow> PolicyViolation \<Rightarrow> PolicyResult \<Rightarrow> PolicyResult" where
  "add_if b v r \<equiv> (if b then add_violation v r else r)"

subsection \<open>The firewall\<close>

record PolicyFirewall =
  local_policy :: PolicyConfig
  cloud_config :: "RiskConfig option"
  effective_config :: Effective
  pf_minute :: int
  pf_today :: int
  minute_start :: time
  pf_day_start :: time
  daily_pnl :: rat

definition day_floor :: "time \<Rightarrow> time" where
  "day_floor t = t - t mod 86400000000"

definition init_PolicyFirewall :: "PolicyConfig \<Rightarrow> RiskConfig option \<Rightarrow> time \<Rightarrow> time \<Rightarrow> PolicyFirewall" where
  "init_PolicyFirewall l c now1 now2 =
     \<lparr>local_policy = l, cloud_config = c, effective_config = compute_effective_config l c, pf_minute = 0, pf_today = 0,
      minute_start = now1, pf_day_start = day_floor now2, daily_pnl = 0\<rparr>"

definition check_symbol :: "PolicyConfig \<Rightarrow> string \<Rightarrow> PolicyResult \<Rightarrow> PolicyResult" where
  "check_symbol l s r =
     add_if (case allowed_symbols l of None \<Rightarrow> False | Some xs \<Rightarrow> s \<notin> set xs)
       (violation PROHIBITED_SYMBOL (FStr ''Symbol {} not in allowed list'' [PStr s]) (Some ''symbol'') (PStr s) PNone)
       (add_if (s \<in> set (prohibited_symbols l))
          (violation PROHIBITED_SYMBOL (FStr ''Symbol {} is prohibited'' [PStr s]) (Some ''symbol'') (PStr s) PNone) r)"

definition check_action :: "PolicyConfig \<Rightarrow> OrderIntent \<Rightarrow> PolicyResult \<Rightarrow> PolicyResult" where
  "check_action l i r =
     add_if (\<not> allow_live_trading l)
       (violation PROHIBITED_ACTION (FStr ''Live trading is disabled'' []) None PNone PNone)
       (add_if (\<not> allow_short l \<and> in_side i = SHORT)
          (violation PROHIBITED_ACTION (FStr ''Short selling is not allowed'' []) (Some ''side'')
             (PStr (IntentSide_value (in_side i))) PNone) r)"

definition check_quantity :: "Effective \<Rightarrow> rat \<Rightarrow> PolicyResult \<Rightarrow> PolicyResult" where
  "check_quantity e q r =
     add_if (q > eff_order e)
       (violation RISK_LIMIT_EXCEEDED (FStr ''Order size exceeds limit'' []) (Some ''quantity'') (PDecimal q)
          (PDecimal (eff_order e))) r"

definition new_position :: "(rat \<Rightarrow> rat) \<Rightarrow> IntentSide \<Rightarrow> rat \<Rightarrow> rat \<Rightarrow> rat" where
  "new_position ctx side current q =
     (case side of LONG \<Rightarrow> ctx (current + q) | SHORT \<Rightarrow> ctx (current - q) | FLAT \<Rightarrow> 0)"

definition check_position_limit ::
  "(rat \<Rightarrow> rat) \<Rightarrow> Effective \<Rightarrow> OrderIntent \<Rightarrow> rat \<Rightarrow> PolicyResult \<Rightarrow> PolicyResult" where
  "check_position_limit ctx e i current r =
     (let p = ctx \<bar>new_position ctx (in_side i) current (dec_or_zero (target_quantity i))\<bar> in
      add_if (p > eff_position e)
        (violation RISK_LIMIT_EXCEEDED (FStr ''Position would exceed limit'' []) (Some ''position'') (PDecimal p)
           (PDecimal (eff_position e))) r)"

definition check_rate_limits :: "PolicyFirewall \<Rightarrow> PolicyResult \<Rightarrow> PolicyResult" where
  "check_rate_limits fw r =
     (let e = effective_config fw in
      add_if (pf_today fw \<ge> eff_day e)
        (violation RATE_LIMIT_EXCEEDED (FStr ''Orders per day limit exceeded'' []) (Some ''orders_per_day'')
           (PInt (pf_today fw)) (PInt (eff_day e)))
        (add_if (pf_minute fw \<ge> eff_minute e)
           (violation RATE_LIMIT_EXCEEDED (FStr ''Orders per minute limit exceeded'' []) (Some ''orders_per_minute'')
              (PInt (pf_minute fw)) (PInt (eff_minute e))) r))"

definition check_intent :: "(rat \<Rightarrow> rat) \<Rightarrow> PolicyFirewall \<Rightarrow> OrderIntent \<Rightarrow> rat \<Rightarrow> PolicyResult" where
  "check_intent ctx fw i current =
     (if is_passive i then fresh_result
      else
        (let l = local_policy fw; e = effective_config fw;
             r1 = check_action l i (check_symbol l (in_symbol i) fresh_result);
             r2 = (if dec_true (target_quantity i) then check_quantity e (dec_or_zero (target_quantity i)) r1 else r1) in
         check_rate_limits fw (check_position_limit ctx e i current r2)))"

subsection \<open>Configurations of the cloud\<close>

definition exceeds :: "string \<Rightarrow> rat \<Rightarrow> rat \<Rightarrow> PolicyResult \<Rightarrow> PolicyResult" where
  "exceeds name cloud loc r =
     add_if (cloud > loc)
       (violation HARD_CAP_EXCEEDED (FStr (''Cloud config exceeds local '' @ name) []) (Some name) (PDecimal cloud) (PDecimal loc)) r"

definition check_config_change :: "PolicyFirewall \<Rightarrow> RiskConfig \<Rightarrow> bool \<Rightarrow> PolicyResult" where
  "check_config_change fw c trading_impacting =
     (let l = local_policy fw in
      add_if (trading_impacting \<and> \<not> auto_approve_threshold l > 0)
        \<lparr>violation_type = APPROVAL_REQUIRED, v_message = FStr ''Trading-impacting change requires local approval'' [],
         v_field = None, v_value = PNone, v_limit = PNone, v_severity = ''warning''\<rparr>
        (exceeds ''max_order_size'' (rc_max_order_size c) (max_order_size l)
          (exceeds ''max_daily_loss'' (rc_max_daily_loss c) (max_daily_loss l)
            (exceeds ''max_position_size'' (rc_max_position_size c) (max_position_size l) fresh_result))))"

definition apply_cloud_config :: "RiskConfig \<Rightarrow> PolicyFirewall \<Rightarrow> bool \<times> PolicyFirewall" where
  "apply_cloud_config c fw =
     (if \<not> pr_allowed (check_config_change fw c True) then (False, fw)
      else (True, fw\<lparr>cloud_config := Some c, effective_config := compute_effective_config (local_policy fw) (Some c)\<rparr>))"

subsection \<open>Profit and loss, counters\<close>

definition update_daily_pnl :: "(rat \<Rightarrow> rat) \<Rightarrow> rat \<Rightarrow> PolicyFirewall \<Rightarrow> PolicyResult \<times> PolicyFirewall" where
  "update_daily_pnl ctx change fw =
     (let pnl = ctx (daily_pnl fw + change); fw' = fw\<lparr>daily_pnl := pnl\<rparr>; l = local_policy fw in
      (add_if (pnl < ctx (- max_daily_loss l))
         \<lparr>violation_type = RISK_LIMIT_EXCEEDED, v_message = FStr ''Daily loss limit exceeded - KILL SWITCH'' [],
          v_field = Some ''daily_pnl'', v_value = PDecimal pnl, v_limit = PDecimal (max_daily_loss l), v_severity = ''critical''\<rparr>
         fresh_result,
       fw'))"

definition pf_record_order :: "time \<Rightarrow> PolicyFirewall \<Rightarrow> PolicyFirewall" where
  "pf_record_order now fw =
     (let fw1 = (if now - minute_start fw \<ge> seconds 60 then fw\<lparr>pf_minute := 0, minute_start := now\<rparr> else fw);
          today = day_floor now;
          fw2 = (if today > pf_day_start fw1 then fw1\<lparr>pf_today := 0, pf_day_start := today, daily_pnl := 0\<rparr> else fw1) in
      fw2\<lparr>pf_minute := pf_minute fw2 + 1, pf_today := pf_today fw2 + 1\<rparr>)"

subsection \<open>What a passed check says\<close>

text \<open>A result is allowed as long as it has no violation; warnings do not count.\<close>

lemma add_violation_allowed [simp]:
  "pr_allowed (add_violation v r) \<longleftrightarrow> v_severity v = ''warning'' \<and> pr_allowed r"
  by (simp add: add_violation_def)

lemma violation_error [simp]: "v_severity (violation t m f v l) = ''error''"
  by (simp add: violation_def)

lemma fresh_allowed [simp]: "pr_allowed fresh_result"
  by (simp add: fresh_result_def)

definition result_ok :: "PolicyResult \<Rightarrow> bool" where
  "result_ok r \<longleftrightarrow> (pr_allowed r \<longleftrightarrow> violations r = [])"

lemma result_ok_add [simp]: "result_ok r \<Longrightarrow> result_ok (add_violation v r)"
  by (simp add: result_ok_def add_violation_def)

lemma check_intent_ok: "result_ok (check_intent ctx fw i current)"
proof -
  have "result_ok fresh_result" by (simp add: result_ok_def fresh_result_def)
  then show ?thesis
    by (simp add: check_intent_def check_symbol_def check_action_def check_quantity_def check_position_limit_def
      check_rate_limits_def Let_def)
qed

definition policy_permits :: "(rat \<Rightarrow> rat) \<Rightarrow> PolicyFirewall \<Rightarrow> OrderIntent \<Rightarrow> rat \<Rightarrow> bool" where
  "policy_permits ctx fw i current \<longleftrightarrow>
     (let l = local_policy fw; e = effective_config fw in
      in_symbol i \<notin> set (prohibited_symbols l) \<and>
      (\<forall>xs. allowed_symbols l = Some xs \<longrightarrow> in_symbol i \<in> set xs) \<and>
      allow_live_trading l \<and> (in_side i = SHORT \<longrightarrow> allow_short l) \<and>
      (dec_true (target_quantity i) \<longrightarrow> dec_or_zero (target_quantity i) \<le> eff_order e) \<and>
      ctx \<bar>new_position ctx (in_side i) current (dec_or_zero (target_quantity i))\<bar> \<le> eff_position e \<and>
      pf_minute fw < eff_minute e \<and> pf_today fw < eff_day e)"

lemma check_intent_allowed:
  "\<not> is_passive i \<Longrightarrow> pr_allowed (check_intent ctx fw i current) \<longleftrightarrow> policy_permits ctx fw i current"
  by (auto simp: check_intent_def check_symbol_def check_action_def check_quantity_def check_position_limit_def
    check_rate_limits_def policy_permits_def Let_def not_less not_le split: option.splits)

subsection \<open>The cloud cannot loosen a limit\<close>

text \<open>
  The limits in force are never looser than the local ones: the invariant of the firewall, which holds
  for any configuration of the cloud, checked or not.
\<close>

definition tighter :: "PolicyFirewall \<Rightarrow> bool" where
  "tighter fw \<longleftrightarrow>
     (let l = local_policy fw; e = effective_config fw in
      eff_position e \<le> max_position_size l \<and> eff_loss e \<le> max_daily_loss l \<and> eff_order e \<le> max_order_size l \<and>
      eff_minute e \<le> max_orders_per_minute l \<and> eff_day e \<le> max_orders_per_day l)"

datatype fw_call = Cloud RiskConfig | Pnl rat | Recorded time

fun fw_exec :: "(rat \<Rightarrow> rat) \<Rightarrow> PolicyFirewall \<Rightarrow> fw_call \<Rightarrow> PolicyFirewall" where
  "fw_exec ctx fw (Cloud c) = snd (apply_cloud_config c fw)"
| "fw_exec ctx fw (Pnl x) = snd (update_daily_pnl ctx x fw)"
| "fw_exec ctx fw (Recorded now) = pf_record_order now fw"

lemma fw_exec_local [simp]: "local_policy (fw_exec ctx fw c) = local_policy fw"
  by (cases c) (simp_all add: apply_cloud_config_def update_daily_pnl_def pf_record_order_def Let_def)

definition fresh_firewall :: "PolicyConfig \<Rightarrow> PolicyFirewall \<Rightarrow> bool" where
  "fresh_firewall l fw \<longleftrightarrow> (\<exists>c now1 now2. fw = init_PolicyFirewall l c now1 now2)"

interpretation pfm: step_system "fresh_firewall l" "fw_exec ctx" "\<lambda>fw. tighter fw \<and> local_policy fw = l" for l ctx
proof unfold_locales
  show "fresh_firewall l s \<Longrightarrow> tighter s \<and> local_policy s = l" for s
    by (auto simp: fresh_firewall_def init_PolicyFirewall_def tighter_def compute_effective_config_def Let_def
      split: option.split)
next
  fix s :: PolicyFirewall and c
  assume "tighter s \<and> local_policy s = l"
  then show "tighter (fw_exec ctx s c) \<and> local_policy (fw_exec ctx s c) = l"
    by (cases c) (auto simp: tighter_def apply_cloud_config_def update_daily_pnl_def pf_record_order_def
      compute_effective_config_def Let_def)
qed



text \<open>
  A change of the cloud that needs an approval is applied without one: the missing approval is a
  warning, and warnings do not count.
\<close>

lemma cloud_config_applied_without_approval:
  assumes "rc_max_position_size c \<le> max_position_size (local_policy fw)"
    and "rc_max_daily_loss c \<le> max_daily_loss (local_policy fw)" and "rc_max_order_size c \<le> max_order_size (local_policy fw)"
    and "auto_approve_threshold (local_policy fw) = 0"
  shows "violation_type (hd (pr_warnings (check_config_change fw c True))) = APPROVAL_REQUIRED \<and>
    fst (apply_cloud_config c fw)"
  using assms by (simp add: apply_cloud_config_def check_config_change_def exceeds_def Let_def add_violation_def fresh_result_def)

end
