(* ===== verification/Hard_Caps.thy ===== *)
theory Hard_Caps
  imports Policy_Firewall
begin

section \<open>The hard caps\<close>

text \<open>
  Model of \<^verbatim>\<open>packages/agent/policy/hard_caps.py\<close>.  Violations carry no time stamp here.  The
  enforcer never stores a violation, so its list is left out.
\<close>

record HardCaps =
  absolute_max_position :: rat
  absolute_max_position_pct :: rat
  absolute_max_daily_loss :: rat
  absolute_max_daily_loss_pct :: rat
  absolute_max_drawdown_pct :: rat
  absolute_max_order_size :: rat
  absolute_max_orders_per_second :: int
  absolute_max_orders_per_day :: int
  absolute_max_gross_exposure :: rat
  absolute_max_leverage :: rat
  kill_switch_loss_pct :: rat
  kill_switch_error_count :: int
  kill_switch_latency_ms :: int

definition default_HardCaps :: HardCaps where
  "default_HardCaps =
     \<lparr>absolute_max_position = 10000000, absolute_max_position_pct = 1, absolute_max_daily_loss = 1000000,
      absolute_max_daily_loss_pct = 1 / 2, absolute_max_drawdown_pct = 3 / 4, absolute_max_order_size = 1000000,
      absolute_max_orders_per_second = 10, absolute_max_orders_per_day = 100000, absolute_max_gross_exposure = 100000000,
      absolute_max_leverage = 10, kill_switch_loss_pct = 3 / 10, kill_switch_error_count = 10, kill_switch_latency_ms = 5000\<rparr>"

datatype cap_action = Reject | Kill | Halt

record HardCapViolation =
  cap_name :: string
  cap_message :: string
  cap_current :: pyval
  cap_limit :: pyval
  cap_do :: cap_action

definition cap :: "string \<Rightarrow> string \<Rightarrow> pyval \<Rightarrow> pyval \<Rightarrow> cap_action \<Rightarrow> HardCapViolation option" where
  "cap n m v l a = Some \<lparr>cap_name = n, cap_message = m, cap_current = v, cap_limit = l, cap_do = a\<rparr>"

record HardCapEnforcer =
  caps :: HardCaps
  hc_second :: int
  hc_today :: int
  hc_errors :: int
  hc_second_start :: time
  hc_day_start :: time

definition init_HardCapEnforcer :: "HardCaps \<Rightarrow> time \<Rightarrow> time \<Rightarrow> HardCapEnforcer" where
  "init_HardCapEnforcer c now1 now2 =
     \<lparr>caps = c, hc_second = 0, hc_today = 0, hc_errors = 0, hc_second_start = now1, hc_day_start = day_floor now2\<rparr>"

subsection \<open>Checks\<close>

definition check_order_size :: "HardCaps \<Rightarrow> rat \<Rightarrow> HardCapViolation option" where
  "check_order_size c q =
     (if q > absolute_max_order_size c
      then cap ''absolute_max_order_size'' ''Order size exceeds absolute maximum'' (PDecimal q)
             (PDecimal (absolute_max_order_size c)) Reject
      else None)"

definition check_position_size :: "(rat \<Rightarrow> rat) \<Rightarrow> HardCaps \<Rightarrow> rat \<Rightarrow> rat option \<Rightarrow> HardCapViolation option" where
  "check_position_size ctx c p equity =
     (if ctx \<bar>p\<bar> > absolute_max_position c
      then cap ''absolute_max_position'' ''Position exceeds absolute maximum'' (PDecimal p)
             (PDecimal (absolute_max_position c)) Reject
      else if dec_true equity \<and> dec_or_zero equity > 0 then
        (let pct = ctx (ctx \<bar>p\<bar> / dec_or_zero equity) in
         if pct > absolute_max_position_pct c
         then cap ''absolute_max_position_pct'' ''Position exceeds maximum percentage of equity'' (PDecimal pct)
                (PDecimal (absolute_max_position_pct c)) Reject
         else None)
      else None)"

definition check_daily_loss :: "(rat \<Rightarrow> rat) \<Rightarrow> HardCaps \<Rightarrow> rat \<Rightarrow> rat \<Rightarrow> HardCapViolation option" where
  "check_daily_loss ctx c pnl equity =
     (if pnl < ctx (- absolute_max_daily_loss c)
      then cap ''absolute_max_daily_loss'' ''Daily loss exceeds absolute maximum - KILL SWITCH'' (PDecimal pnl)
             (PDecimal (absolute_max_daily_loss c)) Kill
      else if equity > 0 then
        (let pct = ctx (ctx (- pnl) / equity) in
         if pct > absolute_max_daily_loss_pct c
         then cap ''absolute_max_daily_loss_pct'' ''Daily loss percentage exceeds maximum - KILL SWITCH'' (PDecimal pct)
                (PDecimal (absolute_max_daily_loss_pct c)) Kill
         else if pct > kill_switch_loss_pct c
         then cap ''kill_switch_loss_pct'' ''Loss threshold reached - KILL SWITCH'' (PDecimal pct)
                (PDecimal (kill_switch_loss_pct c)) Kill
         else None)
      else None)"

definition check_drawdown :: "(rat \<Rightarrow> rat) \<Rightarrow> HardCaps \<Rightarrow> rat \<Rightarrow> rat \<Rightarrow> HardCapViolation option" where
  "check_drawdown ctx c current peak =
     (if peak \<le> 0 then None
      else
        (let dd = ctx (ctx (peak - current) / peak) in
         if dd > absolute_max_drawdown_pct c
         then cap ''absolute_max_drawdown_pct'' ''Drawdown exceeds absolute maximum - KILL SWITCH'' (PDecimal dd)
                (PDecimal (absolute_max_drawdown_pct c)) Kill
         else None))"

definition check_order_rate :: "time \<Rightarrow> HardCapEnforcer \<Rightarrow> HardCapViolation option \<times> HardCapEnforcer" where
  "check_order_rate now h =
     (let h1 = (if now - hc_second_start h \<ge> seconds 1 then h\<lparr>hc_second := 0, hc_second_start := now\<rparr> else h);
          today = day_floor now;
          h2 = (if today > hc_day_start h1 then h1\<lparr>hc_today := 0, hc_day_start := today\<rparr> else h1) in
      (if hc_second h2 \<ge> absolute_max_orders_per_second (caps h2)
       then cap ''absolute_max_orders_per_second'' ''Order rate exceeds maximum'' (PInt (hc_second h2))
              (PInt (absolute_max_orders_per_second (caps h2))) Reject
       else if hc_today h2 \<ge> absolute_max_orders_per_day (caps h2)
       then cap ''absolute_max_orders_per_day'' ''Daily order count exceeds maximum'' (PInt (hc_today h2))
              (PInt (absolute_max_orders_per_day (caps h2))) Halt
       else None,
       h2))"

definition check_leverage :: "(rat \<Rightarrow> rat) \<Rightarrow> HardCaps \<Rightarrow> rat \<Rightarrow> rat \<Rightarrow> HardCapViolation option" where
  "check_leverage ctx c gross equity =
     (if equity \<le> 0 then cap ''equity'' ''Invalid equity value'' (PDecimal equity) (PDecimal 0) Halt
      else if ctx (gross / equity) > absolute_max_leverage c
      then cap ''absolute_max_leverage'' ''Leverage exceeds maximum'' (PDecimal (ctx (gross / equity)))
             (PDecimal (absolute_max_leverage c)) Reject
      else if gross > absolute_max_gross_exposure c
      then cap ''absolute_max_gross_exposure'' ''Gross exposure exceeds maximum'' (PDecimal gross)
             (PDecimal (absolute_max_gross_exposure c)) Reject
      else None)"

definition check_error_count :: "HardCaps \<Rightarrow> int \<Rightarrow> HardCapViolation option" where
  "check_error_count c n =
     (if n \<ge> kill_switch_error_count c
      then cap ''kill_switch_error_count'' ''Error count threshold reached - KILL SWITCH'' (PInt n)
             (PInt (kill_switch_error_count c)) Kill
      else None)"

definition check_latency :: "HardCaps \<Rightarrow> int \<Rightarrow> HardCapViolation option" where
  "check_latency c ms =
     (if ms \<ge> kill_switch_latency_ms c
      then cap ''kill_switch_latency_ms'' ''Latency threshold reached - KILL SWITCH'' (PInt ms)
             (PInt (kill_switch_latency_ms c)) Kill
      else None)"

definition hc_record_order :: "HardCapEnforcer \<Rightarrow> HardCapEnforcer" where
  "hc_record_order h = h\<lparr>hc_second := hc_second h + 1, hc_today := hc_today h + 1\<rparr>"

definition hc_record_error :: "HardCapEnforcer \<Rightarrow> HardCapEnforcer" where
  "hc_record_error h = h\<lparr>hc_errors := hc_errors h + 1\<rparr>"

subsection \<open>What the checks say\<close>

lemma cap_not_None [simp]: "cap n m v l a \<noteq> None" "cap n m v l a = Some x \<longleftrightarrow> x = \<lparr>cap_name = n, cap_message = m, cap_current = v, cap_limit = l, cap_do = a\<rparr>"
  by (auto simp: cap_def)

lemma check_order_size_None: "check_order_size c q = None \<longleftrightarrow> q \<le> absolute_max_order_size c"
  by (simp add: check_order_size_def not_less)

text \<open>
  The loss check stops trading monotonically: with equity and caps as they are and a rounding that
  keeps the order, whenever it passes at some profit it passes at every larger one, and a violation
  always asks for the kill switch.
\<close>

theorem daily_loss_check_monotone:
  assumes "mono ctx" and "check_daily_loss ctx c pnl equity = None" and "pnl \<le> pnl'"
  shows "check_daily_loss ctx c pnl' equity = None"
proof -
  have "ctx (- pnl') \<le> ctx (- pnl)" using assms(1,3) by (simp add: monoD)
  then have "equity > 0 \<Longrightarrow> ctx (ctx (- pnl') / equity) \<le> ctx (ctx (- pnl) / equity)"
    using assms(1) by (simp add: monoD divide_right_mono)
  with assms(2,3) show ?thesis by (auto simp: check_daily_loss_def Let_def split: if_splits)
qed

theorem daily_loss_check_monotone_witness:
  "check_daily_loss (\<lambda>q. q) default_HardCaps 100 1000 = None"
  by (rule daily_loss_check_monotone [of _ _ "- 200"]) (simp_all add: mono_def check_daily_loss_def default_HardCaps_def Let_def)

lemma loss_violation_kills: "check_daily_loss ctx c pnl equity = Some v \<Longrightarrow> cap_do v = Kill"
  by (auto simp: check_daily_loss_def Let_def split: if_splits)

end
