(* ===== verification/Risk_Checker.thy ===== *)
theory Risk_Checker
  imports Hard_Caps
begin

section \<open>Pre-trade risk checks\<close>

text \<open>
  Model of \<^verbatim>\<open>packages/agent/policy/risk_checker.py\<close>.  The hour of the clock is an argument;
  \<open>ctx\<close> rounds results of decimal arithmetic.
\<close>

datatype RiskCheckType =
    POSITION_LIMIT | ORDER_SIZE | EXPOSURE | CONCENTRATION | MARGIN | BUYING_POWER | DAILY_LOSS | LEVERAGE
  | MAX_DRAWDOWN | RATE_LIMIT | SYMBOL_RESTRICTION | TIME_RESTRICTION

record PreTradeCheck =
  pc_type :: RiskCheckType
  pc_passed :: bool
  pc_message :: pymsg
  pc_current :: pyval
  pc_limit :: pyval
  pc_warning :: bool

record RiskCheckResult =
  rr_passed :: bool
  rr_checks :: "PreTradeCheck list"

definition add_check :: "PreTradeCheck \<Rightarrow> RiskCheckResult \<Rightarrow> RiskCheckResult" where
  "add_check c r =
     (let r' = r\<lparr>rr_checks := rr_checks r @ [c]\<rparr> in
      if \<not> pc_passed c \<and> \<not> pc_warning c then r'\<lparr>rr_passed := False\<rparr> else r')"

definition failed_checks :: "RiskCheckResult \<Rightarrow> PreTradeCheck list" where
  "failed_checks r = filter (\<lambda>c. \<not> pc_passed c \<and> \<not> pc_warning c) (rr_checks r)"

definition risk_warnings :: "RiskCheckResult \<Rightarrow> PreTradeCheck list" where
  "risk_warnings r = filter (\<lambda>c. \<not> pc_passed c \<and> pc_warning c) (rr_checks r)"

record PortfolioState =
  equity :: rat
  buying_power :: rat
  margin_used :: rat
  margin_available :: rat
  positions :: "(string, rat) dict"
  position_values :: "(string, rat) dict"
  gross_exposure :: rat
  net_exposure :: rat
  pt_daily_pnl :: rat
  peak_equity :: rat
  pt_orders_today :: int
  pt_orders_this_minute :: int

definition init_PortfolioState :: PortfolioState where
  "init_PortfolioState =
     \<lparr>equity = 100000, buying_power = 100000, margin_used = 0, margin_available = 100000, positions = [], position_values = [],
      gross_exposure = 0, net_exposure = 0, pt_daily_pnl = 0, peak_equity = 100000, pt_orders_today = 0,
      pt_orders_this_minute = 0\<rparr>"

definition get_position :: "PortfolioState \<Rightarrow> string \<Rightarrow> rat" where
  "get_position p s = (case dict_get (positions p) s of None \<Rightarrow> 0 | Some q \<Rightarrow> q)"

definition get_position_value :: "PortfolioState \<Rightarrow> string \<Rightarrow> rat" where
  "get_position_value p s = (case dict_get (position_values p) s of None \<Rightarrow> 0 | Some q \<Rightarrow> q)"

definition get_concentration :: "(rat \<Rightarrow> rat) \<Rightarrow> PortfolioState \<Rightarrow> string \<Rightarrow> rat" where
  "get_concentration ctx p s =
     (if equity p \<le> 0 then 0 else ctx (ctx \<bar>get_position_value p s\<bar> / equity p))"

record RiskChecker =
  rk_max_position_size :: rat
  rk_max_order_size :: rat
  rk_max_concentration_pct :: rat
  rk_max_daily_loss :: rat
  rk_max_orders_per_minute :: int
  rk_max_orders_per_day :: int
  rk_max_leverage :: "rat option"
  rk_max_drawdown_pct :: "rat option"
  restricted_symbols :: "string list"
  restricted_hours :: "(int \<times> int) list"

definition default_RiskChecker :: RiskChecker where
  "default_RiskChecker =
     \<lparr>rk_max_position_size = 100000, rk_max_order_size = 10000, rk_max_concentration_pct = 1 / 4, rk_max_daily_loss = 1000,
      rk_max_orders_per_minute = 10, rk_max_orders_per_day = 100, rk_max_leverage = None, rk_max_drawdown_pct = None,
      restricted_symbols = [], restricted_hours = []\<rparr>"

definition add_restricted_symbol :: "string \<Rightarrow> RiskChecker \<Rightarrow> RiskChecker" where
  "add_restricted_symbol s k =
     (if s \<in> set (restricted_symbols k) then k else k\<lparr>restricted_symbols := restricted_symbols k @ [s]\<rparr>)"

definition remove_restricted_symbol :: "string \<Rightarrow> RiskChecker \<Rightarrow> RiskChecker" where
  "remove_restricted_symbol s k = k\<lparr>restricted_symbols := filter (\<lambda>x. x \<noteq> s) (restricted_symbols k)\<rparr>"

definition add_restricted_hours :: "int \<Rightarrow> int \<Rightarrow> RiskChecker \<Rightarrow> RiskChecker" where
  "add_restricted_hours a b k = k\<lparr>restricted_hours := restricted_hours k @ [(a, b)]\<rparr>"

subsection \<open>The checks\<close>

definition passed :: "RiskCheckType \<Rightarrow> pyval \<Rightarrow> pyval \<Rightarrow> PreTradeCheck" where
  "passed t v l = \<lparr>pc_type = t, pc_passed = True, pc_message = FStr [] [], pc_current = v, pc_limit = l, pc_warning = False\<rparr>"

definition failed :: "RiskCheckType \<Rightarrow> pymsg \<Rightarrow> pyval \<Rightarrow> pyval \<Rightarrow> PreTradeCheck" where
  "failed t m v l = \<lparr>pc_type = t, pc_passed = False, pc_message = m, pc_current = v, pc_limit = l, pc_warning = False\<rparr>"

definition warned :: "RiskCheckType \<Rightarrow> pymsg \<Rightarrow> pyval \<Rightarrow> pyval \<Rightarrow> PreTradeCheck" where
  "warned t m v l = \<lparr>pc_type = t, pc_passed = False, pc_message = m, pc_current = v, pc_limit = l, pc_warning = True\<rparr>"

definition rk_order_size :: "RiskChecker \<Rightarrow> rat \<Rightarrow> PreTradeCheck" where
  "rk_order_size k q =
     (let m = rk_max_order_size k in
      if q > m then failed ORDER_SIZE (FStr ''Order size {} exceeds limit {}'' [PDecimal q, PDecimal m]) (PDecimal q) (PDecimal m)
      else passed ORDER_SIZE (PDecimal q) (PDecimal m))"

definition rk_position_limit :: "(rat \<Rightarrow> rat) \<Rightarrow> RiskChecker \<Rightarrow> OrderIntent \<Rightarrow> PortfolioState \<Rightarrow> rat \<Rightarrow> PreTradeCheck" where
  "rk_position_limit ctx k i p q =
     (let n = ctx \<bar>new_position ctx (in_side i) (get_position p (in_symbol i)) q\<bar>; m = rk_max_position_size k in
      if n > m
      then failed POSITION_LIMIT (FStr ''Position would exceed limit: {} > {}'' [PDecimal n, PDecimal m]) (PDecimal n) (PDecimal m)
      else passed POSITION_LIMIT (PDecimal n) (PDecimal m))"

definition rk_concentration :: "(rat \<Rightarrow> rat) \<Rightarrow> RiskChecker \<Rightarrow> string \<Rightarrow> PortfolioState \<Rightarrow> rat \<Rightarrow> PreTradeCheck" where
  "rk_concentration ctx k s p notional =
     (if equity p \<le> 0 then passed CONCENTRATION PNone PNone
      else
        (let n = ctx (ctx \<bar>ctx (get_position_value p s + notional)\<bar> / equity p); m = rk_max_concentration_pct k in
         if n > m
         then failed CONCENTRATION (FStr ''Concentration {:.1%} exceeds limit {:.1%}'' [PDecimal n, PDecimal m])
                (PDecimal n) (PDecimal m)
         else passed CONCENTRATION (PDecimal n) (PDecimal m)))"

definition rk_buying_power :: "(rat \<Rightarrow> rat) \<Rightarrow> OrderIntent \<Rightarrow> PortfolioState \<Rightarrow> rat \<Rightarrow> PreTradeCheck" where
  "rk_buying_power ctx i p notional =
     (if \<not> is_entry i then passed BUYING_POWER PNone PNone
      else if notional > buying_power p
      then failed BUYING_POWER (FStr ''Insufficient buying power: {} > {}'' [PDecimal notional, PDecimal (buying_power p)])
             (PDecimal notional) (PDecimal (buying_power p))
      else passed BUYING_POWER (PDecimal (ctx (buying_power p - notional))) (PDecimal (buying_power p)))"

definition rk_leverage :: "(rat \<Rightarrow> rat) \<Rightarrow> RiskChecker \<Rightarrow> OrderIntent \<Rightarrow> PortfolioState \<Rightarrow> rat \<Rightarrow> PreTradeCheck" where
  "rk_leverage ctx k i p notional =
     (case rk_max_leverage k of
        None \<Rightarrow> passed LEVERAGE PNone PNone
      | Some m \<Rightarrow>
          if is_exit i then passed LEVERAGE PNone PNone
          else if equity p \<le> 0 then failed LEVERAGE (FStr ''equity <= 0 - leverage undefined'' []) PNone (PDecimal m)
          else
            (let n = ctx (ctx (gross_exposure p + ctx \<bar>notional\<bar>) / equity p) in
             if n > m
             then failed LEVERAGE (FStr ''Leverage would reach {:.2f}x > cap {}x'' [PDecimal n, PDecimal m]) (PDecimal n) (PDecimal m)
             else if n > ctx (m * (9 / 10))
             then warned LEVERAGE (FStr ''Leverage approaching cap: {:.2f}x / {}x'' [PDecimal n, PDecimal m]) (PDecimal n) (PDecimal m)
             else passed LEVERAGE (PDecimal n) (PDecimal m)))"

definition rk_drawdown :: "(rat \<Rightarrow> rat) \<Rightarrow> RiskChecker \<Rightarrow> OrderIntent \<Rightarrow> PortfolioState \<Rightarrow> PreTradeCheck" where
  "rk_drawdown ctx k i p =
     (case rk_max_drawdown_pct k of
        None \<Rightarrow> passed MAX_DRAWDOWN PNone PNone
      | Some m \<Rightarrow>
          if is_exit i \<or> peak_equity p \<le> 0 then passed MAX_DRAWDOWN PNone PNone
          else
            (let dd = ctx (ctx (peak_equity p - equity p) / peak_equity p) in
             if dd > m
             then failed MAX_DRAWDOWN
                    (FStr ''Drawdown {:.1%} exceeds limit {:.1%} - new risk-increasing orders blocked'' [PDecimal dd, PDecimal m])
                    (PDecimal dd) (PDecimal m)
             else passed MAX_DRAWDOWN (PDecimal dd) (PDecimal m)))"

definition rk_daily_loss :: "(rat \<Rightarrow> rat) \<Rightarrow> RiskChecker \<Rightarrow> PortfolioState \<Rightarrow> PreTradeCheck" where
  "rk_daily_loss ctx k p =
     (let pnl = pt_daily_pnl p; m = rk_max_daily_loss k; l = ctx (- m) in
      if pnl < l
      then failed DAILY_LOSS (FStr ''Daily loss {} exceeds limit -{}'' [PDecimal pnl, PDecimal m]) (PDecimal pnl) (PDecimal l)
      else if pnl < ctx (l * (4 / 5))
      then warned DAILY_LOSS (FStr ''Daily loss approaching limit: {}'' [PDecimal pnl]) (PDecimal pnl) (PDecimal l)
      else passed DAILY_LOSS (PDecimal pnl) (PDecimal l))"

definition rk_rate_limits :: "RiskChecker \<Rightarrow> PortfolioState \<Rightarrow> PreTradeCheck" where
  "rk_rate_limits k p =
     (if pt_orders_this_minute p \<ge> rk_max_orders_per_minute k
      then failed RATE_LIMIT (FStr ''Orders per minute limit exceeded: {}'' [PInt (pt_orders_this_minute p)])
             (PInt (pt_orders_this_minute p)) (PInt (rk_max_orders_per_minute k))
      else if pt_orders_today p \<ge> rk_max_orders_per_day k
      then failed RATE_LIMIT (FStr ''Orders per day limit exceeded: {}'' [PInt (pt_orders_today p)])
             (PInt (pt_orders_today p)) (PInt (rk_max_orders_per_day k))
      else passed RATE_LIMIT PNone PNone)"

definition rk_symbol :: "RiskChecker \<Rightarrow> string \<Rightarrow> PreTradeCheck" where
  "rk_symbol k s =
     (if s \<in> set (restricted_symbols k) then failed SYMBOL_RESTRICTION (FStr ''Symbol {} is restricted'' [PStr s]) (PStr s) PNone
      else passed SYMBOL_RESTRICTION PNone PNone)"

fun rk_time :: "int \<Rightarrow> (int \<times> int) list \<Rightarrow> PreTradeCheck" where
  "rk_time hour [] = passed TIME_RESTRICTION PNone PNone"
| "rk_time hour ((a, b) # hs) =
     (if a \<le> hour \<and> hour < b
      then failed TIME_RESTRICTION (FStr ''Trading restricted during hours {}-{} UTC'' [PInt a, PInt b]) (PInt hour) PNone
      else rk_time hour hs)"

text \<open>The quantity and notional the checks use; a missing or zero price gives a notional of zero.\<close>

definition checked_quantity :: "(rat \<Rightarrow> rat) \<Rightarrow> OrderIntent \<Rightarrow> rat option \<Rightarrow> rat" where
  "checked_quantity ctx i price =
     (let q = dec_or_zero (target_quantity i) in
      if q = 0 \<and> dec_true (target_notional i) \<and> dec_true price \<and> dec_or_zero price > 0
      then ctx (dec_or_zero (target_notional i) / dec_or_zero price) else q)"

definition checked_notional :: "(rat \<Rightarrow> rat) \<Rightarrow> OrderIntent \<Rightarrow> rat option \<Rightarrow> rat" where
  "checked_notional ctx i price =
     (if dec_true price then ctx (checked_quantity ctx i price * dec_or_zero price) else 0)"

definition all_checks ::
  "(rat \<Rightarrow> rat) \<Rightarrow> RiskChecker \<Rightarrow> int \<Rightarrow> OrderIntent \<Rightarrow> PortfolioState \<Rightarrow> rat option \<Rightarrow> PreTradeCheck list" where
  "all_checks ctx k hour i p price =
     (let q = checked_quantity ctx i price; n = checked_notional ctx i price in
      [rk_order_size k q, rk_position_limit ctx k i p q, rk_concentration ctx k (in_symbol i) p n, rk_buying_power ctx i p n,
       rk_daily_loss ctx k p, rk_leverage ctx k i p n, rk_drawdown ctx k i p, rk_rate_limits k p, rk_symbol k (in_symbol i),
       rk_time hour (restricted_hours k)])"

definition risk_check ::
  "(rat \<Rightarrow> rat) \<Rightarrow> RiskChecker \<Rightarrow> int \<Rightarrow> OrderIntent \<Rightarrow> PortfolioState \<Rightarrow> rat option \<Rightarrow> RiskCheckResult" where
  "risk_check ctx k hour i p price =
     (let fresh = \<lparr>rr_passed = True, rr_checks = []\<rparr> in
      if is_passive i then fresh else foldl (\<lambda>r c. add_check c r) fresh (all_checks ctx k hour i p price))"

subsection \<open>What a passed check says\<close>

lemma add_checks:
  "rr_checks (foldl (\<lambda>r c. add_check c r) r cs) = rr_checks r @ cs \<and>
   (rr_passed (foldl (\<lambda>r c. add_check c r) r cs) \<longleftrightarrow> rr_passed r \<and> list_all (\<lambda>c. pc_passed c \<or> pc_warning c) cs)"
  by (induction cs arbitrary: r) (auto simp: add_check_def Let_def)

lemma risk_check_passed:
  "\<not> is_passive i \<Longrightarrow>
   rr_passed (risk_check ctx k hour i p price) \<longleftrightarrow> list_all (\<lambda>c. pc_passed c \<or> pc_warning c) (all_checks ctx k hour i p price)"
  using add_checks [of "\<lparr>rr_passed = True, rr_checks = []\<rparr>" "all_checks ctx k hour i p price"]
  by (simp add: risk_check_def Let_def)

lemma failed_checks_nonempty: "\<not> rr_passed (risk_check ctx k hour i p price) \<Longrightarrow> failed_checks (risk_check ctx k hour i p price) \<noteq> []"
  using add_checks [of "\<lparr>rr_passed = True, rr_checks = []\<rparr>" "all_checks ctx k hour i p price"]
  by (auto simp: risk_check_def Let_def failed_checks_def filter_empty_conv list_all_iff split: if_splits)

lemma check_results [simp]:
  "pc_passed (passed t v l)" "\<not> pc_passed (failed t m v l)" "\<not> pc_warning (failed t m v l)" "pc_warning (warned t m v l)"
  by (simp_all add: passed_def failed_def warned_def)

lemma rk_time_passed:
  "pc_passed (rk_time hour hs) \<or> pc_warning (rk_time hour hs) \<longleftrightarrow> (\<forall>(a, b) \<in> set hs. \<not> (a \<le> hour \<and> hour < b))"
  by (induction hs) (auto split: if_splits)

definition risk_permits ::
  "(rat \<Rightarrow> rat) \<Rightarrow> RiskChecker \<Rightarrow> int \<Rightarrow> OrderIntent \<Rightarrow> PortfolioState \<Rightarrow> rat option \<Rightarrow> bool" where
  "risk_permits ctx k hour i p price \<longleftrightarrow>
     (let q = checked_quantity ctx i price; n = checked_notional ctx i price in
      q \<le> rk_max_order_size k \<and>
      ctx \<bar>new_position ctx (in_side i) (get_position p (in_symbol i)) q\<bar> \<le> rk_max_position_size k \<and>
      (equity p > 0 \<longrightarrow>
         ctx (ctx \<bar>ctx (get_position_value p (in_symbol i) + n)\<bar> / equity p) \<le> rk_max_concentration_pct k) \<and>
      (is_entry i \<longrightarrow> n \<le> buying_power p) \<and>
      ctx (- rk_max_daily_loss k) \<le> pt_daily_pnl p \<and>
      (\<forall>m. rk_max_leverage k = Some m \<longrightarrow> \<not> is_exit i \<longrightarrow>
         equity p > 0 \<and> ctx (ctx (gross_exposure p + ctx \<bar>n\<bar>) / equity p) \<le> m) \<and>
      (\<forall>m. rk_max_drawdown_pct k = Some m \<longrightarrow> \<not> is_exit i \<longrightarrow> peak_equity p > 0 \<longrightarrow>
         ctx (ctx (peak_equity p - equity p) / peak_equity p) \<le> m) \<and>
      pt_orders_this_minute p < rk_max_orders_per_minute k \<and> pt_orders_today p < rk_max_orders_per_day k \<and>
      in_symbol i \<notin> set (restricted_symbols k) \<and>
      (\<forall>(a, b) \<in> set (restricted_hours k). \<not> (a \<le> hour \<and> hour < b)))"

abbreviation "clear c \<equiv> pc_passed c \<or> pc_warning c"

lemma clear_checks:
  "clear (rk_order_size k q) \<longleftrightarrow> q \<le> rk_max_order_size k"
  "clear (rk_position_limit ctx k i p q) \<longleftrightarrow>
     ctx \<bar>new_position ctx (in_side i) (get_position p (in_symbol i)) q\<bar> \<le> rk_max_position_size k"
  "clear (rk_concentration ctx k s p n) \<longleftrightarrow>
     (equity p > 0 \<longrightarrow> ctx (ctx \<bar>ctx (get_position_value p s + n)\<bar> / equity p) \<le> rk_max_concentration_pct k)"
  "clear (rk_buying_power ctx i p n) \<longleftrightarrow> (is_entry i \<longrightarrow> n \<le> buying_power p)"
  "clear (rk_daily_loss ctx k p) \<longleftrightarrow> ctx (- rk_max_daily_loss k) \<le> pt_daily_pnl p"
  "clear (rk_rate_limits k p) \<longleftrightarrow>
     pt_orders_this_minute p < rk_max_orders_per_minute k \<and> pt_orders_today p < rk_max_orders_per_day k"
  "clear (rk_symbol k s) \<longleftrightarrow> s \<notin> set (restricted_symbols k)"
  by (auto simp: rk_order_size_def rk_position_limit_def rk_concentration_def rk_buying_power_def rk_daily_loss_def
    rk_rate_limits_def rk_symbol_def Let_def)

lemma clear_leverage:
  "clear (rk_leverage ctx k i p n) \<longleftrightarrow>
   (\<forall>m. rk_max_leverage k = Some m \<longrightarrow> \<not> is_exit i \<longrightarrow>
      equity p > 0 \<and> ctx (ctx (gross_exposure p + ctx \<bar>n\<bar>) / equity p) \<le> m)"
  by (auto simp: rk_leverage_def Let_def split: option.split)

lemma clear_drawdown:
  "clear (rk_drawdown ctx k i p) \<longleftrightarrow>
   (\<forall>m. rk_max_drawdown_pct k = Some m \<longrightarrow> \<not> is_exit i \<longrightarrow> peak_equity p > 0 \<longrightarrow>
      ctx (ctx (peak_equity p - equity p) / peak_equity p) \<le> m)"
  by (auto simp: rk_drawdown_def Let_def split: option.split)

text \<open>
  C32: the result of the pre-trade check is exactly the conjunction of the ten limits: it passes when
  none of size, position, concentration, buying power, daily loss, leverage, drawdown, order rate, symbol
  and hour is violated; warnings do not count.
\<close>

theorem risk_check_passes_iff:
  assumes "\<not> is_passive i"
  shows "rr_passed (risk_check ctx k hour i p price) \<longleftrightarrow> risk_permits ctx k hour i p price"
  using risk_check_passed [OF assms]
  by (simp only: all_checks_def Let_def list.pred_inject clear_checks clear_leverage clear_drawdown rk_time_passed
    risk_permits_def simp_thms conj_assoc)

theorem risk_check_passes_iff_witness:
  "rr_passed (risk_check (\<lambda>q. q) default_RiskChecker 12 sample_intent init_PortfolioState (Some 100)) \<and>
   risk_permits (\<lambda>q. q) default_RiskChecker 12 sample_intent init_PortfolioState (Some 100)"
proof -
  have "rr_passed (risk_check (\<lambda>q. q) default_RiskChecker 12 sample_intent init_PortfolioState (Some 100))" by code_simp
  moreover have "\<not> is_passive sample_intent" by code_simp
  ultimately show ?thesis using risk_check_passes_iff by blast
qed

text \<open>
  Without a price the checks of notional, concentration, buying power and leverage see an order of
  nothing, whatever its size.
\<close>

lemma no_price_no_notional:
  "checked_notional ctx i None = 0"
  by (simp add: checked_notional_def)

end
