(* ===== verification/Order_Journal.thy ===== *)
theory Order_Journal
  imports Hash_Chain
begin

section \<open>The order journal\<close>

text \<open>
  Model of \<^verbatim>\<open>OrderJournal\<close> in \<^verbatim>\<open>packages/agent/reconciliation/journal.py\<close>: a table of
  orders with unique entry and client identifiers, and a table of audit events linked by hashes.  A
  table is the list of its rows in the order of insertion.  Quantities and prices are kept as the
  numbers their texts denote, metadata as the dictionary its JSON text denotes.  The database works:
  the only error is the violation of a uniqueness constraint.
\<close>

datatype JournalStatus = J_PENDING | J_SUBMITTED | J_CONFIRMED | J_REJECTED | J_CANCELLED | J_UNKNOWN

fun JournalStatus_value :: "JournalStatus \<Rightarrow> string" where
  "JournalStatus_value J_PENDING = ''pending''"
| "JournalStatus_value J_SUBMITTED = ''submitted''"
| "JournalStatus_value J_CONFIRMED = ''confirmed''"
| "JournalStatus_value J_REJECTED = ''rejected''"
| "JournalStatus_value J_CANCELLED = ''cancelled''"
| "JournalStatus_value J_UNKNOWN = ''unknown''"

record JournalEntry =
  je_entry_id :: string
  je_client_id :: string
  je_intent_id :: string
  je_symbol :: string
  je_side :: string
  je_quantity :: rat
  je_order_type :: string
  je_status :: JournalStatus
  je_broker_id :: "string option"
  je_filled :: rat
  je_avg_price :: "rat option"
  je_created :: time
  je_updated :: time
  je_metadata :: "(string, pyval) dict"

record AuditRow =
  ar_seq :: int
  ar_ts :: time
  ar_event :: string
  ar_client :: pyval
  ar_entry :: pyval
  ar_payload :: "(string, pyval) dict"
  ar_prev :: string
  ar_hash :: string

record OrderJournal =
  oj_orders :: "JournalEntry list"
  oj_audit :: "AuditRow list"
  oj_last_seq :: int
  oj_key :: "string option"

record journal_env =
  j_digests :: digests
  j_rep :: "pyval \<Rightarrow> string"

definition empty_journal :: "string option \<Rightarrow> OrderJournal" where
  "empty_journal key = \<lparr>oj_orders = [], oj_audit = [], oj_last_seq = 0, oj_key = key\<rparr>"

subsection \<open>The audit chain\<close>

definition audit_head_hash :: "OrderJournal \<Rightarrow> string" where
  "audit_head_hash j = (if oj_audit j = [] then GENESIS_HASH else ar_hash (last (oj_audit j)))"

definition pv_get :: "(string, pyval) dict \<Rightarrow> string \<Rightarrow> pyval" where
  "pv_get d k = (case dict_get d k of None \<Rightarrow> PNone | Some v \<Rightarrow> v)"

text \<open>
  A failure of the audit is swallowed.  The number in the hash is the count of rows, the one of the row
  is given by the database.  The payload is stored as JSON with sorted keys.
\<close>

definition append_audit ::
  "journal_env \<Rightarrow> time \<Rightarrow> string \<Rightarrow> (string, pyval) dict \<Rightarrow> OrderJournal \<Rightarrow> OrderJournal" where
  "append_audit J now event payload j =
     (let seq = int (length (oj_audit j)) + 1; prev = audit_head_hash j;
          body = put_all [(''event_type'', PStr event)] payload in
      case chain_hash (j_digests J) (j_rep J) prev body seq (oj_key j) of
        Inl _ \<Rightarrow> j
      | Inr h \<Rightarrow>
          j\<lparr>oj_audit := oj_audit j @
              [\<lparr>ar_seq = oj_last_seq j + 1, ar_ts = now, ar_event = event, ar_client = pv_get payload ''client_order_id'',
                ar_entry = pv_get payload ''entry_id'', ar_payload = sort_key fst body, ar_prev = prev, ar_hash = h\<rparr>],
            oj_last_seq := oj_last_seq j + 1\<rparr>)"

definition row_record :: "AuditRow \<Rightarrow> ChainRecord" where
  "row_record r = \<lparr>cr_seq = ar_seq r, cr_payload = ar_payload r, cr_prev_hash = ar_prev r, cr_entry_hash = ar_hash r\<rparr>"

definition verify_audit_chain :: "journal_env \<Rightarrow> OrderJournal \<Rightarrow> chain_error + verify_result \<times> bool \<times> string" where
  "verify_audit_chain J j =
     map_sum id (\<lambda>v. (v, oj_key j \<noteq> None, audit_head_hash j))
       (verify_chain (j_digests J) (j_rep J) (map row_record (oj_audit j)) (oj_key j))"

definition get_audit_events :: "int \<Rightarrow> OrderJournal \<Rightarrow> (int \<times> time \<times> string \<times> pyval \<times> pyval \<times> string) list" where
  "get_audit_events n j =
     limit_rows n (map (\<lambda>r. (ar_seq r, ar_ts r, ar_event r, ar_client r, ar_entry r, ar_hash r)) (rev (oj_audit j)))"

subsection \<open>Orders\<close>

datatype journal_error = Integrity_error

definition logged_payload :: "JournalEntry \<Rightarrow> (string, pyval) dict" where
  "logged_payload e =
     [(''client_order_id'', PStr (je_client_id e)), (''entry_id'', PStr (je_entry_id e)), (''intent_id'', PStr (je_intent_id e)),
      (''symbol'', PStr (je_symbol e)), (''side'', PStr (je_side e)), (''quantity'', PStrOf (PDecimal (je_quantity e))),
      (''order_type'', PStr (je_order_type e)), (''status'', PStr (JournalStatus_value (je_status e)))]"

definition is_duplicate :: "string \<Rightarrow> OrderJournal \<Rightarrow> bool" where
  "is_duplicate cid j = (\<exists>e \<in> set (oj_orders j). je_client_id e = cid)"

definition new_entry ::
  "string \<Rightarrow> time \<Rightarrow> time \<Rightarrow> string \<Rightarrow> string \<Rightarrow> string \<Rightarrow> string \<Rightarrow> rat \<Rightarrow> string \<Rightarrow> (string, pyval) dict \<Rightarrow> JournalEntry" where
  "new_entry eid now1 now2 cid iid symbol side q ot md =
     \<lparr>je_entry_id = eid, je_client_id = cid, je_intent_id = iid, je_symbol = symbol, je_side = side, je_quantity = q,
      je_order_type = ot, je_status = J_PENDING, je_broker_id = None, je_filled = 0, je_avg_price = None,
      je_created = now1, je_updated = now2, je_metadata = md\<rparr>"

definition log_order ::
  "journal_env \<Rightarrow> time \<Rightarrow> JournalEntry \<Rightarrow> OrderJournal \<Rightarrow> (journal_error, JournalEntry, OrderJournal) pyres" where
  "log_order J ts e j =
     (if \<exists>x \<in> set (oj_orders j). je_entry_id x = je_entry_id e \<or> je_client_id x = je_client_id e
      then py_raise Integrity_error j
      else py_return e (append_audit J ts ''order_logged'' (logged_payload e) (j\<lparr>oj_orders := oj_orders j @ [e]\<rparr>)))"

definition opt_keep :: "'a option \<Rightarrow> 'a option \<Rightarrow> 'a option" where
  "opt_keep new old = (case new of None \<Rightarrow> old | Some _ \<Rightarrow> new)"

definition set_entry ::
  "time \<Rightarrow> JournalStatus \<Rightarrow> string option \<Rightarrow> rat option \<Rightarrow> rat option \<Rightarrow> JournalEntry \<Rightarrow> JournalEntry" where
  "set_entry now st bid fq px e =
     e\<lparr>je_status := st, je_updated := now, je_broker_id := opt_keep bid (je_broker_id e),
       je_filled := (case fq of None \<Rightarrow> je_filled e | Some q \<Rightarrow> q), je_avg_price := opt_keep px (je_avg_price e)\<rparr>"

definition opt_text :: "rat option \<Rightarrow> pyval" where
  "opt_text x = (case x of None \<Rightarrow> PNone | Some q \<Rightarrow> PStrOf (PDecimal q))"

definition update_status ::
  "journal_env \<Rightarrow> time \<Rightarrow> time \<Rightarrow> string \<Rightarrow> JournalStatus \<Rightarrow> string option \<Rightarrow> rat option \<Rightarrow> rat option \<Rightarrow>
   OrderJournal \<Rightarrow> bool \<times> OrderJournal" where
  "update_status J now ts eid st bid fq px j =
     (if \<exists>e \<in> set (oj_orders j). je_entry_id e = eid
      then (True,
        append_audit J ts (''status_'' @ JournalStatus_value st)
          [(''entry_id'', PStr eid), (''status'', PStr (JournalStatus_value st)),
           (''broker_order_id'', case bid of None \<Rightarrow> PNone | Some b \<Rightarrow> PStr b), (''filled_quantity'', opt_text fq),
           (''avg_price'', opt_text px)]
          (j\<lparr>oj_orders := map (\<lambda>e. if je_entry_id e = eid then set_entry now st bid fq px e else e) (oj_orders j)\<rparr>))
      else (False, j))"

definition get_entry :: "string \<Rightarrow> OrderJournal \<Rightarrow> JournalEntry option" where
  "get_entry eid j = find (\<lambda>e. je_entry_id e = eid) (oj_orders j)"

definition get_by_client_id :: "string \<Rightarrow> OrderJournal \<Rightarrow> JournalEntry option" where
  "get_by_client_id cid j = find (\<lambda>e. je_client_id e = cid) (oj_orders j)"

definition get_all_entries :: "OrderJournal \<Rightarrow> JournalEntry list" where
  "get_all_entries j = sort_key je_created (oj_orders j)"

definition get_orders_with_status :: "JournalStatus list \<Rightarrow> OrderJournal \<Rightarrow> JournalEntry list" where
  "get_orders_with_status sts j = filter (\<lambda>e. je_status e \<in> set sts) (get_all_entries j)"

definition get_pending_orders :: "OrderJournal \<Rightarrow> JournalEntry list" where
  "get_pending_orders j = get_orders_with_status [J_PENDING, J_SUBMITTED] j"

definition get_unresolved_orders :: "OrderJournal \<Rightarrow> JournalEntry list" where
  "get_unresolved_orders j = get_orders_with_status [J_PENDING, J_SUBMITTED, J_UNKNOWN] j"

definition get_recent_orders :: "int \<Rightarrow> OrderJournal \<Rightarrow> JournalEntry list" where
  "get_recent_orders n j = limit_rows n (sort_key (\<lambda>e. - je_created e) (oj_orders j))"

subsection \<open>Invariants of the journal\<close>

definition journal_ok :: "journal_env \<Rightarrow> OrderJournal \<Rightarrow> bool" where
  "journal_ok J j \<longleftrightarrow>
     distinct (map je_client_id (oj_orders j)) \<and> distinct (map je_entry_id (oj_orders j)) \<and>
     oj_last_seq j = int (length (oj_audit j)) \<and>
     good_chain (j_digests J) (j_rep J) (oj_key j) (map row_record (oj_audit j))"

lemma sort_key_twice: "sort_key f (sort_key f xs) = sort_key f xs"
  by (rule sort_key_id_if_sorted) simp

lemma canonical_sorted [simp]: "canonical rep (sort_key fst d) = canonical rep d"
  by (simp add: canonical_def sort_key_twice)

lemma chain_msg_sorted [simp]: "chain_msg rep prev (sort_key fst d) n = chain_msg rep prev d n"
  by (simp add: chain_msg_def)

lemma append_audit_frame [simp]:
  "oj_orders (append_audit J now ev p j) = oj_orders j" "oj_key (append_audit J now ev p j) = oj_key j"
  by (simp_all add: append_audit_def Let_def split: sum.split)

lemma append_audit_ok:
  assumes "journal_ok J j"
  shows "journal_ok J (append_audit J now ev p j)"
proof -
  let ?seq = "int (length (oj_audit j)) + 1" and ?prev = "audit_head_hash j"
    and ?body = "put_all [(''event_type'', PStr ev)] p"
  show ?thesis
  proof (cases "chain_hash (j_digests J) (j_rep J) ?prev ?body ?seq (oj_key j)")
    case (Inl e)
    with assms show ?thesis by (simp add: append_audit_def)
  next
    case (Inr h)
    let ?row = "\<lparr>ar_seq = oj_last_seq j + 1, ar_ts = now, ar_event = ev, ar_client = pv_get p ''client_order_id'',
      ar_entry = pv_get p ''entry_id'', ar_payload = sort_key fst ?body, ar_prev = ?prev, ar_hash = h\<rparr>"
    have j': "append_audit J now ev p j = j\<lparr>oj_audit := oj_audit j @ [?row], oj_last_seq := oj_last_seq j + 1\<rparr>"
      by (simp add: append_audit_def Inr)
    have asc: "is_ascii ?prev" and h: "h = digest (j_digests J) (oj_key j) (chain_msg (j_rep J) ?prev ?body ?seq)"
      using Inr by (auto simp: chain_hash_def split: if_splits)
    let ?rs = "map row_record (oj_audit j)"
    have prev: "(if ?rs = [] then GENESIS_HASH else cr_entry_hash (last ?rs)) = ?prev"
      by (simp add: audit_head_hash_def last_map row_record_def)
    have seq: "oj_last_seq j + 1 = ?seq" "good_chain (j_digests J) (j_rep J) (oj_key j) ?rs"
      using assms by (simp_all add: journal_ok_def)
    have "good_chain (j_digests J) (j_rep J) (oj_key j) (?rs @ [row_record ?row])"
      unfolding linked_append prev using seq asc h by (simp add: row_record_def add.commute [of 1])
    with assms show ?thesis by (simp add: journal_ok_def j')
  qed
qed

lemma journal_ok_log: "journal_ok J j \<Longrightarrow> journal_ok J (snd (log_order J ts e j))"
proof -
  assume ok: "journal_ok J j"
  show ?thesis
  proof (cases "\<exists>x \<in> set (oj_orders j). je_entry_id x = je_entry_id e \<or> je_client_id x = je_client_id e")
    case True
    with ok show ?thesis by (simp add: log_order_def)
  next
    case False
    then have "journal_ok J (j\<lparr>oj_orders := oj_orders j @ [e]\<rparr>)" using ok by (auto simp: journal_ok_def)
    with False show ?thesis by (simp add: log_order_def append_audit_ok)
  qed
qed

lemma journal_ok_orders:
  "journal_ok J j \<Longrightarrow> map je_client_id os = map je_client_id (oj_orders j) \<Longrightarrow> map je_entry_id os = map je_entry_id (oj_orders j) \<Longrightarrow>
   journal_ok J (j\<lparr>oj_orders := os\<rparr>)"
  by (simp add: journal_ok_def)

lemma set_entry_ids [simp]:
  "je_client_id (set_entry now st bid fq px e) = je_client_id e" "je_entry_id (set_entry now st bid fq px e) = je_entry_id e"
  "je_metadata (set_entry now st bid fq px e) = je_metadata e" "je_created (set_entry now st bid fq px e) = je_created e"
  by (simp_all add: set_entry_def)

lemma journal_ok_update: "journal_ok J j \<Longrightarrow> journal_ok J (snd (update_status J now ts eid st bid fq px j))"
proof -
  assume ok: "journal_ok J j"
  let ?os = "map (\<lambda>e. if je_entry_id e = eid then set_entry now st bid fq px e else e) (oj_orders j)"
  have "map je_client_id ?os = map je_client_id (oj_orders j)" "map je_entry_id ?os = map je_entry_id (oj_orders j)"
    by simp_all
  from journal_ok_orders [OF ok this] show ?thesis using ok by (simp add: update_status_def append_audit_ok)
qed

lemma journal_ok_empty: "journal_ok J (empty_journal key)"
  by (simp add: journal_ok_def empty_journal_def)

lemma is_duplicate_iff: "is_duplicate cid j \<longleftrightarrow> cid \<in> set (map je_client_id (oj_orders j))"
  by (auto simp: is_duplicate_def)

lemma is_duplicate_get: "is_duplicate cid j \<longleftrightarrow> get_by_client_id cid j \<noteq> None"
  unfolding is_duplicate_def get_by_client_id_def find_None_iff by blast

subsection \<open>Calls\<close>

datatype oj_call =
    Log time JournalEntry
  | Update time time string JournalStatus "string option" "rat option" "rat option"

fun oj_exec :: "journal_env \<Rightarrow> OrderJournal \<Rightarrow> oj_call \<Rightarrow> OrderJournal" where
  "oj_exec J j (Log ts e) = snd (log_order J ts e j)"
| "oj_exec J j (Update now ts eid st bid fq px) = snd (update_status J now ts eid st bid fq px j)"

interpretation ojm: step_system "\<lambda>j. \<exists>key. j = empty_journal key" "oj_exec J" "journal_ok J" for J
proof unfold_locales
  show "\<exists>key. j = empty_journal key \<Longrightarrow> journal_ok J j" for j :: OrderJournal using journal_ok_empty by blast
next
  fix j :: OrderJournal and l assume "journal_ok J j"
  then show "journal_ok J (oj_exec J j l)" by (cases l) (simp_all add: journal_ok_log journal_ok_update)
qed

text \<open>
  Whatever orders and changes of status are journalled, client and entry identifiers stay unique and
  the audit table verifies: the linked hashes agree with the stored payloads, although these are stored
  with sorted keys and read back from their text.
\<close>

theorem journal_audit_verifies:
  "\<exists>n. verify_audit_chain J (foldl (oj_exec J) (empty_journal key) calls) =
     Inr (valid_result n, oj_key (foldl (oj_exec J) (empty_journal key) calls) \<noteq> None,
       audit_head_hash (foldl (oj_exec J) (empty_journal key) calls)) \<and>
   distinct (map je_client_id (oj_orders (foldl (oj_exec J) (empty_journal key) calls)))"
proof -
  have "journal_ok J (foldl (oj_exec J) (empty_journal key) calls)" by (rule ojm.inv_reachable) blast
  then have "good_chain (j_digests J) (j_rep J) (oj_key (foldl (oj_exec J) (empty_journal key) calls))
      (map row_record (oj_audit (foldl (oj_exec J) (empty_journal key) calls)))"
    "distinct (map je_client_id (oj_orders (foldl (oj_exec J) (empty_journal key) calls)))"
    by (simp_all add: journal_ok_def)
  then show ?thesis by (intro exI conjI) (simp_all add: verify_audit_chain_def verify_chain_def verify_from_valid)
qed

end
