(* ===== verification/Execution_Engine.thy ===== *)
theory Execution_Engine
  imports Risk_Checker Order_Journal Py_Float
begin

section \<open>The live execution engine\<close>

text \<open>
  Model of \<^verbatim>\<open>packages/agent/execution/engine.py\<close>: from an intent to an order at the broker,
  through the firewall, the hard caps, the risk checks and the price collar, with the journal written
  before the broker is asked.  Orders are objects which two dictionaries share: they live in a heap, an
  address is an index.  \<open>sent\<close> is what the broker was given, in order.  The answers of the
  broker and of the provider of volumes, random identifiers and clock readings are arguments.  The
  journal holds rows this code wrote (identifiers parse).  Results carry the order as it was when they
  were returned, and no time stamp.
\<close>

subsection \<open>Orders and results\<close>

datatype OrderStatus =
    O_PENDING | O_SUBMITTED | O_ACCEPTED | O_PARTIALLY_FILLED | O_FILLED | O_CANCELLED | O_REJECTED | O_EXPIRED | O_ERROR

fun OrderStatus_value :: "OrderStatus \<Rightarrow> string" where
  "OrderStatus_value O_PENDING = ''pending''"
| "OrderStatus_value O_SUBMITTED = ''submitted''"
| "OrderStatus_value O_ACCEPTED = ''accepted''"
| "OrderStatus_value O_PARTIALLY_FILLED = ''partially_filled''"
| "OrderStatus_value O_FILLED = ''filled''"
| "OrderStatus_value O_CANCELLED = ''cancelled''"
| "OrderStatus_value O_REJECTED = ''rejected''"
| "OrderStatus_value O_EXPIRED = ''expired''"
| "OrderStatus_value O_ERROR = ''error''"

datatype OrderType = T_MARKET | T_LIMIT | T_STOP | T_STOP_LIMIT

fun OrderType_value :: "OrderType \<Rightarrow> string" where
  "OrderType_value T_MARKET = ''market''"
| "OrderType_value T_LIMIT = ''limit''"
| "OrderType_value T_STOP = ''stop''"
| "OrderType_value T_STOP_LIMIT = ''stop_limit''"

definition order_type_of :: "string \<Rightarrow> OrderType option" where
  "order_type_of s = find (\<lambda>t. OrderType_value t = s) [T_MARKET, T_LIMIT, T_STOP, T_STOP_LIMIT]"

record Order =
  order_id :: string
  client_order_id :: string
  o_intent_id :: string
  o_symbol :: string
  o_side :: string
  order_type :: OrderType
  quantity :: rat
  limit_price :: "rat option"
  stop_price :: "rat option"
  time_in_force :: string
  o_status :: OrderStatus
  filled_quantity :: rat
  avg_fill_price :: "rat option"
  commission :: rat
  o_broker :: string
  broker_order_id :: "string option"
  created_at :: time
  submitted_at :: "time option"
  filled_at :: "time option"
  error_message :: "string option"

definition blank_order :: "string \<Rightarrow> time \<Rightarrow> Order" where
  "blank_order oid now =
     \<lparr>order_id = oid, client_order_id = [], o_intent_id = [], o_symbol = [], o_side = ''buy'', order_type = T_MARKET,
      quantity = 0, limit_price = None, stop_price = None, time_in_force = ''GTC'', o_status = O_PENDING,
      filled_quantity = 0, avg_fill_price = None, commission = 0, o_broker = [], broker_order_id = None,
      created_at = now, submitted_at = None, filled_at = None, error_message = None\<rparr>"

record ExecutionResult =
  er_success :: bool
  er_order :: "Order option"
  er_policy :: "PolicyResult option"
  er_error :: "pymsg option"

definition refused :: "pymsg \<Rightarrow> ExecutionResult" where
  "refused m = \<lparr>er_success = False, er_order = None, er_policy = None, er_error = Some m\<rparr>"

definition refused_order :: "Order \<Rightarrow> pymsg \<Rightarrow> ExecutionResult" where
  "refused_order x m = (refused m)\<lparr>er_order := Some x\<rparr>"

fun msg_val :: "pymsg \<Rightarrow> pyval" where
  "msg_val (FStr f vs) = PFormat f vs"

subsection \<open>The engine\<close>

record PriceCollarConfig =
  pcc_enabled :: bool
  max_price_distance_pct :: "pyfloat option"
  pcc_max_notional :: "pyfloat option"
  max_adv_participation :: "pyfloat option"
  has_adv_provider :: bool

record Engine =
  e_policy :: PolicyFirewall
  e_caps :: HardCapEnforcer
  e_risk :: RiskChecker
  has_submit :: bool
  has_cancel :: bool
  has_replace :: bool
  e_collar :: PriceCollarConfig
  broker_name :: string
  deployment_id :: string
  run_id :: string
  e_sequence :: int
  e_heap :: "Order list"
  orders :: "(string, nat) dict"
  orders_by_client_id :: "(string, nat) dict"
  e_journal :: OrderJournal
  entry_by_client_id :: "(string, string) dict"
  e_portfolio :: PortfolioState
  sent :: "Order list"

text \<open>Functions the engine uses: decimal rounding, SHA-256, floats and the conversion to them, the journal's.\<close>

record ex_env =
  x_ctx :: "rat \<Rightarrow> rat"
  x_sha :: "string \<Rightarrow> string"
  x_ops :: float_ops
  x_float :: "rat \<Rightarrow> pyfloat"
  x_journal :: journal_env

definition meta_int :: "pyval \<Rightarrow> int option" where
  "meta_int v = (case v of PInt n \<Rightarrow> Some n | PBool b \<Rightarrow> Some (if b then 1 else 0) | _ \<Rightarrow> None)"

definition meta_get :: "(string, pyval) dict \<Rightarrow> string \<Rightarrow> pyval \<Rightarrow> pyval" where
  "meta_get d k v = (case dict_get d k of None \<Rightarrow> v | Some x \<Rightarrow> x)"

text \<open>The highest number of the entries of this deployment and run.\<close>

definition seq_step :: "string \<Rightarrow> string \<Rightarrow> int \<Rightarrow> JournalEntry \<Rightarrow> int" where
  "seq_step dep run m e =
     (let md = je_metadata e in
      if meta_get md ''deployment_id'' (PStr []) = PStr dep \<and> meta_get md ''run_id'' (PStr []) = PStr run
      then case meta_int (meta_get md ''sequence'' (PInt 0)) of Some n \<Rightarrow> if n > m then n else m | None \<Rightarrow> m
      else m)"

definition recovered_sequence :: "string \<Rightarrow> string \<Rightarrow> OrderJournal \<Rightarrow> int" where
  "recovered_sequence dep run j = foldl (seq_step dep run) 0 (get_all_entries j)"

definition recover_sequence :: "Engine \<Rightarrow> Engine" where
  "recover_sequence e = e\<lparr>e_sequence := recovered_sequence (deployment_id e) (run_id e) (e_journal e)\<rparr>"

definition init_Engine ::
  "PolicyFirewall \<Rightarrow> HardCapEnforcer \<Rightarrow> RiskChecker \<Rightarrow> bool \<Rightarrow> bool \<Rightarrow> bool \<Rightarrow> PriceCollarConfig \<Rightarrow> string \<Rightarrow> OrderJournal \<Rightarrow>
   string \<Rightarrow> string \<Rightarrow> Order list \<Rightarrow> Engine" where
  "init_Engine fw hc rk sub can rep collar name j dep run given =
     recover_sequence
       \<lparr>e_policy = fw, e_caps = hc, e_risk = rk, has_submit = sub, has_cancel = can, has_replace = rep, e_collar = collar,
        broker_name = name, deployment_id = dep, run_id = run, e_sequence = 0, e_heap = [], orders = [],
        orders_by_client_id = [], e_journal = j, entry_by_client_id = [], e_portfolio = init_PortfolioState, sent = given\<rparr>"

definition compute_client_order_id :: "ex_env \<Rightarrow> Engine \<Rightarrow> OrderIntent \<Rightarrow> string" where
  "compute_client_order_id X e i =
     ''ccea_'' @ take 24 (x_sha X (''ccea|'' @ broker_name e @ ''|'' @ in_strategy i @ ''|'' @ intent_id i))"

definition intent_to_order :: "ex_env \<Rightarrow> Engine \<Rightarrow> string \<Rightarrow> time \<Rightarrow> OrderIntent \<Rightarrow> rat option \<Rightarrow> Order" where
  "intent_to_order X e oid now i price =
     (let q = dec_or_zero (target_quantity i) in
      (blank_order oid now)
        \<lparr>client_order_id := compute_client_order_id X e i, o_intent_id := intent_id i, o_symbol := in_symbol i,
         o_side := (if in_side i = LONG then ''buy'' else ''sell''),
         order_type := (if is_limit i then T_LIMIT else if is_stop i then T_STOP else T_MARKET),
         quantity := (if q = 0 \<and> dec_true (target_notional i) \<and> dec_true price
                      then x_ctx X (dec_or_zero (target_notional i) / dec_or_zero price) else q),
         limit_price := in_limit_price i, stop_price := in_stop_price i, time_in_force := in_tif i, o_broker := broker_name e\<rparr>)"

subsection \<open>The price collar\<close>

text \<open>The tolerance is the double nearest to \<open>10 ^ -12\<close>.\<close>

definition eps12 :: pyfloat where
  "eps12 = Fin (4951760157141521 / 4951760157141521099596496896)"

text \<open>\<open>adv\<close> is the answer of the provider: \<open>None\<close> when it raises, which ends the gate.\<close>

definition distance_block :: "ex_env \<Rightarrow> PriceCollarConfig \<Rightarrow> Order \<Rightarrow> rat option \<Rightarrow> pymsg option" where
  "distance_block X c x ref =
     (case (max_price_distance_pct c, limit_price x, ref) of
        (Some pct, Some lp, Some r) \<Rightarrow>
          if flt_lt (Fin 0) (x_float X r) then
            (let F = x_ops X; dist = fdiv F (flt_abs (fsub F (x_float X lp) (x_float X r))) (x_float X r) in
             if flt_lt (fadd F pct eps12) dist
             then Some (FStr ''limit {} is {:.1%} from reference {} (> {:.0%})'' [PDecimal lp, PFloat dist, PDecimal r, PFloat pct])
             else None)
          else None
      | _ \<Rightarrow> None)"

definition collar_notional :: "ex_env \<Rightarrow> Order \<Rightarrow> rat option \<Rightarrow> pyfloat option" where
  "collar_notional X x ref =
     map_option (\<lambda>p. flt_abs (fmul (x_ops X) (x_float X (quantity x)) (x_float X p)))
       (case limit_price x of Some p \<Rightarrow> Some p | None \<Rightarrow> ref)"

definition notional_block :: "PriceCollarConfig \<Rightarrow> pyfloat option \<Rightarrow> pymsg option" where
  "notional_block c notional =
     (case (pcc_max_notional c, notional) of
        (Some m, Some n) \<Rightarrow>
          if flt_lt m n then Some (FStr ''notional ${:,.0f} exceeds cap ${:,.0f}'' [PFloat n, PFloat m]) else None
      | _ \<Rightarrow> None)"

definition adv_block :: "ex_env \<Rightarrow> PriceCollarConfig \<Rightarrow> pyfloat option \<Rightarrow> pyfloat option option \<Rightarrow> pymsg option" where
  "adv_block X c notional adv =
     (case (max_adv_participation c, has_adv_provider c, notional) of
        (Some m, True, Some n) \<Rightarrow>
          (case adv of
             Some (Some a) \<Rightarrow>
               if flt_lt (Fin 0) a then
                 (let part = fdiv (x_ops X) n a in
                  if flt_lt (fadd (x_ops X) m eps12) part
                  then Some (FStr ''order is {:.1%} of ADV (> {:.0%})'' [PFloat part, PFloat m]) else None)
               else None
           | _ \<Rightarrow> None)
      | _ \<Rightarrow> None)"

definition check_price_collar ::
  "ex_env \<Rightarrow> PriceCollarConfig \<Rightarrow> Order \<Rightarrow> rat option \<Rightarrow> pyfloat option option \<Rightarrow> pymsg option" where
  "check_price_collar X c x price adv =
     (if \<not> pcc_enabled c then None
      else
        (let ref = (case price of Some p \<Rightarrow> Some p | None \<Rightarrow> limit_price x);
             n = collar_notional X x ref in
         case distance_block X c x ref of
           Some m \<Rightarrow> Some m
         | None \<Rightarrow> (case notional_block c n of Some m \<Rightarrow> Some m | None \<Rightarrow> adv_block X c n adv)))"

subsection \<open>Executing an intent\<close>

text \<open>What one call reads from outside: identifiers, clock readings, the broker's and the provider's answers.\<close>

datatype broker_answer = Accepted "string option" | Refused "string option" | Broker_raises

record ex_in =
  x_order_id :: string
  x_entry_id :: string
  x_recovered_id :: string
  x_hour :: int
  x_created :: time
  x_recovered_at :: time
  x_entry_created :: time
  x_entry_updated :: time
  x_logged :: time
  x_submitted :: time
  x_updated :: time
  x_audited :: time
  x_recorded :: time
  x_answer :: broker_answer
  x_adv :: "pyfloat option option"

datatype ex_error = Broker_error | Journal_error journal_error | Bad_entry

definition local_origins :: "string list" where
  "local_origins = [''local'', ''strategy'', ''runner'']"

text \<open>
  Everything up to the price collar reads the engine only: an early return is \<open>Inl\<close> of the
  result, otherwise there is an order.
\<close>

definition gate ::
  "ex_env \<Rightarrow> ex_in \<Rightarrow> Engine \<Rightarrow> OrderIntent \<Rightarrow> rat option \<Rightarrow> string \<Rightarrow> ExecutionResult + Order \<times> PolicyResult" where
  "gate X I e i price origin =
     (if origin \<notin> set local_origins
      then Inl (refused (FStr ''Intent origin '{}' not allowed - Cloud injection blocked'' [PStr origin]))
      else if in_strategy i = [] then Inl (refused (FStr ''Intent missing strategy_id - origin cannot be verified'' []))
      else if is_passive i then
        Inl \<lparr>er_success = True, er_order = None, er_policy = None, er_error = Some (FStr ''Passive intent - no action required'' [])\<rparr>
      else
        (let pr = check_intent (x_ctx X) (e_policy e) i (get_position (e_portfolio e) (in_symbol i)) in
         if \<not> pr_allowed pr then
           Inl ((refused (FStr ''Policy violation: {}'' [msg_val (v_message (hd (violations pr)))]))\<lparr>er_policy := Some pr\<rparr>)
         else
           (case check_order_size (caps (e_caps e)) (dec_or_zero (target_quantity i)) of
              Some v \<Rightarrow> Inl (refused (FStr ''Hard cap violation: {}'' [PStr (cap_message v)]))
            | None \<Rightarrow>
                (let rr = risk_check (x_ctx X) (e_risk e) (x_hour I) i (e_portfolio e) price in
                 if \<not> rr_passed rr then
                   Inl (refused (FStr ''Risk check failed: {}'' [msg_val (pc_message (hd (failed_checks rr)))]))
                 else
                   (let x = intent_to_order X e (x_order_id I) (x_created I) i price in
                    case check_price_collar X (e_collar e) x price (x_adv I) of
                      Some m \<Rightarrow> Inl (refused_order x (FStr ''Price-collar / fat-finger block: {}'' [msg_val m]))
                    | None \<Rightarrow> Inr (x, pr))))))"

definition alloc :: "Order \<Rightarrow> Engine \<Rightarrow> nat \<times> Engine" where
  "alloc x e = (length (e_heap e), e\<lparr>e_heap := e_heap e @ [x]\<rparr>)"

definition track :: "Order \<Rightarrow> Engine \<Rightarrow> Engine" where
  "track x e =
     (case alloc x e of (a, e') \<Rightarrow>
        e'\<lparr>orders := dict_set (orders e') (order_id x) a,
           orders_by_client_id := dict_set (orders_by_client_id e') (client_order_id x) a\<rparr>)"

text \<open>The journal has an entry with the identifier of the order.\<close>

definition recovered_order :: "ex_in \<Rightarrow> Engine \<Rightarrow> JournalEntry \<Rightarrow> OrderType \<Rightarrow> Order" where
  "recovered_order I e j t =
     (blank_order (x_recovered_id I) (x_recovered_at I))
       \<lparr>client_order_id := je_client_id j, o_intent_id := je_intent_id j, o_symbol := je_symbol j, o_side := je_side j,
        order_type := t, quantity := je_quantity j, o_broker := broker_name e, broker_order_id := je_broker_id j\<rparr>"

definition return_duplicate :: "ex_in \<Rightarrow> Order \<Rightarrow> Engine \<Rightarrow> (ex_error, ExecutionResult, Engine) pyres" where
  "return_duplicate I x e =
     (case dict_get (orders_by_client_id e) (client_order_id x) of
        Some a \<Rightarrow>
          py_return \<lparr>er_success = True, er_order = Some (e_heap e ! a), er_policy = None,
            er_error = Some (FStr ''Duplicate order - returning existing'' [])\<rparr> e
      | None \<Rightarrow>
          (case get_by_client_id (client_order_id x) (e_journal e) of
             Some j \<Rightarrow>
               (case order_type_of (je_order_type j) of
                  None \<Rightarrow> py_raise Bad_entry e
                | Some t \<Rightarrow>
                    (let r = recovered_order I e j t in
                     py_return \<lparr>er_success = True, er_order = Some r, er_policy = None,
                       er_error = Some (FStr ''Duplicate order - recovered from journal'' [])\<rparr> (track r e)))
           | None \<Rightarrow>
               py_return \<lparr>er_success = True, er_order = None, er_policy = None,
                 er_error = Some (FStr ''Duplicate order - journal entry exists'' [])\<rparr> e))"

definition accept_order :: "ex_in \<Rightarrow> PolicyResult \<Rightarrow> Order \<Rightarrow> Engine \<Rightarrow> (ex_error, ExecutionResult, Engine) pyres" where
  "accept_order I pr x e =
     (let e' = track x e in
      py_return \<lparr>er_success = True, er_order = Some x, er_policy = Some pr, er_error = None\<rparr>
        (e'\<lparr>e_policy := pf_record_order (x_recorded I) (e_policy e'), e_caps := hc_record_order (e_caps e')\<rparr>))"

definition order_metadata :: "Engine \<Rightarrow> OrderIntent \<Rightarrow> int \<Rightarrow> (string, pyval) dict" where
  "order_metadata e i n =
     [(''strategy_id'', PStr (in_strategy i)), (''intent_type'', PStr (IntentType_value (in_type i))),
      (''deployment_id'', PStr (deployment_id e)), (''run_id'', PStr (run_id e)), (''sequence'', PInt n)]"

definition ask_broker ::
  "ex_env \<Rightarrow> ex_in \<Rightarrow> PolicyResult \<Rightarrow> Order \<Rightarrow> string \<Rightarrow> Engine \<Rightarrow> (ex_error, ExecutionResult, Engine) pyres" where
  "ask_broker X I pr x eid e =
     (if \<not> has_submit e then accept_order I pr x e
      else
        (let e1 = e\<lparr>sent := sent e @ [x]\<rparr>; J = x_journal X in
         case x_answer I of
           Broker_raises \<Rightarrow> py_raise Broker_error e1
         | Accepted b \<Rightarrow>
             accept_order I pr (x\<lparr>o_status := O_SUBMITTED, submitted_at := Some (x_submitted I), broker_order_id := b\<rparr>)
               (e1\<lparr>e_journal := snd (update_status J (x_updated I) (x_audited I) eid J_SUBMITTED b None None (e_journal e1))\<rparr>)
         | Refused err \<Rightarrow>
             py_return
               (refused_order (x\<lparr>o_status := O_ERROR, error_message := err\<rparr>)
                  (FStr ''Broker submission failed: {}'' [case err of None \<Rightarrow> PNone | Some s \<Rightarrow> PStr s]))
               (e1\<lparr>e_journal := snd (update_status J (x_updated I) (x_audited I) eid J_REJECTED None None None (e_journal e1))\<rparr>)))"

definition submit ::
  "ex_env \<Rightarrow> ex_in \<Rightarrow> OrderIntent \<Rightarrow> PolicyResult \<Rightarrow> Order \<Rightarrow> Engine \<Rightarrow> (ex_error, ExecutionResult, Engine) pyres" where
  "submit X I i pr x e =
     (let n = e_sequence e + 1; e1 = e\<lparr>e_sequence := n\<rparr>;
          entry = new_entry (x_entry_id I) (x_entry_created I) (x_entry_updated I) (client_order_id x) (o_intent_id x)
            (o_symbol x) (o_side x) (quantity x) (OrderType_value (order_type x)) (order_metadata e1 i n) in
      case log_order (x_journal X) (x_logged I) entry (e_journal e1) of
        (Inl err, j) \<Rightarrow> py_raise (Journal_error err) (e1\<lparr>e_journal := j\<rparr>)
      | (Inr _, j) \<Rightarrow>
          ask_broker X I pr x (x_entry_id I)
            (e1\<lparr>e_journal := j,
               entry_by_client_id := dict_set (entry_by_client_id e1) (client_order_id x) (x_entry_id I)\<rparr>))"

definition execute ::
  "ex_env \<Rightarrow> ex_in \<Rightarrow> OrderIntent \<Rightarrow> rat option \<Rightarrow> string \<Rightarrow> Engine \<Rightarrow> (ex_error, ExecutionResult, Engine) pyres" where
  "execute X I i price origin e =
     (case gate X I e i price origin of
        Inl r \<Rightarrow> py_return r e
      | Inr (x, pr) \<Rightarrow>
          if is_duplicate (client_order_id x) (e_journal e) then return_duplicate I x e else submit X I i pr x e)"

subsection \<open>Later news about an order\<close>

fun journal_status_of :: "OrderStatus \<Rightarrow> JournalStatus option" where
  "journal_status_of O_PENDING = None"
| "journal_status_of O_SUBMITTED = Some J_SUBMITTED"
| "journal_status_of O_ACCEPTED = Some J_SUBMITTED"
| "journal_status_of O_PARTIALLY_FILLED = Some J_SUBMITTED"
| "journal_status_of O_FILLED = Some J_CONFIRMED"
| "journal_status_of O_CANCELLED = Some J_CANCELLED"
| "journal_status_of O_EXPIRED = Some J_CANCELLED"
| "journal_status_of O_REJECTED = Some J_REJECTED"
| "journal_status_of O_ERROR = Some J_REJECTED"

definition new_status ::
  "OrderStatus \<Rightarrow> rat option \<Rightarrow> rat option \<Rightarrow> string option \<Rightarrow> string option \<Rightarrow> time \<Rightarrow> Order \<Rightarrow> Order" where
  "new_status st fq px bid err now x =
     (let x' = x\<lparr>o_status := st, filled_quantity := (case fq of None \<Rightarrow> filled_quantity x | Some q \<Rightarrow> q),
                 avg_fill_price := opt_keep px (avg_fill_price x), broker_order_id := opt_keep bid (broker_order_id x),
                 error_message := opt_keep err (error_message x)\<rparr> in
      if st = O_FILLED then x'\<lparr>filled_at := Some now\<rparr> else x')"

definition update_order_status ::
  "ex_env \<Rightarrow> time \<Rightarrow> time \<Rightarrow> time \<Rightarrow> string \<Rightarrow> OrderStatus \<Rightarrow> rat option \<Rightarrow> rat option \<Rightarrow> string option \<Rightarrow> string option \<Rightarrow>
   Engine \<Rightarrow> Order option \<times> Engine" where
  "update_order_status X now1 now2 ts cid st fq px bid err e =
     (case dict_get (orders_by_client_id e) cid of
        None \<Rightarrow> (None, e)
      | Some a \<Rightarrow>
          (let x = new_status st fq px bid err now1 (e_heap e ! a); e1 = e\<lparr>e_heap := (e_heap e)[a := x]\<rparr>;
               eid = dict_get (entry_by_client_id e1) cid in
           (Some x,
            case (if truthy eid then journal_status_of st else None) of
              None \<Rightarrow> e1
            | Some js \<Rightarrow>
                e1\<lparr>e_journal := snd (update_status (x_journal X) now2 ts (the eid) js bid None None (e_journal e1))\<rparr>)))"

definition closed_statuses :: "OrderStatus list" where
  "closed_statuses = [O_FILLED, O_CANCELLED, O_REJECTED, O_EXPIRED]"

text \<open>\<open>ans\<close> is what the broker's function returns, \<open>None\<close> when it raises.\<close>

definition cancel_order ::
  "ex_env \<Rightarrow> time \<Rightarrow> time \<Rightarrow> time \<Rightarrow> string \<Rightarrow> bool option \<Rightarrow> Engine \<Rightarrow> ExecutionResult \<times> Engine" where
  "cancel_order X now1 now2 ts cid ans e =
     (case dict_get (orders_by_client_id e) cid of
        None \<Rightarrow> (refused (FStr ''order not found'' []), e)
      | Some a \<Rightarrow>
          (let x = e_heap e ! a in
           if o_status x \<in> set closed_statuses
           then (refused_order x (FStr ''cannot cancel a {} order'' [PStr (OrderStatus_value (o_status x))]), e)
           else if \<not> has_cancel e then (refused_order x (FStr ''no broker_cancel wired'' []), e)
           else
             (case ans of
                None \<Rightarrow> (refused_order x (FStr ''broker cancel error'' []), e)
              | Some True \<Rightarrow>
                  (case update_order_status X now1 now2 ts cid O_CANCELLED None None (broker_order_id x) None e of
                     (y, e') \<Rightarrow> (\<lparr>er_success = True, er_order = y, er_policy = None, er_error = None\<rparr>, e'))
              | Some False \<Rightarrow> (refused_order x (FStr ''broker rejected cancel'' []), e))))"

datatype replace_answer = Replaced "string option" | Not_replaced "string option" | Replace_raises

definition amended_order :: "Engine \<Rightarrow> Order \<Rightarrow> string \<Rightarrow> time \<Rightarrow> rat option \<Rightarrow> rat option \<Rightarrow> Order" where
  "amended_order e x oid now nq np =
     (blank_order oid now)
       \<lparr>client_order_id := client_order_id x, o_intent_id := o_intent_id x, o_symbol := o_symbol x, o_side := o_side x,
        order_type := order_type x, quantity := (case nq of None \<Rightarrow> quantity x | Some q \<Rightarrow> q),
        limit_price := opt_keep np (limit_price x), o_broker := broker_name e, broker_order_id := broker_order_id x\<rparr>"

definition replace_order ::
  "ex_env \<Rightarrow> string \<Rightarrow> time \<Rightarrow> time \<Rightarrow> time \<Rightarrow> time \<Rightarrow> string \<Rightarrow> rat option \<Rightarrow> rat option \<Rightarrow> rat option \<Rightarrow> pyfloat option option \<Rightarrow>
   replace_answer \<Rightarrow> Engine \<Rightarrow> ExecutionResult \<times> Engine" where
  "replace_order X oid now0 now1 now2 ts cid nq np price adv ans e =
     (case dict_get (orders_by_client_id e) cid of
        None \<Rightarrow> (refused (FStr ''order not found'' []), e)
      | Some a \<Rightarrow>
          (let x = e_heap e ! a in
           if o_status x \<in> set closed_statuses
           then (refused_order x (FStr ''cannot amend a {} order'' [PStr (OrderStatus_value (o_status x))]), e)
           else
             (let am = amended_order e x oid now0 nq np in
              case check_price_collar X (e_collar e) am price adv of
                Some m \<Rightarrow> (refused_order x (FStr ''Price-collar block on amend: {}'' [msg_val m]), e)
              | None \<Rightarrow>
                  if \<not> has_replace e then (refused_order x (FStr ''no broker_replace wired'' []), e)
                  else
                    (case ans of
                       Replace_raises \<Rightarrow> (refused_order x (FStr ''broker replace error'' []), e)
                     | Not_replaced err \<Rightarrow>
                         (refused_order x (FStr (if truthy err then the err else ''broker rejected replace'') []), e)
                     | Replaced b \<Rightarrow>
                         (let x' = x\<lparr>quantity := quantity am, limit_price := limit_price am,
                                     broker_order_id := (if truthy b then b else broker_order_id x)\<rparr> in
                          case update_order_status X now1 now2 ts cid O_ACCEPTED None None (broker_order_id x') None
                                 (e\<lparr>e_heap := (e_heap e)[a := x']\<rparr>) of
                            (y, e') \<Rightarrow> (\<lparr>er_success = True, er_order = y, er_policy = None, er_error = None\<rparr>, e'))))))"

definition update_portfolio :: "PortfolioState \<Rightarrow> Engine \<Rightarrow> Engine" where
  "update_portfolio p e = e\<lparr>e_portfolio := p\<rparr>"

definition get_order :: "string \<Rightarrow> Engine \<Rightarrow> Order option" where
  "get_order oid e = map_option (\<lambda>a. e_heap e ! a) (dict_get (orders e) oid)"

definition get_order_by_client_id :: "string \<Rightarrow> Engine \<Rightarrow> Order option" where
  "get_order_by_client_id cid e = map_option (\<lambda>a. e_heap e ! a) (dict_get (orders_by_client_id e) cid)"

definition tracked_orders :: "Engine \<Rightarrow> Order list" where
  "tracked_orders e = map (\<lambda>a. e_heap e ! a) (dict_values (orders e))"

definition get_pending :: "Engine \<Rightarrow> Order list" where
  "get_pending e = filter (\<lambda>x. o_status x \<in> {O_PENDING, O_SUBMITTED, O_ACCEPTED}) (tracked_orders e)"

definition get_orders_for_symbol :: "string \<Rightarrow> Engine \<Rightarrow> Order list" where
  "get_orders_for_symbol s e = filter (\<lambda>x. o_symbol x = s) (tracked_orders e)"

definition get_idempotency_state :: "Engine \<Rightarrow> (string, pyval) dict" where
  "get_idempotency_state e =
     [(''deployment_id'', PStr (deployment_id e)), (''run_id'', PStr (run_id e)), (''sequence'', PInt (e_sequence e)),
      (''broker_name'', PStr (broker_name e))]"

definition set_deployment_id :: "string \<Rightarrow> Engine \<Rightarrow> Engine" where
  "set_deployment_id d e = e\<lparr>deployment_id := d\<rparr>"

definition set_run_id :: "string \<Rightarrow> Engine \<Rightarrow> Engine" where
  "set_run_id r e = recover_sequence (e\<lparr>run_id := r, e_sequence := 0\<rparr>)"

end
