(* ===== verification/Execution_Safety.thy ===== *)
theory Execution_Safety
  imports Execution_Engine
begin

section \<open>Properties of the order path\<close>

text \<open>
  What the execution engine guarantees about the orders it gives to the broker: which gates they have
  passed, that an intent is given once, that the journal knows every order before the broker does, that
  numbers are not reused over restarts; and what a retry of a refused order and a reached rate limit do.
\<close>

subsection \<open>The gates\<close>

definition gates_open :: "ex_env \<Rightarrow> ex_in \<Rightarrow> Engine \<Rightarrow> OrderIntent \<Rightarrow> rat option \<Rightarrow> string \<Rightarrow> bool" where
  "gates_open X I e i price origin \<longleftrightarrow>
     origin \<in> set local_origins \<and> in_strategy i \<noteq> [] \<and> \<not> is_passive i \<and>
     policy_permits (x_ctx X) (e_policy e) i (get_position (e_portfolio e) (in_symbol i)) \<and>
     dec_or_zero (target_quantity i) \<le> absolute_max_order_size (caps (e_caps e)) \<and>
     risk_permits (x_ctx X) (e_risk e) (x_hour I) i (e_portfolio e) price \<and>
     check_price_collar X (e_collar e) (intent_to_order X e (x_order_id I) (x_created I) i price) price (x_adv I) = None"

lemma gate_Inr:
  "gate X I e i price origin = Inr (x, pr) \<longleftrightarrow>
   gates_open X I e i price origin \<and> x = intent_to_order X e (x_order_id I) (x_created I) i price \<and>
   pr = check_intent (x_ctx X) (e_policy e) i (get_position (e_portfolio e) (in_symbol i))"
  by (cases "is_passive i")
    (auto simp: gate_def gates_open_def Let_def check_intent_allowed risk_check_passes_iff check_order_size_None [symmetric]
      split: option.splits)

lemma gate_open:
  "gates_open X I e i price origin \<Longrightarrow>
   gate X I e i price origin =
     Inr (intent_to_order X e (x_order_id I) (x_created I) i price,
       check_intent (x_ctx X) (e_policy e) i (get_position (e_portfolio e) (in_symbol i)))"
  using gate_Inr by blast

lemma gate_closed: "\<not> gates_open X I e i price origin \<Longrightarrow> \<exists>r. gate X I e i price origin = Inl r"
  by (cases "gate X I e i price origin") (auto simp: gate_Inr)

lemma intent_to_order_client [simp]:
  "client_order_id (intent_to_order X e oid now i price) = compute_client_order_id X e i"
  "o_status (intent_to_order X e oid now i price) = O_PENDING"
  "o_intent_id (intent_to_order X e oid now i price) = intent_id i"
  by (simp_all add: intent_to_order_def Let_def blank_order_def)

subsection \<open>What a call changes\<close>

lemma track_simps [simp]:
  "sent (track x e) = sent e" "e_journal (track x e) = e_journal e" "e_sequence (track x e) = e_sequence e"
  "deployment_id (track x e) = deployment_id e" "run_id (track x e) = run_id e" "e_policy (track x e) = e_policy e"
  "e_heap (track x e) = e_heap e @ [x]"
  "orders_by_client_id (track x e) = dict_set (orders_by_client_id e) (client_order_id x) (length (e_heap e))"
  "orders (track x e) = dict_set (orders e) (order_id x) (length (e_heap e))"
  "entry_by_client_id (track x e) = entry_by_client_id e" "e_caps (track x e) = e_caps e"
  by (simp_all add: track_def alloc_def)

lemma accept_order_simps [simp]:
  "sent (snd (accept_order I pr x e)) = sent e" "e_journal (snd (accept_order I pr x e)) = e_journal e"
  "e_sequence (snd (accept_order I pr x e)) = e_sequence e" "deployment_id (snd (accept_order I pr x e)) = deployment_id e"
  "run_id (snd (accept_order I pr x e)) = run_id e" "e_heap (snd (accept_order I pr x e)) = e_heap e @ [x]"
  "orders_by_client_id (snd (accept_order I pr x e)) = dict_set (orders_by_client_id e) (client_order_id x) (length (e_heap e))"
  by (simp_all add: accept_order_def Let_def)

lemma log_order_fst:
  "fst (log_order J ts en j) = (if is_duplicate (je_client_id en) j \<or> get_entry (je_entry_id en) j \<noteq> None
     then Inl Integrity_error else Inr en)"
  unfolding log_order_def is_duplicate_def get_entry_def find_None_iff bex_disj_distrib by auto

lemma log_order_orders:
  "oj_orders (snd (log_order J ts en j)) =
   (case fst (log_order J ts en j) of Inl _ \<Rightarrow> oj_orders j | Inr _ \<Rightarrow> oj_orders j @ [en])"
  by (simp add: log_order_def)

lemma update_status_orders:
  "map je_client_id (oj_orders (snd (update_status J now ts eid st bid fq px j))) = map je_client_id (oj_orders j)"
  "map je_metadata (oj_orders (snd (update_status J now ts eid st bid fq px j))) = map je_metadata (oj_orders j)"
  by (simp_all add: update_status_def if_distrib cong: map_cong)

lemma new_entry_simps [simp]:
  "je_client_id (new_entry eid now1 now2 cid iid sy sd q ot md) = cid"
  "je_entry_id (new_entry eid now1 now2 cid iid sy sd q ot md) = eid"
  "je_metadata (new_entry eid now1 now2 cid iid sy sd q ot md) = md"
  by (simp_all add: new_entry_def)

lemma recovered_order_simps [simp]:
  "client_order_id (recovered_order I e j t) = je_client_id j" "o_status (recovered_order I e j t) = O_PENDING"
  by (simp_all add: recovered_order_def blank_order_def)

lemma return_duplicate_cases:
  obtains "snd (return_duplicate I x e) = e"
  | j t where "snd (return_duplicate I x e) = track (recovered_order I e j t) e" "je_client_id j = client_order_id x"
      "dict_get (orders_by_client_id e) (client_order_id x) = None"
proof (cases "dict_get (orders_by_client_id e) (client_order_id x)")
  case None
  show ?thesis
  proof (cases "get_by_client_id (client_order_id x) (e_journal e)")
    case (Some j)
    then have j: "je_client_id j = client_order_id x" by (auto simp: get_by_client_id_def find_Some_iff)
    show ?thesis
    proof (cases "order_type_of (je_order_type j)")
      case (Some t)
      with \<open>get_by_client_id _ _ = _\<close> None have "snd (return_duplicate I x e) = track (recovered_order I e j t) e"
        by (simp add: return_duplicate_def Let_def)
      with j None show ?thesis by (rule that(2) [rotated])
    next
      case None
      with \<open>get_by_client_id _ _ = _\<close> \<open>dict_get _ _ = None\<close> that(1) show ?thesis by (simp add: return_duplicate_def)
    qed
  next
    case None
    with \<open>dict_get _ _ = None\<close> that(1) show ?thesis by (simp add: return_duplicate_def)
  qed
next
  case (Some a)
  with that(1) show ?thesis by (simp add: return_duplicate_def)
qed

text \<open>The state after the journal has been written and before the broker is asked.\<close>

definition logged_entry :: "ex_in \<Rightarrow> Engine \<Rightarrow> OrderIntent \<Rightarrow> Order \<Rightarrow> JournalEntry" where
  "logged_entry I e i x =
     new_entry (x_entry_id I) (x_entry_created I) (x_entry_updated I) (client_order_id x) (o_intent_id x)
       (o_symbol x) (o_side x) (quantity x) (OrderType_value (order_type x)) (order_metadata e i (e_sequence e + 1))"

definition logged_state :: "ex_env \<Rightarrow> ex_in \<Rightarrow> OrderIntent \<Rightarrow> Order \<Rightarrow> Engine \<Rightarrow> Engine" where
  "logged_state X I i x e =
     e\<lparr>e_sequence := e_sequence e + 1, e_journal := snd (log_order (x_journal X) (x_logged I) (logged_entry I e i x) (e_journal e)),
       entry_by_client_id := dict_set (entry_by_client_id e) (client_order_id x) (x_entry_id I)\<rparr>"

lemma logged_entry_simps [simp]:
  "je_client_id (logged_entry I e i x) = client_order_id x" "je_entry_id (logged_entry I e i x) = x_entry_id I"
  "je_metadata (logged_entry I e i x) = order_metadata e i (e_sequence e + 1)"
  by (simp_all add: logged_entry_def)

lemma submit_eq:
  assumes "\<not> is_duplicate (client_order_id x) (e_journal e)"
  shows "submit X I i pr x e =
    (if get_entry (x_entry_id I) (e_journal e) \<noteq> None
     then (Inl (Journal_error Integrity_error), e\<lparr>e_sequence := e_sequence e + 1\<rparr>)
     else ask_broker X I pr x (x_entry_id I) (logged_state X I i x e))"
proof -
  let ?en = "logged_entry I e i x"
  have md: "order_metadata (e\<lparr>e_sequence := n\<rparr>) i m = order_metadata e i m" for n m by (simp add: order_metadata_def)
  show ?thesis
  proof (cases "get_entry (x_entry_id I) (e_journal e) = None")
    case True
    then have "fst (log_order (x_journal X) (x_logged I) ?en (e_journal e)) = Inr ?en"
      using assms by (simp add: log_order_fst)
    then obtain j where j: "log_order (x_journal X) (x_logged I) ?en (e_journal e) = (Inr ?en, j)" by (metis prod.collapse)
    with True show ?thesis
      by (simp add: submit_def Let_def md logged_entry_def [symmetric] logged_state_def)
  next
    case False
    have "log_order (x_journal X) (x_logged I) ?en (e_journal e) = (Inl Integrity_error, e_journal e)"
    proof -
      from False have "\<exists>z \<in> set (oj_orders (e_journal e)). je_entry_id z = je_entry_id ?en \<or> je_client_id z = je_client_id ?en"
        unfolding get_entry_def find_None_iff by auto
      then show ?thesis unfolding log_order_def by (rule if_P)
    qed
    with False show ?thesis by (simp add: submit_def Let_def md logged_entry_def [symmetric])
  qed
qed


lemma logged_state_simps [simp]:
  "sent (logged_state X I i x e) = sent e" "e_sequence (logged_state X I i x e) = e_sequence e + 1"
  "deployment_id (logged_state X I i x e) = deployment_id e" "run_id (logged_state X I i x e) = run_id e"
  "e_heap (logged_state X I i x e) = e_heap e" "orders_by_client_id (logged_state X I i x e) = orders_by_client_id e"
  "orders (logged_state X I i x e) = orders e" "has_submit (logged_state X I i x e) = has_submit e"
  "e_journal (logged_state X I i x e) = snd (log_order (x_journal X) (x_logged I) (logged_entry I e i x) (e_journal e))"
  by (simp_all add: logged_state_def)

lemma log_fresh:
  assumes "\<not> is_duplicate (client_order_id x) (e_journal e)" and "get_entry (x_entry_id I) (e_journal e) = None"
  shows "oj_orders (snd (log_order J ts (logged_entry I e i x) (e_journal e))) = oj_orders (e_journal e) @ [logged_entry I e i x]"
  using assms by (simp add: log_order_orders log_order_fst)

lemma ask_broker_frame [simp]:
  "sent (snd (ask_broker X I pr x eid e)) = (if has_submit e then sent e @ [x] else sent e)"
  "e_sequence (snd (ask_broker X I pr x eid e)) = e_sequence e"
  "deployment_id (snd (ask_broker X I pr x eid e)) = deployment_id e" "run_id (snd (ask_broker X I pr x eid e)) = run_id e"
  "map je_client_id (oj_orders (e_journal (snd (ask_broker X I pr x eid e)))) = map je_client_id (oj_orders (e_journal e))"
  "map je_metadata (oj_orders (e_journal (snd (ask_broker X I pr x eid e)))) = map je_metadata (oj_orders (e_journal e))"
  by (simp_all add: ask_broker_def Let_def update_status_orders split: broker_answer.split)

lemma ask_broker_heap:
  obtains "e_heap (snd (ask_broker X I pr x eid e)) = e_heap e"
      "orders_by_client_id (snd (ask_broker X I pr x eid e)) = orders_by_client_id e"
  | y where "client_order_id y = client_order_id x" "e_heap (snd (ask_broker X I pr x eid e)) = e_heap e @ [y]"
      "orders_by_client_id (snd (ask_broker X I pr x eid e)) =
         dict_set (orders_by_client_id e) (client_order_id x) (length (e_heap e))"
proof (cases "has_submit e")
  case True
  show ?thesis
  proof (cases "x_answer I")
    case (Accepted b)
    with True show ?thesis
      by (intro that(2) [of "x\<lparr>o_status := O_SUBMITTED, submitted_at := Some (x_submitted I), broker_order_id := b\<rparr>"])
        (simp_all add: ask_broker_def Let_def)
  qed (use True in \<open>simp_all add: that(1) ask_broker_def Let_def\<close>)
next
  case False
  then show ?thesis by (intro that(2) [of x]) (simp_all add: ask_broker_def)
qed

lemma ask_broker_journal_ok:
  "journal_ok (x_journal X) (e_journal e) \<Longrightarrow> journal_ok (x_journal X) (e_journal (snd (ask_broker X I pr x eid e)))"
  by (simp add: ask_broker_def Let_def journal_ok_update split: broker_answer.split)

text \<open>The four ways a call of \<open>execute\<close> can go.\<close>

lemma execute_cases:
  obtains (unchanged) "snd (execute X I i price origin e) = e"
  | (recovered) j t where "snd (execute X I i price origin e) = track (recovered_order I e j t) e"
      "je_client_id j = compute_client_order_id X e i"
      "dict_get (orders_by_client_id e) (compute_client_order_id X e i) = None"
  | (id_clash) "snd (execute X I i price origin e) = e\<lparr>e_sequence := e_sequence e + 1\<rparr>"
  | (asked) x pr where "x = intent_to_order X e (x_order_id I) (x_created I) i price"
      "snd (execute X I i price origin e) = snd (ask_broker X I pr x (x_entry_id I) (logged_state X I i x e))"
      "gates_open X I e i price origin" "\<not> is_duplicate (compute_client_order_id X e i) (e_journal e)"
      "get_entry (x_entry_id I) (e_journal e) = None"
proof (cases "gates_open X I e i price origin")
  case False
  from gate_closed [OF this] show ?thesis by (auto intro: unchanged simp: execute_def)
next
  case True
  let ?x = "intent_to_order X e (x_order_id I) (x_created I) i price"
  let ?pr = "check_intent (x_ctx X) (e_policy e) i (get_position (e_portfolio e) (in_symbol i))"
  have ex: "execute X I i price origin e =
      (if is_duplicate (client_order_id ?x) (e_journal e) then return_duplicate I ?x e else submit X I i ?pr ?x e)"
    by (simp add: execute_def gate_open [OF True])
  show ?thesis
  proof (cases "is_duplicate (client_order_id ?x) (e_journal e)")
    case dup: True
    show ?thesis
      by (rule return_duplicate_cases [of I ?x e]) (use dup ex in \<open>auto intro: unchanged recovered\<close>)
  next
    case new: False
    show ?thesis
    proof (cases "get_entry (x_entry_id I) (e_journal e) = None")
      case True
      then have "snd (execute X I i price origin e) = snd (ask_broker X I ?pr ?x (x_entry_id I) (logged_state X I i ?x e))"
        using new by (simp add: ex submit_eq)
      then show ?thesis by (rule asked [OF refl]) (use \<open>gates_open _ _ _ _ _ _\<close> new True in simp_all)
    next
      case False
      then show ?thesis using new by (intro id_clash) (simp add: ex submit_eq)
    qed
  qed
qed

text \<open>
  C2: an order reaches the broker only from a local origin and a named strategy, through the firewall,
  the hard cap, the risk checks and the price collar, when the journal did not know it; and the journal
  knows it afterwards, whatever the broker answers, an exception included.
\<close>

theorem order_reaches_broker_only_through_gates:
  "sent (snd (execute X I i price origin e)) = sent e \<or>
   sent (snd (execute X I i price origin e)) = sent e @ [intent_to_order X e (x_order_id I) (x_created I) i price] \<and>
   has_submit e \<and> gates_open X I e i price origin \<and> get_by_client_id (compute_client_order_id X e i) (e_journal e) = None \<and>
   is_duplicate (compute_client_order_id X e i) (e_journal (snd (execute X I i price origin e)))"
proof (rule execute_cases [of X I i price origin e])
  fix x pr
  assume x: "x = intent_to_order X e (x_order_id I) (x_created I) i price"
    and ex: "snd (execute X I i price origin e) = snd (ask_broker X I pr x (x_entry_id I) (logged_state X I i x e))"
    and g: "gates_open X I e i price origin" and new: "\<not> is_duplicate (compute_client_order_id X e i) (e_journal e)"
    and fresh: "get_entry (x_entry_id I) (e_journal e) = None"
  have "client_order_id x = compute_client_order_id X e i" by (simp add: x)
  then have "is_duplicate (compute_client_order_id X e i) (e_journal (snd (execute X I i price origin e)))"
    using new fresh by (simp only: is_duplicate_iff ex ask_broker_frame) (simp add: log_fresh is_duplicate_iff)
  with g new show ?thesis by (cases "has_submit e") (simp_all add: ex x is_duplicate_get)
qed simp_all


subsection \<open>Calls, restarts and the invariant\<close>

datatype ex_call =
    Do_execute ex_in OrderIntent "rat option" string
  | Do_status time time time string OrderStatus "rat option" "rat option" "string option" "string option"
  | Do_cancel time time time string "bool option"
  | Do_replace string time time time time string "rat option" "rat option" "rat option" "pyfloat option option" replace_answer
  | Do_portfolio PortfolioState
  | Do_run string
  | Do_deployment string
  | Do_restart PolicyFirewall HardCapEnforcer RiskChecker bool bool bool PriceCollarConfig string string string

text \<open>A restart makes a new engine on the same journal; what the broker was given stays given.\<close>

fun ex_step :: "ex_env \<Rightarrow> Engine \<Rightarrow> ex_call \<Rightarrow> Engine" where
  "ex_step X e (Do_execute I i price origin) = snd (execute X I i price origin e)"
| "ex_step X e (Do_status now1 now2 ts cid st fq px bid err) = snd (update_order_status X now1 now2 ts cid st fq px bid err e)"
| "ex_step X e (Do_cancel now1 now2 ts cid ans) = snd (cancel_order X now1 now2 ts cid ans e)"
| "ex_step X e (Do_replace oid now0 now1 now2 ts cid nq np price adv ans) =
     snd (replace_order X oid now0 now1 now2 ts cid nq np price adv ans e)"
| "ex_step X e (Do_portfolio p) = update_portfolio p e"
| "ex_step X e (Do_run r) = set_run_id r e"
| "ex_step X e (Do_deployment d) = set_deployment_id d e"
| "ex_step X e (Do_restart fw hc rk sub can rep collar name dep run) =
     init_Engine fw hc rk sub can rep collar name (e_journal e) dep run (sent e)"

definition heap_ok :: "Order list \<Rightarrow> (string, nat) dict \<Rightarrow> bool" where
  "heap_ok h d = list_all (\<lambda>(cid, a). a < length h \<and> client_order_id (h ! a) = cid) d"

lemma heap_ok_new: "heap_ok h d \<Longrightarrow> heap_ok (h @ [y]) (dict_set d (client_order_id y) (length h))"
  using set_dict_set_subset [of d "client_order_id y" "length h"]
  by (fastforce simp: heap_ok_def list_all_iff nth_append)

lemma heap_ok_get: "heap_ok h d \<Longrightarrow> dict_get d cid = Some a \<Longrightarrow> a < length h \<and> client_order_id (h ! a) = cid"
  by (auto simp: heap_ok_def list_all_iff dest!: map_of_SomeD)

lemma heap_ok_upd:
  assumes "heap_ok h d" and "client_order_id y = client_order_id (h ! a)"
  shows "heap_ok (h[a := y]) d"
proof -
  have "b < length h \<Longrightarrow> client_order_id (h[a := y] ! b) = client_order_id (h ! b)" for b
    using assms(2) by (cases "b = a") auto
  with assms(1) show ?thesis by (fastforce simp: heap_ok_def list_all_iff)
qed

definition sent_ids :: "Engine \<Rightarrow> string list" where
  "sent_ids e = map client_order_id (sent e)"

definition journal_ids :: "Engine \<Rightarrow> string list" where
  "journal_ids e = map je_client_id (oj_orders (e_journal e))"

definition engine_ok :: "ex_env \<Rightarrow> Engine \<Rightarrow> bool" where
  "engine_ok X e \<longleftrightarrow>
     journal_ok (x_journal X) (e_journal e) \<and> distinct (sent_ids e) \<and> set (sent_ids e) \<subseteq> set (journal_ids e) \<and>
     heap_ok (e_heap e) (orders_by_client_id e)"

text \<open>A step that keeps what was sent and the identifiers of the journal.\<close>

definition quiet_step :: "ex_env \<Rightarrow> Engine \<Rightarrow> Engine \<Rightarrow> bool" where
  "quiet_step X e e' \<longleftrightarrow>
     sent e' = sent e \<and> journal_ids e' = journal_ids e \<and>
     map je_metadata (oj_orders (e_journal e')) = map je_metadata (oj_orders (e_journal e)) \<and>
     e_policy e' = e_policy e \<and> e_sequence e' = e_sequence e \<and> deployment_id e' = deployment_id e \<and> run_id e' = run_id e \<and>
     (journal_ok (x_journal X) (e_journal e) \<longrightarrow> journal_ok (x_journal X) (e_journal e')) \<and>
     (heap_ok (e_heap e) (orders_by_client_id e) \<longrightarrow> heap_ok (e_heap e') (orders_by_client_id e'))"

lemma quiet_step_refl [simp]: "quiet_step X e e"
  by (simp add: quiet_step_def)

lemma quiet_step_trans: "quiet_step X e e' \<Longrightarrow> quiet_step X e' e'' \<Longrightarrow> quiet_step X e e''"
  by (simp add: quiet_step_def)

lemma quiet_ok: "quiet_step X e e' \<Longrightarrow> engine_ok X e \<Longrightarrow> engine_ok X e'"
  by (simp add: quiet_step_def engine_ok_def sent_ids_def)

lemma quiet_heap: "client_order_id y = client_order_id (e_heap e ! a) \<Longrightarrow> quiet_step X e (e\<lparr>e_heap := (e_heap e)[a := y]\<rparr>)"
  by (simp add: quiet_step_def journal_ids_def heap_ok_upd)

lemma quiet_journal:
  "quiet_step X e (e\<lparr>e_journal := snd (update_status (x_journal X) now ts eid st bid fq px (e_journal e))\<rparr>)"
  by (simp add: quiet_step_def journal_ids_def update_status_orders journal_ok_update)

lemma new_status_client [simp]: "client_order_id (new_status st fq px bid err now x) = client_order_id x"
  by (simp add: new_status_def Let_def)

lemma quiet_status: "quiet_step X e (snd (update_order_status X now1 now2 ts cid st fq px bid err e))"
proof (cases "dict_get (orders_by_client_id e) cid")
  case (Some a)
  let ?x = "new_status st fq px bid err now1 (e_heap e ! a)"
  let ?e1 = "e\<lparr>e_heap := (e_heap e)[a := ?x]\<rparr>"
  have q: "quiet_step X e ?e1" by (rule quiet_heap) simp
  let ?js = "if truthy (dict_get (entry_by_client_id ?e1) cid) then journal_status_of st else None"
  have u: "snd (update_order_status X now1 now2 ts cid st fq px bid err e) =
      (case ?js of None \<Rightarrow> ?e1 | Some js \<Rightarrow>
         ?e1\<lparr>e_journal := snd (update_status (x_journal X) now2 ts (the (dict_get (entry_by_client_id ?e1) cid)) js bid None None (e_journal ?e1))\<rparr>)"
    by (simp only: update_order_status_def Some Let_def option.case snd_conv)
  show ?thesis
  proof (cases ?js)
    case None
    show ?thesis unfolding u None option.case by (rule q)
  next
    case (Some js)
    show ?thesis unfolding u Some option.case by (rule quiet_step_trans [OF q quiet_journal])
  qed
qed (simp add: update_order_status_def)

lemma quiet_cancel: "quiet_step X e (snd (cancel_order X now1 now2 ts cid ans e))"
  by (simp add: cancel_order_def Let_def quiet_status case_prod_unfold split: option.split bool.split)

lemma quiet_replace: "quiet_step X e (snd (replace_order X oid now0 now1 now2 ts cid nq np price adv ans e))"
proof (cases "dict_get (orders_by_client_id e) cid")
  case (Some a)
  have "quiet_step X e (snd (update_order_status X now1 now2 ts cid st fq px bid err (e\<lparr>e_heap := (e_heap e)[a := y]\<rparr>)))"
    if "client_order_id y = client_order_id (e_heap e ! a)" for st fq px bid err y
    by (rule quiet_step_trans [OF quiet_heap [OF that] quiet_status])
  then show ?thesis
    by (simp add: replace_order_def Let_def Some case_prod_unfold split: option.split replace_answer.split)
qed (simp add: replace_order_def)


lemma engine_ok_asked:
  assumes ok: "engine_ok X e" and new: "\<not> is_duplicate (client_order_id x) (e_journal e)"
    and fresh: "get_entry (x_entry_id I) (e_journal e) = None"
  shows "engine_ok X (snd (ask_broker X I pr x (x_entry_id I) (logged_state X I i x e)))"
proof -
  let ?e1 = "logged_state X I i x e" and ?e2 = "snd (ask_broker X I pr x (x_entry_id I) (logged_state X I i x e))"
  have ids: "journal_ids ?e2 = journal_ids e @ [client_order_id x]"
    using new fresh by (simp only: journal_ids_def ask_broker_frame) (simp add: log_fresh)
  have "client_order_id x \<notin> set (journal_ids e)" using new by (simp add: is_duplicate_iff journal_ids_def)
  moreover have "distinct (sent_ids e)" "set (sent_ids e) \<subseteq> set (journal_ids e)" using ok by (simp_all add: engine_ok_def)
  ultimately have s: "distinct (sent_ids ?e2) \<and> set (sent_ids ?e2) \<subseteq> set (journal_ids ?e2)"
    unfolding ids by (auto simp: sent_ids_def)
  have "journal_ok (x_journal X) (e_journal ?e1)" using ok by (simp add: engine_ok_def journal_ok_log)
  then have j: "journal_ok (x_journal X) (e_journal ?e2)" by (rule ask_broker_journal_ok)
  have "heap_ok (e_heap e) (orders_by_client_id e)" using ok by (simp add: engine_ok_def)
  then have h: "heap_ok (e_heap ?e2) (orders_by_client_id ?e2)"
    by (rule_tac ask_broker_heap [of X I pr x "x_entry_id I" ?e1]) (simp, metis heap_ok_new logged_state_simps(5,6))
  from s j h show ?thesis by (simp add: engine_ok_def)
qed

lemma engine_ok_execute: "engine_ok X e \<Longrightarrow> engine_ok X (snd (execute X I i price origin e))"
proof (rule execute_cases [of X I i price origin e])
  fix j t
  assume "engine_ok X e" "snd (execute X I i price origin e) = track (recovered_order I e j t) e"
  then show ?thesis
    using heap_ok_new [of "e_heap e" "orders_by_client_id e" "recovered_order I e j t"]
    by (simp add: engine_ok_def sent_ids_def journal_ids_def)
qed (simp_all add: engine_ok_asked, simp add: engine_ok_def sent_ids_def journal_ids_def)

lemma engine_ok_init: "engine_ok X e \<Longrightarrow> engine_ok X (init_Engine fw hc rk sub can rep collar name (e_journal e) dep run (sent e))"
  by (simp add: engine_ok_def init_Engine_def recover_sequence_def sent_ids_def journal_ids_def heap_ok_def)

lemma engine_ok_step: "engine_ok X e \<Longrightarrow> engine_ok X (ex_step X e c)"
proof (cases c)
  case (Do_execute I i price origin)
  then show "engine_ok X e \<Longrightarrow> ?thesis" by (simp add: engine_ok_execute)
next
  case (Do_restart fw hc rk sub can rep collar name dep run)
  then show "engine_ok X e \<Longrightarrow> ?thesis" by (simp add: engine_ok_init)
qed (auto intro: quiet_ok [OF quiet_status] quiet_ok [OF quiet_cancel] quiet_ok [OF quiet_replace],
  simp_all add: engine_ok_def update_portfolio_def set_run_id_def set_deployment_id_def recover_sequence_def sent_ids_def
    journal_ids_def)

definition fresh_engine ::
  "PolicyFirewall \<Rightarrow> HardCapEnforcer \<Rightarrow> RiskChecker \<Rightarrow> PriceCollarConfig \<Rightarrow> string \<Rightarrow> string option \<Rightarrow> string \<Rightarrow> string \<Rightarrow> Engine" where
  "fresh_engine fw hc rk collar name key dep run =
     init_Engine fw hc rk True True True collar name (empty_journal key) dep run []"

lemma fresh_engine_ok: "engine_ok X (fresh_engine fw hc rk collar name key dep run)"
  by (simp add: engine_ok_def fresh_engine_def init_Engine_def recover_sequence_def sent_ids_def heap_ok_def journal_ok_empty)

interpretation exm: step_system "\<lambda>e. \<exists>fw hc rk collar name key dep run. e = fresh_engine fw hc rk collar name key dep run"
    "ex_step X" "engine_ok X" for X
proof unfold_locales
  show "\<exists>fw hc rk collar name key dep run. e = fresh_engine fw hc rk collar name key dep run \<Longrightarrow> engine_ok X e" for e
    using fresh_engine_ok by blast
  show "engine_ok X e \<Longrightarrow> engine_ok X (ex_step X e c)" for e c by (rule engine_ok_step)
qed

text \<open>
  C4: over any history of intents, broker answers and exceptions, status reports, cancels, amendments
  and restarts on the same journal, no two orders given to the broker have the same client identifier -
  so an intent of a strategy is sent to a broker at most once - and each of them is in the journal.
\<close>

theorem intent_sent_at_most_once:
  "distinct (map client_order_id (sent (foldl (ex_step X) (fresh_engine fw hc rk collar name key dep run) calls))) \<and>
   set (map client_order_id (sent (foldl (ex_step X) (fresh_engine fw hc rk collar name key dep run) calls))) \<subseteq>
   set (map je_client_id (oj_orders (e_journal (foldl (ex_step X) (fresh_engine fw hc rk collar name key dep run) calls))))"
proof -
  have "engine_ok X (foldl (ex_step X) (fresh_engine fw hc rk collar name key dep run) calls)"
    by (rule exm.inv_reachable) blast
  then show ?thesis by (simp only: engine_ok_def sent_ids_def journal_ids_def)
qed


subsection \<open>Sequence numbers over restarts\<close>

definition entry_key :: "(string, pyval) dict \<Rightarrow> pyval \<times> pyval \<times> pyval" where
  "entry_key md = (meta_get md ''deployment_id'' (PStr []), meta_get md ''run_id'' (PStr []), meta_get md ''sequence'' (PInt 0))"

lemma entry_key_new [simp]:
  "entry_key (order_metadata e i n) = (PStr (deployment_id e), PStr (run_id e), PInt n)"
  by (simp add: entry_key_def order_metadata_def meta_get_def)

abbreviation journal_keys :: "Engine \<Rightarrow> (pyval \<times> pyval \<times> pyval) list" where
  "journal_keys e \<equiv> map (\<lambda>x. entry_key (je_metadata x)) (oj_orders (e_journal e))"

lemma seq_step_ge: "m \<le> seq_step dep run m x"
  by (simp add: seq_step_def Let_def split: option.split)

lemma seq_fold_ge: "m \<le> foldl (seq_step dep run) m xs"
  by (induction xs arbitrary: m) (auto intro: order_trans [OF seq_step_ge])

lemma seq_fold_member:
  "x \<in> set xs \<Longrightarrow> entry_key (je_metadata x) = (PStr dep, PStr run, PInt n) \<Longrightarrow> n \<le> foldl (seq_step dep run) m xs"
proof (induction xs arbitrary: m)
  case (Cons y xs)
  show ?case
  proof (cases "x = y")
    case True
    with Cons.prems have "n \<le> seq_step dep run m y" by (simp add: entry_key_def seq_step_def meta_int_def Let_def)
    then show ?thesis by (simp add: order_trans [OF _ seq_fold_ge])
  next
    case False
    with Cons show ?thesis by simp
  qed
qed simp

lemma recovered_bound:
  "x \<in> set (oj_orders j) \<Longrightarrow> entry_key (je_metadata x) = (PStr dep, PStr run, PInt n) \<Longrightarrow> n \<le> recovered_sequence dep run j"
  by (simp add: recovered_sequence_def get_all_entries_def seq_fold_member)

definition keys_ok :: "Engine \<Rightarrow> bool" where
  "keys_ok e \<longleftrightarrow>
     distinct (journal_keys e) \<and> (\<forall>n. (PStr (deployment_id e), PStr (run_id e), PInt n) \<in> set (journal_keys e) \<longrightarrow> n \<le> e_sequence e)"

lemma keys_ok_recover: "distinct (journal_keys e) \<Longrightarrow> keys_ok (recover_sequence e)"
  by (auto simp: keys_ok_def recover_sequence_def intro: recovered_bound [OF _ sym])

lemma keys_ok_same:
  "keys_ok e \<Longrightarrow> journal_keys e' = journal_keys e \<Longrightarrow> deployment_id e' = deployment_id e \<Longrightarrow> run_id e' = run_id e \<Longrightarrow>
   e_sequence e \<le> e_sequence e' \<Longrightarrow> keys_ok e'"
  by (fastforce simp: keys_ok_def)

lemma metadata_keys:
  "map je_metadata xs = map je_metadata ys \<Longrightarrow> map (\<lambda>x. entry_key (je_metadata x)) xs = map (\<lambda>x. entry_key (je_metadata x)) ys"
  using map_map [of entry_key je_metadata] by (metis (mono_tags, lifting) comp_apply map_eq_conv)

lemma keys_ok_quiet: "quiet_step X e e' \<Longrightarrow> keys_ok e \<Longrightarrow> keys_ok e'"
  by (rule keys_ok_same) (auto simp: quiet_step_def intro!: metadata_keys)

lemma keys_ok_asked:
  assumes ok: "keys_ok e" and new: "\<not> is_duplicate (client_order_id x) (e_journal e)"
    and fresh: "get_entry (x_entry_id I) (e_journal e) = None"
  shows "keys_ok (snd (ask_broker X I pr x (x_entry_id I) (logged_state X I i x e)))"
proof -
  let ?e2 = "snd (ask_broker X I pr x (x_entry_id I) (logged_state X I i x e))"
  let ?k = "(PStr (deployment_id e), PStr (run_id e), PInt (e_sequence e + 1))"
  have "journal_keys ?e2 = journal_keys (logged_state X I i x e)" by (rule metadata_keys) simp
  also have "\<dots> = journal_keys e @ [?k]" using new fresh by (simp add: log_fresh)
  finally have k: "journal_keys ?e2 = journal_keys e @ [?k]" .
  have old: "n \<le> e_sequence e" if "(PStr (deployment_id e), PStr (run_id e), PInt n) \<in> set (journal_keys e)" for n
    using ok that unfolding keys_ok_def by blast
  then have "?k \<notin> set (journal_keys e)" by fastforce
  moreover have "distinct (journal_keys e)" using ok by (simp add: keys_ok_def)
  ultimately show ?thesis unfolding keys_ok_def k using old by (fastforce simp: add.commute)
qed

lemma keys_ok_execute: "keys_ok e \<Longrightarrow> keys_ok (snd (execute X I i price origin e))"
  by (rule execute_cases [of X I i price origin e])
    (simp_all add: keys_ok_asked, auto intro: keys_ok_same)

fun changes_deployment :: "ex_call \<Rightarrow> bool" where
  "changes_deployment (Do_deployment d) = True"
| "changes_deployment _ = False"

lemma keys_ok_step: "keys_ok e \<Longrightarrow> \<not> changes_deployment c \<Longrightarrow> keys_ok (ex_step X e c)"
proof (cases c)
  case (Do_execute I i price origin)
  then show "keys_ok e \<Longrightarrow> ?thesis" by (simp add: keys_ok_execute)
next
  case (Do_run r)
  then show "keys_ok e \<Longrightarrow> ?thesis" by (auto simp: set_run_id_def keys_ok_def [of e] intro!: keys_ok_recover)
next
  case (Do_restart fw hc rk sub can rep collar name dep run)
  then show "keys_ok e \<Longrightarrow> ?thesis" by (auto simp: init_Engine_def keys_ok_def [of e] intro!: keys_ok_recover)
next
  case (Do_portfolio p)
  then show "keys_ok e \<Longrightarrow> ?thesis" by (simp add: update_portfolio_def keys_ok_def)
qed (auto intro: keys_ok_quiet [OF quiet_status] keys_ok_quiet [OF quiet_cancel] keys_ok_quiet [OF quiet_replace])

text \<open>
  C29: the numbers in the journal identify orders: over any history with restarts and new runs, no two
  entries have the same deployment, run and sequence number, because a restart continues after the highest
  number it finds.  The deployment identifier must not be changed under way, as its setter warns.
\<close>

theorem sequence_numbers_unique:
  assumes "list_all (\<lambda>c. \<not> changes_deployment c) calls"
  shows "distinct (map (\<lambda>x. entry_key (je_metadata x))
    (oj_orders (e_journal (foldl (ex_step X) (fresh_engine fw hc rk collar name key dep run) calls))))"
proof -
  have start: "keys_ok (fresh_engine fw hc rk collar name key dep run)"
    unfolding fresh_engine_def init_Engine_def by (rule keys_ok_recover) (simp add: empty_journal_def)
  have "keys_ok e \<Longrightarrow> keys_ok (foldl (ex_step X) e calls)" for e
    using assms by (induction calls arbitrary: e) (simp_all add: keys_ok_step)
  from this [OF start] show ?thesis by (simp add: keys_ok_def)
qed


subsection \<open>A sample engine\<close>

definition sample_X :: ex_env where
  "sample_X = \<lparr>x_ctx = \<lambda>q. q, x_sha = \<lambda>m. m, x_ops = exact_ops, x_float = Fin,
     x_journal = \<lparr>j_digests = const_digests, j_rep = \<lambda>_. []\<rparr>\<rparr>"

definition sample_in :: "string \<Rightarrow> broker_answer \<Rightarrow> ex_in" where
  "sample_in eid ans =
     \<lparr>x_order_id = ''o'' @ eid, x_entry_id = eid, x_recovered_id = ''r'' @ eid, x_hour = 12, x_created = 1, x_recovered_at = 1,
      x_entry_created = 2, x_entry_updated = 2, x_logged = 2, x_submitted = 3, x_updated = 3, x_audited = 3, x_recorded = 4,
      x_answer = ans, x_adv = Some None\<rparr>"

definition sample_collar :: PriceCollarConfig where
  "sample_collar = \<lparr>pcc_enabled = True, max_price_distance_pct = Some (Fin (1 / 10)), pcc_max_notional = Some (Fin 100000),
     max_adv_participation = None, has_adv_provider = False\<rparr>"

definition sample_engine :: "int \<Rightarrow> Engine" where
  "sample_engine per_minute =
     (fresh_engine (init_PolicyFirewall (default_PolicyConfig\<lparr>max_orders_per_minute := per_minute\<rparr>) None 0 0)
        (init_HardCapEnforcer default_HardCaps 0 0) default_RiskChecker sample_collar ''b'' None ''d'' ''r'')"

definition sample_calls :: "ex_call list" where
  "sample_calls =
     [Do_execute (sample_in ''e1'' (Accepted (Some ''x''))) sample_intent (Some 100) ''local'',
      Do_execute (sample_in ''e2'' (Accepted (Some ''y''))) (sample_intent\<lparr>intent_id := ''i2''\<rparr>) (Some 100) ''local'', Do_run ''r'']"

theorem sequence_numbers_unique_witness:
  "distinct (map (\<lambda>x. entry_key (je_metadata x)) (oj_orders (e_journal (foldl (ex_step sample_X) (sample_engine 5) sample_calls))))"
  unfolding sample_engine_def by (rule sequence_numbers_unique) (simp add: sample_calls_def)

lemma sample_sequences:
  "map (\<lambda>x. entry_key (je_metadata x)) (oj_orders (e_journal (foldl (ex_step sample_X) (sample_engine 5) sample_calls))) =
   [(PStr ''d'', PStr ''r'', PInt 1), (PStr ''d'', PStr ''r'', PInt 2)]"
  by code_simp

subsection \<open>A reached rate limit\<close>

fun restarts :: "ex_call \<Rightarrow> bool" where
  "restarts (Do_restart fw hc rk sub can rep collar name dep run) = True"
| "restarts _ = False"

definition minute_full :: "Engine \<Rightarrow> bool" where
  "minute_full e \<longleftrightarrow> eff_minute (effective_config (e_policy e)) \<le> pf_minute (e_policy e)"

lemma minute_full_execute:
  assumes "minute_full e"
  shows "minute_full (snd (execute X I i price origin e)) \<and> sent (snd (execute X I i price origin e)) = sent e"
proof -
  have "\<not> gates_open X I e i price origin"
    using assms by (auto simp: minute_full_def gates_open_def policy_permits_def Let_def)
  then show ?thesis using assms
    by (rule_tac execute_cases [of X I i price origin e]) (simp_all add: minute_full_def)
qed

lemma minute_full_quiet: "quiet_step X e e' \<Longrightarrow> minute_full e \<Longrightarrow> minute_full e' \<and> sent e' = sent e"
  by (simp add: quiet_step_def minute_full_def)

lemma minute_full_step:
  "minute_full e \<Longrightarrow> \<not> restarts c \<Longrightarrow> minute_full (ex_step X e c) \<and> sent (ex_step X e c) = sent e"
  by (cases c)
    (simp_all add: minute_full_execute minute_full_quiet [OF quiet_status] minute_full_quiet [OF quiet_cancel]
      minute_full_quiet [OF quiet_replace],
     simp_all add: minute_full_def update_portfolio_def set_run_id_def set_deployment_id_def recover_sequence_def)

text \<open>
  Once the firewall has counted as many orders as the limit per minute allows, the engine sends
  nothing until it is restarted, however much time passes: the counter is only reset when an order is
  recorded, and an order is only recorded when it has been let through.
\<close>

theorem minute_limit_locks_out:
  assumes "eff_minute (effective_config (e_policy e)) \<le> pf_minute (e_policy e)" and "list_all (\<lambda>c. \<not> restarts c) calls"
  shows "sent (foldl (ex_step X) e calls) = sent e"
proof -
  have "minute_full e" using assms(1) by (simp add: minute_full_def)
  then show ?thesis using assms(2) by (induction calls arbitrary: e) (simp_all add: minute_full_step)
qed

theorem minute_limit_locks_out_witness:
  "sent (foldl (ex_step sample_X) (foldl (ex_step sample_X) (sample_engine 1) [hd sample_calls]) (tl sample_calls)) =
   sent (foldl (ex_step sample_X) (sample_engine 1) [hd sample_calls]) \<and>
   length (sent (foldl (ex_step sample_X) (sample_engine 1) [hd sample_calls])) = 1"
proof -
  have "minute_full (foldl (ex_step sample_X) (sample_engine 1) [hd sample_calls])" by code_simp
  then have "eff_minute (effective_config (e_policy (foldl (ex_step sample_X) (sample_engine 1) [hd sample_calls])))
      \<le> pf_minute (e_policy (foldl (ex_step sample_X) (sample_engine 1) [hd sample_calls]))"
    by (simp only: minute_full_def)
  moreover have "list_all (\<lambda>c. \<not> restarts c) (tl sample_calls)" by (simp add: sample_calls_def)
  moreover have "length (sent (foldl (ex_step sample_X) (sample_engine 1) [hd sample_calls])) = 1" by code_simp
  ultimately show ?thesis using minute_limit_locks_out by blast
qed


subsection \<open>A retry after the broker refused\<close>

lemma order_type_of_value [simp]: "order_type_of (OrderType_value t) = Some t"
  by (cases t) (simp_all add: order_type_of_def)

lemma collar_cong:
  "limit_price x = limit_price y \<Longrightarrow> quantity x = quantity y \<Longrightarrow> check_price_collar X c x p a = check_price_collar X c y p a"
  by (simp only: check_price_collar_def distance_block_def collar_notional_def)

lemma intent_to_order_terms:
  "limit_price (intent_to_order X e oid now i price) = limit_price (intent_to_order X e' oid' now' i price)"
  "quantity (intent_to_order X e oid now i price) = quantity (intent_to_order X e' oid' now' i price)"
  by (simp_all add: intent_to_order_def Let_def)

lemma gates_open_cong:
  assumes "e_policy e' = e_policy e" "e_caps e' = e_caps e" "e_risk e' = e_risk e" "e_collar e' = e_collar e"
    "e_portfolio e' = e_portfolio e" "x_hour I' = x_hour I" "x_adv I' = x_adv I"
  shows "gates_open X I' e' i price origin = gates_open X I e i price origin"
proof -
  have "check_price_collar X (e_collar e) (intent_to_order X e' (x_order_id I') (x_created I') i price) price (x_adv I) =
      check_price_collar X (e_collar e) (intent_to_order X e (x_order_id I) (x_created I) i price) price (x_adv I)"
    by (rule collar_cong) (rule intent_to_order_terms)+
  with assms show ?thesis by (simp add: gates_open_def)
qed

lemma update_last_entry:
  assumes "get_entry (x_entry_id I) (e_journal e) = None"
    and "oj_orders j = oj_orders (e_journal e) @ [logged_entry I e i x]"
  shows "oj_orders (snd (update_status J now ts (x_entry_id I) st bid fq px j)) =
    oj_orders (e_journal e) @ [set_entry now st bid fq px (logged_entry I e i x)]"
  using assms by (auto simp: update_status_def get_entry_def find_None_iff intro!: map_idI)

lemma find_snoc: "find P xs = None \<Longrightarrow> P y \<Longrightarrow> find P (xs @ [y]) = Some y"
  by (induction xs) (auto split: if_splits)

lemma get_by_client_id_append:
  "\<not> is_duplicate cid j \<Longrightarrow> oj_orders j' = oj_orders j @ [y] \<Longrightarrow> je_client_id y = cid \<Longrightarrow> get_by_client_id cid j' = Some y"
  by (simp add: is_duplicate_get get_by_client_id_def find_snoc)

text \<open>
  When the broker refused an order, the call reports a failure and the journal says rejected; but the
  same intent executed again is reported as a success, with a pending order that the broker will never
  fill: what is recovered from the journal does not carry the status the journal has.
\<close>

theorem retry_of_refused_order_reports_success:
  assumes "gates_open X I e i price origin" and "has_submit e" and "x_answer I = Refused err"
    and "\<not> is_duplicate (compute_client_order_id X e i) (e_journal e)" and "get_entry (x_entry_id I) (e_journal e) = None"
    and "dict_get (orders_by_client_id e) (compute_client_order_id X e i) = None"
    and "x_hour I' = x_hour I" and "x_adv I' = x_adv I"
  shows "\<exists>r1 r2 x en. fst (execute X I i price origin e) = Inr r1 \<and> \<not> er_success r1 \<and>
    fst (execute X I' i price origin (snd (execute X I i price origin e))) = Inr r2 \<and> er_success r2 \<and>
    er_order r2 = Some x \<and> o_status x = O_PENDING \<and>
    get_by_client_id (client_order_id x) (e_journal (snd (execute X I i price origin e))) = Some en \<and> je_status en = J_REJECTED"
proof -
  let ?x = "intent_to_order X e (x_order_id I) (x_created I) i price" and ?cid = "compute_client_order_id X e i"
  let ?pr = "check_intent (x_ctx X) (e_policy e) i (get_position (e_portfolio e) (in_symbol i))"
  let ?e1 = "logged_state X I i ?x e" and ?en = "set_entry (x_updated I) J_REJECTED None None None (logged_entry I e i ?x)"
  let ?j = "snd (update_status (x_journal X) (x_updated I) (x_audited I) (x_entry_id I) J_REJECTED None None None (e_journal ?e1))"
  define e2 where "e2 = ?e1\<lparr>sent := sent ?e1 @ [?x], e_journal := ?j\<rparr>"
  obtain r1 where ex: "execute X I i price origin e = (Inr r1, e2)" and r1: "\<not> er_success r1"
    using assms
    by (simp add: e2_def execute_def gate_open [OF assms(1)] submit_eq ask_broker_def Let_def refused_order_def refused_def)
  have "oj_orders ?j = oj_orders (e_journal e) @ [?en]"
    using assms by (intro update_last_entry) (simp_all add: log_fresh)
  then have en: "get_by_client_id ?cid (e_journal e2) = Some ?en"
    unfolding e2_def by (intro get_by_client_id_append [OF assms(4)]) simp_all
  then have dup: "is_duplicate ?cid (e_journal e2)" by (simp add: is_duplicate_get)
  have ty: "order_type_of (je_order_type ?en) = Some (order_type ?x)" and st: "je_status ?en = J_REJECTED"
    by (simp_all add: set_entry_def logged_entry_def new_entry_def)
  have cid: "compute_client_order_id X e2 i = ?cid" by (simp add: compute_client_order_id_def logged_state_def e2_def)
  have obc: "dict_get (orders_by_client_id e2) ?cid = None" using assms(6) by (simp add: e2_def)
  have "gates_open X I' e2 i price origin"
    using assms(1) gates_open_cong [of e2 e I' I X i price origin] assms(7,8) by (simp add: logged_state_def e2_def)
  then have "execute X I' i price origin e2 =
      return_duplicate I' (intent_to_order X e2 (x_order_id I') (x_created I') i price) e2"
    by (simp add: execute_def cid dup gate_open)
  then obtain r2 where "fst (execute X I' i price origin e2) = Inr r2" "er_success r2"
      "er_order r2 = Some (recovered_order I' e2 ?en (order_type ?x))"
    using obc by (simp add: return_duplicate_def cid en ty Let_def)
  then show ?thesis using ex r1 en st
    by (intro exI [of _ r1] exI [of _ r2] exI [of _ "recovered_order I' e2 ?en (order_type ?x)"] exI [of _ ?en]) simp
qed

theorem retry_of_refused_order_reports_success_witness:
  "\<exists>r1 r2 x en. fst (execute sample_X (sample_in ''e1'' (Refused None)) sample_intent (Some 100) ''local'' (sample_engine 5)) = Inr r1 \<and>
    \<not> er_success r1 \<and>
    fst (execute sample_X (sample_in ''e2'' Broker_raises) sample_intent (Some 100) ''local''
      (snd (execute sample_X (sample_in ''e1'' (Refused None)) sample_intent (Some 100) ''local'' (sample_engine 5)))) = Inr r2 \<and>
    er_success r2 \<and> er_order r2 = Some x \<and> o_status x = O_PENDING \<and>
    get_by_client_id (client_order_id x) (e_journal
      (snd (execute sample_X (sample_in ''e1'' (Refused None)) sample_intent (Some 100) ''local'' (sample_engine 5)))) = Some en \<and>
    je_status en = J_REJECTED"
proof (rule retry_of_refused_order_reports_success)
  let ?I = "sample_in ''e1'' (Refused None)"
  have "\<exists>x pr. gate sample_X ?I (sample_engine 5) sample_intent (Some 100) ''local'' = Inr (x, pr)"
  proof -
    have "(case gate sample_X ?I (sample_engine 5) sample_intent (Some 100) ''local'' of Inl _ \<Rightarrow> False | Inr _ \<Rightarrow> True)" by code_simp
    then show ?thesis by (auto split: sum.splits)
  qed
  then show "gates_open sample_X ?I (sample_engine 5) sample_intent (Some 100) ''local''" using gate_Inr by blast
qed (simp_all add: sample_engine_def fresh_engine_def init_Engine_def recover_sequence_def empty_journal_def is_duplicate_def
  get_entry_def sample_in_def)

subsection \<open>How large an order can be\<close>

text \<open>
  The bound on what is sent.  Whatever way the intent gives its size, an order that is let through is
  no larger than the order size of the risk checker, when the price is not negative; the caps and the
  firewall, which look at the quantity of the intent only, do not bound an intent that gives a notional.
\<close>

theorem sent_quantity_bounded:
  assumes "gates_open X I e i price origin" and "0 \<le> dec_or_zero price"
  shows "quantity (intent_to_order X e oid now i price) \<le> rk_max_order_size (e_risk e)"
proof -
  have "quantity (intent_to_order X e oid now i price) = checked_quantity (x_ctx X) i price"
    using assms(2) by (auto simp: intent_to_order_def checked_quantity_def Let_def blank_order_def dec_true_def)
  then show ?thesis using assms(1) by (simp add: gates_open_def risk_permits_def Let_def)
qed


lemma sample_gates:
  assumes "case gate sample_X I e i (Some 100) ''local'' of Inl _ \<Rightarrow> False | Inr _ \<Rightarrow> True"
  shows "gates_open sample_X I e i (Some 100) ''local''"
  using assms gate_Inr [of sample_X I e i "Some 100" "''local''"] by (auto split: sum.splits)

definition sample_notional :: OrderIntent where
  "sample_notional = sample_intent\<lparr>target_quantity := None, target_notional := Some 1000\<rparr>"

definition tight_engine :: Engine where
  "tight_engine = (sample_engine 5)\<lparr>e_caps := init_HardCapEnforcer (default_HardCaps\<lparr>absolute_max_order_size := 1\<rparr>) 0 0\<rparr>"

theorem sent_quantity_bounded_witness:
  "quantity (intent_to_order sample_X tight_engine ''o'' 0 sample_notional (Some 100)) \<le> rk_max_order_size (e_risk tight_engine)"
proof (rule sent_quantity_bounded)
  show "gates_open sample_X (sample_in ''e1'' Broker_raises) tight_engine sample_notional (Some 100) ''local''"
    by (rule sample_gates) code_simp
qed simp

text \<open>
  The absolute maximum of the hard caps does not bound such an order: with a maximum of one unit, an
  intent for a notional of 1000 at a price of 100 is sent with ten.
\<close>

lemma notional_order_exceeds_hard_cap:
  "map quantity (sent (snd (execute sample_X (sample_in ''e1'' (Accepted None)) sample_notional (Some 100) ''local'' tight_engine))) = [10] \<and>
   absolute_max_order_size (caps (e_caps tight_engine)) = 1"
  by code_simp

text \<open>An intent to be flat always sells, also when the position to close is short; the checks see a position of zero.\<close>

lemma flat_intent_sells:
  "in_side i = FLAT \<Longrightarrow>
   o_side (intent_to_order X e oid now i price) = ''sell'' \<and> new_position ctx (in_side i) current q = 0"
  by (simp add: intent_to_order_def Let_def new_position_def)

text \<open>A changed deployment identifier keeps the old count: the numbers of the first deployment are used again.\<close>

lemma changed_deployment_reuses_numbers:
  "\<not> distinct (map (\<lambda>x. entry_key (je_metadata x)) (oj_orders (e_journal (foldl (ex_step sample_X) (sample_engine 5)
     [sample_calls ! 0, Do_deployment ''d2'', Do_run ''r'', Do_deployment ''d'', sample_calls ! 1]))))"
  by code_simp

end
