(* ===== verification/Degraded_Mode.thy ===== *)
theory Degraded_Mode
  imports Prelude Py_Float
begin

section \<open>The degraded mode manager\<close>

text \<open>
  Model of \<^verbatim>\<open>packages/agent/daemon/degraded_mode.py\<close>: conditions that are reported, the
  modes and events they start and end, and the action in force.  Events are objects that the log and the
  table of active events share: they live in a heap.  Identifiers and clock readings are arguments;
  \<^verbatim>\<open>total_seconds()\<close> divides with the rounding of \<open>F\<close>.  What the callback is told is
  recorded in \<open>told\<close>; what it raises is swallowed.  The lock makes every method atomic; the
  monitoring thread is the sequence of its checks.
\<close>

datatype DegradedMode =
    NORMAL | CLOUD_UNREACHABLE | NETWORK_DEGRADED | DATA_FEED_STALE | DATA_FEED_INVALID | BROKER_UNREACHABLE
  | HIGH_LATENCY | RATE_LIMITED | MANUAL_RESTRICT | CLOUD_GRACE_PERIOD

datatype TradingMode = BACKTEST | PAPER | LIVE

datatype DegradedModeAction = CONTINUE | RESTRICT | CLOSE_ONLY | PAUSE | HALT

record DegradedModeConfig =
  trading_mode :: TradingMode
  cloud_timeout_seconds :: int
  data_stale_threshold_seconds :: int
  latency_threshold_ms :: int
  broker_timeout_seconds :: int
  live_cloud_grace_period_seconds :: int
  live_cloud_max_duration_seconds :: int
  live_force_halt_on_cloud_loss :: bool
  cloud_unreachable_action :: DegradedModeAction
  data_feed_stale_action :: DegradedModeAction
  data_feed_invalid_action :: DegradedModeAction
  broker_unreachable_action :: DegradedModeAction
  high_latency_action :: DegradedModeAction
  live_cloud_unreachable_action :: DegradedModeAction
  auto_recover :: bool
  recovery_check_interval_seconds :: int
  min_recovery_duration_seconds :: int
  notify_on_enter :: bool
  notify_on_exit :: bool

definition default_DegradedModeConfig :: DegradedModeConfig where
  "default_DegradedModeConfig =
     \<lparr>trading_mode = PAPER, cloud_timeout_seconds = 60, data_stale_threshold_seconds = 30, latency_threshold_ms = 2000,
      broker_timeout_seconds = 30, live_cloud_grace_period_seconds = 300, live_cloud_max_duration_seconds = 3600,
      live_force_halt_on_cloud_loss = False, cloud_unreachable_action = CONTINUE, data_feed_stale_action = PAUSE,
      data_feed_invalid_action = HALT, broker_unreachable_action = HALT, high_latency_action = RESTRICT,
      live_cloud_unreachable_action = RESTRICT, auto_recover = True, recovery_check_interval_seconds = 10,
      min_recovery_duration_seconds = 30, notify_on_enter = True, notify_on_exit = True\<rparr>"

definition get_cloud_unreachable_action :: "DegradedModeConfig \<Rightarrow> DegradedModeAction" where
  "get_cloud_unreachable_action c =
     (if trading_mode c = LIVE
      then if live_force_halt_on_cloud_loss c then HALT else live_cloud_unreachable_action c
      else cloud_unreachable_action c)"

record DegradedModeEvent =
  ev_id :: string
  ev_mode :: DegradedMode
  action_taken :: DegradedModeAction
  entered_at :: time
  exited_at :: "time option"
  ev_reason :: pymsg
  ev_details :: "(string, pyval) dict"
  auto_recovered :: bool

definition ev_active :: "DegradedModeEvent \<Rightarrow> bool" where
  "ev_active e = (exited_at e = None)"

definition duration :: "time \<Rightarrow> DegradedModeEvent \<Rightarrow> time" where
  "duration now e = (case exited_at e of Some t \<Rightarrow> t | None \<Rightarrow> now) - entered_at e"

record Manager =
  dm_config :: DegradedModeConfig
  has_callback :: bool
  current_modes :: "DegradedMode set"
  current_action :: DegradedModeAction
  dm_heap :: "DegradedModeEvent list"
  dm_events :: "nat list"
  active_events :: "(DegradedMode, nat) dict"
  last_cloud_contact :: "time option"
  last_data_update :: "time option"
  last_broker_contact :: "time option"
  monitoring :: bool
  told :: "(DegradedMode \<times> DegradedModeAction) list"

definition init_Manager :: "DegradedModeConfig \<Rightarrow> bool \<Rightarrow> Manager" where
  "init_Manager c cb =
     \<lparr>dm_config = c, has_callback = cb, current_modes = {NORMAL}, current_action = CONTINUE, dm_heap = [], dm_events = [],
      active_events = [], last_cloud_contact = None, last_data_update = None, last_broker_contact = None,
      monitoring = False, told = []\<rparr>"

subsection \<open>Queries\<close>

definition mode_priority :: "DegradedMode list" where
  "mode_priority =
     [BROKER_UNREACHABLE, DATA_FEED_INVALID, DATA_FEED_STALE, CLOUD_UNREACHABLE, HIGH_LATENCY, RATE_LIMITED,
      NETWORK_DEGRADED, MANUAL_RESTRICT, NORMAL]"

definition current_mode :: "Manager \<Rightarrow> DegradedMode" where
  "current_mode m = (case find (\<lambda>x. x \<in> current_modes m) mode_priority of Some x \<Rightarrow> x | None \<Rightarrow> NORMAL)"

definition is_degraded :: "Manager \<Rightarrow> bool" where
  "is_degraded m = (current_modes m \<noteq> {NORMAL})"

definition can_submit_order :: "Manager \<Rightarrow> bool" where
  "can_submit_order m = (current_action m \<in> {CONTINUE, RESTRICT})"

definition can_close_position :: "Manager \<Rightarrow> bool" where
  "can_close_position m = (current_action m \<in> {CONTINUE, RESTRICT, CLOSE_ONLY})"

definition is_halted :: "Manager \<Rightarrow> bool" where
  "is_halted m = (current_action m = HALT)"

definition is_paused :: "Manager \<Rightarrow> bool" where
  "is_paused m = (current_action m \<in> {PAUSE, HALT})"

definition get_history :: "int \<Rightarrow> Manager \<Rightarrow> DegradedModeEvent list" where
  "get_history n m = map (\<lambda>a. dm_heap m ! a) (slice_from (dm_events m) (- n))"

subsection \<open>Entering and leaving a mode\<close>

definition action_priority :: "DegradedModeAction list" where
  "action_priority = [HALT, PAUSE, CLOSE_ONLY, RESTRICT, CONTINUE]"

definition most_restrictive :: "DegradedModeAction list \<Rightarrow> DegradedModeAction" where
  "most_restrictive acts = (case find (\<lambda>a. a \<in> set acts) action_priority of Some a \<Rightarrow> a | None \<Rightarrow> CONTINUE)"

definition active_actions :: "Manager \<Rightarrow> DegradedModeAction list" where
  "active_actions m = map (\<lambda>a. action_taken (dm_heap m ! a)) (dict_values (active_events m))"

definition update_current_action :: "Manager \<Rightarrow> Manager" where
  "update_current_action m = m\<lparr>current_action := most_restrictive (active_actions m)\<rparr>"

definition tell :: "bool \<Rightarrow> DegradedMode \<Rightarrow> DegradedModeAction \<Rightarrow> Manager \<Rightarrow> Manager" where
  "tell notify mode act m = (if notify \<and> has_callback m then m\<lparr>told := told m @ [(mode, act)]\<rparr> else m)"

text \<open>The identifier and the clock reading of a new event are arguments.\<close>

definition enter_mode ::
  "string \<Rightarrow> time \<Rightarrow> DegradedMode \<Rightarrow> DegradedModeAction \<Rightarrow> pymsg \<Rightarrow> (string, pyval) dict \<Rightarrow> Manager \<Rightarrow> nat \<times> Manager" where
  "enter_mode eid now mode act reason details m =
     (case (if mode \<in> current_modes m \<and> mode \<noteq> NORMAL then dict_get (active_events m) mode else None) of
        Some a \<Rightarrow>
          (let e = dm_heap m ! a in
           (a, m\<lparr>dm_heap := (dm_heap m)[a := e\<lparr>ev_details := put_all (ev_details e) details\<rparr>]\<rparr>))
      | None \<Rightarrow>
          (let a = length (dm_heap m);
               e = \<lparr>ev_id = eid, ev_mode = mode, action_taken = act, entered_at = now, exited_at = None, ev_reason = reason,
                    ev_details = details, auto_recovered = False\<rparr>;
               m1 = m\<lparr>dm_heap := dm_heap m @ [e], current_modes := insert mode (current_modes m - {NORMAL}),
                      active_events := dict_set (active_events m) mode a, dm_events := append_trim 1000 (dm_events m) a\<rparr> in
           (a, tell (notify_on_enter (dm_config m)) mode act (update_current_action m1))))"

definition exit_mode :: "time \<Rightarrow> DegradedMode \<Rightarrow> Manager \<Rightarrow> nat option \<times> Manager" where
  "exit_mode now mode m =
     (if mode \<notin> current_modes m then (None, m)
      else
        (let ev = dict_get (active_events m) mode;
             m1 = (case ev of
                     None \<Rightarrow> m
                   | Some a \<Rightarrow>
                       m\<lparr>dm_heap := (dm_heap m)[a := (dm_heap m ! a)\<lparr>exited_at := Some now, auto_recovered := auto_recover (dm_config m)\<rparr>],
                         active_events := dict_del (active_events m) mode\<rparr>);
             rest = current_modes m1 - {mode};
             m2 = update_current_action (m1\<lparr>current_modes := (if rest = {} then {NORMAL} else rest)\<rparr>) in
         (ev, tell (notify_on_exit (dm_config m)) (current_mode m2) (current_action m2) m2)))"

subsection \<open>Reports\<close>

definition total_seconds :: "float_ops \<Rightarrow> time \<Rightarrow> pyfloat" where
  "total_seconds F d = fdiv F (Fin (of_int d)) (Fin 1000000)"

definition longer_than :: "float_ops \<Rightarrow> time \<Rightarrow> int \<Rightarrow> bool" where
  "longer_than F d n = flt_lt (Fin (of_int n)) (total_seconds F d)"

definition shorter_than :: "float_ops \<Rightarrow> time \<Rightarrow> int \<Rightarrow> bool" where
  "shorter_than F d n = flt_lt (total_seconds F d) (Fin (of_int n))"

text \<open>What a report reads from outside: a clock reading, and the identifier and time of an event.\<close>

record dm_draws =
  d_now :: time
  d_exit :: time
  d_at :: time
  d_id :: string

definition enter_event ::
  "dm_draws \<Rightarrow> DegradedMode \<Rightarrow> DegradedModeAction \<Rightarrow> pymsg \<Rightarrow> (string, pyval) dict \<Rightarrow> Manager \<Rightarrow> nat option \<times> Manager" where
  "enter_event d mode act reason details m = map_prod Some id (enter_mode (d_id d) (d_at d) mode act reason details m)"

definition report_cloud_status :: "float_ops \<Rightarrow> dm_draws \<Rightarrow> bool \<Rightarrow> Manager \<Rightarrow> nat option \<times> Manager" where
  "report_cloud_status F d up m =
     (if up then exit_mode (d_exit d) CLOUD_UNREACHABLE (m\<lparr>last_cloud_contact := Some (d_now d)\<rparr>)
      else
        (case last_cloud_contact m of
           Some t \<Rightarrow>
             if longer_than F (d_now d - t) (cloud_timeout_seconds (dm_config m))
             then enter_event d CLOUD_UNREACHABLE (cloud_unreachable_action (dm_config m))
                    (FStr ''Cloud unreachable for {:.0f}s'' [PFloat (total_seconds F (d_now d - t))])
                    [(''elapsed_seconds'', PFloat (total_seconds F (d_now d - t)))] m
             else (None, m)
         | None \<Rightarrow>
             enter_event d CLOUD_UNREACHABLE (cloud_unreachable_action (dm_config m))
               (FStr ''Cloud connection not established'' []) [] m))"

definition report_data_feed :: "float_ops \<Rightarrow> dm_draws \<Rightarrow> time option \<Rightarrow> bool \<Rightarrow> Manager \<Rightarrow> nat option \<times> Manager" where
  "report_data_feed F d upd valid m =
     (if \<not> valid
      then enter_event d DATA_FEED_INVALID (data_feed_invalid_action (dm_config m)) (FStr ''Data feed marked as invalid'' []) [] m
      else
        (let m1 = snd (exit_mode (d_exit d) DATA_FEED_INVALID m) in
         case upd of
           None \<Rightarrow>
             enter_event d DATA_FEED_STALE (data_feed_stale_action (dm_config m1)) (FStr ''No data feed updates received'' []) [] m1
         | Some t \<Rightarrow>
             (let m2 = m1\<lparr>last_data_update := Some t\<rparr> in
              if longer_than F (d_now d - t) (data_stale_threshold_seconds (dm_config m2))
              then enter_event d DATA_FEED_STALE (data_feed_stale_action (dm_config m2))
                     (FStr ''Data feed stale for {:.0f}s'' [PFloat (total_seconds F (d_now d - t))])
                     [(''elapsed_seconds'', PFloat (total_seconds F (d_now d - t)))] m2
              else exit_mode (d_at d) DATA_FEED_STALE m2)))"

definition report_broker_status :: "float_ops \<Rightarrow> dm_draws \<Rightarrow> bool \<Rightarrow> Manager \<Rightarrow> nat option \<times> Manager" where
  "report_broker_status F d up m =
     (if up then exit_mode (d_exit d) BROKER_UNREACHABLE (m\<lparr>last_broker_contact := Some (d_now d)\<rparr>)
      else
        (case last_broker_contact m of
           Some t \<Rightarrow>
             if longer_than F (d_now d - t) (broker_timeout_seconds (dm_config m))
             then enter_event d BROKER_UNREACHABLE (broker_unreachable_action (dm_config m))
                    (FStr ''Broker unreachable for {:.0f}s'' [PFloat (total_seconds F (d_now d - t))])
                    [(''elapsed_seconds'', PFloat (total_seconds F (d_now d - t)))] m
             else (None, m)
         | None \<Rightarrow>
             enter_event d BROKER_UNREACHABLE (broker_unreachable_action (dm_config m))
               (FStr ''Broker connection not established'' []) [] m))"

definition report_latency :: "dm_draws \<Rightarrow> int \<Rightarrow> Manager \<Rightarrow> nat option \<times> Manager" where
  "report_latency d ms m =
     (if ms > latency_threshold_ms (dm_config m)
      then enter_event d HIGH_LATENCY (high_latency_action (dm_config m)) (FStr ''High latency: {}ms'' [PInt ms])
             [(''latency_ms'', PInt ms)] m
      else exit_mode (d_exit d) HIGH_LATENCY m)"

definition enter_manual_restrict :: "dm_draws \<Rightarrow> string \<Rightarrow> Manager \<Rightarrow> nat option \<times> Manager" where
  "enter_manual_restrict d reason m = enter_event d MANUAL_RESTRICT RESTRICT (FStr ''{}'' [PStr reason]) [] m"

definition exit_manual_restrict :: "dm_draws \<Rightarrow> Manager \<Rightarrow> nat option \<times> Manager" where
  "exit_manual_restrict d m = exit_mode (d_exit d) MANUAL_RESTRICT m"

text \<open>One round of the monitoring thread; its three exits read the clock on their own.\<close>

definition recover_if :: "float_ops \<Rightarrow> time \<Rightarrow> time \<Rightarrow> DegradedMode \<Rightarrow> time option \<Rightarrow> int \<Rightarrow> Manager \<Rightarrow> Manager" where
  "recover_if F now out mode contact limit m =
     (case contact of
        Some t \<Rightarrow> if mode \<in> current_modes m \<and> shorter_than F (now - t) limit then snd (exit_mode out mode m) else m
      | None \<Rightarrow> m)"

definition check_auto_recovery :: "float_ops \<Rightarrow> time \<Rightarrow> time \<Rightarrow> time \<Rightarrow> time \<Rightarrow> Manager \<Rightarrow> Manager" where
  "check_auto_recovery F now at1 at2 at3 m =
     (let m1 = recover_if F now at1 CLOUD_UNREACHABLE (last_cloud_contact m) (cloud_timeout_seconds (dm_config m)) m;
          m2 = recover_if F now at2 DATA_FEED_STALE (last_data_update m1) (data_stale_threshold_seconds (dm_config m1)) m1 in
      recover_if F now at3 BROKER_UNREACHABLE (last_broker_contact m2) (broker_timeout_seconds (dm_config m2)) m2)"

definition start_monitoring :: "Manager \<Rightarrow> Manager" where
  "start_monitoring m = m\<lparr>monitoring := True\<rparr>"

definition stop_monitoring :: "Manager \<Rightarrow> Manager" where
  "stop_monitoring m = m\<lparr>monitoring := False\<rparr>"


subsection \<open>The conditions behind the manager\<close>

text \<open>
  What the manager promises: it keeps the conditions that hold with the action each of them asks for.  A
  condition that is reported again keeps its first action; the action in force is the most restrictive.
\<close>

definition conditions :: "Manager \<Rightarrow> DegradedMode \<Rightarrow> DegradedModeAction option" where
  "conditions m = (\<lambda>x. map_option (\<lambda>a. action_taken (dm_heap m ! a)) (dict_get (active_events m) x))"

definition raise_condition ::
  "DegradedMode \<Rightarrow> DegradedModeAction \<Rightarrow> (DegradedMode \<rightharpoonup> DegradedModeAction) \<Rightarrow> (DegradedMode \<rightharpoonup> DegradedModeAction)" where
  "raise_condition x act c = (if c x = None then c(x \<mapsto> act) else c)"

definition clear_condition :: "DegradedMode \<Rightarrow> (DegradedMode \<rightharpoonup> DegradedModeAction) \<Rightarrow> (DegradedMode \<rightharpoonup> DegradedModeAction)" where
  "clear_condition x c = c(x := None)"

definition dm_ok :: "Manager \<Rightarrow> bool" where
  "dm_ok m \<longleftrightarrow>
     dict_ok (active_events m) \<and> NORMAL \<notin> set (dict_keys (active_events m)) \<and>
     (\<forall>(x, a) \<in> set (active_events m). a < length (dm_heap m) \<and> ev_mode (dm_heap m ! a) = x) \<and>
     (\<forall>a < length (dm_heap m). exited_at (dm_heap m ! a) = None \<longleftrightarrow> a \<in> set (dict_values (active_events m))) \<and>
     current_modes m = (if active_events m = [] then {NORMAL} else set (dict_keys (active_events m))) \<and>
     current_action m = most_restrictive (active_actions m) \<and>
     int (length (dm_events m)) \<le> 1000 \<and> (\<forall>a \<in> set (dm_events m). a < length (dm_heap m))"

lemma tell_frame [simp]:
  "current_modes (tell b x a m) = current_modes m" "current_action (tell b x a m) = current_action m"
  "dm_heap (tell b x a m) = dm_heap m" "dm_events (tell b x a m) = dm_events m" "active_events (tell b x a m) = active_events m"
  "dm_config (tell b x a m) = dm_config m" "last_cloud_contact (tell b x a m) = last_cloud_contact m"
  "last_data_update (tell b x a m) = last_data_update m" "last_broker_contact (tell b x a m) = last_broker_contact m"
  by (simp_all add: tell_def)

lemma dm_ok_tell [simp]: "dm_ok (tell b x a m) = dm_ok m"
  by (simp add: dm_ok_def active_actions_def)

lemma conditions_tell [simp]: "conditions (tell b x a m) = conditions m"
  by (simp add: conditions_def)

lemma dm_ok_active: "dm_ok m \<Longrightarrow> dict_get (active_events m) x = Some a \<Longrightarrow> a < length (dm_heap m) \<and> ev_mode (dm_heap m ! a) = x"
  by (auto simp: dm_ok_def dest!: map_of_SomeD)

lemma dm_ok_mode: "dm_ok m \<Longrightarrow> x \<noteq> NORMAL \<Longrightarrow> x \<in> current_modes m \<longleftrightarrow> dict_get (active_events m) x \<noteq> None"
  by (auto simp: dm_ok_def map_of_eq_None_iff split: if_splits)

lemma dm_ok_inj:
  assumes "dm_ok m" "dict_get (active_events m) x = Some a" "dict_get (active_events m) y = Some a"
  shows "x = y"
  using dm_ok_active [OF assms(1,2)] dm_ok_active [OF assms(1,3)] by simp

lemma heap_active_actions:
  assumes "\<And>a. a \<in> set (dict_values (active_events m)) \<Longrightarrow> action_taken (h ! a) = action_taken (dm_heap m ! a)"
  shows "map (\<lambda>a. action_taken (h ! a)) (dict_values (active_events m)) = active_actions m"
  using assms by (simp add: active_actions_def)

lemma enter_again:
  assumes ok: "dm_ok m" and act: "dict_get (active_events m) x = Some a" and x: "x \<noteq> NORMAL"
  shows "dm_ok (snd (enter_mode eid now x act' reason details m)) \<and>
    conditions (snd (enter_mode eid now x act' reason details m)) = conditions m"
proof -
  let ?e = "dm_heap m ! a"
  let ?h = "(dm_heap m)[a := ?e\<lparr>ev_details := put_all (ev_details ?e) details\<rparr>]"
  have "x \<in> current_modes m" using dm_ok_mode [OF ok x] act by simp
  then have m': "snd (enter_mode eid now x act' reason details m) = m\<lparr>dm_heap := ?h\<rparr>"
    using act x by (simp add: enter_mode_def Let_def)
  have same: "action_taken (?h ! b) = action_taken (dm_heap m ! b)" "ev_mode (?h ! b) = ev_mode (dm_heap m ! b)"
    "exited_at (?h ! b) = exited_at (dm_heap m ! b)" if "b < length (dm_heap m)" for b
    using that by (cases "b = a"; simp)+
  have lt: "b < length (dm_heap m)" if "b \<in> set (dict_values (active_events m))" for b
    using ok that unfolding dm_ok_def by fastforce
  have "active_actions (m\<lparr>dm_heap := ?h\<rparr>) = active_actions m"
    using heap_active_actions [of m ?h] same lt by (simp add: active_actions_def)
  with ok have "dm_ok (m\<lparr>dm_heap := ?h\<rparr>)"
    unfolding dm_ok_def by (simp add: same split_beta)
  moreover have "conditions (m\<lparr>dm_heap := ?h\<rparr>) = conditions m"
  proof
    fix y
    show "conditions (m\<lparr>dm_heap := ?h\<rparr>) y = conditions m y"
      using dm_ok_active [OF ok, of y] by (cases "dict_get (active_events m) y") (auto simp: conditions_def same)
  qed
  ultimately show ?thesis by (simp add: m')
qed


lemma enter_new:
  assumes ok: "dm_ok m" and new: "dict_get (active_events m) x = None" and x: "x \<noteq> NORMAL"
  shows "dm_ok (snd (enter_mode eid now x act reason details m)) \<and>
    conditions (snd (enter_mode eid now x act reason details m)) = (conditions m)(x \<mapsto> act)"
proof -
  let ?a = "length (dm_heap m)"
  define e where "e = \<lparr>ev_id = eid, ev_mode = x, action_taken = act, entered_at = now, exited_at = None, ev_reason = reason,
    ev_details = details, auto_recovered = False\<rparr>"
  define m1 where "m1 = m\<lparr>dm_heap := dm_heap m @ [e], current_modes := insert x (current_modes m - {NORMAL}),
    active_events := dict_set (active_events m) x ?a, dm_events := append_trim 1000 (dm_events m) ?a\<rparr>"
  have "snd (enter_mode eid now x act reason details m) =
      tell (notify_on_enter (dm_config m)) x act (update_current_action m1)"
    using new by (simp add: enter_mode_def Let_def m1_def e_def)
  moreover have act: "active_events m1 = active_events m @ [(x, ?a)]" using new by (simp add: m1_def dict_set_new)
  have lt: "b < ?a" if "b \<in> set (dict_values (active_events m))" for b
    using ok that unfolding dm_ok_def by fastforce
  have heap: "dm_heap m1 = dm_heap m @ [e]" and modes: "current_modes m1 = insert x (current_modes m - {NORMAL})"
    by (simp_all add: m1_def)
  have "dm_ok (update_current_action m1)"
    unfolding dm_ok_def
  proof (intro conjI)
    show "dict_ok (active_events (update_current_action m1))"
      using ok by (simp add: update_current_action_def m1_def dm_ok_def dict_ok_set)
    show "NORMAL \<notin> set (dict_keys (active_events (update_current_action m1)))"
      using ok x by (simp add: update_current_action_def act dm_ok_def)
    show "\<forall>(y, b) \<in> set (active_events (update_current_action m1)).
        b < length (dm_heap (update_current_action m1)) \<and> ev_mode (dm_heap (update_current_action m1) ! b) = y"
      using ok by (fastforce simp: update_current_action_def act heap dm_ok_def nth_append e_def)
    show "\<forall>b < length (dm_heap (update_current_action m1)).
        exited_at (dm_heap (update_current_action m1) ! b) = None \<longleftrightarrow> b \<in> set (dict_values (active_events (update_current_action m1)))"
      using ok by (auto simp: update_current_action_def act heap dm_ok_def nth_append e_def less_Suc_eq)
    show "current_modes (update_current_action m1) =
        (if active_events (update_current_action m1) = [] then {NORMAL} else set (dict_keys (active_events (update_current_action m1))))"
      using ok by (auto simp: update_current_action_def act dm_ok_def modes split: if_splits)
    show "current_action (update_current_action m1) = most_restrictive (active_actions (update_current_action m1))"
      by (simp add: update_current_action_def active_actions_def)
    show "int (length (dm_events (update_current_action m1))) \<le> 1000"
      using ok append_trim_length [of 1000 "dm_events m" ?a] by (simp add: update_current_action_def m1_def dm_ok_def)
    show "\<forall>b \<in> set (dm_events (update_current_action m1)). b < length (dm_heap (update_current_action m1))"
      using ok append_trim_subset [of 1000 "dm_events m" ?a]
      by (fastforce simp: update_current_action_def m1_def dm_ok_def)
  qed
  moreover have "conditions (update_current_action m1) = (conditions m)(x \<mapsto> act)"
  proof
    fix y
    show "conditions (update_current_action m1) y = ((conditions m)(x \<mapsto> act)) y"
      using dm_ok_active [OF ok, of y] new
      by (cases "dict_get (active_events m) y")
        (auto simp: conditions_def update_current_action_def m1_def nth_append e_def)
  qed
  ultimately show ?thesis by simp
qed

lemma exit_active:
  assumes ok: "dm_ok m" and act: "dict_get (active_events m) x = Some a" and x: "x \<noteq> NORMAL"
  shows "dm_ok (snd (exit_mode now x m)) \<and> conditions (snd (exit_mode now x m)) = (conditions m)(x := None)"
proof -
  let ?h = "(dm_heap m)[a := (dm_heap m ! a)\<lparr>exited_at := Some now, auto_recovered := auto_recover (dm_config m)\<rparr>]"
  let ?rest = "current_modes m - {x}"
  define m1 where "m1 = m\<lparr>dm_heap := ?h, active_events := dict_del (active_events m) x,
    current_modes := (if ?rest = {} then {NORMAL} else ?rest)\<rparr>"
  have cur: "x \<in> current_modes m" using dm_ok_mode [OF ok x] act by simp
  then have ex: "snd (exit_mode now x m) = tell (notify_on_exit (dm_config m)) (current_mode (update_current_action m1))
      (current_action (update_current_action m1)) (update_current_action m1)"
    using act by (simp add: exit_mode_def Let_def m1_def)
  have alt: "a < length (dm_heap m)" using dm_ok_active [OF ok act] by simp
  have inj: "b = a \<longleftrightarrow> y = x" if "(y, b) \<in> set (active_events m)" for y b
  proof -
    have "dict_get (active_events m) y = Some b" using ok that by (simp add: dm_ok_def dict_ok_get_iff)
    then show ?thesis using dm_ok_inj [OF ok act, of y] act by auto
  qed
  have mem: "p \<in> set (active_events m1) \<longleftrightarrow> p \<in> set (active_events m) \<and> fst p \<noteq> x" for p
    by (auto simp: m1_def dict_del_def)
  have vals: "b \<in> set (dict_values (active_events m1)) \<longleftrightarrow> b \<in> set (dict_values (active_events m)) \<and> b \<noteq> a" for b
    using inj mem by (fastforce simp: image_iff)
  have "set (dict_keys (active_events m)) = current_modes m"
    using ok act by (auto simp: dm_ok_def split: if_splits)
  then have keys: "set (dict_keys (active_events m1)) = ?rest" by (auto simp: m1_def dict_keys_del)
  then have none: "active_events m1 = [] \<longleftrightarrow> ?rest = {}" by (cases "active_events m1") auto
  have modes: "current_modes m1 = (if ?rest = {} then {NORMAL} else ?rest)" by (simp add: m1_def)
  have same: "ev_mode (?h ! b) = ev_mode (dm_heap m ! b)" "action_taken (?h ! b) = action_taken (dm_heap m ! b)"
    if "b < length (dm_heap m)" for b
    using that by (cases "b = a"; simp)+
  have "dm_ok (update_current_action m1)"
    unfolding dm_ok_def
  proof (intro conjI)
    show "dict_ok (active_events (update_current_action m1))"
      using ok by (simp add: update_current_action_def m1_def dm_ok_def dict_ok_del)
    show "NORMAL \<notin> set (dict_keys (active_events (update_current_action m1)))"
      using ok by (auto simp: update_current_action_def m1_def dm_ok_def dict_keys_del)
    show "\<forall>(y, b) \<in> set (active_events (update_current_action m1)).
        b < length (dm_heap (update_current_action m1)) \<and> ev_mode (dm_heap (update_current_action m1) ! b) = y"
      using ok by (auto simp: update_current_action_def mem dm_ok_def) (auto simp: m1_def same)
    show "\<forall>b < length (dm_heap (update_current_action m1)).
        exited_at (dm_heap (update_current_action m1) ! b) = None \<longleftrightarrow> b \<in> set (dict_values (active_events (update_current_action m1)))"
    proof (intro allI impI)
      fix b assume "b < length (dm_heap (update_current_action m1))"
      then have b: "b < length (dm_heap m)" by (simp add: update_current_action_def m1_def)
      then have "exited_at (dm_heap m ! b) = None \<longleftrightarrow> b \<in> set (dict_values (active_events m))" using ok by (simp add: dm_ok_def)
      then show "exited_at (dm_heap (update_current_action m1) ! b) = None \<longleftrightarrow>
          b \<in> set (dict_values (active_events (update_current_action m1)))"
        using b vals [of b] by (cases "b = a") (simp_all add: update_current_action_def, simp_all add: m1_def)
    qed
    show "current_modes (update_current_action m1) =
        (if active_events (update_current_action m1) = [] then {NORMAL} else set (dict_keys (active_events (update_current_action m1))))"
      using keys none by (simp add: update_current_action_def modes)
    show "current_action (update_current_action m1) = most_restrictive (active_actions (update_current_action m1))"
      by (simp add: update_current_action_def active_actions_def)
    show "int (length (dm_events (update_current_action m1))) \<le> 1000"
      using ok by (simp add: update_current_action_def m1_def dm_ok_def)
    show "\<forall>b \<in> set (dm_events (update_current_action m1)). b < length (dm_heap (update_current_action m1))"
      using ok by (simp add: update_current_action_def m1_def dm_ok_def)
  qed
  moreover have "conditions (update_current_action m1) = (conditions m)(x := None)"
  proof
    fix y
    show "conditions (update_current_action m1) y = ((conditions m)(x := None)) y"
      using dm_ok_active [OF ok, of y]
      by (cases "dict_get (active_events m) y") (auto simp: conditions_def update_current_action_def m1_def same)
  qed
  ultimately show ?thesis by (simp add: ex)
qed

lemma exit_inactive: "dm_ok m \<Longrightarrow> dict_get (active_events m) x = None \<Longrightarrow> x \<noteq> NORMAL \<Longrightarrow> exit_mode now x m = (None, m)"
  using dm_ok_mode [of m x] by (simp add: exit_mode_def)

lemma conditions_None: "conditions m x = None \<longleftrightarrow> dict_get (active_events m) x = None"
  by (simp add: conditions_def)

text \<open>The two commuting squares: entering and leaving a mode implement raising and clearing a condition.\<close>

lemma enter_refines:
  assumes "dm_ok m" "x \<noteq> NORMAL"
  shows "dm_ok (snd (enter_mode eid now x act reason details m)) \<and>
    conditions (snd (enter_mode eid now x act reason details m)) = raise_condition x act (conditions m)"
proof (cases "dict_get (active_events m) x")
  case None
  then show ?thesis using enter_new [OF assms(1) None assms(2)] by (simp add: raise_condition_def conditions_None)
next
  case (Some a)
  then have "raise_condition x act (conditions m) = conditions m"
    using conditions_None [of m x] by (auto simp: raise_condition_def)
  with enter_again [OF assms(1) Some assms(2)] show ?thesis by simp
qed

lemma exit_refines:
  assumes "dm_ok m" "x \<noteq> NORMAL"
  shows "dm_ok (snd (exit_mode now x m)) \<and> conditions (snd (exit_mode now x m)) = clear_condition x (conditions m)"
proof (cases "dict_get (active_events m) x")
  case None
  then have "conditions m x = None" by (simp add: conditions_None)
  then have "clear_condition x (conditions m) = conditions m" by (auto simp: clear_condition_def)
  with assms None show ?thesis by (simp add: exit_inactive)
next
  case (Some a)
  then show ?thesis using exit_active [OF assms(1) Some assms(2)] by (simp add: clear_condition_def)
qed


subsection \<open>Reports as steps on the conditions\<close>

datatype dm_call =
    Cloud dm_draws bool
  | Feed dm_draws "time option" bool
  | Broker dm_draws bool
  | Latency dm_draws int
  | Restrict dm_draws string
  | Unrestrict dm_draws
  | Recovery time time time time
  | Start_monitor
  | Stop_monitor

fun dm_exec :: "float_ops \<Rightarrow> Manager \<Rightarrow> dm_call \<Rightarrow> Manager" where
  "dm_exec F m (Cloud d b) = snd (report_cloud_status F d b m)"
| "dm_exec F m (Feed d upd valid) = snd (report_data_feed F d upd valid m)"
| "dm_exec F m (Broker d b) = snd (report_broker_status F d b m)"
| "dm_exec F m (Latency d ms) = snd (report_latency d ms m)"
| "dm_exec F m (Restrict d reason) = snd (enter_manual_restrict d reason m)"
| "dm_exec F m (Unrestrict d) = snd (exit_manual_restrict d m)"
| "dm_exec F m (Recovery now t1 t2 t3) = check_auto_recovery F now t1 t2 t3 m"
| "dm_exec F m Start_monitor = start_monitoring m"
| "dm_exec F m Stop_monitor = stop_monitoring m"

text \<open>The specification: the conditions and the three contact times.\<close>

record dm_spec =
  sp_cond :: "DegradedMode \<rightharpoonup> DegradedModeAction"
  sp_cloud :: "time option"
  sp_data :: "time option"
  sp_broker :: "time option"

definition spec_of :: "Manager \<Rightarrow> dm_spec" where
  "spec_of m = \<lparr>sp_cond = conditions m, sp_cloud = last_cloud_contact m, sp_data = last_data_update m,
     sp_broker = last_broker_contact m\<rparr>"

definition mode_action :: "DegradedModeConfig \<Rightarrow> DegradedMode \<Rightarrow> DegradedModeAction" where
  "mode_action c x =
     (case x of CLOUD_UNREACHABLE \<Rightarrow> cloud_unreachable_action c | DATA_FEED_INVALID \<Rightarrow> data_feed_invalid_action c
      | DATA_FEED_STALE \<Rightarrow> data_feed_stale_action c | BROKER_UNREACHABLE \<Rightarrow> broker_unreachable_action c
      | HIGH_LATENCY \<Rightarrow> high_latency_action c | MANUAL_RESTRICT \<Rightarrow> RESTRICT | _ \<Rightarrow> CONTINUE)"

definition sp_raise :: "DegradedModeConfig \<Rightarrow> DegradedMode \<Rightarrow> dm_spec \<Rightarrow> dm_spec" where
  "sp_raise c x s = s\<lparr>sp_cond := raise_condition x (mode_action c x) (sp_cond s)\<rparr>"

definition sp_clear :: "DegradedMode \<Rightarrow> dm_spec \<Rightarrow> dm_spec" where
  "sp_clear x s = s\<lparr>sp_cond := clear_condition x (sp_cond s)\<rparr>"

definition sp_recover :: "float_ops \<Rightarrow> time \<Rightarrow> DegradedMode \<Rightarrow> time option \<Rightarrow> int \<Rightarrow> dm_spec \<Rightarrow> dm_spec" where
  "sp_recover F now x contact limit s =
     (case contact of Some t \<Rightarrow> if shorter_than F (now - t) limit then sp_clear x s else s | None \<Rightarrow> s)"

fun spec_step :: "float_ops \<Rightarrow> DegradedModeConfig \<Rightarrow> dm_spec \<Rightarrow> dm_call \<Rightarrow> dm_spec" where
  "spec_step F c s (Cloud d b) =
     (if b then sp_clear CLOUD_UNREACHABLE (s\<lparr>sp_cloud := Some (d_now d)\<rparr>)
      else case sp_cloud s of
        Some t \<Rightarrow> if longer_than F (d_now d - t) (cloud_timeout_seconds c) then sp_raise c CLOUD_UNREACHABLE s else s
      | None \<Rightarrow> sp_raise c CLOUD_UNREACHABLE s)"
| "spec_step F c s (Feed d upd valid) =
     (if \<not> valid then sp_raise c DATA_FEED_INVALID s
      else case upd of
        None \<Rightarrow> sp_raise c DATA_FEED_STALE (sp_clear DATA_FEED_INVALID s)
      | Some t \<Rightarrow>
          (let s' = (sp_clear DATA_FEED_INVALID s)\<lparr>sp_data := Some t\<rparr> in
           if longer_than F (d_now d - t) (data_stale_threshold_seconds c) then sp_raise c DATA_FEED_STALE s'
           else sp_clear DATA_FEED_STALE s'))"
| "spec_step F c s (Broker d b) =
     (if b then sp_clear BROKER_UNREACHABLE (s\<lparr>sp_broker := Some (d_now d)\<rparr>)
      else case sp_broker s of
        Some t \<Rightarrow> if longer_than F (d_now d - t) (broker_timeout_seconds c) then sp_raise c BROKER_UNREACHABLE s else s
      | None \<Rightarrow> sp_raise c BROKER_UNREACHABLE s)"
| "spec_step F c s (Latency d ms) =
     (if ms > latency_threshold_ms c then sp_raise c HIGH_LATENCY s else sp_clear HIGH_LATENCY s)"
| "spec_step F c s (Restrict d reason) = sp_raise c MANUAL_RESTRICT s"
| "spec_step F c s (Unrestrict d) = sp_clear MANUAL_RESTRICT s"
| "spec_step F c s (Recovery now t1 t2 t3) =
     sp_recover F now BROKER_UNREACHABLE (sp_broker s) (broker_timeout_seconds c)
       (sp_recover F now DATA_FEED_STALE (sp_data s) (data_stale_threshold_seconds c)
         (sp_recover F now CLOUD_UNREACHABLE (sp_cloud s) (cloud_timeout_seconds c) s))"
| "spec_step F c s Start_monitor = s"
| "spec_step F c s Stop_monitor = s"

definition refines :: "DegradedModeConfig \<Rightarrow> Manager \<Rightarrow> dm_spec \<Rightarrow> bool" where
  "refines c m s \<longleftrightarrow> dm_ok m \<and> dm_config m = c \<and> spec_of m = s"

lemma update_current_action_frame [simp]:
  "dm_config (update_current_action m) = dm_config m" "last_cloud_contact (update_current_action m) = last_cloud_contact m"
  "last_data_update (update_current_action m) = last_data_update m"
  "last_broker_contact (update_current_action m) = last_broker_contact m"
  by (simp_all add: update_current_action_def)

lemma enter_frame [simp]:
  "dm_config (snd (enter_mode eid now x act reason details m)) = dm_config m"
  "last_cloud_contact (snd (enter_mode eid now x act reason details m)) = last_cloud_contact m"
  "last_data_update (snd (enter_mode eid now x act reason details m)) = last_data_update m"
  "last_broker_contact (snd (enter_mode eid now x act reason details m)) = last_broker_contact m"
  by (simp_all add: enter_mode_def Let_def split: option.split)

lemma exit_frame [simp]:
  "dm_config (snd (exit_mode now x m)) = dm_config m" "last_cloud_contact (snd (exit_mode now x m)) = last_cloud_contact m"
  "last_data_update (snd (exit_mode now x m)) = last_data_update m"
  "last_broker_contact (snd (exit_mode now x m)) = last_broker_contact m"
  by (simp_all add: exit_mode_def Let_def split: option.split)

lemma refines_raise:
  assumes "refines c m s" and "x \<noteq> NORMAL" and "act = mode_action c x"
  shows "refines c (snd (enter_event d x act reason details m)) (sp_raise c x s)"
  using assms enter_refines [of m x]
  by (auto simp: refines_def spec_of_def sp_raise_def enter_event_def)

lemma refines_clear:
  assumes "refines c m s" and "x \<noteq> NORMAL"
  shows "refines c (snd (exit_mode now x m)) (sp_clear x s)"
  using assms exit_refines [of m x] by (auto simp: refines_def spec_of_def sp_clear_def)

lemma dm_ok_times [simp]:
  "dm_ok (m\<lparr>last_cloud_contact := t\<rparr>) = dm_ok m" "dm_ok (m\<lparr>last_data_update := t\<rparr>) = dm_ok m"
  "dm_ok (m\<lparr>last_broker_contact := t\<rparr>) = dm_ok m" "dm_ok (m\<lparr>monitoring := b\<rparr>) = dm_ok m"
  by (simp_all add: dm_ok_def active_actions_def)

lemma refines_times:
  "refines c m s \<Longrightarrow> refines c (m\<lparr>last_cloud_contact := t\<rparr>) (s\<lparr>sp_cloud := t\<rparr>)"
  "refines c m s \<Longrightarrow> refines c (m\<lparr>last_data_update := t\<rparr>) (s\<lparr>sp_data := t\<rparr>)"
  "refines c m s \<Longrightarrow> refines c (m\<lparr>last_broker_contact := t\<rparr>) (s\<lparr>sp_broker := t\<rparr>)"
  "refines c m s \<Longrightarrow> refines c (m\<lparr>monitoring := b\<rparr>) s"
  by (auto simp: refines_def spec_of_def conditions_def)

lemma refines_times_eq:
  assumes "refines c m s"
  shows "last_cloud_contact m = sp_cloud s" "last_data_update m = sp_data s" "last_broker_contact m = sp_broker s" "dm_config m = c"
  using assms by (auto simp: refines_def spec_of_def)

lemma refines_recover:
  assumes r: "refines c m s" and x: "x \<noteq> NORMAL"
  shows "refines c (recover_if F now out x contact limit m) (sp_recover F now x contact limit s)"
proof (cases "x \<in> current_modes m")
  case True
  with r x show ?thesis by (auto simp: recover_if_def sp_recover_def refines_clear split: option.split)
next
  case False
  then have "exit_mode now x m = (None, m)" for now by (simp add: exit_mode_def)
  with refines_clear [OF r x, of out] have "refines c m (sp_clear x s)" by simp
  with False r show ?thesis by (auto simp: recover_if_def sp_recover_def split: option.split)
qed


lemma refines_step:
  assumes r: "refines c m s"
  shows "refines c (dm_exec F m call) (spec_step F c s call)"
proof (cases call)
  case (Cloud d b)
  with r show ?thesis
    by (auto simp: report_cloud_status_def refines_times_eq [OF r] mode_action_def refines_times
      intro!: refines_clear refines_raise split: option.split)
next
  case (Feed d upd valid)
  have m1: "refines c (snd (exit_mode (d_exit d) DATA_FEED_INVALID m)) (sp_clear DATA_FEED_INVALID s)"
    by (rule refines_clear [OF r]) simp
  show ?thesis
    unfolding Feed dm_exec.simps spec_step.simps report_data_feed_def Let_def
    by (auto simp: refines_times_eq [OF r] refines_times_eq [OF m1] mode_action_def refines_times m1 r
      intro!: refines_raise refines_clear split: option.split)
next
  case (Broker d b)
  with r show ?thesis
    by (auto simp: report_broker_status_def refines_times_eq [OF r] mode_action_def refines_times
      intro!: refines_clear refines_raise split: option.split)
next
  case (Latency d ms)
  with r show ?thesis
    by (auto simp: report_latency_def refines_times_eq [OF r] mode_action_def intro!: refines_clear refines_raise)
next
  case (Restrict d reason)
  with r show ?thesis by (auto simp: enter_manual_restrict_def mode_action_def intro!: refines_raise)
next
  case (Unrestrict d)
  with r show ?thesis by (auto simp: exit_manual_restrict_def intro!: refines_clear)
next
  case (Recovery now t1 t2 t3)
  have frame: "last_data_update (recover_if F now out x ct n m) = last_data_update m"
    "last_broker_contact (recover_if F now out x ct n m) = last_broker_contact m"
    "dm_config (recover_if F now out x ct n m) = dm_config m" for out x ct n m
    by (simp_all add: recover_if_def split: option.split)
  show ?thesis
    unfolding Recovery dm_exec.simps spec_step.simps check_auto_recovery_def Let_def frame refines_times_eq [OF r]
    by (intro refines_recover r) simp_all
qed (use r in \<open>simp_all add: start_monitoring_def stop_monitoring_def refines_times\<close>)

definition init_spec :: dm_spec where
  "init_spec = \<lparr>sp_cond = Map.empty, sp_cloud = None, sp_data = None, sp_broker = None\<rparr>"

lemma refines_init: "refines c (init_Manager c cb) init_spec"
  by (simp add: refines_def dm_ok_def init_Manager_def spec_of_def init_spec_def conditions_def most_restrictive_def
    active_actions_def action_priority_def)

interpretation dms: simulation "dm_exec F" "spec_step F c" "refines c" for F c
  by unfold_locales (rule refines_step)

lemmas refines_run = dms.sim_run

text \<open>What the manager answers, in terms of the conditions.\<close>

lemma most_restrictive_iff:
  "most_restrictive acts = HALT \<longleftrightarrow> HALT \<in> set acts"
  "most_restrictive acts \<in> {CONTINUE, RESTRICT} \<longleftrightarrow> set acts \<subseteq> {CONTINUE, RESTRICT}"
proof -
  have all: "a \<noteq> CONTINUE \<Longrightarrow> a \<noteq> RESTRICT \<Longrightarrow> a \<in> {HALT, PAUSE, CLOSE_ONLY}" for a by (cases a) simp_all
  show "most_restrictive acts = HALT \<longleftrightarrow> HALT \<in> set acts"
    by (simp add: most_restrictive_def action_priority_def)
  show "most_restrictive acts \<in> {CONTINUE, RESTRICT} \<longleftrightarrow> set acts \<subseteq> {CONTINUE, RESTRICT}"
    by (simp add: most_restrictive_def action_priority_def) (use all in blast)
qed

lemma ran_conditions:
  assumes "dm_ok m"
  shows "ran (conditions m) = set (active_actions m)"
proof -
  have "dict_get (active_events m) x = Some a \<longleftrightarrow> (x, a) \<in> set (active_events m)" for x a
    using assms by (simp add: dm_ok_def dict_ok_get_iff)
  then show ?thesis by (force simp: ran_def conditions_def active_actions_def)
qed

lemma refines_answers:
  assumes "refines c m s"
  shows "can_submit_order m \<longleftrightarrow> ran (sp_cond s) \<subseteq> {CONTINUE, RESTRICT}" and "is_halted m \<longleftrightarrow> HALT \<in> ran (sp_cond s)"
    and "is_degraded m \<longleftrightarrow> sp_cond s \<noteq> Map.empty"
proof -
  have ok: "dm_ok m" and s: "sp_cond s = conditions m" using assms by (auto simp: refines_def spec_of_def)
  have act: "current_action m = most_restrictive (active_actions m)" using ok by (simp add: dm_ok_def)
  show "can_submit_order m \<longleftrightarrow> ran (sp_cond s) \<subseteq> {CONTINUE, RESTRICT}"
    unfolding s ran_conditions [OF ok] can_submit_order_def act by (rule most_restrictive_iff(2))
  show "is_halted m \<longleftrightarrow> HALT \<in> ran (sp_cond s)"
    unfolding s ran_conditions [OF ok] is_halted_def act by (rule most_restrictive_iff(1))
  have "conditions m = Map.empty \<longleftrightarrow> active_events m = []"
    by (cases "active_events m") (auto simp: conditions_def fun_eq_iff)
  moreover have "current_modes m = {NORMAL} \<longleftrightarrow> active_events m = []"
    using ok by (cases "active_events m") (auto simp: dm_ok_def)
  ultimately show "is_degraded m \<longleftrightarrow> sp_cond s \<noteq> Map.empty" by (simp add: s is_degraded_def)
qed

lemma refines_action:
  assumes "refines c m s" and "refines c' m' s"
  shows "current_action m = current_action m'"
proof -
  have "set (active_actions m) = set (active_actions m')"
    using assms ran_conditions [of m] ran_conditions [of m'] by (auto simp: refines_def spec_of_def)
  with assms show ?thesis by (simp add: refines_def dm_ok_def most_restrictive_def)
qed



subsection \<open>What follows\<close>

lemma spec_action:
  assumes "\<forall>x a. sp_cond s x = Some a \<longrightarrow> a = mode_action c x"
  shows "\<forall>x a. sp_cond (spec_step F c s call) x = Some a \<longrightarrow> a = mode_action c x"
  using assms
  by (cases call)
    (auto simp: sp_raise_def sp_clear_def sp_recover_def raise_condition_def clear_condition_def Let_def split: option.splits if_splits)

lemma spec_run_action: "\<forall>x a. sp_cond (foldl (spec_step F c) init_spec calls) x = Some a \<longrightarrow> a = mode_action c x"
proof (induction calls rule: rev_induct)
  case Nil
  then show ?case by (simp add: init_spec_def)
next
  case (snoc call calls)
  then show ?case unfolding foldl_append foldl.simps by (rule spec_action)
qed

definition reports_valid_feed :: "dm_call \<Rightarrow> bool" where
  "reports_valid_feed call = (case call of Feed d upd valid \<Rightarrow> valid | _ \<Rightarrow> False)"

lemma invalid_kept:
  "\<not> reports_valid_feed call \<Longrightarrow> sp_cond s DATA_FEED_INVALID \<noteq> None \<Longrightarrow>
   sp_cond (spec_step F c s call) DATA_FEED_INVALID \<noteq> None"
  by (cases call)
    (auto simp: reports_valid_feed_def sp_raise_def sp_clear_def sp_recover_def raise_condition_def clear_condition_def
      split: option.splits if_splits)

lemma invalid_kept_run:
  "list_all (\<lambda>x. \<not> reports_valid_feed x) calls \<Longrightarrow> sp_cond s DATA_FEED_INVALID \<noteq> None \<Longrightarrow>
   sp_cond (foldl (spec_step F c) s calls) DATA_FEED_INVALID \<noteq> None"
proof (induction calls arbitrary: s)
  case (Cons call calls)
  then show ?case using invalid_kept [of call s F c] by simp
qed simp

text \<open>
  Once the data feed is reported invalid and the configuration says halt, trading stays halted
  through every other report and every round of the recovery monitor, until the feed is reported valid.
\<close>

theorem invalid_feed_halts_until_valid_report:
  assumes "data_feed_invalid_action c = HALT" and "list_all (\<lambda>x. \<not> reports_valid_feed x) later"
  shows "is_halted (foldl (dm_exec F) (init_Manager c cb) (earlier @ [Feed d upd False] @ later)) \<and>
    \<not> can_submit_order (foldl (dm_exec F) (init_Manager c cb) (earlier @ [Feed d upd False] @ later))"
proof -
  let ?s = "foldl (spec_step F c) init_spec earlier"
  let ?all = "earlier @ [Feed d upd False] @ later"
  have "sp_cond (spec_step F c ?s (Feed d upd False)) DATA_FEED_INVALID \<noteq> None"
    by (simp add: sp_raise_def raise_condition_def)
  from invalid_kept_run [OF assms(2) this]
  obtain a where a: "sp_cond (foldl (spec_step F c) init_spec ?all) DATA_FEED_INVALID = Some a" by auto
  then have "a = mode_action c DATA_FEED_INVALID" using spec_run_action [of F c ?all] by blast
  then have "a = HALT" using assms(1) by (simp add: mode_action_def)
  with a have "HALT \<in> ran (sp_cond (foldl (spec_step F c) init_spec ?all))" by (auto simp: ran_def)
  moreover have "refines c (foldl (dm_exec F) (init_Manager c cb) ?all) (foldl (spec_step F c) init_spec ?all)"
    by (rule refines_run [OF refines_init])
  ultimately show ?thesis using refines_answers by (auto simp: can_submit_order_def is_halted_def)
qed

definition sample_draws :: "time \<Rightarrow> dm_draws" where
  "sample_draws t = \<lparr>d_now = t, d_exit = t, d_at = t, d_id = ''e''\<rparr>"

theorem invalid_feed_halts_until_valid_report_witness:
  "is_halted (foldl (dm_exec exact_ops) (init_Manager default_DegradedModeConfig True)
     ([Cloud (sample_draws 0) True] @ [Feed (sample_draws 1) None False] @ [Recovery 2 2 2 2, Broker (sample_draws 3) True]))"
  using invalid_feed_halts_until_valid_report [of default_DegradedModeConfig "[Recovery 2 2 2 2, Broker (sample_draws 3) True]"
      exact_ops True "[Cloud (sample_draws 0) True]" "sample_draws 1" None]
  by (simp add: default_DegradedModeConfig_def reports_valid_feed_def)

text \<open>
  The trading mode and the settings for live trading have no effect: whatever is reported, a manager
  configured for live trading with a forced halt on the loss of the cloud decides as one without.
\<close>

theorem live_cloud_policy_without_effect:
  "current_action (foldl (dm_exec F) (init_Manager (c\<lparr>trading_mode := tm, live_force_halt_on_cloud_loss := b,
       live_cloud_unreachable_action := a\<rparr>) cb) calls) =
   current_action (foldl (dm_exec F) (init_Manager c cb) calls)"
proof -
  let ?c = "c\<lparr>trading_mode := tm, live_force_halt_on_cloud_loss := b, live_cloud_unreachable_action := a\<rparr>"
  have raise: "sp_raise ?c = sp_raise c" by (intro ext) (simp add: sp_raise_def mode_action_def split: DegradedMode.split)
  have "spec_step F ?c s call = spec_step F c s call" for s call 
    by (cases call) (simp_all add: raise Let_def split: option.split)
  then have eq: "spec_step F ?c = spec_step F c" by (intro ext)
  have "refines ?c (foldl (dm_exec F) (init_Manager ?c cb) calls) (foldl (spec_step F ?c) init_spec calls)"
    by (rule refines_run [OF refines_init])
  then have "refines ?c (foldl (dm_exec F) (init_Manager ?c cb) calls) (foldl (spec_step F c) init_spec calls)"
    unfolding eq .
  moreover have "refines c (foldl (dm_exec F) (init_Manager c cb) calls) (foldl (spec_step F c) init_spec calls)"
    by (rule refines_run [OF refines_init])
  ultimately show ?thesis by (rule refines_action)
qed

lemma live_force_halt_ignored:
  "get_cloud_unreachable_action (default_DegradedModeConfig\<lparr>trading_mode := LIVE, live_force_halt_on_cloud_loss := True\<rparr>) = HALT \<and>
   can_submit_order (dm_exec exact_ops
     (init_Manager (default_DegradedModeConfig\<lparr>trading_mode := LIVE, live_force_halt_on_cloud_loss := True\<rparr>) True)
     (Cloud (sample_draws 0) False))"
  by code_simp

text \<open>
  The recovery monitor compares old contact times: a feed that has just reported that it has no data is
  taken for recovered when an update before that report is recent.  A restriction leaves orders allowed, also a
  manual one.
\<close>

lemma feed_without_data_recovers:
  "is_paused (foldl (dm_exec exact_ops) (init_Manager default_DegradedModeConfig True)
     [Feed (sample_draws 0) (Some 0) True, Feed (sample_draws 1) None True]) \<and>
   \<not> is_degraded (foldl (dm_exec exact_ops) (init_Manager default_DegradedModeConfig True)
     [Feed (sample_draws 0) (Some 0) True, Feed (sample_draws 1) None True, Recovery 2 2 2 2])"
  by code_simp

lemma manual_restriction_allows_orders:
  "can_submit_order (dm_exec F (init_Manager c cb) (Restrict d reason))"
  by (simp add: enter_manual_restrict_def enter_event_def enter_mode_def init_Manager_def Let_def can_submit_order_def
    update_current_action_def active_actions_def most_restrictive_def action_priority_def)

end
