(* ===== verification/Command_Journal.thy ===== *)
theory Command_Journal
  imports Prelude
begin

section \<open>The command journal\<close>

text \<open>
  Model of \<^verbatim>\<open>CommandJournal\<close> in \<^verbatim>\<open>packages/agent/reconciliation/journal.py\<close>: the
  table of cloud commands the agent has received, with the command identifier as primary key.  The
  table is the list of its rows in the order of insertion.  The connection is opened with the default
  \<^verbatim>\<open>check_same_thread\<close>: SQLite's Python module lets only the thread that opened it use it.
  Results are kept as the dictionary their JSON text denotes.
\<close>

datatype CommandStatus = RECEIVED | IN_PROGRESS | COMPLETED | FAILED | SKIPPED

fun CommandStatus_value :: "CommandStatus \<Rightarrow> string" where
  "CommandStatus_value RECEIVED = ''received''"
| "CommandStatus_value IN_PROGRESS = ''in_progress''"
| "CommandStatus_value COMPLETED = ''completed''"
| "CommandStatus_value FAILED = ''failed''"
| "CommandStatus_value SKIPPED = ''skipped''"

record CommandEntry =
  ce_id :: string
  ce_key :: string
  ce_type :: string
  ce_status :: CommandStatus
  ce_payload :: "string option"
  ce_result :: "(string, pyval) dict option"
  ce_error :: pyval
  ce_received :: time
  ce_executed :: "time option"
  ce_created :: time
  ce_updated :: time

record CommandJournal =
  cj_rows :: "CommandEntry list"
  cj_thread :: nat

definition open_journal :: "nat \<Rightarrow> CommandEntry list \<Rightarrow> CommandJournal" where
  "open_journal t rows = \<lparr>cj_rows = rows, cj_thread = t\<rparr>"

text \<open>A method called by thread \<open>t\<close>.\<close>

datatype cj_error = Wrong_thread

definition on_thread :: "nat \<Rightarrow> (CommandJournal \<Rightarrow> 'a \<times> CommandJournal) \<Rightarrow> CommandJournal \<Rightarrow> (cj_error, 'a, CommandJournal) pyres" where
  "on_thread t f j = (if t = cj_thread j then (case f j of (r, j') \<Rightarrow> py_return r j') else py_raise Wrong_thread j)"

definition get_command :: "string \<Rightarrow> CommandJournal \<Rightarrow> CommandEntry option" where
  "get_command cid j = find (\<lambda>e. ce_id e = cid) (cj_rows j)"

definition received_entry :: "time \<Rightarrow> string \<Rightarrow> string \<Rightarrow> string \<Rightarrow> string option \<Rightarrow> CommandEntry" where
  "received_entry now cid key ct payload =
     \<lparr>ce_id = cid, ce_key = key, ce_type = ct, ce_status = RECEIVED, ce_payload = payload, ce_result = None, ce_error = PNone,
      ce_received = now, ce_executed = None, ce_created = now, ce_updated = now\<rparr>"

definition log_received ::
  "time \<Rightarrow> string \<Rightarrow> string \<Rightarrow> string \<Rightarrow> string option \<Rightarrow> CommandJournal \<Rightarrow> CommandEntry option \<times> CommandJournal" where
  "log_received now cid key ct payload j =
     (case get_command cid j of
        Some e \<Rightarrow> (Some e, j)
      | None \<Rightarrow>
          (let e = received_entry now cid key ct payload in (Some e, j\<lparr>cj_rows := cj_rows j @ [e]\<rparr>)))"

text \<open>\<^verbatim>\<open>UPDATE ... WHERE command_id = ?\<close>; the result is whether a row was changed.\<close>

definition update_rows :: "string \<Rightarrow> (CommandEntry \<Rightarrow> CommandEntry) \<Rightarrow> CommandJournal \<Rightarrow> bool \<times> CommandJournal" where
  "update_rows cid f j =
     (get_command cid j \<noteq> None, j\<lparr>cj_rows := map (\<lambda>e. if ce_id e = cid then f e else e) (cj_rows j)\<rparr>)"

definition mark_in_progress :: "time \<Rightarrow> string \<Rightarrow> CommandJournal \<Rightarrow> bool \<times> CommandJournal" where
  "mark_in_progress now cid = update_rows cid (\<lambda>e. e\<lparr>ce_status := IN_PROGRESS, ce_updated := now\<rparr>)"

definition mark_completed :: "time \<Rightarrow> string \<Rightarrow> (string, pyval) dict option \<Rightarrow> CommandJournal \<Rightarrow> bool \<times> CommandJournal" where
  "mark_completed now cid res =
     update_rows cid (\<lambda>e. e\<lparr>ce_status := COMPLETED, ce_result := (if truthy res then res else None),
       ce_executed := Some now, ce_updated := now\<rparr>)"

definition mark_failed :: "time \<Rightarrow> string \<Rightarrow> pyval \<Rightarrow> CommandJournal \<Rightarrow> bool \<times> CommandJournal" where
  "mark_failed now cid err =
     update_rows cid (\<lambda>e. e\<lparr>ce_status := FAILED, ce_error := err, ce_executed := Some now, ce_updated := now\<rparr>)"

definition mark_skipped :: "time \<Rightarrow> string \<Rightarrow> string \<Rightarrow> CommandJournal \<Rightarrow> bool \<times> CommandJournal" where
  "mark_skipped now cid reason =
     update_rows cid (\<lambda>e. e\<lparr>ce_status := SKIPPED, ce_error := PStr reason, ce_updated := now\<rparr>)"

definition done_status :: "CommandStatus \<Rightarrow> bool" where
  "done_status s = (s \<in> {COMPLETED, FAILED, SKIPPED})"

definition is_executed :: "string \<Rightarrow> string option \<Rightarrow> CommandJournal \<Rightarrow> bool" where
  "is_executed cid key j =
     (case get_command cid j of
        Some e \<Rightarrow> done_status (ce_status e)
      | None \<Rightarrow> truthy key \<and> (\<exists>e \<in> set (cj_rows j). ce_key e = the key \<and> done_status (ce_status e)))"

definition get_by_idempotency_key :: "string \<Rightarrow> CommandJournal \<Rightarrow> CommandEntry option" where
  "get_by_idempotency_key key j = find (\<lambda>e. ce_key e = key) (cj_rows j)"

definition get_executed_command_ids :: "CommandJournal \<Rightarrow> string set" where
  "get_executed_command_ids j = set (map ce_id (filter (\<lambda>e. done_status (ce_status e)) (cj_rows j)))"

definition get_pending_commands :: "CommandJournal \<Rightarrow> CommandEntry list" where
  "get_pending_commands j = sort_key ce_received (filter (\<lambda>e. ce_status e \<in> {RECEIVED, IN_PROGRESS}) (cj_rows j))"

definition get_recent_commands :: "int \<Rightarrow> CommandJournal \<Rightarrow> CommandEntry list" where
  "get_recent_commands n j = limit_rows n (sort_key (\<lambda>e. - ce_created e) (cj_rows j))"

subsection \<open>Rows\<close>

definition cj_ok :: "CommandJournal \<Rightarrow> bool" where
  "cj_ok j = distinct (map ce_id (cj_rows j))"

lemma get_command_None: "get_command cid j = None \<longleftrightarrow> cid \<notin> set (map ce_id (cj_rows j))"
  by (auto simp: get_command_def find_None_iff)

lemma get_command_Some:
  assumes "cj_ok j"
  shows "get_command cid j = Some e \<longleftrightarrow> e \<in> set (cj_rows j) \<and> ce_id e = cid"
proof
  assume "get_command cid j = Some e"
  then show "e \<in> set (cj_rows j) \<and> ce_id e = cid" by (auto simp: get_command_def find_Some_iff)
next
  assume e: "e \<in> set (cj_rows j) \<and> ce_id e = cid"
  then obtain x where x: "get_command cid j = Some x" using get_command_None [of cid j] by fastforce
  then have "x \<in> set (cj_rows j) \<and> ce_id x = cid" by (auto simp: get_command_def find_Some_iff)
  with e assms have "x = e" by (auto simp: cj_ok_def distinct_map inj_on_def)
  with x show "get_command cid j = Some e" by simp
qed

lemma update_rows_ids: "(\<And>e. ce_id (f e) = ce_id e) \<Longrightarrow> map ce_id (cj_rows (snd (update_rows cid f j))) = map ce_id (cj_rows j)"
  by (simp add: update_rows_def)

lemma update_rows_thread [simp]: "cj_thread (snd (update_rows cid f j)) = cj_thread j"
  by (simp add: update_rows_def)

lemma marks_thread [simp]:
  "cj_thread (snd (mark_in_progress now cid j)) = cj_thread j" "cj_thread (snd (mark_completed now cid r j)) = cj_thread j"
  "cj_thread (snd (mark_failed now cid e j)) = cj_thread j" "cj_thread (snd (mark_skipped now cid s j)) = cj_thread j"
  "cj_thread (snd (log_received now cid key ct p j)) = cj_thread j"
  by (simp_all add: mark_in_progress_def mark_completed_def mark_failed_def mark_skipped_def log_received_def Let_def
    split: option.split)

lemma marks_ids:
  "map ce_id (cj_rows (snd (mark_in_progress now cid j))) = map ce_id (cj_rows j)"
  "map ce_id (cj_rows (snd (mark_completed now cid r j))) = map ce_id (cj_rows j)"
  "map ce_id (cj_rows (snd (mark_failed now cid e j))) = map ce_id (cj_rows j)"
  "map ce_id (cj_rows (snd (mark_skipped now cid s j))) = map ce_id (cj_rows j)"
  by (simp_all add: mark_in_progress_def mark_completed_def mark_failed_def mark_skipped_def update_rows_ids)

lemma marks_ok [simp]:
  "cj_ok (snd (mark_in_progress now cid j)) = cj_ok j" "cj_ok (snd (mark_completed now cid r j)) = cj_ok j"
  "cj_ok (snd (mark_failed now cid e j)) = cj_ok j" "cj_ok (snd (mark_skipped now cid s j)) = cj_ok j"
  by (simp_all only: cj_ok_def marks_ids)

lemma log_received_rows:
  "cj_rows (snd (log_received now cid key ct p j)) =
   (if cid \<in> set (map ce_id (cj_rows j)) then cj_rows j else cj_rows j @ [received_entry now cid key ct p])"
  using get_command_None [of cid j] by (auto simp: log_received_def Let_def split: option.split)

lemma log_received_ok: "cj_ok j \<Longrightarrow> cj_ok (snd (log_received now cid key ct p j))"
  by (simp add: cj_ok_def log_received_rows) (simp add: received_entry_def)

end
