(* ===== verification/Agent_Daemon.thy ===== *)
theory Agent_Daemon
  imports Kill_Switch Approval_Manager Command_Journal Py_Float Py_Text
begin

section \<open>The agent daemon\<close>

text \<open>
  Model of the life cycle and of the command handling of \<^verbatim>\<open>AgentDaemon\<close> in
  \<^verbatim>\<open>packages/agent/daemon/agentd.py\<close>, on top of the kill switch, the approval manager and the
  command journal.  The callback of the kill switch changes the state of the daemon: what the kill
  switch sees of the world is the part \<open>Shell\<close> of the daemon.  Threads have numbers, \<open>0\<close> is
  the one that made the daemon.  \<open>ran\<close> and \<open>to_cloud\<close> record which commands were
  executed and which calls of the cloud were answered.  Arguments stand for what comes from outside:
  clock readings, drawn identifiers, whether a call to the cloud, the sandbox or the disk raised, the
  result of the preflight checks, the answers of the broker.  Telemetry is left out.
\<close>

datatype DaemonState =
    CREATED | INITIALIZING | ENROLLING | IDLE | RUNNING | PAUSED | STOPPING | STOPPED | HALTED | ERROR

fun DaemonState_name :: "DaemonState \<Rightarrow> string" where
  "DaemonState_name CREATED = ''CREATED''"
| "DaemonState_name INITIALIZING = ''INITIALIZING''"
| "DaemonState_name ENROLLING = ''ENROLLING''"
| "DaemonState_name IDLE = ''IDLE''"
| "DaemonState_name RUNNING = ''RUNNING''"
| "DaemonState_name PAUSED = ''PAUSED''"
| "DaemonState_name STOPPING = ''STOPPING''"
| "DaemonState_name STOPPED = ''STOPPED''"
| "DaemonState_name HALTED = ''HALTED''"
| "DaemonState_name ERROR = ''ERROR''"

datatype broker_call = Cancel_all | Flatten_all

record Shell =
  d_state :: DaemonState
  started_at :: "time option"
  active_run_id :: "string option"
  emitted :: "DaemonState list"
  stop_event :: bool
  next_thread :: nat
  heartbeat_thread :: "nat option"
  monitor_thread :: "nat option"
  broker_calls :: "broker_call list"

text \<open>
  \<^verbatim>\<open>PendingCommand\<close> of \<^verbatim>\<open>packages/agent/cloud/types.py\<close>; identifiers are texts,
  the two times (of creation and of expiry) are not read by the daemon and left out.
\<close>

record PendingCommand =
  cmd_id :: string
  cmd_status :: string
  cmd_key :: string
  cmd_type :: string
  cmd_payload :: string
  cmd_class :: string
  cmd_requires_approval :: bool
  cmd_deployment :: "string option"
  cmd_run :: "string option"

datatype cloud_msg =
    Acknowledged string
  | Result string bool "(string, pyval) dict option" pyval
  | Local_approval string bool pyval pyval

record Daemon =
  sh :: Shell
  d_ks :: "Shell KillSwitchManager option"
  d_am :: "unit ApprovalManager"
  has_client :: bool
  d_journal :: "CommandJournal option"
  executed_ids :: "string set"
  pending_approval :: "(string, string) dict"
  submitted :: "string set"
  require_preflight :: bool
  has_sandbox :: bool
  to_cloud :: "cloud_msg list"
  ran :: "PendingCommand list"

text \<open>What does not change during a run: the hash of events, and the answers of the broker, counted.\<close>

record agent_env =
  a_hash :: Kill_Switch.hasher
  a_evidence :: Approval_Manager.hasher
  a_cancel :: "nat \<Rightarrow> int option"
  a_flatten :: "nat \<Rightarrow> bool option"

definition set_state :: "DaemonState \<Rightarrow> Shell \<Rightarrow> Shell" where
  "set_state s w = w\<lparr>d_state := s, emitted := emitted w @ [s]\<rparr>"

definition init_Daemon :: "bool \<Rightarrow> bool \<Rightarrow> unit ApprovalManager \<Rightarrow> Daemon" where
  "init_Daemon preflight sandbox am =
     \<lparr>sh = \<lparr>d_state = CREATED, started_at = None, active_run_id = None, emitted = [], stop_event = False, next_thread = 1,
            heartbeat_thread = None, monitor_thread = None, broker_calls = []\<rparr>,
      d_ks = None, d_am = am, has_client = False, d_journal = None, executed_ids = {}, pending_approval = [],
      submitted = {}, require_preflight = preflight, has_sandbox = sandbox, to_cloud = [], ran = []\<rparr>"

definition on_shell :: "(Shell \<Rightarrow> Shell) \<Rightarrow> Daemon \<Rightarrow> Daemon" where
  "on_shell f d = d\<lparr>sh := f (sh d)\<rparr>"

text \<open>A call of the kill switch, which sees the present shell; without a kill switch it does nothing.\<close>

definition run_ks :: "(Shell KillSwitchManager \<Rightarrow> 'r \<times> Shell KillSwitchManager) \<Rightarrow> 'r \<Rightarrow> Daemon \<Rightarrow> 'r \<times> Daemon" where
  "run_ks f dflt d =
     (case d_ks d of
        None \<Rightarrow> (dflt, d)
      | Some k \<Rightarrow> (case f (k\<lparr>world := sh d\<rparr>) of (r, k') \<Rightarrow> (r, d\<lparr>d_ks := Some k', sh := world k'\<rparr>)))"

definition ks_triggered :: "Daemon \<Rightarrow> bool" where
  "ks_triggered d = (case d_ks d of None \<Rightarrow> False | Some k \<Rightarrow> triggered k)"

subsection \<open>Initialisation\<close>

definition handle_kill_switch :: "Shell \<Rightarrow> HaltReason \<Rightarrow> Shell" where
  "handle_kill_switch w reason = set_state HALTED w"

definition cancel_all :: "agent_env \<Rightarrow> Shell \<Rightarrow> int option \<times> Shell" where
  "cancel_all E w = (a_cancel E (length (broker_calls w)), w\<lparr>broker_calls := broker_calls w @ [Cancel_all]\<rparr>)"

definition flatten_all :: "agent_env \<Rightarrow> Shell \<Rightarrow> bool option \<times> Shell" where
  "flatten_all E w = (a_flatten E (length (broker_calls w)), w\<lparr>broker_calls := broker_calls w @ [Flatten_all]\<rparr>)"

definition init_kill_switch :: "agent_env \<Rightarrow> KillSwitchConfig \<Rightarrow> disk \<Rightarrow> Daemon \<Rightarrow> Daemon" where
  "init_kill_switch E c f d =
     d\<lparr>d_ks := Some (init_KillSwitchManager (a_hash E) c (Some handle_kill_switch) (Some (cancel_all E)) (Some (flatten_all E)) f (sh d))\<rparr>"

definition init_command_journal :: "nat \<Rightarrow> CommandEntry list \<Rightarrow> Daemon \<Rightarrow> Daemon" where
  "init_command_journal t rows d =
     (let j = open_journal t rows in d\<lparr>d_journal := Some j, executed_ids := get_executed_command_ids j\<rparr>)"

text \<open>
  \<open>fault\<close>: \<open>None\<close> when every component was made, otherwise whether the kill switch had
  been made before one of the others raised (the command journal comes last).
\<close>

definition initialize ::
  "agent_env \<Rightarrow> nat \<Rightarrow> KillSwitchConfig \<Rightarrow> disk \<Rightarrow> bool \<Rightarrow> CommandEntry list \<Rightarrow> bool option \<Rightarrow> Daemon \<Rightarrow> bool \<times> Daemon" where
  "initialize E t c f client rows fault d =
     (if d_state (sh d) \<noteq> CREATED then (d_state (sh d) \<noteq> ERROR, d)
      else
        (let d1 = on_shell (set_state INITIALIZING) d in
         case fault of
           Some made \<Rightarrow>
             (False, on_shell (\<lambda>w. w\<lparr>d_state := ERROR\<rparr>) (if made then init_kill_switch E c f d1 else d1))
         | None \<Rightarrow>
             (True, on_shell (set_state IDLE) (init_command_journal t rows ((init_kill_switch E c f d1)\<lparr>has_client := client\<rparr>)))))"

subsection \<open>Life cycle\<close>

record start_in =
  si_now :: time
  si_run :: string
  si_preflight :: "string list option"
  si_sandbox :: "string option"

text \<open>\<open>si_preflight\<close> are the errors of failed checks, \<open>si_sandbox\<close> the text of an exception.\<close>

definition halt_message :: "Daemon \<Rightarrow> pyval" where
  "halt_message d =
     (case d_ks d of
        None \<Rightarrow> PStr ''unknown''
      | Some k \<Rightarrow> (case current_halt k of None \<Rightarrow> PStr ''unknown'' | Some a \<Rightarrow> message (halt_reason (events k ! a))))"

definition start :: "start_in \<Rightarrow> string option \<Rightarrow> Daemon \<Rightarrow> (bool \<times> pymsg option) \<times> Daemon" where
  "start I run d =
     (let st = d_state (sh d) in
      if st = RUNNING then ((True, None), d)
      else if st \<notin> {IDLE, STOPPED, PAUSED}
      then ((False, Some (FStr ''Cannot start from state {}'' [PStr (DaemonState_name st)])), d)
      else if ks_triggered d then ((False, Some (FStr ''Kill switch triggered: {}'' [halt_message d])), d)
      else
        (case (if require_preflight d then si_preflight I else None) of
           Some errs \<Rightarrow> ((False, Some (FStr ''Preflight failed: {}'' [PStr (join ''; '' errs)])), d)
         | None \<Rightarrow>
             (let w1 = (sh d)\<lparr>started_at := Some (si_now I), d_state := RUNNING,
                       active_run_id := Some (if truthy run then the run else si_run I)\<rparr>;
                  w2 = w1\<lparr>emitted := emitted w1 @ [RUNNING], heartbeat_thread := Some (next_thread w1),
                          monitor_thread := Some (next_thread w1 + 1), next_thread := next_thread w1 + 2\<rparr> in
              case (if has_sandbox d then si_sandbox I else None) of
                Some err \<Rightarrow> ((False, Some (FStr ''{}'' [PStr err])), d\<lparr>sh := w2\<lparr>d_state := ERROR\<rparr>\<rparr>)
              | None \<Rightarrow> ((True, None), d\<lparr>sh := w2\<rparr>))))"

text \<open>
  Stopping waits for the two background threads; waiting for oneself raises.  \<open>fault\<close>: something
  after that raised (sandbox, telemetry, disk).
\<close>

definition stop :: "nat \<Rightarrow> bool \<Rightarrow> Daemon \<Rightarrow> bool \<times> Daemon" where
  "stop t fault d =
     (if d_state (sh d) \<in> {STOPPED, CREATED} then (True, d)
      else
        (let w1 = (set_state STOPPING (sh d))\<lparr>stop_event := True\<rparr> in
         if heartbeat_thread w1 = Some t \<or> monitor_thread w1 = Some t \<or> fault then (False, d\<lparr>sh := w1\<lparr>d_state := ERROR\<rparr>\<rparr>)
         else (True, d\<lparr>sh := (set_state STOPPED w1)\<lparr>active_run_id := None\<rparr>\<rparr>)))"

definition pause :: "Daemon \<Rightarrow> bool \<times> Daemon" where
  "pause d = (if d_state (sh d) \<noteq> RUNNING then (False, d) else (True, on_shell (set_state PAUSED) d))"

definition resume :: "Daemon \<Rightarrow> bool \<times> Daemon" where
  "resume d =
     (if d_state (sh d) \<noteq> PAUSED then (False, d)
      else if ks_triggered d then (False, d) else (True, on_shell (set_state RUNNING) d))"

definition halt :: "agent_env \<Rightarrow> HaltReason \<Rightarrow> HaltAction \<Rightarrow> trigger_draws \<Rightarrow> Daemon \<Rightarrow> (ks_error, bool, Daemon) pyres" where
  "halt E reason act td d =
     (case run_ks (\<lambda>k. ks_trigger (a_hash E) k reason act td) (Inr 0) d of
        (Inl err, d') \<Rightarrow> py_raise err d'
      | (Inr _, d') \<Rightarrow> py_return True (on_shell (set_state HALTED) d'))"

definition acknowledge_halt :: "string \<Rightarrow> string \<Rightarrow> time \<Rightarrow> time \<Rightarrow> bool \<Rightarrow> Daemon \<Rightarrow> bool \<times> Daemon" where
  "acknowledge_halt who code now saved_at io d = run_ks (\<lambda>k. ks_acknowledge k who code now saved_at io) False d"

definition reset_halt :: "time \<Rightarrow> time \<Rightarrow> time \<Rightarrow> bool \<Rightarrow> Daemon \<Rightarrow> bool \<times> Daemon" where
  "reset_halt now recovered_at saved_at io d =
     (if d_state (sh d) \<noteq> HALTED then (True, d)
      else
        (case run_ks (\<lambda>k. reset k now recovered_at saved_at io) True d of
           (False, d') \<Rightarrow> (False, d')
         | (True, d') \<Rightarrow> (True, on_shell (set_state IDLE) d')))"

text \<open>The clock has drifted by more than five seconds; what is raised is swallowed by the monitor thread.\<close>

definition drift_reason :: "stamp \<Rightarrow> pyfloat \<Rightarrow> HaltReason" where
  "drift_reason st drift =
     mk_reason st TIME_SYNC_DRIFT SEV_HIGH (PFormat ''Time drift of {:.1f}s detected'' [PFloat drift])
       [(''drift_seconds'', PFloat drift)] ''TimeSyncChecker''"


definition handle_time_drift :: "agent_env \<Rightarrow> pyfloat \<Rightarrow> stamp \<Rightarrow> trigger_draws \<Rightarrow> Daemon \<Rightarrow> Daemon" where
  "handle_time_drift E drift st td d =
     (if flt_lt (Fin 5) (flt_abs drift) then snd (halt E (drift_reason st drift) HALT_ONLY td d) else d)"

text \<open>A call of the kill switch by another part of the agent (order rates, errors, reconciliation).\<close>

definition monitor_call :: "agent_env \<Rightarrow> ks_call \<Rightarrow> Daemon \<Rightarrow> Daemon" where
  "monitor_call E c d = snd (run_ks (\<lambda>k. ((), ks_exec (a_hash E) k c)) () d)"

subsection \<open>Commands of the cloud\<close>

text \<open>
  What one command reads from outside: clock readings of the journal, whether the three calls of the
  cloud are answered (\<open>False\<close>: they raise), the draws of a start, a stop and a request.
\<close>

record cmd_in =
  ci_logged :: time
  ci_progress :: time
  ci_done :: time
  ci_ack :: bool
  ci_result :: bool
  ci_approval :: bool
  ci_start :: start_in
  ci_fault :: bool
  ci_request :: request_draws

datatype agent_error = Journal cj_error | Approval am_error

type_synonym command_outcome = "bool \<times> (string, pyval) dict \<times> pyval"

definition msg_text :: "pymsg option \<Rightarrow> pyval" where
  "msg_text m = (case m of None \<Rightarrow> PNone | Some (FStr f vs) \<Rightarrow> PFormat f vs)"

definition opt_id :: "string option \<Rightarrow> pyval" where
  "opt_id s = (case s of None \<Rightarrow> PNone | Some t \<Rightarrow> PStr t)"

text \<open>
  The handlers of upgrades and of configurations begin by reading \<^verbatim>\<open>cmd.command_id\<close>, an attribute
  a \<^verbatim>\<open>PendingCommand\<close> does not have, before their own error handling: they always raise.
\<close>

definition no_command_id :: command_outcome where
  "no_command_id = (False, [], PStr ''PendingCommand object has no attribute command_id'')"

definition execute_cloud_command :: "nat \<Rightarrow> cmd_in \<Rightarrow> PendingCommand \<Rightarrow> Daemon \<Rightarrow> command_outcome \<times> Daemon" where
  "execute_cloud_command t I c d =
     (let ct = cmd_type c in
      if ct = ''REQUEST_START_RUN'' then
        (case start (ci_start I) (cmd_run c) d of
           ((ok, err), d') \<Rightarrow>
             ((ok, [(''action'', PStr ''started''), (''run_id'', opt_id (active_run_id (sh d')))], msg_text err), d'))
      else if ct = ''REQUEST_STOP_RUN'' then
        (case stop t (ci_fault I) d of
           (ok, d') \<Rightarrow> ((ok, [(''action'', PStr ''stopped'')], if ok then PNone else PStr ''Failed to stop''), d'))
      else if ct = ''REQUEST_PAUSE_RUN'' then
        (case pause d of
           (ok, d') \<Rightarrow> ((ok, [(''action'', PStr ''paused'')], if ok then PNone else PStr ''Failed to pause''), d'))
      else if ct = ''REQUEST_UPGRADE_ARTIFACT'' \<or> ct = ''REQUEST_UPDATE_CONFIG'' then (no_command_id, d)
      else if ct = ''REQUEST_ROTATE_AGENT_SESSION'' then ((True, [(''action'', PStr ''rotate_session_acknowledged'')], PNone), d)
      else if ct = ''REQUEST_EXPORT_LOGS'' then ((True, [(''action'', PStr ''export_logs_acknowledged'')], PNone), d)
      else ((False, [], PFormat ''Unknown command_type: {}'' [PStr ct]), d))"

text \<open>A call of the journal by thread \<open>t\<close>; without a journal it is skipped.\<close>

definition journal_do ::
  "nat \<Rightarrow> (CommandJournal \<Rightarrow> 'a \<times> CommandJournal) \<Rightarrow> 'a \<Rightarrow> Daemon \<Rightarrow> (agent_error, 'a, Daemon) pyres" where
  "journal_do t f dflt d =
     (case d_journal d of
        None \<Rightarrow> py_return dflt d
      | Some j \<Rightarrow>
          (case on_thread t f j of
             (Inl err, _) \<Rightarrow> py_raise (Journal err) d
           | (Inr r, j') \<Rightarrow> py_return r (d\<lparr>d_journal := Some j'\<rparr>)))"

definition parsed_class :: "PendingCommand \<Rightarrow> ChangeClass" where
  "parsed_class c =
     (case enum_by_value ChangeClass_value all_change_classes (PStr (cmd_class c)) of Some cc \<Rightarrow> cc | None \<Rightarrow> TRADING_IMPACTING)"

definition log_cmd :: "nat \<Rightarrow> cmd_in \<Rightarrow> PendingCommand \<Rightarrow> Daemon \<Rightarrow> (agent_error, CommandEntry option, Daemon) pyres" where
  "log_cmd t I c = journal_do t (log_received (ci_logged I) (cmd_id c) (cmd_key c) (cmd_type c) (Some (cmd_payload c))) None"

text \<open>A trading-impacting command without the flag is refused; an exception on the way is swallowed.\<close>

definition refuse_command :: "nat \<Rightarrow> cmd_in \<Rightarrow> PendingCommand \<Rightarrow> Daemon \<Rightarrow> Daemon" where
  "refuse_command t I c d =
     snd (run_then (run_then (log_cmd t I c d)
        (journal_do t (mark_failed (ci_done I) (cmd_id c) (PStr ''Refused: TRADING_IMPACTING without requires_approval'')) True))
        (\<lambda>d'. if \<not> ci_ack I then py_return () d'
              else
                (let d1 = d'\<lparr>to_cloud := to_cloud d' @ [Acknowledged (cmd_id c)]\<rparr> in
                 if \<not> ci_result I then py_return () d1
                 else py_return ()
                   (d1\<lparr>to_cloud := to_cloud d1 @ [Result (cmd_id c) False None
                        (PStr ''Refused: TRADING_IMPACTING command without requires_approval (fail-closed).'')],
                      executed_ids := insert (cmd_id c) (executed_ids d1)\<rparr>))))"

definition approval_args :: "PendingCommand \<Rightarrow> request_args" where
  "approval_args c =
     \<lparr>ra_command_type = cmd_type c, ra_description = ''Cloud command '' @ cmd_type c @ '' requires local approval'', ra_change_class = parsed_class c,
      ra_details = Some [(''command_id'', PStr (cmd_id c)), (''idempotency_key'', PStr (cmd_key c)), (''payload_ref'', PStr (cmd_payload c))],
      ra_config_digest_old = None, ra_config_digest_new = None,
      ra_artifact_digest = (if prefix ''sha256:'' (cmd_payload c) then Some (cmd_payload c) else None)\<rparr>"

definition find_request :: "PendingCommand \<Rightarrow> Daemon \<Rightarrow> ApprovalRequest option" where
  "find_request c d =
     (let rid = dict_get (pending_approval d) (cmd_id c) in if truthy rid then get_request (d_am d) (the rid) else None)"

definition ask_locally ::
  "agent_env \<Rightarrow> cmd_in \<Rightarrow> PendingCommand \<Rightarrow> Daemon \<Rightarrow> (agent_error, ApprovalRequest, Daemon) pyres" where
  "ask_locally E I c d =
     (case find_request c d of
        Some r \<Rightarrow> py_return r d
      | None \<Rightarrow>
          (case create_request (a_evidence E) (d_am d) (approval_args c) (ci_request I) of
             (Inl err, am) \<Rightarrow> py_raise (Approval err) (d\<lparr>d_am := am\<rparr>)
           | (Inr r, am) \<Rightarrow>
               py_return r (d\<lparr>d_am := am, pending_approval := dict_set (pending_approval d) (cmd_id c) (request_id r)\<rparr>)))"

definition approval_phase ::
  "agent_env \<Rightarrow> cmd_in \<Rightarrow> PendingCommand \<Rightarrow> Daemon \<Rightarrow> (agent_error, unit, Daemon) pyres" where
  "approval_phase E I c d =
     (if cmd_id c \<in> submitted d then py_return () d
      else
        (case ask_locally E I c d of
           (Inl err, d') \<Rightarrow> py_raise err d'
         | (Inr r, d') \<Rightarrow>
             if Approval_Manager.status r = APPROVED \<and> py_truth (Approval_Manager.evidence_hash r) \<and> ci_approval I
             then py_return ()
               (d'\<lparr>to_cloud := to_cloud d' @
                    [Local_approval (cmd_id c) True (PFormat ''sha256:{}'' [Approval_Manager.evidence_hash r])
                       (if py_truth (decision_reason r) then decision_reason r else PStr ''Approved by local policy'')],
                  submitted := insert (cmd_id c) (submitted d')\<rparr>)
             else py_return () d'))"

definition report_result :: "cmd_in \<Rightarrow> PendingCommand \<Rightarrow> command_outcome \<Rightarrow> Daemon \<Rightarrow> Daemon" where
  "report_result I c out d =
     (case out of (ok, res, err) \<Rightarrow>
        if ci_result I
        then d\<lparr>to_cloud := to_cloud d @ [Result (cmd_id c) ok (if ok then Some res else None) (if ok then PNone else err)],
               executed_ids := insert (cmd_id c) (executed_ids d)\<rparr>
        else d)"

definition finish_cmd ::
  "nat \<Rightarrow> cmd_in \<Rightarrow> PendingCommand \<Rightarrow> command_outcome \<Rightarrow> Daemon \<Rightarrow> (agent_error, unit, Daemon) pyres" where
  "finish_cmd t I c out d =
     (case out of (ok, res, err) \<Rightarrow>
        run_then
          (journal_do t
             (if ok then mark_completed (ci_done I) (cmd_id c) (Some res)
              else mark_failed (ci_done I) (cmd_id c) (if py_truth err then err else PStr ''Unknown error'')) True d)
          (\<lambda>d'. py_return () (report_result I c out d')))"

definition execution_phase :: "nat \<Rightarrow> cmd_in \<Rightarrow> PendingCommand \<Rightarrow> Daemon \<Rightarrow> (agent_error, unit, Daemon) pyres" where
  "execution_phase t I c d =
     (if \<not> ci_ack I then py_return () d
      else
        run_then
          (run_then (log_cmd t I c (d\<lparr>to_cloud := to_cloud d @ [Acknowledged (cmd_id c)]\<rparr>))
             (journal_do t (mark_in_progress (ci_progress I) (cmd_id c)) True))
          (\<lambda>d1. case execute_cloud_command t I c (d1\<lparr>ran := ran d1 @ [c]\<rparr>) of (out, d2) \<Rightarrow> finish_cmd t I c out d2))"

definition process_command ::
  "agent_env \<Rightarrow> nat \<Rightarrow> cmd_in \<Rightarrow> PendingCommand \<Rightarrow> Daemon \<Rightarrow> (agent_error, unit, Daemon) pyres" where
  "process_command E t I c d =
     (if cmd_id c \<in> executed_ids d then py_return () d
      else
        (case journal_do t (\<lambda>j. (is_executed (cmd_id c) (Some (cmd_key c)) j, j)) False d of
           (Inl err, d') \<Rightarrow> py_raise err d'
         | (Inr True, d') \<Rightarrow> py_return () (d'\<lparr>executed_ids := insert (cmd_id c) (executed_ids d')\<rparr>)
         | (Inr False, d') \<Rightarrow>
             if parsed_class c = TRADING_IMPACTING \<and> \<not> cmd_requires_approval c then py_return () (refuse_command t I c d')
             else if lower (cmd_status c) = ''pending_approval'' then approval_phase E I c d'
             else execution_phase t I c d'))"

fun process_commands ::
  "agent_env \<Rightarrow> nat \<Rightarrow> (cmd_in \<times> PendingCommand) list \<Rightarrow> Daemon \<Rightarrow> (agent_error, unit, Daemon) pyres" where
  "process_commands E t [] d = py_return () d"
| "process_commands E t ((I, c) # cs) d = run_then (process_command E t I c d) (process_commands E t cs)"

definition process_cloud_commands ::
  "agent_env \<Rightarrow> nat \<Rightarrow> (cmd_in \<times> PendingCommand) list \<Rightarrow> Daemon \<Rightarrow> (agent_error, unit, Daemon) pyres" where
  "process_cloud_commands E t cs d = (if \<not> has_client d then py_return () d else process_commands E t cs d)"

text \<open>
  One round of the heartbeat thread \<open>t\<close>, of which only the commands it polled are modelled.  The
  loop ends when the stop event is set; what is raised is swallowed.
\<close>

definition heartbeat_round :: "agent_env \<Rightarrow> nat \<Rightarrow> (cmd_in \<times> PendingCommand) list \<Rightarrow> Daemon \<Rightarrow> Daemon" where
  "heartbeat_round E t cs d = (if stop_event (sh d) then d else snd (process_cloud_commands E t cs d))"

definition decide_cloud_command_approval ::
  "agent_env \<Rightarrow> string \<Rightarrow> bool \<Rightarrow> string \<Rightarrow> string \<Rightarrow> decision_draws \<Rightarrow> bool \<Rightarrow> Daemon \<Rightarrow> bool \<times> Daemon" where
  "decide_cloud_command_approval E cid approved rsn who dd answered d =
     (if \<not> has_client d then (False, d)
      else
        (let rid = dict_get (pending_approval d) cid in
         if \<not> truthy rid then (False, d)
         else
           (case decide (a_evidence E) (d_am d) (the rid) approved rsn who dd of
              (None, am) \<Rightarrow> (False, d\<lparr>d_am := am\<rparr>)
            | (Some r, am) \<Rightarrow>
                if answered
                then (True, d\<lparr>d_am := am,
                        to_cloud := to_cloud d @
                          [Local_approval cid approved
                             (if py_truth (Approval_Manager.evidence_hash r)
                              then PFormat ''sha256:{}'' [Approval_Manager.evidence_hash r] else PNone)
                             (if py_truth (decision_reason r) then decision_reason r else PStr rsn)],
                        submitted := insert cid (submitted d), pending_approval := dict_del (pending_approval d) cid\<rparr>)
                else (False, d\<lparr>d_am := am\<rparr>))))"

end
