(* ===== verification/Agent_Safety.thy ===== *)
theory Agent_Safety
  imports Agent_Daemon
begin

section \<open>Properties of the agent daemon\<close>

text \<open>
  What the daemon guarantees when its parts act together: the kill switch and the life cycle, the
  command journal and the execution of commands over restarts, the flag for local approval; and where it
  does not: a restart forgets a halt, the status of a command decides about the approval, the heartbeat
  thread cannot use the journal, and a stopped daemon never listens again.
\<close>

datatype ag_call =
    Ag_start start_in "string option"
  | Ag_stop nat bool
  | Ag_pause
  | Ag_resume
  | Ag_halt HaltReason HaltAction trigger_draws
  | Ag_ack string string time time bool
  | Ag_reset time time time bool
  | Ag_drift pyfloat stamp trigger_draws
  | Ag_monitor ks_call
  | Ag_heartbeat nat "(cmd_in \<times> PendingCommand) list"
  | Ag_decide string bool string string decision_draws bool
  | Ag_restart nat KillSwitchConfig disk bool bool bool "unit ApprovalManager"

definition saved_rows :: "Daemon \<Rightarrow> CommandEntry list" where
  "saved_rows d = (case d_journal d of None \<Rightarrow> [] | Some j \<Rightarrow> cj_rows j)"

definition boot :: "agent_env \<Rightarrow> nat \<Rightarrow> KillSwitchConfig \<Rightarrow> disk \<Rightarrow> bool \<Rightarrow> bool \<Rightarrow> bool \<Rightarrow> unit ApprovalManager \<Rightarrow> CommandEntry list \<Rightarrow> Daemon" where
  "boot E t c f client pf sb am rows = snd (initialize E t c f client rows None (init_Daemon pf sb am))"

text \<open>A restart makes a new daemon on the files of the old one; what was executed stays executed.\<close>

fun ag_exec :: "agent_env \<Rightarrow> Daemon \<Rightarrow> ag_call \<Rightarrow> Daemon" where
  "ag_exec E d (Ag_start I run) = snd (start I run d)"
| "ag_exec E d (Ag_stop t fault) = snd (stop t fault d)"
| "ag_exec E d Ag_pause = snd (pause d)"
| "ag_exec E d Ag_resume = snd (resume d)"
| "ag_exec E d (Ag_halt r act td) = snd (halt E r act td d)"
| "ag_exec E d (Ag_ack who code now s io) = snd (acknowledge_halt who code now s io d)"
| "ag_exec E d (Ag_reset now r s io) = snd (reset_halt now r s io d)"
| "ag_exec E d (Ag_drift x st td) = handle_time_drift E x st td d"
| "ag_exec E d (Ag_monitor c) = monitor_call E c d"
| "ag_exec E d (Ag_heartbeat t cs) = heartbeat_round E t cs d"
| "ag_exec E d (Ag_decide cid b rsn who dd ans) = snd (decide_cloud_command_approval E cid b rsn who dd ans d)"
| "ag_exec E d (Ag_restart t c f client pf sb am) = (boot E t c f client pf sb am (saved_rows d))\<lparr>ran := ran d, to_cloud := to_cloud d\<rparr>"

subsection \<open>Frames\<close>

lemma set_state_simps [simp]:
  "d_state (set_state s w) = s" "stop_event (set_state s w) = stop_event w" "heartbeat_thread (set_state s w) = heartbeat_thread w"
  by (simp_all add: set_state_def)

lemma on_shell_simps [simp]:
  "sh (on_shell f d) = f (sh d)" "d_ks (on_shell f d) = d_ks d" "d_journal (on_shell f d) = d_journal d" "ran (on_shell f d) = ran d"
  "has_client (on_shell f d) = has_client d" "executed_ids (on_shell f d) = executed_ids d" "d_am (on_shell f d) = d_am d"
  "to_cloud (on_shell f d) = to_cloud d" "pending_approval (on_shell f d) = pending_approval d"
  by (simp_all add: on_shell_def)

lemma run_ks_frame [simp]:
  "d_journal (snd (run_ks f r d)) = d_journal d" "ran (snd (run_ks f r d)) = ran d" "has_client (snd (run_ks f r d)) = has_client d"
  "executed_ids (snd (run_ks f r d)) = executed_ids d" "d_am (snd (run_ks f r d)) = d_am d"
  "to_cloud (snd (run_ks f r d)) = to_cloud d" "pending_approval (snd (run_ks f r d)) = pending_approval d"
  by (simp_all add: run_ks_def split: option.split prod.split)

text \<open>The life cycle keeps the journal, the client, the requests and what was executed.\<close>

definition same_files :: "Daemon \<Rightarrow> Daemon \<Rightarrow> bool" where
  "same_files d d' \<longleftrightarrow> d_journal d' = d_journal d \<and> ran d' = ran d \<and> has_client d' = has_client d \<and> executed_ids d' = executed_ids d \<and>
     d_am d' = d_am d \<and> to_cloud d' = to_cloud d \<and> pending_approval d' = pending_approval d"

lemma start_files [simp]: "same_files d (snd (start I run d))"
  by (simp add: same_files_def start_def Let_def split: option.split)

lemma stop_files [simp]: "same_files d (snd (stop t fault d))"
  by (simp add: same_files_def stop_def Let_def)

lemma pause_files [simp]: "same_files d (snd (pause d))" and resume_files [simp]: "same_files d (snd (resume d))"
  by (simp_all add: same_files_def pause_def resume_def)

lemma halt_snd:
  "snd (halt E r act td d) =
   (let p = run_ks (\<lambda>k. ks_trigger (a_hash E) k r act td) (Inr 0) d in
    if isl (fst p) then snd p else on_shell (set_state HALTED) (snd p))"
  by (auto simp: halt_def Let_def split: prod.split sum.split)

lemma halt_files [simp]: "same_files d (snd (halt E r act td d))"
  by (simp add: same_files_def halt_snd Let_def)

lemma ack_files [simp]: "same_files d (snd (acknowledge_halt who code now s io d))"
  by (simp add: same_files_def acknowledge_halt_def)

lemma reset_snd:
  "snd (reset_halt now r s io d) =
   (if d_state (sh d) \<noteq> HALTED then d
    else let p = run_ks (\<lambda>k. reset k now r s io) True d in if fst p then on_shell (set_state IDLE) (snd p) else snd p)"
  by (auto simp: reset_halt_def Let_def split: prod.split bool.split)

lemma reset_files [simp]: "same_files d (snd (reset_halt now r s io d))"
  by (simp add: same_files_def reset_snd Let_def)

lemma drift_files [simp]: "same_files d (handle_time_drift E x st td d)"
  using halt_files [of d E] by (simp add: handle_time_drift_def) (simp add: same_files_def)

lemma monitor_files [simp]: "same_files d (monitor_call E c d)"
  by (simp add: same_files_def monitor_call_def)

lemma decide_frame [simp]:
  "d_journal (snd (decide_cloud_command_approval E cid b rsn who dd ans d)) = d_journal d"
  "ran (snd (decide_cloud_command_approval E cid b rsn who dd ans d)) = ran d"
  by (simp_all add: decide_cloud_command_approval_def Let_def split: prod.split option.split)

subsection \<open>The life cycle as the cloud sees it\<close>

text \<open>
  A command of the cloud reaches the state of the daemon only by starting, stopping and pausing it:
  what these keep, the whole heartbeat keeps.
\<close>

locale lifecycle_property =
  fixes P :: "Daemon \<Rightarrow> bool"
  assumes core: "P d \<Longrightarrow> sh d' = sh d \<Longrightarrow> d_ks d' = d_ks d \<Longrightarrow> P d'"
    and on_start: "P d \<Longrightarrow> P (snd (start I run d))"
    and on_stop: "P d \<Longrightarrow> P (snd (stop t fault d))"
    and on_pause: "P d \<Longrightarrow> P (snd (pause d))"
begin

lemma after_execute:
  assumes "P d" shows "P (snd (execute_cloud_command t I c d))"
  using on_start [OF assms, of "ci_start I" "cmd_run c"] on_stop [OF assms, of t "ci_fault I"] on_pause [OF assms] assms
  by (auto simp: execute_cloud_command_def Let_def split: prod.split)

lemma after_journal: "P d \<Longrightarrow> P (snd (journal_do t f x d))"
  by (rule core [of d]) (simp_all add: journal_do_def split: option.split prod.split sum.split)

lemma after_log: "P d \<Longrightarrow> P (snd (log_cmd t I c d))"
  unfolding log_cmd_def by (rule after_journal)

lemma after_then: "P (snd r) \<Longrightarrow> (\<And>d. P d \<Longrightarrow> P (snd (f d))) \<Longrightarrow> P (snd (run_then r f))"
  by (cases r; cases "fst r") auto

lemma after_approval: "P d \<Longrightarrow> P (snd (approval_phase E I c d))"
  by (rule core [of d])
    (simp_all add: approval_phase_def ask_locally_def split: option.split prod.split sum.split)

lemma after_refuse: "P d \<Longrightarrow> P (refuse_command t I c d)"
  unfolding refuse_command_def
  by (intro after_then after_journal after_log) (auto simp: Let_def intro: core)

lemma after_finish: "P d \<Longrightarrow> P (snd (finish_cmd t I c out d))"
  by (cases out) (auto simp only: finish_cmd_def prod.case snd_conv report_result_def intro!: after_then after_journal intro: core,
    auto intro: core)

lemma after_run:
  assumes "P d"
  shows "P (snd (case execute_cloud_command t I c (d\<lparr>ran := m\<rparr>) of (out, d') \<Rightarrow> finish_cmd t I c out d'))"
proof -
  have "P (d\<lparr>ran := m\<rparr>)" by (rule core [OF assms]) simp_all
  then have "P (snd (execute_cloud_command t I c (d\<lparr>ran := m\<rparr>)))" by (rule after_execute)
  then show ?thesis by (auto split: prod.split simp: after_finish)
qed

lemma after_execution:
  assumes "P d" shows "P (snd (execution_phase t I c d))"
proof (cases "ci_ack I")
  case True
  have "P (d\<lparr>to_cloud := m\<rparr>)" for m by (rule core [OF assms]) simp_all
  then show ?thesis
    unfolding execution_phase_def using True by (simp only: not_True_eq_False if_False) (intro after_then after_log after_journal after_run)
qed (simp add: execution_phase_def assms)

lemma after_command: "P d \<Longrightarrow> P (snd (process_command E t I c d))"
proof -
  assume "P d"
  then have j: "P (snd (journal_do t f x d))" for f and x :: bool by (rule after_journal)
  have "P (x\<lparr>executed_ids := m\<rparr>)" if "P x" for x m using that by (rule core) simp_all
  with \<open>P d\<close> show ?thesis
    using j [of "\<lambda>j. (is_executed (cmd_id c) (Some (cmd_key c)) j, j)" False]
    unfolding process_command_def
    by (auto split: prod.split sum.split bool.split simp: after_refuse after_approval after_execution)
qed

lemma after_commands: "P d \<Longrightarrow> P (snd (process_commands E t cs d))"
proof (induction cs arbitrary: d)
  case (Cons ic cs)
  obtain I c where ic: "ic = (I, c)" by (cases ic)
  show ?case unfolding ic process_commands.simps by (rule after_then [OF after_command [OF Cons.prems] Cons.IH])
qed simp

lemma after_heartbeat: "P d \<Longrightarrow> P (heartbeat_round E t cs d)"
  by (simp add: heartbeat_round_def process_cloud_commands_def after_commands)

lemma after_decide: "P d \<Longrightarrow> P (snd (decide_cloud_command_approval E cid b rsn who dd ans d))"
  by (rule core [of d]) (simp_all add: decide_cloud_command_approval_def Let_def split: prod.split option.split)

end

subsection \<open>The kill switch and the life cycle\<close>

lemma ks_exec_on_trigger [simp]: "on_trigger (ks_exec H k c) = on_trigger k"
proof (cases c)
  case (Trigger r act td)
  then show ?thesis
    by (auto simp: ks_trigger_def Let_def split: option.split prod.split)
next
  case (Reset n r s io)
  then show ?thesis by (simp add: reset_def Let_def split: option.split)
qed (simp_all add: ks_acknowledge_def record_error_def record_latency_def record_order_def check_data_feed_def Let_def split: option.split)

lemma world_upd_fields [simp]:
  "triggered (k\<lparr>world := w\<rparr>) = triggered k" "on_trigger (k\<lparr>world := w\<rparr>) = on_trigger k" "held a (k\<lparr>world := w\<rparr>) = held a k"
  by (simp_all add: held_def)

text \<open>
  A running daemon has a switch that is not triggered.  A reason that cannot be serialised breaks this:
  the switch is triggered but raises before it tells the daemon.
\<close>

definition json_reason :: "HaltReason \<Rightarrow> bool" where
  "json_reason r = json_ok (PDict (reason_to_dict r))"

fun serialisable_call :: "ag_call \<Rightarrow> bool" where
  "serialisable_call (Ag_halt r act td) = json_reason r"
| "serialisable_call (Ag_monitor (Trigger r act td)) = json_reason r"
| "serialisable_call _ = True"

definition open_when_running :: "Daemon \<Rightarrow> bool" where
  "open_when_running d \<longleftrightarrow>
     (\<forall>k. d_ks d = Some k \<longrightarrow> on_trigger k = Some handle_kill_switch \<and> (triggered k \<longrightarrow> d_state (sh d) \<noteq> RUNNING))"

lemma open_when_running_start: "open_when_running d \<Longrightarrow> open_when_running (snd (start I run d))"
  by (auto simp: open_when_running_def start_def Let_def ks_triggered_def split: option.split)

lemma open_when_running_stop: "open_when_running d \<Longrightarrow> open_when_running (snd (stop t fault d))"
  by (simp add: open_when_running_def stop_def Let_def)

lemma open_when_running_pause: "open_when_running d \<Longrightarrow> open_when_running (snd (pause d))"
  by (simp add: open_when_running_def pause_def)

lemma open_when_running_core: "open_when_running d \<Longrightarrow> sh d' = sh d \<Longrightarrow> d_ks d' = d_ks d \<Longrightarrow> open_when_running d'"
  by (simp add: open_when_running_def)

interpretation owr: lifecycle_property open_when_running
  by unfold_locales (fact open_when_running_core open_when_running_start open_when_running_stop open_when_running_pause)+

lemma trigger_serialisable:
  assumes "json_reason r" and "on_trigger k = Some handle_kill_switch" and "\<not> triggered k"
  shows "\<exists>n k'. ks_trigger H k r act td = (Inr n, k') \<and> d_state (world k') = HALTED"
proof -
  obtain h where "compute_hash H (new_event k r act td) = Some h"
    using assms(1) by (simp add: compute_hash_def hash_data_def new_event_def json_reason_def)
  from trigger_fresh [OF assms(3) this] assms(2) show ?thesis
    by (auto simp: notified_world_def handle_kill_switch_def)
qed

lemma run_ks_Some:
  assumes "d_ks d = Some k"
  shows "fst (run_ks f x d) = fst (f (k\<lparr>world := sh d\<rparr>))" "d_ks (snd (run_ks f x d)) = Some (snd (f (k\<lparr>world := sh d\<rparr>)))"
    "sh (snd (run_ks f x d)) = world (snd (f (k\<lparr>world := sh d\<rparr>)))"
  using assms by (simp_all add: run_ks_def split: prod.split)

lemma run_ks_None: "d_ks d = None \<Longrightarrow> run_ks f x d = (x, d)"
  by (simp add: run_ks_def)

lemma trigger_on_trigger [simp]: "on_trigger (snd (ks_trigger H k r act td)) = on_trigger k"
  using ks_exec_on_trigger [of H k "Trigger r act td"] by simp

lemma trigger_open:
  assumes "json_reason r" and "on_trigger k = Some handle_kill_switch" and "triggered k \<longrightarrow> d_state (world k) \<noteq> RUNNING"
  shows "d_state (world (snd (ks_trigger H k r act td))) \<noteq> RUNNING"
proof (cases "triggered k")
  case True
  then have "world (snd (ks_trigger H k r act td)) = world k"
    using ks_exec_triggered_world [of k "Trigger r act td" H] by simp
  with True assms(3) show ?thesis by simp
next
  case False
  then obtain n k' where "ks_trigger H k r act td = (Inr n, k')" "d_state (world k') = HALTED"
    using trigger_serialisable [OF assms(1,2)] by blast
  then show ?thesis by simp
qed

lemma open_when_running_halt:
  assumes "open_when_running d" and "json_reason r"
  shows "open_when_running (snd (halt E r act td d))"
proof (cases "d_ks d")
  case None
  then show ?thesis by (simp add: halt_snd run_ks_None open_when_running_def)
next
  case (Some k)
  then show ?thesis
    using assms trigger_open [of r "k\<lparr>world := sh d\<rparr>" "a_hash E" act td]
    by (simp add: open_when_running_def halt_snd run_ks_Some [OF Some] Let_def)
qed

lemma open_when_running_monitor:
  assumes "open_when_running d" and "serialisable_call (Ag_monitor c)"
  shows "open_when_running (monitor_call E c d)"
proof (cases "d_ks d")
  case None
  then show ?thesis using assms by (simp add: monitor_call_def run_ks_None)
next
  case (Some k)
  let ?k = "k\<lparr>world := sh d\<rparr>"
  have "triggered (ks_exec (a_hash E) ?k c) \<longrightarrow> d_state (world (ks_exec (a_hash E) ?k c)) \<noteq> RUNNING"
  proof (cases rule: ks_call_cases [where c = c and ks = ?k and H = "a_hash E"])
    case (trigger r act td)
    then show ?thesis using assms trigger_open [of r ?k "a_hash E" act td] Some by (simp add: open_when_running_def)
  next
    case (acknowledge who code n s io)
    then show ?thesis using assms(1) Some by (auto simp: open_when_running_def ks_acknowledge_def split: option.split)
  next
    case (reset n r s io)
    then show ?thesis using assms(1) Some by (auto simp: open_when_running_def reset_def Let_def split: option.split)
  next
    case monitor
    then show ?thesis using assms(1) Some by (simp add: open_when_running_def same_core_def)
  qed
  then show ?thesis
    using assms(1) Some by (simp add: open_when_running_def monitor_call_def run_ks_Some [OF Some])
qed

lemma acknowledge_as_call: "snd (acknowledge_halt who code now s io d) = monitor_call E (Acknowledge who code now s io) d"
  by (simp add: acknowledge_halt_def monitor_call_def run_ks_def split: option.split prod.split)

lemma reset_as_call:
  "snd (run_ks (\<lambda>k. reset k now r s io) True d) = monitor_call E (Reset now r s io) d"
  by (simp add: monitor_call_def run_ks_def split: option.split prod.split)

lemma open_when_running_shell:
  "open_when_running d \<Longrightarrow> st \<noteq> RUNNING \<Longrightarrow> open_when_running (on_shell (set_state st) d)"
  by (simp add: open_when_running_def)

lemma boot_ks: "d_ks (boot E t c f client pf sb am rows) =
    Some (init_KillSwitchManager (a_hash E) c (Some handle_kill_switch) (Some (cancel_all E)) (Some (flatten_all E)) f
       (set_state INITIALIZING (sh (init_Daemon pf sb am))))"
  by (simp add: boot_def initialize_def init_Daemon_def init_command_journal_def init_kill_switch_def Let_def)

lemma boot_open: "open_when_running (boot E t c f client pf sb am rows)"
  by (simp add: open_when_running_def boot_ks init_KillSwitchManager_def load_history_def Let_def)

lemma drift_serialisable: "json_reason (drift_reason st x)"
  by (simp add: json_reason_def drift_reason_def mk_reason_def reason_to_dict_def)

lemma open_when_running_step:
  assumes ok: "open_when_running d" and "serialisable_call c"
  shows "open_when_running (ag_exec E d c)"
proof (cases c)
  case (Ag_reset n r s io)
  have "open_when_running (monitor_call E (Reset n r s io) d)" using open_when_running_monitor [OF ok] by simp
  then show ?thesis using Ag_reset ok by (simp add: reset_snd Let_def reset_as_call [of n r s io d E] open_when_running_shell)
next
  case Ag_resume
  then show ?thesis using ok by (auto simp: resume_def open_when_running_def ks_triggered_def)
next
  case (Ag_ack who code now s io)
  then show ?thesis using open_when_running_monitor [OF ok] by (simp add: acknowledge_as_call [where E = E])
next
  case (Ag_restart t c f client pf sb am)
  then show ?thesis by (simp add: open_when_running_core [OF boot_open])
next
  case (Ag_drift x st td)
  then show ?thesis using ok by (simp add: handle_time_drift_def open_when_running_halt drift_serialisable)
qed (use assms in \<open>simp_all add: owr.on_start owr.on_stop owr.on_pause owr.after_heartbeat owr.after_decide
       open_when_running_halt open_when_running_monitor\<close>)

text \<open>An unacknowledged halt, and a daemon that does not run.\<close>

definition stands_still :: "nat \<Rightarrow> Daemon \<Rightarrow> bool" where
  "stands_still a d \<longleftrightarrow> (\<exists>k. d_ks d = Some k \<and> held a k) \<and> d_state (sh d) \<noteq> RUNNING"

fun without_ack :: "ag_call \<Rightarrow> bool" where
  "without_ack (Ag_ack who code now s io) = (\<not> valid_ack (Acknowledge who code now s io))"
| "without_ack (Ag_monitor c) = (\<not> valid_ack c)"
| "without_ack (Ag_restart t c f client pf sb am) = False"
| "without_ack _ = True"

lemma ks_exec_held_world: "held a k \<Longrightarrow> world (ks_exec H k c) = world k"
  using ks_exec_triggered_world [of k c H] by (cases c) (simp_all add: held_def reset_def)

lemma still_core: "stands_still a d \<Longrightarrow> sh d' = sh d \<Longrightarrow> d_ks d' = d_ks d \<Longrightarrow> stands_still a d'"
  by (simp add: stands_still_def)

lemma still_triggered: "stands_still a d \<Longrightarrow> ks_triggered d"
  by (auto simp: stands_still_def ks_triggered_def held_def)

lemma still_start: "stands_still a d \<Longrightarrow> stands_still a (snd (start I run d))"
  using still_triggered [of a d] by (simp add: start_def Let_def)

lemma still_stop: "stands_still a d \<Longrightarrow> stands_still a (snd (stop t fault d))"
  by (simp add: stands_still_def stop_def Let_def)

lemma still_pause: "stands_still a d \<Longrightarrow> stands_still a (snd (pause d))"
  by (simp add: stands_still_def pause_def)

interpretation stl: lifecycle_property "stands_still a"
  by unfold_locales (fact still_core still_start still_stop still_pause)+

lemma still_monitor:
  assumes "stands_still a d" and "\<not> valid_ack c"
  shows "stands_still a (monitor_call E c d)"
proof -
  obtain k where k: "d_ks d = Some k" "held a k" "d_state (sh d) \<noteq> RUNNING" using assms(1) by (auto simp: stands_still_def)
  then have "held a (k\<lparr>world := sh d\<rparr>)" by simp
  with k show ?thesis
    using ks_exec_held [of a "k\<lparr>world := sh d\<rparr>" c "a_hash E"] ks_exec_held_world [of a "k\<lparr>world := sh d\<rparr>" "a_hash E" c] assms(2)
    by (simp add: stands_still_def monitor_call_def run_ks_Some [OF k(1)])
qed

lemma still_halt: "stands_still a d \<Longrightarrow> stands_still a (snd (halt E r act td d))"
proof -
  assume "stands_still a d"
  then have "stands_still a (monitor_call E (Trigger r act td) d)" by (rule still_monitor) simp
  moreover have "monitor_call E (Trigger r act td) d = snd (run_ks (\<lambda>k. ks_trigger (a_hash E) k r act td) (Inr 0) d)"
    by (simp add: monitor_call_def run_ks_def split: option.split prod.split)
  ultimately show ?thesis by (simp add: halt_snd Let_def) (simp add: stands_still_def)
qed

lemma still_reset:
  assumes "stands_still a d" shows "stands_still a (snd (reset_halt now r s io d))"
proof -
  obtain k where k: "d_ks d = Some k" "held a k" using assms by (auto simp: stands_still_def)
  then have "reset (k\<lparr>world := sh d\<rparr>) now r s io = (False, k\<lparr>world := sh d\<rparr>)" by (simp add: held_def reset_def)
  with k assms show ?thesis by (simp add: reset_snd Let_def run_ks_Some [OF k(1)]) (simp add: stands_still_def run_ks_Some [OF k(1)])
qed

lemma still_step:
  assumes still: "stands_still a d" and "without_ack c"
  shows "stands_still a (ag_exec E d c)"
proof (cases c)
  case (Ag_ack who code now s io)
  then show ?thesis using still_monitor [OF still] assms(2) by (simp add: acknowledge_as_call [where E = E])
next
  case Ag_resume
  then show ?thesis using still still_triggered [OF still] by (simp add: resume_def)
qed (use assms in \<open>simp_all add: stl.on_start stl.on_stop stl.on_pause stl.after_heartbeat stl.after_decide
       still_halt still_monitor still_reset handle_time_drift_def\<close>)

subsection \<open>Halts and restarts\<close>

text \<open>
  C24: the switch and the life cycle agree.  Whatever is called after the start of the process (life
  cycle, halts, monitors, commands of the cloud, local decisions, restarts), a daemon that is
  \<^verbatim>\<open>RUNNING\<close> has a kill switch that is not triggered, provided the reasons of the halts can be
  written as JSON.
\<close>

theorem running_daemon_has_open_switch:
  assumes "\<forall>c \<in> set calls. serialisable_call c"
    and "d = foldl (ag_exec E) (boot E t c f client pf sb am rows) calls"
    and "d_state (sh d) = RUNNING"
  shows "\<not> ks_triggered d"
proof -
  have "open_when_running d"
    unfolding assms(2)
    by (rule run_inv [where J = open_when_running and ok = serialisable_call]) (auto simp: boot_open open_when_running_step assms(1))
  with assms(3) show ?thesis by (auto simp: open_when_running_def ks_triggered_def split: option.split)
qed

definition ag_env :: agent_env where
  "ag_env = \<lparr>a_hash = sample_hasher, a_evidence = Approval_Manager.sample_hash, a_cancel = (\<lambda>n. Some 2), a_flatten = (\<lambda>n. None)\<rparr>"

definition ag_go :: start_in where
  "ag_go = \<lparr>si_now = 7, si_run = ''run1'', si_preflight = None, si_sandbox = None\<rparr>"

definition ag_boot :: Daemon where
  "ag_boot = boot ag_env 0 default_config No_file True True False sample_am []"

definition ag_in :: cmd_in where
  "ag_in = \<lparr>ci_logged = 1, ci_progress = 2, ci_done = 3, ci_ack = True, ci_result = True, ci_approval = True, ci_start = ag_go,
     ci_fault = False, ci_request = sample_rd\<rparr>"

definition ag_cmd :: "string \<Rightarrow> string \<Rightarrow> string \<Rightarrow> bool \<Rightarrow> string \<Rightarrow> PendingCommand" where
  "ag_cmd i ct cls flag st = \<lparr>cmd_id = i, cmd_status = st, cmd_key = ''key '' @ i, cmd_type = ct, cmd_payload = ''p'', cmd_class = cls,
     cmd_requires_approval = flag, cmd_deployment = None, cmd_run = None\<rparr>"

theorem running_daemon_has_open_switch_witness:
  "\<not> ks_triggered (foldl (ag_exec ag_env) ag_boot [Ag_start ag_go None])"
proof -
  have "d_state (sh (foldl (ag_exec ag_env) ag_boot [Ag_start ag_go None])) = RUNNING" by code_simp
  then show ?thesis
    using running_daemon_has_open_switch [OF _ refl, of "[Ag_start ag_go None]" ag_env 0 default_config No_file True True False sample_am "[]"]
    by (simp add: ag_boot_def)
qed

text \<open>
  C9: A halt stops the agent until a person acknowledges it.  While the current halt of a daemon that
  does not run is not acknowledged, nothing brings it back: no start, no resume, no reset, no further
  halt or monitor, no command of the cloud and no approval of one.  Only an acknowledgement with a name
  and a valid code, or a restart of the process, is excluded from the calls.
\<close>

theorem unacknowledged_halt_stops_agent:
  assumes "d_ks d = Some k" and "held a k" and "d_state (sh d) \<noteq> RUNNING" and "\<forall>c \<in> set calls. without_ack c"
  shows "d_state (sh (foldl (ag_exec E) d calls)) \<noteq> RUNNING \<and> ks_triggered (foldl (ag_exec E) d calls)"
proof -
  have "stands_still a d" using assms by (auto simp: stands_still_def)
  then have "stands_still a (foldl (ag_exec E) d calls)" using assms(4)
    by (intro run_inv [where J = "stands_still a" and ok = without_ack]) (auto simp: still_step)
  then show ?thesis using still_triggered by (auto simp: stands_still_def)
qed

definition ag_halted :: Daemon where
  "ag_halted = foldl (ag_exec ag_env) ag_boot [Ag_start ag_go None, Ag_halt sample_reason CANCEL_ORDERS sample_td]"

lemma ag_halted_held:
  "d_ks ag_halted = Some (the (d_ks ag_halted))" "held 0 (the (d_ks ag_halted))" "d_state (sh ag_halted) = HALTED"
proof -
  have "\<not> Option.is_none (d_ks ag_halted)" by code_simp
  then show "d_ks ag_halted = Some (the (d_ks ag_halted))" by (simp add: Option.is_none_def)
  show "held 0 (the (d_ks ag_halted))" by code_simp
  show "d_state (sh ag_halted) = HALTED" by code_simp
qed

theorem unacknowledged_halt_stops_agent_witness:
  "d_state (sh (foldl (ag_exec ag_env) ag_halted
     [Ag_start ag_go None, Ag_resume, Ag_heartbeat 0 [(ag_in, ag_cmd ''c1'' ''REQUEST_START_RUN'' ''trading_impacting'' True ''approved'')],
      Ag_ack ''ops'' ''please'' 9 9 True, Ag_reset (seconds 1000) 9 9 True, Ag_start ag_go None])) \<noteq> RUNNING"
  using unacknowledged_halt_stops_agent [OF ag_halted_held(1,2), of "[Ag_start ag_go None, Ag_resume,
      Ag_heartbeat 0 [(ag_in, ag_cmd ''c1'' ''REQUEST_START_RUN'' ''trading_impacting'' True ''approved'')],
      Ag_ack ''ops'' ''please'' 9 9 True, Ag_reset (seconds 1000) 9 9 True, Ag_start ag_go None]" ag_env]
    ag_halted_held(3) by simp

text \<open>
  A restart forgets the halt.  Whatever the daemon was before and whatever its files say, after a
  restart of the process the kill switch is not triggered, and a start with passing checks runs.
\<close>

theorem restart_forgets_halt:
  "let d' = ag_exec E (ag_exec E d (Ag_restart t c f client pf sb am))
        (Ag_start \<lparr>si_now = n, si_run = r, si_preflight = None, si_sandbox = None\<rparr> run)
   in d_state (sh d') = RUNNING \<and> \<not> ks_triggered d'"
proof -
  let ?b = "(boot E t c f client pf sb am (saved_rows d))\<lparr>ran := ran d, to_cloud := to_cloud d\<rparr>"
  have "d_state (sh ?b) = IDLE" by (simp add: boot_def initialize_def init_Daemon_def init_command_journal_def init_kill_switch_def Let_def)
  moreover have "\<not> ks_triggered ?b"
    by (simp add: ks_triggered_def boot_ks init_KillSwitchManager_def load_history_def Let_def)
  ultimately show ?thesis by (simp add: start_def Let_def) (simp add: ks_triggered_def)
qed

subsection \<open>Commands over restarts\<close>

lemma journal_do_eq:
  "d_journal d = Some j \<Longrightarrow> journal_do t f x d =
     (if t = cj_thread j then (Inr (fst (f j)), d\<lparr>d_journal := Some (snd (f j))\<rparr>) else (Inl (Journal Wrong_thread), d))"
  by (simp add: journal_do_def on_thread_def split: prod.split)

definition unflagged :: "PendingCommand \<Rightarrow> bool" where
  "unflagged c \<longleftrightarrow> parsed_class c = TRADING_IMPACTING \<and> \<not> cmd_requires_approval c"

text \<open>A row for the command, with a final status, is the only change of the journal.\<close>

definition adds :: "PendingCommand \<Rightarrow> CommandJournal \<Rightarrow> CommandJournal \<Rightarrow> bool" where
  "adds c j j' \<longleftrightarrow> cj_thread j' = cj_thread j \<and>
     (\<exists>e. cj_rows j' = cj_rows j @ [e] \<and> ce_id e = cmd_id c \<and> ce_key e = cmd_key c \<and> done_status (ce_status e))"

lemma update_newest:
  assumes "cid \<notin> set (map ce_id rows)" and "cj_rows j = rows @ [e]" and "ce_id e = cid"
  shows "cj_rows (snd (update_rows cid f j)) = rows @ [f e]"
proof -
  have "map (\<lambda>e. if ce_id e = cid then f e else e) rows = rows" using assms(1) by (intro map_idI) auto
  with assms(2,3) show ?thesis by (simp add: update_rows_def)
qed

lemma logged_new:
  "cid \<notin> set (map ce_id (cj_rows j)) \<Longrightarrow> cj_rows (snd (log_received now cid key ct p j)) = cj_rows j @ [received_entry now cid key ct p]"
  by (simp add: log_received_rows)

lemma refused_adds:
  assumes "cmd_id c \<notin> set (map ce_id (cj_rows j))"
  shows "adds c j (snd (mark_failed n (cmd_id c) m (snd (log_received now (cmd_id c) (cmd_key c) ct p j))))"
  unfolding adds_def mark_failed_def
  by (subst update_newest [OF assms logged_new [OF assms]]) (simp_all add: received_entry_def done_status_def)

lemma executed_adds:
  assumes "cmd_id c \<notin> set (map ce_id (cj_rows j))"
  shows "adds c j (snd ((if ok then mark_completed n (cmd_id c) res else mark_failed n (cmd_id c) m)
           (snd (mark_in_progress n2 (cmd_id c) (snd (log_received now (cmd_id c) (cmd_key c) ct p j))))))"
proof -
  let ?l = "snd (log_received now (cmd_id c) (cmd_key c) ct p j)"
  have "cj_rows (snd (mark_in_progress n2 (cmd_id c) ?l)) =
      cj_rows j @ [(received_entry now (cmd_id c) (cmd_key c) ct p)\<lparr>ce_status := IN_PROGRESS, ce_updated := n2\<rparr>]"
    unfolding mark_in_progress_def by (rule update_newest [OF assms logged_new [OF assms]]) (simp add: received_entry_def)
  note p = update_newest [OF assms this]
  show ?thesis
    by (simp add: adds_def mark_completed_def mark_failed_def p received_entry_def done_status_def)
qed

lemma execute_files [simp]: "same_files d (snd (execute_cloud_command t I c d))"
proof -
  have "same_files d d" by (simp add: same_files_def)
  then show ?thesis
    using start_files [of d "ci_start I" "cmd_run c"] stop_files [of d t "ci_fault I"] pause_files [of d]
    by (auto simp: execute_cloud_command_def Let_def split: prod.split simp del: start_files stop_files pause_files)
qed

lemma report_files [simp]: "d_journal (report_result I c out d) = d_journal d" "ran (report_result I c out d) = ran d"
  by (simp_all add: report_result_def split: prod.split)

lemma execution_outcome:
  assumes j: "d_journal d = Some j" and new: "cmd_id c \<notin> set (map ce_id (cj_rows j))" and "ci_ack I" and "t = cj_thread j"
  shows "ran (snd (execution_phase t I c d)) = ran d @ [c] \<and> (\<exists>j'. d_journal (snd (execution_phase t I c d)) = Some j' \<and> adds c j j')"
proof -
  let ?l = "snd (log_received (ci_logged I) (cmd_id c) (cmd_key c) (cmd_type c) (Some (cmd_payload c)) j)"
  let ?p = "snd (mark_in_progress (ci_progress I) (cmd_id c) ?l)"
  define d1 where "d1 = d\<lparr>to_cloud := to_cloud d @ [Acknowledged (cmd_id c)], d_journal := Some ?p, ran := ran d @ [c]\<rparr>"
  obtain ok res err d2 where x: "execute_cloud_command t I c d1 = ((ok, res, err), d2)" by (metis prod_cases3 surj_pair)
  have d2: "d_journal d2 = Some ?p" "ran d2 = ran d @ [c]"
    using execute_files [of d1 t I c] x by (simp_all add: same_files_def d1_def)
  have "snd (execution_phase t I c d) = snd (finish_cmd t I c (ok, res, err) d2)"
    using assms(3,4) x by (simp add: execution_phase_def log_cmd_def journal_do_eq j d1_def)
  then show ?thesis
    using executed_adds [OF new] d2 assms(4) by (simp add: finish_cmd_def journal_do_eq)
qed

lemma refuse_outcome:
  assumes j: "d_journal d = Some j" and new: "cmd_id c \<notin> set (map ce_id (cj_rows j))" and "t = cj_thread j"
  shows "ran (refuse_command t I c d) = ran d \<and> (\<exists>j'. d_journal (refuse_command t I c d) = Some j' \<and> adds c j j')"
  using assms(3) refused_adds [OF new] by (simp add: refuse_command_def log_cmd_def journal_do_eq j Let_def)

definition once_each :: "PendingCommand list \<Rightarrow> bool" where
  "once_each cs \<longleftrightarrow> distinct (map cmd_id cs) \<and> distinct (filter (\<lambda>k. k \<noteq> []) (map cmd_key cs)) \<and> filter unflagged cs = []"

definition covered :: "PendingCommand list \<Rightarrow> CommandJournal \<Rightarrow> bool" where
  "covered cs j \<longleftrightarrow> cj_ok j \<and> (\<forall>e \<in> set (cj_rows j). done_status (ce_status e)) \<and>
     (\<forall>c \<in> set cs. \<exists>e \<in> set (cj_rows j). ce_id e = cmd_id c \<and> ce_key e = cmd_key c)"

definition journal_inv :: "Daemon \<Rightarrow> bool" where
  "journal_inv d \<longleftrightarrow> once_each (ran d) \<and> (\<exists>j. d_journal d = Some j \<and> covered (ran d) j)"

lemma not_executed:
  assumes "covered cs j" and "\<not> is_executed (cmd_id c) (Some (cmd_key c)) j"
  shows "cmd_id c \<notin> set (map ce_id (cj_rows j))" and "cmd_key c \<noteq> [] \<Longrightarrow> cmd_key c \<notin> set (map ce_key (cj_rows j))"
proof -
  show new: "cmd_id c \<notin> set (map ce_id (cj_rows j))"
    using assms get_command_Some [of j "cmd_id c"] get_command_None [of "cmd_id c" j]
    by (auto simp: is_executed_def covered_def split: option.splits)
  then have "get_command (cmd_id c) j = None" by (simp add: get_command_None)
  then show "cmd_key c \<notin> set (map ce_key (cj_rows j))" if "cmd_key c \<noteq> []"
    using assms that by (auto simp: is_executed_def covered_def truthy_def)
qed

lemma covered_images:
  assumes "covered cs j" and "c \<in> set cs"
  shows "cmd_id c \<in> set (map ce_id (cj_rows j))" "cmd_key c \<in> set (map ce_key (cj_rows j))"
proof -
  obtain e where "e \<in> set (cj_rows j)" "ce_id e = cmd_id c" "ce_key e = cmd_key c" using assms unfolding covered_def by blast
  then show "cmd_id c \<in> set (map ce_id (cj_rows j))" "cmd_key c \<in> set (map ce_key (cj_rows j))"
    by (simp_all add: rev_image_eqI)
qed

lemma covered_rows: "covered cs j \<Longrightarrow> cj_rows j' = cj_rows j \<Longrightarrow> covered cs j'"
  by (simp add: covered_def cj_ok_def)

lemma covered_adds:
  assumes "covered cs j" and "adds c j j'" and "cmd_id c \<notin> set (map ce_id (cj_rows j))"
  shows "covered cs j'" "covered (cs @ [c]) j'"
  using assms by (fastforce simp: covered_def adds_def cj_ok_def)+

lemma once_each_snoc:
  assumes "once_each cs" "covered cs j" "\<not> unflagged c" "cmd_id c \<notin> set (map ce_id (cj_rows j))"
    "cmd_key c \<noteq> [] \<Longrightarrow> cmd_key c \<notin> set (map ce_key (cj_rows j))"
  shows "once_each (cs @ [c])"
proof -
  have "cmd_id c \<notin> cmd_id ` set cs" using covered_images(1) [OF assms(2)] assms(4) by auto
  moreover have "cmd_key c \<notin> cmd_key ` set cs" if "cmd_key c \<noteq> []"
    using covered_images(2) [OF assms(2)] assms(5) [OF that] by auto
  ultimately show ?thesis using assms(1,3) by (auto simp: once_each_def)
qed

lemma approval_files [simp]:
  "d_journal (snd (approval_phase E I c d)) = d_journal d" "ran (snd (approval_phase E I c d)) = ran d"
  by (simp_all add: approval_phase_def ask_locally_def split: option.split prod.split sum.split)

lemma inv_refuse:
  assumes "journal_inv d" and j: "d_journal d = Some j" and "\<not> is_executed (cmd_id c) (Some (cmd_key c)) j" and "t = cj_thread j"
  shows "journal_inv (refuse_command t I c d)"
proof -
  have cov: "covered (ran d) j" and "once_each (ran d)" using assms(1) j by (auto simp: journal_inv_def)
  moreover note new = not_executed(1) [OF cov assms(3)]
  ultimately show ?thesis
    using refuse_outcome [OF j new assms(4), of I] covered_adds(1) [OF cov _ new] by (auto simp: journal_inv_def)
qed

lemma inv_execution:
  assumes "journal_inv d" and j: "d_journal d = Some j" and "\<not> is_executed (cmd_id c) (Some (cmd_key c)) j" and "t = cj_thread j"
    and "\<not> unflagged c"
  shows "journal_inv (snd (execution_phase t I c d))"
proof (cases "ci_ack I")
  case True
  have cov: "covered (ran d) j" and "once_each (ran d)" using assms(1) j by (auto simp: journal_inv_def)
  note new = not_executed [OF cov assms(3)]
  have "once_each (ran d @ [c])" by (rule once_each_snoc [OF \<open>once_each (ran d)\<close> cov assms(5) new])
  then show ?thesis
    using execution_outcome [OF j new(1) True assms(4)] covered_adds(2) [OF cov _ new(1)] by (auto simp: journal_inv_def)
next
  case False
  then show ?thesis using assms(1) by (simp add: execution_phase_def)
qed

lemma inv_command:
  assumes "journal_inv d" shows "journal_inv (snd (process_command E t I c d))"
proof -
  obtain j where j: "d_journal d = Some j" using assms by (auto simp: journal_inv_def)
  have same: "d\<lparr>d_journal := Some j\<rparr> = d" using j by simp
  have "journal_inv (snd (approval_phase E I c d))" "journal_inv (d\<lparr>executed_ids := m\<rparr>)" for m
    using assms by (simp_all add: journal_inv_def)
  then show ?thesis
    using assms inv_refuse [OF assms j, of c t I] inv_execution [OF assms j, of c t I]
    by (auto simp: process_command_def journal_do_eq j same unflagged_def split: bool.split)
qed

lemma inv_commands: "journal_inv d \<Longrightarrow> journal_inv (snd (process_commands E t cs d))"
proof (induction cs arbitrary: d)
  case (Cons ic cs)
  obtain I c where ic: "ic = (I, c)" by (cases ic)
  show ?case
    using inv_command [OF Cons.prems, of E t I c] Cons.IH by (auto simp: ic split: prod.split sum.split)
qed simp

lemma inv_files: "same_files d d' \<Longrightarrow> journal_inv d \<Longrightarrow> journal_inv d'"
  by (simp add: same_files_def journal_inv_def)

lemma boot_journal: "d_journal (boot E t c f client pf sb am rows) = Some (open_journal t rows)" "ran (boot E t c f client pf sb am rows) = []"
  "to_cloud (boot E t c f client pf sb am rows) = []"
  by (simp_all add: boot_def initialize_def init_Daemon_def init_command_journal_def init_kill_switch_def Let_def on_shell_def)

lemma inv_step:
  assumes "journal_inv d" shows "journal_inv (ag_exec E d c)"
proof (cases c)
  case (Ag_heartbeat t cs)
  then show ?thesis using assms inv_commands by (simp add: heartbeat_round_def process_cloud_commands_def)
next
  case (Ag_restart t cfg f client pf sb am)
  then show ?thesis
    using assms by (auto simp: journal_inv_def boot_journal saved_rows_def open_journal_def intro: covered_rows)
next
  case (Ag_decide cid b rsn who dd ans)
  then show ?thesis using assms by (simp add: journal_inv_def)
qed (use inv_files [OF _ assms] in simp_all)

definition fresh_boot :: "Daemon \<Rightarrow> bool" where
  "fresh_boot d \<longleftrightarrow> (\<exists>E t c f client pf sb am. d = boot E t c f client pf sb am [])"

interpretation cmds: step_system fresh_boot "ag_exec E" journal_inv
proof
  show "journal_inv d" if "fresh_boot d" for d
    using that by (auto simp: fresh_boot_def journal_inv_def boot_journal open_journal_def covered_def cj_ok_def once_each_def)
qed (rule inv_step)


text \<open>
  The journal belongs to the thread that opened it.  The daemon opens it in the thread of its
  initialisation, and the commands are processed by the heartbeat thread.
\<close>

fun on_threads :: "nat \<Rightarrow> ag_call \<Rightarrow> bool" where
  "on_threads m (Ag_heartbeat t cs) = (t \<noteq> m)"
| "on_threads m (Ag_restart t c f client pf sb am) = (t = m)"
| "on_threads m _ = True"

definition mute :: "nat \<Rightarrow> Daemon \<Rightarrow> bool" where
  "mute m d \<longleftrightarrow> ran d = [] \<and> to_cloud d = [] \<and> pending_approval d = [] \<and> (\<exists>j. d_journal d = Some j \<and> cj_thread j = m)"

lemma wrong_thread_command:
  assumes "d_journal d = Some j" and "t \<noteq> cj_thread j"
  shows "snd (process_commands E t cs d) = d"
proof (induction cs)
  case (Cons ic cs)
  obtain I c where ic: "ic = (I, c)" by (cases ic)
  show ?case using Cons assms by (simp add: ic process_command_def journal_do_eq)
qed simp

lemma mute_files: "same_files d d' \<Longrightarrow> mute m d \<Longrightarrow> mute m d'"
  by (simp add: same_files_def mute_def)

lemma mute_step:
  assumes m: "mute m d" and "on_threads m c"
  shows "mute m (ag_exec E d c)"
proof (cases c)
  case (Ag_heartbeat t cs)
  obtain j where "d_journal d = Some j" "cj_thread j = m" using m by (auto simp: mute_def)
  with Ag_heartbeat assms show ?thesis
    by (simp add: heartbeat_round_def process_cloud_commands_def wrong_thread_command)
next
  case (Ag_decide cid b rsn who dd ans)
  then show ?thesis using m by (simp add: decide_cloud_command_approval_def mute_def)
next
  case (Ag_restart t cfg f client pf sb am)
  then show ?thesis using assms
    by (simp add: mute_def boot_journal open_journal_def)
      (simp add: boot_def initialize_def init_Daemon_def init_command_journal_def init_kill_switch_def Let_def)
qed (use mute_files [OF _ m] in simp_all)

text \<open>
  The heartbeat thread executes nothing.  As long as the commands are processed by threads other than
  the one in which the daemon was initialised, no command is ever executed, acknowledged, answered or put
  before the user: the first access to the journal raises, and the heartbeat loop swallows it.
\<close>

theorem heartbeat_thread_executes_nothing:
  assumes "\<forall>c \<in> set calls. on_threads m c"
    and "d = foldl (ag_exec E) (boot E m cfg f client pf sb am rows) calls"
  shows "ran d = [] \<and> to_cloud d = [] \<and> pending_approval d = []"
proof -
  have "mute m (boot E m cfg f client pf sb am rows)"
    by (simp add: mute_def boot_journal open_journal_def)
      (simp add: boot_def initialize_def init_Daemon_def init_command_journal_def init_kill_switch_def Let_def)
  then have "mute m d"
    unfolding assms(2) using assms(1) by (intro run_inv [where J = "mute m" and ok = "on_threads m"]) (auto simp: mute_step)
  then show ?thesis by (simp add: mute_def)
qed

theorem heartbeat_thread_executes_nothing_witness:
  "ran (foldl (ag_exec ag_env) ag_boot [Ag_start ag_go None,
     Ag_heartbeat 1 [(ag_in, ag_cmd ''c1'' ''REQUEST_PAUSE_RUN'' ''operational'' False ''pending'')]]) = []"
  using heartbeat_thread_executes_nothing [OF _ refl, of "[Ag_start ag_go None,
     Ag_heartbeat 1 [(ag_in, ag_cmd ''c1'' ''REQUEST_PAUSE_RUN'' ''operational'' False ''pending'')]]" 0 ag_env
     default_config No_file True True False sample_am "[]"]
  by (simp add: ag_boot_def)

subsection \<open>Stopping\<close>

definition wired :: "agent_env \<Rightarrow> Shell KillSwitchManager \<Rightarrow> bool" where
  "wired E k \<longleftrightarrow> on_trigger k = Some handle_kill_switch \<and> cancel_orders_fn k = Some (cancel_all E) \<and> flatten_fn k = Some (flatten_all E)"

lemma save_fns [simp]:
  "cancel_orders_fn (Kill_Switch.save_history k n io) = cancel_orders_fn k" "flatten_fn (Kill_Switch.save_history k n io) = flatten_fn k"
  by (simp_all add: Kill_Switch.save_history_def)

lemma ks_exec_fns [simp]:
  "cancel_orders_fn (ks_exec H k c) = cancel_orders_fn k" "flatten_fn (ks_exec H k c) = flatten_fn k"
  by (cases c; auto simp: ks_trigger_def ks_acknowledge_def reset_def record_error_def record_latency_def record_order_def
    check_data_feed_def Let_def split: option.split prod.split)+

lemma wired_exec [simp]: "wired E (ks_exec H k c) = wired E k" and wired_world [simp]: "wired E (k\<lparr>world := w\<rparr>) = wired E k"
  by (simp_all add: wired_def)

lemma actions_keep_event:
  assumes "wired E k"
  shows "stop_event (snd (cancel_step act k)) = stop_event (world k)" "stop_event (snd (flatten_step act k w)) = stop_event w"
  using assms by (simp_all add: wired_def cancel_step_def flatten_step_def cancel_all_def flatten_all_def split: option.split)

lemma ks_exec_event:
  assumes "wired E k"
  shows "stop_event (world (ks_exec H k c)) = stop_event (world k)"
proof (cases rule: ks_call_cases [where c = c and ks = k and H = H])
  case (trigger r act td)
  note acts = actions_keep_event [OF assms]
  show ?thesis
  proof (cases rule: ks_trigger_cases [where ks = k and H = H and r = r and act = act and d = td])
    case (open_halt a)
    then show ?thesis using trigger by (simp add: trigger_while_triggered)
  next
    case (fresh h)
    then show ?thesis
      using trigger_fresh [OF fresh] trigger assms by (auto simp: notified_world_def wired_def handle_kill_switch_def acted_world_def acts)
  next
    case unserialisable
    then show ?thesis using trigger by (simp add: trigger_unserialisable acted_world_def acts)
  qed (use trigger in simp)
next
  case (acknowledge who code n s io)
  then show ?thesis by (simp add: ks_acknowledge_def split: option.split)
next
  case (reset n r s io)
  then show ?thesis by (simp add: reset_def Let_def split: option.split)
qed (simp add: same_core_def)

definition deaf :: "agent_env \<Rightarrow> Daemon \<Rightarrow> bool" where
  "deaf E d \<longleftrightarrow> stop_event (sh d) \<and> (\<forall>k. d_ks d = Some k \<longrightarrow> wired E k)"

fun no_restart :: "ag_call \<Rightarrow> bool" where
  "no_restart (Ag_restart t c f client pf sb am) = False"
| "no_restart _ = True"

lemma wired_monitor: "(\<forall>k. d_ks d = Some k \<longrightarrow> wired E k) \<Longrightarrow> (\<forall>k. d_ks (monitor_call E' c d) = Some k \<longrightarrow> wired E k)"
  by (auto simp: monitor_call_def run_ks_def split: option.splits)

lemma deaf_monitor:
  assumes "deaf E d" shows "deaf E (monitor_call E' c d)"
proof (cases "d_ks d")
  case None
  then show ?thesis using assms by (simp add: monitor_call_def run_ks_None)
next
  case (Some k)
  then have k: "wired E (k\<lparr>world := sh d\<rparr>)" "stop_event (sh d)" using assms by (simp_all add: deaf_def)
  show ?thesis using k ks_exec_event [OF k(1), of "a_hash E'" c] by (simp add: deaf_def monitor_call_def run_ks_Some [OF Some])
qed

lemma halt_as_call: "snd (run_ks (\<lambda>k. ks_trigger (a_hash E) k r act td) (Inr 0) d) = monitor_call E (Trigger r act td) d"
  by (simp add: monitor_call_def run_ks_def split: option.split prod.split)

lemma deaf_core: "deaf E d \<Longrightarrow> sh d' = sh d \<Longrightarrow> d_ks d' = d_ks d \<Longrightarrow> deaf E d'"
  by (simp add: deaf_def)

lemma deaf_start: "deaf E d \<Longrightarrow> deaf E (snd (start I run d))"
  by (simp add: deaf_def start_def Let_def split: option.split)

lemma deaf_stop: "deaf E d \<Longrightarrow> deaf E (snd (stop t fault d))"
  by (simp add: deaf_def stop_def Let_def)

lemma deaf_pause: "deaf E d \<Longrightarrow> deaf E (snd (pause d))" and deaf_resume: "deaf E d \<Longrightarrow> deaf E (snd (resume d))"
  by (simp_all add: deaf_def pause_def resume_def)

interpretation df: lifecycle_property "deaf E"
  by unfold_locales (fact deaf_core deaf_start deaf_stop deaf_pause)+

lemma deaf_shell: "deaf E d \<Longrightarrow> deaf E (on_shell (set_state st) d)"
  by (simp add: deaf_def)

lemma deaf_halt: "deaf E d \<Longrightarrow> deaf E (snd (halt E' r act td d))"
  by (simp add: halt_snd halt_as_call Let_def deaf_monitor deaf_shell)

lemma deaf_step:
  assumes "deaf E d" and "no_restart c"
  shows "deaf E (ag_exec E d c) \<and> ran (ag_exec E d c) = ran d"
proof (cases c)
  case (Ag_reset n r s io)
  then show ?thesis
    using assms reset_files [of d n r s io] by (simp add: reset_snd Let_def reset_as_call [of n r s io d E] deaf_monitor deaf_shell same_files_def)
next
  case (Ag_ack who code now s io)
  then show ?thesis using assms ack_files [of d who code now s io]
    by (simp add: acknowledge_as_call [where E = E] deaf_monitor same_files_def)
next
  case (Ag_heartbeat t cs)
  then show ?thesis using assms by (simp add: heartbeat_round_def deaf_def)
qed (use assms start_files stop_files pause_files resume_files halt_files drift_files monitor_files in
      \<open>simp_all add: df.on_start df.on_stop df.on_pause deaf_resume df.after_decide deaf_halt deaf_monitor handle_time_drift_def same_files_def\<close>)

text \<open>The callbacks of the kill switch stay those of the initialisation.\<close>

definition hooked :: "agent_env \<Rightarrow> Daemon \<Rightarrow> bool" where
  "hooked E d \<longleftrightarrow> (\<forall>k. d_ks d = Some k \<longrightarrow> wired E k)"

lemma lifecycle_ks [simp]:
  "d_ks (snd (start I run d)) = d_ks d" "d_ks (snd (stop t fault d)) = d_ks d" "d_ks (snd (pause d)) = d_ks d" "d_ks (snd (resume d)) = d_ks d"
  by (simp_all add: start_def stop_def pause_def resume_def Let_def split: option.split)

interpretation hk: lifecycle_property "hooked E"
  by unfold_locales (simp_all add: hooked_def)

lemma hooked_monitor: "hooked E d \<Longrightarrow> hooked E (monitor_call E c d)"
  unfolding hooked_def by (rule wired_monitor)

lemma hooked_shell: "hooked E (on_shell f d) = hooked E d"
  by (simp add: hooked_def)

lemma hooked_halt: "hooked E d \<Longrightarrow> hooked E (snd (halt E r act td d))"
  by (simp add: halt_snd halt_as_call Let_def hooked_monitor hooked_shell)

lemma hooked_step:
  assumes "hooked E d" shows "hooked E (ag_exec E d c)"
proof (cases c)
  case (Ag_reset n r s io)
  then show ?thesis using assms by (simp add: reset_snd Let_def reset_as_call [of n r s io d E] hooked_monitor hooked_shell)
next
  case (Ag_ack who code now s io)
  then show ?thesis using assms by (simp add: acknowledge_as_call [where E = E] hooked_monitor)
next
  case (Ag_restart t cfg f client pf sb am)
  then show ?thesis by (simp add: hooked_def boot_ks init_KillSwitchManager_def load_history_def Let_def wired_def)
next
  case Ag_resume
  then show ?thesis using assms by (simp add: hooked_def)
qed (use assms in \<open>simp_all add: hk.on_start hk.on_stop hk.on_pause hk.after_heartbeat hk.after_decide hooked_monitor
       hooked_halt handle_time_drift_def\<close>)

definition booted :: "agent_env \<Rightarrow> Daemon \<Rightarrow> bool" where
  "booted E d \<longleftrightarrow> (\<exists>t c f client pf sb am rows. d = boot E t c f client pf sb am rows)"

interpretation hks: step_system "booted E" "ag_exec E" "hooked E"
proof
  show "hooked E d" if "booted E d" for d
    using that by (auto simp: booted_def hooked_def boot_ks init_KillSwitchManager_def load_history_def Let_def wired_def)
qed (rule hooked_step)

text \<open>
  A daemon that was stopped never listens again.  After the first stop of a daemon, whether it
  succeeded or not, no command of the cloud is executed until the process is restarted: the stop event
  is never cleared, so the heartbeat of a later start ends at once.
\<close>

theorem stopped_daemon_never_listens:
  assumes "d = foldl (ag_exec E) (boot E t c f client pf sb am rows) before"
    and "d_state (sh d) \<notin> {STOPPED, CREATED}" and "\<forall>c \<in> set calls. no_restart c"
  shows "ran (foldl (ag_exec E) (snd (stop t' fault d)) calls) = ran d"
proof -
  have "booted E (boot E t c f client pf sb am rows)" unfolding booted_def by blast
  then have "hooked E d" unfolding assms(1) by (rule hks.inv_reachable)
  with assms(2) have "deaf E (snd (stop t' fault d)) \<and> ran (snd (stop t' fault d)) = ran d"
    by (simp add: deaf_def hooked_def) (simp add: stop_def Let_def)
  then have "deaf E (foldl (ag_exec E) (snd (stop t' fault d)) calls) \<and> ran (foldl (ag_exec E) (snd (stop t' fault d)) calls) = ran d"
    using assms(3) by (intro run_inv [where J = "\<lambda>x. deaf E x \<and> ran x = ran d" and ok = no_restart]) (auto simp: deaf_step)
  then show ?thesis by simp
qed

definition ag_deaf_calls :: "ag_call list" where
  "ag_deaf_calls = [Ag_start ag_go None, Ag_heartbeat 0 [(ag_in, ag_cmd ''c1'' ''REQUEST_PAUSE_RUN'' ''operational'' False ''pending'')]]"

theorem stopped_daemon_never_listens_witness:
  "ran (foldl (ag_exec ag_env) (snd (stop 0 False (foldl (ag_exec ag_env) ag_boot [Ag_start ag_go None]))) ag_deaf_calls) = [] \<and>
   d_state (sh (foldl (ag_exec ag_env) (snd (stop 0 False (foldl (ag_exec ag_env) ag_boot [Ag_start ag_go None]))) ag_deaf_calls)) = RUNNING \<and>
   ran (foldl (ag_exec ag_env) ag_boot ag_deaf_calls) \<noteq> []"
proof (intro conjI)
  have s: "d_state (sh (foldl (ag_exec ag_env) ag_boot [Ag_start ag_go None])) = RUNNING"
    and r: "ran (foldl (ag_exec ag_env) ag_boot [Ag_start ag_go None]) = []" by code_simp+
  show "ran (foldl (ag_exec ag_env) (snd (stop 0 False (foldl (ag_exec ag_env) ag_boot [Ag_start ag_go None]))) ag_deaf_calls) = []"
    using stopped_daemon_never_listens [OF refl, where E = ag_env and t = 0 and c = default_config and f = No_file and client = True
        and pf = True and sb = False and am = sample_am and rows = "[]" and before = "[Ag_start ag_go None]" and calls = ag_deaf_calls
        and t' = 0 and fault = False, folded ag_boot_def] s r
    by (simp add: ag_deaf_calls_def)
  show "d_state (sh (foldl (ag_exec ag_env) (snd (stop 0 False (foldl (ag_exec ag_env) ag_boot [Ag_start ag_go None]))) ag_deaf_calls)) = RUNNING"
    by code_simp
  show "ran (foldl (ag_exec ag_env) ag_boot ag_deaf_calls) \<noteq> []" by code_simp
qed

text \<open>A stop that the cloud asks for is executed by the heartbeat thread, which cannot wait for itself.\<close>

lemma cloud_stop_fails:
  assumes "d_state (sh d) = RUNNING" and "heartbeat_thread (sh d) = Some t" and "cmd_type c = ''REQUEST_STOP_RUN''"
  shows "fst (fst (execute_cloud_command t I c d)) = False \<and> d_state (sh (snd (execute_cloud_command t I c d))) = ERROR"
  using assms by (simp add: execute_cloud_command_def stop_def Let_def)

text \<open>Upgrades and configurations always fail.\<close>

lemma upgrades_fail:
  "cmd_type c \<in> {''REQUEST_UPGRADE_ARTIFACT'', ''REQUEST_UPDATE_CONFIG''} \<Longrightarrow> execute_cloud_command t I c d = (no_command_id, d)"
  by (auto simp: execute_cloud_command_def)

text \<open>A reset of a daemon that is not halted reports success, even when its switch is triggered.\<close>

lemma reset_succeeds_unless_halted: "d_state (sh d) \<noteq> HALTED \<Longrightarrow> reset_halt n r s io d = (True, d)"
  by (simp add: reset_halt_def)

text \<open>
  C33: the status decides about the approval.  A command whose flag says that it requires local approval,
  trading-impacting or not, is executed without any request to the user when the cloud sends it with a
  status other than \<^verbatim>\<open>pending_approval\<close>.
\<close>

theorem cloud_status_bypasses_approval:
  assumes "d_journal d = Some j" and "cj_thread j = t" and "cmd_id c \<notin> executed_ids d"
    and "\<not> is_executed (cmd_id c) (Some (cmd_key c)) j" and "ci_ack I"
    and "cmd_requires_approval c" and "lower (cmd_status c) \<noteq> ''pending_approval''"
  shows "ran (snd (process_command E t I c d)) = ran d @ [c] \<and> d_am (snd (process_command E t I c d)) = d_am d"
proof -
  have same: "d\<lparr>d_journal := Some j\<rparr> = d" using assms(1) by simp
  have p: "snd (process_command E t I c d) = snd (execution_phase t I c d)"
    using assms by (simp add: process_command_def journal_do_eq same)
  obtain d1 where d1: "snd (execution_phase t I c d) =
      snd (case execute_cloud_command t I c d1 of (out, d2) \<Rightarrow> finish_cmd t I c out d2)"
    "ran d1 = ran d @ [c]" "d_am d1 = d_am d" "\<exists>j. d_journal d1 = Some j \<and> cj_thread j = t"
    using assms(1,2,5) by (simp add: execution_phase_def log_cmd_def journal_do_eq)
  obtain ok res err d2 where x: "execute_cloud_command t I c d1 = ((ok, res, err), d2)" by (metis prod_cases3 surj_pair)
  have "ran d2 = ran d @ [c]" "d_am d2 = d_am d" "\<exists>j. d_journal d2 = Some j \<and> cj_thread j = t"
    using execute_files [of d1 t I c] d1 x by (simp_all add: same_files_def)
  then show ?thesis using p d1(1) x by (auto simp: finish_cmd_def journal_do_eq report_result_def)
qed

definition ag_start_cmd :: PendingCommand where
  "ag_start_cmd = ag_cmd ''c1'' ''REQUEST_START_RUN'' ''trading_impacting'' True ''approved''"

theorem cloud_status_bypasses_approval_witness:
  "parsed_class ag_start_cmd = TRADING_IMPACTING \<and> ran (snd (process_command ag_env 0 ag_in ag_start_cmd ag_boot)) = [ag_start_cmd]"
proof -
  have "d_journal ag_boot = Some (open_journal 0 [])" "ran ag_boot = []" by (simp_all add: ag_boot_def boot_journal)
  moreover have "executed_ids ag_boot = {}" "parsed_class ag_start_cmd = TRADING_IMPACTING"
    "\<not> is_executed (cmd_id ag_start_cmd) (Some (cmd_key ag_start_cmd)) (open_journal 0 [])"
    "cmd_requires_approval ag_start_cmd" "lower (cmd_status ag_start_cmd) \<noteq> ''pending_approval''" "ci_ack ag_in" by code_simp+
  ultimately show ?thesis
    using cloud_status_bypasses_approval [of ag_boot "open_journal 0 []" 0 ag_start_cmd ag_in ag_env] by (simp add: open_journal_def)
qed

end
