(* ===== verification/Position_Reconciler.thy ===== *)
theory Position_Reconciler
  imports Order_Journal Py_Text "HOL-Library.Multiset"
begin

section \<open>The position reconciler\<close>

text \<open>
  Model of \<^verbatim>\<open>packages/agent/reconciliation/reconciler.py\<close>.  What the broker answers is an
  argument: its positions (no function, an exception with its text, or a dictionary) and the status of
  an order.  \<open>ctx\<close> rounds results of decimal arithmetic, \<open>order\<close> is the order in which
  Python walks through a set.
\<close>

datatype MismatchAction = ACCEPT_BROKER | ACCEPT_LOCAL | MA_HALT | MA_ALERT

record PositionMismatch =
  pm_symbol :: string
  pm_local :: rat
  pm_broker :: rat
  pm_difference :: rat
  pm_severity :: string
  pm_timestamp :: time

definition is_significant :: "(rat \<Rightarrow> rat) \<Rightarrow> PositionMismatch \<Rightarrow> bool" where
  "is_significant ctx m =
     (if pm_broker m = 0 then ctx \<bar>pm_local m\<bar> > 1/100
      else ctx \<bar>ctx (pm_difference m / pm_broker m)\<bar> > 1/100)"

record ReconciliationResult =
  rs_success :: bool
  rs_mismatches :: "PositionMismatch list"
  rs_resolved :: "string list"
  rs_halted :: bool
  rs_reason :: "pymsg option"
  rs_timestamp :: time

definition clean_result :: "time \<Rightarrow> ReconciliationResult" where
  "clean_result now = \<lparr>rs_success = True, rs_mismatches = [], rs_resolved = [], rs_halted = False, rs_reason = None, rs_timestamp = now\<rparr>"

definition safe_halt :: "pymsg \<Rightarrow> ReconciliationResult \<Rightarrow> ReconciliationResult" where
  "safe_halt why r = r\<lparr>rs_success := False, rs_halted := True, rs_reason := Some why\<rparr>"

definition has_significant :: "(rat \<Rightarrow> rat) \<Rightarrow> ReconciliationResult \<Rightarrow> bool" where
  "has_significant ctx r = (\<exists>m \<in> set (rs_mismatches r). is_significant ctx m)"

record Reconciler =
  local_positions :: "(string, rat) dict"
  rc_journal :: "OrderJournal option"
  mismatch_action :: MismatchAction
  tolerance_pct :: rat

definition init_Reconciler :: "(string, rat) dict option \<Rightarrow> OrderJournal option \<Rightarrow> MismatchAction \<Rightarrow> rat \<Rightarrow> Reconciler" where
  "init_Reconciler lp j a tol = \<lparr>local_positions = (case lp of None \<Rightarrow> [] | Some d \<Rightarrow> d), rc_journal = j, mismatch_action = a, tolerance_pct = tol\<rparr>"

definition qty :: "(string, rat) dict \<Rightarrow> string \<Rightarrow> rat" where
  "qty d s = (case dict_get d s of None \<Rightarrow> 0 | Some q \<Rightarrow> q)"

definition update_local_positions :: "(string, rat) dict \<Rightarrow> Reconciler \<Rightarrow> Reconciler" where
  "update_local_positions d rc = rc\<lparr>local_positions := d\<rparr>"

definition get_local_position :: "string \<Rightarrow> Reconciler \<Rightarrow> rat" where
  "get_local_position s rc = qty (local_positions rc) s"

definition set_local_position :: "string \<Rightarrow> rat \<Rightarrow> Reconciler \<Rightarrow> Reconciler" where
  "set_local_position s q rc =
     rc\<lparr>local_positions := (if q = 0 then dict_del (local_positions rc) s else dict_set (local_positions rc) s q)\<rparr>"

subsection \<open>Positions\<close>

definition is_within_tolerance :: "(rat \<Rightarrow> rat) \<Rightarrow> rat \<Rightarrow> rat \<Rightarrow> rat \<Rightarrow> bool" where
  "is_within_tolerance ctx tol l b =
     (if l = b then True
      else if b = 0 then ctx \<bar>l\<bar> < 1/10000
      else ctx \<bar>ctx (ctx (l - b) / b)\<bar> \<le> tol)"

definition mismatch :: "(rat \<Rightarrow> rat) \<Rightarrow> time \<Rightarrow> string \<Rightarrow> rat \<Rightarrow> rat \<Rightarrow> PositionMismatch" where
  "mismatch ctx now s l b =
     (let diff = ctx (l - b) in
      \<lparr>pm_symbol = s, pm_local = l, pm_broker = b, pm_difference = diff,
       pm_severity = (if ctx \<bar>diff\<bar> > ctx (ctx \<bar>b\<bar> * (1/10)) then ''error'' else ''warning''), pm_timestamp = now\<rparr>)"

definition compare_symbol :: "(rat \<Rightarrow> rat) \<Rightarrow> time \<Rightarrow> rat \<Rightarrow> (string, rat) dict \<Rightarrow> (string, rat) dict \<Rightarrow> string \<Rightarrow> PositionMismatch list" where
  "compare_symbol ctx now tol lp bp s =
     (let l = qty lp s; b = qty bp s in if is_within_tolerance ctx tol l b then [] else [mismatch ctx now s l b])"

definition all_symbols :: "(string list \<Rightarrow> string list) \<Rightarrow> (string, rat) dict \<Rightarrow> (string, rat) dict \<Rightarrow> string list" where
  "all_symbols order lp bp = order (dict_keys lp @ filter (\<lambda>s. s \<notin> set (dict_keys lp)) (dict_keys bp))"

definition accept_broker :: "PositionMismatch \<Rightarrow> ReconciliationResult \<times> Reconciler \<Rightarrow> ReconciliationResult \<times> Reconciler" where
  "accept_broker m s =
     (case s of (r, rc) \<Rightarrow>
        (r\<lparr>rs_resolved := rs_resolved r @ [pm_symbol m]\<rparr>, rc\<lparr>local_positions := dict_set (local_positions rc) (pm_symbol m) (pm_broker m)\<rparr>))"

definition handle_mismatches :: "(rat \<Rightarrow> rat) \<Rightarrow> ReconciliationResult \<Rightarrow> Reconciler \<Rightarrow> ReconciliationResult \<times> Reconciler" where
  "handle_mismatches ctx r rc =
     (case mismatch_action rc of
        MA_HALT \<Rightarrow>
          (safe_halt (FStr ''Significant position mismatch in: {}''
             [PStr (join '', '' (map pm_symbol (filter (is_significant ctx) (rs_mismatches r))))]) r, rc)
      | ACCEPT_BROKER \<Rightarrow> fold accept_broker (rs_mismatches r) (r, rc)
      | MA_ALERT \<Rightarrow> (r, rc)
      | ACCEPT_LOCAL \<Rightarrow> (r, rc))"

definition reconcile ::
  "(rat \<Rightarrow> rat) \<Rightarrow> (string list \<Rightarrow> string list) \<Rightarrow> time \<Rightarrow> (string + (string, rat) dict) option \<Rightarrow> Reconciler \<Rightarrow>
   ReconciliationResult \<times> Reconciler" where
  "reconcile ctx order now fetch rc =
     (case fetch of
        None \<Rightarrow> (safe_halt (FStr ''No broker connection for reconciliation'' []) (clean_result now), rc)
      | Some (Inl err) \<Rightarrow> (safe_halt (FStr ''Failed to fetch broker positions: {}'' [PStr err]) (clean_result now), rc)
      | Some (Inr bp) \<Rightarrow>
          (let r = (clean_result now)\<lparr>rs_mismatches :=
                 concat (map (compare_symbol ctx now (tolerance_pct rc) (local_positions rc) bp) (all_symbols order (local_positions rc) bp))\<rparr> in
           if has_significant ctx r then handle_mismatches ctx r rc else (r, rc)))"

subsection \<open>Orders\<close>

type_synonym broker_status = "JournalEntry \<Rightarrow> string + JournalStatus option"

definition sample_of :: "string \<Rightarrow> JournalEntry list \<Rightarrow> pymsg" where
  "sample_of text es =
     FStr (text @ ''{}{}'')
       [PStr (join '', '' (map je_client_id (take 5 es))),
        (if length es \<le> 5 then PStr [] else PFormat '' (+{} more)'' [PInt (int (length es) - 5)])]"

text \<open>
  The loop over the unresolved orders.  The first component of the result tells whether it returned
  early; \<open>clk\<close> gives the readings of the clock.
\<close>

fun resolve ::
  "journal_env \<Rightarrow> (nat \<Rightarrow> time) \<Rightarrow> broker_status \<Rightarrow> nat \<Rightarrow> JournalEntry list \<Rightarrow> ReconciliationResult \<Rightarrow> OrderJournal \<Rightarrow>
   bool \<times> ReconciliationResult \<times> OrderJournal" where
  "resolve J clk ask n [] r j = (False, r, j)"
| "resolve J clk ask n (e # es) r j =
     (case ask e of
        Inl err \<Rightarrow> (True, safe_halt (FStr ''Order reconciliation failed for {}: {}'' [PStr (je_client_id e), PStr err]) r, j)
      | Inr None \<Rightarrow>
          (True, safe_halt (FStr ''Order status unknown at broker for {}'' [PStr (je_client_id e)]) r,
           snd (update_status J (clk n) (clk (n + 1)) (je_entry_id e) J_UNKNOWN None None None j))
      | Inr (Some st) \<Rightarrow>
          if st \<noteq> je_status e
          then resolve J clk ask (n + 2) es (r\<lparr>rs_resolved := rs_resolved r @ [je_client_id e]\<rparr>)
                 (snd (update_status J (clk n) (clk (n + 1)) (je_entry_id e) st (je_broker_id e) None None j))
          else resolve J clk ask n es r j)"

definition reconcile_journal ::
  "journal_env \<Rightarrow> (nat \<Rightarrow> time) \<Rightarrow> time \<Rightarrow> broker_status option \<Rightarrow> OrderJournal \<Rightarrow> ReconciliationResult \<times> OrderJournal" where
  "reconcile_journal J clk now ask j =
     (let un = get_unresolved_orders j in
      if un = [] then (clean_result now, j)
      else
        (case ask of
           None \<Rightarrow> (safe_halt (sample_of ''Unresolved orders present; cannot reconcile: '' un) (clean_result now), j)
         | Some f \<Rightarrow>
             (case resolve J clk f 0 un (clean_result now) j of
                (True, r, j') \<Rightarrow> (r, j')
              | (False, r, j') \<Rightarrow>
                  (let rest = get_unresolved_orders j' in
                   if rest = [] then (r, j')
                   else (safe_halt (sample_of ''Unresolved orders remain after reconciliation: '' rest) r, j')))))"

definition reconcile_orders ::
  "journal_env \<Rightarrow> (nat \<Rightarrow> time) \<Rightarrow> time \<Rightarrow> broker_status option \<Rightarrow> Reconciler \<Rightarrow> ReconciliationResult \<times> Reconciler" where
  "reconcile_orders J clk now ask rc =
     (case rc_journal rc of
        None \<Rightarrow> (clean_result now, rc)
      | Some j \<Rightarrow> (case reconcile_journal J clk now ask j of (r, j') \<Rightarrow> (r, rc\<lparr>rc_journal := Some j'\<rparr>)))"

subsection \<open>Positions agree after the broker is accepted\<close>

lemma fold_accept:
  "fst (fold accept_broker ms (r, rc)) = r\<lparr>rs_resolved := rs_resolved r @ map pm_symbol ms\<rparr>"
  "local_positions (snd (fold accept_broker ms (r, rc))) =
     fold (\<lambda>m d. dict_set d (pm_symbol m) (pm_broker m)) ms (local_positions rc)"
  "tolerance_pct (snd (fold accept_broker ms (r, rc))) = tolerance_pct rc"
  "mismatch_action (snd (fold accept_broker ms (r, rc))) = mismatch_action rc"
  by (induction ms arbitrary: r rc) (simp_all add: accept_broker_def)

lemma qty_set: "qty (dict_set d k v) s = (if s = k then v else qty d s)"
  by (simp add: qty_def dict_simps)

lemma qty_fold:
  assumes "\<And>m. m \<in> set ms \<Longrightarrow> pm_broker m = f (pm_symbol m)"
  shows "qty (fold (\<lambda>m d. dict_set d (pm_symbol m) (pm_broker m)) ms d) s =
    (if s \<in> set (map pm_symbol ms) then f s else qty d s)"
  using assms by (induction ms arbitrary: d) (auto simp: qty_set)

lemma mismatch_simps [simp]:
  "pm_symbol (mismatch ctx now s l b) = s" "pm_local (mismatch ctx now s l b) = l" "pm_broker (mismatch ctx now s l b) = b"
  "pm_difference (mismatch ctx now s l b) = ctx (l - b)"
  by (simp_all add: mismatch_def Let_def)

lemma mismatch_in:
  "m \<in> set (concat (map (compare_symbol ctx now tol lp bp) ss)) \<longleftrightarrow>
   (\<exists>s \<in> set ss. m = mismatch ctx now s (qty lp s) (qty bp s) \<and> \<not> is_within_tolerance ctx tol (qty lp s) (qty bp s))"
  by (auto simp: compare_symbol_def Let_def split: if_splits)

lemma qty_outside: "s \<notin> set (dict_keys d) \<Longrightarrow> qty d s = 0"
  by (simp add: qty_def map_of_eq_None_iff [THEN iffD2])

definition visits_all :: "(string list \<Rightarrow> string list) \<Rightarrow> bool" where
  "visits_all order \<longleftrightarrow> (\<forall>xs. mset (order xs) = mset xs)"

lemma all_symbols_set:
  assumes "visits_all order"
  shows "set (all_symbols order lp bp) = set (dict_keys lp) \<union> set (dict_keys bp)"
proof -
  have "set (order xs) = set xs" for xs using assms mset_eq_setD by (auto simp: visits_all_def)
  then show ?thesis by (auto simp: all_symbols_def)
qed

lemma tolerance_refl [simp]: "is_within_tolerance ctx tol q q"
  by (simp add: is_within_tolerance_def)

lemma mismatched_symbols:
  assumes "visits_all order"
  shows "s \<in> set (map pm_symbol (concat (map (compare_symbol ctx now tol lp bp) (all_symbols order lp bp)))) \<longleftrightarrow>
    \<not> is_within_tolerance ctx tol (qty lp s) (qty bp s)"
proof -
  have "s \<in> set (all_symbols order lp bp)" if "\<not> is_within_tolerance ctx tol (qty lp s) (qty bp s)"
    using that by (cases "s \<in> set (dict_keys lp) \<union> set (dict_keys bp)") (auto simp: all_symbols_set [OF assms] qty_outside)
  then show ?thesis by (force simp: image_iff mismatch_in simp del: set_concat)
qed

text \<open>
  Accepting the broker converges.  If a reconciliation that accepts the broker finds a significant
  mismatch, then afterwards every local position outside the tolerance is the one of the broker, the
  others are kept, and a second reconciliation against the same positions succeeds without any mismatch.
\<close>

theorem accepting_broker_converges:
  assumes "visits_all order" and "mismatch_action rc = ACCEPT_BROKER"
    and "reconcile ctx order now (Some (Inr bp)) rc = (r, rc')" and "has_significant ctx r"
  shows "(\<forall>s. qty (local_positions rc') s =
       (if is_within_tolerance ctx (tolerance_pct rc) (qty (local_positions rc) s) (qty bp s) then qty (local_positions rc) s else qty bp s)) \<and>
     reconcile ctx order now2 (Some (Inr bp)) rc' = (clean_result now2, rc')"
proof -
  let ?ms = "concat (map (compare_symbol ctx now (tolerance_pct rc) (local_positions rc) bp) (all_symbols order (local_positions rc) bp))"
  let ?r = "(clean_result now)\<lparr>rs_mismatches := ?ms\<rparr>"
  have sig: "has_significant ctx ?r" using assms(2,3,4)
    by (auto simp: reconcile_def Let_def handle_mismatches_def split: if_splits)
  then have fold: "fold accept_broker ?ms (?r, rc) = (r, rc')"
    using assms(2,3) by (simp add: reconcile_def Let_def handle_mismatches_def)
  have "pm_broker m = qty bp (pm_symbol m)" if "m \<in> set ?ms" for m using that unfolding mismatch_in by auto
  note broker = this
  have "local_positions rc' = fold (\<lambda>m d. dict_set d (pm_symbol m) (pm_broker m)) ?ms (local_positions rc)"
    using fold_accept(2) [of ?ms ?r rc] unfolding fold snd_conv .
  then have q: "qty (local_positions rc') s =
      (if is_within_tolerance ctx (tolerance_pct rc) (qty (local_positions rc) s) (qty bp s) then qty (local_positions rc) s else qty bp s)" for s
    using qty_fold [OF broker, of ?ms "local_positions rc" s]
      mismatched_symbols [OF assms(1), of s ctx now "tolerance_pct rc" "local_positions rc" bp] by presburger
  have tol: "tolerance_pct rc' = tolerance_pct rc" using fold_accept(3) [of ?ms ?r rc] unfolding fold by simp
  have "compare_symbol ctx now2 (tolerance_pct rc') (local_positions rc') bp s = []" for s
    using q [of s] by (simp add: compare_symbol_def Let_def tol)
  then have "reconcile ctx order now2 (Some (Inr bp)) rc' = (clean_result now2, rc')"
    by (simp add: reconcile_def Let_def has_significant_def clean_result_def)
  with q show ?thesis by blast
qed

theorem accepting_broker_converges_witness:
  "reconcile (\<lambda>x. x) (\<lambda>xs. xs) 2 (Some (Inr [(''BTC'', 1), (''ETH'', 2)])) (snd (reconcile (\<lambda>x. x) (\<lambda>xs. xs) 1 (Some (Inr [(''BTC'', 1), (''ETH'', 2)]))
     (init_Reconciler (Some [(''BTC'', 3/2), (''SOL'', 5)]) None ACCEPT_BROKER (1/1000)))) =
   (clean_result 2, snd (reconcile (\<lambda>x. x) (\<lambda>xs. xs) 1 (Some (Inr [(''BTC'', 1), (''ETH'', 2)]))
     (init_Reconciler (Some [(''BTC'', 3/2), (''SOL'', 5)]) None ACCEPT_BROKER (1/1000))))"
proof -
  let ?rc = "init_Reconciler (Some [(''BTC'', 3/2), (''SOL'', 5)]) None ACCEPT_BROKER (1/1000)"
  let ?bp = "[(''BTC'', 1), (''ETH'', 2)] :: (string, rat) dict"
  let ?s = "reconcile (\<lambda>x. x) (\<lambda>xs. xs) 1 (Some (Inr ?bp)) ?rc"
  have "visits_all (\<lambda>xs. xs)" "mismatch_action ?rc = ACCEPT_BROKER" by (simp_all add: visits_all_def init_Reconciler_def)
  moreover have "has_significant (\<lambda>x. x) (fst ?s)" by code_simp
  ultimately show ?thesis
    using accepting_broker_converges [of "\<lambda>xs. xs" ?rc "\<lambda>x. x" 1 ?bp "fst ?s" "snd ?s" 2] by simp
qed

lemma significant_iff:
  "has_significant ctx (r\<lparr>rs_mismatches := concat (map (compare_symbol ctx now tol lp bp) ss)\<rparr>) \<longleftrightarrow>
   (\<exists>s \<in> set ss. \<not> is_within_tolerance ctx tol (qty lp s) (qty bp s) \<and> is_significant ctx (mismatch ctx now s (qty lp s) (qty bp s)))"
  by (simp add: has_significant_def Bex_def mismatch_in del: set_concat) blast

text \<open>
  What a halt on mismatch means.  With exact arithmetic and a tolerance of at most one percent, a
  reconciliation whose action is to halt lets trading go on exactly when every position is within one
  percent of the broker's (within a hundredth when the broker has none).  Without an answer of the broker
  it halts.
\<close>

theorem reconcile_halts_unless_within_percent:
  assumes "visits_all order" and "mismatch_action rc = MA_HALT" and "tolerance_pct rc \<le> 1/100"
  shows "rs_halted (fst (reconcile (\<lambda>x. x) order now fetch rc)) \<longleftrightarrow>
    \<not> (\<exists>bp. fetch = Some (Inr bp) \<and>
      (\<forall>s. let l = qty (local_positions rc) s; b = qty bp s in \<bar>l - b\<bar> \<le> (if b = 0 then 1 else \<bar>b\<bar>) / 100))"
proof -
  let ?tol = "tolerance_pct rc"
  have sig: "is_significant (\<lambda>x. x) (mismatch (\<lambda>x. x) now s l b) \<longleftrightarrow> \<not> \<bar>l - b\<bar> \<le> (if b = 0 then 1 else \<bar>b\<bar>) / 100" for s l b
    by (simp add: is_significant_def abs_divide field_simps not_le)
  have tol: "\<bar>l - b\<bar> \<le> (if b = 0 then 1 else \<bar>b\<bar>) / 100" if "is_within_tolerance (\<lambda>x. x) ?tol l b" for l b
  proof (cases "b = 0 \<or> l = b")
    case False
    then have "\<bar>l - b\<bar> / \<bar>b\<bar> \<le> ?tol" using that by (simp add: is_within_tolerance_def abs_divide)
    then have "\<bar>l - b\<bar> / \<bar>b\<bar> \<le> 1/100" using assms(3) by (rule order_trans)
    then have "\<bar>l - b\<bar> \<le> 1/100 * \<bar>b\<bar>" using False pos_divide_le_eq [of "\<bar>b\<bar>" "\<bar>l - b\<bar>" "1/100"] by simp
    with False show ?thesis by simp
  qed (use that in \<open>auto simp: is_within_tolerance_def split: if_splits\<close>)
  have "has_significant (\<lambda>x. x) ((clean_result now)\<lparr>rs_mismatches :=
        concat (map (compare_symbol (\<lambda>x. x) now ?tol (local_positions rc) bp) (all_symbols order (local_positions rc) bp))\<rparr>) \<longleftrightarrow>
      (\<exists>s. \<not> \<bar>qty (local_positions rc) s - qty bp s\<bar> \<le> (if qty bp s = 0 then 1 else \<bar>qty bp s\<bar>) / 100)" (is "_ = (\<exists>s. \<not> ?near s)") for bp
  proof -
    have "s \<in> set (all_symbols order (local_positions rc) bp)" if "\<not> ?near s" for s
      using that by (cases "s \<in> set (dict_keys (local_positions rc)) \<union> set (dict_keys bp)")
        (auto simp: all_symbols_set [OF assms(1)] qty_outside)
    then show ?thesis
      unfolding significant_iff sig using tol by blast
  qed
  then show ?thesis
    using assms(2) by (auto simp: reconcile_def handle_mismatches_def safe_halt_def clean_result_def Let_def split: option.split sum.split)
qed

theorem reconcile_halts_unless_within_percent_witness:
  "rs_halted (fst (reconcile (\<lambda>x. x) (\<lambda>xs. xs) 1 (Some (Inr [(''BTC'', 1), (''ETH'', 2)])) (init_Reconciler (Some [(''BTC'', 1)]) None MA_HALT (1/1000))))"
proof -
  let ?rc = "init_Reconciler (Some [(''BTC'', 1)]) None MA_HALT (1/1000)" and ?bp = "[(''BTC'', 1), (''ETH'', 2)] :: (string, rat) dict"
  have q: "qty (local_positions ?rc) ''ETH'' = 0" "qty ?bp ''ETH'' = 2" by code_simp+
  have "\<not> (let l = qty (local_positions ?rc) ''ETH''; b = qty ?bp ''ETH'' in \<bar>l - b\<bar> \<le> (if b = 0 then 1 else \<bar>b\<bar>) / 100)"
    unfolding q by simp
  note far = this
  have "visits_all (\<lambda>xs. xs)" "mismatch_action ?rc = MA_HALT" "tolerance_pct ?rc \<le> 1/100" by (simp_all add: visits_all_def init_Reconciler_def)
  from reconcile_halts_unless_within_percent [OF this, of 1 "Some (Inr ?bp)"] far show ?thesis
    unfolding option.inject sum.inject by blast
qed

subsection \<open>Orders are settled or trading halts\<close>

lemma find_map_same: "(\<And>e. je_entry_id (f e) = je_entry_id e) \<Longrightarrow>
   find (\<lambda>e. je_entry_id e = eid) (map f os) = map_option f (find (\<lambda>e. je_entry_id e = eid) os)"
  by (induction os) simp_all

lemma get_entry_update:
  "get_entry eid (snd (update_status J now ts eid0 st bid fq px j)) =
   (if eid = eid0 then map_option (set_entry now st bid fq px) (get_entry eid j) else get_entry eid j)"
proof (cases "\<exists>e \<in> set (oj_orders j). je_entry_id e = eid0")
  case False
  then have "get_entry eid0 j = None" by (auto simp: get_entry_def find_None_iff)
  with False show ?thesis by (simp add: update_status_def)
next
  case True
  let ?f = "\<lambda>e. if je_entry_id e = eid0 then set_entry now st bid fq px e else e"
  have "get_entry eid (snd (update_status J now ts eid0 st bid fq px j)) = map_option ?f (get_entry eid j)"
    using True find_map_same [of ?f eid] by (simp add: update_status_def get_entry_def)
  moreover have "je_entry_id x = eid" if "get_entry eid j = Some x" for x using that by (auto simp: get_entry_def find_Some_iff)
  ultimately show ?thesis by (cases "get_entry eid j") auto
qed

lemma get_entry_mem:
  assumes "distinct (map je_entry_id (oj_orders j))"
  shows "get_entry eid j = Some e \<longleftrightarrow> e \<in> set (oj_orders j) \<and> je_entry_id e = eid"
proof
  assume "get_entry eid j = Some e"
  then show "e \<in> set (oj_orders j) \<and> je_entry_id e = eid" by (auto simp: get_entry_def find_Some_iff)
next
  assume e: "e \<in> set (oj_orders j) \<and> je_entry_id e = eid"
  then obtain x where x: "get_entry eid j = Some x" by (cases "get_entry eid j") (auto simp: get_entry_def find_None_iff)
  then have "x \<in> set (oj_orders j) \<and> je_entry_id x = eid" by (auto simp: get_entry_def find_Some_iff)
  with e assms x show "get_entry eid j = Some e" by (auto simp: distinct_map inj_on_def)
qed

definition unresolved_status :: "JournalStatus \<Rightarrow> bool" where
  "unresolved_status st \<longleftrightarrow> st \<in> {J_PENDING, J_SUBMITTED, J_UNKNOWN}"

lemma unresolved_set: "set (get_unresolved_orders j) = {e \<in> set (oj_orders j). unresolved_status (je_status e)}"
  by (auto simp: get_unresolved_orders_def get_orders_with_status_def get_all_entries_def unresolved_status_def)

lemma unresolved_empty:
  assumes "distinct (map je_entry_id (oj_orders j))"
  shows "get_unresolved_orders j = [] \<longleftrightarrow> (\<forall>eid x. get_entry eid j = Some x \<longrightarrow> \<not> unresolved_status (je_status x))"
  unfolding get_entry_mem [OF assms] set_empty [symmetric] unresolved_set by blast

text \<open>Every order of the loop is given the status the broker answers, and no other order changes.\<close>

lemma resolve_finishes:
  assumes "resolve J clk f n es r j = (False, r', j')" and "distinct (map je_entry_id es)"
    and "\<And>e. e \<in> set es \<Longrightarrow> get_entry (je_entry_id e) j = Some e"
  shows "rs_success r' = rs_success r \<and> rs_halted r' = rs_halted r \<and>
    (\<forall>e \<in> set es. \<exists>x. get_entry (je_entry_id e) j' = Some x \<and> f e = Inr (Some (je_status x))) \<and>
    (\<forall>eid. eid \<notin> je_entry_id ` set es \<longrightarrow> get_entry eid j' = get_entry eid j)"
  using assms
proof (induction es arbitrary: n r j)
  case (Cons e es)
  obtain st where st: "f e = Inr (Some st)" using Cons.prems(1) by (auto split: sum.splits option.splits)
  let ?j = "if st = je_status e then j else snd (update_status J (clk n) (clk (n + 1)) (je_entry_id e) st (je_broker_id e) None None j)"
  let ?r = "if st = je_status e then r else r\<lparr>rs_resolved := rs_resolved r @ [je_client_id e]\<rparr>"
  let ?n = "if st = je_status e then n else n + 2"
  have run: "resolve J clk f ?n es ?r ?j = (False, r', j')" using Cons.prems(1) st by (simp split: if_splits)
  have new: "je_entry_id e \<notin> je_entry_id ` set es" "distinct (map je_entry_id es)" using Cons.prems(2) by simp_all
  have "get_entry (je_entry_id e') ?j = Some e'" if "e' \<in> set es" for e'
  proof -
    have "je_entry_id e' \<noteq> je_entry_id e" using that new(1) by (metis imageI)
    then show ?thesis using Cons.prems(3) [of e'] that by (simp add: get_entry_update)
  qed
  note IH = Cons.IH [OF run new(2) this]
  have "\<exists>x. get_entry (je_entry_id e) ?j = Some x \<and> je_status x = st"
    using Cons.prems(3) [of e] by (auto simp: get_entry_update set_entry_def)
  then have "\<exists>x. get_entry (je_entry_id e) j' = Some x \<and> f e = Inr (Some (je_status x))" using IH new(1) st by auto
  moreover have "get_entry eid ?j = get_entry eid j" if "eid \<noteq> je_entry_id e" for eid using that by (simp add: get_entry_update)
  ultimately show ?case using IH by auto
qed simp

text \<open>A loop that returns early halts and leaves an order unresolved.\<close>

lemma resolve_stops:
  assumes "resolve J clk f n es r j = (True, r', j')" and "distinct (map je_entry_id es)"
    and "\<And>e. e \<in> set es \<Longrightarrow> get_entry (je_entry_id e) j = Some e \<and> unresolved_status (je_status e)"
  shows "\<not> rs_success r' \<and> rs_halted r' \<and> (\<exists>eid x. get_entry eid j' = Some x \<and> unresolved_status (je_status x))"
  using assms
proof (induction es arbitrary: n r j)
  case (Cons e es)
  have e: "get_entry (je_entry_id e) j = Some e" "unresolved_status (je_status e)" using Cons.prems(3) [of e] by auto
  consider (raised) err where "f e = Inl err" | (missing) "f e = Inr None" | (found) st where "f e = Inr (Some st)"
    by (metis obj_sumE option.exhaust)
  then show ?case
  proof cases
    case raised
    then show ?thesis using Cons.prems(1) e by (auto simp: safe_halt_def)
  next
    case missing
    then show ?thesis using Cons.prems(1) e
      by (auto simp: safe_halt_def get_entry_update set_entry_def unresolved_status_def intro!: exI [of _ "je_entry_id e"])
  next
    case found
    let ?j = "if st = je_status e then j else snd (update_status J (clk n) (clk (n + 1)) (je_entry_id e) st (je_broker_id e) None None j)"
    let ?r = "if st = je_status e then r else r\<lparr>rs_resolved := rs_resolved r @ [je_client_id e]\<rparr>"
    have run: "resolve J clk f (if st = je_status e then n else n + 2) es ?r ?j = (True, r', j')"
      using Cons.prems(1) found by (simp split: if_splits)
    have rest: "distinct (map je_entry_id es)" using Cons.prems(2) by simp
    have "get_entry (je_entry_id e') ?j = Some e' \<and> unresolved_status (je_status e')" if "e' \<in> set es" for e'
    proof -
      have "je_entry_id e' \<noteq> je_entry_id e" using that Cons.prems(2) by (metis distinct.simps(2) imageI list.set_map list.simps(9))
      then show ?thesis using Cons.prems(3) [of e'] that by (simp add: get_entry_update)
    qed
    from Cons.IH [OF run rest this] show ?thesis .
  qed
qed simp

lemma resolve_ok: "journal_ok J j \<Longrightarrow> journal_ok J (snd (snd (resolve J clk f n es r j)))"
  by (induction J clk f n es r j rule: resolve.induct) (auto simp: journal_ok_update split: sum.split option.split)

lemma update_entry_ids: "map je_entry_id (oj_orders (snd (update_status J now ts eid st bid fq px j))) = map je_entry_id (oj_orders j)"
  by (simp add: update_status_def if_distrib cong: map_cong)

lemma unresolved_entries:
  assumes "distinct (map je_entry_id (oj_orders j))"
  shows "distinct (map je_entry_id (get_unresolved_orders j))"
    and "e \<in> set (get_unresolved_orders j) \<Longrightarrow> get_entry (je_entry_id e) j = Some e \<and> unresolved_status (je_status e)"
proof -
  have "distinct (map je_entry_id (get_all_entries j))"
    using assms by (simp add: get_all_entries_def distinct_map)
  then show "distinct (map je_entry_id (get_unresolved_orders j))"
    by (simp add: get_unresolved_orders_def get_orders_with_status_def distinct_map_filter)
  show "get_entry (je_entry_id e) j = Some e \<and> unresolved_status (je_status e)" if "e \<in> set (get_unresolved_orders j)"
    using that by (simp add: unresolved_set get_entry_mem [OF assms])
qed

text \<open>
  C20: after a restart the orders are settled or trading halts.  Reconciling the orders of a sound journal
  succeeds exactly when no order of the journal is unresolved afterwards, and halts otherwise.  When it
  succeeds every order that was unresolved has the status the broker answered for it.  The journal stays
  sound, its audit chain included.
\<close>

theorem order_reconciliation_settles_or_halts:
  assumes "rc_journal rc = Some j" and "journal_ok J j"
    and "reconcile_orders J clk now ask rc = (r, rc')" and "rc_journal rc' = Some j'"
  shows "(rs_success r \<longleftrightarrow> get_unresolved_orders j' = []) \<and> (rs_halted r \<longleftrightarrow> \<not> rs_success r) \<and> journal_ok J j' \<and>
    (rs_success r \<longrightarrow> (\<forall>e \<in> set (get_unresolved_orders j).
       \<exists>f x. ask = Some f \<and> get_entry (je_entry_id e) j' = Some x \<and> f e = Inr (Some (je_status x))))"
proof -
  have run: "reconcile_journal J clk now ask j = (r, j')" using assms(1,3,4) by (auto simp: reconcile_orders_def split: prod.splits)
  have ids: "distinct (map je_entry_id (oj_orders j))" using assms(2) by (simp add: journal_ok_def)
  note un = unresolved_entries [OF ids]
  show ?thesis
  proof (cases "get_unresolved_orders j = [] \<or> ask = None")
    case True
    then show ?thesis using run assms(2) by (auto simp: reconcile_journal_def clean_result_def safe_halt_def Let_def split: if_splits)
  next
    case False
    then obtain f where f: "ask = Some f" by auto
    obtain stop r1 j1 where s: "resolve J clk f 0 (get_unresolved_orders j) (clean_result now) j = (stop, r1, j1)" by (metis prod_cases3)
    have ok1: "journal_ok J j1" using resolve_ok [OF assms(2), of clk f 0 "get_unresolved_orders j" "clean_result now"] s by simp
    then have empty: "get_unresolved_orders j1 = [] \<longleftrightarrow> (\<forall>eid x. get_entry eid j1 = Some x \<longrightarrow> \<not> unresolved_status (je_status x))"
      by (intro unresolved_empty) (simp add: journal_ok_def)
    show ?thesis
    proof (cases stop)
      case True
      then have "resolve J clk f 0 (get_unresolved_orders j) (clean_result now) j = (True, r1, j1)" using s by simp
      from resolve_stops [OF this] un
      have "\<not> rs_success r1 \<and> rs_halted r1 \<and> (\<exists>eid x. get_entry eid j1 = Some x \<and> unresolved_status (je_status x))" by blast
      moreover have "r = r1" "j' = j1" using run False f s True by (auto simp: reconcile_journal_def Let_def)
      ultimately show ?thesis using ok1 empty by blast
    next
      case go: False
      then have "resolve J clk f 0 (get_unresolved_orders j) (clean_result now) j = (False, r1, j1)" using s by simp
      from resolve_finishes [OF this] un
      have fin: "rs_success r1 \<and> \<not> rs_halted r1 \<and>
          (\<forall>e \<in> set (get_unresolved_orders j). \<exists>x. get_entry (je_entry_id e) j1 = Some x \<and> f e = Inr (Some (je_status x)))"
        by (auto simp: clean_result_def)
      have "j' = j1" "r = (if get_unresolved_orders j1 = [] then r1 else safe_halt
          (sample_of ''Unresolved orders remain after reconciliation: '' (get_unresolved_orders j1)) r1)"
        using run False f s go by (auto simp: reconcile_journal_def Let_def split: if_splits)
      then show ?thesis using fin ok1 f by (auto simp: safe_halt_def)
    qed
  qed
qed

definition sample_entry :: JournalEntry where
  "sample_entry = new_entry ''e1'' 1 1 ''c1'' ''i1'' ''BTC'' ''buy'' 1 ''market'' []"

definition sample_jenv :: journal_env where
  "sample_jenv = \<lparr>j_digests = const_digests, j_rep = (\<lambda>v. [])\<rparr>"

definition sample_rc :: Reconciler where
  "sample_rc = init_Reconciler None (Some (snd (log_order sample_jenv 1 sample_entry (empty_journal None)))) MA_HALT (1/1000)"

theorem order_reconciliation_settles_or_halts_witness:
  "(let (r, rc') = reconcile_orders sample_jenv int 9 (Some (\<lambda>e. Inr (Some J_CONFIRMED))) sample_rc
    in rs_success r \<and> get_unresolved_orders (the (rc_journal rc')) = []) \<and>
   (let (r, rc') = reconcile_orders sample_jenv int 9 (Some (\<lambda>e. Inr (Some J_SUBMITTED))) sample_rc in rs_halted r)"
proof -
  define j where "j = snd (log_order sample_jenv 1 sample_entry (empty_journal None))"
  have ok: "journal_ok sample_jenv j" unfolding j_def by (intro journal_ok_log journal_ok_empty)
  have rc: "rc_journal sample_rc = Some j" by (simp add: sample_rc_def j_def init_Reconciler_def)
  define p where "p st = reconcile_orders sample_jenv int 9 (Some (\<lambda>e. Inr (Some st))) sample_rc" for st
  have j': "rc_journal (snd (p st)) = Some (the (rc_journal (snd (p st))))" for st
    by (auto simp: p_def reconcile_orders_def rc split: prod.split)
  note t = order_reconciliation_settles_or_halts [OF rc ok _ j', where clk = int and now = 9 and ask = "Some (\<lambda>e. Inr (Some st))" and r = "fst (p st)" for st]
  have "rs_success (fst (p J_CONFIRMED))" "\<not> rs_success (fst (p J_SUBMITTED))" unfolding p_def by code_simp+
  then show ?thesis using t [of J_CONFIRMED J_CONFIRMED] t [of J_SUBMITTED J_SUBMITTED] by (simp add: p_def [symmetric] case_prod_unfold)
qed

end
