(* ===== verification/Run_Controller.thy ===== *)
theory Run_Controller
  imports Execution_Safety Kill_Switch
begin

section \<open>The run controller\<close>

text \<open>
  Model of \<^verbatim>\<open>RunController\<close> in \<^verbatim>\<open>packages/agent/daemon/agentd.py\<close>: it starts and stops a
  run, drains the queue of intents at every tick and gives them to the execution engine, unless the kill
  switch is triggered.  Arguments stand for what comes from outside: errors of the artifact manager, the
  sandbox and the callbacks, drawn identifiers, the broker's answers.  The queue holds what the process of
  the strategy has put into it.
\<close>

record RunControllerConfig =
  reconcile_on_start :: bool
  reconcile_on_restart :: bool
  safe_halt_on_mismatch :: bool
  reconcile_interval_seconds :: int
  sandbox_enabled :: bool
  cf_deployment_id :: "string option"
  cf_run_id :: "string option"

definition default_RunControllerConfig :: "int \<Rightarrow> RunControllerConfig" where
  "default_RunControllerConfig n =
     \<lparr>reconcile_on_start = True, reconcile_on_restart = True, safe_halt_on_mismatch = True, reconcile_interval_seconds = n,
      sandbox_enabled = True, cf_deployment_id = None, cf_run_id = None\<rparr>"

record 'w RunController =
  rn_config :: RunControllerConfig
  rn_policy :: PolicyFirewall
  rn_caps :: HardCapEnforcer
  rn_risk :: RiskChecker
  rn_journal :: OrderJournal
  rn_reconciler :: bool
  rn_connector :: "string option"
  rn_ks :: "'w KillSwitchManager option"
  rn_sandbox :: bool
  rn_engine :: "Engine option"
  rn_running :: bool
  rn_initialized :: bool
  rn_run_id :: "string option"
  rn_portfolio :: PortfolioState
  rn_queue :: "OrderIntent list option"
  rn_stop_event :: bool
  rn_thread :: bool
  rn_errors :: "pymsg list"

definition init_RunController ::
  "RunControllerConfig \<Rightarrow> PolicyFirewall \<Rightarrow> HardCapEnforcer \<Rightarrow> RiskChecker \<Rightarrow> OrderJournal \<Rightarrow> bool \<Rightarrow> string option \<Rightarrow>
   'w KillSwitchManager option \<Rightarrow> 'w RunController" where
  "init_RunController cf fw hc rk j rec conn k =
     \<lparr>rn_config = cf, rn_policy = fw, rn_caps = hc, rn_risk = rk, rn_journal = j, rn_reconciler = rec, rn_connector = conn, rn_ks = k,
      rn_sandbox = False, rn_engine = None, rn_running = False, rn_initialized = False, rn_run_id = None,
      rn_portfolio = init_PortfolioState, rn_queue = None, rn_stop_event = False, rn_thread = False, rn_errors = []\<rparr>"

subsection \<open>Initialisation\<close>

text \<open>
  The function given to the engine turns an exception of the connector into a refusal.  A connector has
  a name and the method \<^verbatim>\<open>submit_order\<close>.
\<close>

datatype connector_answer = Order_result bool "string option" "string option" | Connector_raises string

fun broker_submit_fn :: "connector_answer \<Rightarrow> broker_answer" where
  "broker_submit_fn (Order_result ok bid err) = (if ok then Accepted bid else Refused err)"
| "broker_submit_fn (Connector_raises e) = Refused (Some e)"

text \<open>The default collar; the fraction is the double next to one tenth.\<close>

definition default_collar :: PriceCollarConfig where
  "default_collar = \<lparr>pcc_enabled = True, max_price_distance_pct = Some (Fin (3602879701896397 / 36028797018963968)), pcc_max_notional = None,
     max_adv_participation = None, has_adv_provider = False\<rparr>"

definition init_execution_engine :: "string \<Rightarrow> string \<Rightarrow> 'w RunController \<Rightarrow> 'w RunController" where
  "init_execution_engine dep run c =
     c\<lparr>rn_engine := Some (init_Engine (rn_policy c) (rn_caps c) (rn_risk c) (rn_connector c \<noteq> None) False False default_collar
         (case rn_connector c of None \<Rightarrow> ''default'' | Some n \<Rightarrow> n) (rn_journal c)
         (if truthy (cf_deployment_id (rn_config c)) then the (cf_deployment_id (rn_config c)) else dep)
         (if truthy (cf_run_id (rn_config c)) then the (cf_run_id (rn_config c)) else run) [])\<rparr>"

text \<open>
  \<open>before\<close> and \<open>after\<close>: the text of an exception raised before the engine was made (by
  the artifact manager or the sandbox) or after it (by the verification of the model's signature).
\<close>

definition initialize :: "string \<Rightarrow> string \<Rightarrow> string option \<Rightarrow> string option \<Rightarrow> 'w RunController \<Rightarrow> bool \<times> 'w RunController" where
  "initialize dep run before after c =
     (if rn_initialized c then (True, c)
      else
        (case before of
           Some e \<Rightarrow> (False, c\<lparr>rn_errors := rn_errors c @ [FStr ''RunController initialization failed: {}'' [PStr e]]\<rparr>)
         | None \<Rightarrow>
             (let c1 = init_execution_engine dep run (c\<lparr>rn_sandbox := sandbox_enabled (rn_config c) \<or> rn_sandbox c\<rparr>) in
              case after of
                Some e \<Rightarrow> (False, c1\<lparr>rn_errors := rn_errors c1 @ [FStr ''RunController initialization failed: {}'' [PStr e]]\<rparr>)
              | None \<Rightarrow> (True, c1\<lparr>rn_initialized := True\<rparr>))))"

subsection \<open>Runs\<close>

text \<open>
  With a reconciler, \<^verbatim>\<open>_perform_reconciliation\<close> calls its \<^verbatim>\<open>reconcile\<close> with two keyword
  arguments that this method does not have: the \<^verbatim>\<open>TypeError\<close>, or an earlier exception of the
  connector, is caught and becomes the error of the result.  \<open>err\<close> is its text.
\<close>

definition perform_reconciliation :: "string \<Rightarrow> 'w RunController \<Rightarrow> bool \<times> string option" where
  "perform_reconciliation err c = (if \<not> rn_reconciler c then (True, None) else (False, Some err))"

text \<open>\<open>sandbox\<close>: what its start returned or raised.\<close>

definition start_run ::
  "string option \<Rightarrow> string \<Rightarrow> string \<Rightarrow> string + bool \<Rightarrow> 'w RunController \<Rightarrow> (bool \<times> pymsg option) \<times> 'w RunController" where
  "start_run rid drawn err sandbox c =
     (if rn_running c then ((True, None), c)
      else if \<not> rn_initialized c then ((False, Some (FStr ''RunController not initialized'' [])), c)
      else
        (let c1 = c\<lparr>rn_run_id := Some (if truthy rid then the rid else drawn), rn_stop_event := False\<rparr>;
             rr = (if reconcile_on_start (rn_config c) then perform_reconciliation err c1 else (True, None)) in
         if \<not> fst rr \<and> safe_halt_on_mismatch (rn_config c)
         then ((False, Some (FStr ''Reconciliation failed: {} - safe halt'' [PStr err])), c1)
         else
           (case (if rn_sandbox c1 then sandbox else Inr True) of
              Inl e \<Rightarrow> ((False, Some (FStr ''{}'' [PStr e])), c1)
            | Inr False \<Rightarrow> ((False, Some (FStr ''Failed to start sandbox'' [])), c1)
            | Inr True \<Rightarrow>
                ((True, None), c1\<lparr>rn_thread := rn_thread c1 \<or> reconcile_interval_seconds (rn_config c) > 0, rn_running := True\<rparr>))))"

datatype rc_error = Sandbox_error | Callback_error | Engine_error ex_error

text \<open>\<open>raises\<close>: the sandbox raised while it was stopped.  The result of the final reconciliation is dropped.\<close>

definition stop_run :: "bool \<Rightarrow> 'w RunController \<Rightarrow> (rc_error, bool, 'w RunController) pyres" where
  "stop_run raises c =
     (if \<not> rn_running c then py_return True c
      else
        (let c1 = c\<lparr>rn_stop_event := True\<rparr> in
         if rn_sandbox c1 \<and> raises then py_raise Sandbox_error c1 else py_return True (c1\<lparr>rn_running := False\<rparr>)))"

subsection \<open>Ticks\<close>

definition get_strategy_intents :: "'w RunController \<Rightarrow> OrderIntent list \<times> 'w RunController" where
  "get_strategy_intents c =
     (case rn_queue c of None \<Rightarrow> ([], c) | Some q \<Rightarrow> (q, c\<lparr>rn_queue := Some []\<rparr>))"

definition no_engine :: ExecutionResult where
  "no_engine = refused (FStr ''Execution engine not initialized'' [])"

text \<open>
  The price is never given, the origin is the runner.  \<open>on_intent\<close> and \<open>on_order\<close>: whether
  a callback is set and raises.
\<close>

definition execute_intent :: "ex_env \<Rightarrow> ex_in \<Rightarrow> OrderIntent \<Rightarrow> Engine option \<Rightarrow> (ex_error, ExecutionResult, Engine option) pyres" where
  "execute_intent X I i eng =
     (case eng of
        None \<Rightarrow> py_return no_engine None
      | Some e \<Rightarrow> (case execute X I i None ''runner'' e of (r, e') \<Rightarrow> (r, Some e')))"

fun run_intents ::
  "ex_env \<Rightarrow> bool \<Rightarrow> bool \<Rightarrow> (nat \<Rightarrow> ex_in) \<Rightarrow> nat \<Rightarrow> OrderIntent list \<Rightarrow> ExecutionResult list \<Rightarrow> Engine option \<Rightarrow>
   (rc_error, ExecutionResult list, Engine option) pyres" where
  "run_intents X on_intent on_order Is n [] rs eng = py_return rs eng"
| "run_intents X on_intent on_order Is n (i # is) rs eng =
     (if on_intent then py_raise Callback_error eng
      else
        (case execute_intent X (Is n) i eng of
           (Inl err, eng') \<Rightarrow> py_raise (Engine_error err) eng'
         | (Inr r, eng') \<Rightarrow>
             if on_order \<and> er_order r \<noteq> None then py_raise Callback_error eng'
             else run_intents X on_intent on_order Is (n + 1) is (rs @ [r]) eng'))"

definition set_portfolio :: "PortfolioState option \<Rightarrow> 'w RunController \<Rightarrow> 'w RunController" where
  "set_portfolio p c =
     (case p of
        None \<Rightarrow> c
      | Some p' \<Rightarrow> c\<lparr>rn_portfolio := p', rn_engine := map_option (update_portfolio p') (rn_engine c)\<rparr>)"

definition switch_triggered :: "'w RunController \<Rightarrow> bool" where
  "switch_triggered c = (case rn_ks c of None \<Rightarrow> False | Some k \<Rightarrow> triggered k)"

definition tick ::
  "ex_env \<Rightarrow> bool \<Rightarrow> bool \<Rightarrow> (nat \<Rightarrow> ex_in) \<Rightarrow> PortfolioState option \<Rightarrow> 'w RunController \<Rightarrow>
   (rc_error, ExecutionResult list, 'w RunController) pyres" where
  "tick X on_intent on_order Is p c =
     (if \<not> rn_running c then py_return [] c
      else
        (let c1 = set_portfolio p c in
         if switch_triggered c1 then py_return [] c1
         else
           (case get_strategy_intents c1 of (is, c2) \<Rightarrow>
              (case run_intents X on_intent on_order Is 0 is [] (rn_engine c2) of (r, eng) \<Rightarrow> (r, c2\<lparr>rn_engine := eng\<rparr>)))))"

definition set_broker_connector :: "string option \<Rightarrow> 'w RunController \<Rightarrow> 'w RunController" where
  "set_broker_connector conn c =
     c\<lparr>rn_connector := conn,
       rn_engine := (if conn \<noteq> None then map_option (\<lambda>e. e\<lparr>has_submit := True\<rparr>) (rn_engine c) else rn_engine c)\<rparr>"

definition set_reconciler :: "bool \<Rightarrow> 'w RunController \<Rightarrow> 'w RunController" where
  "set_reconciler r c = c\<lparr>rn_reconciler := r\<rparr>"

definition set_kill_switch :: "'w KillSwitchManager option \<Rightarrow> 'w RunController \<Rightarrow> 'w RunController" where
  "set_kill_switch k c = c\<lparr>rn_ks := k\<rparr>"

subsection \<open>Calls\<close>

text \<open>
  The calls of the controller, those of the kill switch by other parts of the agent, and intents that
  arrive in a queue.
\<close>

datatype rc_call =
    Rc_initialize string string "string option" "string option"
  | Rc_start "string option" string string "string + bool"
  | Rc_stop bool
  | Rc_tick bool bool "nat \<Rightarrow> ex_in" "PortfolioState option"
  | Rc_queue "OrderIntent list"
  | Rc_connector "string option"
  | Rc_reconciler bool
  | Rc_switch ks_call

definition put_intents :: "OrderIntent list \<Rightarrow> 'w RunController \<Rightarrow> 'w RunController" where
  "put_intents is c = c\<lparr>rn_queue := Some (case rn_queue c of None \<Rightarrow> is | Some q \<Rightarrow> q @ is)\<rparr>"

fun rc_step :: "Kill_Switch.hasher \<Rightarrow> ex_env \<Rightarrow> 'w RunController \<Rightarrow> rc_call \<Rightarrow> 'w RunController" where
  "rc_step H X c (Rc_initialize dep run b a) = snd (initialize dep run b a c)"
| "rc_step H X c (Rc_start rid drawn err sb) = snd (start_run rid drawn err sb c)"
| "rc_step H X c (Rc_stop raises) = snd (stop_run raises c)"
| "rc_step H X c (Rc_tick ci co Is p) = snd (tick X ci co Is p c)"
| "rc_step H X c (Rc_queue is) = put_intents is c"
| "rc_step H X c (Rc_connector conn) = set_broker_connector conn c"
| "rc_step H X c (Rc_reconciler r) = set_reconciler r c"
| "rc_step H X c (Rc_switch k) = c\<lparr>rn_ks := map_option (\<lambda>s. ks_exec H s k) (rn_ks c)\<rparr>"

text \<open>The orders the broker was given.\<close>

definition given :: "'w RunController \<Rightarrow> Order list" where
  "given c = (case rn_engine c of None \<Rightarrow> [] | Some e \<Rightarrow> sent e)"

text \<open>A controller whose initialisation failed after the engine was made would make a second engine.\<close>

definition rc_wf :: "ex_env \<Rightarrow> 'w RunController \<Rightarrow> bool" where
  "rc_wf X c \<longleftrightarrow> (\<forall>e. rn_engine c = Some e \<longrightarrow> engine_ok X e \<and> (rn_initialized c \<or> e_journal e = rn_journal c \<and> sent e = [])) \<and>
     (rn_running c \<longrightarrow> rn_initialized c) \<and> journal_ok (x_journal X) (rn_journal c)"

lemma execute_intent_ok:
  assumes "\<And>e. eng = Some e \<Longrightarrow> engine_ok X e" and "snd (execute_intent X I i eng) = Some e'"
  shows "engine_ok X e'"
  using assms engine_ok_execute [of X "the eng" I i None "''runner''"]
  by (auto simp: execute_intent_def split: option.splits prod.splits)

lemma run_intents_ok:
  "(\<And>e. eng = Some e \<Longrightarrow> engine_ok X e) \<Longrightarrow> snd (run_intents X ci co Is n is rs eng) = Some e' \<Longrightarrow> engine_ok X e'"
proof (induction X ci co Is n "is" rs eng rule: run_intents.induct)
  case (2 X ci co Is n i "is" rs eng)
  obtain r eng' where x: "execute_intent X (Is n) i eng = (r, eng')" by (cases "execute_intent X (Is n) i eng")
  have ok: "engine_ok X e" if "eng' = Some e" for e using execute_intent_ok [of eng X "Is n" i e] "2.prems"(1) x that by simp
  show ?case
  proof (cases r)
    case (Inl err)
    then show ?thesis using "2.prems" x ok by (auto split: if_splits)
  next
    case (Inr v)
    show ?thesis
    proof (cases "ci \<or> co \<and> er_order v \<noteq> None")
      case True
      then show ?thesis using "2.prems" x ok Inr by (auto split: if_splits)
    next
      case False
      then have "snd (run_intents X ci co Is (n + 1) is (rs @ [v]) eng') = Some e'" using "2.prems"(2) x Inr by auto
      with "2.IH" [OF _ x [symmetric] Inr] False ok show ?thesis by auto
    qed
  qed
qed auto

lemma wf_engine: "rc_wf X c \<Longrightarrow> rn_engine c = Some e \<Longrightarrow> engine_ok X e"
  by (simp add: rc_wf_def)

lemma engine_ok_portfolio: "engine_ok X e \<Longrightarrow> engine_ok X (update_portfolio p e)"
  using engine_ok_step [of X e "Do_portfolio p"] by simp

lemma engine_ok_submit: "engine_ok X e \<Longrightarrow> engine_ok X (e\<lparr>has_submit := b\<rparr>)"
  by (simp add: engine_ok_def sent_ids_def journal_ids_def)

lemma init_engine_ok:
  "journal_ok (x_journal X) j \<Longrightarrow> engine_ok X (init_Engine fw hc rk sub can rep collar name j dep run [])"
  by (simp add: engine_ok_def init_Engine_def recover_sequence_def sent_ids_def heap_ok_def)

lemma init_Engine_simps [simp]:
  "e_journal (init_Engine fw hc rk sub can rep collar name j dep run s) = j" "sent (init_Engine fw hc rk sub can rep collar name j dep run s) = s"
  by (simp_all add: init_Engine_def recover_sequence_def)

lemma wf_initialize: "rc_wf X c \<Longrightarrow> rc_wf X (snd (initialize dep run b a c))"
  by (auto simp: rc_wf_def initialize_def init_execution_engine_def init_engine_ok Let_def split: option.split)

lemma wf_start: "rc_wf X c \<Longrightarrow> rc_wf X (snd (start_run rid drawn err sb c))"
  by (auto simp: rc_wf_def start_run_def Let_def split: sum.split bool.split)

lemma wf_stop: "rc_wf X c \<Longrightarrow> rc_wf X (snd (stop_run raises c))"
  by (auto simp: rc_wf_def stop_run_def Let_def)

lemma update_portfolio_simps [simp]: "sent (update_portfolio p e) = sent e" "e_journal (update_portfolio p e) = e_journal e"
  by (simp_all add: update_portfolio_def)

lemma set_portfolio_simps [simp]:
  "rn_running (set_portfolio p c) = rn_running c" "rn_initialized (set_portfolio p c) = rn_initialized c" "rn_ks (set_portfolio p c) = rn_ks c"
  "rn_journal (set_portfolio p c) = rn_journal c" "rn_queue (set_portfolio p c) = rn_queue c" "given (set_portfolio p c) = given c"
  "rn_reconciler (set_portfolio p c) = rn_reconciler c" "rn_config (set_portfolio p c) = rn_config c"
  by (cases "rn_engine c"; simp add: set_portfolio_def given_def split: option.split)+

lemma wf_portfolio:
  assumes "rc_wf X c" shows "rc_wf X (set_portfolio p c)"
  using assms by (auto simp: rc_wf_def set_portfolio_def engine_ok_portfolio split: option.splits)

lemma get_intents_simps [simp]:
  "rn_engine (snd (get_strategy_intents c)) = rn_engine c" "rn_running (snd (get_strategy_intents c)) = rn_running c"
  "rn_initialized (snd (get_strategy_intents c)) = rn_initialized c" "rn_journal (snd (get_strategy_intents c)) = rn_journal c"
  "rn_ks (snd (get_strategy_intents c)) = rn_ks c" "rn_reconciler (snd (get_strategy_intents c)) = rn_reconciler c"
  "rn_config (snd (get_strategy_intents c)) = rn_config c"
  by (simp_all add: get_strategy_intents_def split: option.split)

lemma tick_snd:
  "snd (tick X ci co Is p c) =
   (if \<not> rn_running c then c
    else if switch_triggered c then set_portfolio p c
    else let c2 = snd (get_strategy_intents (set_portfolio p c)) in
      c2\<lparr>rn_engine := snd (run_intents X ci co Is 0 (fst (get_strategy_intents (set_portfolio p c))) [] (rn_engine c2))\<rparr>)"
  by (simp add: tick_def Let_def switch_triggered_def case_prod_unfold)

lemma wf_tick:
  assumes "rc_wf X c" shows "rc_wf X (snd (tick X ci co Is p c))"
proof (cases "rn_running c \<and> \<not> switch_triggered c")
  case True
  note wf = wf_portfolio [OF assms, of p]
  have "rn_initialized c" using True assms by (simp add: rc_wf_def)
  then show ?thesis
    using True wf run_intents_ok [OF wf_engine [OF wf]] by (simp add: tick_snd Let_def rc_wf_def)
next
  case False
  then show ?thesis using assms wf_portfolio [OF assms, of p] by (simp add: tick_snd)
qed

lemma wf_step:
  assumes "rc_wf X c" shows "rc_wf X (rc_step H X c call)"
proof (cases call)
  case (Rc_connector conn)
  then show ?thesis using assms by (auto simp: rc_wf_def set_broker_connector_def engine_ok_submit)
qed (use assms in \<open>simp_all add: wf_initialize wf_start wf_stop wf_tick\<close>, simp_all add: rc_wf_def put_intents_def set_reconciler_def)

definition rc_fresh :: "'w RunController \<Rightarrow> bool" where
  "rc_fresh c \<longleftrightarrow> (\<exists>cf fw hc rk key rec conn k. c = init_RunController cf fw hc rk (empty_journal key) rec conn k)"

interpretation rcm: step_system rc_fresh "rc_step H X" "rc_wf X"
proof
  show "rc_wf X c" if "rc_fresh c" for c :: "'w RunController"
    using that by (auto simp: rc_fresh_def rc_wf_def init_RunController_def journal_ok_empty)
qed (rule wf_step)

subsection \<open>Properties of runs\<close>

text \<open>
  Through the run controller an order reaches the broker at most once.  Whatever is called on a
  controller with an empty journal, no two orders given to the broker have the same client identifier.
\<close>

theorem run_sends_each_order_once:
  "distinct (map client_order_id (given (foldl (rc_step H X) (init_RunController cf fw hc rk (empty_journal key) rec conn k) calls)))"
proof -
  have "rc_fresh (init_RunController cf fw hc rk (empty_journal key) rec conn k)" unfolding rc_fresh_def by blast
  then have "rc_wf X (foldl (rc_step H X) (init_RunController cf fw hc rk (empty_journal key) rec conn k) calls)" by (rule rcm.inv_reachable)
  then show ?thesis by (auto simp: rc_wf_def given_def engine_ok_def sent_ids_def split: option.split)
qed

text \<open>Only a tick of a running controller whose switch is open gives orders to the broker.\<close>

lemma given_step:
  assumes "rc_wf X c" and "\<not> rn_running c \<or> switch_triggered c"
  shows "given (rc_step H X c call) = given c"
proof (cases call)
  case (Rc_initialize dep run b a)
  have "given c = []" if "\<not> rn_initialized c" using that assms(1) by (auto simp: rc_wf_def given_def split: option.split)
  then show ?thesis using Rc_initialize
    by (auto simp: initialize_def init_execution_engine_def given_def Let_def split: option.split)
next
  case (Rc_start rid drawn err sb)
  then show ?thesis by (simp add: start_run_def given_def Let_def split: sum.split bool.split)
next
  case (Rc_stop raises)
  then show ?thesis by (simp add: stop_run_def given_def Let_def)
next
  case (Rc_tick ci co Is p)
  then show ?thesis using assms(2) by (auto simp: tick_snd)
next
  case (Rc_connector conn)
  then show ?thesis by (cases "rn_engine c") (simp_all add: set_broker_connector_def given_def)
qed (simp_all add: put_intents_def set_reconciler_def given_def)

fun rc_without_ack :: "rc_call \<Rightarrow> bool" where
  "rc_without_ack (Rc_switch k) = (\<not> valid_ack k)"
| "rc_without_ack _ = True"

lemma step_ks: "rn_ks (rc_step H X c call) = (case call of Rc_switch k \<Rightarrow> map_option (\<lambda>s. ks_exec H s k) (rn_ks c) | _ \<Rightarrow> rn_ks c)"
  by (cases call) (simp_all add: initialize_def init_execution_engine_def start_run_def stop_run_def tick_snd put_intents_def
    set_broker_connector_def set_reconciler_def Let_def split: option.split sum.split bool.split)

definition quiet_run :: "ex_env \<Rightarrow> nat \<Rightarrow> Order list \<Rightarrow> 'w RunController \<Rightarrow> bool" where
  "quiet_run X a os c \<longleftrightarrow> rc_wf X c \<and> given c = os \<and> (\<exists>k. rn_ks c = Some k \<and> held a k)"

lemma quiet_run_step:
  assumes "quiet_run X a os c" and "rc_without_ack call"
  shows "quiet_run X a os (rc_step H X c call)"
proof -
  obtain k where k: "rn_ks c = Some k" "held a k" "rc_wf X c" "given c = os" using assms(1) by (auto simp: quiet_run_def)
  then have "switch_triggered c" by (simp add: switch_triggered_def held_def)
  then have "given (rc_step H X c call) = os" using given_step [of X c H call] k by simp
  moreover have "\<exists>k'. rn_ks (rc_step H X c call) = Some k' \<and> held a k'"
    using k assms(2) by (auto simp: step_ks ks_exec_held split: rc_call.split)
  ultimately show ?thesis using wf_step [OF k(3)] by (simp add: quiet_run_def)
qed

text \<open>
  C3: A halt stops the orders.  Once the kill switch of a run controller holds an unacknowledged halt, no
  call gives an order to the broker any more - ticks with a full queue, stops and starts of the run, a
  new connector, resets and further triggers included - until a valid acknowledgement.
\<close>

theorem halt_stops_orders:
  assumes "c = foldl (rc_step H X) (init_RunController cf fw hc rk (empty_journal key) rec conn k0) before"
    and "rn_ks c = Some k" and "held a k" and "\<forall>call \<in> set calls. rc_without_ack call"
  shows "given (foldl (rc_step H X) c calls) = given c"
proof -
  have "rc_fresh (init_RunController cf fw hc rk (empty_journal key) rec conn k0)" unfolding rc_fresh_def by blast
  then have "rc_wf X c" unfolding assms(1) by (rule rcm.inv_reachable)
  then have "quiet_run X a (given c) c" using assms(2,3) by (simp add: quiet_run_def)
  then have "quiet_run X a (given c) (foldl (rc_step H X) c calls)"
    using assms(4) by (intro run_inv [where J = "quiet_run X a (given c)" and ok = rc_without_ack]) (auto simp: quiet_run_step)
  then show ?thesis by (simp add: quiet_run_def)
qed

fun keeps_reconciler :: "rc_call \<Rightarrow> bool" where
  "keeps_reconciler (Rc_reconciler r) = r"
| "keeps_reconciler _ = True"

definition stuck :: "ex_env \<Rightarrow> 'w RunController \<Rightarrow> bool" where
  "stuck X c \<longleftrightarrow> rc_wf X c \<and> \<not> rn_running c \<and> given c = [] \<and> rn_reconciler c \<and> reconcile_on_start (rn_config c) \<and> safe_halt_on_mismatch (rn_config c)"

lemma stuck_step:
  assumes "stuck X c" and "keeps_reconciler call"
  shows "stuck X (rc_step H X c call)"
proof -
  have "\<not> rn_running c" "rn_reconciler c" "reconcile_on_start (rn_config c)" "safe_halt_on_mismatch (rn_config c)"
    using assms(1) by (simp_all add: stuck_def)
  then have "\<not> rn_running (rc_step H X c call) \<and> rn_reconciler (rc_step H X c call) \<and> rn_config (rc_step H X c call) = rn_config c"
    using assms(2) by (cases call) (simp_all add: initialize_def init_execution_engine_def start_run_def perform_reconciliation_def
      stop_run_def tick_snd put_intents_def set_broker_connector_def set_reconciler_def Let_def split: option.split)
  moreover have "given (rc_step H X c call) = []" using given_step [of X c H call] assms(1) by (simp add: stuck_def)
  ultimately show ?thesis using assms(1) wf_step [of X c H call] by (simp add: stuck_def)
qed

text \<open>
  C38: with a reconciler no run ever starts.  With the configuration the daemon uses (reconcile on start,
  halt on a mismatch) and a reconciler that stays set, the controller never runs and gives no order to
  the broker, whatever is called.
\<close>

theorem reconciler_prevents_every_run:
  assumes "reconcile_on_start cf" and "safe_halt_on_mismatch cf" and "\<forall>call \<in> set calls. keeps_reconciler call"
  shows "\<not> rn_running (foldl (rc_step H X) (init_RunController cf fw hc rk (empty_journal key) True conn k) calls) \<and>
    given (foldl (rc_step H X) (init_RunController cf fw hc rk (empty_journal key) True conn k) calls) = []"
proof -
  have "stuck X (init_RunController cf fw hc rk (empty_journal key) True conn k)"
    using assms(1,2) by (simp add: stuck_def rc_wf_def init_RunController_def given_def journal_ok_empty)
  then have "stuck X (foldl (rc_step H X) (init_RunController cf fw hc rk (empty_journal key) True conn k) calls)"
    using assms(3) by (intro run_inv [where J = "stuck X" and ok = keeps_reconciler]) (auto simp: stuck_step)
  then show ?thesis by (simp add: stuck_def)
qed

definition sample_rn :: "bool \<Rightarrow> unit RunController" where
  "sample_rn rec =
     init_RunController (default_RunControllerConfig 60) (init_PolicyFirewall default_PolicyConfig None 0 0)
       (init_HardCapEnforcer default_HardCaps 0 0) default_RiskChecker (empty_journal None) rec (Some ''b'') (Some sample_ks)"

definition sample_answers :: "nat \<Rightarrow> ex_in" where
  "sample_answers n = sample_in ''e1'' (broker_submit_fn (Order_result True (Some ''x'') None))"

definition sample_run :: "rc_call list" where
  "sample_run = [Rc_initialize ''d'' ''r'' None None, Rc_start None ''r1'' ''TypeError'' (Inr True), Rc_queue [sample_intent],
     Rc_tick False False sample_answers None, Rc_switch (Trigger sample_reason CANCEL_ORDERS sample_td)]"

definition sample_after :: "rc_call list" where
  "sample_after = [Rc_queue [sample_intent\<lparr>intent_id := ''i2''\<rparr>], Rc_tick False False (\<lambda>n. sample_in ''e2'' (Accepted None)) None,
     Rc_switch (Reset (seconds 1000) 0 0 True), Rc_stop False, Rc_start None ''r2'' ''TypeError'' (Inr True),
     Rc_tick False False (\<lambda>n. sample_in ''e3'' (Accepted None)) None]"

definition one_sent_and_held :: "unit RunController \<Rightarrow> bool" where
  "one_sent_and_held c = (case rn_ks c of None \<Rightarrow> False | Some k \<Rightarrow> held 0 k \<and> length (given c) = 1)"

theorem halt_stops_orders_witness:
  "given (foldl (rc_step sample_hasher sample_X) (foldl (rc_step sample_hasher sample_X) (sample_rn False) sample_run) sample_after) =
     given (foldl (rc_step sample_hasher sample_X) (sample_rn False) sample_run) \<and>
   length (given (foldl (rc_step sample_hasher sample_X) (sample_rn False) sample_run)) = 1"
proof
  let ?c = "foldl (rc_step sample_hasher sample_X) (sample_rn False) sample_run"
  have "one_sent_and_held ?c" by code_simp
  then obtain k where k: "rn_ks ?c = Some k" and h: "held 0 k" and one: "length (given ?c) = 1"
    by (auto simp: one_sent_and_held_def split: option.splits)
  show "given (foldl (rc_step sample_hasher sample_X) ?c sample_after) = given ?c"
    by (rule halt_stops_orders [OF _ k h, where before = sample_run]) (rule arg_cong [OF sample_rn_def], simp add: sample_after_def)
  show "length (given ?c) = 1" by (rule one)
qed

theorem reconciler_prevents_every_run_witness:
  "\<not> rn_running (foldl (rc_step sample_hasher sample_X) (sample_rn True) sample_run)"
  unfolding sample_rn_def
  by (rule conjunct1 [OF reconciler_prevents_every_run]) (simp_all add: default_RunControllerConfig_def sample_run_def)

text \<open>The expiry of an intent: nothing between the queue and the broker looks at it.\<close>

definition set_expiry :: "time option \<Rightarrow> OrderIntent \<Rightarrow> OrderIntent" where
  "set_expiry t i = i\<lparr>in_expires_at := t\<rparr>"

lemma set_expiry_fields [simp]:
  "in_strategy (set_expiry t i) = in_strategy i" "in_symbol (set_expiry t i) = in_symbol i" "in_type (set_expiry t i) = in_type i"
  "in_side (set_expiry t i) = in_side i" "target_quantity (set_expiry t i) = target_quantity i" "target_notional (set_expiry t i) = target_notional i"
  "in_limit_price (set_expiry t i) = in_limit_price i" "in_stop_price (set_expiry t i) = in_stop_price i" "in_tif (set_expiry t i) = in_tif i"
  "intent_id (set_expiry t i) = intent_id i"
  by (simp_all add: set_expiry_def)

lemma set_expiry_kind [simp]:
  "is_entry (set_expiry t i) = is_entry i" "is_exit (set_expiry t i) = is_exit i" "is_limit (set_expiry t i) = is_limit i"
  "is_stop (set_expiry t i) = is_stop i" "is_passive (set_expiry t i) = is_passive i"
  by (simp_all add: is_entry_def is_exit_def is_limit_def is_stop_def is_passive_def)

lemma set_expiry_checks:
  "check_intent ctx fw (set_expiry t i) q = check_intent ctx fw i q"
  "risk_check ctx k h (set_expiry t i) p price = risk_check ctx k h i p price"
  "intent_to_order X e oid now (set_expiry t i) price = intent_to_order X e oid now i price"
  "order_metadata e (set_expiry t i) n = order_metadata e i n"
  unfolding check_intent_def check_action_def check_position_limit_def risk_check_def all_checks_def checked_quantity_def
    checked_notional_def rk_position_limit_def rk_buying_power_def rk_leverage_def rk_drawdown_def intent_to_order_def
    compute_client_order_id_def order_metadata_def set_expiry_fields set_expiry_kind
  by (rule refl)+

lemma execute_expiry: "execute X I (set_expiry t i) price origin e = execute X I i price origin e"
  unfolding execute_def gate_def submit_def set_expiry_fields set_expiry_kind set_expiry_checks by (rule refl)

lemma run_intents_expiry: "run_intents X ci co Is n (map (set_expiry t) is) rs eng = run_intents X ci co Is n is rs eng"
proof (induction "is" arbitrary: n rs eng)
  case (Cons i "is")
  have "execute_intent X (Is n) (set_expiry t i) eng = execute_intent X (Is n) i eng"
    unfolding execute_intent_def execute_expiry ..
  then show ?case unfolding list.map run_intents.simps Cons.IH by simp
qed simp

text \<open>
  The expiry of an intent has no effect.  A tick returns the same results and gives the same orders to
  the broker, whatever expiry the intents in its queue have.
\<close>

theorem tick_ignores_expiry:
  "fst (tick X ci co Is p (put_intents (map (set_expiry t) is) (c\<lparr>rn_queue := None\<rparr>))) =
     fst (tick X ci co Is p (put_intents is (c\<lparr>rn_queue := None\<rparr>))) \<and>
   given (snd (tick X ci co Is p (put_intents (map (set_expiry t) is) (c\<lparr>rn_queue := None\<rparr>)))) =
     given (snd (tick X ci co Is p (put_intents is (c\<lparr>rn_queue := None\<rparr>))))"
proof -
  let ?c = "\<lambda>q. put_intents q (c\<lparr>rn_queue := None\<rparr>)"
  have f: "rn_running (?c q) = rn_running c" "switch_triggered (set_portfolio p (?c q)) = switch_triggered c"
    "rn_engine (set_portfolio p (?c q)) = rn_engine (set_portfolio p c)" "given (set_portfolio p (?c q)) = given c"
    "given (?c q) = given c" for q
    by (auto simp: put_intents_def switch_triggered_def set_portfolio_def given_def update_portfolio_def split: option.split)
  have g: "fst (get_strategy_intents (set_portfolio p (?c q))) = q" for q
    by (simp add: get_strategy_intents_def put_intents_def)
  show ?thesis
    by (simp add: tick_def Let_def case_prod_unfold f g run_intents_expiry) (simp add: given_def)
qed

text \<open>During a halt the queue is kept: what was put into it is executed by the first tick after the reset.\<close>

lemma halted_tick_keeps_queue:
  "switch_triggered c \<Longrightarrow> fst (tick X ci co Is p c) = Inr [] \<and> rn_queue (snd (tick X ci co Is p c)) = rn_queue c"
  by (simp add: tick_def Let_def) (simp add: switch_triggered_def)

text \<open>An exception of the connector, a timeout for example, is a refusal for the engine and the journal.\<close>

lemma connector_exception_is_refusal: "broker_submit_fn (Connector_raises e) = broker_submit_fn (Order_result False None (Some e))"
  by simp

end
