(* ===== verification/PnL_Ledger.thy ===== *)
theory PnL_Ledger
  imports Risk_Checker Py_Float
begin

section \<open>The profit-and-loss ledger\<close>

text \<open>
  Model of \<^verbatim>\<open>packages/agent/accounting/pnl_ledger.py\<close>: inventory per symbol with average-cost
  or FIFO accounting, cash, realised and unrealised profit, fees, financing, snapshots at the end of the
  day, and the recovery from the tables of fills, marks and snapshots.  Amounts are what
  \<^verbatim>\<open>_d\<close> makes of the arguments: finite decimals.  \<open>ctx\<close> rounds results of decimal arithmetic
  to the context, \<open>flt\<close> is the decimal that \<^verbatim>\<open>str(float(x))\<close> denotes.  Clock readings
  are arguments.  The database works.
\<close>

datatype lot_method = AVERAGE | FIFO

record Fill =
  fl_symbol :: string
  fl_side :: string
  fl_quantity :: rat
  fl_price :: rat
  fl_fee :: rat
  fl_ts :: time
  fl_client :: "string option"
  fl_broker :: "string option"

definition signed_qty :: "(rat \<Rightarrow> rat) \<Rightarrow> Fill \<Rightarrow> rat" where
  "signed_qty ctx f = (if fl_side f = ''buy'' then fl_quantity f else ctx (- fl_quantity f))"

record Lot =
  lot_qty :: rat
  lot_price :: rat

record LedgerPosition =
  lp_quantity :: rat
  avg_cost :: rat
  lp_realized :: rat
  lp_fees :: rat
  lp_financing :: rat
  lp_mark :: rat
  lots :: "Lot list"

definition new_position_at :: "rat \<Rightarrow> LedgerPosition" where
  "new_position_at m = \<lparr>lp_quantity = 0, avg_cost = 0, lp_realized = 0, lp_fees = 0, lp_financing = 0, lp_mark = m, lots = []\<rparr>"

definition pos_market_value :: "(rat \<Rightarrow> rat) \<Rightarrow> LedgerPosition \<Rightarrow> rat" where
  "pos_market_value ctx p = ctx (lp_quantity p * lp_mark p)"

definition pos_unrealized :: "(rat \<Rightarrow> rat) \<Rightarrow> LedgerPosition \<Rightarrow> rat" where
  "pos_unrealized ctx p = (if lp_quantity p = 0 then 0 else ctx (ctx (lp_mark p - avg_cost p) * lp_quantity p))"

record NavSnapshot =
  ns_ts :: time
  ns_nav :: rat
  ns_cash :: rat
  ns_realized :: rat
  ns_unrealized :: rat
  ns_fees :: rat
  ns_financing :: rat
  ns_day_pnl :: rat
  ns_gross :: rat
  ns_net :: rat
  ns_positions :: int
  ns_label :: string

record ledger_db =
  db_start :: rat
  db_fills :: "Fill list"
  db_marks :: "(string, rat) dict"
  db_snapshots :: "NavSnapshot list"

record PnLLedger =
  lg_method :: lot_method
  starting_cash :: rat
  lg_cash :: rat
  lg_positions :: "(string, LedgerPosition) dict"
  realized_cum :: rat
  fees_cum :: rat
  financing_cum :: rat
  fill_seq :: int
  last_close_nav :: rat
  day_realized :: rat
  day_fees :: rat
  nav_snapshots :: "NavSnapshot list"
  lg_db :: "ledger_db option"

subsection \<open>Inventory\<close>

definition apply_average :: "(rat \<Rightarrow> rat) \<Rightarrow> Fill \<Rightarrow> LedgerPosition \<Rightarrow> rat \<times> LedgerPosition" where
  "apply_average ctx f p =
     (let signed = signed_qty ctx f; prev = lp_quantity p; new = ctx (prev + signed) in
      if prev = 0 \<or> (prev > 0) = (signed > 0)
      then (0, p\<lparr>lp_quantity := new,
             avg_cost := (if new \<noteq> 0
               then ctx (ctx (ctx (avg_cost p * ctx \<bar>prev\<bar>) + ctx (fl_price f * ctx \<bar>signed\<bar>)) / ctx \<bar>new\<bar>)
               else avg_cost p)\<rparr>)
      else
        (let closing = min (ctx \<bar>signed\<bar>) (ctx \<bar>prev\<bar>);
             realized = (if prev > 0 then ctx (ctx (fl_price f - avg_cost p) * closing) else ctx (ctx (avg_cost p - fl_price f) * closing)) in
         (realized, p\<lparr>lp_quantity := new,
            avg_cost := (if (prev > 0) \<noteq> (new > 0) \<and> new \<noteq> 0 then fl_price f else if new = 0 then 0 else avg_cost p)\<rparr>)))"

text \<open>
  Closing the lots on the other side, oldest first.  With a rounding that is not exact the loop may see
  the same lot again; \<open>None\<close>: it does not end.
\<close>

partial_function (option) close_lots ::
  "(rat \<Rightarrow> rat) \<Rightarrow> rat \<Rightarrow> rat \<Rightarrow> rat \<Rightarrow> Lot list \<Rightarrow> (rat \<times> rat \<times> Lot list) option" where
  "close_lots ctx price remaining realized ls =
     (case ls of
        [] \<Rightarrow> Some (remaining, realized, [])
      | l # rest \<Rightarrow>
          if remaining \<noteq> 0 \<and> (lot_qty l > 0) \<noteq> (remaining > 0)
          then
            (let c = min (ctx \<bar>remaining\<bar>) (ctx \<bar>lot_qty l\<bar>);
                 gain = ctx ((if lot_qty l > 0 then ctx (price - lot_price l) else ctx (lot_price l - price)) * c);
                 q = ctx (lot_qty l - (if lot_qty l > 0 then c else ctx (- c)));
                 rem = ctx (remaining - (if remaining < 0 then ctx (- c) else c)) in
             close_lots ctx price rem (ctx (realized + gain)) (if q = 0 then rest else l\<lparr>lot_qty := q\<rparr> # rest))
          else Some (remaining, realized, ls))"

definition dec_sum :: "(rat \<Rightarrow> rat) \<Rightarrow> rat list \<Rightarrow> rat" where
  "dec_sum ctx xs = foldl (\<lambda>a x. ctx (a + x)) 0 xs"

definition apply_fifo :: "(rat \<Rightarrow> rat) \<Rightarrow> Fill \<Rightarrow> LedgerPosition \<Rightarrow> (rat \<times> LedgerPosition) option" where
  "apply_fifo ctx f p =
     (case close_lots ctx (fl_price f) (signed_qty ctx f) 0 (lots p) of
        None \<Rightarrow> None
      | Some (remaining, realized, ls) \<Rightarrow>
          (let ls' = (if remaining \<noteq> 0 then ls @ [\<lparr>lot_qty = remaining, lot_price = fl_price f\<rparr>] else ls);
               tot = dec_sum ctx (map (\<lambda>l. ctx \<bar>lot_qty l\<bar>) ls') in
           Some (realized, p\<lparr>lots := ls', lp_quantity := dec_sum ctx (map lot_qty ls'),
             avg_cost := (if tot \<noteq> 0
               then ctx (dec_sum ctx (map (\<lambda>l. ctx (ctx \<bar>lot_qty l\<bar> * lot_price l)) ls') / tot) else 0)\<rparr>)))"

definition apply_inventory :: "(rat \<Rightarrow> rat) \<Rightarrow> lot_method \<Rightarrow> Fill \<Rightarrow> LedgerPosition \<Rightarrow> (rat \<times> LedgerPosition) option" where
  "apply_inventory ctx m f p = (case m of FIFO \<Rightarrow> apply_fifo ctx f p | AVERAGE \<Rightarrow> Some (apply_average ctx f p))"

subsection \<open>Aggregates\<close>

definition position_values_of :: "(LedgerPosition \<Rightarrow> rat) \<Rightarrow> PnLLedger \<Rightarrow> rat list" where
  "position_values_of g L = map (\<lambda>sp. g (snd sp)) (lg_positions L)"

definition unrealized_pnl :: "(rat \<Rightarrow> rat) \<Rightarrow> PnLLedger \<Rightarrow> rat" where
  "unrealized_pnl ctx L = dec_sum ctx (position_values_of (pos_unrealized ctx) L)"

definition market_value :: "(rat \<Rightarrow> rat) \<Rightarrow> PnLLedger \<Rightarrow> rat" where
  "market_value ctx L = dec_sum ctx (position_values_of (pos_market_value ctx) L)"

definition lg_equity :: "(rat \<Rightarrow> rat) \<Rightarrow> PnLLedger \<Rightarrow> rat" where
  "lg_equity ctx L = ctx (lg_cash L + market_value ctx L)"

definition lg_gross_exposure :: "(rat \<Rightarrow> rat) \<Rightarrow> PnLLedger \<Rightarrow> rat" where
  "lg_gross_exposure ctx L = dec_sum ctx (position_values_of (\<lambda>p. ctx \<bar>pos_market_value ctx p\<bar>) L)"

definition lg_day_pnl :: "(rat \<Rightarrow> rat) \<Rightarrow> PnLLedger \<Rightarrow> rat" where
  "lg_day_pnl ctx L = ctx (lg_equity ctx L - last_close_nav L)"

definition lg_listed :: "PnLLedger \<Rightarrow> (string \<times> LedgerPosition) list" where
  "lg_listed L = filter (\<lambda>sp. lp_quantity (snd sp) \<noteq> 0 \<or> lp_realized (snd sp) \<noteq> 0) (lg_positions L)"

definition to_portfolio_state :: "(rat \<Rightarrow> rat) \<Rightarrow> PnLLedger \<Rightarrow> PortfolioState" where
  "to_portfolio_state ctx L =
     (let held = filter (\<lambda>sp. lp_quantity (snd sp) \<noteq> 0) (lg_positions L); eq = lg_equity ctx L in
      init_PortfolioState
        \<lparr>equity := eq, buying_power := eq, margin_available := eq, positions := map (\<lambda>(s, p). (s, lp_quantity p)) held,
         position_values := map (\<lambda>(s, p). (s, pos_market_value ctx p)) held, gross_exposure := lg_gross_exposure ctx L,
         net_exposure := market_value ctx L, pt_daily_pnl := lg_day_pnl ctx L, peak_equity := max eq (last_close_nav L)\<rparr>)"

subsection \<open>Fills\<close>

datatype ledger_error = Bad_side | Bad_quantity | Bad_method | Never_returns

definition set_default :: "(string, LedgerPosition) dict \<Rightarrow> string \<Rightarrow> LedgerPosition \<Rightarrow> LedgerPosition" where
  "set_default d s p = (case dict_get d s of None \<Rightarrow> p | Some q \<Rightarrow> q)"

text \<open>The booked fill with the realised profit, the position and the totals afterwards.\<close>

record Booked =
  bk_fill :: Fill
  bk_realized :: rat
  bk_position :: LedgerPosition
  bk_realized_cum :: rat
  bk_equity :: rat

definition apply_fill :: "(rat \<Rightarrow> rat) \<Rightarrow> bool \<Rightarrow> Fill \<Rightarrow> PnLLedger \<Rightarrow> (ledger_error, Booked, PnLLedger) pyres" where
  "apply_fill ctx persist f L =
     (let p = set_default (lg_positions L) (fl_symbol f) (new_position_at (fl_price f)) in
      case apply_inventory ctx (lg_method L) f p of
        None \<Rightarrow> py_raise Never_returns L
      | Some (realized, p1) \<Rightarrow>
          (let p2 = p1\<lparr>lp_fees := ctx (lp_fees p1 + fl_fee f), lp_realized := ctx (lp_realized p1 + realized),
                 lp_mark := (if lp_mark p1 = 0 then fl_price f else lp_mark p1)\<rparr>;
               L1 = L\<lparr>lg_positions := dict_set (lg_positions L) (fl_symbol f) p2,
                 lg_cash := ctx (ctx (lg_cash L - ctx (signed_qty ctx f * fl_price f)) - fl_fee f),
                 realized_cum := ctx (realized_cum L + realized), fees_cum := ctx (fees_cum L + fl_fee f),
                 day_realized := ctx (day_realized L + realized), day_fees := ctx (day_fees L + fl_fee f), fill_seq := fill_seq L + 1,
                 lg_db := (if persist then map_option (\<lambda>db. db\<lparr>db_fills := db_fills db @ [f]\<rparr>) (lg_db L) else lg_db L)\<rparr> in
           py_return \<lparr>bk_fill = f, bk_realized = realized, bk_position = p2, bk_realized_cum = realized_cum L1, bk_equity = lg_equity ctx L1\<rparr> L1))"

definition on_fill ::
  "(rat \<Rightarrow> rat) \<Rightarrow> string \<Rightarrow> string \<Rightarrow> rat \<Rightarrow> rat \<Rightarrow> rat \<Rightarrow> time \<Rightarrow> string option \<Rightarrow> string option \<Rightarrow> PnLLedger \<Rightarrow>
   (ledger_error, Booked, PnLLedger) pyres" where
  "on_fill ctx symbol side q price fee ts coid boid L =
     (let sd = lower side in
      if sd \<noteq> ''buy'' \<and> sd \<noteq> ''sell'' then py_raise Bad_side L
      else if q \<le> 0 then py_raise Bad_quantity L
      else apply_fill ctx True \<lparr>fl_symbol = symbol, fl_side = sd, fl_quantity = q, fl_price = price, fl_fee = fee, fl_ts = ts,
             fl_client = coid, fl_broker = boid\<rparr> L)"

subsection \<open>Marks, financing, end of day\<close>

definition mark :: "string \<Rightarrow> rat \<Rightarrow> PnLLedger \<Rightarrow> PnLLedger" where
  "mark s price L =
     L\<lparr>lg_positions := dict_set (lg_positions L) s ((set_default (lg_positions L) s (new_position_at 0))\<lparr>lp_mark := price\<rparr>),
       lg_db := map_option (\<lambda>db. db\<lparr>db_marks := dict_set (db_marks db) s price\<rparr>) (lg_db L)\<rparr>"

definition mark_prices :: "(string, rat) dict \<Rightarrow> PnLLedger \<Rightarrow> PnLLedger" where
  "mark_prices ps L = foldl (\<lambda>L (s, p). mark s p L) L ps"

definition accrue_financing :: "(rat \<Rightarrow> rat) \<Rightarrow> string \<Rightarrow> rat \<Rightarrow> PnLLedger \<Rightarrow> PnLLedger" where
  "accrue_financing ctx s amt L =
     (let p = set_default (lg_positions L) s (new_position_at 0) in
      L\<lparr>lg_positions := dict_set (lg_positions L) s (p\<lparr>lp_financing := ctx (lp_financing p + amt)\<rparr>),
        financing_cum := ctx (financing_cum L + amt), lg_cash := ctx (lg_cash L - amt)\<rparr>)"

definition eod_close :: "(rat \<Rightarrow> rat) \<Rightarrow> (rat \<Rightarrow> rat) \<Rightarrow> time \<Rightarrow> string \<Rightarrow> PnLLedger \<Rightarrow> NavSnapshot \<times> PnLLedger" where
  "eod_close ctx flt now label L =
     (let sn = \<lparr>ns_ts = now, ns_nav = flt (lg_equity ctx L), ns_cash = flt (lg_cash L), ns_realized = flt (realized_cum L),
            ns_unrealized = flt (unrealized_pnl ctx L), ns_fees = flt (fees_cum L), ns_financing = flt (financing_cum L),
            ns_day_pnl = flt (lg_day_pnl ctx L), ns_gross = flt (lg_gross_exposure ctx L), ns_net = flt (market_value ctx L),
            ns_positions = int (length (filter (\<lambda>sp. lp_quantity (snd sp) \<noteq> 0) (lg_positions L))), ns_label = label\<rparr> in
      (sn, L\<lparr>nav_snapshots := nav_snapshots L @ [sn], last_close_nav := lg_equity ctx L, day_realized := 0, day_fees := 0,
         lg_db := map_option (\<lambda>db. db\<lparr>db_snapshots := db_snapshots db @ [sn]\<rparr>) (lg_db L)\<rparr>))"

definition nav_history :: "PnLLedger \<Rightarrow> NavSnapshot list" where
  "nav_history L = (case lg_db L of None \<Rightarrow> nav_snapshots L | Some db \<Rightarrow> db_snapshots db)"

subsection \<open>Construction and recovery\<close>

definition blank_ledger :: "lot_method \<Rightarrow> rat \<Rightarrow> ledger_db option \<Rightarrow> PnLLedger" where
  "blank_ledger m cash db =
     \<lparr>lg_method = m, starting_cash = cash, lg_cash = cash, lg_positions = [], realized_cum = 0, fees_cum = 0, financing_cum = 0,
      fill_seq = 0, last_close_nav = cash, day_realized = 0, day_fees = 0, nav_snapshots = [], lg_db = db\<rparr>"

fun replay :: "(rat \<Rightarrow> rat) \<Rightarrow> Fill list \<Rightarrow> PnLLedger \<Rightarrow> (ledger_error, unit, PnLLedger) pyres" where
  "replay ctx [] L = py_return () L"
| "replay ctx (f # fs) L = run_then (apply_fill ctx False f L) (replay ctx fs)"

definition restore_marks :: "(string, rat) dict \<Rightarrow> PnLLedger \<Rightarrow> PnLLedger" where
  "restore_marks ms L =
     foldl (\<lambda>L (s, m). L\<lparr>lg_positions := dict_set (lg_positions L) s ((set_default (lg_positions L) s (new_position_at 0))\<lparr>lp_mark := m\<rparr>)\<rparr>) L ms"

text \<open>The rows of a replayed fill keep no time; it is not used again.\<close>

definition recover :: "(rat \<Rightarrow> rat) \<Rightarrow> PnLLedger \<Rightarrow> (ledger_error, unit, PnLLedger) pyres" where
  "recover ctx L =
     (case lg_db L of
        None \<Rightarrow> py_return () L
      | Some db \<Rightarrow>
          run_then (replay ctx (db_fills db) (L\<lparr>lg_cash := starting_cash L\<rparr>))
            (\<lambda>L1. let L2 = restore_marks (db_marks db) L1 in
              py_return () (if db_snapshots db = [] then L2
                else L2\<lparr>last_close_nav := ns_nav (last (db_snapshots db)), day_realized := 0, day_fees := 0\<rparr>)))"

text \<open>
  \<open>file\<close>: no path, a path without a file, or a path with a database.  The first starting cash of a
  database wins.
\<close>

datatype db_file = No_path | New_file | Old_file ledger_db

definition method_of :: "string \<Rightarrow> lot_method option" where
  "method_of s = (if s = ''average'' then Some AVERAGE else if s = ''fifo'' then Some FIFO else None)"

definition init_PnLLedger ::
  "(rat \<Rightarrow> rat) \<Rightarrow> rat \<Rightarrow> string \<Rightarrow> db_file \<Rightarrow> ledger_error + (ledger_error, unit, PnLLedger) pyres" where
  "init_PnLLedger ctx cash mname df =
     (case method_of mname of
        None \<Rightarrow> Inl Bad_method
      | Some m \<Rightarrow>
          Inr (case df of
            No_path \<Rightarrow> py_return () (blank_ledger m cash None)
          | New_file \<Rightarrow> recover ctx (blank_ledger m cash (Some \<lparr>db_start = cash, db_fills = [], db_marks = [], db_snapshots = []\<rparr>))
          | Old_file db \<Rightarrow> recover ctx ((blank_ledger m cash (Some db))\<lparr>starting_cash := db_start db\<rparr>)))"

definition close_ledger :: "PnLLedger \<Rightarrow> PnLLedger" where
  "close_ledger L = L\<lparr>lg_db := None\<rparr>"

subsection \<open>The bridge from the fill handler\<close>

text \<open>
  The fields of a payload that are read.  \<open>pl_price\<close> is \<open>None\<close> for a missing price and for the texts
  that count as one, \<open>pl_increment\<close> for a missing increment; quantities are what \<^verbatim>\<open>_d\<close> makes of them.
\<close>

record fill_payload =
  pl_client :: string
  pl_broker :: "string option"
  pl_symbol :: "string option"
  pl_side :: "string option"
  pl_filled :: rat
  pl_increment :: "rat option"
  pl_price :: "rat option"

definition ledger_fill_callback ::
  "(rat \<Rightarrow> rat) \<Rightarrow> time \<Rightarrow> fill_payload \<Rightarrow> (string, rat) dict \<times> PnLLedger \<Rightarrow> (ledger_error, unit, (string, rat) dict \<times> PnLLedger) pyres" where
  "ledger_fill_callback ctx now pl S =
     (case (pl_symbol pl, pl_side pl, pl_price pl) of
        (Some s, Some side, Some price) \<Rightarrow>
          if s = [] \<or> side \<noteq> ''buy'' \<and> side \<noteq> ''sell'' then py_return () S
          else
            (let (q, seen) = (case pl_increment pl of
                    Some inc \<Rightarrow> (inc, fst S)
                  | None \<Rightarrow>
                      (ctx (pl_filled pl - (case dict_get (fst S) (pl_client pl) of None \<Rightarrow> 0 | Some c \<Rightarrow> c)),
                       dict_set (fst S) (pl_client pl) (pl_filled pl))) in
             if q \<le> 0 then py_return () (seen, snd S)
             else
               (case on_fill ctx s side q price 0 now (if pl_client pl = [] then None else Some (pl_client pl)) (pl_broker pl) (snd S) of
                  (Inl e, L) \<Rightarrow> (Inl e, (seen, L))
                | (Inr _, L) \<Rightarrow> (Inr (), (seen, L))))
      | _ \<Rightarrow> py_return () S)"

subsection \<open>Inventory with exact arithmetic\<close>

definition exact :: "rat \<Rightarrow> rat" where
  "exact x = x"

lemma dec_sum_exact [simp]: "dec_sum exact xs = sum_list xs"
proof -
  have "foldl (\<lambda>a x. exact (a + x)) b xs = b + sum_list xs" for b :: rat by (induction xs arbitrary: b) (simp_all add: exact_def add.assoc)
  then show ?thesis by (simp add: dec_sum_def)
qed

lemma signed_nonzero: "fl_quantity f > 0 \<Longrightarrow> signed_qty exact f \<noteq> 0"
  by (simp add: signed_qty_def exact_def)

text \<open>The cost of the inventory changes by what was paid and what was realised.\<close>

definition basis :: "LedgerPosition \<Rightarrow> rat" where
  "basis p = avg_cost p * lp_quantity p"

definition conserves :: "Fill \<Rightarrow> LedgerPosition \<Rightarrow> rat \<times> LedgerPosition \<Rightarrow> bool" where
  "conserves f p rp \<longleftrightarrow>
     lp_quantity (snd rp) = lp_quantity p + signed_qty exact f \<and>
     basis (snd rp) = basis p + signed_qty exact f * fl_price f + fst rp \<and>
     lp_realized (snd rp) = lp_realized p \<and> lp_fees (snd rp) = lp_fees p \<and> lp_financing (snd rp) = lp_financing p \<and> lp_mark (snd rp) = lp_mark p"

lemma average_open:
  assumes "(prev :: rat) \<noteq> 0 \<longrightarrow> (prev > 0) = (s > 0)" "s \<noteq> 0"
  shows "prev + s \<noteq> 0" "(a * \<bar>prev\<bar> + pr * \<bar>s\<bar>) / \<bar>prev + s\<bar> * (prev + s) = a * prev + s * pr"
proof -
  show nz: "prev + s \<noteq> 0" using assms by (cases "s > 0"; cases "prev = 0") auto
  show "(a * \<bar>prev\<bar> + pr * \<bar>s\<bar>) / \<bar>prev + s\<bar> * (prev + s) = a * prev + s * pr"
  proof (cases "s > 0")
    case True
    then have "prev \<ge> 0" using assms(1) by (cases "prev = 0") auto
    with True have "\<bar>prev\<bar> = prev" "\<bar>s\<bar> = s" "\<bar>prev + s\<bar> = prev + s" by simp_all
    with nz show ?thesis by (simp add: mult.commute)
  next
    case False
    then have "prev \<le> 0" "s < 0" using assms by (cases "prev = 0"; auto)+
    with nz have "\<bar>prev\<bar> = - prev" "\<bar>s\<bar> = - s" "\<bar>prev + s\<bar> = - (prev + s)" by simp_all
    then have "(a * \<bar>prev\<bar> + pr * \<bar>s\<bar>) / \<bar>prev + s\<bar> = (a * prev + pr * s) / (prev + s)"
      using nz by (simp add: field_simps)
    then show ?thesis using nz by (simp add: mult.commute)
  qed
qed

lemma average_conserves:
  assumes "fl_quantity f > 0"
  shows "conserves f p (apply_average exact f p)"
proof -
  let ?s = "signed_qty exact f" and ?q = "lp_quantity p"
  have s: "?s \<noteq> 0" using assms by (rule signed_nonzero)
  show ?thesis
  proof (cases "?q = 0 \<or> (?q > 0) = (?s > 0)")
    case True
    then show ?thesis
      using average_open(1) [of ?q ?s] average_open(2) [of ?q ?s "avg_cost p" "fl_price f"] s by (auto simp: exact_def conserves_def apply_average_def Let_def basis_def)
  next
    case False
    show ?thesis
    proof (cases "?q + ?s = 0")
      case True
      then have "?q = - ?s" by (simp add: eq_neg_iff_add_eq_0)
      with False show ?thesis by (auto simp: exact_def conserves_def apply_average_def Let_def basis_def algebra_simps)
    qed (use False in \<open>auto simp: exact_def conserves_def apply_average_def Let_def basis_def min_def abs_if algebra_simps\<close>)
  qed
qed

definition one_sided :: "Lot list \<Rightarrow> bool" where
  "one_sided ls \<longleftrightarrow> (\<forall>l \<in> set ls. lot_qty l > 0) \<or> (\<forall>l \<in> set ls. lot_qty l < 0)"

definition lots_qty :: "Lot list \<Rightarrow> rat" where
  "lots_qty ls = sum_list (map lot_qty ls)"

definition lots_cost :: "Lot list \<Rightarrow> rat" where
  "lots_cost ls = sum_list (map (\<lambda>l. lot_qty l * lot_price l) ls)"

lemma close_lots_halt:
  "r = 0 \<or> (lot_qty l > 0) = (r > 0) \<Longrightarrow> close_lots exact price r g (l # ls) = Some (r, g, l # ls)"
  by (subst close_lots.simps) auto

lemma close_lots_step:
  assumes "r \<noteq> 0" and "(lot_qty l > 0) \<noteq> (r > 0)" and t: "t = (if lot_qty l > 0 then min \<bar>r\<bar> \<bar>lot_qty l\<bar> else - min \<bar>r\<bar> \<bar>lot_qty l\<bar>)"
  shows "close_lots exact price r g (l # ls) =
    close_lots exact price (r + t) (g + t * (price - lot_price l)) (if lot_qty l - t = 0 then ls else l\<lparr>lot_qty := lot_qty l - t\<rparr> # ls)"
proof -
  define c where "c = min \<bar>r\<bar> \<bar>lot_qty l\<bar>"
  have go: "r \<noteq> 0 \<and> (lot_qty l > 0) \<noteq> (r > 0)" using assms by simp
  have q: "lot_qty l - (if lot_qty l > 0 then c else - c) = lot_qty l - t" using t by (simp add: c_def)
  have r: "r - (if r < 0 then - c else c) = r + t" using t assms(1,2) by (auto simp: c_def)
  have g: "g + (if lot_qty l > 0 then price - lot_price l else lot_price l - price) * c = g + t * (price - lot_price l)"
    unfolding t c_def by (cases "lot_qty l > 0") (simp_all add: algebra_simps del: abs_of_pos abs_of_neg abs_of_nonneg abs_of_nonpos)
  show ?thesis
    apply (subst close_lots.simps)
    apply (simp only: list.case if_P [OF go] Let_def exact_def c_def [symmetric] q r g)
    done
qed

lemma one_sided_cong: "one_sided (l # ls) \<Longrightarrow> (lot_qty k > 0) = (lot_qty l > 0) \<Longrightarrow> lot_qty k \<noteq> 0 \<Longrightarrow> one_sided (k # ls)"
  unfolding one_sided_def by (metis insert_iff linorder_neqE_linordered_idom list.set(2) order_less_asym)

lemma close_lots_exact:
  assumes "one_sided ls"
  shows "\<exists>rem gain ls'. close_lots exact price r g ls = Some (rem, gain, ls') \<and> one_sided (if rem = 0 then ls' else ls' @ [\<lparr>lot_qty = rem, lot_price = price\<rparr>]) \<and>
    lots_qty ls' + rem = lots_qty ls + r \<and> lots_cost ls' + rem * price = lots_cost ls + r * price + (gain - g)"
  using assms
proof (induction ls arbitrary: r g)
  case Nil
  have "close_lots exact price r g [] = Some (r, g, [])" by (subst close_lots.simps) simp
  then show ?case by (auto simp: one_sided_def neq_iff)
next
  case (Cons l ls)
  have side: "one_sided ls" "lot_qty l \<noteq> 0" using Cons.prems by (auto simp: one_sided_def)
  show ?case
  proof (cases "r = 0 \<or> (lot_qty l > 0) = (r > 0)")
    case True
    have "one_sided (if r = 0 then l # ls else (l # ls) @ [\<lparr>lot_qty = r, lot_price = price\<rparr>])"
      using True Cons.prems by (auto simp: one_sided_def)
    with close_lots_halt [OF True, of price g ls] show ?thesis by (metis diff_self add_0_right)
  next
    case False
    define t where "t = (if lot_qty l > 0 then min \<bar>r\<bar> \<bar>lot_qty l\<bar> else - min \<bar>r\<bar> \<bar>lot_qty l\<bar>)"
    define h where "h = g + t * (price - lot_price l)"
    have step: "close_lots exact price r g (l # ls) = close_lots exact price (r + t) h (if lot_qty l - t = 0 then ls else l\<lparr>lot_qty := lot_qty l - t\<rparr> # ls)"
      unfolding h_def using False by (intro close_lots_step t_def) auto
    show ?thesis
    proof (cases "\<bar>lot_qty l\<bar> \<le> \<bar>r\<bar>")
      case full: True
      then have t: "t = lot_qty l" using False side(2) by (auto simp: t_def)
      then have run: "close_lots exact price r g (l # ls) = close_lots exact price (r + lot_qty l) h ls" using step by simp
      obtain rem gain ls' where "close_lots exact price (r + lot_qty l) h ls = Some (rem, gain, ls')"
        and "one_sided (if rem = 0 then ls' else ls' @ [\<lparr>lot_qty = rem, lot_price = price\<rparr>])"
        and q: "lots_qty ls' + rem = lots_qty ls + (r + lot_qty l)"
        and c: "lots_cost ls' + rem * price = lots_cost ls + (r + lot_qty l) * price + (gain - h)"
        using Cons.IH [OF side(1), of "r + lot_qty l" h] by blast
      moreover have "lots_qty ls' + rem = lots_qty (l # ls) + r" using q by (simp add: lots_qty_def)
      moreover have "lots_cost ls' + rem * price = lots_cost (l # ls) + r * price + (gain - g)"
        using c by (simp add: lots_cost_def h_def t algebra_simps)
      ultimately show ?thesis using run by metis
    next
      case part: False
      then have t: "t = - r" using False by (auto simp: t_def)
      let ?l = "l\<lparr>lot_qty := lot_qty l + r\<rparr>"
      have nz: "lot_qty l + r \<noteq> 0" and sg: "(lot_qty ?l > 0) = (lot_qty l > 0)" using part False by (auto simp: abs_if split: if_splits)
      then have run: "close_lots exact price r g (l # ls) = Some (0, h, ?l # ls)" using step by (simp add: t close_lots_halt)
      have "one_sided (?l # ls)" by (rule one_sided_cong [OF Cons.prems]) (use sg nz in simp_all)
      moreover have "lots_qty (?l # ls) + 0 = lots_qty (l # ls) + r" by (simp add: lots_qty_def)
      moreover have "lots_cost (?l # ls) + 0 * price = lots_cost (l # ls) + r * price + (h - g)"
        by (simp add: lots_cost_def h_def t algebra_simps)
      ultimately show ?thesis unfolding run by (intro exI [of _ 0] exI [of _ h] exI [of _ "?l # ls"]) simp
    qed
  qed
qed

lemma one_sided_abs:
  assumes "one_sided ls" and "ls \<noteq> []"
  shows "(\<Sum>l\<leftarrow>ls. \<bar>lot_qty l\<bar>) \<noteq> 0" "(\<Sum>l\<leftarrow>ls. \<bar>lot_qty l\<bar> * lot_price l) / (\<Sum>l\<leftarrow>ls. \<bar>lot_qty l\<bar>) * lots_qty ls = lots_cost ls"
proof -
  have up: "\<forall>l \<in> set ls. lot_qty l > 0 \<Longrightarrow> ls \<noteq> [] \<Longrightarrow> lots_qty ls > 0" for ls
    unfolding lots_qty_def by (induction ls) (auto intro!: add_pos_nonneg sum_list_nonneg simp: less_imp_le)
  have down: "\<forall>l \<in> set ls. lot_qty l < 0 \<Longrightarrow> ls \<noteq> [] \<Longrightarrow> lots_qty ls < 0" for ls
    unfolding lots_qty_def by (induction ls) (auto intro!: add_neg_nonpos sum_list_nonpos simp: less_imp_le)
  have neg: "(\<Sum>l\<leftarrow>ls. - g l) = - (\<Sum>l\<leftarrow>ls. g l)" for g :: "Lot \<Rightarrow> rat" and ls by (induction ls) simp_all
  from assms(1) consider (long) "\<forall>l \<in> set ls. lot_qty l > 0" | (short) "\<forall>l \<in> set ls. lot_qty l < 0" by (auto simp: one_sided_def)
  then have "lots_qty ls \<noteq> 0 \<and> ((\<Sum>l\<leftarrow>ls. \<bar>lot_qty l\<bar>) = lots_qty ls \<and> (\<Sum>l\<leftarrow>ls. \<bar>lot_qty l\<bar> * lot_price l) = lots_cost ls \<or>
     (\<Sum>l\<leftarrow>ls. \<bar>lot_qty l\<bar>) = - lots_qty ls \<and> (\<Sum>l\<leftarrow>ls. \<bar>lot_qty l\<bar> * lot_price l) = - lots_cost ls)"
  proof cases
    case long
    then have "(\<Sum>l\<leftarrow>ls. \<bar>lot_qty l\<bar>) = lots_qty ls" "(\<Sum>l\<leftarrow>ls. \<bar>lot_qty l\<bar> * lot_price l) = lots_cost ls"
      unfolding lots_qty_def lots_cost_def by (auto intro!: arg_cong [where f = sum_list] map_cong)
    with up [OF long assms(2)] show ?thesis by auto
  next
    case short
    then have "(\<Sum>l\<leftarrow>ls. \<bar>lot_qty l\<bar>) = (\<Sum>l\<leftarrow>ls. - lot_qty l)" "(\<Sum>l\<leftarrow>ls. \<bar>lot_qty l\<bar> * lot_price l) = (\<Sum>l\<leftarrow>ls. - (lot_qty l * lot_price l))"
      by (auto intro!: arg_cong [where f = sum_list] map_cong)
    with down [OF short assms(2)] show ?thesis by (auto simp: neg lots_qty_def lots_cost_def)
  qed
  then show "(\<Sum>l\<leftarrow>ls. \<bar>lot_qty l\<bar>) \<noteq> 0" "(\<Sum>l\<leftarrow>ls. \<bar>lot_qty l\<bar> * lot_price l) / (\<Sum>l\<leftarrow>ls. \<bar>lot_qty l\<bar>) * lots_qty ls = lots_cost ls"
    by auto
qed

text \<open>With FIFO accounting the lots are all on one side and make up the position.\<close>

definition inventory_ok :: "lot_method \<Rightarrow> LedgerPosition \<Rightarrow> bool" where
  "inventory_ok m p \<longleftrightarrow> (m = FIFO \<longrightarrow> one_sided (lots p) \<and> lp_quantity p = lots_qty (lots p) \<and> basis p = lots_cost (lots p))"

lemma fifo_conserves:
  assumes "fl_quantity f > 0" and "inventory_ok FIFO p"
  shows "\<exists>rp. apply_fifo exact f p = Some rp \<and> conserves f p rp \<and> inventory_ok FIFO (snd rp)"
proof -
  have p: "one_sided (lots p)" "lp_quantity p = lots_qty (lots p)" "basis p = lots_cost (lots p)" using assms(2) by (simp_all add: inventory_ok_def)
  obtain rem gain ls where run: "close_lots exact (fl_price f) (signed_qty exact f) 0 (lots p) = Some (rem, gain, ls)"
    and side: "one_sided (if rem = 0 then ls else ls @ [\<lparr>lot_qty = rem, lot_price = fl_price f\<rparr>])"
    and q: "lots_qty ls + rem = lots_qty (lots p) + signed_qty exact f"
    and c: "lots_cost ls + rem * fl_price f = lots_cost (lots p) + signed_qty exact f * fl_price f + (gain - 0)"
    using close_lots_exact [OF p(1), of "fl_price f" "signed_qty exact f" 0] by blast
  define ls' where "ls' = (if rem \<noteq> 0 then ls @ [\<lparr>lot_qty = rem, lot_price = fl_price f\<rparr>] else ls)"
  define a where "a = (if (\<Sum>l\<leftarrow>ls'. \<bar>lot_qty l\<bar>) \<noteq> 0 then (\<Sum>l\<leftarrow>ls'. \<bar>lot_qty l\<bar> * lot_price l) / (\<Sum>l\<leftarrow>ls'. \<bar>lot_qty l\<bar>) else 0)"
  have res: "apply_fifo exact f p = Some (gain, p\<lparr>lots := ls', lp_quantity := lots_qty ls', avg_cost := a\<rparr>)"
    by (simp add: apply_fifo_def run Let_def ls'_def [symmetric] a_def lots_qty_def exact_def)
  have one: "one_sided ls'" using side by (simp add: ls'_def split: if_splits)
  have b: "a * lots_qty ls' = lots_cost ls'"
    using one_sided_abs [OF one] by (cases "ls' = []") (simp_all add: a_def lots_qty_def lots_cost_def)
  have "lots_qty ls' = lp_quantity p + signed_qty exact f" using q p(2) by (simp add: ls'_def lots_qty_def)
  moreover have "lots_cost ls' = basis p + signed_qty exact f * fl_price f + gain" using c p(3) by (cases "rem = 0") (simp_all add: ls'_def lots_cost_def)
  ultimately show ?thesis using b one by (simp add: res conserves_def inventory_ok_def basis_def)
qed

lemma inventory_conserves:
  assumes "fl_quantity f > 0" and "inventory_ok m p"
  shows "\<exists>rp. apply_inventory exact m f p = Some rp \<and> conserves f p rp \<and> inventory_ok m (snd rp)"
  using assms fifo_conserves [of f p] average_conserves [of f p] by (cases m) (simp_all add: apply_inventory_def inventory_ok_def)

subsection \<open>Sums over the positions\<close>

definition psum :: "(LedgerPosition \<Rightarrow> rat) \<Rightarrow> (string, LedgerPosition) dict \<Rightarrow> rat" where
  "psum g d = sum_list (map (\<lambda>sp. g (snd sp)) d)"

lemma psum_set: "g p0 = 0 \<Longrightarrow> psum g (dict_set d s v) = psum g d + (g v - g (set_default d s p0))"
  by (induction d s v rule: dict_set.induct) (auto simp: psum_def set_default_def)

lemma psum_diff: "psum (\<lambda>p. g p - h p) d = psum g d - psum h d"
  by (induction d) (simp_all add: psum_def)

lemma pos_unrealized_exact: "pos_unrealized exact = (\<lambda>p. pos_market_value exact p - basis p)"
  by (auto simp: pos_unrealized_def pos_market_value_def basis_def exact_def algebra_simps)

lemma aggregates_exact:
  "unrealized_pnl exact L = psum (pos_market_value exact) (lg_positions L) - psum basis (lg_positions L)"
  "market_value exact L = psum (pos_market_value exact) (lg_positions L)"
  "lg_equity exact L = lg_cash L + psum (pos_market_value exact) (lg_positions L)"
  by (simp_all add: unrealized_pnl_def market_value_def lg_equity_def position_values_of_def pos_unrealized_exact psum_diff [symmetric])
     (simp_all add: exact_def psum_def)

lemma new_position_sums [simp]:
  "basis (new_position_at m) = 0" "lp_realized (new_position_at m) = 0" "lp_fees (new_position_at m) = 0" "lp_financing (new_position_at m) = 0"
  "pos_market_value exact (new_position_at m) = 0" "inventory_ok lm (new_position_at m)" "lp_mark (new_position_at m) = m" "lp_quantity (new_position_at m) = 0"
  by (simp_all add: new_position_at_def basis_def pos_market_value_def inventory_ok_def one_sided_def lots_qty_def lots_cost_def exact_def)

lemmas psum_sets =
  psum_set [of basis "new_position_at m" for m, simplified new_position_sums, OF refl]
  psum_set [of lp_realized "new_position_at m" for m, simplified new_position_sums, OF refl]
  psum_set [of lp_fees "new_position_at m" for m, simplified new_position_sums, OF refl]
  psum_set [of lp_financing "new_position_at m" for m, simplified new_position_sums, OF refl]

subsection \<open>The books balance\<close>

definition stock_ok :: "lot_method \<Rightarrow> (string, LedgerPosition) dict \<Rightarrow> bool" where
  "stock_ok m d \<longleftrightarrow> (\<forall>sp \<in> set d. inventory_ok m (snd sp))"

lemma stock_ok_get: "stock_ok m d \<Longrightarrow> inventory_ok m (set_default d s (new_position_at a))"
  by (cases "dict_get d s") (fastforce simp: stock_ok_def set_default_def dest: map_of_SomeD)+

lemma stock_ok_set: "stock_ok m d \<Longrightarrow> inventory_ok m v \<Longrightarrow> stock_ok m (dict_set d s v)"
  using set_dict_set_subset [of d s v] by (auto simp: stock_ok_def)

definition ledger_inv :: "PnLLedger \<Rightarrow> bool" where
  "ledger_inv L \<longleftrightarrow>
     stock_ok (lg_method L) (lg_positions L) \<and>
     lg_cash L + psum basis (lg_positions L) = starting_cash L + realized_cum L - fees_cum L - financing_cum L \<and>
     realized_cum L = psum lp_realized (lg_positions L) \<and> fees_cum L = psum lp_fees (lg_positions L) \<and>
     financing_cum L = psum lp_financing (lg_positions L)"

lemma inventory_ok_upd [simp]:
  "inventory_ok m (p\<lparr>lp_mark := x\<rparr>) = inventory_ok m p" "inventory_ok m (p\<lparr>lp_fees := x\<rparr>) = inventory_ok m p"
  "inventory_ok m (p\<lparr>lp_realized := x\<rparr>) = inventory_ok m p" "inventory_ok m (p\<lparr>lp_financing := x\<rparr>) = inventory_ok m p"
  by (simp_all add: inventory_ok_def basis_def)

lemma basis_upd [simp]:
  "basis (p\<lparr>lp_mark := x\<rparr>) = basis p" "basis (p\<lparr>lp_fees := x\<rparr>) = basis p" "basis (p\<lparr>lp_realized := x\<rparr>) = basis p" "basis (p\<lparr>lp_financing := x\<rparr>) = basis p"
  by (simp_all add: basis_def)

text \<open>The state after a fill: what the inventory routine returned, with the totals.\<close>

definition booked_as :: "Fill \<Rightarrow> PnLLedger \<Rightarrow> LedgerPosition \<Rightarrow> PnLLedger \<Rightarrow> bool" where
  "booked_as f L q L1 \<longleftrightarrow>
     (let p = set_default (lg_positions L) (fl_symbol f) (new_position_at (fl_price f)) in
      lp_quantity q = lp_quantity p + signed_qty exact f \<and> lp_mark q = (if lp_mark p = 0 then fl_price f else lp_mark p) \<and>
      lg_positions L1 = dict_set (lg_positions L) (fl_symbol f) q \<and> lg_cash L1 = lg_cash L - signed_qty exact f * fl_price f - fl_fee f \<and>
      fees_cum L1 = fees_cum L + fl_fee f \<and> financing_cum L1 = financing_cum L \<and> starting_cash L1 = starting_cash L)"

lemma apply_fill_exact:
  assumes "ledger_inv L" and "fl_quantity f > 0"
  shows "\<exists>b L1 q. apply_fill exact per f L = (Inr b, L1) \<and> ledger_inv L1 \<and> booked_as f L q L1"
proof -
  define p where "p = set_default (lg_positions L) (fl_symbol f) (new_position_at (fl_price f))"
  have inv: "stock_ok (lg_method L) (lg_positions L)" using assms(1) by (simp add: ledger_inv_def)
  from inventory_conserves [OF assms(2) stock_ok_get [OF this, of "fl_symbol f" "fl_price f"]]
  obtain r q where run: "apply_inventory exact (lg_method L) f p = Some (r, q)"
    and c: "conserves f p (r, q)" and ok: "inventory_ok (lg_method L) q" by (auto simp: p_def)
  define q2 where "q2 = q\<lparr>lp_fees := lp_fees q + fl_fee f, lp_realized := lp_realized q + r, lp_mark := (if lp_mark q = 0 then fl_price f else lp_mark q)\<rparr>"
  define L1 where "L1 = snd (apply_fill exact per f L)"
  have L1: "\<exists>b. apply_fill exact per f L = (Inr b, L1)" "lg_method L1 = lg_method L" "starting_cash L1 = starting_cash L"
    "lg_positions L1 = dict_set (lg_positions L) (fl_symbol f) q2" "lg_cash L1 = lg_cash L - signed_qty exact f * fl_price f - fl_fee f"
    "realized_cum L1 = realized_cum L + r" "fees_cum L1 = fees_cum L + fl_fee f" "financing_cum L1 = financing_cum L"
    unfolding L1_def apply_fill_def Let_def p_def [symmetric] run q2_def by (simp_all add: exact_def)
  have "stock_ok (lg_method L) (lg_positions L1)" using stock_ok_set [OF inv, of q2] ok by (simp add: L1(4)) (simp add: q2_def)
  moreover have "psum basis (lg_positions L1) = psum basis (lg_positions L) + signed_qty exact f * fl_price f + r"
    using c by (simp add: L1(4) psum_sets(1) [where m = "fl_price f"] p_def [symmetric]) (simp add: q2_def conserves_def)
  moreover have "psum lp_realized (lg_positions L1) = psum lp_realized (lg_positions L) + r" "psum lp_fees (lg_positions L1) = psum lp_fees (lg_positions L) + fl_fee f"
    "psum lp_financing (lg_positions L1) = psum lp_financing (lg_positions L)"
    using c by (simp_all add: L1(4) psum_sets [where m = "fl_price f"] p_def [symmetric]) (simp_all add: q2_def conserves_def)
  ultimately have "ledger_inv L1" using assms(1) by (simp add: ledger_inv_def L1(2,3,5-8) algebra_simps)
  moreover have "booked_as f L q2 L1" using c by (simp add: booked_as_def p_def [symmetric] L1(3-8)) (simp add: q2_def conserves_def)
  ultimately show ?thesis using L1(1) by blast
qed

lemma mark_inv: "ledger_inv L \<Longrightarrow> ledger_inv (L\<lparr>lg_positions := dict_set (lg_positions L) s ((set_default (lg_positions L) s (new_position_at 0))\<lparr>lp_mark := a\<rparr>)\<rparr>)"
  by (simp add: ledger_inv_def psum_sets [where m = 0] stock_ok_set stock_ok_get)

lemma ledger_inv_frame [simp]:
  "ledger_inv (L\<lparr>lg_db := x\<rparr>) = ledger_inv L" "ledger_inv (L\<lparr>last_close_nav := a\<rparr>) = ledger_inv L" "ledger_inv (L\<lparr>day_fees := a\<rparr>) = ledger_inv L"
  "ledger_inv (L\<lparr>day_realized := a\<rparr>) = ledger_inv L" "ledger_inv (L\<lparr>nav_snapshots := ns\<rparr>) = ledger_inv L"
  by (simp_all add: ledger_inv_def)

lemma accrue_inv: "ledger_inv L \<Longrightarrow> ledger_inv (accrue_financing exact s amt L)"
  by (simp add: ledger_inv_def accrue_financing_def Let_def exact_def psum_sets [where m = 0] stock_ok_set stock_ok_get)

lemma eod_inv: "ledger_inv L \<Longrightarrow> ledger_inv (snd (eod_close ctx flt now label L))"
  by (simp add: eod_close_def Let_def)

datatype ledger_call =
    Call_fill string string rat rat rat time "string option" "string option"
  | Call_mark string rat
  | Call_mark_prices "(string, rat) dict"
  | Call_accrue string rat
  | Call_eod time string

definition ledger_step :: "(rat \<Rightarrow> rat) \<Rightarrow> (rat \<Rightarrow> rat) \<Rightarrow> PnLLedger \<Rightarrow> ledger_call \<Rightarrow> PnLLedger" where
  "ledger_step ctx flt L c =
     (case c of
        Call_fill s sd q pr fee ts co bo \<Rightarrow> snd (on_fill ctx s sd q pr fee ts co bo L)
      | Call_mark s p \<Rightarrow> mark s p L
      | Call_mark_prices ps \<Rightarrow> mark_prices ps L
      | Call_accrue s a \<Rightarrow> accrue_financing ctx s a L
      | Call_eod now label \<Rightarrow> snd (eod_close ctx flt now label L))"

lemma mark_ledger_inv: "ledger_inv L \<Longrightarrow> ledger_inv (mark s p L)"
  using mark_inv [of L s p] by (simp add: mark_def ledger_inv_def)

lemma mark_prices_inv: "ledger_inv L \<Longrightarrow> ledger_inv (mark_prices ps L)"
  unfolding mark_prices_def by (induction ps arbitrary: L) (auto simp: mark_ledger_inv)

lemma on_fill_inv: "ledger_inv L \<Longrightarrow> ledger_inv (snd (on_fill exact s sd q pr fee ts co bo L))"
  using apply_fill_exact [of L "\<lparr>fl_symbol = s, fl_side = lower sd, fl_quantity = q, fl_price = pr, fl_fee = fee, fl_ts = ts, fl_client = co, fl_broker = bo\<rparr>" True]
  by (auto simp: on_fill_def Let_def)

lemma ledger_step_inv: "ledger_inv L \<Longrightarrow> ledger_inv (ledger_step exact flt L c)"
  by (cases c) (simp_all add: ledger_step_def on_fill_inv mark_ledger_inv mark_prices_inv accrue_inv eod_inv)

text \<open>What was stored has positive quantities: \<^verbatim>\<open>on_fill\<close> takes no other.\<close>

definition stored_ok :: "db_file \<Rightarrow> bool" where
  "stored_ok df \<longleftrightarrow> (case df of Old_file db \<Rightarrow> (\<forall>f \<in> set (db_fills db). fl_quantity f > 0) | _ \<Rightarrow> True)"

lemma replay_inv:
  "ledger_inv L \<Longrightarrow> \<forall>f \<in> set fs. fl_quantity f > 0 \<Longrightarrow> \<exists>L1. replay exact fs L = (Inr (), L1) \<and> ledger_inv L1"
proof (induction fs arbitrary: L)
  case (Cons f fs)
  then obtain b L1 where "apply_fill exact False f L = (Inr b, L1)" "ledger_inv L1" using apply_fill_exact [of L f False] by auto
  with Cons show ?case by simp
qed simp

lemma restore_marks_inv: "ledger_inv L \<Longrightarrow> ledger_inv (restore_marks ms L)"
  unfolding restore_marks_def by (induction ms arbitrary: L) (auto simp: mark_inv)

lemma blank_inv: "ledger_inv (blank_ledger m cash db)" "ledger_inv ((blank_ledger m cash db)\<lparr>starting_cash := c, lg_cash := c\<rparr>)"
  by (simp_all add: blank_ledger_def ledger_inv_def stock_ok_def psum_def)

lemma recover_inv:
  assumes "ledger_inv (L\<lparr>lg_cash := starting_cash L\<rparr>)" and "lg_db L = Some db" and "\<forall>f \<in> set (db_fills db). fl_quantity f > 0"
  shows "\<exists>L1. recover exact L = (Inr (), L1) \<and> ledger_inv L1"
proof -
  obtain L1 where "replay exact (db_fills db) (L\<lparr>lg_cash := starting_cash L\<rparr>) = (Inr (), L1)" "ledger_inv L1"
    using replay_inv [OF assms(1,3)] by blast
  then show ?thesis using restore_marks_inv [of L1 "db_marks db"] by (simp add: recover_def assms(2) Let_def)
qed

lemma init_PnLLedger_inv:
  assumes "stored_ok df" and "method_of mname \<noteq> None"
  shows "\<exists>L. init_PnLLedger exact cash mname df = Inr (Inr (), L) \<and> ledger_inv L"
proof -
  obtain m where m: "method_of mname = Some m" using assms(2) by auto
  show ?thesis
  proof (cases df)
    case No_path
    then show ?thesis by (simp add: init_PnLLedger_def m blank_inv)
  next
    case New_file
    show ?thesis
      using recover_inv [of "blank_ledger m cash (Some \<lparr>db_start = cash, db_fills = [], db_marks = [], db_snapshots = []\<rparr>)"] blank_inv(1) [of m cash]
      by (simp add: New_file init_PnLLedger_def m blank_ledger_def)
  next
    case (Old_file db)
    show ?thesis
      using recover_inv [of "(blank_ledger m cash (Some db))\<lparr>starting_cash := db_start db\<rparr>" db] blank_inv(2) [where m = m and cash = cash and db = "Some db" and c = "db_start db"] assms(1)
      by (simp add: Old_file init_PnLLedger_def m blank_ledger_def stored_ok_def)
  qed
qed

definition opened :: "PnLLedger \<Rightarrow> bool" where
  "opened L \<longleftrightarrow> (\<exists>cash mname df. stored_ok df \<and> init_PnLLedger exact cash mname df = Inr (Inr (), L))"

lemma opened_inv: "opened L \<Longrightarrow> ledger_inv L"
proof -
  assume "opened L"
  then obtain cash mname df where o: "stored_ok df" "init_PnLLedger exact cash mname df = Inr (Inr (), L)" by (auto simp: opened_def)
  then have "method_of mname \<noteq> None" by (auto simp: init_PnLLedger_def split: option.splits)
  with init_PnLLedger_inv [OF o(1) this, of cash] o(2) show ?thesis by simp
qed

interpretation books: step_system opened "ledger_step exact flt" ledger_inv for flt
  by unfold_locales (simp_all add: opened_inv ledger_step_inv)

lemma books_balance: "ledger_inv L \<Longrightarrow> lg_equity exact L = starting_cash L + realized_cum L + unrealized_pnl exact L - fees_cum L - financing_cum L"
  by (simp add: ledger_inv_def aggregates_exact)

text \<open>
  C7: accounting identity.  With exact decimal arithmetic, for both lot methods, a ledger that was created
  without a file, with a new file or from a stored one always starts; and after any fills (also refused
  ones), marks, financing charges and closes of the day the equity is the starting cash plus realised plus
  unrealised profit less fees less financing, and the three totals are the sums over the positions.
\<close>

theorem accounting_identity:
  assumes "stored_ok df" and "mname \<in> {''average'', ''fifo''}"
  shows "\<exists>L0. init_PnLLedger exact cash mname df = Inr (Inr (), L0) \<and>
    (\<forall>calls. let L = foldl (ledger_step exact flt) L0 calls in
       lg_equity exact L = starting_cash L + realized_cum L + unrealized_pnl exact L - fees_cum L - financing_cum L \<and>
       realized_cum L = sum_list (position_values_of lp_realized L) \<and> fees_cum L = sum_list (position_values_of lp_fees L) \<and>
       financing_cum L = sum_list (position_values_of lp_financing L))"
proof -
  have "method_of mname \<noteq> None" using assms(2) by (auto simp: method_of_def)
  from init_PnLLedger_inv [OF assms(1) this] obtain L0 where L0: "init_PnLLedger exact cash mname df = Inr (Inr (), L0)" "ledger_inv L0" by blast
  have "ledger_inv (foldl (ledger_step exact flt) L0 calls)" for calls by (rule books.inv_run) (rule L0(2))
  with L0(1) show ?thesis by (auto simp: Let_def books_balance) (simp_all add: ledger_inv_def position_values_of_def psum_def)
qed

theorem accounting_identity_witness:
  "\<exists>L0. init_PnLLedger exact 1000 ''fifo'' New_file = Inr (Inr (), L0) \<and>
    lg_equity exact (ledger_step exact (\<lambda>x. x) L0 (Call_mark ''AAPL'' 5)) =
    starting_cash L0 + realized_cum L0 - fees_cum L0 - financing_cum L0 + unrealized_pnl exact (ledger_step exact (\<lambda>x. x) L0 (Call_mark ''AAPL'' 5))"
proof -
  from accounting_identity [of New_file "''fifo''" 1000 "\<lambda>x. x"] obtain L0 where L0: "init_PnLLedger exact 1000 ''fifo'' New_file = Inr (Inr (), L0)"
    and all: "\<forall>calls. let L = foldl (ledger_step exact (\<lambda>x. x)) L0 calls in
       lg_equity exact L = starting_cash L + realized_cum L + unrealized_pnl exact L - fees_cum L - financing_cum L \<and>
       realized_cum L = sum_list (position_values_of lp_realized L) \<and> fees_cum L = sum_list (position_values_of lp_fees L) \<and>
       financing_cum L = sum_list (position_values_of lp_financing L)" by (auto simp: stored_ok_def)
  from spec [OF all, of "[Call_mark ''AAPL'' 5]"] L0 show ?thesis by (simp add: Let_def ledger_step_def mark_def)
qed

subsection \<open>The cash book\<close>

text \<open>
  What the ledger promises without speaking of lots: cash, the quantity and the mark of every symbol, and
  the costs.
\<close>

record cash_book =
  cb_start :: rat
  cb_cash :: rat
  cb_held :: "(string, rat \<times> rat) dict"
  cb_fees :: rat
  cb_financing :: rat

definition held_at :: "cash_book \<Rightarrow> string \<Rightarrow> rat \<Rightarrow> rat \<times> rat" where
  "held_at B s price = (case dict_get (cb_held B) s of None \<Rightarrow> (0, price) | Some h \<Rightarrow> h)"

definition cb_mark :: "string \<Rightarrow> rat \<Rightarrow> cash_book \<Rightarrow> cash_book" where
  "cb_mark s p B = B\<lparr>cb_held := dict_set (cb_held B) s (fst (held_at B s 0), p)\<rparr>"

definition cb_trade :: "string \<Rightarrow> rat \<Rightarrow> rat \<Rightarrow> rat \<Rightarrow> cash_book \<Rightarrow> cash_book" where
  "cb_trade s q price fee B =
     (let (h, m) = held_at B s price in
      B\<lparr>cb_held := dict_set (cb_held B) s (h + q, if m = 0 then price else m), cb_cash := cb_cash B - q * price - fee,
        cb_fees := cb_fees B + fee\<rparr>)"

definition cb_step :: "cash_book \<Rightarrow> ledger_call \<Rightarrow> cash_book" where
  "cb_step B c =
     (case c of
        Call_fill s sd q pr fee ts co bo \<Rightarrow>
          if q > 0 \<and> lower sd = ''buy'' then cb_trade s q pr fee B
          else if q > 0 \<and> lower sd = ''sell'' then cb_trade s (- q) pr fee B else B
      | Call_mark s p \<Rightarrow> cb_mark s p B
      | Call_mark_prices ps \<Rightarrow> foldl (\<lambda>B (s, p). cb_mark s p B) B ps
      | Call_accrue s a \<Rightarrow>
          B\<lparr>cb_held := dict_set (cb_held B) s (held_at B s 0), cb_cash := cb_cash B - a, cb_financing := cb_financing B + a\<rparr>
      | Call_eod now label \<Rightarrow> B)"

definition cb_equity :: "cash_book \<Rightarrow> rat" where
  "cb_equity B = cb_cash B + sum_list (map (\<lambda>h. fst (snd h) * snd (snd h)) (cb_held B))"

definition book_of :: "PnLLedger \<Rightarrow> cash_book" where
  "book_of L = \<lparr>cb_start = starting_cash L, cb_cash = lg_cash L, cb_held = map (\<lambda>sp. (fst sp, lp_quantity (snd sp), lp_mark (snd sp))) (lg_positions L),
     cb_fees = fees_cum L, cb_financing = financing_cum L\<rparr>"

lemma dict_set_map: "map (\<lambda>sp. (fst sp, g (snd sp))) (dict_set d k v) = dict_set (map (\<lambda>sp. (fst sp, g (snd sp))) d) k (g v)"
  by (induction d k v rule: dict_set.induct) auto

lemma dict_get_map: "dict_get (map (\<lambda>sp. (fst sp, g (snd sp))) d) k = map_option g (dict_get d k)"
  by (induction d) auto

lemma held_at_book: "held_at (book_of L) s a = (let p = set_default (lg_positions L) s (new_position_at a) in (lp_quantity p, lp_mark p))"
  unfolding held_at_def book_of_def
  by (simp add: dict_get_map [where g = "\<lambda>p. (lp_quantity p, lp_mark p)"] set_default_def Let_def split: option.splits)

lemma book_of_set:
  "book_of (L\<lparr>lg_positions := dict_set (lg_positions L) s v\<rparr>) = (book_of L)\<lparr>cb_held := dict_set (cb_held (book_of L)) s (lp_quantity v, lp_mark v)\<rparr>"
  unfolding book_of_def by (simp add: dict_set_map [where g = "\<lambda>p. (lp_quantity p, lp_mark p)"])

lemma book_mark: "book_of (mark s p L) = cb_mark s p (book_of L)"
proof -
  have "book_of (mark s p L) = book_of (L\<lparr>lg_positions := dict_set (lg_positions L) s ((set_default (lg_positions L) s (new_position_at 0))\<lparr>lp_mark := p\<rparr>)\<rparr>)"
    by (simp add: mark_def book_of_def)
  then show ?thesis by (simp add: book_of_set cb_mark_def held_at_book Let_def)
qed

lemma book_mark_prices: "book_of (mark_prices ps L) = foldl (\<lambda>B (s, p). cb_mark s p B) (book_of L) ps"
  unfolding mark_prices_def by (induction ps arbitrary: L) (auto simp: book_mark)

lemma book_accrue:
  "book_of (accrue_financing exact s a L) =
     (book_of L)\<lparr>cb_held := dict_set (cb_held (book_of L)) s (held_at (book_of L) s 0), cb_cash := lg_cash L - a, cb_financing := financing_cum L + a\<rparr>"
  using book_of_set [of L s "(set_default (lg_positions L) s (new_position_at 0))\<lparr>lp_financing := exact (lp_financing (set_default (lg_positions L) s (new_position_at 0)) + a)\<rparr>"]
  by (simp add: held_at_book Let_def accrue_financing_def) (simp add: book_of_def exact_def)

lemma book_booked: "booked_as f L q L1 \<Longrightarrow> book_of L1 = cb_trade (fl_symbol f) (signed_qty exact f) (fl_price f) (fl_fee f) (book_of L)"
  using book_of_set [of L "fl_symbol f" q]
  by (simp add: booked_as_def cb_trade_def held_at_book Let_def) (simp add: book_of_def)

lemma book_step:
  assumes "ledger_inv L"
  shows "book_of (ledger_step exact flt L c) = cb_step (book_of L) c"
proof (cases c)
  case (Call_fill s sd q pr fee ts co bo)
  let ?f = "\<lparr>fl_symbol = s, fl_side = lower sd, fl_quantity = q, fl_price = pr, fl_fee = fee, fl_ts = ts, fl_client = co, fl_broker = bo\<rparr>"
  show ?thesis
  proof (cases "q > 0 \<and> (lower sd = ''buy'' \<or> lower sd = ''sell'')")
    case True
    then obtain b L1 q' where "apply_fill exact True ?f L = (Inr b, L1)" "booked_as ?f L q' L1" using apply_fill_exact [OF assms, of ?f True] by auto
    with True book_booked [of ?f L q' L1] show ?thesis
      by (auto simp: Call_fill ledger_step_def cb_step_def on_fill_def Let_def signed_qty_def exact_def)
  qed (auto simp: Call_fill ledger_step_def cb_step_def on_fill_def Let_def)
qed (simp_all add: ledger_step_def cb_step_def book_mark book_mark_prices book_accrue, simp_all add: book_of_def eod_close_def Let_def)

interpretation cash_book: simulation "ledger_step exact flt" cb_step "\<lambda>L B. ledger_inv L \<and> book_of L = B" for flt
  by unfold_locales (auto simp: ledger_step_inv book_step)

lemma book_equity: "lg_equity exact L = cb_equity (book_of L)"
  by (simp add: aggregates_exact cb_equity_def book_of_def psum_def pos_market_value_def exact_def comp_def)

lemma book_replay:
  "ledger_inv L \<Longrightarrow> \<forall>f \<in> set fs. fl_quantity f > 0 \<Longrightarrow>
   book_of (snd (replay exact fs L)) = foldl (\<lambda>B f. cb_trade (fl_symbol f) (signed_qty exact f) (fl_price f) (fl_fee f) B) (book_of L) fs"
proof (induction fs arbitrary: L)
  case (Cons f fs)
  then obtain b L1 q where "apply_fill exact False f L = (Inr b, L1)" "ledger_inv L1" "booked_as f L q L1" using apply_fill_exact [of L f False] by auto
  with Cons book_booked [of f L q L1] show ?case by simp
qed simp

lemma book_restore_marks: "book_of (restore_marks ms L) = foldl (\<lambda>B (s, p). cb_mark s p B) (book_of L) ms"
  unfolding restore_marks_def by (induction ms arbitrary: L) (auto simp: book_of_set cb_mark_def held_at_book Let_def)

lemma book_init:
  assumes "stored_ok df"
  shows "\<exists>A F. init_PnLLedger exact cash ''average'' df = Inr (Inr (), A) \<and> init_PnLLedger exact cash ''fifo'' df = Inr (Inr (), F) \<and>
    ledger_inv A \<and> ledger_inv F \<and> book_of A = book_of F"
proof -
  obtain A where A: "init_PnLLedger exact cash ''average'' df = Inr (Inr (), A)" "ledger_inv A"
    using init_PnLLedger_inv [OF assms, of "''average''" cash] by (auto simp: method_of_def)
  obtain F where F: "init_PnLLedger exact cash ''fifo'' df = Inr (Inr (), F)" "ledger_inv F"
    using init_PnLLedger_inv [OF assms, of "''fifo''" cash] by (auto simp: method_of_def)
  have "book_of A = book_of F"
  proof (cases df)
    case (Old_file db)
    define start where "start m = (blank_ledger m cash (Some db))\<lparr>starting_cash := db_start db, lg_cash := db_start db\<rparr>" for m
    have ok: "\<forall>f \<in> set (db_fills db). fl_quantity f > 0" using assms by (simp add: Old_file stored_ok_def)
    have same: "book_of (start AVERAGE) = book_of (start FIFO)" by (simp add: start_def book_of_def blank_ledger_def)
    have inv: "ledger_inv (start m)" for m unfolding start_def by (rule blank_inv)
    have res: "book_of X = foldl (\<lambda>B (s, p). cb_mark s p B) (book_of (snd (replay exact (db_fills db) (start m)))) (db_marks db)"
      if "recover exact ((blank_ledger m cash (Some db))\<lparr>starting_cash := db_start db\<rparr>) = (Inr (), X)" for m X
    proof -
      obtain L1 where L1: "replay exact (db_fills db) (start m) = (Inr (), L1)" using replay_inv [OF inv ok] by blast
      have st: "(blank_ledger m cash (Some db))\<lparr>starting_cash := db_start db, lg_cash := db_start db\<rparr> = start m" by (simp add: start_def)
      have "book_of X = book_of (restore_marks (db_marks db) L1)"
        using that L1 by (auto simp: recover_def blank_ledger_def start_def Let_def book_of_def split: if_splits)
      then show ?thesis by (simp add: L1 book_restore_marks)
    qed
    from A(1) F(1) have "recover exact ((blank_ledger AVERAGE cash (Some db))\<lparr>starting_cash := db_start db\<rparr>) = (Inr (), A)"
      "recover exact ((blank_ledger FIFO cash (Some db))\<lparr>starting_cash := db_start db\<rparr>) = (Inr (), F)"
      by (simp_all add: init_PnLLedger_def method_of_def Old_file)
    from this [THEN res] show ?thesis by (simp add: book_replay [OF inv ok] same)
  qed (use A F in \<open>auto simp: init_PnLLedger_def method_of_def recover_def blank_ledger_def restore_marks_def book_of_def\<close>)
  with A F show ?thesis by blast
qed

lemma flat_unrealized: "\<forall>sp \<in> set (lg_positions L). lp_quantity (snd sp) = 0 \<Longrightarrow> unrealized_pnl exact L = 0"
proof -
  assume "\<forall>sp \<in> set (lg_positions L). lp_quantity (snd sp) = 0"
  then have "\<forall>x \<in> set (map (\<lambda>sp. pos_unrealized exact (snd sp)) (lg_positions L)). x = 0" by (simp add: pos_unrealized_def)
  moreover have "\<forall>x \<in> set xs. x = 0 \<Longrightarrow> sum_list xs = 0" for xs :: "rat list" by (induction xs) simp_all
  ultimately show ?thesis by (simp add: unrealized_pnl_def position_values_of_def)
qed

text \<open>
  C16: the lot method only splits the profit.  With exact arithmetic the ledger refines a cash book that
  knows no lots, only cash, costs and the quantity and mark of each symbol: so an average-cost ledger and a
  FIFO ledger opened on the same file and given the same calls always show the same book and equity,
  the same sum of realised and unrealised profit, and, whenever nothing is held,
  the same realised profit.
\<close>

theorem lot_methods_agree:
  assumes "stored_ok df"
  shows "\<exists>A F. init_PnLLedger exact cash ''average'' df = Inr (Inr (), A) \<and> init_PnLLedger exact cash ''fifo'' df = Inr (Inr (), F) \<and>
    (\<forall>calls. let a = foldl (ledger_step exact flt) A calls; f = foldl (ledger_step exact flt) F calls; B = foldl cb_step (book_of A) calls in
       book_of a = B \<and> book_of f = B \<and> lg_equity exact a = cb_equity B \<and> lg_equity exact f = cb_equity B \<and>
       realized_cum a + unrealized_pnl exact a = realized_cum f + unrealized_pnl exact f \<and>
       ((\<forall>h \<in> set (cb_held B). fst (snd h) = 0) \<longrightarrow> realized_cum a = realized_cum f))"
proof -
  obtain A F where AF: "init_PnLLedger exact cash ''average'' df = Inr (Inr (), A)" "init_PnLLedger exact cash ''fifo'' df = Inr (Inr (), F)"
    "ledger_inv A" "ledger_inv F" "book_of A = book_of F" using book_init [OF assms] by blast
  have "realized_cum a + unrealized_pnl exact a = realized_cum f + unrealized_pnl exact f \<and>
       ((\<forall>h \<in> set (cb_held B). fst (snd h) = 0) \<longrightarrow> realized_cum a = realized_cum f) \<and> book_of a = B \<and> book_of f = B"
    if "a = foldl (ledger_step exact flt) A calls" "f = foldl (ledger_step exact flt) F calls" "B = foldl cb_step (book_of A) calls" for a f B calls
  proof -
    have ab: "ledger_inv a \<and> book_of a = B" unfolding that by (rule cash_book.sim_run) (simp add: AF)
    have fb: "ledger_inv f \<and> book_of f = B" unfolding that by (rule cash_book.sim_run) (simp add: AF)
    from ab fb have tot: "realized_cum a + unrealized_pnl exact a = realized_cum f + unrealized_pnl exact f"
      using books_balance [of a] books_balance [of f] book_equity [of a] book_equity [of f] by (auto simp: book_of_def)
    moreover have "realized_cum a = realized_cum f" if flat: "\<forall>h \<in> set (cb_held B). fst (snd h) = 0"
    proof -
      have "unrealized_pnl exact L = 0" if "book_of L = B" for L
        using flat by (intro flat_unrealized) (auto simp: that [symmetric] book_of_def)
      with ab fb tot show ?thesis by simp
    qed
    ultimately show ?thesis using ab fb by blast
  qed
  note runs = this [OF refl refl refl]
  show ?thesis
    unfolding Let_def book_equity
    by (intro exI [of _ A] exI [of _ F] conjI allI) (use AF(1,2) runs in \<open>simp_all\<close>)
qed

theorem lot_methods_agree_witness:
  "\<exists>A F. init_PnLLedger exact 1000 ''average'' No_path = Inr (Inr (), A) \<and> init_PnLLedger exact 1000 ''fifo'' No_path = Inr (Inr (), F) \<and>
     realized_cum A + unrealized_pnl exact A = realized_cum F + unrealized_pnl exact F"
proof -
  from lot_methods_agree [of No_path 1000 "\<lambda>x. x"] obtain A F where AF: "init_PnLLedger exact 1000 ''average'' No_path = Inr (Inr (), A)"
    "init_PnLLedger exact 1000 ''fifo'' No_path = Inr (Inr (), F)"
    and all: "\<And>calls. let a = foldl (ledger_step exact (\<lambda>x. x)) A calls; f = foldl (ledger_step exact (\<lambda>x. x)) F calls; B = foldl cb_step (book_of A) calls in
       book_of a = B \<and> book_of f = B \<and> lg_equity exact a = cb_equity B \<and> lg_equity exact f = cb_equity B \<and>
       realized_cum a + unrealized_pnl exact a = realized_cum f + unrealized_pnl exact f \<and>
       ((\<forall>h \<in> set (cb_held B). fst (snd h) = 0) \<longrightarrow> realized_cum a = realized_cum f)" unfolding stored_ok_def by auto
  from all [of "[]"] AF show ?thesis by (simp add: Let_def)
qed

subsection \<open>Recovery\<close>

text \<open>What a replay of the fills restores: all of a position but its mark and its financing.\<close>

definition pos_core :: "LedgerPosition \<Rightarrow> LedgerPosition" where
  "pos_core p = p\<lparr>lp_mark := 0, lp_financing := 0\<rparr>"

definition position_at :: "PnLLedger \<Rightarrow> string \<Rightarrow> LedgerPosition" where
  "position_at L s = set_default (lg_positions L) s (new_position_at 0)"

lemma inventory_frame:
  "apply_inventory ctx m f (p\<lparr>lp_mark := a, lp_financing := c\<rparr>) = map_option (\<lambda>rq. (fst rq, (snd rq)\<lparr>lp_mark := a, lp_financing := c\<rparr>)) (apply_inventory ctx m f p)"
  by (cases m) (simp_all add: apply_inventory_def apply_average_def apply_fifo_def Let_def split: option.splits)

lemma inventory_core: "apply_inventory ctx m f (pos_core p) = map_option (\<lambda>rq. (fst rq, pos_core (snd rq))) (apply_inventory ctx m f p)"
  unfolding pos_core_def by (rule inventory_frame)

lemma inventory_mark: "apply_inventory ctx m f p = Some (r, q) \<Longrightarrow> lp_mark q = lp_mark p"
  by (cases m) (auto simp: apply_inventory_def apply_average_def apply_fifo_def Let_def split: option.splits if_splits)

lemma pos_core_new [simp]: "pos_core (new_position_at a) = new_position_at 0"
  by (simp add: pos_core_def new_position_at_def)

lemma pos_core_default: "pos_core (set_default d s (new_position_at a)) = pos_core (set_default d s (new_position_at 0))"
  by (simp add: set_default_def split: option.splits)

lemma position_at_set: "lg_positions L1 = dict_set (lg_positions L) s v \<Longrightarrow> position_at L1 = (position_at L)(s := v)"
  by (auto simp: position_at_def set_default_def fun_eq_iff)

definition core_after :: "(rat \<Rightarrow> rat) \<Rightarrow> Fill \<Rightarrow> rat \<Rightarrow> LedgerPosition \<Rightarrow> LedgerPosition" where
  "core_after ctx f r q = pos_core (q\<lparr>lp_fees := ctx (lp_fees q + fl_fee f), lp_realized := ctx (lp_realized q + r)\<rparr>)"

lemma core_after_core: "core_after ctx f r (pos_core q) = core_after ctx f r q"
  by (simp add: core_after_def pos_core_def)

definition filled_to :: "(rat \<Rightarrow> rat) \<Rightarrow> Fill \<Rightarrow> PnLLedger \<Rightarrow> PnLLedger \<Rightarrow> rat \<Rightarrow> LedgerPosition \<Rightarrow> bool" where
  "filled_to ctx f L L1 r q \<longleftrightarrow>
     (\<lambda>s. pos_core (position_at L1 s)) = (\<lambda>s. pos_core (position_at L s))(fl_symbol f := core_after ctx f r q) \<and>
     (\<lambda>s. lp_mark (position_at L1 s)) =
       (\<lambda>s. lp_mark (position_at L s))(fl_symbol f := if lp_mark (position_at L (fl_symbol f)) = 0 then fl_price f else lp_mark (position_at L (fl_symbol f))) \<and>
     lg_method L1 = lg_method L \<and> starting_cash L1 = starting_cash L \<and> realized_cum L1 = ctx (realized_cum L + r) \<and> fees_cum L1 = ctx (fees_cum L + fl_fee f) \<and>
     fill_seq L1 = fill_seq L + 1 \<and> financing_cum L1 = financing_cum L \<and> lg_cash L1 = ctx (ctx (lg_cash L - ctx (signed_qty ctx f * fl_price f)) - fl_fee f) \<and>
     (dict_ok (lg_positions L) \<longrightarrow> dict_ok (lg_positions L1))"

lemma apply_fill_core:
  "case apply_inventory ctx (lg_method L) f (pos_core (position_at L (fl_symbol f))) of
     None \<Rightarrow> apply_fill ctx per f L = (Inl Never_returns, L)
   | Some (r, q) \<Rightarrow> \<exists>b L1. apply_fill ctx per f L = (Inr b, L1) \<and> filled_to ctx f L L1 r q \<and>
       lg_db L1 = (if per then map_option (\<lambda>db. db\<lparr>db_fills := db_fills db @ [f]\<rparr>) (lg_db L) else lg_db L)"
proof -
  define p where "p = set_default (lg_positions L) (fl_symbol f) (new_position_at (fl_price f))"
  have core: "pos_core (position_at L (fl_symbol f)) = pos_core p" unfolding position_at_def p_def by (rule pos_core_default [symmetric])
  have mk: "(if lp_mark p = 0 then fl_price f else lp_mark p) =
      (if lp_mark (position_at L (fl_symbol f)) = 0 then fl_price f else lp_mark (position_at L (fl_symbol f)))"
    by (simp add: p_def position_at_def set_default_def split: option.splits)
  show ?thesis
  proof (cases "apply_inventory ctx (lg_method L) f p")
    case None
    then show ?thesis by (simp add: core inventory_core apply_fill_def Let_def p_def [symmetric])
  next
    case (Some rq)
    obtain r q where rq: "rq = (r, q)" by (cases rq)
    define q2 where "q2 = q\<lparr>lp_fees := ctx (lp_fees q + fl_fee f), lp_realized := ctx (lp_realized q + r), lp_mark := (if lp_mark q = 0 then fl_price f else lp_mark q)\<rparr>"
    define L1 where "L1 = snd (apply_fill ctx per f L)"
    have run: "\<exists>b. apply_fill ctx per f L = (Inr b, L1)" and pos: "lg_positions L1 = dict_set (lg_positions L) (fl_symbol f) q2"
      and rest: "lg_method L1 = lg_method L" "starting_cash L1 = starting_cash L" "realized_cum L1 = ctx (realized_cum L + r)" "fees_cum L1 = ctx (fees_cum L + fl_fee f)"
        "fill_seq L1 = fill_seq L + 1" "financing_cum L1 = financing_cum L" "lg_cash L1 = ctx (ctx (lg_cash L - ctx (signed_qty ctx f * fl_price f)) - fl_fee f)"
        "lg_db L1 = (if per then map_option (\<lambda>db. db\<lparr>db_fills := db_fills db @ [f]\<rparr>) (lg_db L) else lg_db L)"
      unfolding L1_def apply_fill_def Let_def p_def [symmetric] Some rq q2_def by simp_all
    have "lp_mark q2 = (if lp_mark p = 0 then fl_price f else lp_mark p)" using inventory_mark [of ctx "lg_method L" f p r q] Some by (simp add: q2_def rq)
    moreover have "pos_core q2 = core_after ctx f r q" by (simp add: q2_def core_after_def pos_core_def)
    ultimately have "filled_to ctx f L L1 r (pos_core q)"
      by (simp add: filled_to_def position_at_set [OF pos] rest mk core_after_core fun_upd_comp fun_eq_iff) (simp add: pos dict_ok_set)
    with run rest(8) show ?thesis by (auto simp: core inventory_core Some rq)
  qed
qed

definition tracks :: "PnLLedger \<Rightarrow> PnLLedger \<Rightarrow> bool" where
  "tracks L R \<longleftrightarrow>
     lg_method R = lg_method L \<and> starting_cash R = starting_cash L \<and> realized_cum R = realized_cum L \<and> fees_cum R = fees_cum L \<and> fill_seq R = fill_seq L \<and>
     (\<lambda>s. pos_core (position_at R s)) = (\<lambda>s. pos_core (position_at L s)) \<and> dict_ok (lg_positions L) \<and> dict_ok (lg_positions R)"

lemma tracks_fill:
  assumes "tracks L R" and "apply_fill ctx per f L = (Inr b, L1)"
  shows "\<exists>b' R1 r q. apply_fill ctx False f R = (Inr b', R1) \<and> tracks L1 R1 \<and> filled_to ctx f L L1 r q \<and> filled_to ctx f R R1 r q \<and> lg_db R1 = lg_db R \<and>
    lg_db L1 = (if per then map_option (\<lambda>db. db\<lparr>db_fills := db_fills db @ [f]\<rparr>) (lg_db L) else lg_db L)"
proof -
  have core: "pos_core (position_at R (fl_symbol f)) = pos_core (position_at L (fl_symbol f))" using assms(1) by (metis tracks_def)
  obtain r q where inv: "apply_inventory ctx (lg_method L) f (pos_core (position_at L (fl_symbol f))) = Some (r, q)"
    using apply_fill_core [of ctx per f L] assms(2) by (cases "apply_inventory ctx (lg_method L) f (pos_core (position_at L (fl_symbol f)))") auto
  have l: "filled_to ctx f L L1 r q" "lg_db L1 = (if per then map_option (\<lambda>db. db\<lparr>db_fills := db_fills db @ [f]\<rparr>) (lg_db L) else lg_db L)"
    using apply_fill_core [of ctx per f L] assms(2) by (auto simp: inv)
  obtain b' R1 where r: "apply_fill ctx False f R = (Inr b', R1)" "filled_to ctx f R R1 r q" "lg_db R1 = lg_db R"
    using apply_fill_core [of ctx False f R] assms(1) inv by (auto simp: core tracks_def)
  have "tracks L1 R1" using assms(1) l(1) r(2) by (simp add: tracks_def filled_to_def)
  with l r show ?thesis by blast
qed

lemma replay_append: "replay ctx (fs @ [f]) L = run_then (replay ctx fs L) (\<lambda>L1. run_then (apply_fill ctx False f L1) (\<lambda>L2. py_return () L2))"
  by (induction fs arbitrary: L) (simp_all split: prod.splits sum.splits)

text \<open>
  \<open>R\<close> is what a replay of the stored fills gives.  The live ledger differs from it in the financing, and in
  the marks that are stored.
\<close>

definition durable :: "(rat \<Rightarrow> rat) \<Rightarrow> PnLLedger \<Rightarrow> ledger_db \<Rightarrow> PnLLedger \<Rightarrow> bool" where
  "durable ctx L db R \<longleftrightarrow>
     lg_db L = Some db \<and> db_start db = starting_cash L \<and> replay ctx (db_fills db) (blank_ledger (lg_method L) (starting_cash L) None) = (Inr (), R) \<and>
     tracks L R \<and> (\<forall>s. lp_mark (position_at L s) = (case dict_get (db_marks db) s of None \<Rightarrow> lp_mark (position_at R s) | Some m \<Rightarrow> m)) \<and>
     0 \<notin> ran (dict_get (db_marks db)) \<and> dict_ok (db_marks db) \<and> financing_cum R = 0 \<and> (ctx = exact \<longrightarrow> lg_cash R = lg_cash L + financing_cum L)"

definition kept :: "(rat \<Rightarrow> rat) \<Rightarrow> PnLLedger \<Rightarrow> bool" where
  "kept ctx L \<longleftrightarrow> (\<exists>db R. durable ctx L db R)"

definition marks_nonzero :: "ledger_call \<Rightarrow> bool" where
  "marks_nonzero c \<longleftrightarrow> (case c of Call_mark s p \<Rightarrow> p \<noteq> 0 | Call_mark_prices ps \<Rightarrow> 0 \<notin> set (map snd ps) | _ \<Rightarrow> True)"

lemma kept_fill:
  assumes "kept ctx L"
  shows "kept ctx (snd (apply_fill ctx True f L))"
proof (cases "fst (apply_fill ctx True f L)")
  case (Inl e)
  then have "snd (apply_fill ctx True f L) = L"
    using apply_fill_core [of ctx True f L] by (auto split: option.splits)
  with assms show ?thesis by simp
next
  case (Inr b)
  obtain db R where d: "durable ctx L db R" using assms by (auto simp: kept_def)
  define L1 where "L1 = snd (apply_fill ctx True f L)"
  have run: "apply_fill ctx True f L = (Inr b, L1)" using Inr by (simp add: L1_def prod_eq_iff)
  from d have tr: "tracks L R" by (simp add: durable_def)
  from tracks_fill [OF tr run] obtain b' R1 r q where R1: "apply_fill ctx False f R = (Inr b', R1)" "tracks L1 R1"
    and ff: "filled_to ctx f L L1 r q" "filled_to ctx f R R1 r q" and db: "lg_db L1 = Some (db\<lparr>db_fills := db_fills db @ [f]\<rparr>)"
    using d by (auto simp: durable_def)
  have mk: "lp_mark (position_at L1 s) = (case dict_get (db_marks db) s of None \<Rightarrow> lp_mark (position_at R1 s) | Some m \<Rightarrow> m)" for s
  proof -
    have old: "lp_mark (position_at L s) = (case dict_get (db_marks db) s of None \<Rightarrow> lp_mark (position_at R s) | Some m \<Rightarrow> m)" for s
      using d by (simp add: durable_def)
    have nz: "dict_get (db_marks db) s = Some m \<Longrightarrow> m \<noteq> 0" for s m using d by (auto simp: durable_def ran_def)
    show ?thesis
      using ff [unfolded filled_to_def, THEN conjunct2, THEN conjunct1, THEN fun_cong, of s] old [of s] nz [of s]
      by (auto split: option.splits)
  qed
  have "durable ctx L1 (db\<lparr>db_fills := db_fills db @ [f]\<rparr>) R1"
    using d R1 ff db mk by (simp add: durable_def replay_append filled_to_def) (auto simp: exact_def)
  then show ?thesis by (auto simp: kept_def L1_def)
qed

lemma kept_mark: "kept ctx L \<Longrightarrow> p \<noteq> 0 \<Longrightarrow> kept ctx (mark s p L)"
proof -
  assume k: "kept ctx L" and p: "p \<noteq> 0"
  obtain db R where d: "durable ctx L db R" using k by (auto simp: kept_def)
  have at: "position_at (mark s p L) = (position_at L)(s := (position_at L s)\<lparr>lp_mark := p\<rparr>)"
    unfolding position_at_def [of L s] by (rule position_at_set) (simp add: mark_def)
  have "durable ctx (mark s p L) (db\<lparr>db_marks := dict_set (db_marks db) s p\<rparr>) R"
    using d p by (simp add: durable_def tracks_def at ran_def)
      (auto simp: mark_def fun_eq_iff pos_core_def dict_ok_set)
  then show ?thesis by (auto simp: kept_def)
qed

lemma kept_marks: "kept ctx L \<Longrightarrow> 0 \<notin> set (map snd ps) \<Longrightarrow> kept ctx (mark_prices ps L)"
  unfolding mark_prices_def by (induction ps arbitrary: L) (auto simp: kept_mark)

lemma kept_accrue: "kept ctx L \<Longrightarrow> kept ctx (accrue_financing ctx s a L)"
proof -
  assume k: "kept ctx L"
  obtain db R where d: "durable ctx L db R" using k by (auto simp: kept_def)
  have at: "position_at (accrue_financing ctx s a L) = (position_at L)(s := (position_at L s)\<lparr>lp_financing := ctx (lp_financing (position_at L s) + a)\<rparr>)"
    unfolding position_at_def [of L s] by (rule position_at_set) (simp add: accrue_financing_def Let_def)
  have "durable ctx (accrue_financing ctx s a L) db R"
    using d by (simp add: durable_def tracks_def at) (auto simp: accrue_financing_def Let_def fun_eq_iff pos_core_def dict_ok_set exact_def)
  then show ?thesis by (auto simp: kept_def)
qed

lemma kept_eod: "kept ctx L \<Longrightarrow> kept ctx (snd (eod_close ctx flt now label L))"
proof -
  assume k: "kept ctx L"
  obtain db R where d: "durable ctx L db R" using k by (auto simp: kept_def)
  define sn where "sn = fst (eod_close ctx flt now label L)"
  have at: "position_at (snd (eod_close ctx flt now label L)) = position_at L" by (simp add: eod_close_def Let_def position_at_def fun_eq_iff)
  have "durable ctx (snd (eod_close ctx flt now label L)) (db\<lparr>db_snapshots := db_snapshots db @ [sn]\<rparr>) R"
    using d by (simp add: durable_def tracks_def at) (simp add: eod_close_def Let_def sn_def)
  then show ?thesis by (auto simp: kept_def)
qed

lemma kept_step: "kept ctx L \<Longrightarrow> marks_nonzero c \<Longrightarrow> kept ctx (ledger_step ctx flt L c)"
  by (cases c) (auto simp: ledger_step_def marks_nonzero_def kept_mark kept_marks kept_accrue kept_eod on_fill_def Let_def intro: kept_fill)

lemma kept_run: "kept ctx L \<Longrightarrow> \<forall>c \<in> set calls. marks_nonzero c \<Longrightarrow> kept ctx (foldl (ledger_step ctx flt) L calls)"
  by (rule run_inv [where J = "kept ctx" and ok = marks_nonzero]) (simp_all add: kept_step)

lemma kept_new:
  assumes "init_PnLLedger ctx cash mname New_file = Inr (Inr (), L)"
  shows "kept ctx L"
proof -
  obtain m where "method_of mname = Some m" using assms by (auto simp: init_PnLLedger_def split: option.splits)
  with assms have L: "L = blank_ledger m cash (Some \<lparr>db_start = cash, db_fills = [], db_marks = [], db_snapshots = []\<rparr>)"
    by (simp add: init_PnLLedger_def recover_def blank_ledger_def restore_marks_def Let_def)
  have at: "position_at (blank_ledger m cash db) = (\<lambda>s. new_position_at 0)" for db by (simp add: position_at_def blank_ledger_def set_default_def fun_eq_iff)
  have "durable ctx L \<lparr>db_start = cash, db_fills = [], db_marks = [], db_snapshots = []\<rparr> (blank_ledger m cash None)"
    unfolding L durable_def tracks_def at by (simp add: blank_ledger_def dict_ok_def)
  then show ?thesis by (auto simp: kept_def)
qed

text \<open>Replaying from two ledgers that agree.\<close>

definition twin :: "PnLLedger \<Rightarrow> PnLLedger \<Rightarrow> bool" where
  "twin L R \<longleftrightarrow> tracks L R \<and> (\<lambda>s. lp_mark (position_at R s)) = (\<lambda>s. lp_mark (position_at L s)) \<and> lg_cash R = lg_cash L \<and> financing_cum R = financing_cum L"

lemma twin_fill:
  assumes "twin L R" and "apply_fill ctx False f L = (Inr b, L1)"
  shows "\<exists>b' R1. apply_fill ctx False f R = (Inr b', R1) \<and> twin L1 R1 \<and> lg_db R1 = lg_db R"
proof -
  from tracks_fill [OF _ assms(2)] assms(1) obtain b' R1 r q where run: "apply_fill ctx False f R = (Inr b', R1)" "tracks L1 R1" "lg_db R1 = lg_db R"
    and ff: "filled_to ctx f L L1 r q" "filled_to ctx f R R1 r q" unfolding twin_def by blast
  have same: "lp_mark (position_at R s) = lp_mark (position_at L s)" for s using assms(1) unfolding twin_def by metis
  have "twin L1 R1"
    using assms(1) run(2) ff by (simp add: twin_def filled_to_def) (simp add: same)
  with run show ?thesis by blast
qed

lemma replay_twin:
  "twin L R \<Longrightarrow> replay ctx fs L = (Inr (), L1) \<Longrightarrow> \<exists>R1. replay ctx fs R = (Inr (), R1) \<and> twin L1 R1 \<and> lg_db R1 = lg_db R"
proof (induction fs arbitrary: L R)
  case (Cons f fs)
  obtain b L2 where f: "apply_fill ctx False f L = (Inr b, L2)" "replay ctx fs L2 = (Inr (), L1)"
    using Cons.prems(2) by (auto split: prod.splits sum.splits)
  obtain b' R2 where r: "apply_fill ctx False f R = (Inr b', R2)" "twin L2 R2" "lg_db R2 = lg_db R" using twin_fill [OF Cons.prems(1) f(1)] by blast
  from Cons.IH [OF r(2) f(2)] r(3) show ?case by (auto simp: r(1))
qed simp

definition frame :: "PnLLedger \<Rightarrow> lot_method \<times> rat \<times> rat \<times> rat \<times> rat \<times> rat \<times> int \<times> ledger_db option" where
  "frame L = (lg_method L, starting_cash L, lg_cash L, realized_cum L, fees_cum L, financing_cum L, fill_seq L, lg_db L)"

lemma restore_marks_at:
  "dict_ok ms \<Longrightarrow> position_at (restore_marks ms L) s = (position_at L s)\<lparr>lp_mark := (case dict_get ms s of None \<Rightarrow> lp_mark (position_at L s) | Some m \<Rightarrow> m)\<rparr>"
proof (induction ms arbitrary: L)
  case Nil
  then show ?case by (simp add: restore_marks_def)
next
  case (Cons sm ms)
  obtain k m where sm: "sm = (k, m)" by (cases sm)
  define L1 where "L1 = L\<lparr>lg_positions := dict_set (lg_positions L) k ((set_default (lg_positions L) k (new_position_at 0))\<lparr>lp_mark := m\<rparr>)\<rparr>"
  have at: "position_at L1 = (position_at L)(k := (position_at L k)\<lparr>lp_mark := m\<rparr>)"
    unfolding position_at_def [of L k] by (rule position_at_set) (simp add: L1_def)
  have ok: "dict_ok ms" "dict_get ms k = None" using Cons.prems by (auto simp: sm dict_ok_def map_of_eq_None_iff)
  have "restore_marks (sm # ms) L = restore_marks ms L1" by (simp add: restore_marks_def sm L1_def)
  with Cons.IH [OF ok(1), of L1] ok(2) show ?case by (cases "s = k"; cases "dict_get ms s") (simp_all add: at sm)
qed

lemma restore_marks_frame: "frame (restore_marks ms L) = frame L"
  unfolding restore_marks_def by (induction ms arbitrary: L) (auto simp: frame_def)

lemma restore_marks_ok: "dict_ok (lg_positions L) \<Longrightarrow> dict_ok (lg_positions (restore_marks ms L))"
  unfolding restore_marks_def by (induction ms arbitrary: L) (auto simp: dict_ok_set)

text \<open>The ledger that a restart gives.\<close>

definition recovered :: "(rat \<Rightarrow> rat) \<Rightarrow> PnLLedger \<Rightarrow> PnLLedger \<Rightarrow> bool" where
  "recovered ctx L L' \<longleftrightarrow>
     lg_method L' = lg_method L \<and> starting_cash L' = starting_cash L \<and> realized_cum L' = realized_cum L \<and> fees_cum L' = fees_cum L \<and> fill_seq L' = fill_seq L \<and>
     (\<forall>s. pos_core (position_at L' s) = pos_core (position_at L s) \<and> lp_mark (position_at L' s) = lp_mark (position_at L s)) \<and>
     nav_history L' = nav_history L \<and> financing_cum L' = 0 \<and> (ctx = exact \<longrightarrow> lg_cash L' = lg_cash L + financing_cum L)"

lemma reopen_kept:
  assumes "durable ctx L db R" and "method_of mname = Some (lg_method L)"
  shows "\<exists>L'. init_PnLLedger ctx cash mname (Old_file db) = Inr (Inr (), L') \<and> recovered ctx L L' \<and> dict_ok (lg_positions L) \<and> dict_ok (lg_positions L')"
proof -
  define S where "S = (blank_ledger (lg_method L) cash (Some db))\<lparr>starting_cash := db_start db, lg_cash := db_start db\<rparr>"
  have d: "lg_db L = Some db" "db_start db = starting_cash L" "replay ctx (db_fills db) (blank_ledger (lg_method L) (starting_cash L) None) = (Inr (), R)"
    "tracks L R" "dict_ok (db_marks db)" "financing_cum R = 0" "ctx = exact \<longrightarrow> lg_cash R = lg_cash L + financing_cum L"
    and mk: "\<And>s. lp_mark (position_at L s) = (case dict_get (db_marks db) s of None \<Rightarrow> lp_mark (position_at R s) | Some m \<Rightarrow> m)"
    using assms(1) unfolding durable_def by blast+
  have "twin (blank_ledger (lg_method L) (starting_cash L) None) S"
    by (simp add: twin_def tracks_def S_def d(2) position_at_def blank_ledger_def dict_ok_def)
  from replay_twin [OF this d(3)] obtain R1 where R1: "replay ctx (db_fills db) S = (Inr (), R1)" "twin R R1" "lg_db R1 = Some db"
    by (auto simp: S_def blank_ledger_def)
  define M where "M = restore_marks (db_marks db) R1"
  define L' where "L' = (if db_snapshots db = [] then M else M\<lparr>last_close_nav := ns_nav (last (db_snapshots db)), day_realized := 0, day_fees := 0\<rparr>)"
  have run: "init_PnLLedger ctx cash mname (Old_file db) = Inr (Inr (), L')"
    using R1(1) by (simp add: init_PnLLedger_def assms(2) recover_def S_def blank_ledger_def Let_def M_def L'_def)
  have same: "frame L' = frame M" "lg_positions L' = lg_positions M" by (simp_all add: L'_def frame_def)
  have fr: "frame M = frame R1" unfolding M_def by (rule restore_marks_frame)
  have at: "position_at L' s = (position_at R1 s)\<lparr>lp_mark := (case dict_get (db_marks db) s of None \<Rightarrow> lp_mark (position_at R1 s) | Some m \<Rightarrow> m)\<rparr>" for s
    using restore_marks_at [OF d(5), of R1 s] same(2) by (simp add: position_at_def M_def)
  have tw: "lp_mark (position_at R1 s) = lp_mark (position_at R s)" "pos_core (position_at R1 s) = pos_core (position_at L s)" for s
    using R1(2) d(4) unfolding twin_def tracks_def by metis+
  have "pos_core (position_at L' s) = pos_core (position_at L s)" "lp_mark (position_at L' s) = lp_mark (position_at L s)" for s
    using tw [of s] mk [of s] by (simp_all add: at pos_core_def split: option.splits)
  then have "recovered ctx L L'"
    using same(1) fr R1(2,3) d(1,4,6,7) by (simp add: recovered_def twin_def tracks_def nav_history_def frame_def)
  moreover have "dict_ok (lg_positions L')" using restore_marks_ok [of R1] R1(2) by (simp add: same(2) M_def twin_def tracks_def)
  ultimately show ?thesis using run d(4) by (auto simp: tracks_def)
qed

text \<open>A sum over the positions does not depend on their order, nor on positions that count nothing.\<close>

lemma psum_keys:
  assumes "dict_ok d" and "finite K" and "set (dict_keys d) \<subseteq> K" and "g p0 = 0"
  shows "psum g d = (\<Sum>k \<in> K. g (set_default d k p0))"
proof -
  have "psum g d = (\<Sum>k \<leftarrow> dict_keys d. g (set_default d k p0))"
    unfolding psum_def using assms(1) by (auto intro!: arg_cong [where f = sum_list] simp: set_default_def dict_ok_def)
  also have "\<dots> = (\<Sum>k \<in> set (dict_keys d). g (set_default d k p0))" by (rule sum_list_distinct_conv_sum_set) (use assms(1) in \<open>simp add: dict_ok_def\<close>)
  also have "\<dots> = (\<Sum>k \<in> K. g (set_default d k p0))"
  proof (rule sum.mono_neutral_left)
    show "\<forall>i \<in> K - set (dict_keys d). g (set_default d i p0) = 0"
    proof
      fix i assume "i \<in> K - set (dict_keys d)"
      then have "dict_get d i = None" by (simp add: map_of_eq_None_iff)
      then show "g (set_default d i p0) = 0" by (simp add: set_default_def assms(4))
    qed
  qed (use assms in simp_all)
  finally show ?thesis .
qed

lemma recovered_equity:
  assumes "recovered exact L L'" and "dict_ok (lg_positions L)" and "dict_ok (lg_positions L')"
  shows "lg_equity exact L' = lg_equity exact L + financing_cum L"
proof -
  let ?K = "set (dict_keys (lg_positions L)) \<union> set (dict_keys (lg_positions L'))"
  have sum: "psum (pos_market_value exact) (lg_positions X) = (\<Sum>k \<in> ?K. pos_market_value exact (position_at X k))"
    if "X = L \<or> X = L'" for X
    unfolding position_at_def using that assms(2,3) by (intro psum_keys) auto
  have "pos_market_value exact (position_at L' k) = pos_market_value exact (position_at L k)" for k
  proof -
    have "lp_quantity (pos_core (position_at L' k)) = lp_quantity (pos_core (position_at L k))" "lp_mark (position_at L' k) = lp_mark (position_at L k)"
      using assms(1) by (auto simp: recovered_def)
    then show ?thesis by (simp add: pos_market_value_def pos_core_def)
  qed
  then show ?thesis using assms(1) sum [of L] sum [of L'] by (simp add: aggregates_exact recovered_def)
qed

lemma mark_prices_method: "lg_method (mark_prices ps L) = lg_method L"
  unfolding mark_prices_def by (induction ps arbitrary: L) (auto simp: mark_def)



end
