(* ===== verification/Fill_Handler.thy ===== *)
theory Fill_Handler
  imports Execution_Safety PnL_Ledger
begin

section \<open>The fill handler\<close>

text \<open>
  Model of \<^verbatim>\<open>packages/agent/execution/fill_handler.py\<close>: broker events about orders, the sources
  that deliver them, and the handler that keeps filled quantity and average price per order, moves the order
  of the execution engine along and notifies the ledger.  Quantities and prices are finite decimals; the
  context of \<^verbatim>\<open>x_ctx\<close> rounds.  The callbacks are not called but listed: the handler ignores what
  they return or raise.
\<close>

subsection \<open>Events\<close>

datatype event_kind = K_NEW | K_ACCEPTED | K_PARTIAL | K_FILL | K_CANCELED | K_REJECTED | K_EXPIRED | K_REPLACED

definition EVENT_ALIASES :: "(string, event_kind) dict" where
  "EVENT_ALIASES =
     [(''new'', K_NEW), (''pending_new'', K_NEW), (''accepted'', K_ACCEPTED), (''open'', K_ACCEPTED),
      (''partially_filled'', K_PARTIAL), (''partial_fill'', K_PARTIAL), (''partial'', K_PARTIAL), (''fill'', K_FILL),
      (''filled'', K_FILL), (''done_for_day'', K_FILL), (''canceled'', K_CANCELED), (''cancelled'', K_CANCELED),
      (''pending_cancel'', K_ACCEPTED), (''rejected'', K_REJECTED), (''error'', K_REJECTED), (''expired'', K_EXPIRED),
      (''replaced'', K_REPLACED)]"

record FillEvent =
  fe_client :: string
  fe_type :: string
  fe_filled :: "rat option"
  fe_avg :: "rat option"
  fe_last_qty :: "rat option"
  fe_last_price :: "rat option"
  fe_broker :: "string option"
  fe_cumulative :: bool
  fe_ts :: time
  fe_error :: "string option"

text \<open>\<open>None\<close>: a text that is no alias stays itself, and no status is mapped to it.\<close>

definition kind :: "FillEvent \<Rightarrow> event_kind option" where
  "kind ev = dict_get EVENT_ALIASES (lower (fe_type ev))"

text \<open>
  A payload.  \<open>str_of\<close> and \<open>dec\<close> are \<^verbatim>\<open>str\<close> and \<^verbatim>\<open>_to_decimal\<close>.
\<close>

fun first_true :: "(string, pyval) dict \<Rightarrow> string list \<Rightarrow> pyval" where
  "first_true d [] = PStr []"
| "first_true d (k # ks) = (case dict_get d k of None \<Rightarrow> first_true d ks | Some v \<Rightarrow> if py_truth v then v else first_true d ks)"

fun first_present :: "(string, pyval) dict \<Rightarrow> string list \<Rightarrow> pyval" where
  "first_present d [] = PNone"
| "first_present d (k # ks) = (case dict_get d k of None \<Rightarrow> first_present d ks | Some v \<Rightarrow> v)"

definition from_payload :: "(pyval \<Rightarrow> string) \<Rightarrow> (pyval \<Rightarrow> rat option) \<Rightarrow> time \<Rightarrow> (string, pyval) dict \<Rightarrow> FillEvent" where
  "from_payload str_of dec now d =
     \<lparr>fe_client = str_of (first_true d [''client_order_id'', ''client_id'', ''clientOrderId'']),
      fe_type = str_of (first_true d [''event'', ''status'', ''type'']),
      fe_filled = dec (first_present d [''filled_qty'', ''cum_qty'']),
      fe_avg = dec (first_present d [''avg_fill_price'', ''filled_avg_price'', ''avg_price'']),
      fe_last_qty = dec (first_present d [''last_fill_qty'', ''last_qty'']),
      fe_last_price = dec (first_present d [''last_fill_price'', ''last_price'']),
      fe_broker = (let b = first_true d [''broker_order_id'', ''order_id''] in if py_truth b then Some (str_of b) else None),
      fe_cumulative = (case dict_get d ''cumulative'' of None \<Rightarrow> True | Some v \<Rightarrow> py_truth v), fe_ts = now,
      fe_error = (case dict_get d ''error'' of None \<Rightarrow> None | Some v \<Rightarrow> if py_truth v then Some (str_of v) else None)\<rparr>"

subsection \<open>Sources\<close>

text \<open>\<^verbatim>\<open>InMemoryFillSource\<close>; \<^verbatim>\<open>CallbackFillSource\<close> is one that drains all.\<close>

record InMemoryFillSource =
  im_events :: "FillEvent list"
  im_batch :: int

definition im_push :: "FillEvent \<Rightarrow> InMemoryFillSource \<Rightarrow> InMemoryFillSource" where
  "im_push ev s = s\<lparr>im_events := im_events s @ [ev]\<rparr>"

definition im_poll :: "InMemoryFillSource \<Rightarrow> FillEvent list \<times> InMemoryFillSource" where
  "im_poll s =
     (if im_events s = [] then ([], s)
      else if im_batch s \<le> 0 then (im_events s, s\<lparr>im_events := []\<rparr>)
      else (take (nat (im_batch s)) (im_events s), s\<lparr>im_events := drop (nat (im_batch s)) (im_events s)\<rparr>))"

fun cb_drain :: "FillEvent list \<Rightarrow> FillEvent list \<Rightarrow> FillEvent list \<times> FillEvent list" where
  "cb_drain q out = (case q of [] \<Rightarrow> (out, []) | ev # q' \<Rightarrow> cb_drain q' (out @ [ev]))"

definition cb_poll :: "FillEvent list \<Rightarrow> FillEvent list \<times> FillEvent list" where
  "cb_poll q = cb_drain q []"

text \<open>
  The polling source: the last status and quantity per tracked order; \<open>qtext\<close> is \<^verbatim>\<open>str\<close> of a
  decimal.  \<open>ans\<close> is what the fetch gives: \<open>Inl\<close> an exception, \<open>None\<close> or an empty answer.
\<close>

type_synonym tracked = "(string, (string \<times> string) option) dict"

definition ps_track :: "string \<Rightarrow> tracked \<Rightarrow> tracked" where
  "ps_track c t = (if dict_has t c then t else dict_set t c None)"

definition ps_untrack :: "string \<Rightarrow> tracked \<Rightarrow> tracked" where
  "ps_untrack c t = dict_del t c"

definition poll_signature :: "(pyval \<Rightarrow> string) \<Rightarrow> (pyval \<Rightarrow> rat option) \<Rightarrow> (rat \<Rightarrow> string) \<Rightarrow> (string, pyval) dict \<Rightarrow> string \<times> string" where
  "poll_signature str_of dec qtext info =
     (lower (str_of (case dict_get info ''status'' of Some v \<Rightarrow> v | None \<Rightarrow> (case dict_get info ''event'' of Some v \<Rightarrow> v | None \<Rightarrow> PStr []))),
      qtext (case dec (first_present info [''filled_qty'', ''cum_qty'']) of None \<Rightarrow> 0 | Some q \<Rightarrow> q))"

definition polled_event :: "(pyval \<Rightarrow> string) \<Rightarrow> (pyval \<Rightarrow> rat option) \<Rightarrow> time \<Rightarrow> string \<Rightarrow> (string, pyval) dict \<Rightarrow> FillEvent" where
  "polled_event str_of dec now c info =
     from_payload str_of dec now (dict_set (dict_set info ''client_order_id'' (PStr c)) ''cumulative'' (PBool True))"

definition poll_one ::
  "(pyval \<Rightarrow> string) \<Rightarrow> (pyval \<Rightarrow> rat option) \<Rightarrow> (rat \<Rightarrow> string) \<Rightarrow> time \<Rightarrow> (string \<Rightarrow> unit + (string, pyval) dict option) \<Rightarrow> string \<Rightarrow> tracked \<Rightarrow>
   FillEvent list \<times> tracked" where
  "poll_one str_of dec qtext now ans c t =
     (case ans c of
        Inl _ \<Rightarrow> ([], t)
      | Inr None \<Rightarrow> ([], t)
      | Inr (Some info) \<Rightarrow>
          if info = [] then ([], t)
          else if dict_get t c = Some (Some (poll_signature str_of dec qtext info)) then ([], t)
          else
            (let t1 = dict_set t c (Some (poll_signature str_of dec qtext info)); ev = polled_event str_of dec now c info in
             ([ev], if kind ev \<in> {Some K_FILL, Some K_CANCELED, Some K_REJECTED, Some K_EXPIRED} then ps_untrack c t1 else t1)))"

definition ps_poll ::
  "(pyval \<Rightarrow> string) \<Rightarrow> (pyval \<Rightarrow> rat option) \<Rightarrow> (rat \<Rightarrow> string) \<Rightarrow> time \<Rightarrow> (string \<Rightarrow> unit + (string, pyval) dict option) \<Rightarrow> tracked \<Rightarrow>
   FillEvent list \<times> tracked" where
  "ps_poll str_of dec qtext now ans t =
     foldl (\<lambda>(out, t) c. case poll_one str_of dec qtext now ans c t of (evs, t') \<Rightarrow> (out @ evs, t')) ([], t) (dict_keys t)"

subsection \<open>The handler\<close>

record FillState =
  fs_cum :: rat
  fs_notional :: rat
  fs_avg :: "rat option"
  fs_terminal :: bool

definition init_FillState :: FillState where
  "init_FillState = \<lparr>fs_cum = 0, fs_notional = 0, fs_avg = None, fs_terminal = False\<rparr>"

record FillHandler =
  fh_engine :: Engine
  fh_state :: "(string, FillState) dict"

record fill_notice =
  fn_client :: string
  fn_broker :: "string option"
  fn_symbol :: string
  fn_side :: string
  fn_status :: OrderStatus
  fn_filled :: rat
  fn_increment :: rat
  fn_leaves :: rat
  fn_avg :: "rat option"
  fn_ts :: time
  fn_child :: bool

fun KIND_TO_STATUS :: "event_kind \<Rightarrow> OrderStatus" where
  "KIND_TO_STATUS K_NEW = O_SUBMITTED"
| "KIND_TO_STATUS K_ACCEPTED = O_ACCEPTED"
| "KIND_TO_STATUS K_REPLACED = O_ACCEPTED"
| "KIND_TO_STATUS K_PARTIAL = O_PARTIALLY_FILLED"
| "KIND_TO_STATUS K_FILL = O_FILLED"
| "KIND_TO_STATUS K_CANCELED = O_CANCELLED"
| "KIND_TO_STATUS K_REJECTED = O_REJECTED"
| "KIND_TO_STATUS K_EXPIRED = O_EXPIRED"

definition state_of :: "FillHandler \<Rightarrow> string \<Rightarrow> FillState" where
  "state_of h c = (case dict_get (fh_state h) c of None \<Rightarrow> init_FillState | Some st \<Rightarrow> st)"

definition fh_filled_quantity :: "FillHandler \<Rightarrow> string \<Rightarrow> rat" where
  "fh_filled_quantity h c = fs_cum (state_of h c)"

definition fh_leaves :: "(rat \<Rightarrow> rat) \<Rightarrow> FillHandler \<Rightarrow> string \<Rightarrow> rat" where
  "fh_leaves ctx h c =
     (case get_order_by_client_id c (fh_engine h) of
        None \<Rightarrow> 0
      | Some x \<Rightarrow> let r = ctx (quantity x - fh_filled_quantity h c) in if r > 0 then r else 0)"

definition fh_avg_fill_price :: "FillHandler \<Rightarrow> string \<Rightarrow> rat option" where
  "fh_avg_fill_price h c = fs_avg (state_of h c)"

definition fill_amount :: "(rat \<Rightarrow> rat) \<Rightarrow> Order \<Rightarrow> FillEvent \<Rightarrow> FillState \<Rightarrow> rat \<times> rat" where
  "fill_amount ctx x ev st =
     (let (inc, new) =
        (if fe_cumulative ev \<and> fe_filled ev \<noteq> None then (ctx (the (fe_filled ev) - fs_cum st), the (fe_filled ev))
         else case fe_last_qty ev of
             Some l \<Rightarrow> (l, ctx (fs_cum st + l))
           | None \<Rightarrow> (case fe_filled ev of Some q \<Rightarrow> (ctx (q - fs_cum st), q) | None \<Rightarrow> (ctx (quantity x - fs_cum st), quantity x))) in
      if inc < 0 then (0, fs_cum st) else (inc, new))"

definition book_fill :: "(rat \<Rightarrow> rat) \<Rightarrow> Order \<Rightarrow> FillEvent \<Rightarrow> FillState \<Rightarrow> rat \<times> FillState" where
  "book_fill ctx x ev st =
     (let (inc, new) = fill_amount ctx x ev st in
      (inc,
       case fe_avg ev of
         Some price \<Rightarrow> st\<lparr>fs_cum := new, fs_avg := Some price, fs_notional := ctx (price * new)\<rparr>
       | None \<Rightarrow>
           (let n = (case fe_last_price ev of Some p \<Rightarrow> if inc > 0 then ctx (fs_notional st + ctx (p * inc)) else fs_notional st | None \<Rightarrow> fs_notional st) in
            st\<lparr>fs_notional := n, fs_cum := new, fs_avg := (if new > 0 then Some (ctx (n / new)) else fs_avg st)\<rparr>)))"

definition final_status :: "event_kind \<Rightarrow> rat \<Rightarrow> rat \<Rightarrow> OrderStatus" where
  "final_status k qty cum =
     (if k = K_FILL \<and> qty > 0 \<and> cum < qty then (if cum > 0 then O_PARTIALLY_FILLED else O_ACCEPTED)
      else if k = K_PARTIAL \<and> qty > 0 \<and> cum \<ge> qty then O_FILLED
      else KIND_TO_STATUS k)"

text \<open>The result, the notice if there is one, and the handler.\<close>

definition handle_event ::
  "ex_env \<Rightarrow> time \<times> time \<times> time \<Rightarrow> FillEvent \<Rightarrow> FillHandler \<Rightarrow> Order option \<times> fill_notice list \<times> FillHandler" where
  "handle_event X clk ev h =
     (case get_order_by_client_id (fe_client ev) (fh_engine h) of
        None \<Rightarrow> (None, [], h)
      | Some x \<Rightarrow>
          (let st = state_of h (fe_client ev); put = (\<lambda>st. dict_set (fh_state h) (fe_client ev) st) in
           if fs_terminal st then (Some x, [], h\<lparr>fh_state := put st\<rparr>)
           else
             (case kind ev of
                None \<Rightarrow> (Some x, [], h\<lparr>fh_state := put st\<rparr>)
              | Some k \<Rightarrow>
                  (let (inc, st1) = (if k = K_PARTIAL \<or> k = K_FILL then book_fill (x_ctx X) x ev st else (0, st));
                       status = final_status k (quantity x) (fs_cum st1);
                       st2 = st1\<lparr>fs_terminal := (status \<in> set closed_statuses)\<rparr>;
                       (upd, e) = update_order_status X (fst clk) (fst (snd clk)) (snd (snd clk)) (fe_client ev) status
                         (if fs_cum st1 > 0 then Some (fs_cum st1) else None) (fs_avg st1) (fe_broker ev) (fe_error ev) (fh_engine h);
                       leaves = (if quantity x > fs_cum st1 then x_ctx X (quantity x - fs_cum st1) else 0) in
                   (upd,
                    [\<lparr>fn_client = fe_client ev, fn_broker = fe_broker ev, fn_symbol = o_symbol x, fn_side = o_side x, fn_status = status,
                      fn_filled = fs_cum st1, fn_increment = inc, fn_leaves = leaves, fn_avg = fs_avg st1, fn_ts = fe_ts ev,
                      fn_child = (k = K_PARTIAL \<or> k = K_FILL)\<rparr>],
                    h\<lparr>fh_state := put st2, fh_engine := e\<rparr>)))))"

fun handle_events ::
  "ex_env \<Rightarrow> (nat \<Rightarrow> time \<times> time \<times> time) \<Rightarrow> FillEvent list \<Rightarrow> nat \<Rightarrow> FillHandler \<Rightarrow> int \<times> fill_notice list \<times> FillHandler" where
  "handle_events X clk [] n h = (0, [], h)"
| "handle_events X clk (ev # evs) n h =
     (case handle_event X (clk n) ev h of
        (r, ns, h1) \<Rightarrow> (case handle_events X clk evs (Suc n) h1 of
          (i, ns', h2) \<Rightarrow> ((if r = None then 0 else 1) + i, ns @ ns', h2)))"

text \<open>\<^verbatim>\<open>consume\<close>: at most \<open>max 1 max_batches\<close> polls, an empty one ends it.\<close>

fun consume_loop ::
  "ex_env \<Rightarrow> (nat \<Rightarrow> time \<times> time \<times> time) \<Rightarrow> ('s \<Rightarrow> FillEvent list \<times> 's) \<Rightarrow> nat \<Rightarrow> nat \<Rightarrow> 's \<Rightarrow> FillHandler \<Rightarrow> int \<times> fill_notice list \<times> 's \<times> FillHandler" where
  "consume_loop X clk poll 0 n src h = (0, [], src, h)"
| "consume_loop X clk poll (Suc b) n src h =
     (case poll src of
        ([], src1) \<Rightarrow> (0, [], src1, h)
      | (evs, src1) \<Rightarrow> (case handle_events X clk evs n h of
          (i, ns, h1) \<Rightarrow> (case consume_loop X clk poll b (n + length evs) src1 h1 of
            (j, ns', src2, h2) \<Rightarrow> (i + j, ns @ ns', src2, h2))))"

definition consume ::
  "ex_env \<Rightarrow> (nat \<Rightarrow> time \<times> time \<times> time) \<Rightarrow> ('s \<Rightarrow> FillEvent list \<times> 's) \<Rightarrow> int \<Rightarrow> 's \<Rightarrow> FillHandler \<Rightarrow> int \<times> fill_notice list \<times> 's \<times> FillHandler" where
  "consume X clk poll max_batches src h = consume_loop X clk poll (nat (max 1 max_batches)) 0 src h"

subsection \<open>The ledger as the handler's callback\<close>

definition notice_payload :: "fill_notice \<Rightarrow> fill_payload" where
  "notice_payload n = \<lparr>pl_client = fn_client n, pl_broker = fn_broker n, pl_symbol = Some (fn_symbol n), pl_side = Some (fn_side n),
     pl_filled = fn_filled n, pl_increment = Some (fn_increment n), pl_price = fn_avg n\<rparr>"

definition book_notices :: "(rat \<Rightarrow> rat) \<Rightarrow> time \<Rightarrow> fill_notice list \<Rightarrow> (string, rat) dict \<times> PnLLedger \<Rightarrow> (string, rat) dict \<times> PnLLedger" where
  "book_notices ctx now ns S = foldl (\<lambda>S n. snd (ledger_fill_callback ctx now (notice_payload n) S)) S ns"

subsection \<open>Quantities\<close>

lemma state_of_set: "state_of (h\<lparr>fh_state := dict_set (fh_state h) c st\<rparr>) = (state_of h)(c := st)"
  "state_of (h\<lparr>fh_state := dict_set (fh_state h) c st, fh_engine := e\<rparr>) = (state_of h)(c := st)"
  by (auto simp: state_of_def fun_eq_iff)

lemma fill_amount_exact:
  "fill_amount exact x ev st = (inc, new) \<Longrightarrow> 0 \<le> inc \<and> new = fs_cum st + inc"
  by (auto simp: fill_amount_def exact_def Let_def split: if_splits option.splits prod.splits)

lemma book_fill_exact:
  assumes "book_fill exact x ev st = (inc, st1)"
  shows "0 \<le> inc \<and> fs_cum st1 = fs_cum st + inc \<and> fs_terminal st1 = fs_terminal st \<and> (fs_cum st1 > 0 \<longrightarrow> fs_avg st1 \<noteq> None)"
proof -
  obtain i new where a: "fill_amount exact x ev st = (i, new)" by (cases "fill_amount exact x ev st")
  with fill_amount_exact [OF a] assms show ?thesis by (auto simp: book_fill_def Let_def split: option.splits)
qed

definition booked_for :: "string \<Rightarrow> fill_notice list \<Rightarrow> rat" where
  "booked_for c ns = sum_list (map fn_increment (filter (\<lambda>n. fn_client n = c) ns))"

lemma booked_for_append [simp]: "booked_for c (ns @ ns') = booked_for c ns + booked_for c ns'"
  by (simp add: booked_for_def)

text \<open>What one event does: nothing, or one notice that books what was added.\<close>

inductive event_effect :: "ex_env \<Rightarrow> FillHandler \<Rightarrow> FillEvent \<Rightarrow> fill_notice list \<Rightarrow> FillHandler \<Rightarrow> bool" for X h ev where
  ignored: "state_of h' = state_of h \<Longrightarrow> fh_engine h' = fh_engine h \<Longrightarrow> event_effect X h ev [] h'"
| booked: "get_order_by_client_id (fe_client ev) (fh_engine h) = Some x \<Longrightarrow> \<not> fs_terminal (state_of h (fe_client ev)) \<Longrightarrow> kind ev = Some k \<Longrightarrow>
    (inc, st1) = (if k = K_PARTIAL \<or> k = K_FILL then book_fill (x_ctx X) x ev (state_of h (fe_client ev)) else (0, state_of h (fe_client ev))) \<Longrightarrow>
    st2 = st1\<lparr>fs_terminal := (fn_status n \<in> set closed_statuses)\<rparr> \<Longrightarrow> fn_status n = final_status k (quantity x) (fs_cum st1) \<Longrightarrow>
    fn_client n = fe_client ev \<Longrightarrow> fn_symbol n = o_symbol x \<Longrightarrow> fn_side n = o_side x \<Longrightarrow> fn_increment n = inc \<Longrightarrow> fn_avg n = fs_avg st1 \<Longrightarrow> fn_filled n = fs_cum st1 \<Longrightarrow>
    state_of h' = (state_of h)(fe_client ev := st2) \<Longrightarrow>
    fh_engine h' = snd (update_order_status X t1 t2 t3 (fe_client ev) (fn_status n) (if fs_cum st1 > 0 then Some (fs_cum st1) else None) (fs_avg st1) b err (fh_engine h)) \<Longrightarrow>
    event_effect X h ev [n] h'"

lemma handle_event_effect: "handle_event X clk ev h = (r, ns, h') \<Longrightarrow> event_effect X h ev ns h'"
proof -
  assume run: "handle_event X clk ev h = (r, ns, h')"
  let ?c = "fe_client ev"
  have keep: "event_effect X h ev [] (h\<lparr>fh_state := dict_set (fh_state h) ?c (state_of h ?c)\<rparr>)"
    by (rule ignored) (simp_all add: state_of_set)
  show ?thesis
  proof (cases "get_order_by_client_id ?c (fh_engine h)")
    case None
    with run show ?thesis by (auto simp: handle_event_def intro: ignored)
  next
    case (Some x)
    show ?thesis
    proof (cases "fs_terminal (state_of h ?c)")
      case True
      with run Some keep show ?thesis by (simp add: handle_event_def Let_def)
    next
      case act: False
      show ?thesis
      proof (cases "kind ev")
        case None
        with run Some act keep show ?thesis by (simp add: handle_event_def Let_def)
      next
        case (Some k)
        obtain inc st1 where b: "(if k = K_PARTIAL \<or> k = K_FILL then book_fill (x_ctx X) x ev (state_of h ?c) else (0, state_of h ?c)) = (inc, st1)"
          by (meson surj_pair)
        obtain upd e where u: "update_order_status X (fst clk) (fst (snd clk)) (snd (snd clk)) ?c (final_status k (quantity x) (fs_cum st1))
            (if fs_cum st1 > 0 then Some (fs_cum st1) else None) (fs_avg st1) (fe_broker ev) (fe_error ev) (fh_engine h) = (upd, e)" by (meson surj_pair)
        show ?thesis
          using run \<open>get_order_by_client_id ?c (fh_engine h) = Some x\<close> act Some b u
          by (auto simp: handle_event_def Let_def state_of_set
              intro!: booked [where ?t1.0 = "fst clk" and ?t2.0 = "fst (snd clk)" and ?t3.0 = "snd (snd clk)" and b = "fe_broker ev" and err = "fe_error ev"])
      qed
    qed
  qed
qed

text \<open>No unfilled order has a price of its own, no filled one lacks it.\<close>

definition priced :: "FillHandler \<Rightarrow> bool" where
  "priced h \<longleftrightarrow> (\<forall>c. 0 \<le> fs_cum (state_of h c) \<and> (fs_cum (state_of h c) > 0 \<longrightarrow> fs_avg (state_of h c) \<noteq> None))"

definition order_terms :: "Engine \<Rightarrow> string \<Rightarrow> (string \<times> string) option" where
  "order_terms e c = map_option (\<lambda>x. (o_symbol x, o_side x)) (get_order_by_client_id c e)"

lemma new_status_terms: "o_symbol (new_status st q p b err t x) = o_symbol x" "o_side (new_status st q p b err t x) = o_side x"
  by (simp_all add: new_status_def Let_def)

lemma terms_list_update:
  assumes "f y = f (xs ! a)"
  shows "f (xs[a := y] ! i) = f (xs ! i)"
  using assms by (cases "a < length xs") (auto simp: nth_list_update list_update_beyond)

lemma order_terms_update: "order_terms (snd (update_order_status X t1 t2 t3 c st q p b err e)) = order_terms e"
proof (cases "dict_get (orders_by_client_id e) c")
  case (Some a)
  have "(o_symbol (xs[a := new_status st q p b err t1 (xs ! a)] ! i), o_side (xs[a := new_status st q p b err t1 (xs ! a)] ! i)) = (o_symbol (xs ! i), o_side (xs ! i))" for xs i
    by (rule terms_list_update [where f = "\<lambda>x. (o_symbol x, o_side x)"]) (simp add: new_status_terms)
  then have same: "o_symbol (xs[a := new_status st q p b err t1 (xs ! a)] ! i) = o_symbol (xs ! i)" "o_side (xs[a := new_status st q p b err t1 (xs ! a)] ! i) = o_side (xs ! i)" for xs i
    by auto
  show ?thesis
    by (rule ext) (simp add: order_terms_def get_order_by_client_id_def update_order_status_def Some Let_def option.map_comp comp_def same split: option.splits)
qed (simp add: update_order_status_def)

lemma orders_update: "orders_by_client_id (snd (update_order_status X t1 t2 t3 c st q p b err e)) = orders_by_client_id e"
  by (simp add: update_order_status_def Let_def split: option.splits)

definition notice_ok :: "FillHandler \<Rightarrow> fill_notice \<Rightarrow> bool" where
  "notice_ok h n \<longleftrightarrow> 0 \<le> fn_increment n \<and> (fn_increment n > 0 \<longrightarrow> fn_avg n \<noteq> None) \<and> order_terms (fh_engine h) (fn_client n) = Some (fn_symbol n, fn_side n)"

lemma effect_exact:
  assumes "event_effect X h ev ns h'" and "x_ctx X = exact" and "priced h"
  shows "fs_cum (state_of h' c) = fs_cum (state_of h c) + booked_for c ns \<and>
    (fs_terminal (state_of h c) \<longrightarrow> state_of h' c = state_of h c \<and> c \<notin> fn_client ` set ns) \<and>
    priced h' \<and> (\<forall>n \<in> set ns. notice_ok h n) \<and> order_terms (fh_engine h') = order_terms (fh_engine h) \<and>
    orders_by_client_id (fh_engine h') = orders_by_client_id (fh_engine h)"
  using assms(1)
proof cases
  case ignored
  with assms(3) show ?thesis by (simp add: booked_for_def priced_def)
next
  case (booked x k inc st1 st2 n t1 t2 t3 b err)
  have st1: "0 \<le> inc \<and> fs_cum st1 = fs_cum (state_of h (fe_client ev)) + inc \<and> (fs_cum st1 > 0 \<longrightarrow> fs_avg st1 \<noteq> None)"
    using booked(5) assms(2,3) book_fill_exact [of x ev "state_of h (fe_client ev)" inc st1] by (auto simp: priced_def split: if_splits)
  have old: "0 \<le> fs_cum (state_of h (fe_client ev))" using assms(3) by (simp add: priced_def)
  have "notice_ok h n" using booked st1 old by (auto simp: notice_ok_def order_terms_def)
  moreover have "priced h'" using booked(6,14) st1 old assms(3) by (auto simp: priced_def)
  moreover have "fs_cum (state_of h' c) = fs_cum (state_of h c) + booked_for c ns"
    using booked(1,6,8,11,14) st1 by (auto simp: booked_for_def)
  ultimately show ?thesis using booked(1,3,8,14,15) by (auto simp: order_terms_update orders_update)
qed

lemma handle_events_exact:
  assumes "x_ctx X = exact" and "priced h" and "handle_events X clk evs n h = (i, ns, h')"
  shows "fs_cum (state_of h' c) = fs_cum (state_of h c) + booked_for c ns \<and>
    (fs_terminal (state_of h c) \<longrightarrow> state_of h' c = state_of h c \<and> c \<notin> fn_client ` set ns) \<and>
    priced h' \<and> (\<forall>n \<in> set ns. notice_ok h n) \<and> order_terms (fh_engine h') = order_terms (fh_engine h) \<and>
    orders_by_client_id (fh_engine h') = orders_by_client_id (fh_engine h)"
  using assms(2,3)
proof (induction evs arbitrary: n h i ns h')
  case Nil
  then show ?case by (simp add: booked_for_def)
next
  case (Cons ev evs)
  obtain r ns1 h1 where e: "handle_event X (clk n) ev h = (r, ns1, h1)" by (metis prod_cases3)
  obtain j ns2 h2 where es: "handle_events X clk evs (Suc n) h1 = (j, ns2, h2)" by (metis prod_cases3)
  have ns: "ns = ns1 @ ns2" "h' = h2" using Cons.prems(2) by (auto simp: e es)
  note 1 = effect_exact [OF handle_event_effect [OF e] assms(1) Cons.prems(1)]
  have "priced h1" using 1 by blast
  note 2 = Cons.IH [OF this es]
  have ok: "\<And>m. notice_ok h1 m = notice_ok h m" using 1 by (simp add: notice_ok_def)
  show ?case using 1 [of c] 2 ok unfolding ns booked_for_append by (auto simp: add.assoc)
qed

text \<open>A fresh order and an event about one execution, for the examples.\<close>

definition execution :: "string \<Rightarrow> rat \<Rightarrow> rat \<Rightarrow> FillEvent" where
  "execution c q p = \<lparr>fe_client = c, fe_type = ''partial_fill'', fe_filled = None, fe_avg = None, fe_last_qty = Some q, fe_last_price = Some p,
     fe_broker = None, fe_cumulative = False, fe_ts = 0, fe_error = None\<rparr>"

definition sample_handler :: FillHandler where
  "sample_handler = \<lparr>fh_engine = (sample_engine 5)\<lparr>e_heap := [(blank_order ''o1'' 0)\<lparr>client_order_id := ''c1'', o_symbol := ''AAPL'', quantity := 3\<rparr>],
     orders_by_client_id := [(''c1'', 0)]\<rparr>, fh_state = []\<rparr>"

lemma sample_X_exact: "x_ctx sample_X = exact"
  by (simp add: sample_X_def exact_def fun_eq_iff)

lemma sample_handler_ok:
  "priced sample_handler" "order_terms (fh_engine sample_handler) c = (if c = ''c1'' then Some (''AAPL'', ''buy'') else None)"
  by (simp_all add: sample_handler_def priced_def state_of_def init_FillState_def order_terms_def get_order_by_client_id_def blank_order_def)

text \<open>
  C19: every fill is counted once.  With exact arithmetic, for any sequence of broker events in any order,
  duplicated, stale, unknown or contradictory: the filled quantity of every order is what it was plus the
  sum of the increments that were reported to the ledger for it, no increment is negative, each notice
  carries the symbol and side of the order it is about; and once an order is filled, cancelled, rejected or
  expired nothing about it changes and nothing is reported for it any more.
\<close>

theorem fills_counted_once:
  assumes "x_ctx X = exact" and "priced h" and "handle_events X clk evs n h = (i, ns, h')"
  shows "fh_filled_quantity h' c = fh_filled_quantity h c + booked_for c ns \<and>
    (\<forall>m \<in> set ns. 0 \<le> fn_increment m \<and> order_terms (fh_engine h') (fn_client m) = Some (fn_symbol m, fn_side m)) \<and>
    (fs_terminal (state_of h c) \<longrightarrow> state_of h' c = state_of h c \<and> c \<notin> fn_client ` set ns)"
  using handle_events_exact [OF assms, of c] by (auto simp: fh_filled_quantity_def notice_ok_def)

theorem fills_counted_once_witness:
  "case handle_events sample_X (\<lambda>_. (0, 0, 0)) [execution ''c1'' 1 10, execution ''c1'' 1 20] 0 sample_handler of
     (i, ns, h') \<Rightarrow> fh_filled_quantity h' ''c1'' = fh_filled_quantity sample_handler ''c1'' + booked_for ''c1'' ns"
proof -
  obtain i ns h' where run: "handle_events sample_X (\<lambda>_. (0, 0, 0)) [execution ''c1'' 1 10, execution ''c1'' 1 20] 0 sample_handler = (i, ns, h')"
    by (metis prod_cases3)
  from fills_counted_once [OF sample_X_exact sample_handler_ok(1) this, of "''c1''"] run show ?thesis by simp
qed

subsection \<open>Positions\<close>

text \<open>The position that the filled quantities of the orders make up.\<close>

definition filled_signed :: "FillHandler \<Rightarrow> string \<Rightarrow> string \<Rightarrow> rat" where
  "filled_signed h s c =
     (case order_terms (fh_engine h) c of
        None \<Rightarrow> 0
      | Some (sy, sd) \<Rightarrow> if sy = s then (if sd = ''buy'' then fh_filled_quantity h c else - fh_filled_quantity h c) else 0)"

definition filled_position :: "FillHandler \<Rightarrow> string \<Rightarrow> rat" where
  "filled_position h s = (\<Sum>c \<in> dom (dict_get (orders_by_client_id (fh_engine h))). filled_signed h s c)"

definition notice_signed :: "string \<Rightarrow> fill_notice \<Rightarrow> rat" where
  "notice_signed s n = (if fn_symbol n = s then (if fn_side n = ''buy'' then fn_increment n else - fn_increment n) else 0)"

lemma notice_payload_sel:
  "pl_client (notice_payload n) = fn_client n" "pl_broker (notice_payload n) = fn_broker n" "pl_symbol (notice_payload n) = Some (fn_symbol n)"
  "pl_side (notice_payload n) = Some (fn_side n)" "pl_increment (notice_payload n) = Some (fn_increment n)" "pl_price (notice_payload n) = fn_avg n"
  by (simp_all add: notice_payload_def)

definition notice_fill :: "time \<Rightarrow> fill_notice \<Rightarrow> rat \<Rightarrow> Fill" where
  "notice_fill now n p = \<lparr>fl_symbol = fn_symbol n, fl_side = fn_side n, fl_quantity = fn_increment n, fl_price = p, fl_fee = 0, fl_ts = now,
     fl_client = (if fn_client n = [] then None else Some (fn_client n)), fl_broker = fn_broker n\<rparr>"

lemma callback_books:
  assumes "ledger_inv (snd S)" and "fn_increment n > 0" and "fn_avg n = Some p" and "fn_side n = ''buy'' \<or> fn_side n = ''sell''" and "fn_symbol n \<noteq> []"
  shows "\<exists>L1 q. snd (ledger_fill_callback exact now (notice_payload n) S) = (fst S, L1) \<and> ledger_inv L1 \<and> booked_as (notice_fill now n p) (snd S) q L1"
proof -
  have low: "lower (fn_side n) = fn_side n" using assms(4) by (auto simp: lower_def lower_char_def)
  from apply_fill_exact [OF assms(1), of "notice_fill now n p" True] assms(2) obtain b L1 q where
    run: "apply_fill exact True (notice_fill now n p) (snd S) = (Inr b, L1)" "ledger_inv L1" "booked_as (notice_fill now n p) (snd S) q L1" by (auto simp: notice_fill_def)
  have "on_fill exact (fn_symbol n) (fn_side n) (fn_increment n) p 0 now (if fn_client n = [] then None else Some (fn_client n)) (fn_broker n) (snd S) = (Inr b, L1)"
    using assms(2,4) run(1) by (auto simp: on_fill_def low Let_def notice_fill_def)
  then have "snd (ledger_fill_callback exact now (notice_payload n) S) = (fst S, L1)"
    using assms by (auto simp: ledger_fill_callback_def notice_payload_sel split: if_splits)
  with run(2,3) show ?thesis by blast
qed

lemma callback_position:
  assumes "ledger_inv (snd S)" and "0 \<le> fn_increment n" and "fn_increment n > 0 \<longrightarrow> fn_avg n \<noteq> None"
    and "fn_side n = ''buy'' \<or> fn_side n = ''sell''" and "fn_symbol n \<noteq> []"
    and S'_def: "S' = snd (ledger_fill_callback exact now (notice_payload n) S)"
  shows "ledger_inv (snd S') \<and> lp_quantity (position_at (snd S') s) = lp_quantity (position_at (snd S) s) + notice_signed s n"
proof (cases "fn_increment n > 0")
  case False
  then have "fn_increment n = 0" using assms(2) by simp
  with assms(1,4,5) show ?thesis
    by (auto simp: S'_def ledger_fill_callback_def notice_payload_sel notice_signed_def split: option.splits)
next
  case True
  then obtain p where p: "fn_avg n = Some p" using assms(3) by auto
  from callback_books [OF assms(1) True p assms(4,5), of now] obtain L1 q where
    run: "S' = (fst S, L1)" "ledger_inv L1" "booked_as (notice_fill now n p) (snd S) q L1" by (auto simp: S'_def)
  have at: "position_at L1 = (position_at (snd S))(fn_symbol n := q)"
    by (rule position_at_set) (use run(3) in \<open>simp add: booked_as_def Let_def notice_fill_def\<close>)
  have "lp_quantity (set_default (lg_positions (snd S)) (fn_symbol n) (new_position_at p)) = lp_quantity (position_at (snd S) (fn_symbol n))"
    by (simp add: position_at_def set_default_def split: option.splits)
  then have "lp_quantity q = lp_quantity (position_at (snd S) (fn_symbol n)) + notice_signed (fn_symbol n) n"
    using run(3) by (simp add: booked_as_def Let_def signed_qty_def notice_signed_def exact_def notice_fill_def)
  with run(1,2) show ?thesis by (auto simp: at notice_signed_def)
qed

lemma callback_cash:
  assumes "ledger_inv (snd S)" and "fn_increment n > 0" and "fn_avg n = Some p" and "fn_side n = ''buy''" and "fn_symbol n \<noteq> []"
  shows "ledger_inv (snd (snd (ledger_fill_callback exact now (notice_payload n) S))) \<and>
    lg_cash (snd (snd (ledger_fill_callback exact now (notice_payload n) S))) = lg_cash (snd S) - fn_increment n * p"
  using callback_books [OF assms(1-3) disjI1 [OF assms(4)] assms(5), of now] assms(4)
  by (auto simp: booked_as_def Let_def notice_fill_def signed_qty_def)

lemma book_notices_position:
  assumes "ledger_inv (snd S)" and "\<forall>n \<in> set ns. notice_ok h n"
    and "\<forall>c sy sd. order_terms (fh_engine h) c = Some (sy, sd) \<longrightarrow> sy \<noteq> [] \<and> (sd = ''buy'' \<or> sd = ''sell'')"
  shows "ledger_inv (snd (book_notices exact now ns S)) \<and>
    lp_quantity (position_at (snd (book_notices exact now ns S)) s) = lp_quantity (position_at (snd S) s) + sum_list (map (notice_signed s) ns)"
  using assms(1,2)
proof (induction ns arbitrary: S)
  case Nil
  then show ?case by (simp add: book_notices_def)
next
  case (Cons n ns)
  define S1 where "S1 = snd (ledger_fill_callback exact now (notice_payload n) S)"
  have one: "ledger_inv (snd S1) \<and> lp_quantity (position_at (snd S1) s) = lp_quantity (position_at (snd S) s) + notice_signed s n"
    using Cons.prems assms(3) by (intro callback_position [OF _ _ _ _ _ S1_def]) (auto simp: notice_ok_def)
  have "book_notices exact now (n # ns) S = book_notices exact now ns S1" by (simp add: book_notices_def S1_def)
  with Cons.IH [of S1] one Cons.prems(2) show ?case by (simp add: add.assoc)
qed

text \<open>The increments, summed by order.\<close>

lemma notices_by_order:
  assumes "finite C" and "\<forall>n \<in> set ns. fn_client n \<in> C \<and> T (fn_client n) = Some (fn_symbol n, fn_side n)"
  shows "sum_list (map (notice_signed s) ns) =
    (\<Sum>c \<in> C. case T c of None \<Rightarrow> 0 | Some (sy, sd) \<Rightarrow> if sy = s then (if sd = ''buy'' then booked_for c ns else - booked_for c ns) else 0)"
  using assms(2)
proof (induction ns)
  case Nil
  have "(\<Sum>c \<in> C. case T c of None \<Rightarrow> 0 | Some (sy, sd) \<Rightarrow> if sy = s then (if sd = ''buy'' then booked_for c [] else - booked_for c []) else (0 :: rat)) = (\<Sum>c \<in> C. 0)"
    by (intro sum.cong) (auto simp: booked_for_def split: option.splits)
  then show ?case by simp
next
  case (Cons n ns)
  let ?g = "\<lambda>c ns. case T c of None \<Rightarrow> 0 | Some (sy, sd) \<Rightarrow> if sy = s then (if sd = ''buy'' then booked_for c ns else - booked_for c ns) else (0 :: rat)"
  have "?g c (n # ns) = ?g c ns + (if c = fn_client n then notice_signed s n else 0)" for c
    using Cons.prems by (auto simp: booked_for_def notice_signed_def split: option.splits)
  then have "(\<Sum>c \<in> C. ?g c (n # ns)) = (\<Sum>c \<in> C. ?g c ns) + (\<Sum>c \<in> C. if c = fn_client n then notice_signed s n else 0)"
    by (simp add: sum.distrib)
  also have "(\<Sum>c \<in> C. if c = fn_client n then notice_signed s n else 0) = notice_signed s n"
    using assms(1) Cons.prems by (simp add: sum.delta)
  finally show ?case using Cons by simp
qed

text \<open>
  C6: the ledger's positions are the filled orders.  The handler with the ledger's callback attached, exact
  arithmetic, any sequence of broker events: for every symbol the quantity in the ledger moves by exactly as
  much as the filled quantities of the orders in that symbol, buys counted positive and sells negative; so
  the two never drift apart, whatever the broker repeats, reorders or leaves out.
\<close>

theorem positions_follow_fills:
  assumes "x_ctx X = exact" and "priced h" and "ledger_inv (snd S)" and "handle_events X clk evs n h = (i, ns, h')"
    and "\<forall>c sy sd. order_terms (fh_engine h) c = Some (sy, sd) \<longrightarrow> sy \<noteq> [] \<and> (sd = ''buy'' \<or> sd = ''sell'')"
  shows "lp_quantity (position_at (snd (book_notices exact now ns S)) s) - filled_position h' s =
    lp_quantity (position_at (snd S) s) - filled_position h s"
proof -
  note run = handle_events_exact [OF assms(1,2,4)]
  let ?C = "dom (dict_get (orders_by_client_id (fh_engine h)))"
  have ok: "\<forall>m \<in> set ns. notice_ok h m" and same: "order_terms (fh_engine h') = order_terms (fh_engine h)" "orders_by_client_id (fh_engine h') = orders_by_client_id (fh_engine h)"
    using run by blast+
  have pos: "lp_quantity (position_at (snd (book_notices exact now ns S)) s) = lp_quantity (position_at (snd S) s) + sum_list (map (notice_signed s) ns)"
    using book_notices_position [OF assms(3) ok assms(5)] by blast
  have "\<forall>m \<in> set ns. fn_client m \<in> ?C \<and> order_terms (fh_engine h) (fn_client m) = Some (fn_symbol m, fn_side m)"
    using ok by (auto simp: notice_ok_def order_terms_def get_order_by_client_id_def)
  note sum = notices_by_order [OF finite_dom_map_of this, of s]
  have cum: "fh_filled_quantity h' c = fh_filled_quantity h c + booked_for c ns" for c using run by (simp add: fh_filled_quantity_def)
  have "filled_position h' s = filled_position h s + sum_list (map (notice_signed s) ns)"
    unfolding sum filled_position_def same filled_signed_def sum.distrib [symmetric]
    by (intro sum.cong) (auto simp: cum split: option.splits)
  with pos show ?thesis by simp
qed

theorem positions_follow_fills_witness:
  "case handle_events sample_X (\<lambda>_. (0, 0, 0)) [execution ''c1'' 1 10, execution ''c1'' 1 20] 0 sample_handler of
     (i, ns, h') \<Rightarrow> lp_quantity (position_at (snd (book_notices exact 0 ns ([], blank_ledger AVERAGE 1000 None))) ''AAPL'') - filled_position h' ''AAPL'' = 0"
proof -
  obtain i ns h' where run: "handle_events sample_X (\<lambda>_. (0, 0, 0)) [execution ''c1'' 1 10, execution ''c1'' 1 20] 0 sample_handler = (i, ns, h')"
    by (metis prod_cases3)
  have b: "ledger_inv (snd ([], blank_ledger AVERAGE 1000 None))" by (simp add: blank_inv)
  have z: "fh_filled_quantity sample_handler c = 0" for c by (simp add: fh_filled_quantity_def sample_handler_def state_of_def init_FillState_def)
  then have "filled_signed sample_handler ''AAPL'' c = 0" for c by (simp add: filled_signed_def z split: option.splits)
  then have f: "filled_position sample_handler ''AAPL'' = 0" "lp_quantity (position_at (blank_ledger AVERAGE 1000 None) ''AAPL'') = 0"
    by (simp_all add: filled_position_def position_at_def set_default_def blank_ledger_def)
  from positions_follow_fills [OF sample_X_exact sample_handler_ok(1) b run, of 0 "''AAPL''"] run f show ?thesis
    by (simp add: sample_handler_ok)
qed

subsection \<open>Prices\<close>

lemma quantity_update: "map_option quantity (get_order_by_client_id d (snd (update_order_status X t1 t2 t3 c st q p b err e))) = map_option quantity (get_order_by_client_id d e)"
proof (cases "dict_get (orders_by_client_id e) c")
  case (Some a)
  have same: "quantity (xs[a := new_status st q p b err t1 (xs ! a)] ! i) = quantity (xs ! i)" for xs i
    by (rule terms_list_update) (simp add: new_status_def Let_def)
  show ?thesis
    by (simp add: get_order_by_client_id_def update_order_status_def Some Let_def option.map_comp comp_def same split: option.splits)
qed (simp add: update_order_status_def)

lemma execution_kind: "kind (execution c q p) = Some K_PARTIAL" "fe_client (execution c q p) = c"
  by (simp_all add: kind_def execution_def lower_def lower_char_def EVENT_ALIASES_def)

lemma execution_booked:
  assumes "x_ctx X = exact" and "get_order_by_client_id c (fh_engine h) = Some x" and "state_of h c = \<lparr>fs_cum = a, fs_notional = m, fs_avg = v, fs_terminal = False\<rparr>"
    and "q > 0" and "a \<ge> 0" and "handle_event X clk (execution c q p) h = (r, ns, h')"
  shows "\<exists>n. ns = [n] \<and> fn_symbol n = o_symbol x \<and> fn_side n = o_side x \<and> fn_increment n = q \<and> fn_avg n = Some ((m + p * q) / (a + q)) \<and>
    state_of h' c = \<lparr>fs_cum = a + q, fs_notional = m + p * q, fs_avg = Some ((m + p * q) / (a + q)),
      fs_terminal = (final_status K_PARTIAL (quantity x) (a + q) \<in> set closed_statuses)\<rparr> \<and>
    (\<exists>x'. get_order_by_client_id c (fh_engine h') = Some x' \<and> o_symbol x' = o_symbol x \<and> o_side x' = o_side x \<and> quantity x' = quantity x)"
  using handle_event_effect [OF assms(6)]
proof cases
  case ignored
  with assms(2,3,6) show ?thesis by (auto simp: handle_event_def execution_kind Let_def split: prod.splits)
next
  case (booked y k inc st1 st2 n t1 t2 t3 b err)
  have e: "y = x" "k = K_PARTIAL" using booked(2,4) assms(2) by (simp_all add: execution_kind)
  have st1: "inc = q" "st1 = \<lparr>fs_cum = a + q, fs_notional = m + p * q, fs_avg = Some ((m + p * q) / (a + q)), fs_terminal = False\<rparr>"
    using booked(5) assms(1,3,4,5) e by (simp_all add: execution_kind book_fill_def fill_amount_def Let_def) (simp_all add: execution_def exact_def Let_def)
  have t: "order_terms (fh_engine h') c = Some (o_symbol x, o_side x)" "map_option quantity (get_order_by_client_id c (fh_engine h')) = Some (quantity x)"
    using booked(15) assms(2) by (simp_all add: order_terms_update quantity_update) (simp add: order_terms_def)
  then obtain x' where "get_order_by_client_id c (fh_engine h') = Some x'" "o_symbol x' = o_symbol x" "o_side x' = o_side x" "quantity x' = quantity x"
    by (auto simp: order_terms_def)
  then show ?thesis using booked e st1 by (simp add: execution_kind)
qed

text \<open>
  C31: what the ledger pays for partial fills.  A fresh buy order that is executed in two parts, \<open>q1\<close> at
  \<open>p1\<close> and \<open>q2\<close> at \<open>p2\<close>, with the ledger's callback attached: the handler reports the second part with the
  average price of both, so the ledger pays \<open>q1 * p1 + q2 * (q1 * p1 + q2 * p2) / (q1 + q2)\<close>, which is the
  real cost \<open>q1 * p1 + q2 * p2\<close> only if the two prices are equal.
\<close>

theorem partial_fills_booked_at_average:
  assumes "x_ctx X = exact" and "get_order_by_client_id c (fh_engine h) = Some x" and "state_of h c = init_FillState"
    and "o_side x = ''buy''" and "o_symbol x \<noteq> []" and "q1 > 0" and "q2 > 0" and "quantity x \<ge> q1 + q2" and "ledger_inv (snd S)"
    and "handle_events X clk [execution c q1 p1, execution c q2 p2] n h = (i, ns, h')"
  shows "lg_cash (snd (book_notices exact now ns S)) = lg_cash (snd S) - (q1 * p1 + q2 * ((q1 * p1 + q2 * p2) / (q1 + q2))) \<and>
    (lg_cash (snd S) - lg_cash (snd (book_notices exact now ns S)) = q1 * p1 + q2 * p2 \<longleftrightarrow> p1 = p2)"
proof -
  obtain r1 ns1 h1 where e1: "handle_event X (clk n) (execution c q1 p1) h = (r1, ns1, h1)" by (metis prod_cases3)
  obtain r2 ns2 h2 where e2: "handle_event X (clk (Suc n)) (execution c q2 p2) h1 = (r2, ns2, h2)" by (metis prod_cases3)
  have ns: "ns = ns1 @ ns2" using assms(10) by (simp add: e1 e2)
  from execution_booked [OF assms(1,2) _ assms(6) _ e1, of 0 0 None] assms(3) obtain n1 x1 where
    n1: "ns1 = [n1]" "fn_symbol n1 = o_symbol x" "fn_side n1 = o_side x" "fn_increment n1 = q1" "fn_avg n1 = Some ((0 + p1 * q1) / (0 + q1))"
    and st1: "state_of h1 c = \<lparr>fs_cum = 0 + q1, fs_notional = 0 + p1 * q1, fs_avg = Some ((0 + p1 * q1) / (0 + q1)),
      fs_terminal = (final_status K_PARTIAL (quantity x) (0 + q1) \<in> set closed_statuses)\<rparr>"
    and x1: "get_order_by_client_id c (fh_engine h1) = Some x1" "o_symbol x1 = o_symbol x" "o_side x1 = o_side x" "quantity x1 = quantity x"
    by (auto simp: init_FillState_def)
  have go: "(final_status K_PARTIAL (quantity x) (0 + q1) \<in> set closed_statuses) = False"
    using assms(6,7,8) by (simp add: final_status_def closed_statuses_def)
  from execution_booked [OF assms(1) x1(1) st1 [unfolded go] assms(7) _ e2] assms(6) obtain n2 where
    n2: "ns2 = [n2]" "fn_symbol n2 = o_symbol x" "fn_side n2 = o_side x" "fn_increment n2 = q2" "fn_avg n2 = Some ((0 + p1 * q1 + p2 * q2) / (0 + q1 + q2))"
    using x1 by auto
  define S1 where "S1 = snd (ledger_fill_callback exact now (notice_payload n1) S)"
  have c1: "ledger_inv (snd S1) \<and> lg_cash (snd S1) = lg_cash (snd S) - q1 * p1"
    unfolding S1_def using callback_cash [OF assms(9), of n1 p1 now] n1 assms(4-6) by simp
  have c2: "lg_cash (snd (snd (ledger_fill_callback exact now (notice_payload n2) S1))) = lg_cash (snd S1) - q2 * ((q1 * p1 + q2 * p2) / (q1 + q2))"
    using callback_cash [of S1 n2 "(q1 * p1 + q2 * p2) / (q1 + q2)" now] c1 n2 assms(4,5,7) by (simp add: mult.commute)
  have cash: "lg_cash (snd (book_notices exact now ns S)) = lg_cash (snd S) - (q1 * p1 + q2 * ((q1 * p1 + q2 * p2) / (q1 + q2)))"
    using c1 c2 by (simp add: book_notices_def ns n1(1) n2(1) S1_def)
  have "(q1 * p1 + q2 * p2) / (q1 + q2) = p2 \<longleftrightarrow> p1 = p2"
    using assms(6,7) by (simp add: divide_eq_eq add_eq_0_iff) (auto simp: algebra_simps)
  moreover have "q2 * ((q1 * p1 + q2 * p2) / (q1 + q2)) = q2 * p2 \<longleftrightarrow> (q1 * p1 + q2 * p2) / (q1 + q2) = p2"
    unfolding mult_left_cancel [OF less_imp_neq [OF assms(7), symmetric]] ..
  ultimately show ?thesis unfolding cash by auto
qed

theorem partial_fills_booked_at_average_witness:
  "case handle_events sample_X (\<lambda>_. (0, 0, 0)) [execution ''c1'' 1 10, execution ''c1'' 1 20] 0 sample_handler of
     (i, ns, h') \<Rightarrow> lg_cash (snd (book_notices exact 0 ns ([], blank_ledger AVERAGE 1000 None))) = 975"
proof -
  obtain i ns h' where run: "handle_events sample_X (\<lambda>_. (0, 0, 0)) [execution ''c1'' 1 10, execution ''c1'' 1 20] 0 sample_handler = (i, ns, h')"
    by (metis prod_cases3)
  let ?x = "(blank_order ''o1'' 0)\<lparr>client_order_id := ''c1'', o_symbol := ''AAPL'', quantity := 3\<rparr>"
  have x: "get_order_by_client_id ''c1'' (fh_engine sample_handler) = Some ?x" "state_of sample_handler ''c1'' = init_FillState"
    by (simp_all add: sample_handler_def get_order_by_client_id_def state_of_def)
  from partial_fills_booked_at_average [OF sample_X_exact x _ _ _ _ _ _ run, of "([], blank_ledger AVERAGE 1000 None)" 0] run show ?thesis
    by (simp add: blank_inv) (simp add: blank_order_def blank_ledger_def)
qed

text \<open>A fill that the broker reports without any price is booked at zero.\<close>

lemma unpriced_fill_costs_nothing:
  assumes "fill_amount exact x ev init_FillState = (q, q)" and "q > 0" and "fe_avg ev = None" and "fe_last_price ev = None"
  shows "book_fill exact x ev init_FillState = (q, \<lparr>fs_cum = q, fs_notional = 0, fs_avg = Some 0, fs_terminal = False\<rparr>)"
  using assms by (simp add: book_fill_def init_FillState_def exact_def)

subsection \<open>The polling source\<close>

definition silent :: "(pyval \<Rightarrow> string) \<Rightarrow> (pyval \<Rightarrow> rat option) \<Rightarrow> (rat \<Rightarrow> string) \<Rightarrow> time \<Rightarrow> (string \<Rightarrow> unit + (string, pyval) dict option) \<Rightarrow> tracked \<Rightarrow> string \<Rightarrow> bool" where
  "silent str_of dec qt now ans t c \<longleftrightarrow> poll_one str_of dec qt now ans c t = ([], t)"

lemma silent_iff:
  "silent str_of dec qt now ans t c \<longleftrightarrow>
     (case ans c of Inr (Some info) \<Rightarrow> info = [] \<or> dict_get t c = Some (Some (poll_signature str_of dec qt info)) | _ \<Rightarrow> True)"
  by (simp add: silent_def poll_one_def Let_def split: sum.splits option.splits)

lemma silent_cong: "dict_get t c = dict_get t' c \<Longrightarrow> silent str_of dec qt now ans t c = silent str_of dec qt now' ans t' c"
  unfolding silent_iff by (simp split: sum.splits option.splits)

lemma poll_one_settles:
  assumes "poll_one str_of dec qt now ans c t = (evs, t')"
  shows "(dict_get t' c = None \<or> silent str_of dec qt now ans t' c) \<and> (\<forall>d. d \<noteq> c \<longrightarrow> dict_get t' d = dict_get t d) \<and> dom (dict_get t') \<subseteq> insert c (dom (dict_get t))"
proof (cases "silent str_of dec qt now ans t c")
  case True
  with assms show ?thesis by (auto simp: silent_def)
next
  case False
  then obtain info where i: "ans c = Inr (Some info)" "info \<noteq> []" "dict_get t c \<noteq> Some (Some (poll_signature str_of dec qt info))"
    by (auto simp: silent_iff split: sum.splits option.splits)
  define t1 where "t1 = dict_set t c (Some (poll_signature str_of dec qt info))"
  have "t' = ps_untrack c t1 \<or> t' = t1" using assms i by (auto simp: poll_one_def Let_def t1_def split: if_splits)
  then show ?thesis by (auto simp: silent_iff i(1) t1_def ps_untrack_def)
qed

lemma fold_settles:
  assumes "distinct cs" and "foldl (\<lambda>(out, t) c. case poll_one str_of dec qt now ans c t of (evs, t') \<Rightarrow> (out @ evs, t')) (out, t) cs = (out', t')"
  shows "(\<forall>c \<in> set cs. dict_get t' c = None \<or> silent str_of dec qt now ans t' c) \<and> (\<forall>d. d \<notin> set cs \<longrightarrow> dict_get t' d = dict_get t d) \<and>
    dom (dict_get t') \<subseteq> set cs \<union> dom (dict_get t)"
  using assms
proof (induction cs arbitrary: out t)
  case Nil
  then show ?case by simp
next
  case (Cons c cs)
  obtain evs t1 where one: "poll_one str_of dec qt now ans c t = (evs, t1)" by (meson surj_pair)
  note p = poll_one_settles [OF one]
  have "foldl (\<lambda>(out, t) c. case poll_one str_of dec qt now ans c t of (evs, t') \<Rightarrow> (out @ evs, t')) (out @ evs, t1) cs = (out', t')"
    using Cons.prems(2) by (simp add: one)
  note ih = Cons.IH [OF _ this]
  have "c \<notin> set cs" "distinct cs" using Cons.prems(1) by simp_all
  with ih have "dict_get t' c = dict_get t1 c" by blast
  with silent_cong [of t' c t1] p have "dict_get t' c = None \<or> silent str_of dec qt now ans t' c" by metis
  with ih \<open>distinct cs\<close> p show ?case by auto
qed

lemma fold_silent:
  "\<forall>c \<in> set cs. silent str_of dec qt now ans t c \<Longrightarrow>
   foldl (\<lambda>(out, t) c. case poll_one str_of dec qt now ans c t of (evs, t') \<Rightarrow> (out @ evs, t')) (out, t) cs = (out, t)"
  by (induction cs) (simp_all add: silent_def)

text \<open>
  The polling source reports changes only.  Whatever the broker's answers are, errors and empty ones
  included, and whatever was tracked: a second poll that gets the same answers reports nothing and tracks the
  same orders.
\<close>

theorem second_poll_is_silent:
  assumes "dict_ok t" and "ps_poll str_of dec qt now ans t = (evs, t1)"
  shows "ps_poll str_of dec qt now' ans t1 = ([], t1) \<and> set (dict_keys t1) \<subseteq> set (dict_keys t)"
proof -
  have keys: "set (dict_keys u) = dom (dict_get u)" for u :: tracked by (simp add: dom_map_of_conv_image_fst)
  have s: "(\<forall>c \<in> set (dict_keys t). dict_get t1 c = None \<or> silent str_of dec qt now ans t1 c)" "dom (dict_get t1) \<subseteq> dom (dict_get t)"
    using fold_settles [of "dict_keys t" str_of dec qt now ans "[]" t evs t1] assms by (auto simp: ps_poll_def dict_ok_def keys)
  have "\<forall>c \<in> set (dict_keys t1). silent str_of dec qt now' ans t1 c"
  proof
    fix c assume "c \<in> set (dict_keys t1)"
    then have "c \<in> dom (dict_get t1)" unfolding keys .
    then have "dict_get t1 c \<noteq> None" "c \<in> set (dict_keys t)" using s(2) unfolding keys by auto
    with s(1) silent_cong [of t1 c t1 str_of dec qt now ans now'] show "silent str_of dec qt now' ans t1 c" by auto
  qed
  then show ?thesis using s(2) unfolding keys [symmetric] by (simp add: ps_poll_def fold_silent)
qed

definition sample_str :: "pyval \<Rightarrow> string" where
  "sample_str v = (case v of PStr s \<Rightarrow> s | _ \<Rightarrow> [])"

definition sample_dec :: "pyval \<Rightarrow> rat option" where
  "sample_dec v = (case v of PDecimal q \<Rightarrow> Some q | _ \<Rightarrow> None)"

definition sample_answer :: "string \<Rightarrow> string \<Rightarrow> unit + (string, pyval) dict option" where
  "sample_answer status c = (if c = ''c1'' then Inr (Some [(''status'', PStr status), (''filled_qty'', PDecimal 2)]) else Inl ())"

theorem second_poll_is_silent_witness:
  "case ps_poll sample_str sample_dec (\<lambda>_. ''2'') 0 (sample_answer ''open'') [(''c1'', None), (''c2'', None)] of
     (evs, t1) \<Rightarrow> length evs = 1 \<and> ps_poll sample_str sample_dec (\<lambda>_. ''2'') 5 (sample_answer ''open'') t1 = ([], t1)"
proof -
  obtain evs t1 where run: "ps_poll sample_str sample_dec (\<lambda>_. ''2'') 0 (sample_answer ''open'') [(''c1'', None), (''c2'', None)] = (evs, t1)"
    by (meson surj_pair)
  have "length (fst (ps_poll sample_str sample_dec (\<lambda>_. ''2'') 0 (sample_answer ''open'') [(''c1'', None), (''c2'', None)])) = 1" by code_simp
  with second_poll_is_silent [OF _ run, of 5] run show ?thesis by (simp add: dict_ok_def)
qed

text \<open>
  A broker that closes the day on a partly filled order: the source tracks the order no longer, while for the
  handler it is still open.  What is filled the next day is not seen.
\<close>

lemma done_for_day_lost:
  "let (evs, t1) = ps_poll sample_str sample_dec (\<lambda>_. ''2'') 0 (sample_answer ''done_for_day'') [(''c1'', None)];
       (i, ns, h') = handle_events sample_X (\<lambda>_. (0, 0, 0)) evs 0 sample_handler in
   t1 = [] \<and> \<not> fs_terminal (state_of h' ''c1'') \<and> map fn_status ns = [O_PARTIALLY_FILLED] \<and> map fn_leaves ns = [1]"
  by code_simp

subsection \<open>Draining a source\<close>

text \<open>The queue of the in-memory source: one call of the handler with all of it handles the events in order.\<close>

lemma im_consume_all:
  assumes "im_batch s \<le> 0" and "max_batches \<ge> 2"
  shows "consume X clk im_poll max_batches s h =
    (case handle_events X clk (im_events s) 0 h of (i, ns, h') \<Rightarrow> (i, ns, s\<lparr>im_events := []\<rparr>, h'))"
proof -
  have b: "nat (max 1 max_batches) = Suc (Suc (nat (max_batches - 2)))" using assms(2) by simp
  show ?thesis
    using assms(1) by (cases "im_events s") (simp_all add: consume_def b im_poll_def split: prod.splits)
qed

end
