(* ===== verification/Child_Executor.thy ===== *)
theory Child_Executor
  imports Fill_Handler
begin

section \<open>The clock-driven child executor\<close>

text \<open>
  Model of \<^verbatim>\<open>packages/agent/execution/child_executor.py\<close>: a parent order is cut into slices that
  are released on a clock through the execution engine; a child that does not fill in time is cancelled and
  its rest rolled into a replacement.  Children are objects that a parent and the index by client order id
  share, so they live in a heap.  Decimals round by \<^verbatim>\<open>x_ctx\<close>, floats by \<^verbatim>\<open>x_ops\<close>; \<open>fsum\<close>
  is \<^verbatim>\<open>sum\<close> on floats and \<open>dec_repr\<close> the decimal that the text of a float denotes.
\<close>

datatype ChildState = C_PENDING | C_WORKING | C_FILLED | C_CANCELLED | C_REPLACED | C_REJECTED

record ChildOrder =
  ch_id :: string
  ch_parent :: string
  ch_qty :: rat
  release_at :: pyfloat
  slice_index :: nat
  ch_status :: ChildState
  ch_client :: "string option"
  ch_broker :: "string option"
  ch_filled :: rat
  ch_avg :: "rat option"
  released_at :: "pyfloat option"
  replaces :: int

definition new_child :: "string \<Rightarrow> string \<Rightarrow> rat \<Rightarrow> pyfloat \<Rightarrow> nat \<Rightarrow> int \<Rightarrow> ChildOrder" where
  "new_child cid pid q t i r =
     \<lparr>ch_id = cid, ch_parent = pid, ch_qty = q, release_at = t, slice_index = i, ch_status = C_PENDING, ch_client = None, ch_broker = None,
      ch_filled = 0, ch_avg = None, released_at = None, replaces = r\<rparr>"

definition is_terminal :: "ChildOrder \<Rightarrow> bool" where
  "is_terminal c = (ch_status c \<in> {C_FILLED, C_CANCELLED, C_REJECTED, C_REPLACED})"

definition ch_leaves :: "(rat \<Rightarrow> rat) \<Rightarrow> ChildOrder \<Rightarrow> rat" where
  "ch_leaves ctx c = (let r = ctx (ch_qty c - ch_filled c) in if r > 0 then r else 0)"

record ParentOrder =
  pa_id :: string
  pa_symbol :: string
  pa_side :: string
  total_qty :: rat
  pa_strategy :: string
  pa_limit :: "rat option"
  children :: "nat list"
  pa_created :: pyfloat

record ChildExecutor =
  cx_engine :: Engine
  cx_strategy :: string
  slice_interval :: pyfloat
  straggler_timeout :: pyfloat
  max_replaces :: int
  min_child_qty :: rat
  use_limit_orders :: bool
  cx_can_cancel :: bool
  cx_heap :: "ChildOrder list"
  cx_parents :: "(string, ParentOrder) dict"
  child_by_coid :: "(string, nat) dict"

definition kids :: "ChildExecutor \<Rightarrow> ParentOrder \<Rightarrow> ChildOrder list" where
  "kids cx p = map (\<lambda>a. cx_heap cx ! a) (children p)"

definition pa_filled :: "(rat \<Rightarrow> rat) \<Rightarrow> ChildExecutor \<Rightarrow> ParentOrder \<Rightarrow> rat" where
  "pa_filled ctx cx p = dec_sum ctx (map ch_filled (kids cx p))"

definition released_qty :: "(rat \<Rightarrow> rat) \<Rightarrow> ChildExecutor \<Rightarrow> ParentOrder \<Rightarrow> rat" where
  "released_qty ctx cx p = dec_sum ctx (map ch_qty (filter (\<lambda>c. ch_status c \<in> {C_WORKING, C_FILLED}) (kids cx p)))"

definition remaining_qty :: "(rat \<Rightarrow> rat) \<Rightarrow> ChildExecutor \<Rightarrow> ParentOrder \<Rightarrow> rat" where
  "remaining_qty ctx cx p = (let r = ctx (total_qty p - pa_filled ctx cx p) in if r > 0 then r else 0)"

definition is_complete :: "(rat \<Rightarrow> rat) \<Rightarrow> ChildExecutor \<Rightarrow> ParentOrder \<Rightarrow> bool" where
  "is_complete ctx cx p \<longleftrightarrow>
     total_qty p \<le> 0 \<or> pa_filled ctx cx p \<ge> total_qty p \<or>
     (\<forall>c \<in> set (kids cx p). is_terminal c) \<and> \<not> (\<exists>c \<in> set (kids cx p). ch_status c = C_PENDING)"

definition all_complete :: "(rat \<Rightarrow> rat) \<Rightarrow> ChildExecutor \<Rightarrow> bool" where
  "all_complete ctx cx \<longleftrightarrow> (\<forall>p \<in> set (dict_values (cx_parents cx)). is_complete ctx cx p)"

subsection \<open>Submitting a parent\<close>

definition normalized_weights :: "float_ops \<Rightarrow> (pyfloat list \<Rightarrow> pyfloat) \<Rightarrow> int \<Rightarrow> pyfloat list option \<Rightarrow> pyfloat list" where
  "normalized_weights F fsum n ws =
     (let w = map (flt_max (Fin 0)) (case ws of None \<Rightarrow> [] | Some l \<Rightarrow> l); s = fsum w in
      if w \<noteq> [] \<and> flt_lt (Fin 0) s then map (\<lambda>x. fdiv F x s) w
      else replicate (nat (max 1 n)) (fdiv F (Fin 1) (Fin (of_int (max 1 n)))))"

fun weight_decimals :: "(rat \<Rightarrow> rat) \<Rightarrow> pyfloat list \<Rightarrow> rat list option" where
  "weight_decimals dec_repr [] = Some []"
| "weight_decimals dec_repr (Fin x # ws) = map_option ((#) (dec_repr x)) (weight_decimals dec_repr ws)"
| "weight_decimals dec_repr (_ # ws) = None"

text \<open>
  The quantities: the last slice takes the rest, whatever its weight is; any other weight that is no number
  makes a comparison raise.
\<close>

definition slice_qtys :: "(rat \<Rightarrow> rat) \<Rightarrow> (rat \<Rightarrow> rat) \<Rightarrow> rat \<Rightarrow> pyfloat list \<Rightarrow> rat list option" where
  "slice_qtys ctx dec_repr tot w =
     map_option (\<lambda>ds. let qs = map (\<lambda>d. ctx (tot * d)) ds in qs @ [ctx (tot - dec_sum ctx qs)]) (weight_decimals dec_repr (butlast w))"

definition child_name :: "string \<Rightarrow> nat \<Rightarrow> string" where
  "child_name pid i = pid @ ''_c'' @ str_nat i"

definition slices :: "float_ops \<Rightarrow> string \<Rightarrow> pyfloat \<Rightarrow> pyfloat \<Rightarrow> rat list \<Rightarrow> ChildOrder list" where
  "slices F pid start interval qs =
     map (\<lambda>(i, q). new_child (child_name pid i) pid q (fadd F start (fmul F (Fin (of_nat i)) interval)) i 0)
       (filter (\<lambda>(i, q). q > 0) (enumerate 0 qs))"

datatype cx_error = Bad_side_arg | Invalid_operation | Engine_raised ex_error

definition submit_parent ::
  "ex_env \<Rightarrow> (pyfloat list \<Rightarrow> pyfloat) \<Rightarrow> (rat \<Rightarrow> rat) \<Rightarrow> string \<Rightarrow> string \<Rightarrow> rat \<Rightarrow> int \<Rightarrow> pyfloat \<Rightarrow> pyfloat list option \<Rightarrow> pyfloat option \<Rightarrow> rat option \<Rightarrow>
   string \<Rightarrow> ChildExecutor \<Rightarrow> (cx_error, ParentOrder, ChildExecutor) pyres" where
  "submit_parent X fsum dec_repr symbol side tot n start ws interval lmt pid cx =
     (if lower side \<noteq> ''buy'' \<and> lower side \<noteq> ''sell'' then py_raise Bad_side_arg cx
      else
        (let p = \<lparr>pa_id = pid, pa_symbol = symbol, pa_side = lower side, total_qty = tot, pa_strategy = cx_strategy cx, pa_limit = lmt,
                   children = [], pa_created = start\<rparr> in
         if tot \<le> 0 then py_return p (cx\<lparr>cx_parents := dict_set (cx_parents cx) pid p\<rparr>)
         else
           (case slice_qtys (x_ctx X) dec_repr tot (normalized_weights (x_ops X) fsum n ws) of
              None \<Rightarrow> py_raise Invalid_operation cx
            | Some qs \<Rightarrow>
                (let cs = slices (x_ops X) pid start (case interval of None \<Rightarrow> slice_interval cx | Some v \<Rightarrow> v) qs;
                     p' = p\<lparr>children := [length (cx_heap cx) ..< length (cx_heap cx) + length cs]\<rparr> in
                 py_return p' (cx\<lparr>cx_heap := cx_heap cx @ cs, cx_parents := dict_set (cx_parents cx) pid p'\<rparr>)))))"

subsection \<open>One tick\<close>

record tick_log =
  tk_released :: "string list"
  tk_cancelled :: "string list"
  tk_replaced :: "string list"
  tk_errors :: "string list"

text \<open>\<open>ok\<close>: what the broker's cancel answers about a child, an exception counts as no.\<close>

definition cancel_child :: "(nat \<Rightarrow> bool) \<Rightarrow> nat \<Rightarrow> ChildExecutor \<Rightarrow> bool" where
  "cancel_child ok a cx = (if \<not> cx_can_cancel cx \<or> ch_client (cx_heap cx ! a) = None then True else ok a)"

definition overdue :: "ex_env \<Rightarrow> pyfloat \<Rightarrow> ChildExecutor \<Rightarrow> ChildOrder \<Rightarrow> bool" where
  "overdue X now cx c =
     (ch_status c = C_WORKING \<and> (case released_at c of None \<Rightarrow> False | Some t \<Rightarrow> \<not> flt_lt (fsub (x_ops X) now t) (straggler_timeout cx)) \<and>
      ch_leaves (x_ctx X) c > 0)"

definition straggler ::
  "ex_env \<Rightarrow> pyfloat \<Rightarrow> (nat \<Rightarrow> bool) \<Rightarrow> string \<Rightarrow> nat \<Rightarrow> tick_log \<times> ChildExecutor \<Rightarrow> tick_log \<times> ChildExecutor" where
  "straggler X now ok pid a S =
     (case S of (tk, cx) \<Rightarrow>
        (let c = cx_heap cx ! a; leaves = ch_leaves (x_ctx X) c in
         if \<not> overdue X now cx c \<or> \<not> cancel_child ok a cx then (tk, cx)
         else
           (let tk1 = tk\<lparr>tk_cancelled := tk_cancelled tk @ [ch_id c]\<rparr> in
            if replaces c + 1 \<le> max_replaces cx \<and> leaves > min_child_qty cx
            then
              (let r = new_child (ch_id c @ ''_r'' @ str_int (replaces c + 1)) pid leaves now (slice_index c) (replaces c + 1);
                   p = the (dict_get (cx_parents cx) pid) in
               (tk1\<lparr>tk_replaced := tk_replaced tk1 @ [ch_id r]\<rparr>,
                cx\<lparr>cx_heap := (cx_heap cx)[a := c\<lparr>ch_status := C_REPLACED\<rparr>] @ [r],
                   cx_parents := dict_set (cx_parents cx) pid (p\<lparr>children := children p @ [length (cx_heap cx)]\<rparr>)\<rparr>))
            else (tk1, cx\<lparr>cx_heap := (cx_heap cx)[a := c\<lparr>ch_status := C_CANCELLED\<rparr>]\<rparr>))))"

text \<open>What a release reads from outside.\<close>

record release_in =
  ri_exec :: ex_in
  ri_intent_id :: string
  ri_created :: time

definition child_intent :: "release_in \<Rightarrow> bool \<Rightarrow> ParentOrder \<Rightarrow> ChildOrder \<Rightarrow> OrderIntent" where
  "child_intent R limits p c =
     (let l = limits \<and> pa_limit p \<noteq> None in
      \<lparr>in_strategy = pa_strategy p, in_symbol = pa_symbol p, in_type = (if l then LIMIT_ENTRY else MARKET_ENTRY),
       in_side = (if pa_side p = ''buy'' then LONG else SHORT), target_quantity = Some (ch_qty c), target_notional = None,
       in_limit_price = (if l then pa_limit p else None), in_stop_price = None, in_tif = ''DAY'', in_urgency = PRIO_NORMAL,
       in_reason = ''child slice '' @ str_nat (slice_index c) @ '' of parent '' @ pa_id p,
       in_metadata = [(''parent_id'', PStr (pa_id p)), (''child_id'', PStr (ch_id c))], in_created_at = ri_created R, in_expires_at = None,
       intent_id = ri_intent_id R\<rparr>)"

definition release_child ::
  "ex_env \<Rightarrow> pyfloat \<Rightarrow> release_in \<Rightarrow> rat option \<Rightarrow> ParentOrder \<Rightarrow> nat \<Rightarrow> ChildExecutor \<Rightarrow> (cx_error, string option, ChildExecutor) pyres" where
  "release_child X now R price p a cx =
     (let c = cx_heap cx ! a in
      case execute X (ri_exec R) (child_intent R (use_limit_orders cx) p c) price ''runner'' (cx_engine cx) of
        (Inl err, e) \<Rightarrow> py_raise (Engine_raised err) (cx\<lparr>cx_engine := e\<rparr>)
      | (Inr res, e) \<Rightarrow>
          (case er_order res of
             Some x \<Rightarrow>
               if er_success res
               then py_return (Some (client_order_id x))
                 (cx\<lparr>cx_engine := e,
                     cx_heap := (cx_heap cx)[a := c\<lparr>ch_client := Some (client_order_id x), ch_broker := broker_order_id x, ch_status := C_WORKING, released_at := Some now\<rparr>],
                     child_by_coid := dict_set (child_by_coid cx) (client_order_id x) a\<rparr>)
               else py_return None (cx\<lparr>cx_engine := e, cx_heap := (cx_heap cx)[a := c\<lparr>ch_status := C_REJECTED\<rparr>]\<rparr>)
           | None \<Rightarrow> py_return None (cx\<lparr>cx_engine := e, cx_heap := (cx_heap cx)[a := c\<lparr>ch_status := C_REJECTED\<rparr>]\<rparr>)))"

definition due :: "pyfloat \<Rightarrow> ChildOrder \<Rightarrow> bool" where
  "due now c = (ch_status c = C_PENDING \<and> \<not> flt_lt now (release_at c))"

fun release_due ::
  "ex_env \<Rightarrow> pyfloat \<Rightarrow> (nat \<Rightarrow> release_in) \<Rightarrow> rat option \<Rightarrow> ParentOrder \<Rightarrow> nat list \<Rightarrow> tick_log \<times> ChildExecutor \<Rightarrow> (cx_error, unit, tick_log \<times> ChildExecutor) pyres" where
  "release_due X now R price p [] S = py_return () S"
| "release_due X now R price p (a # as) (tk, cx) =
     (let c = cx_heap cx ! a in
      if \<not> due now c then release_due X now R price p as (tk, cx)
      else if ch_qty c \<le> min_child_qty cx
      then release_due X now R price p as (tk, cx\<lparr>cx_heap := (cx_heap cx)[a := c\<lparr>ch_status := C_CANCELLED\<rparr>]\<rparr>)
      else
        (case release_child X now (R a) price p a cx of
           (Inl err, cx1) \<Rightarrow> (Inl err, (tk, cx1))
         | (Inr None, cx1) \<Rightarrow> release_due X now R price p as (tk\<lparr>tk_errors := tk_errors tk @ [ch_id c]\<rparr>, cx1)
         | (Inr (Some coid), cx1) \<Rightarrow> release_due X now R price p as (tk\<lparr>tk_released := tk_released tk @ [coid]\<rparr>, cx1)))"

record tick_in =
  ti_cancel :: "nat \<Rightarrow> bool"
  ti_release :: "nat \<Rightarrow> release_in"
  ti_price :: "string \<Rightarrow> rat option"

definition tick_parent ::
  "ex_env \<Rightarrow> pyfloat \<Rightarrow> tick_in \<Rightarrow> string \<Rightarrow> tick_log \<times> ChildExecutor \<Rightarrow> (cx_error, unit, tick_log \<times> ChildExecutor) pyres" where
  "tick_parent X now T pid S =
     (case dict_get (cx_parents (snd S)) pid of
        None \<Rightarrow> py_return () S
      | Some p \<Rightarrow>
          if is_complete (x_ctx X) (snd S) p then py_return () S
          else
            (let S1 = foldl (\<lambda>S a. straggler X now (ti_cancel T) pid a S) S (children p);
                 p1 = the (dict_get (cx_parents (snd S1)) pid) in
             release_due X now (ti_release T) (ti_price T (pa_symbol p1)) p1 (children p1) S1))"

fun tick_parents ::
  "ex_env \<Rightarrow> pyfloat \<Rightarrow> tick_in \<Rightarrow> string list \<Rightarrow> tick_log \<times> ChildExecutor \<Rightarrow> (cx_error, unit, tick_log \<times> ChildExecutor) pyres" where
  "tick_parents X now T [] S = py_return () S"
| "tick_parents X now T (pid # pids) S = run_then (tick_parent X now T pid S) (tick_parents X now T pids)"

definition cx_step :: "ex_env \<Rightarrow> pyfloat \<Rightarrow> tick_in \<Rightarrow> ChildExecutor \<Rightarrow> (cx_error, unit, tick_log \<times> ChildExecutor) pyres" where
  "cx_step X now T cx =
     tick_parents X now T (dict_keys (cx_parents cx)) (\<lparr>tk_released = [], tk_cancelled = [], tk_replaced = [], tk_errors = []\<rparr>, cx)"

subsection \<open>News about a child\<close>

definition on_child_fill :: "string \<Rightarrow> rat \<Rightarrow> rat option \<Rightarrow> ChildExecutor \<Rightarrow> ChildExecutor" where
  "on_child_fill coid cum avg cx =
     (case dict_get (child_by_coid cx) coid of
        None \<Rightarrow> cx
      | Some a \<Rightarrow>
          (let c = cx_heap cx ! a in
           cx\<lparr>cx_heap := (cx_heap cx)[a := c\<lparr>ch_filled := cum, ch_avg := opt_keep avg (ch_avg c),
             ch_status := (if cum \<ge> ch_qty c \<and> ch_status c = C_WORKING then C_FILLED else ch_status c)\<rparr>]\<rparr>))"

definition on_order_terminal :: "string \<Rightarrow> OrderStatus \<Rightarrow> ChildExecutor \<Rightarrow> ChildExecutor" where
  "on_order_terminal coid st cx =
     (case dict_get (child_by_coid cx) coid of
        None \<Rightarrow> cx
      | Some a \<Rightarrow>
          (let c = cx_heap cx ! a;
               s = (if st = O_FILLED then C_FILLED
                    else if st = O_CANCELLED \<or> st = O_EXPIRED then (if ch_status c = C_WORKING then C_CANCELLED else ch_status c)
                    else if st = O_REJECTED \<or> st = O_ERROR then C_REJECTED else ch_status c) in
           cx\<lparr>cx_heap := (cx_heap cx)[a := c\<lparr>ch_status := s\<rparr>]\<rparr>))"

subsection \<open>The book of a parent\<close>

text \<open>
  A child is live while it can still be replaced.  Of a child that was cancelled, replaced or rejected only
  what it filled counts, of any other its whole quantity.
\<close>

definition live :: "ChildOrder \<Rightarrow> bool" where
  "live c \<longleftrightarrow> ch_status c = C_PENDING \<or> ch_status c = C_WORKING"

definition committed :: "ChildOrder \<Rightarrow> rat" where
  "committed c = (if ch_status c \<in> {C_REPLACED, C_CANCELLED, C_REJECTED} then ch_filled c else ch_qty c)"

definition cell_ok :: "bool \<Rightarrow> int \<Rightarrow> ChildOrder \<Rightarrow> bool" where
  "cell_ok honest mx c \<longleftrightarrow> 0 \<le> ch_filled c \<and> 0 < ch_qty c \<and> 0 \<le> replaces c \<and> replaces c \<le> max 0 mx \<and> (honest \<longrightarrow> ch_filled c \<le> ch_qty c)"

definition of_generation :: "int \<Rightarrow> ChildOrder \<Rightarrow> rat" where
  "of_generation j c = (if replaces c = j then ch_qty c else 0)"

definition ended :: "int \<Rightarrow> ChildOrder \<Rightarrow> rat" where
  "ended j c = (if replaces c = j \<and> \<not> live c then ch_qty c else 0)"

definition over :: "(ChildOrder \<Rightarrow> rat) \<Rightarrow> nat set \<Rightarrow> (nat \<Rightarrow> ChildOrder) \<Rightarrow> rat" where
  "over g A f = (\<Sum>b \<in> A. g (f b))"

definition book :: "bool \<Rightarrow> int \<Rightarrow> rat \<Rightarrow> nat set \<Rightarrow> (nat \<Rightarrow> ChildOrder) \<Rightarrow> bool" where
  "book honest mx tot A f \<longleftrightarrow>
     finite A \<and> (\<forall>b \<in> A. cell_ok honest mx (f b)) \<and> over (of_generation 0) A f \<le> tot \<and>
     (\<forall>j \<ge> 0. over (of_generation (j + 1)) A f \<le> over (ended j) A f) \<and> (honest \<longrightarrow> over committed A f \<le> tot)"

lemma over_upd: "finite A \<Longrightarrow> a \<in> A \<Longrightarrow> over g A (f(a := c)) = over g A f + (g c - g (f a))"
  unfolding over_def by (simp add: sum.remove [of A a])

lemma over_insert: "finite A \<Longrightarrow> n \<notin> A \<Longrightarrow> over g (insert n A) (f(n := c)) = over g A f + g c"
proof -
  assume "finite A" "n \<notin> A"
  moreover from \<open>n \<notin> A\<close> have "(\<Sum>b \<in> A. g ((f(n := c)) b)) = (\<Sum>b \<in> A. g (f b))" by (intro sum.cong) auto
  ultimately show ?thesis by (simp add: over_def)
qed

lemma book_cong: "(\<And>b. b \<in> A \<Longrightarrow> f b = f' b) \<Longrightarrow> book honest mx tot A f = book honest mx tot A f'"
  by (simp add: book_def over_def cong: sum.cong)

lemma book_move:
  assumes "book honest mx tot A f" and "a \<in> A" and "ch_qty c = ch_qty (f a)" and "replaces c = replaces (f a)" and "cell_ok honest mx c"
    and "live c \<longrightarrow> live (f a)" and "honest \<longrightarrow> committed c \<le> committed (f a)"
  shows "book honest mx tot A (f(a := c))"
proof -
  have fin: "finite A" using assms(1) by (simp add: book_def)
  have g: "of_generation j c = of_generation j (f a)" for j using assms(3,4) by (simp add: of_generation_def)
  have e: "ended j (f a) \<le> ended j c" for j
  proof -
    have "0 < ch_qty c" using assms(5) by (simp add: cell_ok_def)
    with assms(3,4,6) show ?thesis by (auto simp: ended_def)
  qed
  show ?thesis
    using assms(1,5,7) e unfolding book_def over_upd [OF fin assms(2)] g by (auto intro: add_increasing2 order_trans simp: diff_le_eq)
qed

lemma book_roll:
  assumes "book honest mx tot A f" and "a \<in> A" and "n \<notin> A" and "live (f a)"
    and "ch_qty c = ch_qty (f a)" and "replaces c = replaces (f a)" and "cell_ok honest mx c" and "\<not> live c"
    and "replaces r = replaces (f a) + 1" and "ch_qty r \<le> ch_qty (f a)" and "cell_ok honest mx r" and "live r"
    and "honest \<longrightarrow> committed c + committed r \<le> committed (f a)"
  shows "book honest mx tot (insert n A) ((f(a := c))(n := r))"
proof -
  have fin: "finite A" using assms(1) by (simp add: book_def)
  have sum: "over g (insert n A) ((f(a := c))(n := r)) = over g A f + (g c - g (f a)) + g r" for g
    by (simp add: over_insert [OF fin assms(3)] over_upd [OF fin assms(2)])
  have pos: "0 \<le> replaces (f a)" using assms(1,2) by (auto simp: book_def cell_ok_def)
  have g0: "of_generation 0 c - of_generation 0 (f a) + of_generation 0 r = 0" using assms(5,6,9) pos by (simp add: of_generation_def)
  have gj: "of_generation (j + 1) c - of_generation (j + 1) (f a) + of_generation (j + 1) r \<le> ended j c - ended j (f a) + ended j r" for j
    using assms(4-6,8-10,12) by (auto simp: of_generation_def ended_def)
  have "\<forall>b \<in> insert n A. cell_ok honest mx (((f(a := c))(n := r)) b)" using assms(1,7,11) by (auto simp: book_def)
  moreover have "over (of_generation (j + 1)) A f \<le> over (ended j) A f" if "0 \<le> j" for j using assms(1) that by (simp add: book_def)
  ultimately show ?thesis
    using assms(1,13) fin g0 gj unfolding book_def sum by (auto simp: add.assoc intro: add_mono)
qed

lemma over_nonneg: "(\<And>b. b \<in> A \<Longrightarrow> 0 \<le> g (f b)) \<Longrightarrow> 0 \<le> over g A f"
  unfolding over_def by (rule sum_nonneg)

lemma over_mono: "(\<And>b. b \<in> A \<Longrightarrow> g (f b) \<le> g' (f b)) \<Longrightarrow> over g A f \<le> over g' A f"
  unfolding over_def by (rule sum_mono)

lemma book_generation:
  assumes "book honest mx tot A f"
  shows "over (of_generation (int j)) A f \<le> tot"
proof (induction j)
  case 0
  then show ?case using assms by (simp add: book_def)
next
  case (Suc j)
  have "over (of_generation (int j + 1)) A f \<le> over (ended (int j)) A f" using assms by (simp add: book_def)
  also have "\<dots> \<le> over (of_generation (int j)) A f"
    using assms by (intro over_mono) (auto simp: book_def cell_ok_def ended_def of_generation_def)
  finally show ?case using Suc by (simp add: add.commute)
qed

text \<open>All children together: every generation is at most the order.\<close>

lemma book_total:
  assumes "book honest mx tot A f"
  shows "over ch_qty A f \<le> of_int (1 + max 0 mx) * tot"
proof -
  let ?G = "{0 .. nat (max 0 mx)}"
  have "ch_qty (f b) = (\<Sum>j \<in> ?G. of_generation (int j) (f b))" if "b \<in> A" for b
  proof -
    have "0 \<le> replaces (f b)" "replaces (f b) \<le> max 0 mx" using assms that by (auto simp: book_def cell_ok_def)
    then have "nat (replaces (f b)) \<in> ?G" "\<And>j. (replaces (f b) = int j) = (j = nat (replaces (f b)))" by auto
    then show ?thesis by (simp add: of_generation_def)
  qed
  then have "over ch_qty A f = (\<Sum>b \<in> A. \<Sum>j \<in> ?G. of_generation (int j) (f b))" unfolding over_def by (intro sum.cong) auto
  also have "\<dots> = (\<Sum>j \<in> ?G. over (of_generation (int j)) A f)" unfolding over_def by (rule sum.swap)
  also have "\<dots> \<le> (\<Sum>j \<in> ?G. tot)" using book_generation [OF assms] by (intro sum_mono)
  also have "\<dots> = of_int (1 + max 0 mx) * tot" by simp
  finally show ?thesis .
qed

lemma book_filled:
  assumes "book True mx tot A f"
  shows "over ch_filled A f \<le> tot"
proof -
  have "over ch_filled A f \<le> over committed A f" using assms by (intro over_mono) (auto simp: book_def cell_ok_def committed_def)
  then show ?thesis using assms by (simp add: book_def)
qed

subsection \<open>The executor keeps its books\<close>

definition parent_ok :: "bool \<Rightarrow> ChildExecutor \<Rightarrow> ParentOrder \<Rightarrow> bool" where
  "parent_ok honest cx p \<longleftrightarrow>
     distinct (children p) \<and> set (children p) \<subseteq> {..<length (cx_heap cx)} \<and>
     book honest (max_replaces cx) (max 0 (total_qty p)) (set (children p)) (\<lambda>b. cx_heap cx ! b)"

definition cx_inv :: "bool \<Rightarrow> ChildExecutor \<Rightarrow> bool" where
  "cx_inv honest cx \<longleftrightarrow>
     (\<forall>k p. dict_get (cx_parents cx) k = Some p \<longrightarrow> parent_ok honest cx p) \<and>
     (\<forall>k k' p p'. k \<noteq> k' \<and> dict_get (cx_parents cx) k = Some p \<and> dict_get (cx_parents cx) k' = Some p' \<longrightarrow> set (children p) \<inter> set (children p') = {}) \<and>
     ran (dict_get (child_by_coid cx)) \<subseteq> {..<length (cx_heap cx)}"

definition moves :: "bool \<Rightarrow> int \<Rightarrow> ChildOrder \<Rightarrow> ChildOrder \<Rightarrow> bool" where
  "moves honest mx c c' \<longleftrightarrow>
     ch_qty c' = ch_qty c \<and> replaces c' = replaces c \<and> (live c' \<longrightarrow> live c) \<and>
     (cell_ok honest mx c \<longrightarrow> cell_ok honest mx c' \<and> (honest \<longrightarrow> committed c' \<le> committed c))"

lemma parent_ok_move:
  assumes "parent_ok honest cx p" and "moves honest (max_replaces cx) (cx_heap cx ! a) c" and "a < length (cx_heap cx)"
  shows "parent_ok honest (cx\<lparr>cx_heap := (cx_heap cx)[a := c]\<rparr>) p"
proof -
  have sub: "set (children p) \<subseteq> {..<length (cx_heap cx)}" and b: "book honest (max_replaces cx) (max 0 (total_qty p)) (set (children p)) (\<lambda>b. cx_heap cx ! b)"
    using assms(1) by (simp_all add: parent_ok_def)
  have "book honest (max_replaces cx) (max 0 (total_qty p)) (set (children p)) (\<lambda>b. (cx_heap cx)[a := c] ! b)"
  proof (cases "a \<in> set (children p)")
    case False
    then show ?thesis using b assms(3) by (subst book_cong [where f' = "\<lambda>b. cx_heap cx ! b"]) (auto simp: nth_list_update)
  next
    case True
    then have "cell_ok honest (max_replaces cx) (cx_heap cx ! a)" using b by (auto simp: book_def)
    with assms(2) have "book honest (max_replaces cx) (max 0 (total_qty p)) (set (children p)) ((\<lambda>b. cx_heap cx ! b)(a := c))"
      by (intro book_move [OF b True]) (auto simp: moves_def)
    then show ?thesis using sub assms(3) by (subst book_cong [where f' = "(\<lambda>b. cx_heap cx ! b)(a := c)"]) (auto simp: nth_list_update)
  qed
  then show ?thesis using assms(1) by (simp add: parent_ok_def)
qed

lemma cx_inv_move:
  assumes "cx_inv honest cx" and "moves honest (max_replaces cx) (cx_heap cx ! a) c" and "a < length (cx_heap cx)"
  shows "cx_inv honest (cx\<lparr>cx_heap := (cx_heap cx)[a := c]\<rparr>)"
  using assms(1) parent_ok_move [OF _ assms(2,3)] by (auto simp: cx_inv_def)

lemma cx_inv_engine [simp]: "cx_inv honest (cx\<lparr>cx_engine := e\<rparr>) = cx_inv honest cx"
  by (simp add: cx_inv_def parent_ok_def)

lemma cx_inv_coid: "cx_inv honest cx \<Longrightarrow> a < length (cx_heap cx) \<Longrightarrow> cx_inv honest (cx\<lparr>child_by_coid := dict_set (child_by_coid cx) k a\<rparr>)"
  by (auto simp: cx_inv_def parent_ok_def ran_def)

lemma release_child_inv:
  assumes "cx_inv honest cx" and "a < length (cx_heap cx)" and "ch_status (cx_heap cx ! a) = C_PENDING"
    and "release_child X now R price p a cx = (r, cx')"
  shows "cx_inv honest cx' \<and> length (cx_heap cx') = length (cx_heap cx) \<and> cx_parents cx' = cx_parents cx"
proof -
  let ?c = "cx_heap cx ! a"
  have rej: "moves honest m ?c (?c\<lparr>ch_status := C_REJECTED\<rparr>)" for m by (simp add: moves_def live_def cell_ok_def committed_def assms(3))
  have work: "moves honest m ?c (?c\<lparr>ch_client := x, ch_broker := y, ch_status := C_WORKING, released_at := z\<rparr>)" for m x y z
    by (simp add: moves_def live_def cell_ok_def committed_def assms(3))
  have put: "cx_inv honest (cx\<lparr>cx_engine := e, cx_heap := (cx_heap cx)[a := c']\<rparr>)" if "moves honest (max_replaces cx) ?c c'" for e c'
    using cx_inv_move [of honest "cx\<lparr>cx_engine := e\<rparr>" a c'] assms(1,2) that by simp
  have put2: "cx_inv honest (cx\<lparr>cx_engine := e, cx_heap := (cx_heap cx)[a := c'], child_by_coid := dict_set (child_by_coid cx) k a\<rparr>)"
    if "moves honest (max_replaces cx) ?c c'" for e c' k
    using cx_inv_coid [OF put [OF that, of e], of a k] assms(2) by simp
  show ?thesis
    using assms(1,4) put [OF rej] put2 [OF work]
    by (auto simp: release_child_def Let_def split: prod.splits sum.splits option.splits if_splits)
qed

lemma straggler_roll_inv:
  assumes "cx_inv honest cx" and "dict_get (cx_parents cx) pid = Some p" and "a \<in> set (children p)" and "ch_status (cx_heap cx ! a) = C_WORKING"
    and "replaces (cx_heap cx ! a) + 1 \<le> max_replaces cx" and "ch_qty (cx_heap cx ! a) - ch_filled (cx_heap cx ! a) > 0"
  defines "c \<equiv> cx_heap cx ! a"
  shows "cx_inv honest (cx\<lparr>cx_heap := (cx_heap cx)[a := c\<lparr>ch_status := C_REPLACED\<rparr>] @ [new_child nm pid (ch_qty c - ch_filled c) now i (replaces c + 1)],
     cx_parents := dict_set (cx_parents cx) pid (p\<lparr>children := children p @ [length (cx_heap cx)]\<rparr>)\<rparr>)" (is "cx_inv honest ?cx")
proof -
  let ?n = "length (cx_heap cx)" and ?r = "new_child nm pid (ch_qty c - ch_filled c) now i (replaces c + 1)" and ?d = "c\<lparr>ch_status := C_REPLACED\<rparr>"
  have ok: "parent_ok honest cx q" if "dict_get (cx_parents cx) k = Some q" for k q using assms(1) that by (simp add: cx_inv_def)
  have sub: "set (children q) \<subseteq> {..<?n}" if "dict_get (cx_parents cx) k = Some q" for k q using ok [OF that] by (simp add: parent_ok_def)
  have dis: "set (children p) \<inter> set (children q) = {}" if "dict_get (cx_parents cx) k = Some q" "k \<noteq> pid" for k q
    using assms(1,2) that unfolding cx_inv_def by metis
  have a: "a < ?n" using sub [OF assms(2)] assms(3) by auto
  have new: "parent_ok honest ?cx (p\<lparr>children := children p @ [?n]\<rparr>)"
  proof -
    have b: "book honest (max_replaces cx) (max 0 (total_qty p)) (set (children p)) (\<lambda>b. cx_heap cx ! b)" using ok [OF assms(2)] by (simp add: parent_ok_def)
    then have cell: "cell_ok honest (max_replaces cx) c" using assms(3) by (auto simp: book_def c_def)
    have "book honest (max_replaces cx) (max 0 (total_qty p)) (insert ?n (set (children p))) (((\<lambda>b. cx_heap cx ! b)(a := ?d))(?n := ?r))"
      using assms(3-6) sub [OF assms(2)] cell
      by (intro book_roll [OF b]) (auto simp: c_def live_def cell_ok_def committed_def new_child_def)
    moreover have "(((\<lambda>b. cx_heap cx ! b)(a := ?d))(?n := ?r)) b = ((cx_heap cx)[a := ?d] @ [?r]) ! b" if "b \<in> insert ?n (set (children p))" for b
      using that sub [OF assms(2)] a by (auto simp: nth_append nth_list_update)
    ultimately have "book honest (max_replaces cx) (max 0 (total_qty p)) (insert ?n (set (children p))) (\<lambda>b. ((cx_heap cx)[a := ?d] @ [?r]) ! b)"
      by (subst book_cong [where f' = "((\<lambda>b. cx_heap cx ! b)(a := ?d))(?n := ?r)"]) simp_all
    then show ?thesis using ok [OF assms(2)] sub [OF assms(2)] by (auto simp: parent_ok_def)
  qed
  have old: "parent_ok honest ?cx q" if k: "dict_get (cx_parents cx) k = Some q" "k \<noteq> pid" for k q
  proof -
    have "((cx_heap cx)[a := ?d] @ [?r]) ! b = cx_heap cx ! b" if "b \<in> set (children q)" for b
      using that dis [OF k] sub [OF k(1)] assms(3) a by (auto simp: nth_append nth_list_update)
    then have "book honest (max_replaces cx) (max 0 (total_qty q)) (set (children q)) (\<lambda>b. ((cx_heap cx)[a := ?d] @ [?r]) ! b)"
      using ok [OF k(1)] by (subst book_cong [where f' = "\<lambda>b. cx_heap cx ! b"]) (simp_all add: parent_ok_def)
    then show ?thesis using ok [OF k(1)] sub [OF k(1)] by (auto simp: parent_ok_def)
  qed
  have dj: "set (children q) \<inter> set (children q') = {}" if "k \<noteq> k'" "dict_get (cx_parents ?cx) k = Some q" "dict_get (cx_parents ?cx) k' = Some q'" for k k' q q'
  proof -
    have "?n \<notin> set (children u)" if "dict_get (cx_parents cx) j = Some u" for j u using sub [OF that] by auto
    moreover have "set (children u) \<inter> set (children u') = {}"
      if "j \<noteq> j'" "dict_get (cx_parents cx) j = Some u" "dict_get (cx_parents cx) j' = Some u'" for j j' u u'
      using assms(1) that unfolding cx_inv_def by blast
    ultimately show ?thesis using that dis [of k q] dis [of k' q'] by (auto split: if_splits)
  qed
  have all: "parent_ok honest ?cx q" if "dict_get (cx_parents ?cx) k = Some q" for k q
    using that new old [of k q] by (cases "k = pid") auto
  have rn: "ran (dict_get (child_by_coid ?cx)) \<subseteq> {..<length (cx_heap ?cx)}" using assms(1) by (auto simp: cx_inv_def)
  show ?thesis unfolding cx_inv_def using all dj rn by blast
qed

definition grows :: "string \<Rightarrow> nat list \<Rightarrow> ChildExecutor \<Rightarrow> bool" where
  "grows pid as cx \<longleftrightarrow> (\<exists>p. dict_get (cx_parents cx) pid = Some p \<and> set as \<subseteq> set (children p))"

lemma straggler_inv:
  assumes "x_ctx X = exact" and "cx_inv honest (snd S)" and "grows pid as (snd S)" and "a \<in> set as"
  shows "cx_inv honest (snd (straggler X now ok pid a S)) \<and> grows pid as (snd (straggler X now ok pid a S))"
proof -
  obtain tk cx where S: "S = (tk, cx)" by (cases S)
  obtain p where p: "dict_get (cx_parents cx) pid = Some p" "set as \<subseteq> set (children p)" using assms(3) by (auto simp: grows_def S)
  let ?c = "cx_heap cx ! a"
  show ?thesis
  proof (cases "overdue X now cx ?c \<and> cancel_child ok a cx")
    case False
    then show ?thesis using assms(2,3) by (simp add: straggler_def S Let_def)
  next
    case True
    then have w: "ch_status ?c = C_WORKING" and l: "ch_leaves exact ?c > 0" using assms(1) by (simp_all add: overdue_def)
    have lv: "ch_leaves exact ?c = ch_qty ?c - ch_filled ?c" "ch_qty ?c - ch_filled ?c > 0" using l by (auto simp: ch_leaves_def exact_def Let_def split: if_splits)
    have a: "a < length (cx_heap cx)" using assms(2,4) p by (auto simp: S cx_inv_def parent_ok_def)
    have can: "moves honest (max_replaces cx) ?c (?c\<lparr>ch_status := C_CANCELLED\<rparr>)" by (simp add: moves_def live_def cell_ok_def committed_def w)
    show ?thesis
    proof (cases "replaces ?c + 1 \<le> max_replaces cx \<and> ch_qty ?c - ch_filled ?c > min_child_qty cx")
      case False
      with True lv(1) have "snd (straggler X now ok pid a S) = cx\<lparr>cx_heap := (cx_heap cx)[a := ?c\<lparr>ch_status := C_CANCELLED\<rparr>]\<rparr>"
        by (auto simp: straggler_def S Let_def assms(1))
      then show ?thesis using cx_inv_move [OF _ can a] assms(2) p by (simp add: S grows_def)
    next
      case roll: True
      then have "cx_inv honest (snd (straggler X now ok pid a S))"
        using straggler_roll_inv [of honest cx pid p a "ch_id ?c @ ''_r'' @ str_int (replaces ?c + 1)" now "slice_index ?c"] assms(2,4) p w lv True
        by (auto simp: straggler_def S Let_def assms(1))
      moreover have "grows pid as (snd (straggler X now ok pid a S))"
        using roll True lv(1) p by (auto simp: straggler_def S Let_def assms(1) grows_def)
      ultimately show ?thesis ..
    qed
  qed
qed

lemma stragglers_inv:
  assumes "x_ctx X = exact" and "cx_inv honest (snd S)" and "grows pid as (snd S)" and "set bs \<subseteq> set as"
  shows "cx_inv honest (snd (foldl (\<lambda>S a. straggler X now ok pid a S) S bs)) \<and> grows pid as (snd (foldl (\<lambda>S a. straggler X now ok pid a S) S bs))"
  using assms(2-4) by (induction bs arbitrary: S) (auto simp: straggler_inv [OF assms(1)])

lemma release_due_inv:
  assumes "cx_inv honest (snd S)" and "set as \<subseteq> {..<length (cx_heap (snd S))}" and "release_due X now R price p as S = (r, S')"
  shows "cx_inv honest (snd S')"
  using assms
proof (induction X now R price p as S arbitrary: r S' rule: release_due.induct)
  case (1 X now R price p S)
  then show ?case by simp
next
  case (2 X now R price p a as tk cx)
  let ?c = "cx_heap cx ! a"
  have a: "a < length (cx_heap cx)" "set as \<subseteq> {..<length (cx_heap cx)}" using 2(6) by auto
  show ?case
  proof (cases "due now ?c")
    case False
    then show ?thesis using 2 a by simp
  next
    case due: True
    then have pend: "ch_status ?c = C_PENDING" by (simp add: due_def)
    show ?thesis
    proof (cases "ch_qty ?c \<le> min_child_qty cx")
      case True
      have "moves honest (max_replaces cx) ?c (?c\<lparr>ch_status := C_CANCELLED\<rparr>)" by (simp add: moves_def live_def cell_ok_def committed_def pend)
      from cx_inv_move [OF _ this a(1)] 2(5) show ?thesis
        using 2(2) [OF refl _ True] 2(7) due True a by auto
    next
      case False
      obtain q cx1 where rel: "release_child X now (R a) price p a cx = (q, cx1)" by (meson surj_pair)
      have inv: "cx_inv honest cx1" "length (cx_heap cx1) = length (cx_heap cx)"
        using release_child_inv [OF _ a(1) pend rel, of honest] 2(5) by simp_all
      show ?thesis
      proof (cases q)
        case (Inl e)
        then show ?thesis using 2(7) due False rel inv by auto
      next
        case (Inr o')
        then show ?thesis using 2(3) [OF refl _ False rel [symmetric]] 2(4) [OF refl _ False rel [symmetric]] 2(7) due False rel inv a by (cases o') auto
      qed
    qed
  qed
qed

lemma tick_parent_inv:
  assumes "x_ctx X = exact" and "cx_inv honest (snd S)" and "tick_parent X now T pid S = (r, S')"
  shows "cx_inv honest (snd S')"
proof (cases "dict_get (cx_parents (snd S)) pid")
  case None
  with assms show ?thesis by (simp add: tick_parent_def)
next
  case (Some p)
  show ?thesis
  proof (cases "is_complete (x_ctx X) (snd S) p")
    case True
    with assms Some show ?thesis by (simp add: tick_parent_def)
  next
    case False
    define S1 where "S1 = foldl (\<lambda>S a. straggler X now (ti_cancel T) pid a S) S (children p)"
    have S1: "cx_inv honest (snd S1)" "grows pid (children p) (snd S1)"
      unfolding S1_def using stragglers_inv [OF assms(1,2), of pid "children p" "children p" now "ti_cancel T"] Some by (auto simp: grows_def)
    then obtain p1 where p1: "dict_get (cx_parents (snd S1)) pid = Some p1" by (auto simp: grows_def)
    then have "set (children p1) \<subseteq> {..<length (cx_heap (snd S1))}" using S1(1) by (auto simp: cx_inv_def parent_ok_def)
    from release_due_inv [OF S1(1) this] assms(3) show ?thesis
      using Some False p1 by (simp add: tick_parent_def Let_def S1_def)
  qed
qed

lemma cx_step_inv:
  assumes "x_ctx X = exact" and "cx_inv honest cx" and "cx_step X now T cx = (r, tk, cx')"
  shows "cx_inv honest cx'"
proof -
  have "cx_inv honest (snd S) \<Longrightarrow> tick_parents X now T pids S = (r, S') \<Longrightarrow> cx_inv honest (snd S')" for pids S r S'
  proof (induction pids arbitrary: S)
    case (Cons pid pids)
    obtain q S1 where "tick_parent X now T pid S = (q, S1)" by (meson surj_pair)
    with Cons tick_parent_inv [OF assms(1) Cons.prems(1) this] show ?case by (cases q) auto
  qed simp
  from this [of "(\<lparr>tk_released = [], tk_cancelled = [], tk_replaced = [], tk_errors = []\<rparr>, cx)"] assms(2,3) show ?thesis
    unfolding cx_step_def by (metis snd_conv)
qed

text \<open>
  A broker that keeps its word: no more than the quantity of a child is filled, and nothing of it after the
  executor wrote it off.
\<close>

definition written_off :: "ChildOrder \<Rightarrow> bool" where
  "written_off c \<longleftrightarrow> ch_status c \<in> {C_REPLACED, C_CANCELLED, C_REJECTED}"

definition fill_honest :: "ChildExecutor \<Rightarrow> string \<Rightarrow> rat \<Rightarrow> bool" where
  "fill_honest cx coid cum \<longleftrightarrow>
     (case dict_get (child_by_coid cx) coid of None \<Rightarrow> True
      | Some a \<Rightarrow> cum \<le> ch_qty (cx_heap cx ! a) \<and> (written_off (cx_heap cx ! a) \<longrightarrow> cum \<le> ch_filled (cx_heap cx ! a)))"

definition end_honest :: "ChildExecutor \<Rightarrow> string \<Rightarrow> OrderStatus \<Rightarrow> bool" where
  "end_honest cx coid st \<longleftrightarrow>
     (case dict_get (child_by_coid cx) coid of None \<Rightarrow> True | Some a \<Rightarrow> st = O_FILLED \<longrightarrow> \<not> written_off (cx_heap cx ! a))"

lemma on_child_fill_inv:
  assumes "cx_inv honest cx" and "0 \<le> cum" and "honest \<longrightarrow> fill_honest cx coid cum"
  shows "cx_inv honest (on_child_fill coid cum avg cx)"
proof (cases "dict_get (child_by_coid cx) coid")
  case (Some a)
  have "a < length (cx_heap cx)" using assms(1) Some by (auto simp: cx_inv_def ran_def)
  with assms Some show ?thesis
    by (auto simp: on_child_fill_def Let_def moves_def live_def cell_ok_def committed_def fill_honest_def written_off_def intro!: cx_inv_move)
qed (use assms in \<open>simp add: on_child_fill_def\<close>)

lemma on_order_terminal_inv:
  assumes "cx_inv honest cx" and "honest \<longrightarrow> end_honest cx coid st"
  shows "cx_inv honest (on_order_terminal coid st cx)"
proof (cases "dict_get (child_by_coid cx) coid")
  case (Some a)
  have "a < length (cx_heap cx)" using assms(1) Some by (auto simp: cx_inv_def ran_def)
  with assms Some show ?thesis
    by (auto simp: on_order_terminal_def Let_def moves_def live_def cell_ok_def committed_def end_honest_def written_off_def intro!: cx_inv_move)
qed (use assms in \<open>simp add: on_order_terminal_def\<close>)

lemma slice_qtys_sum: "slice_qtys exact dec_repr tot w = Some qs \<Longrightarrow> sum_list qs = tot"
  by (auto simp: slice_qtys_def exact_def Let_def)

lemma slices_sum:
  assumes "\<forall>q \<in> set qs. 0 \<le> q"
  shows "sum_list (map ch_qty (slices F pid start iv qs)) = sum_list qs"
proof -
  have "sum_list (map snd (filter (\<lambda>(i, q). q > 0) (enumerate n qs))) = sum_list qs" for n
    using assms by (induction qs arbitrary: n) auto
  then show ?thesis by (simp add: slices_def new_child_def case_prod_unfold comp_def)
qed

lemma slices_new: "c \<in> set (slices F pid start iv qs) \<Longrightarrow> 0 < ch_qty c \<and> ch_filled c = 0 \<and> replaces c = 0 \<and> ch_status c = C_PENDING"
  by (auto simp: slices_def new_child_def)

lemma over_new: "over g {length xs ..< length xs + length cs} (\<lambda>b. (xs @ cs) ! b) = sum_list (map g cs)"
proof -
  have "over g {length xs ..< length xs + length cs} (\<lambda>b. (xs @ cs) ! b) = (\<Sum>i = 0 ..< length cs. g (cs ! i))"
    unfolding over_def by (rule sum.reindex_bij_witness [where i = "\<lambda>i. i + length xs" and j = "\<lambda>b. b - length xs"]) (auto simp: nth_append)
  then show ?thesis by (simp add: sum_list_sum_nth)
qed

lemma book_new:
  assumes "\<forall>c \<in> set cs. 0 < ch_qty c \<and> ch_filled c = 0 \<and> replaces c = 0 \<and> ch_status c = C_PENDING" and "sum_list (map ch_qty cs) \<le> tot"
  shows "book honest mx tot {length xs ..< length xs + length cs} (\<lambda>b. (xs @ cs) ! b)"
proof -
  have cell: "\<forall>b \<in> {length xs ..< length xs + length cs}. cell_ok honest mx ((xs @ cs) ! b)"
  proof
    fix b assume b: "b \<in> {length xs ..< length xs + length cs}"
    then have "(xs @ cs) ! b \<in> set cs" by (auto simp: nth_append)
    then show "cell_ok honest mx ((xs @ cs) ! b)" using assms(1) by (auto simp: cell_ok_def)
  qed
  have m: "map (of_generation 0) cs = map ch_qty cs" "map committed cs = map ch_qty cs"
    using assms(1) by (auto simp: of_generation_def committed_def)
  have z: "map (of_generation (j + 1)) cs = map (\<lambda>_. 0) cs" "map (ended j) cs = map (\<lambda>_. 0) cs" if "0 \<le> j" for j
    using assms(1) that by (auto simp: of_generation_def ended_def live_def)
  show ?thesis unfolding book_def over_new using cell assms(2) by (simp add: m z)
qed

lemma submit_parent_inv:
  assumes "x_ctx X = exact" and "cx_inv honest cx" and "submit_parent X fsum dec_repr symbol side tot n start ws iv lmt pid cx = (r, cx')"
    and "\<forall>qs. slice_qtys exact dec_repr tot (normalized_weights (x_ops X) fsum n ws) = Some qs \<longrightarrow> (\<forall>q \<in> set qs. 0 \<le> q)"
  shows "cx_inv honest cx'"
proof -
  have put: "cx_inv honest (cx\<lparr>cx_heap := cx_heap cx @ cs, cx_parents := dict_set (cx_parents cx) pid p\<rparr>)"
    if p: "children p = [length (cx_heap cx) ..< length (cx_heap cx) + length cs]"
      and cs: "\<forall>c \<in> set cs. 0 < ch_qty c \<and> ch_filled c = 0 \<and> replaces c = 0 \<and> ch_status c = C_PENDING" "sum_list (map ch_qty cs) \<le> max 0 (total_qty p)" for p cs
  proof -
    let ?cx = "cx\<lparr>cx_heap := cx_heap cx @ cs, cx_parents := dict_set (cx_parents cx) pid p\<rparr>"
    have old: "parent_ok honest ?cx q" "set (children q) \<subseteq> {..<length (cx_heap cx)}" if k: "dict_get (cx_parents cx) k = Some q" for k q
    proof -
      have ok: "parent_ok honest cx q" using assms(2) k by (simp add: cx_inv_def)
      then show sub: "set (children q) \<subseteq> {..<length (cx_heap cx)}" by (simp add: parent_ok_def)
      have "book honest (max_replaces cx) (max 0 (total_qty q)) (set (children q)) (\<lambda>b. (cx_heap cx @ cs) ! b)"
        using ok sub by (subst book_cong [where f' = "\<lambda>b. cx_heap cx ! b"]) (auto simp: parent_ok_def nth_append)
      then show "parent_ok honest ?cx q" using ok by (auto simp: parent_ok_def)
    qed
    have "parent_ok honest ?cx p" using book_new [OF cs, of honest "max_replaces cx" "cx_heap cx"] by (auto simp: parent_ok_def p)
    then have all: "parent_ok honest ?cx q" if "dict_get (cx_parents ?cx) k = Some q" for k q
      using that old [of k q] by (cases "k = pid") auto
    have dj: "set (children q) \<inter> set (children q') = {}" if "k \<noteq> k'" "dict_get (cx_parents ?cx) k = Some q" "dict_get (cx_parents ?cx) k' = Some q'" for k k' q q'
    proof -
      have "set (children u) \<inter> set (children u') = {}" if "j \<noteq> j'" "dict_get (cx_parents cx) j = Some u" "dict_get (cx_parents cx) j' = Some u'" for j j' u u'
        using assms(2) that unfolding cx_inv_def by blast
      then show ?thesis using that old(2) [of k q] old(2) [of k' q'] p by (fastforce split: if_splits)
    qed
    have rn: "ran (dict_get (child_by_coid ?cx)) \<subseteq> {..<length (cx_heap ?cx)}" using assms(2) by (auto simp: cx_inv_def)
    show ?thesis unfolding cx_inv_def using all dj rn by blast
  qed
  have sums: "sum_list (map ch_qty (slices F pid start v qs)) \<le> max 0 tot"
    if "slice_qtys exact dec_repr tot (normalized_weights (x_ops X) fsum n ws) = Some qs" for F v qs
    using slices_sum [of qs F pid start v] slice_qtys_sum [OF that] assms(4) that by simp
  show ?thesis
    using assms(2,3) put [of _ "[]"] put sums slices_new
    by (auto simp: submit_parent_def Let_def assms(1) split: if_splits option.splits)
qed

text \<open>
  The states of the executor: parents are submitted whose slices are not negative, the clock ticks, fills and
  ends of orders are reported, and other users of the engine change it.
\<close>

inductive cx_reach :: "ex_env \<Rightarrow> bool \<Rightarrow> ChildExecutor \<Rightarrow> bool" for X honest where
  start: "cx_heap cx = [] \<Longrightarrow> cx_parents cx = [] \<Longrightarrow> child_by_coid cx = [] \<Longrightarrow> cx_reach X honest cx"
| parent: "cx_reach X honest cx \<Longrightarrow> submit_parent X fsum dec_repr symbol side tot n start ws iv lmt pid cx = (r, cx') \<Longrightarrow>
    \<forall>qs. slice_qtys (x_ctx X) dec_repr tot (normalized_weights (x_ops X) fsum n ws) = Some qs \<longrightarrow> (\<forall>q \<in> set qs. 0 \<le> q) \<Longrightarrow> cx_reach X honest cx'"
| tick: "cx_reach X honest cx \<Longrightarrow> cx_step X now T cx = (r, tk, cx') \<Longrightarrow> cx_reach X honest cx'"
| fill: "cx_reach X honest cx \<Longrightarrow> 0 \<le> cum \<Longrightarrow> honest \<longrightarrow> fill_honest cx coid cum \<Longrightarrow> cx_reach X honest (on_child_fill coid cum avg cx)"
| ended: "cx_reach X honest cx \<Longrightarrow> honest \<longrightarrow> end_honest cx coid st \<Longrightarrow> cx_reach X honest (on_order_terminal coid st cx)"
| engine: "cx_reach X honest cx \<Longrightarrow> cx_reach X honest (cx\<lparr>cx_engine := e\<rparr>)"

lemma cx_reach_inv:
  assumes "cx_reach X honest cx" and "x_ctx X = exact"
  shows "cx_inv honest cx"
  using assms(1)
proof induction
  case (start cx)
  then show ?case by (simp add: cx_inv_def)
next
  case (parent cx fsum dec_repr symbol side tot n start ws iv lmt pid r cx')
  then show ?case using submit_parent_inv [OF assms(2)] by (simp add: assms(2))
next
  case (tick cx now T r tk cx')
  then show ?case using cx_step_inv [OF assms(2)] by blast
next
  case (fill cx cum coid avg)
  show ?case by (rule on_child_fill_inv) (fact fill)+
next
  case (ended cx coid st)
  show ?case by (rule on_order_terminal_inv) (fact ended)+
qed simp

lemma over_kids: "distinct (children p) \<Longrightarrow> over g (set (children p)) (\<lambda>b. cx_heap cx ! b) = sum_list (map g (kids cx p))"
  by (simp add: over_def kids_def comp_def sum.distinct_set_conv_list)

lemma kids_sums:
  assumes "cx_inv honest cx" and "dict_get (cx_parents cx) pid = Some p"
  shows "sum_list (map ch_qty (kids cx p)) \<le> of_int (1 + max 0 (max_replaces cx)) * max 0 (total_qty p)"
    and "honest \<Longrightarrow> sum_list (map ch_filled (kids cx p)) \<le> max 0 (total_qty p)"
    and "c \<in> set (kids cx p) \<Longrightarrow> cell_ok honest (max_replaces cx) c"
proof -
  have ok: "distinct (children p)" "book honest (max_replaces cx) (max 0 (total_qty p)) (set (children p)) (\<lambda>b. cx_heap cx ! b)"
    using assms by (auto simp: cx_inv_def parent_ok_def)
  show "sum_list (map ch_qty (kids cx p)) \<le> of_int (1 + max 0 (max_replaces cx)) * max 0 (total_qty p)"
    using book_total [OF ok(2)] by (simp only: over_kids [OF ok(1)])
  show "sum_list (map ch_filled (kids cx p)) \<le> max 0 (total_qty p)" if honest
    using book_filled [of "max_replaces cx" "max 0 (total_qty p)" "set (children p)" "\<lambda>b. cx_heap cx ! b"] ok(2) that
    by (simp only: over_kids [OF ok(1)] simp_thms)
  show "cell_ok honest (max_replaces cx) c" if "c \<in> set (kids cx p)" using that ok(2) by (auto simp: kids_def book_def)
qed



subsection \<open>An example\<close>

definition sample_release :: "string \<Rightarrow> broker_answer \<Rightarrow> release_in" where
  "sample_release iid ans = \<lparr>ri_exec = sample_in iid ans, ri_intent_id = iid, ri_created = 0\<rparr>"

definition sample_tick :: "broker_answer \<Rightarrow> string \<Rightarrow> tick_in" where
  "sample_tick ans tag = \<lparr>ti_cancel = \<lambda>_. True, ti_release = (\<lambda>a. sample_release (tag @ str_nat a) ans), ti_price = \<lambda>_. Some 100\<rparr>"

definition sample_executor :: ChildExecutor where
  "sample_executor = \<lparr>cx_engine = sample_engine 50, cx_strategy = ''s'', slice_interval = Fin 30, straggler_timeout = Fin 60, max_replaces = 3,
     min_child_qty = 0, use_limit_orders = False, cx_can_cancel = False, cx_heap = [], cx_parents = [], child_by_coid = []\<rparr>"

definition sample_submit :: "ChildExecutor \<Rightarrow> ChildExecutor" where
  "sample_submit cx = snd (submit_parent sample_X (\<lambda>_. Fin 0) (\<lambda>x. x) ''AAPL'' ''buy'' 4 1 (Fin 0) None None None ''p'' cx)"

definition sample_clock :: "pyfloat \<Rightarrow> broker_answer \<Rightarrow> string \<Rightarrow> ChildExecutor \<Rightarrow> ChildExecutor" where
  "sample_clock now ans tag cx = snd (snd (cx_step sample_X now (sample_tick ans tag) cx))"

lemma sample_reach_submit: "cx_reach sample_X honest cx \<Longrightarrow> cx_reach sample_X honest (sample_submit cx)"
proof -
  assume r: "cx_reach sample_X honest cx"
  obtain q cx' where s: "submit_parent sample_X (\<lambda>_. Fin 0) (\<lambda>x. x) ''AAPL'' ''buy'' 4 1 (Fin 0) None None None ''p'' cx = (q, cx')" by (meson surj_pair)
  have "\<forall>qs. slice_qtys (x_ctx sample_X) (\<lambda>x. x) 4 (normalized_weights (x_ops sample_X) (\<lambda>_. Fin 0) 1 None) = Some qs \<longrightarrow> (\<forall>q \<in> set qs. 0 \<le> q)"
    by (simp add: sample_X_def normalized_weights_def exact_ops_def slice_qtys_def dec_sum_def)
  with r s show ?thesis by (auto simp: sample_submit_def intro: parent)
qed

definition sample_cx :: ChildExecutor where
  "sample_cx = sample_clock (Fin 100) (Accepted (Some ''x'')) ''b'' (sample_clock (Fin 40) (Accepted (Some ''x'')) ''a'' (sample_submit sample_executor))"

lemma sample_executor_reach: "cx_reach sample_X honest sample_executor"
  by (rule start) (simp_all add: sample_executor_def)

definition all_filled :: "ChildExecutor \<Rightarrow> ChildExecutor" where
  "all_filled cx = foldl (\<lambda>cx c. on_child_fill c 4 None cx) cx (dict_keys (child_by_coid cx))"

definition totals :: "ChildExecutor \<Rightarrow> (rat \<times> rat) list" where
  "totals cx = map (\<lambda>p. (total_qty p, pa_filled (\<lambda>x. x) cx p)) (dict_values (cx_parents cx))"

text \<open>
  No cancel is wired: the executor takes the children as cancelled, and the broker fills them and their
  replacements.
\<close>

lemma late_fills_overfill: "totals (all_filled sample_cx) = [(4, 8)]"
  by code_simp

text \<open>A broker call that raises leaves the child pending, and the next tick sends it again under a new intent.\<close>

lemma raised_release_sent_again:
  "let cx1 = sample_clock (Fin 0) Broker_raises ''a'' (sample_submit sample_executor);
       cx2 = sample_clock (Fin 1) (Accepted (Some ''x'')) ''b'' cx1 in
   map ch_status (cx_heap cx1) = [C_PENDING] \<and> map quantity (sent (cx_engine cx1)) = [4] \<and> map quantity (sent (cx_engine cx2)) = [4, 4]"
  by code_simp

text \<open>The same parent submitted again, as a repeated batch does: everything is sent again.\<close>

lemma resubmitted_parent_sent_twice:
  "map quantity (sent (cx_engine (sample_clock (Fin 41) (Accepted None) ''b'' (sample_submit (sample_clock (Fin 40) (Accepted None) ''a'' (sample_submit sample_executor)))))) =
   [4, 4]"
  by code_simp

lemma sample_submit_has: "dict_has (cx_parents (sample_submit sample_executor)) ''p''"
  by code_simp



end
