(* ===== verification/Order_Routing.thy ===== *)
theory Order_Routing
  imports Execution_Safety "HOL-Library.Multiset"
begin

section \<open>Order routing\<close>

text \<open>
  Model of \<^verbatim>\<open>packages/agent/execution/router.py\<close>, of
  \<^verbatim>\<open>packages/agent/execution/smart_order_router.py\<close> and of the functions of
  \<^verbatim>\<open>packages/agent/execution/live_factory.py\<close> that put the smart order router in front of the
  venues: \<^verbatim>\<open>BrokerLiquidityProvider\<close>, \<^verbatim>\<open>make_venue_submit\<close> and
  \<^verbatim>\<open>routed_broker_submit\<close>.  Floats are rounded by \<open>F\<close>; \<open>sq\<close> is
  \<^verbatim>\<open>math.sqrt\<close> and \<open>fsum\<close> the sum of floats.  Literals are the decimals they are
  written as.  The connectors of the venues are parameters; \<open>'w\<close> is what their orders change.
\<close>

subsection \<open>Routing rules\<close>

record RoutingRule =
  rr_name :: string
  rr_broker :: string
  rr_priority :: int
  rr_symbols :: "string list option"
  symbol_prefix :: "string option"
  rr_asset_class :: "string option"
  min_size :: "rat option"
  max_size :: "rat option"
  rr_enabled :: bool

definition rule_matches :: "Order \<Rightarrow> RoutingRule \<Rightarrow> bool" where
  "rule_matches x r =
     (if \<not> rr_enabled r then False
      else if truthy (rr_symbols r) \<and> o_symbol x \<notin> set (the (rr_symbols r)) then False
      else if truthy (symbol_prefix r) \<and> \<not> prefix (the (symbol_prefix r)) (o_symbol x) then False
      else if (case min_size r of Some m \<Rightarrow> m \<noteq> 0 \<and> quantity x < m | None \<Rightarrow> False) then False
      else if (case max_size r of Some m \<Rightarrow> m \<noteq> 0 \<and> quantity x > m | None \<Rightarrow> False) then False
      else True)"

record RoutingResult =
  rt_success :: bool
  rt_broker :: "string option"
  rule_name :: "string option"
  rt_error :: "string option"

record OrderRouter =
  default_broker :: string
  router_rules :: "RoutingRule list"

text \<open>\<^verbatim>\<open>sort(key=priority, reverse=True)\<close> is stable: equal priorities keep their order.\<close>

definition by_priority :: "RoutingRule list \<Rightarrow> RoutingRule list" where
  "by_priority rs = sort_key (\<lambda>r. - rr_priority r) rs"

definition init_OrderRouter :: "string \<Rightarrow> RoutingRule list option \<Rightarrow> OrderRouter" where
  "init_OrderRouter b rs = \<lparr>default_broker = b, router_rules = by_priority (case rs of None \<Rightarrow> [] | Some l \<Rightarrow> l)\<rparr>"

definition add_rule :: "RoutingRule \<Rightarrow> OrderRouter \<Rightarrow> OrderRouter" where
  "add_rule r R = R\<lparr>router_rules := by_priority (router_rules R @ [r])\<rparr>"

fun remove_first :: "('a \<Rightarrow> bool) \<Rightarrow> 'a list \<Rightarrow> 'a list" where
  "remove_first P [] = []"
| "remove_first P (x # xs) = (if P x then xs else x # remove_first P xs)"

definition remove_rule :: "string \<Rightarrow> OrderRouter \<Rightarrow> bool \<times> OrderRouter" where
  "remove_rule n R =
     (\<exists>r \<in> set (router_rules R). rr_name r = n, R\<lparr>router_rules := remove_first (\<lambda>r. rr_name r = n) (router_rules R)\<rparr>)"

definition route_order :: "Order \<Rightarrow> OrderRouter \<Rightarrow> RoutingResult" where
  "route_order x R =
     (case find (rule_matches x) (router_rules R) of
        Some r \<Rightarrow> \<lparr>rt_success = True, rt_broker = Some (rr_broker r), rule_name = Some (rr_name r), rt_error = None\<rparr>
      | None \<Rightarrow> \<lparr>rt_success = True, rt_broker = Some (default_broker R), rule_name = Some ''default'', rt_error = None\<rparr>)"

definition get_brokers :: "OrderRouter \<Rightarrow> string list" where
  "get_brokers R = sort (remdups (default_broker R # map rr_broker (router_rules R)))"

subsection \<open>Venues\<close>

record VenueQuote =
  q_bid :: pyfloat
  q_ask :: pyfloat
  bid_size :: pyfloat
  ask_size :: pyfloat

record Venue =
  v_name :: string
  fee_bps :: pyfloat
  latency_ms :: pyfloat
  liquidity :: pyfloat
  impact_coef :: pyfloat
  latency_penalty :: pyfloat
  min_notional :: pyfloat
  v_enabled :: bool
  v_quote :: "VenueQuote option"
  spread_bps :: pyfloat

definition tiny :: pyfloat where
  "tiny = Fin (1 / 10 ^ 9)"

definition update_from_quote :: "float_ops \<Rightarrow> VenueQuote \<Rightarrow> string \<Rightarrow> Venue \<Rightarrow> Venue" where
  "update_from_quote F q side v =
     (let v1 = v\<lparr>v_quote := Some q\<rparr>;
          mid = (if flt_lt (Fin 0) (q_bid q) \<and> flt_lt (Fin 0) (q_ask q) then fdiv F (fadd F (q_bid q) (q_ask q)) (Fin 2)
                 else flt_max (q_bid q) (q_ask q));
          v2 = (if flt_lt (Fin 0) mid \<and> flt_lt (q_bid q) (q_ask q) \<and> flt_lt (Fin 0) (q_bid q)
                then v1\<lparr>spread_bps := fdiv F (fmul F (fdiv F (fsub F (q_ask q) (q_bid q)) mid) (Fin 10000)) (Fin 2)\<rparr> else v1) in
      if upper side = ''BUY'' \<and> flt_lt (Fin 0) (q_ask q) then v2\<lparr>liquidity := flt_max (fmul F (ask_size q) (q_ask q)) tiny\<rparr>
      else if upper side = ''SELL'' \<and> flt_lt (Fin 0) (q_bid q) then v2\<lparr>liquidity := flt_max (fmul F (bid_size q) (q_bid q)) tiny\<rparr>
      else v2)"

definition marginal_cost_bps :: "float_ops \<Rightarrow> (pyfloat \<Rightarrow> pyfloat) \<Rightarrow> Venue \<Rightarrow> pyfloat \<Rightarrow> pyfloat \<Rightarrow> pyfloat" where
  "marginal_cost_bps F sq v filled extra =
     (let liq = flt_max (liquidity v) tiny;
          part0 = fdiv F filled liq;
          part1 = fdiv F (fadd F filled extra) liq;
          impact = fmul F (fmul F (impact_coef v) (fdiv F (fadd F (sq (flt_max part1 (Fin 0))) (sq (flt_max part0 (Fin 0)))) (Fin 2))) (Fin 10000);
          latency = fmul F (latency_penalty v) (fdiv F (latency_ms v) (Fin 100)) in
      fadd F (fadd F (fadd F (fee_bps v) (spread_bps v)) impact) latency)"

record VenueAllocation =
  va_venue :: string
  va_notional :: pyfloat
  est_cost_bps :: pyfloat
  est_cost :: pyfloat

record RouteResult =
  ro_symbol :: string
  ro_side :: string
  total_notional :: pyfloat
  ro_allocations :: "VenueAllocation list"
  total_est_cost :: pyfloat
  total_est_cost_bps :: pyfloat

record SmartOrderRouter =
  sor_venues :: "Venue list"
  n_steps :: int

definition init_SmartOrderRouter :: "Venue list \<Rightarrow> int \<Rightarrow> SmartOrderRouter" where
  "init_SmartOrderRouter vs n = \<lparr>sor_venues = filter v_enabled vs, n_steps = n\<rparr>"

text \<open>\<^verbatim>\<open>min(xs, key=f)\<close>: a later element wins only with a strictly smaller key.\<close>

definition least_by :: "('a \<Rightarrow> pyfloat) \<Rightarrow> 'a list \<Rightarrow> 'a" where
  "least_by f xs = foldl (\<lambda>b x. if flt_lt (f x) (f b) then x else b) (hd xs) (tl xs)"

definition best_venue :: "float_ops \<Rightarrow> (pyfloat \<Rightarrow> pyfloat) \<Rightarrow> pyfloat \<Rightarrow> SmartOrderRouter \<Rightarrow> Venue option" where
  "best_venue F sq notional R =
     (let cands = filter (\<lambda>v. flt_le (min_notional v) notional \<and> flt_lt (Fin 0) (liquidity v)) (sor_venues R) in
      if cands = [] then None else Some (least_by (\<lambda>v. marginal_cost_bps F sq v (Fin 0) notional) cands))"

definition route_result :: "float_ops \<Rightarrow> (pyfloat list \<Rightarrow> pyfloat) \<Rightarrow> string \<Rightarrow> string \<Rightarrow> pyfloat \<Rightarrow> VenueAllocation list \<Rightarrow> RouteResult" where
  "route_result F fsum symbol side notional allocs =
     (let cost = fsum (map est_cost allocs) in
      \<lparr>ro_symbol = symbol, ro_side = side, total_notional = notional, ro_allocations = allocs, total_est_cost = cost,
       total_est_cost_bps = (if flt_lt (Fin 0) notional then fmul F (fdiv F cost notional) (Fin 10000) else Fin 0)\<rparr>)"

definition venue_allocation :: "float_ops \<Rightarrow> (pyfloat \<Rightarrow> pyfloat) \<Rightarrow> Venue \<Rightarrow> pyfloat \<Rightarrow> VenueAllocation" where
  "venue_allocation F sq v notional =
     (let bps = marginal_cost_bps F sq v (Fin 0) notional in
      \<lparr>va_venue = v_name v, va_notional = notional, est_cost_bps = bps, est_cost = fdiv F (fmul F notional bps) (Fin 10000)\<rparr>)"

definition poured_at :: "(string, pyfloat) dict \<Rightarrow> string \<Rightarrow> pyfloat" where
  "poured_at d n = (case dict_get d n of Some x \<Rightarrow> x | None \<Rightarrow> Fin 0)"

definition cheapest :: "float_ops \<Rightarrow> (pyfloat \<Rightarrow> pyfloat) \<Rightarrow> Venue list \<Rightarrow> (string, pyfloat) dict \<Rightarrow> pyfloat \<Rightarrow> Venue" where
  "cheapest F sq vs filled chunk = least_by (\<lambda>v. marginal_cost_bps F sq v (poured_at filled (v_name v)) chunk) vs"

text \<open>Water filling: the next piece goes to the venue where it costs least.  \<open>None\<close>: the loop does not end.\<close>

partial_function (option) fill_loop ::
  "float_ops \<Rightarrow> (pyfloat \<Rightarrow> pyfloat) \<Rightarrow> Venue list \<Rightarrow> pyfloat \<Rightarrow> (string, pyfloat) dict \<Rightarrow> pyfloat \<Rightarrow> (string, pyfloat) dict option" where
  "fill_loop F sq vs step filled remaining =
     (if flt_lt tiny remaining
      then
        (let chunk = flt_min step remaining; n = v_name (cheapest F sq vs filled chunk) in
         fill_loop F sq vs step (dict_set filled n (fadd F (poured_at filled n) chunk)) (fsub F remaining chunk))
      else Some filled)"

declare fill_loop.simps [code]

text \<open>\<^verbatim>\<open>sort(key=lambda a: -a.notional)\<close>, stable.\<close>

fun insert_largest :: "VenueAllocation \<Rightarrow> VenueAllocation list \<Rightarrow> VenueAllocation list" where
  "insert_largest a [] = [a]"
| "insert_largest a (b # bs) = (if flt_lt (va_notional a) (va_notional b) then b # insert_largest a bs else a # b # bs)"

definition largest_first :: "VenueAllocation list \<Rightarrow> VenueAllocation list" where
  "largest_first as = foldr insert_largest as []"

definition usable_venues :: "pyfloat \<Rightarrow> SmartOrderRouter \<Rightarrow> Venue list" where
  "usable_venues notional R = filter (\<lambda>v. flt_le (min_notional v) notional \<and> flt_lt (Fin 0) (liquidity v)) (sor_venues R)"

definition nothing_filled :: "Venue list \<Rightarrow> (string, pyfloat) dict" where
  "nothing_filled vs = foldl (\<lambda>d v. dict_set d (v_name v) (Fin 0)) [] vs"

definition venue_map :: "Venue list \<Rightarrow> (string, Venue) dict" where
  "venue_map vs = foldl (\<lambda>d v. dict_set d (v_name v) v) [] vs"

definition filled_allocations :: "float_ops \<Rightarrow> (pyfloat \<Rightarrow> pyfloat) \<Rightarrow> Venue list \<Rightarrow> (string, pyfloat) dict \<Rightarrow> VenueAllocation list" where
  "filled_allocations F sq vs filled =
     map (\<lambda>(n, x). (venue_allocation F sq (the (dict_get (venue_map vs) n)) x)\<lparr>va_venue := n\<rparr>) (filter (\<lambda>(n, x). \<not> flt_le x tiny) filled)"

definition route_split ::
  "float_ops \<Rightarrow> (pyfloat \<Rightarrow> pyfloat) \<Rightarrow> (pyfloat list \<Rightarrow> pyfloat) \<Rightarrow> string \<Rightarrow> string \<Rightarrow> pyfloat \<Rightarrow> bool \<Rightarrow> SmartOrderRouter \<Rightarrow> RouteResult option" where
  "route_split F sq fsum symbol side notional split R =
     (let vs = usable_venues notional R in
      if vs = [] \<or> flt_le notional (Fin 0) then Some (route_result F fsum symbol side notional [])
      else if \<not> split \<or> length vs = 1
      then Some (route_result F fsum symbol side notional
             [venue_allocation F sq (least_by (\<lambda>v. marginal_cost_bps F sq v (Fin 0) notional) vs) notional])
      else
        (let step = (if n_steps R > 0 then fdiv F notional (Fin (of_int (n_steps R))) else notional) in
         map_option (\<lambda>filled. route_result F fsum symbol side notional (largest_first (filled_allocations F sq vs filled)))
           (fill_loop F sq vs step (nothing_filled vs) notional)))"

subsection \<open>Live liquidity\<close>

text \<open>What the provider raises counts as no quote.\<close>

definition refresh_venue :: "float_ops \<Rightarrow> (string \<Rightarrow> string \<Rightarrow> VenueQuote option) \<Rightarrow> string \<Rightarrow> string \<Rightarrow> Venue \<Rightarrow> Venue" where
  "refresh_venue F provider symbol side v =
     (case provider (v_name v) symbol of None \<Rightarrow> v | Some q \<Rightarrow> update_from_quote F q side v)"

definition refresh_liquidity ::
  "float_ops \<Rightarrow> (string \<Rightarrow> string \<Rightarrow> VenueQuote option) \<Rightarrow> string \<Rightarrow> string \<Rightarrow> SmartOrderRouter \<Rightarrow> nat \<times> SmartOrderRouter" where
  "refresh_liquidity F provider symbol side R =
     (let vs = map (refresh_venue F provider symbol side) (sor_venues R) in
      (length (filter (\<lambda>v. provider (v_name v) symbol \<noteq> None \<and> flt_lt (Fin 0) (liquidity v)) vs), R\<lparr>sor_venues := vs\<rparr>))"

definition route_live ::
  "float_ops \<Rightarrow> (pyfloat \<Rightarrow> pyfloat) \<Rightarrow> (pyfloat list \<Rightarrow> pyfloat) \<Rightarrow> string \<Rightarrow> string \<Rightarrow> pyfloat \<Rightarrow> (string \<Rightarrow> string \<Rightarrow> VenueQuote option) \<Rightarrow> bool \<Rightarrow>
   SmartOrderRouter \<Rightarrow> RouteResult option \<times> SmartOrderRouter" where
  "route_live F sq fsum symbol side notional provider split R =
     (let R1 = snd (refresh_liquidity F provider symbol side R) in (route_split F sq fsum symbol side notional split R1, R1))"

subsection \<open>Orders to the venues\<close>

record VenueAnswer =
  an_success :: bool
  an_error :: "string option"
  an_broker :: "string option"
  an_venue :: "string option"
  an_qty :: "pyfloat option"

definition failed_answer :: "string \<Rightarrow> VenueAnswer" where
  "failed_answer err = \<lparr>an_success = False, an_error = Some err, an_broker = None, an_venue = None, an_qty = None\<rparr>"

record DispatchedVenue =
  dv_venue :: string
  dv_notional :: pyfloat
  dv_success :: bool
  dv_result :: VenueAnswer

record Dispatch =
  di_symbol :: string
  di_side :: string
  venues_dispatched :: nat
  venues_ok :: nat
  all_ok :: bool
  dispatches :: "DispatchedVenue list"

text \<open>\<^verbatim>\<open>submit_fn\<close> answers or raises, and changes the world either way.\<close>

type_synonym 'w venue_submit = "string \<Rightarrow> string \<Rightarrow> string \<Rightarrow> pyfloat \<Rightarrow> 'w \<Rightarrow> (string, VenueAnswer, 'w) pyres"

definition dispatch_one :: "'w venue_submit \<Rightarrow> RouteResult \<Rightarrow> VenueAllocation \<Rightarrow> 'w \<Rightarrow> DispatchedVenue \<times> 'w" where
  "dispatch_one submit_fn r a w =
     (case submit_fn (va_venue a) (ro_symbol r) (ro_side r) (va_notional a) w of
        (Inr res, w') \<Rightarrow> (\<lparr>dv_venue = va_venue a, dv_notional = va_notional a, dv_success = an_success res, dv_result = res\<rparr>, w')
      | (Inl exc, w') \<Rightarrow> (\<lparr>dv_venue = va_venue a, dv_notional = va_notional a, dv_success = False, dv_result = failed_answer exc\<rparr>, w'))"

fun dispatch_all :: "'w venue_submit \<Rightarrow> RouteResult \<Rightarrow> VenueAllocation list \<Rightarrow> 'w \<Rightarrow> DispatchedVenue list \<times> 'w" where
  "dispatch_all submit_fn r [] w = ([], w)"
| "dispatch_all submit_fn r (a # as) w =
     (let (d, w1) = dispatch_one submit_fn r a w; (ds, w2) = dispatch_all submit_fn r as w1 in (d # ds, w2))"

definition dispatch :: "'w venue_submit \<Rightarrow> RouteResult \<Rightarrow> 'w \<Rightarrow> Dispatch \<times> 'w" where
  "dispatch submit_fn r w =
     (let (ds, w') = dispatch_all submit_fn r (ro_allocations r) w; ok = length (filter dv_success ds) in
      (\<lparr>di_symbol = ro_symbol r, di_side = ro_side r, venues_dispatched = length ds, venues_ok = ok,
        all_ok = (ok = length ds \<and> length ds > 0), dispatches = ds\<rparr>, w'))"

text \<open>
  A connector: the last price, \<open>None\<close> also when it raises; the order book, when the connector has the
  method; and the submission of a market order.
\<close>

record BookTop =
  ob_bid :: "pyfloat option"
  ob_ask :: "pyfloat option"
  ob_bid_size :: "pyfloat option"
  ob_ask_size :: "pyfloat option"

record VenueOrder =
  vo_client_id :: string
  vo_symbol :: string
  vo_buy :: bool
  vo_quantity :: pyfloat

record 'w Connector =
  last_price :: "string \<Rightarrow> pyfloat option"
  order_book :: "(string \<Rightarrow> BookTop option) option"
  submit_order :: "VenueOrder \<Rightarrow> 'w \<Rightarrow> (string, bool \<times> string option, 'w) pyres"

definition flt_or :: "pyfloat option \<Rightarrow> pyfloat \<Rightarrow> pyfloat" where
  "flt_or x d = (case x of None \<Rightarrow> d | Some v \<Rightarrow> if v = Fin 0 then d else v)"

definition book_quote :: "float_ops \<Rightarrow> BookTop \<Rightarrow> VenueQuote option" where
  "book_quote F ob =
     (let bid = flt_or (ob_bid ob) (Fin 0); ask = flt_or (ob_ask ob) (Fin 0) in
      if flt_lt (Fin 0) bid \<and> flt_lt (Fin 0) ask
      then Some \<lparr>q_bid = bid, q_ask = ask, bid_size = flt_or (ob_bid_size ob) (fdiv F (Fin 1000000) ask),
                 ask_size = flt_or (ob_ask_size ob) (fdiv F (Fin 1000000) ask)\<rparr>
      else None)"

definition price_quote :: "float_ops \<Rightarrow> pyfloat option \<Rightarrow> VenueQuote option" where
  "price_quote F px =
     (case px of
        None \<Rightarrow> None
      | Some p \<Rightarrow>
          if flt_le p (Fin 0) then None
          else Some \<lparr>q_bid = fmul F p (Fin (99995 / 100000)), q_ask = fmul F p (Fin (100005 / 100000)),
                     bid_size = fdiv F (Fin 1000000) p, ask_size = fdiv F (Fin 1000000) p\<rparr>)"

definition get_quote :: "float_ops \<Rightarrow> (string, 'w Connector) dict \<Rightarrow> string \<Rightarrow> string \<Rightarrow> VenueQuote option" where
  "get_quote F m venue symbol =
     (case dict_get m venue of
        None \<Rightarrow> None
      | Some c \<Rightarrow>
          (case Option.bind (Option.bind (order_book c) (\<lambda>b. b symbol)) (book_quote F) of
             Some q \<Rightarrow> Some q
           | None \<Rightarrow> price_quote F (last_price c symbol)))"

text \<open>A price of zero counts as none; one that is not a number passes.\<close>

definition no_price :: "pyfloat option \<Rightarrow> bool" where
  "no_price px = (case px of None \<Rightarrow> True | Some p \<Rightarrow> p = Fin 0)"

definition bad_price :: "pyfloat option \<Rightarrow> bool" where
  "bad_price px = (case px of None \<Rightarrow> True | Some p \<Rightarrow> p = Fin 0 \<or> flt_le p (Fin 0))"

text \<open>
  The client order identifier of a venue order is made of the venue, the symbol and eight digits of
  \<open>py_hash\<close>, Python's hash of venue, symbol and notional rounded to cents by \<open>round2\<close>.
\<close>

definition sor_client_id :: "(string \<Rightarrow> string \<Rightarrow> pyfloat \<Rightarrow> int) \<Rightarrow> (pyfloat \<Rightarrow> pyfloat) \<Rightarrow> string \<Rightarrow> string \<Rightarrow> pyfloat \<Rightarrow> string" where
  "sor_client_id py_hash round2 venue symbol notional =
     ''sor_'' @ venue @ ''_'' @ symbol @ ''_'' @ str_int (\<bar>py_hash venue symbol (round2 notional)\<bar> mod 10 ^ 8)"

definition venue_order ::
  "float_ops \<Rightarrow> (string \<Rightarrow> string \<Rightarrow> pyfloat \<Rightarrow> int) \<Rightarrow> (pyfloat \<Rightarrow> pyfloat) \<Rightarrow> string \<Rightarrow> string \<Rightarrow> string \<Rightarrow> pyfloat \<Rightarrow> pyfloat \<Rightarrow> VenueOrder" where
  "venue_order F py_hash round2 venue symbol side notional px =
     \<lparr>vo_client_id = sor_client_id py_hash round2 venue symbol notional, vo_symbol = symbol, vo_buy = (upper side = ''BUY''),
      vo_quantity = fdiv F (flt_abs notional) px\<rparr>"

definition make_venue_submit ::
  "float_ops \<Rightarrow> (string \<Rightarrow> string \<Rightarrow> pyfloat \<Rightarrow> int) \<Rightarrow> (pyfloat \<Rightarrow> pyfloat) \<Rightarrow> (string, 'w Connector) dict \<Rightarrow> (string \<Rightarrow> pyfloat option) option \<Rightarrow>
   'w venue_submit" where
  "make_venue_submit F py_hash round2 m price_fn venue symbol side notional w =
     (case dict_get m venue of
        None \<Rightarrow> py_return (failed_answer (''no connector for venue '' @ venue)) w
      | Some c \<Rightarrow>
          (let px0 = Option.bind price_fn (\<lambda>f. f symbol); px = (if no_price px0 then last_price c symbol else px0) in
           if bad_price px then py_return (failed_answer ''no price'') w
           else
             (let ord = venue_order F py_hash round2 venue symbol side notional (the px) in
              case submit_order c ord w of
                (Inr (ok, bid), w') \<Rightarrow>
                  py_return \<lparr>an_success = ok, an_error = None, an_broker = bid, an_venue = Some venue, an_qty = Some (vo_quantity ord)\<rparr> w'
              | (Inl exc, w') \<Rightarrow> py_return ((failed_answer exc)\<lparr>an_venue := Some venue\<rparr>) w')))"

text \<open>The first connector that has a price.\<close>

fun first_price :: "(string, 'w Connector) dict \<Rightarrow> string \<Rightarrow> pyfloat option" where
  "first_price [] symbol = None"
| "first_price ((_, c) # m) symbol = (case last_price c symbol of Some p \<Rightarrow> Some p | None \<Rightarrow> first_price m symbol)"

definition routing_price :: "(rat \<Rightarrow> pyfloat) \<Rightarrow> (string, 'w Connector) dict \<Rightarrow> (string \<Rightarrow> pyfloat option) option \<Rightarrow> Order \<Rightarrow> pyfloat option" where
  "routing_price to_float m price_fn x =
     (let px0 = (case limit_price x of Some l \<Rightarrow> if l \<noteq> 0 then Some (to_float l) else Option.bind price_fn (\<lambda>f. f (o_symbol x))
                 | None \<Rightarrow> Option.bind price_fn (\<lambda>f. f (o_symbol x))) in
      if no_price px0 then (case first_price m (o_symbol x) of Some p \<Rightarrow> Some p | None \<Rightarrow> px0) else px0)"

record 'w RoutedSubmit =
  rs_sor :: SmartOrderRouter
  rs_world :: 'w
  rs_record :: "(string \<times> RouteResult \<times> Dispatch) list"

text \<open>
  The answer to the engine: success, an identifier, an error.  \<open>None\<close>: the routing loop does not end.
\<close>

definition routed_broker_submit ::
  "float_ops \<Rightarrow> (pyfloat \<Rightarrow> pyfloat) \<Rightarrow> (pyfloat list \<Rightarrow> pyfloat) \<Rightarrow> (rat \<Rightarrow> pyfloat) \<Rightarrow> (string \<Rightarrow> string \<Rightarrow> pyfloat \<Rightarrow> int) \<Rightarrow> (pyfloat \<Rightarrow> pyfloat) \<Rightarrow>
   (string, 'w Connector) dict \<Rightarrow> (string \<Rightarrow> pyfloat option) option \<Rightarrow> (string \<Rightarrow> string \<Rightarrow> VenueQuote option) option \<Rightarrow>
   Order \<Rightarrow> 'w RoutedSubmit \<Rightarrow> ((bool \<times> string option \<times> string option) \<times> 'w RoutedSubmit) option" where
  "routed_broker_submit F sq fsum to_float py_hash round2 m price_fn provider x s =
     (let px = routing_price to_float m price_fn x in
      if bad_price px then Some ((False, None, Some ''no price for routing''), s)
      else
        (let notional = fmul F (flt_abs (to_float (quantity x))) (the px);
             side = (if o_side x = ''buy'' then ''BUY'' else ''SELL'');
             (ro, R1) = (case provider of
                           Some q \<Rightarrow> route_live F sq fsum (o_symbol x) side notional q True (rs_sor s)
                         | None \<Rightarrow> (route_split F sq fsum (o_symbol x) side notional True (rs_sor s), rs_sor s)) in
         case ro of
           None \<Rightarrow> None
         | Some r \<Rightarrow>
             (let (d, w') = dispatch (make_venue_submit F py_hash round2 m price_fn) r (rs_world s) in
              Some ((all_ok d, Some (''routed:'' @ join '','' (map va_venue (ro_allocations r))),
                     if all_ok d then None else Some ''some venue dispatches failed''),
                    \<lparr>rs_sor = R1, rs_world = w', rs_record = rs_record s @ [(client_order_id x, r, d)]\<rparr>))))"

subsection \<open>The router against the history of its rules\<close>

text \<open>The reference keeps the rules in the order they were added; the best one is found by looking at all of them.\<close>

fun best_rule :: "(RoutingRule \<Rightarrow> bool) \<Rightarrow> RoutingRule list \<Rightarrow> RoutingRule option" where
  "best_rule P [] = None"
| "best_rule P (r # rs) =
     (case best_rule P rs of
        None \<Rightarrow> if P r then Some r else None
      | Some b \<Rightarrow> if P r \<and> rr_priority r \<ge> rr_priority b then Some r else Some b)"

fun drop_best :: "(RoutingRule \<Rightarrow> bool) \<Rightarrow> RoutingRule list \<Rightarrow> RoutingRule list" where
  "drop_best P [] = []"
| "drop_best P (r # rs) =
     (case best_rule P rs of
        None \<Rightarrow> if P r then rs else r # rs
      | Some b \<Rightarrow> if P r \<and> rr_priority r \<ge> rr_priority b then rs else r # drop_best P rs)"

datatype router_call = Add_rule RoutingRule | Remove_rule string

primrec router_step :: "OrderRouter \<Rightarrow> router_call \<Rightarrow> OrderRouter" where
  "router_step R (Add_rule r) = add_rule r R"
| "router_step R (Remove_rule n) = snd (remove_rule n R)"

primrec history_step :: "RoutingRule list \<Rightarrow> router_call \<Rightarrow> RoutingRule list" where
  "history_step h (Add_rule r) = h @ [r]"
| "history_step h (Remove_rule n) = drop_best (\<lambda>r. rr_name r = n) h"

lemma find_member: "find P s = Some b \<Longrightarrow> b \<in> set s \<and> P b"
  by (induction s) (auto split: if_splits)

lemma find_insort:
  "find P (insort_key f r s) = (case find P s of None \<Rightarrow> if P r then Some r else None | Some b \<Rightarrow> if P r \<and> f r \<le> f b then Some r else Some b)"
  if "sorted (map f s)"
  using that
proof (induction s)
  case (Cons y ys)
  have "f y \<le> f b" if "find P ys = Some b" for b using find_member [OF that] Cons.prems by simp
  with Cons show ?case by (cases "find P ys") (auto intro: order_trans)
qed simp

lemma best_rule_find: "best_rule P h = find P (by_priority h)"
  by (induction h) (auto simp: by_priority_def find_insort split: option.splits)

lemma remove_first_none: "find P s = None \<Longrightarrow> remove_first P s = s"
  by (induction s) (auto split: if_splits)

lemma remove_first_insorted:
  assumes "P r" and "\<forall>b. find P s = Some b \<longrightarrow> f r \<le> f b"
  shows "remove_first P (insort_key f r s) = s"
  using assms by (induction s) (auto split: if_splits)

lemma remove_first_other:
  assumes "sorted (map f s)" and "\<not> P r \<or> (\<exists>b. find P s = Some b \<and> f b < f r)"
  shows "remove_first P (insort_key f r s) = insort_key f r (remove_first P s)"
  using assms
proof (induction s)
  case (Cons y ys)
  show ?case
  proof (cases "f r \<le> f y")
    case True
    have "\<not> P r"
    proof
      assume "P r"
      then obtain b where "find P (y # ys) = Some b" "f b < f r" using Cons.prems by blast
      moreover have "b \<in> set (y # ys)" using find_member [OF calculation(1)] by simp
      ultimately show False using Cons.prems(1) True by fastforce
    qed
    moreover have "insort_key f r ys = r # ys" using Cons.prems(1) True by (intro insort_is_Cons) auto
    ultimately show ?thesis using True by simp
  next
    case False
    have "remove_first P (insort_key f r ys) = insort_key f r (remove_first P ys)" if "\<not> P y"
      using that Cons.prems by (intro Cons.IH) auto
    with False show ?thesis by simp
  qed
qed simp

lemma drop_best_none: "best_rule P h = None \<Longrightarrow> drop_best P h = h"
  by (induction h) (auto split: option.splits if_splits)

lemma remove_best: "remove_first P (by_priority h) = by_priority (drop_best P h)"
proof (induction h)
  case (Cons r rs)
  let ?f = "\<lambda>r. - rr_priority r" and ?s = "by_priority rs"
  have s: "by_priority (r # rs) = insort_key ?f r ?s" "sorted (map ?f ?s)" by (simp_all add: by_priority_def)
  show ?case
  proof (cases "P r \<and> (\<forall>b. best_rule P rs = Some b \<longrightarrow> rr_priority r \<ge> rr_priority b)")
    case True
    then have "remove_first P (insort_key ?f r ?s) = ?s" by (intro remove_first_insorted) (auto simp: best_rule_find)
    with True show ?thesis by (auto simp: s(1) split: option.splits)
  next
    case False
    then have "remove_first P (insort_key ?f r ?s) = insort_key ?f r (remove_first P ?s)"
      using s(2) by (intro remove_first_other) (auto simp: best_rule_find)
    moreover have "drop_best P (r # rs) = r # drop_best P rs"
      using False remove_first_none [of P ?s] Cons.IH by (cases "best_rule P rs") (auto simp: drop_best_none)
    ultimately show ?thesis using Cons.IH by (simp add: by_priority_def)
  qed
qed (simp add: by_priority_def)

interpretation router: simulation router_step history_step "\<lambda>R h. router_rules R = by_priority h"
proof
  fix R :: OrderRouter and h l
  assume R: "router_rules R = by_priority h"
  have "by_priority (by_priority h @ [r]) = by_priority (h @ [r])" for r
    unfolding by_priority_def
  proof (rule properties_for_sort_key)
    fix k
    have stable: "filter (\<lambda>x. - rr_priority k = - rr_priority x) (sort_key (\<lambda>r. - rr_priority r) l) = filter (\<lambda>x. - rr_priority k = - rr_priority x) l" for l
      using sort_key_stable [of "\<lambda>r. - rr_priority r" "- rr_priority k" l] by (simp only: eq_commute)
    show "filter (\<lambda>x. - rr_priority k = - rr_priority x) (sort_key (\<lambda>r. - rr_priority r) (h @ [r])) =
      filter (\<lambda>x. - rr_priority k = - rr_priority x) (sort_key (\<lambda>r. - rr_priority r) h @ [r])"
      by (simp only: stable filter_append)
  qed simp_all
  with R show "router_rules (router_step R l) = by_priority (history_step h l)"
    by (cases l) (simp_all add: add_rule_def remove_rule_def remove_best)
qed

text \<open>A position of the history whose rule wins: it matches, and no matching rule has a higher priority or the same one earlier.\<close>

definition wins :: "(RoutingRule \<Rightarrow> bool) \<Rightarrow> RoutingRule list \<Rightarrow> nat \<Rightarrow> bool" where
  "wins P h i \<longleftrightarrow> i < length h \<and> P (h ! i) \<and>
     (\<forall>j < length h. P (h ! j) \<longrightarrow> rr_priority (h ! j) < rr_priority (h ! i) \<or> rr_priority (h ! j) = rr_priority (h ! i) \<and> i \<le> j)"

lemma wins_Suc: "wins P (r # rs) (Suc i) \<longleftrightarrow> wins P rs i \<and> (P r \<longrightarrow> rr_priority r < rr_priority (rs ! i))"
  by (auto simp: wins_def All_less_Suc2)

lemma wins_0: "wins P (r # rs) 0 \<longleftrightarrow> P r \<and> (\<forall>x \<in> set rs. P x \<longrightarrow> rr_priority x \<le> rr_priority r)"
  by (auto simp: wins_def All_less_Suc2 all_set_conv_all_nth)

lemma best_rule_none: "best_rule P h = None \<longleftrightarrow> (\<forall>r \<in> set h. \<not> P r)"
  by (auto simp: best_rule_find find_None_iff by_priority_def)

lemma best_rule_wins: "best_rule P h = Some r \<Longrightarrow> \<exists>i. wins P h i \<and> h ! i = r"
proof (induction h arbitrary: r)
  case (Cons x xs)
  show ?case
  proof (cases "best_rule P xs")
    case None
    then have "wins P (x # xs) 0" "r = x" using Cons.prems best_rule_none [of P xs] by (auto simp: wins_0 split: if_splits)
    then show ?thesis by fastforce
  next
    case (Some b)
    from Cons.IH [OF this] obtain i where i: "wins P xs i" "xs ! i = b" by blast
    have le: "\<forall>y \<in> set xs. P y \<longrightarrow> rr_priority y \<le> rr_priority b"
      using i by (fastforce simp: wins_def in_set_conv_nth)
    show ?thesis
    proof (cases "P x \<and> rr_priority x \<ge> rr_priority b")
      case True
      then have "wins P (x # xs) 0" "r = x" using Cons.prems Some le by (auto simp: wins_0 intro: order_trans)
      then show ?thesis by fastforce
    next
      case False
      then have "wins P (x # xs) (Suc i)" "r = b" using Cons.prems Some i by (auto simp: wins_Suc)
      with i show ?thesis by fastforce
    qed
  qed
qed simp

text \<open>
  C39: routing by rules.  After any additions and removals an order goes to the broker of the rule that
  matches it with the highest priority, of equal priorities the one added first, and to the default broker
  when none matches; a removal takes away the rule of that name that would be asked first.
\<close>

theorem router_picks_best_rule:
  "let R = foldl router_step (init_OrderRouter b rs) calls; h = foldl history_step (case rs of None \<Rightarrow> [] | Some l \<Rightarrow> l) calls in
   (\<exists>i. wins (rule_matches x) h i \<and>
      route_order x R = \<lparr>rt_success = True, rt_broker = Some (rr_broker (h ! i)), rule_name = Some (rr_name (h ! i)), rt_error = None\<rparr>) \<or>
   (\<forall>r \<in> set h. \<not> rule_matches x r) \<and>
      route_order x R = \<lparr>rt_success = True, rt_broker = Some b, rule_name = Some ''default'', rt_error = None\<rparr>"
proof -
  define h where "h = foldl history_step (case rs of None \<Rightarrow> [] | Some l \<Rightarrow> l) calls"
  define R where "R = foldl router_step (init_OrderRouter b rs) calls"
  have rules: "router_rules R = by_priority h"
    unfolding R_def h_def by (rule router.sim_run) (simp add: init_OrderRouter_def)
  have "default_broker (foldl router_step Q calls) = default_broker Q" for Q
  proof (induction calls arbitrary: Q)
    case (Cons l ls)
    then show ?case by (cases l) (auto simp: add_rule_def remove_rule_def)
  qed simp
  then have d: "default_broker R = b" by (simp add: R_def init_OrderRouter_def)
  show ?thesis
  proof (cases "best_rule (rule_matches x) h")
    case None
    then show ?thesis using best_rule_none [of "rule_matches x" h]
      by (simp add: Let_def route_order_def rules best_rule_find d flip: h_def R_def)
  next
    case (Some r)
    from best_rule_wins [OF this] Some show ?thesis
      by (auto simp: Let_def route_order_def rules best_rule_find simp flip: h_def R_def)
  qed
qed

definition any_order :: "string \<Rightarrow> int \<Rightarrow> RoutingRule" where
  "any_order n p = \<lparr>rr_name = n, rr_broker = n, rr_priority = p, rr_symbols = None, symbol_prefix = None, rr_asset_class = None,
     min_size = None, max_size = None, rr_enabled = True\<rparr>"

theorem router_picks_best_rule_witness:
  "rt_broker (route_order (blank_order ''o1'' 0) (foldl router_step (init_OrderRouter ''paper'' None)
     [Add_rule (any_order ''x'' 1), Add_rule (any_order ''y'' 5), Add_rule (any_order ''z'' 5)])) = Some ''y''"
proof -
  let ?x = "blank_order ''o1'' 0" and ?h = "[any_order ''x'' 1, any_order ''y'' 5, any_order ''z'' 5]"
  have all: "rule_matches ?x r" if "r \<in> set ?h" for r using that by (auto simp: rule_matches_def any_order_def)
  have only: "i = 1" if w: "wins (rule_matches ?x) ?h i" for i
  proof -
    have "i < 3" using w by (simp add: wins_def)
    then have "i = 0 \<or> i = 1 \<or> i = 2" by linarith
    moreover have "rr_priority (?h ! 1) < rr_priority (?h ! i) \<or> rr_priority (?h ! 1) = rr_priority (?h ! i) \<and> i \<le> 1"
      using w all [of "?h ! 1"] unfolding wins_def by (elim conjE allE [of _ 1]) simp
    ultimately show ?thesis by (auto simp: any_order_def)
  qed
  show ?thesis
    using router_picks_best_rule [of "''paper''" None "[Add_rule (any_order ''x'' 1), Add_rule (any_order ''y'' 5), Add_rule (any_order ''z'' 5)]" ?x] all only
    by (fastforce simp: Let_def any_order_def)
qed

text \<open>A rule for an asset class matches the orders of every other class too: the class is not looked at.\<close>

lemma asset_class_ignored: "rule_matches x (r\<lparr>rr_asset_class := c\<rparr>) = rule_matches x r"
  by (simp add: rule_matches_def)

text \<open>A largest size of zero lets orders of any size through.\<close>

lemma zero_max_size_is_no_limit: "rule_matches x (r\<lparr>max_size := Some 0\<rparr>) = rule_matches x (r\<lparr>max_size := None\<rparr>)"
  by (simp add: rule_matches_def)

subsection \<open>Splitting ends and loses nothing\<close>

lemmas fill_loop_step = fill_loop.simps [of F sq vs "Fin s" d "Fin r"] for F sq vs s d r

text \<open>As long as a subtraction makes progress by half a step, the loop ends.\<close>

lemma fill_loop_returns:
  assumes "0 < s" and "\<And>r. s \<le> r \<Longrightarrow> r \<le> n \<Longrightarrow> \<exists>r'. fsub F (Fin r) (Fin s) = Fin r' \<and> r' \<le> r - s / 2"
    and "\<And>r. fsub F (Fin r) (Fin r) = Fin 0" and "r \<le> n"
  shows "\<exists>d'. fill_loop F sq vs (Fin s) d (Fin r) = Some d'"
  using assms(4)
proof (induction "nat \<lceil>2 * r / s\<rceil>" arbitrary: r d rule: less_induct)
  case less
  show ?case
  proof (cases "r > 1 / 10 ^ 9")
    case False
    then show ?thesis by (simp add: fill_loop_step tiny_def)
  next
    case True
    show ?thesis
    proof (cases "s \<le> r")
      case True
      from assms(2) [OF this less.prems] obtain r' where r': "fsub F (Fin r) (Fin s) = Fin r'" "r' \<le> r - s / 2" by blast
      have "2 * r' \<le> 2 * r - s" using r'(2) by simp
      then have "2 * r' / s \<le> 2 * r / s - 1" using assms(1) by (simp add: field_simps)
      then have "\<lceil>2 * r' / s\<rceil> \<le> \<lceil>2 * r / s\<rceil> - 1" by (metis ceiling_mono ceiling_diff_one)
      moreover have "0 < \<lceil>2 * r / s\<rceil>" using True assms(1) by simp
      ultimately have "nat \<lceil>2 * r' / s\<rceil> < nat \<lceil>2 * r / s\<rceil>" by linarith
      moreover have "r' \<le> n" using r'(2) assms(1) less.prems by simp
      ultimately show ?thesis using less.hyps [of r'] \<open>r > 1 / 10 ^ 9\<close> True
        by (subst fill_loop_step) (simp add: tiny_def flt_min_def r'(1) Let_def)
    next
      case False
      then have "fill_loop F sq vs (Fin s) d (Fin r) =
          fill_loop F sq vs (Fin s) (dict_set d (v_name (cheapest F sq vs d (Fin r)))
            (fadd F (poured_at d (v_name (cheapest F sq vs d (Fin r)))) (Fin r))) (Fin 0)"
        using \<open>r > 1 / 10 ^ 9\<close> by (subst fill_loop_step) (simp add: tiny_def flt_min_def assms(3) Let_def)
      then show ?thesis by (simp add: fill_loop_step tiny_def)
    qed
  qed
qed

lemma least_by_member: "xs \<noteq> [] \<Longrightarrow> least_by f xs \<in> set xs"
proof -
  have "foldl (\<lambda>b x. if flt_lt (f x) (f b) then x else b) b ys \<in> insert b (set ys)" for b ys
    by (induction ys arbitrary: b) (simp, fastforce)
  from this [of "hd xs" "tl xs"] show "xs \<noteq> [] \<Longrightarrow> least_by f xs \<in> set xs" by (cases xs) (auto simp: least_by_def)
qed

fun amount :: "pyfloat \<Rightarrow> rat" where
  "amount (Fin x) = x"
| "amount _ = 0"

definition amounts :: "(string, pyfloat) dict \<Rightarrow> rat" where
  "amounts d = sum_list (map (amount \<circ> snd) d)"

lemma amounts_set:
  "dict_ok d \<Longrightarrow> n \<in> set (dict_keys d) \<Longrightarrow> amounts (dict_set d n v) = amounts d - amount (poured_at d n) + amount v"
proof (induction d)
  case (Cons p d)
  obtain k x where p: "p = (k, x)" by (cases p)
  show ?case
  proof (cases "k = n")
    case False
    then have "amounts (dict_set d n v) = amounts d - amount (poured_at d n) + amount v"
      using Cons p by (intro Cons.IH) (auto simp: dict_ok_def)
    then show ?thesis using False by (simp add: p amounts_def poured_at_def)
  qed (simp add: p amounts_def poured_at_def)
qed simp

definition filling :: "(string, pyfloat) dict \<Rightarrow> bool" where
  "filling d \<longleftrightarrow> dict_ok d \<and> (\<forall>x \<in> set (dict_values d). \<exists>q. x = Fin q \<and> 0 \<le> q)"

lemma pouring_at: "filling d \<Longrightarrow> \<exists>q. poured_at d n = Fin q \<and> 0 \<le> q"
proof (cases "dict_get d n")
  case (Some x)
  then have "x \<in> set (dict_values d)" by (metis map_of_SomeD image_eqI list.set_map snd_conv)
  then show "filling d \<Longrightarrow> ?thesis" using Some by (auto simp: filling_def poured_at_def)
qed (simp add: poured_at_def)

lemma filling_set: "filling d \<Longrightarrow> 0 \<le> q \<Longrightarrow> filling (dict_set d n (Fin q))"
  using set_dict_set_subset [of d n "Fin q"] by (fastforce simp: filling_def)

lemma fill_loop_exact:
  assumes "0 < s" and "vs \<noteq> []" and "0 \<le> r" and "filling d" and "v_name ` set vs \<subseteq> set (dict_keys d)"
  shows "\<exists>d'. fill_loop exact_ops sq vs (Fin s) d (Fin r) = Some d' \<and> dict_keys d' = dict_keys d \<and> filling d' \<and>
    amounts d + r - 1 / 10 ^ 9 \<le> amounts d' \<and> amounts d' \<le> amounts d + r"
  using assms(3-)
proof (induction "nat \<lceil>r / s\<rceil>" arbitrary: r d rule: less_induct)
  case less
  show ?case
  proof (cases "r > 1 / 10 ^ 9")
    case False
    then show ?thesis using less.prems by (simp add: fill_loop_step tiny_def)
  next
    case True
    define n where "n = v_name (cheapest exact_ops sq vs d (Fin (min s r)))"
    have n: "n \<in> set (dict_keys d)" using less.prems(3) least_by_member [OF assms(2)] by (auto simp: n_def cheapest_def)
    obtain q where q: "poured_at d n = Fin q" "0 \<le> q" using pouring_at [OF less.prems(2)] by blast
    define d1 where "d1 = dict_set d n (Fin (q + min s r))"
    have d1: "filling d1" "dict_keys d1 = dict_keys d" "amounts d1 = amounts d + min s r"
      using less.prems q n assms(1) amounts_set [of d n "Fin (q + min s r)"] filling_set [of d "q + min s r" n]
      by (simp_all add: d1_def dict_keys_set filling_def)
    have step: "fill_loop exact_ops sq vs (Fin s) d (Fin r) = fill_loop exact_ops sq vs (Fin s) d1 (Fin (r - min s r))"
      using True q by (subst fill_loop_step) (auto simp: tiny_def flt_min_def exact_ops_def Let_def d1_def n_def min_def)
    have "(r - min s r) / s < r / s" using assms(1) True by (simp add: divide_strict_right_mono)
    moreover have "\<lceil>(r - min s r) / s\<rceil> < \<lceil>r / s\<rceil>"
    proof (cases "s \<le> r")
      case True
      then have "(r - min s r) / s = r / s - 1" using assms(1) by (simp add: diff_divide_distrib)
      then show ?thesis by simp
    qed (use True assms(1) in simp)
    moreover have "0 \<le> \<lceil>(r - min s r) / s\<rceil>" using assms(1) by (simp add: le_ceiling_iff zero_le_divide_iff order_less_le_trans [of "-1" 0])
    ultimately have "nat \<lceil>(r - min s r) / s\<rceil> < nat \<lceil>r / s\<rceil>" by linarith
    from less.hyps [OF this _ d1(1)] less.prems(3) d1 show ?thesis by (auto simp: step)
  qed
qed

lemma no_amounts: "\<forall>x \<in> set (dict_values d). x = Fin 0 \<Longrightarrow> amounts d = 0"
  by (induction d) (auto simp: amounts_def)

lemma nothing_filled_from:
  assumes "filling d" and "amounts d = 0" and "\<forall>x \<in> set (dict_values d). x = Fin 0"
  shows "let d' = foldl (\<lambda>d v. dict_set d (v_name v) (Fin 0)) d vs in
    filling d' \<and> amounts d' = 0 \<and> set (dict_keys d') = set (dict_keys d) \<union> v_name ` set vs"
  using assms
proof (induction vs arbitrary: d)
  case (Cons v vs)
  let ?d = "dict_set d (v_name v) (Fin 0)"
  have zero: "\<forall>x \<in> set (dict_values ?d). x = Fin 0"
    using Cons.prems(3) set_dict_set_subset [of d "v_name v" "Fin 0"] by fastforce
  then have "amounts ?d = 0" by (rule no_amounts)
  moreover have "fst ` set ?d = insert (v_name v) (fst ` set d)" using set_dict_keys_set [of d "v_name v" "Fin 0"] by simp
  ultimately show ?case using Cons.IH [of ?d] zero filling_set [OF Cons.prems(1), of 0 "v_name v"] by (simp add: Let_def)
qed (simp add: Let_def)

lemma nothing_filled:
  "filling (nothing_filled vs)" "amounts (nothing_filled vs) = 0" "set (dict_keys (nothing_filled vs)) = v_name ` set vs"
  using nothing_filled_from [of "[]" vs] by (simp_all add: Let_def nothing_filled_def filling_def amounts_def)

lemma mset_largest_first: "mset (largest_first as) = mset as"
proof -
  have "mset (insert_largest a bs) = add_mset a (mset bs)" for a bs
    by (induction bs) auto
  then show ?thesis by (induction as) (auto simp: largest_first_def)
qed

lemma dropped_amounts:
  assumes "\<forall>x \<in> set (dict_values d). \<exists>q. x = Fin q \<and> 0 \<le> q"
  shows "amounts (filter (\<lambda>(n, x). \<not> flt_le x tiny) d) \<le> amounts d"
    "amounts d - of_nat (length d) / 10 ^ 9 \<le> amounts (filter (\<lambda>(n, x). \<not> flt_le x tiny) d)"
  using assms by (induction d) (auto simp: amounts_def tiny_def add_divide_distrib)

definition routed_amount :: "RouteResult \<Rightarrow> rat" where
  "routed_amount r = sum_list (map (amount \<circ> va_notional) (ro_allocations r))"

lemma filled_allocations_amounts: "sum_list (map (amount \<circ> va_notional) (filled_allocations F sq vs d)) = amounts (filter (\<lambda>(n, x). \<not> flt_le x tiny) d)"
  by (simp add: filled_allocations_def amounts_def comp_def venue_allocation_def Let_def case_prod_beta)

lemma filled_allocations_venues: "map va_venue (filled_allocations F sq vs d) = dict_keys (filter (\<lambda>(n, x). \<not> flt_le x tiny) d)"
  by (simp add: filled_allocations_def comp_def case_prod_beta)

lemma split_conserves:
  assumes "0 < n" and "usable_venues (Fin n) R \<noteq> []"
  shows "\<exists>r. route_split exact_ops sq fsum symbol side (Fin n) split R = Some r \<and> total_notional r = Fin n \<and>
    (\<forall>a \<in> set (ro_allocations r). \<exists>q. va_notional a = Fin q \<and> 0 < q) \<and>
    distinct (map va_venue (ro_allocations r)) \<and> va_venue ` set (ro_allocations r) \<subseteq> v_name ` set (usable_venues (Fin n) R) \<and>
    routed_amount r \<le> n \<and> n - (of_nat (length (usable_venues (Fin n) R)) + 1) / 10 ^ 9 \<le> routed_amount r"
proof -
  let ?vs = "usable_venues (Fin n) R"
  define s where "s = (if n_steps R > 0 then n / of_int (n_steps R) else n)"
  have s: "0 < s" "(if n_steps R > 0 then fdiv exact_ops (Fin n) (Fin (of_int (n_steps R))) else Fin n) = Fin s"
    using assms(1) by (simp_all add: s_def exact_ops_def)
  show ?thesis
  proof (cases "\<not> split \<or> length ?vs = 1")
    case True
    let ?v = "least_by (\<lambda>v. marginal_cost_bps exact_ops sq v (Fin 0) (Fin n)) ?vs"
    have "?v \<in> set ?vs" using assms(2) by (rule least_by_member)
    moreover have "0 \<le> (of_nat (length ?vs) + 1) / (10 ^ 9 :: rat)" by simp
    ultimately show ?thesis using True assms
      by (auto simp: route_split_def Let_def route_result_def venue_allocation_def routed_amount_def)
  next
    case False
    from fill_loop_exact [OF s(1) assms(2) _ nothing_filled(1) equalityD2 [OF nothing_filled(3)], of n sq] assms(1) obtain d where
      d: "fill_loop exact_ops sq ?vs (Fin s) (nothing_filled ?vs) (Fin n) = Some d" "dict_keys d = dict_keys (nothing_filled ?vs)" "filling d"
        "n - 1 / 10 ^ 9 \<le> amounts d" "amounts d \<le> n"
      by (auto simp: nothing_filled(2))
    let ?as = "filled_allocations exact_ops sq ?vs d"
    have run: "route_split exact_ops sq fsum symbol side (Fin n) split R = Some (route_result exact_ops fsum symbol side (Fin n) (largest_first ?as))"
      using False assms s(2) d(1) by (simp add: route_split_def Let_def)
    have perm: "set (largest_first ?as) = set ?as" "distinct (map va_venue (largest_first ?as)) = distinct (map va_venue ?as)"
      "sum_list (map (amount \<circ> va_notional) (largest_first ?as)) = sum_list (map (amount \<circ> va_notional) ?as)"
      using mset_largest_first [of ?as] by (metis mset_eq_setD, metis mset_eq_imp_distinct_iff mset_map, metis mset_map sum_mset_sum_list)
    have names: "distinct (dict_keys d)" "set (dict_keys d) = v_name ` set ?vs" using d(2,3) nothing_filled(3) by (simp_all add: filling_def dict_ok_def)
    then have "length d \<le> length ?vs" by (metis card_image_le card_length distinct_card finite_set le_trans length_map)
    then have "of_nat (length d) / 10 ^ 9 \<le> (of_nat (length ?vs) :: rat) / 10 ^ 9" by (simp add: divide_right_mono)
    with dropped_amounts [of d] d have sums: "sum_list (map (amount \<circ> va_notional) ?as) \<le> n"
      "n - (of_nat (length ?vs) + 1) / 10 ^ 9 \<le> sum_list (map (amount \<circ> va_notional) ?as)"
      by (auto simp: filled_allocations_amounts filling_def add_divide_distrib)
    have pos: "\<forall>a \<in> set ?as. \<exists>q. va_notional a = Fin q \<and> 0 < q"
      using d(3) by (fastforce simp: filled_allocations_def venue_allocation_def Let_def filling_def tiny_def)
    have venues: "distinct (map va_venue ?as)" "va_venue ` set ?as \<subseteq> v_name ` set ?vs"
    proof -
      show "distinct (map va_venue ?as)" using names(1) unfolding filled_allocations_venues by (rule distinct_map_filter)
      have "set (map va_venue ?as) \<subseteq> set (dict_keys d)" unfolding filled_allocations_venues by auto
      then show "va_venue ` set ?as \<subseteq> v_name ` set ?vs" using names(2) by simp
    qed
    show ?thesis using run perm sums pos venues by (simp add: route_result_def routed_amount_def Let_def)
  qed
qed

text \<open>
  Splitting an order over venues, with exact arithmetic.  If any venue can take the order, routing
  returns, and whatever the costs are the pieces are positive, go to different usable venues and add up to
  the order less at most one billionth for every venue and one for the rest.
\<close>

theorem split_conserves_notional:
  assumes "0 < n" and "usable_venues (Fin n) R \<noteq> []"
  shows "\<exists>r. route_split exact_ops sq fsum symbol side (Fin n) split R = Some r \<and> total_notional r = Fin n \<and>
    (\<forall>a \<in> set (ro_allocations r). \<exists>q. va_notional a = Fin q \<and> 0 < q) \<and>
    distinct (map va_venue (ro_allocations r)) \<and> va_venue ` set (ro_allocations r) \<subseteq> v_name ` set (usable_venues (Fin n) R) \<and>
    routed_amount r \<le> n \<and> n - (of_nat (length (usable_venues (Fin n) R)) + 1) / 10 ^ 9 \<le> routed_amount r"
  using assms by (rule split_conserves)

definition sample_venue :: "string \<Rightarrow> rat \<Rightarrow> rat \<Rightarrow> rat \<Rightarrow> rat \<Rightarrow> Venue" where
  "sample_venue n fee liq impact least =
     \<lparr>v_name = n, fee_bps = Fin fee, latency_ms = Fin 50, liquidity = Fin liq, impact_coef = Fin impact, latency_penalty = Fin 0,
      min_notional = Fin least, v_enabled = True, v_quote = None, spread_bps = Fin 0\<rparr>"

definition two_venues :: SmartOrderRouter where
  "two_venues = init_SmartOrderRouter [sample_venue ''A'' 1 1000000 (1 / 10) 0, sample_venue ''B'' 2 5000000 (1 / 10) 0] 50"

lemma two_venues_usable: "usable_venues (Fin 9000) two_venues = [sample_venue ''A'' 1 1000000 (1 / 10) 0, sample_venue ''B'' 2 5000000 (1 / 10) 0]"
  by (simp add: usable_venues_def two_venues_def init_SmartOrderRouter_def sample_venue_def)

theorem split_conserves_notional_witness:
  "\<exists>r. route_split exact_ops (\<lambda>x. x) (\<lambda>_. Fin 0) ''AAPL'' ''BUY'' (Fin 9000) True two_venues = Some r \<and>
     routed_amount r \<le> 9000 \<and> 9000 - 3 / 10 ^ 9 \<le> routed_amount r"
  using split_conserves_notional [of 9000 two_venues "\<lambda>x. x" "\<lambda>_. Fin 0" "''AAPL''" "''BUY''" True] by (auto simp: two_venues_usable)

text \<open>
  C40: splitting ends.  Whatever the rounding of floats does otherwise, when subtracting the step makes
  progress by at least half of it and a number less itself is zero, as for all step counts up to two to
  the fiftieth, the loop ends and the route is returned.
\<close>

theorem split_returns_with_rounding:
  assumes "(if n_steps R > 0 then fdiv F (Fin n) (Fin (of_int (n_steps R))) else Fin n) = Fin s" and "0 < s"
    and "\<And>r. s \<le> r \<Longrightarrow> r \<le> n \<Longrightarrow> \<exists>r'. fsub F (Fin r) (Fin s) = Fin r' \<and> r' \<le> r - s / 2"
    and "\<And>r. fsub F (Fin r) (Fin r) = Fin 0"
  shows "\<exists>r. route_split F sq fsum symbol side (Fin n) split R = Some r"
proof -
  from fill_loop_returns [OF assms(2) assms(3,4) order_refl]
  obtain d where "fill_loop F sq (usable_venues (Fin n) R) (Fin s) (nothing_filled (usable_venues (Fin n) R)) (Fin n) = Some d" by blast
  with assms(1) show ?thesis by (simp add: route_split_def Let_def)
qed

definition cent_ops :: float_ops where
  "cent_ops = exact_ops\<lparr>fsub := lift_op (\<lambda>a b. of_int \<lfloor>(a - b) * 100\<rfloor> / 100)\<rparr>"

theorem split_returns_with_rounding_witness:
  "\<exists>r. route_split cent_ops (\<lambda>x. x) (\<lambda>_. Fin 0) ''AAPL'' ''BUY'' (Fin 10) True (two_venues\<lparr>n_steps := 3\<rparr>) = Some r"
proof (rule split_returns_with_rounding [where s = "10 / 3"])
  fix r :: rat
  have "of_int \<lfloor>(r - 10 / 3) * 100\<rfloor> \<le> (r - 10 / 3) * 100" by (rule of_int_floor_le)
  moreover have "z / 100 \<le> r - 10 / 3 / 2" if "z \<le> (r - 10 / 3) * 100" for z using that by (simp add: algebra_simps)
  ultimately have "of_int \<lfloor>(r - 10 / 3) * 100\<rfloor> / 100 \<le> r - 10 / 3 / 2" by blast
  moreover have "fsub cent_ops (Fin r) (Fin (10 / 3)) = Fin (of_int \<lfloor>(r - 10 / 3) * 100\<rfloor> / 100)"
    unfolding cent_ops_def by simp
  ultimately show "\<exists>r'. fsub cent_ops (Fin r) (Fin (10 / 3)) = Fin r' \<and> r' \<le> r - 10 / 3 / 2" by blast
qed (simp_all add: cent_ops_def exact_ops_def)

subsection \<open>Water filling is optimal for its own prices\<close>

text \<open>
  Placing one piece after the other where the next one is cheapest: when prices only rise, no piece placed
  is dearer than any next one, and then no other way to place as many pieces is cheaper.
\<close>

lemma cheapest_pieces:
  fixes f :: "nat \<Rightarrow> rat"
  assumes "\<forall>j < c. f j \<le> m" and "\<forall>j \<ge> c. m \<le> f j"
  shows "sum f {..<c} + m * (of_nat d - of_nat c) \<le> sum f {..<d}"
proof (cases "c \<le> d")
  case True
  then show ?thesis
  proof (induction d rule: dec_induct)
    case (step e)
    have "m \<le> f e" using assms(2) step(1) by blast
    with step show ?case by (simp add: algebra_simps)
  qed simp
next
  case False
  then have "d \<le> c" by simp
  then show ?thesis using assms(1)
  proof (induction c rule: dec_induct)
    case (step e)
    have "f e \<le> m" "\<forall>j < e. f j \<le> m" using step.prems by auto
    with step.IH show ?case by (simp add: algebra_simps)
  qed simp
qed

lemma balanced_is_optimal:
  fixes f :: "'v \<Rightarrow> nat \<Rightarrow> rat"
  assumes "finite V" and rising: "\<forall>v \<in> V. \<forall>i j. i \<le> j \<longrightarrow> f v i \<le> f v j"
    and balanced: "\<forall>v \<in> V. \<forall>w \<in> V. 0 < c v \<longrightarrow> f v (c v - 1) \<le> f w (c w)"
    and "(\<Sum>v \<in> V. c v) = (\<Sum>v \<in> V. d v)"
  shows "(\<Sum>v \<in> V. \<Sum>j < c v. f v j) \<le> (\<Sum>v \<in> V. \<Sum>j < d v. f v j)"
proof (cases "V = {}")
  case False
  define m where "m = Min ((\<lambda>w. f w (c w)) ` V)"
  have next_m: "m \<le> f w (c w)" if "w \<in> V" for w using that assms(1) by (simp add: m_def)
  have "m \<in> (\<lambda>w. f w (c w)) ` V" unfolding m_def using assms(1) False by (intro Min_in) auto
  then obtain w where w: "w \<in> V" "m = f w (c w)" by blast
  have each: "(\<Sum>j < c v. f v j) + m * (of_nat (d v) - of_nat (c v)) \<le> (\<Sum>j < d v. f v j)" if v: "v \<in> V" for v
  proof (rule cheapest_pieces)
    show "\<forall>j < c v. f v j \<le> m"
    proof (intro allI impI)
      fix j assume j: "j < c v"
      then have "f v j \<le> f v (c v - 1)" using rising v by simp
      also have "\<dots> \<le> m" using balanced v w j by auto
      finally show "f v j \<le> m" .
    qed
    show "\<forall>j \<ge> c v. m \<le> f v j" using rising v next_m [OF v] by (meson order_trans)
  qed
  have "(\<Sum>v \<in> V. (\<Sum>j < c v. f v j) + m * (of_nat (d v) - of_nat (c v))) \<le> (\<Sum>v \<in> V. \<Sum>j < d v. f v j)"
    by (rule sum_mono) (rule each)
  moreover have "(\<Sum>v \<in> V. m * (of_nat (d v) - of_nat (c v))) = m * (of_nat (\<Sum>v \<in> V. d v) - of_nat (\<Sum>v \<in> V. c v))"
    by (simp add: sum_distrib_left [symmetric] sum_subtractf)
  ultimately show ?thesis using assms(4) by (simp add: sum.distrib)
qed simp

text \<open>What the next piece costs at a venue that has a number of pieces already.\<close>

definition piece_price :: "(pyfloat \<Rightarrow> pyfloat) \<Rightarrow> rat \<Rightarrow> Venue \<Rightarrow> nat \<Rightarrow> rat" where
  "piece_price sq s v j = amount (marginal_cost_bps exact_ops sq v (Fin (of_nat j * s)) (Fin s))"

definition plain_venue :: "Venue \<Rightarrow> bool" where
  "plain_venue v \<longleftrightarrow> (\<exists>fee lat liq imp pen spr. fee_bps v = Fin fee \<and> latency_ms v = Fin lat \<and> liquidity v = Fin liq \<and>
     impact_coef v = Fin imp \<and> 0 \<le> imp \<and> latency_penalty v = Fin pen \<and> spread_bps v = Fin spr)"

definition rising_root :: "(pyfloat \<Rightarrow> pyfloat) \<Rightarrow> bool" where
  "rising_root sq \<longleftrightarrow> (\<exists>g. (\<forall>x \<ge> 0. sq (Fin x) = Fin (g x)) \<and> (\<forall>x y. 0 \<le> x \<longrightarrow> x \<le> y \<longrightarrow> g x \<le> (g y :: rat)))"

lemma marginal_cost_exact:
  assumes "plain_venue v" and "rising_root sq" and "0 \<le> s"
  shows "\<exists>h. (\<forall>x \<ge> 0. marginal_cost_bps exact_ops sq v (Fin x) (Fin s) = Fin (h x)) \<and> (\<forall>x y. 0 \<le> x \<longrightarrow> x \<le> y \<longrightarrow> h x \<le> h y)"
proof -
  obtain fee lat liq imp pen spr where v: "fee_bps v = Fin fee" "latency_ms v = Fin lat" "liquidity v = Fin liq" "impact_coef v = Fin imp" "0 \<le> imp"
    "latency_penalty v = Fin pen" "spread_bps v = Fin spr" using assms(1) by (auto simp: plain_venue_def)
  obtain g where g: "\<And>x. 0 \<le> x \<Longrightarrow> sq (Fin x) = Fin (g x)" "\<And>x y. 0 \<le> x \<Longrightarrow> x \<le> y \<Longrightarrow> g x \<le> (g y :: rat)"
    using assms(2) by (auto simp: rising_root_def)
  define L where "L = max liq (1 / 10 ^ 9)"
  have L: "0 < L" "flt_max (Fin liq) tiny = Fin L" by (auto simp: L_def tiny_def flt_max_def max_def less_max_iff_disj)
  have clip: "flt_max (Fin a) (Fin 0) = Fin a" if "0 \<le> a" for a using that by (simp add: flt_max_def)
  let ?h = "\<lambda>x. fee + spr + imp * ((g ((x + s) / L) + g (x / L)) / 2) * 10000 + pen * (lat / 100)"
  have val: "marginal_cost_bps exact_ops sq v (Fin x) (Fin s) = Fin (?h x)" if "0 \<le> x" for x
    using that assms(3) L(1) by (simp add: marginal_cost_bps_def v L(2) exact_ops_def clip g(1) Let_def)
  have rise: "?h x \<le> ?h y" if "0 \<le> x" "x \<le> y" for x y
  proof -
    have "g ((x + s) / L) \<le> g ((y + s) / L)" "g (x / L) \<le> g (y / L)"
      using that assms(3) L(1) by (auto intro!: g(2) divide_right_mono)
    then have "imp * ((g ((x + s) / L) + g (x / L)) / 2) \<le> imp * ((g ((y + s) / L) + g (y / L)) / 2)"
      using v(5) by (intro mult_left_mono) auto
    then show ?thesis by simp
  qed
  show ?thesis by (intro exI [of _ ?h] conjI allI impI val rise)
qed

lemma piece_price_exact:
  assumes "plain_venue v" and "rising_root sq" and "0 < s"
  shows "marginal_cost_bps exact_ops sq v (Fin (of_nat j * s)) (Fin s) = Fin (piece_price sq s v j)"
    "i \<le> j \<Longrightarrow> piece_price sq s v i \<le> piece_price sq s v j"
proof -
  from marginal_cost_exact [OF assms(1,2), of s] assms(3) obtain h where
    h: "\<And>x. 0 \<le> x \<Longrightarrow> marginal_cost_bps exact_ops sq v (Fin x) (Fin s) = Fin (h x)" "\<And>x y. 0 \<le> x \<Longrightarrow> x \<le> y \<Longrightarrow> h x \<le> h y" by auto
  have p: "piece_price sq s v j = h (of_nat j * s)" for j using h(1) assms(3) by (simp add: piece_price_def)
  show "marginal_cost_bps exact_ops sq v (Fin (of_nat j * s)) (Fin s) = Fin (piece_price sq s v j)" using h(1) assms(3) by (simp add: p)
  show "i \<le> j \<Longrightarrow> piece_price sq s v i \<le> piece_price sq s v j" using h(2) assms(3) by (simp add: p mult_right_mono)
qed

lemma least_by_least:
  assumes "\<forall>x \<in> set xs. \<exists>q. f x = Fin q" and "x \<in> set xs"
  shows "amount (f (least_by f xs)) \<le> amount (f x)"
proof -
  have "amount (f (foldl (\<lambda>b x. if flt_lt (f x) (f b) then x else b) b ys)) \<le> amount (f y)"
    if "\<forall>x \<in> set (b # ys). \<exists>q. f x = Fin q" "y \<in> set (b # ys)" for b ys y
    using that
  proof (induction ys arbitrary: b y)
    case (Cons z ys)
    let ?b = "if flt_lt (f z) (f b) then z else b"
    have b: "amount (f ?b) \<le> amount (f b)" "amount (f ?b) \<le> amount (f z)" "\<exists>q. f ?b = Fin q" using Cons.prems(1) by auto
    have "amount (f (foldl (\<lambda>b x. if flt_lt (f x) (f b) then x else b) ?b ys)) \<le> amount (f w)" if "w \<in> set (?b # ys)" for w
      by (rule Cons.IH) (use Cons.prems(1) b(3) that in auto)
    with Cons.prems(2) b(1,2) show ?case by (fastforce intro: order_trans)
  qed simp
  from this [of "hd xs" "tl xs" x] assms show ?thesis by (cases xs) (auto simp: least_by_def)
qed

definition balanced_pieces :: "(pyfloat \<Rightarrow> pyfloat) \<Rightarrow> rat \<Rightarrow> Venue list \<Rightarrow> (Venue \<Rightarrow> nat) \<Rightarrow> bool" where
  "balanced_pieces sq s vs c \<longleftrightarrow> (\<forall>v \<in> set vs. \<forall>w \<in> set vs. 0 < c v \<longrightarrow> piece_price sq s v (c v - 1) \<le> piece_price sq s w (c w))"

definition pieces_in :: "rat \<Rightarrow> Venue list \<Rightarrow> (Venue \<Rightarrow> nat) \<Rightarrow> (string, pyfloat) dict \<Rightarrow> bool" where
  "pieces_in s vs c d \<longleftrightarrow> (\<forall>v \<in> set vs. poured_at d (v_name v) = Fin (of_nat (c v) * s))"

lemma poured_set: "poured_at (dict_set d n x) m = (if m = n then x else poured_at d m)"
  by (simp add: poured_at_def)

text \<open>One turn of the loop places one piece, and the placement stays balanced.\<close>

lemma place_piece:
  assumes vs: "vs \<noteq> []" "distinct (map v_name vs)" "\<forall>v \<in> set vs. plain_venue v" and sq: "rising_root sq" "0 < s"
    and d: "pieces_in s vs c d" "balanced_pieces sq s vs c"
  shows "\<exists>v \<in> set vs. v = cheapest exact_ops sq vs d (Fin s) \<and>
    pieces_in s vs (c(v := c v + 1)) (dict_set d (v_name v) (fadd exact_ops (poured_at d (v_name v)) (Fin s))) \<and>
    balanced_pieces sq s vs (c(v := c v + 1))"
proof -
  let ?key = "\<lambda>v. marginal_cost_bps exact_ops sq v (poured_at d (v_name v)) (Fin s)"
  define v where "v = cheapest exact_ops sq vs d (Fin s)"
  have v: "v \<in> set vs" using least_by_member [OF vs(1)] by (simp add: v_def cheapest_def)
  have key: "?key w = Fin (piece_price sq s w (c w))" if "w \<in> set vs" for w
    using that d(1) vs(3) piece_price_exact(1) [OF _ sq] by (simp add: pieces_in_def)
  have least: "piece_price sq s v (c v) \<le> piece_price sq s w (c w)" if "w \<in> set vs" for w
    using least_by_least [of vs ?key w] that v key by (auto simp: v_def cheapest_def)
  have same: "v_name w = v_name v \<longleftrightarrow> w = v" if "w \<in> set vs" for w using that v vs(2) by (auto simp: distinct_map inj_on_def)
  have "pieces_in s vs (c(v := c v + 1)) (dict_set d (v_name v) (fadd exact_ops (poured_at d (v_name v)) (Fin s)))"
    using d(1) v same by (auto simp: pieces_in_def poured_set exact_ops_def algebra_simps)
  moreover have "balanced_pieces sq s vs (c(v := c v + 1))"
    using d(2) least piece_price_exact(2) [OF _ sq, of v "c v" "c v + 1"] vs(3) v
    by (auto simp: balanced_pieces_def intro: order_trans)
  ultimately show ?thesis using v by (auto simp: v_def)
qed

lemma fill_loop_balanced:
  assumes vs: "vs \<noteq> []" "distinct (map v_name vs)" "\<forall>v \<in> set vs. plain_venue v" and sq: "rising_root sq" "1 / 10 ^ 9 < s"
    and "pieces_in s vs c d" and "balanced_pieces sq s vs c"
  shows "\<exists>d' c'. fill_loop exact_ops sq vs (Fin s) d (Fin (of_nat k * s)) = Some d' \<and> pieces_in s vs c' d' \<and> balanced_pieces sq s vs c' \<and>
    (\<Sum>v \<in> set vs. c' v) = (\<Sum>v \<in> set vs. c v) + k"
  using assms(6-)
proof (induction k arbitrary: c d)
  case 0
  then show ?case by (auto simp: fill_loop_step tiny_def)
next
  case (Suc k)
  have s: "0 < s" using sq(2) by (simp add: order_less_trans [of 0 "1 / 10 ^ 9"])
  from place_piece [OF vs sq(1) s Suc.prems] obtain v where v: "v \<in> set vs" "v = cheapest exact_ops sq vs d (Fin s)"
    "pieces_in s vs (c(v := c v + 1)) (dict_set d (v_name v) (fadd exact_ops (poured_at d (v_name v)) (Fin s)))"
    "balanced_pieces sq s vs (c(v := c v + 1))" by blast
  have big: "s \<le> of_nat (Suc k) * s" using s by (simp add: algebra_simps)
  have more: "flt_lt tiny (Fin (of_nat (Suc k) * s))" using order_less_le_trans [OF sq(2) big] by (simp add: tiny_def)
  have chunk: "flt_min (Fin s) (Fin (of_nat (Suc k) * s)) = Fin s" using big by (simp add: flt_min_def del: of_nat_Suc)
  have rest: "fsub exact_ops (Fin (of_nat (Suc k) * s)) (Fin s) = Fin (of_nat k * s)" by (simp add: exact_ops_def algebra_simps)
  have "fill_loop exact_ops sq vs (Fin s) d (Fin (of_nat (Suc k) * s)) =
      fill_loop exact_ops sq vs (Fin s) (dict_set d (v_name v) (fadd exact_ops (poured_at d (v_name v)) (Fin s))) (Fin (of_nat k * s))"
    by (subst fill_loop_step) (simp only: more if_True chunk rest Let_def v(2))
  moreover have "(\<Sum>w \<in> set vs. (c(v := c v + 1)) w) = (\<Sum>w \<in> set vs. c w) + 1"
    using v(1) by (simp add: sum.remove [of "set vs" v])
  ultimately show ?case using Suc.IH [OF v(3,4)] by simp
qed

lemma poured_nothing: "poured_at (nothing_filled vs) n = Fin 0"
proof -
  have "poured_at (foldl (\<lambda>d v. dict_set d (v_name v) (Fin 0)) d vs) n = Fin 0" if "poured_at d n = Fin 0" for d
    using that by (induction vs arbitrary: d) (auto simp: poured_set)
  from this [of "[]"] show ?thesis by (simp add: nothing_filled_def poured_at_def)
qed

lemma allocated_pieces:
  assumes "pieces_in s vs c d" and "filling d" and "set (dict_keys d) = v_name ` set vs" and "1 / 10 ^ 9 < s"
  shows "(\<lambda>a. (va_venue a, va_notional a)) ` set (filled_allocations F sq vs d) = (\<lambda>v. (v_name v, Fin (of_nat (c v) * s))) ` {v \<in> set vs. 0 < c v}"
proof -
  have s: "0 < s" using assms(4) by (simp add: order_less_trans [of 0 "1 / 10 ^ 9"])
  have get: "dict_get d (v_name v) = Some (Fin (of_nat (c v) * s))" if "v \<in> set vs" for v
  proof -
    have "v_name v \<in> set (dict_keys d)" using that assms(3) by simp
    then obtain x where "dict_get d (v_name v) = Some x" by (cases "dict_get d (v_name v)") (auto simp: map_of_eq_None_iff)
    then show ?thesis using assms(1) that by (fastforce simp: pieces_in_def poured_at_def)
  qed
  have big: "\<not> flt_le (Fin (of_nat k * s)) tiny \<longleftrightarrow> 0 < k" for k :: nat
  proof (cases k)
    case (Suc j)
    have "s \<le> of_nat k * s" using s by (simp add: Suc algebra_simps)
    with assms(4) have "1 / 10 ^ 9 < of_nat k * s" by (rule order_less_le_trans)
    then show ?thesis by (simp add: tiny_def Suc)
  qed (simp add: tiny_def)
  have "set d = (\<lambda>v. (v_name v, Fin (of_nat (c v) * s))) ` set vs"
  proof (intro set_eqI iffI)
    fix p assume p: "p \<in> set d"
    then obtain v where v: "v \<in> set vs" "fst p = v_name v" using assms(3) by (metis imageE image_eqI list.set_map)
    have "dict_get d (fst p) = Some (snd p)" using p assms(2) by (simp add: filling_def dict_ok_get_iff)
    with get [OF v(1)] v show "p \<in> (\<lambda>v. (v_name v, Fin (of_nat (c v) * s))) ` set vs" by (cases p) auto
  next
    fix p assume "p \<in> (\<lambda>v. (v_name v, Fin (of_nat (c v) * s))) ` set vs"
    then show "p \<in> set d" using get map_of_SomeD by fastforce
  qed
  then have "set (filter (\<lambda>(n, x). \<not> flt_le x tiny) d) = (\<lambda>v. (v_name v, Fin (of_nat (c v) * s))) ` {v \<in> set vs. 0 < c v}"
    using big by auto
  moreover have "(\<lambda>a. (va_venue a, va_notional a)) ` set (filled_allocations F sq vs d) = set (filter (\<lambda>(n, x). \<not> flt_le x tiny) d)"
    by (auto simp: filled_allocations_def venue_allocation_def Let_def image_image case_prod_beta)
  ultimately show ?thesis by simp
qed

text \<open>
  C17: water filling is optimal.  With exact arithmetic, a square root that does not fall, impact that is
  not negative and venues with different names, the order is cut into as many equal pieces as there are
  steps, every venue gets a whole number of them, and no other way of giving that many pieces to the
  venues has a smaller sum of the marginal costs at which they are placed.
\<close>

theorem water_filling_optimal:
  fixes n R
  defines "vs \<equiv> usable_venues (Fin n) R" and "s \<equiv> n / of_int (n_steps R)"
  assumes "1 < length vs" and "distinct (map v_name vs)" and "\<forall>v \<in> set vs. plain_venue v" and "rising_root sq"
    and "0 < n_steps R" and "1 / 10 ^ 9 < s"
  shows "\<exists>r c. route_split exact_ops sq fsum symbol side (Fin n) True R = Some r \<and> (\<Sum>v \<in> set vs. c v) = nat (n_steps R) \<and>
    (\<lambda>a. (va_venue a, va_notional a)) ` set (ro_allocations r) = (\<lambda>v. (v_name v, Fin (of_nat (c v) * s))) ` {v \<in> set vs. 0 < c v} \<and>
    (\<forall>d. (\<Sum>v \<in> set vs. d v) = nat (n_steps R) \<longrightarrow>
       (\<Sum>v \<in> set vs. \<Sum>j < c v. piece_price sq s v j) \<le> (\<Sum>v \<in> set vs. \<Sum>j < d v. piece_price sq s v j))"
proof -
  have s: "0 < s" using assms(8) by (simp add: order_less_trans [of 0 "1 / 10 ^ 9"])
  have n: "of_nat (nat (n_steps R)) * s = n" "0 < n" using assms(7) s by (simp_all add: s_def zero_less_divide_iff)
  have ne: "vs \<noteq> []" using assms(3) by auto
  from fill_loop_balanced [OF ne assms(4-6,8), of "\<lambda>_. 0" "nothing_filled vs" "nat (n_steps R)"] obtain d c where
    d: "fill_loop exact_ops sq vs (Fin s) (nothing_filled vs) (Fin n) = Some d" "pieces_in s vs c d" "balanced_pieces sq s vs c"
      "(\<Sum>v \<in> set vs. c v) = nat (n_steps R)"
    by (auto simp: pieces_in_def poured_nothing balanced_pieces_def n)
  from fill_loop_exact [OF s ne _ nothing_filled(1) equalityD2 [OF nothing_filled(3)], of n sq] d(1) n(2)
  have keys: "set (dict_keys d) = v_name ` set vs" "filling d" using nothing_filled(3) [of vs] by auto
  let ?as = "filled_allocations exact_ops sq vs d"
  have "route_split exact_ops sq fsum symbol side (Fin n) True R = Some (route_result exact_ops fsum symbol side (Fin n) (largest_first ?as))"
    using ne assms(3,7) n(2) d(1) by (simp add: route_split_def Let_def flip: vs_def) (simp add: exact_ops_def s_def)
  moreover have "set (largest_first ?as) = set ?as" using mset_largest_first by (metis mset_eq_setD)
  moreover note allocated_pieces [OF d(2) keys(2,1) assms(8), of exact_ops sq]
  moreover have "(\<Sum>v \<in> set vs. \<Sum>j < c v. piece_price sq s v j) \<le> (\<Sum>v \<in> set vs. \<Sum>j < e v. piece_price sq s v j)"
    if "(\<Sum>v \<in> set vs. e v) = nat (n_steps R)" for e
    using that d(3,4) assms(5) piece_price_exact(2) [OF _ assms(6) s]
    by (intro balanced_is_optimal) (auto simp: balanced_pieces_def)
  ultimately show ?thesis using d(4) by (intro exI [of _ "route_result exact_ops fsum symbol side (Fin n) (largest_first ?as)"] exI [of _ c])
    (simp add: route_result_def Let_def)
qed

theorem water_filling_optimal_witness:
  "\<exists>r. route_split exact_ops (\<lambda>x. x) (\<lambda>_. Fin 0) ''AAPL'' ''BUY'' (Fin 9000) True two_venues = Some r \<and>
     (\<forall>a \<in> set (ro_allocations r). \<exists>k :: nat. va_notional a = Fin (of_nat k * 180))"
proof -
  have "rising_root (\<lambda>x. x)" by (auto simp: rising_root_def)
  moreover have "plain_venue (sample_venue m fee liq (1 / 10) least)" for m fee liq least
    by (auto simp: plain_venue_def sample_venue_def intro: exI [of _ "1 / 10"])
  moreover have "n_steps two_venues = 50" "v_name (sample_venue m fee liq imp least) = m" for m fee liq imp least
    by (simp_all add: two_venues_def init_SmartOrderRouter_def sample_venue_def)
  ultimately obtain r c where r: "route_split exact_ops (\<lambda>x. x) (\<lambda>_. Fin 0) ''AAPL'' ''BUY'' (Fin 9000) True two_venues = Some r"
    "(\<lambda>a. (va_venue a, va_notional a)) ` set (ro_allocations r) =
       (\<lambda>v. (v_name v, Fin (of_nat (c v) * (9000 / of_int 50)))) ` {v \<in> set (usable_venues (Fin 9000) two_venues). 0 < c v}"
    using water_filling_optimal [of 9000 two_venues "\<lambda>x. x" "\<lambda>_. Fin 0" "''AAPL''" "''BUY''"] by (auto simp: two_venues_usable)
  have "\<exists>k :: nat. va_notional a = Fin (of_nat k * 180)" if "a \<in> set (ro_allocations r)" for a
  proof -
    have "(va_venue a, va_notional a) \<in> (\<lambda>a. (va_venue a, va_notional a)) ` set (ro_allocations r)" using that by simp
    then show ?thesis unfolding r(2) by auto
  qed
  with r(1) show ?thesis by blast
qed

subsection \<open>The routed order at the venues\<close>

text \<open>Connectors whose submissions append to a list of all venue orders, whatever they answer.\<close>

definition logging :: "(string, VenueOrder list Connector) dict \<Rightarrow> bool" where
  "logging m \<longleftrightarrow> (\<forall>c \<in> set (dict_values m). \<forall>ord w. snd (submit_order c ord w) = w @ [ord])"

lemma logging_at: "logging m \<Longrightarrow> dict_get m n = Some c \<Longrightarrow> snd (submit_order c ord w) = w @ [ord]"
  unfolding logging_def by (metis map_of_SomeD image_eqI list.set_map snd_conv)

definition order_at :: "float_ops \<Rightarrow> (string \<Rightarrow> string \<Rightarrow> pyfloat \<Rightarrow> int) \<Rightarrow> (pyfloat \<Rightarrow> pyfloat) \<Rightarrow> pyfloat \<Rightarrow> RouteResult \<Rightarrow> VenueAllocation \<Rightarrow> VenueOrder" where
  "order_at F py_hash round2 px r a = venue_order F py_hash round2 (va_venue a) (ro_symbol r) (ro_side r) (va_notional a) px"

lemma dispatch_all_logged:
  assumes "logging m" and "f (ro_symbol r) = Some (Fin p)" and "0 < p"
  shows "\<exists>ds. dispatch_all (make_venue_submit F py_hash round2 m (Some f)) r as w =
      (ds, w @ map (order_at F py_hash round2 (Fin p) r) (filter (\<lambda>a. dict_get m (va_venue a) \<noteq> None) as)) \<and> length ds = length as \<and>
    (list_all dv_success ds \<longrightarrow> (\<forall>a \<in> set as. dict_get m (va_venue a) \<noteq> None))"
proof (induction as arbitrary: w)
  case (Cons a as)
  let ?sub = "make_venue_submit F py_hash round2 m (Some f)"
  have "\<exists>d. dispatch_one ?sub r a w = (d, w @ (if dict_get m (va_venue a) \<noteq> None then [order_at F py_hash round2 (Fin p) r a] else [])) \<and>
      (dv_success d \<longrightarrow> dict_get m (va_venue a) \<noteq> None)"
  proof (cases "dict_get m (va_venue a)")
    case None
    then show ?thesis by (simp add: dispatch_one_def make_venue_submit_def failed_answer_def)
  next
    case (Some c)
    obtain ans w' where s: "submit_order c (order_at F py_hash round2 (Fin p) r a) w = (ans, w')" by fastforce
    then have "w' = w @ [order_at F py_hash round2 (Fin p) r a]" using logging_at [OF assms(1) Some, of "order_at F py_hash round2 (Fin p) r a" w] by simp
    with Some s assms(2,3) show ?thesis
      by (cases ans) (auto simp: dispatch_one_def make_venue_submit_def order_at_def no_price_def bad_price_def Let_def)
  qed
  then obtain d where d: "dispatch_one ?sub r a w = (d, w @ (if dict_get m (va_venue a) \<noteq> None then [order_at F py_hash round2 (Fin p) r a] else []))"
    "dv_success d \<longrightarrow> dict_get m (va_venue a) \<noteq> None" by blast
  from Cons.IH [of "w @ (if dict_get m (va_venue a) \<noteq> None then [order_at F py_hash round2 (Fin p) r a] else [])"] d show ?case
    by (auto split: if_splits)
qed simp

lemma all_succeed: "length (filter dv_success ds) = length ds \<longleftrightarrow> list_all dv_success ds"
  by (metis filter_id_conv list_all_iff length_filter_less not_less_iff_gr_or_eq)

lemma quantities_at_venues:
  assumes "\<forall>a \<in> set as. \<exists>q. va_notional a = Fin q \<and> 0 < q" and "0 < p"
  shows "sum_list (map (amount \<circ> vo_quantity) (map (order_at exact_ops py_hash round2 (Fin p) r) as)) = sum_list (map (amount \<circ> va_notional) as) / p"
  using assms by (induction as) (auto simp: order_at_def venue_order_def exact_ops_def add_divide_distrib)

lemma route_split_names: "route_split F sq fsum symbol side notional split R = Some r \<Longrightarrow> ro_symbol r = symbol \<and> ro_side r = side"
  by (auto simp: route_split_def Let_def route_result_def split: if_splits)

lemma sum_list_filter_le_rat: "\<forall>x \<in> set xs. 0 \<le> f x \<Longrightarrow> sum_list (map f (filter P xs)) \<le> sum_list (map (f :: 'a \<Rightarrow> rat) xs)"
  by (induction xs) auto


definition quoting :: "rat \<Rightarrow> bool \<Rightarrow> VenueOrder list Connector" where
  "quoting p ok = \<lparr>last_price = (\<lambda>_. Some (Fin p)), order_book = None, submit_order = (\<lambda>ord w. (Inr (ok, if ok then Some ''b1'' else None), w @ [ord]))\<rparr>"

definition sample_order :: Order where
  "sample_order = (blank_order ''o1'' 0)\<lparr>client_order_id := ''c1'', o_symbol := ''AAPL'', quantity := 90\<rparr>"

definition no_orders_yet :: "VenueOrder list RoutedSubmit" where
  "no_orders_yet = \<lparr>rs_sor = two_venues, rs_world = [], rs_record = []\<rparr>"


subsection \<open>What goes wrong\<close>

text \<open>
  One venue takes its part of the order and the other refuses: the engine is told that the order was
  refused, although a part of it is live.
\<close>

lemma partly_taken_order_refused:
  "map_option (\<lambda>(ans, s'). (fst ans, map (\<lambda>ord. (vo_symbol ord, vo_quantity ord)) (rs_world s'), venues_ok (snd (snd (last (rs_record s'))))))
     (routed_broker_submit exact_ops (\<lambda>x. x) (\<lambda>_. Fin 0) Fin (\<lambda>_ _ _. 7) (\<lambda>x. x)
        [(''A'', quoting 100 True), (''B'', quoting 100 False)] (Some (\<lambda>_. Some (Fin 100))) None sample_order
        (no_orders_yet\<lparr>rs_sor := init_SmartOrderRouter [sample_venue ''A'' 1 5000 1 0, sample_venue ''B'' 1 5000 1 0] 2\<rparr>))
   = Some (False, [(''AAPL'', Fin 45), (''AAPL'', Fin 45)], 1)"
  by code_simp

text \<open>The identifier of a venue order does not say whether it buys or sells: the sale of what was bought has the identifier of the purchase.\<close>

lemma sale_has_identifier_of_purchase:
  "vo_client_id (venue_order F py_hash round2 venue symbol ''SELL'' notional px) = vo_client_id (venue_order F py_hash round2 venue symbol ''BUY'' notional px)"
  by (simp add: venue_order_def)

definition pieces_of :: "RouteResult option \<Rightarrow> ((string \<times> pyfloat) list \<times> pyfloat) option" where
  "pieces_of r = map_option (\<lambda>r. (map (\<lambda>a. (va_venue a, va_notional a)) (ro_allocations r), total_est_cost r)) r"

text \<open>The square roots of the participations that matter below, to four digits.\<close>

definition some_roots :: "pyfloat \<Rightarrow> pyfloat" where
  "some_roots x = (if x = Fin (1 / 2) then Fin (7071 / 10000) else x)"

definition dear_and_cheap :: SmartOrderRouter where
  "dear_and_cheap = init_SmartOrderRouter [sample_venue ''A'' 1 1000 (1 / 10) 800, sample_venue ''B'' 800 10000000 0 0] 2"

text \<open>
  A piece may be smaller than the least notional of its venue, which is compared with the whole order
  only; and the split may cost more than the best single venue, by the router's own estimate, because the
  marginal costs that place the pieces are not those of the estimate.
\<close>

lemma piece_below_minimum_and_dearer:
  "pieces_of (route_split exact_ops some_roots (foldl (fadd exact_ops) (Fin 0)) ''AAPL'' ''BUY'' (Fin 1000) True dear_and_cheap)
     = Some ([(''A'', Fin 500), (''B'', Fin 500)], Fin (23091 / 400))"
  "pieces_of (route_split exact_ops some_roots (foldl (fadd exact_ops) (Fin 0)) ''AAPL'' ''BUY'' (Fin 1000) False dear_and_cheap)
     = Some ([(''A'', Fin 1000)], Fin (501 / 10))"
  by code_simp+

text \<open>
  A venue without a quote keeps its assumed liquidity, and one that shows no size still has a little: both
  are used although they have nothing to offer, and the second is counted as usable.
\<close>

lemma venues_without_liquidity_used:
  "(let (n, R) = refresh_liquidity exact_ops (\<lambda>v _. if v = ''A'' then Some \<lparr>q_bid = Fin 99, q_ask = Fin 101, bid_size = Fin 0, ask_size = Fin 0\<rparr> else None)
       ''AAPL'' ''BUY'' (init_SmartOrderRouter [sample_venue ''A'' 1 1000 0 0, sample_venue ''B'' 1 1000 0 0] 2)
    in (n, map v_name (usable_venues (Fin 1000) R))) = (1, [''A'', ''B''])"
  by code_simp

end
