(* ===== verification/Post_Trade.thy ===== *)
theory Post_Trade
  imports PnL_Ledger
begin

section \<open>Post-trade allocation and settlement\<close>

text \<open>
  Model of \<^verbatim>\<open>packages/agent/execution/allocation.py\<close>: the block is allocated to the accounts
  at its average price, the settlement date is found on the calendar and the obligations of every account
  are collected.  Quantities and prices are finite decimals; \<open>ctx\<close> rounds the results of decimal
  arithmetic to the context and \<open>prec\<close> is its number of digits: \<^verbatim>\<open>quantize\<close> raises when its
  result needs more.  A date is its ordinal, day one being the first of January of the year 1; the texts
  that \<^verbatim>\<open>str\<close> and \<^verbatim>\<open>isoformat\<close> make of numbers and dates are represented by what
  they denote.
\<close>

record BlockFill =
  bf_qty :: rat
  bf_price :: rat

record SubAccountTarget =
  ta_account :: string
  ta_qty :: rat

record AccountAllocation =
  aa_account :: string
  aa_qty :: rat
  aa_price :: rat
  aa_notional :: rat

record GiveUp =
  executing_broker :: string
  clearing_broker :: string
  gu_account :: string
  cmta_code :: string

definition give_up_dict :: "GiveUp \<Rightarrow> (string, string) dict" where
  "give_up_dict g =
     [(''executing_broker'', executing_broker g), (''clearing_broker'', clearing_broker g), (''account'', gu_account g),
      (''cmta_code'', cmta_code g), (''type'', ''give_up_cmta'')]"

record AllocationResult =
  ar_symbol :: string
  ar_side :: string
  ar_avg_price :: rat
  ar_filled :: rat
  ar_allocations :: "AccountAllocation list"
  ar_residual :: rat
  ar_give_up :: "(string, string) dict option"

subsection \<open>Rounding to a number of decimal places\<close>

text \<open>Ties go away from zero with \<^verbatim>\<open>ROUND_HALF_UP\<close>, to the even digit with the rounding of the default context.\<close>

definition half_up :: "rat \<Rightarrow> int" where
  "half_up x = (if x < 0 then - \<lfloor>1 / 2 - x\<rfloor> else \<lfloor>x + 1 / 2\<rfloor>)"

definition half_even :: "rat \<Rightarrow> int" where
  "half_even x =
     (let n = \<lfloor>x\<rfloor>; d = x - of_int n in
      if d < 1 / 2 then n else if d > 1 / 2 then n + 1 else if even n then n else n + 1)"

definition dec_quantize :: "nat \<Rightarrow> (rat \<Rightarrow> int) \<Rightarrow> nat \<Rightarrow> rat \<Rightarrow> rat option" where
  "dec_quantize prec mode places x =
     (let n = mode (x * 10 ^ places) in if \<bar>n\<bar> < 10 ^ prec then Some (of_int n / 10 ^ places) else None)"

fun traverse :: "('a \<Rightarrow> 'b option) \<Rightarrow> 'a list \<Rightarrow> 'b list option" where
  "traverse f [] = Some []"
| "traverse f (x # xs) = (case f x of None \<Rightarrow> None | Some y \<Rightarrow> map_option ((#) y) (traverse f xs))"

subsection \<open>Allocation\<close>

definition average_fill_price :: "(rat \<Rightarrow> rat) \<Rightarrow> BlockFill list \<Rightarrow> rat" where
  "average_fill_price ctx fills =
     (let q = dec_sum ctx (map bf_qty fills) in
      if q = 0 then 0 else ctx (dec_sum ctx (map (\<lambda>f. ctx (bf_qty f * bf_price f)) fills) / q))"

text \<open>The first position of the largest number.\<close>

fun first_max_from :: "nat \<Rightarrow> rat \<Rightarrow> nat \<Rightarrow> rat list \<Rightarrow> nat" where
  "first_max_from b v i [] = b"
| "first_max_from b v i (x # xs) = (if x > v then first_max_from i x (Suc i) xs else first_max_from b v (Suc i) xs)"

definition first_max :: "rat list \<Rightarrow> nat" where
  "first_max xs = (case xs of [] \<Rightarrow> 0 | x # ys \<Rightarrow> first_max_from 0 x 1 ys)"

text \<open>What is left of the block after rounding goes to the largest allocation.\<close>

definition push_residual :: "(rat \<Rightarrow> rat) \<Rightarrow> rat \<Rightarrow> rat list \<Rightarrow> rat list \<times> rat" where
  "push_residual ctx tot qs =
     (let residual = ctx (tot - dec_sum ctx qs); i = first_max qs in
      if qs \<noteq> [] \<and> residual \<noteq> 0 then (qs[i := ctx (qs ! i + residual)], 0) else (qs, residual))"

definition book_account :: "(rat \<Rightarrow> rat) \<Rightarrow> nat \<Rightarrow> rat \<Rightarrow> string \<times> rat \<Rightarrow> AccountAllocation option" where
  "book_account ctx prec avg aq =
     map_option (\<lambda>n. \<lparr>aa_account = fst aq, aa_qty = snd aq, aa_price = avg, aa_notional = n\<rparr>)
       (dec_quantize prec half_even 2 (ctx (snd aq * avg)))"

definition average_price_allocation ::
  "(rat \<Rightarrow> rat) \<Rightarrow> nat \<Rightarrow> string \<Rightarrow> string \<Rightarrow> BlockFill list \<Rightarrow> SubAccountTarget list \<Rightarrow> GiveUp option \<Rightarrow> AllocationResult option" where
  "average_price_allocation ctx prec symbol side fills targets gu =
     (let tot = dec_sum ctx (map bf_qty fills); avg = average_fill_price ctx fills; requested = dec_sum ctx (map ta_qty targets) in
      if requested \<le> 0 \<or> tot \<le> 0
      then Some \<lparr>ar_symbol = symbol, ar_side = side, ar_avg_price = avg, ar_filled = tot, ar_allocations = [], ar_residual = tot, ar_give_up = None\<rparr>
      else
        (case traverse (\<lambda>t. dec_quantize prec half_up 8 (ctx (tot * ctx (ta_qty t / requested)))) targets of
           None \<Rightarrow> None
         | Some rounded \<Rightarrow>
             (let (qs, residual) = push_residual ctx tot rounded in
              map_option
                (\<lambda>allocs. \<lparr>ar_symbol = symbol, ar_side = side, ar_avg_price = avg, ar_filled = tot, ar_allocations = allocs, ar_residual = residual,
                           ar_give_up = map_option give_up_dict gu\<rparr>)
                (traverse (book_account ctx prec avg) (zip (map ta_account targets) qs)))))"

subsection \<open>Settlement\<close>

type_synonym date = int

definition max_ordinal :: date where
  "max_ordinal = 3652059"

definition days_before_month :: "bool \<Rightarrow> nat \<Rightarrow> int" where
  "days_before_month leap m = [0, 31, 59, 90, 120, 151, 181, 212, 243, 273, 304, 334] ! (m - 1) + (if leap \<and> m > 2 then 1 else 0)"

definition is_leap :: "int \<Rightarrow> bool" where
  "is_leap y \<longleftrightarrow> y mod 4 = 0 \<and> (y mod 100 \<noteq> 0 \<or> y mod 400 = 0)"

definition date_of :: "int \<Rightarrow> nat \<Rightarrow> int \<Rightarrow> date" where
  "date_of y m d = (y - 1) * 365 + (y - 1) div 4 - (y - 1) div 100 + (y - 1) div 400 + days_before_month (is_leap y) m + d"

definition weekday :: "date \<Rightarrow> int" where
  "weekday d = (d + 6) mod 7"

definition US_HOLIDAYS_2026 :: "date list" where
  "US_HOLIDAYS_2026 =
     [date_of 2026 1 1, date_of 2026 1 19, date_of 2026 2 16, date_of 2026 4 3, date_of 2026 5 25, date_of 2026 6 19, date_of 2026 7 3,
      date_of 2026 9 7, date_of 2026 11 26, date_of 2026 12 25]"

definition business_day :: "date \<Rightarrow> bool" where
  "business_day d \<longleftrightarrow> weekday d < 5 \<and> d \<notin> set US_HOLIDAYS_2026"

text \<open>The loop adds days until it has seen enough business days; \<open>None\<close>: past the last date.\<close>

function business_days_from :: "int \<Rightarrow> int \<Rightarrow> date \<Rightarrow> date option" where
  "business_days_from n added cur =
     (if added < n
      then if cur + 1 > max_ordinal then None
           else business_days_from n (if business_day (cur + 1) then added + 1 else added) (cur + 1)
      else Some cur)"
  by auto

termination
  by (relation "measure (\<lambda>(n, added, cur). nat (max_ordinal - cur))") auto

declare business_days_from.simps [simp del]

definition add_business_days :: "date \<Rightarrow> int \<Rightarrow> date option" where
  "add_business_days d n = business_days_from n 0 d"

definition SETTLE_DAYS :: "(string, int) dict" where
  "SETTLE_DAYS = [(''equity'', 1), (''etf'', 1), (''bond'', 1), (''crypto'', 0), (''fx'', 2), (''futures'', 1), (''options'', 1)]"

definition settle_days :: "string \<Rightarrow> int" where
  "settle_days asset_class = (case dict_get SETTLE_DAYS (lower asset_class) of None \<Rightarrow> 2 | Some n \<Rightarrow> n)"

definition settlement_date :: "date \<Rightarrow> string \<Rightarrow> date option" where
  "settlement_date trade_date asset_class =
     (if settle_days asset_class > 0 then add_business_days trade_date (settle_days asset_class) else Some trade_date)"

record Obligation =
  cash_delta :: rat
  position_delta :: rat

definition side_sign :: "string \<Rightarrow> rat" where
  "side_sign side = (if upper side = ''BUY'' then 1 else - 1)"

definition obligation :: "(rat \<Rightarrow> rat) \<Rightarrow> nat \<Rightarrow> string \<Rightarrow> AccountAllocation \<Rightarrow> Obligation option" where
  "obligation ctx prec side a =
     map_option (\<lambda>c. \<lparr>cash_delta = c, position_delta = ctx (side_sign side * aa_qty a)\<rparr>)
       (dec_quantize prec half_even 2 (ctx (- side_sign side * aa_notional a)))"

fun net_from :: "(rat \<Rightarrow> rat) \<Rightarrow> nat \<Rightarrow> string \<Rightarrow> (string, Obligation) dict \<Rightarrow> AccountAllocation list \<Rightarrow> (string, Obligation) dict option" where
  "net_from ctx prec side out [] = Some out"
| "net_from ctx prec side out (a # as) =
     (case obligation ctx prec side a of None \<Rightarrow> None | Some ob \<Rightarrow> net_from ctx prec side (dict_set out (aa_account a) ob) as)"

definition net_settlement :: "(rat \<Rightarrow> rat) \<Rightarrow> nat \<Rightarrow> AccountAllocation list \<Rightarrow> string \<Rightarrow> (string, Obligation) dict option" where
  "net_settlement ctx prec allocs side = net_from ctx prec side [] allocs"

record BlockResult =
  br_allocation :: AllocationResult
  br_settlement :: date
  br_asset_class :: string
  br_net :: "(string, Obligation) dict"
  br_status :: string

datatype clearing_error = InvalidOperation | DateOverflow

definition process_block ::
  "(rat \<Rightarrow> rat) \<Rightarrow> nat \<Rightarrow> string \<Rightarrow> string \<Rightarrow> BlockFill list \<Rightarrow> SubAccountTarget list \<Rightarrow> date \<Rightarrow> string \<Rightarrow> GiveUp option \<Rightarrow>
   clearing_error + BlockResult" where
  "process_block ctx prec symbol side fills targets trade_date asset_class gu =
     (case average_price_allocation ctx prec symbol side fills targets gu of
        None \<Rightarrow> Inl InvalidOperation
      | Some r \<Rightarrow>
          (case settlement_date trade_date asset_class of
             None \<Rightarrow> Inl DateOverflow
           | Some settle \<Rightarrow>
               (case net_settlement ctx prec (ar_allocations r) side of
                  None \<Rightarrow> Inl InvalidOperation
                | Some net \<Rightarrow>
                    Inr \<lparr>br_allocation = r, br_settlement = settle, br_asset_class = asset_class, br_net = net, br_status = ''allocated''\<rparr>)))"

subsection \<open>Rounding is close\<close>

lemma half_up_close: "\<bar>of_int (half_up x) - x\<bar> \<le> 1 / 2"
proof -
  have "half_up x = - \<lfloor>1 / 2 - x\<rfloor> \<or> half_up x = \<lfloor>x + 1 / 2\<rfloor>" by (simp add: half_up_def)
  then show ?thesis
  proof
    assume "half_up x = - \<lfloor>1 / 2 - x\<rfloor>"
    then have h: "of_int (half_up x) = - (of_int \<lfloor>1 / 2 - x\<rfloor> :: rat)" by simp
    show ?thesis using floor_correct [of "1 / 2 - x"] unfolding h by linarith
  next
    assume h: "half_up x = \<lfloor>x + 1 / 2\<rfloor>"
    show ?thesis using floor_correct [of "x + 1 / 2"] unfolding h by linarith
  qed
qed

lemma half_even_close: "\<bar>of_int (half_even x) - x\<bar> \<le> 1 / 2"
  using floor_correct [of x] by (auto simp: half_even_def Let_def abs_le_iff)

lemma half_even_int [simp]: "half_even (of_int n) = n"
  by (simp add: half_even_def)

lemma dec_quantize_close:
  assumes "dec_quantize prec mode p x = Some y" and "\<And>x. \<bar>of_int (mode x) - x\<bar> \<le> 1 / 2"
  shows "\<bar>y - x\<bar> \<le> 1 / (2 * 10 ^ p)"
proof -
  have y: "y = of_int (mode (x * 10 ^ p)) / 10 ^ p" using assms(1) by (auto simp: dec_quantize_def Let_def split: if_splits)
  then have "y - x = (of_int (mode (x * 10 ^ p)) - x * 10 ^ p) / 10 ^ p" by (simp add: diff_divide_distrib)
  then have "\<bar>y - x\<bar> = \<bar>of_int (mode (x * 10 ^ p)) - x * 10 ^ p\<bar> / 10 ^ p" by (simp add: abs_divide)
  also have "\<dots> \<le> (1 / 2) / 10 ^ p" using assms(2) [of "x * 10 ^ p"] by (intro divide_right_mono) auto
  finally show ?thesis by simp
qed

lemma dec_quantize_defined:
  assumes "\<bar>x\<bar> * 10 ^ p + 1 / 2 < 10 ^ prec" and "\<And>x. \<bar>of_int (mode x) - x\<bar> \<le> 1 / 2"
  shows "\<exists>y. dec_quantize prec mode p x = Some y"
proof -
  have "\<bar>of_int (mode (x * 10 ^ p))\<bar> \<le> \<bar>x * 10 ^ p\<bar> + 1 / 2" using assms(2) [of "x * 10 ^ p"] by linarith
  also have "\<dots> < 10 ^ prec" using assms(1) by (simp add: abs_mult)
  finally have "of_int \<bar>mode (x * 10 ^ p)\<bar> < (of_int (10 ^ prec) :: rat)" by simp
  then have "\<bar>mode (x * 10 ^ p)\<bar> < 10 ^ prec" by (simp only: of_int_less_iff)
  then show ?thesis by (simp add: dec_quantize_def Let_def)
qed

text \<open>Amounts that were rounded to cents once are kept by the second rounding, with either sign.\<close>

lemma requantized:
  assumes "dec_quantize prec half_even p x = Some y"
  shows "dec_quantize prec half_even p y = Some y" "dec_quantize prec half_even p (- y) = Some (- y)"
proof -
  obtain n where n: "y = of_int n / 10 ^ p" "\<bar>n\<bar> < 10 ^ prec" using assms by (auto simp: dec_quantize_def Let_def split: if_splits)
  have "half_even (- of_int n) = - n" using half_even_int [of "- n"] by simp
  with n show "dec_quantize prec half_even p y = Some y" "dec_quantize prec half_even p (- y) = Some (- y)" by (simp_all add: dec_quantize_def)
qed

lemma traverse_iff: "traverse f xs = Some ys \<longleftrightarrow> list_all2 (\<lambda>x y. f x = Some y) xs ys"
  by (induction xs arbitrary: ys) (auto simp: list_all2_Cons1 split: option.splits)

lemma traverse_defined: "\<forall>x \<in> set xs. \<exists>y. f x = Some y \<Longrightarrow> \<exists>ys. traverse f xs = Some ys"
  by (induction xs) auto

subsection \<open>The block is allocated completely\<close>

lemma first_max_from_bound: "b < i \<Longrightarrow> first_max_from b v i xs < i + length xs"
proof (induction xs arbitrary: b v i)
  case (Cons x xs)
  from Cons.IH [of i "Suc i" x] Cons.IH [of b "Suc i" v] Cons.prems show ?case by auto
qed simp

lemma first_max_bound: "xs \<noteq> [] \<Longrightarrow> first_max xs < length xs"
  using first_max_from_bound [of 0 1] by (auto simp: first_max_def split: list.splits)

lemma sum_list_deviation:
  "length xs = length ys \<Longrightarrow> \<forall>i < length xs. \<bar>xs ! i - ys ! i\<bar> \<le> (e :: rat) \<Longrightarrow> \<bar>sum_list xs - sum_list ys\<bar> \<le> of_nat (length xs) * e"
proof (induction xs ys rule: list_induct2)
  case (Cons x xs y ys)
  have "\<bar>x - y\<bar> \<le> e" using Cons.prems by (force dest: spec [of _ 0])
  moreover have "\<bar>sum_list xs - sum_list ys\<bar> \<le> of_nat (length xs) * e"
  proof (rule Cons.IH, intro allI impI)
    fix i assume "i < length xs"
    then show "\<bar>xs ! i - ys ! i\<bar> \<le> e" using Cons.prems [rule_format, of "Suc i"] by simp
  qed
  ultimately show ?case by (simp add: algebra_simps)
qed simp

lemma sum_list_change: "i < length xs \<Longrightarrow> sum_list (xs[i := y]) = sum_list xs - xs ! i + (y :: rat)"
  by (induction xs arbitrary: i) (auto simp: nth_Cons split: nat.splits)

lemma push_residual_exact:
  assumes "qs \<noteq> []"
  shows "\<exists>rs. push_residual exact tot qs = (rs, 0) \<and> length rs = length qs \<and> sum_list rs = tot \<and>
    (\<forall>i < length qs. \<bar>rs ! i - qs ! i\<bar> \<le> \<bar>tot - sum_list qs\<bar>)"
proof -
  let ?i = "first_max qs" and ?r = "tot - sum_list qs"
  have i: "?i < length qs" using first_max_bound [OF assms] .
  have "sum_list (qs[?i := qs ! ?i + ?r]) = tot" using i by (simp add: sum_list_change)
  with assms i show ?thesis by (auto simp: push_residual_def Let_def exact_def nth_list_update)
qed

definition share :: "BlockFill list \<Rightarrow> SubAccountTarget list \<Rightarrow> SubAccountTarget \<Rightarrow> rat" where
  "share fills targets t = sum_list (map bf_qty fills) * (ta_qty t / sum_list (map ta_qty targets))"

lemma sum_shares:
  assumes "sum_list (map ta_qty targets) \<noteq> 0"
  shows "sum_list (map (share fills targets) targets) = sum_list (map bf_qty fills)"
proof -
  let ?c = "sum_list (map bf_qty fills) / sum_list (map ta_qty targets)"
  have "sum_list (map (share fills targets) targets) = sum_list (map (\<lambda>t. ?c * ta_qty t) targets)" by (simp add: share_def [abs_def])
  also have "\<dots> = ?c * sum_list (map ta_qty targets)" by (rule sum_list_const_mult)
  finally show ?thesis using assms by simp
qed

lemma shares_within_block:
  assumes "t \<in> set targets" and "\<forall>t \<in> set targets. 0 \<le> ta_qty t" and "0 < sum_list (map ta_qty targets)" and "0 < sum_list (map bf_qty fills)"
  shows "0 \<le> share fills targets t" "share fills targets t \<le> sum_list (map bf_qty fills)"
proof -
  have "ta_qty t \<le> sum_list (map ta_qty targets)"
    using assms(1,2) by (intro member_le_sum_list) auto
  then have "ta_qty t / sum_list (map ta_qty targets) \<le> 1" using assms(3) by simp
  then show "share fills targets t \<le> sum_list (map bf_qty fills)" using assms(4) unfolding share_def by (intro mult_left_le) auto
  show "0 \<le> share fills targets t" using assms by (simp add: share_def)
qed

text \<open>The rounded shares, and what pushing the residual makes of them.\<close>

lemma rounded_shares:
  fixes prec fills targets
  defines "tot \<equiv> sum_list (map bf_qty fills)"
  assumes r: "traverse (\<lambda>t. dec_quantize prec half_up 8 (share fills targets t)) targets = Some qs"
    and ne: "sum_list (map ta_qty targets) \<noteq> 0"
  shows "\<exists>rs. push_residual exact tot qs = (rs, 0) \<and> length rs = length targets \<and> sum_list rs = tot \<and>
    (\<forall>i < length targets. \<bar>rs ! i - share fills targets (targets ! i)\<bar> \<le> (of_nat (length targets) + 1) / (2 * 10 ^ 8))"
proof -
  let ?e = "1 / (2 * 10 ^ 8) :: rat" and ?sh = "map (share fills targets) targets"
  have l: "list_all2 (\<lambda>t q. dec_quantize prec half_up 8 (share fills targets t) = Some q) targets qs" using r by (simp add: traverse_iff)
  then have len: "length qs = length targets" by (simp add: list_all2_lengthD)
  have dev: "\<bar>qs ! i - ?sh ! i\<bar> \<le> ?e" if "i < length targets" for i
    using that list_all2_nthD [OF l that] dec_quantize_close [OF _ half_up_close, of prec 8] by simp
  have "\<bar>sum_list qs - sum_list ?sh\<bar> \<le> of_nat (length qs) * ?e" using len dev by (intro sum_list_deviation) auto
  then have res: "\<bar>tot - sum_list qs\<bar> \<le> of_nat (length targets) * ?e"
    using sum_shares [OF ne, of fills] len by (simp add: tot_def abs_minus_commute)
  have "qs \<noteq> []" using ne len by auto
  from push_residual_exact [OF this, of tot] obtain rs where
    rs: "push_residual exact tot qs = (rs, 0)" "length rs = length qs" "sum_list rs = tot" "\<forall>i < length qs. \<bar>rs ! i - qs ! i\<bar> \<le> \<bar>tot - sum_list qs\<bar>" by blast
  have "\<bar>rs ! i - share fills targets (targets ! i)\<bar> \<le> (of_nat (length targets) + 1) / (2 * 10 ^ 8)" if i: "i < length targets" for i
  proof -
    have "\<bar>rs ! i - ?sh ! i\<bar> \<le> of_nat (length targets) * ?e + ?e" using rs(4) [rule_format, of i] i len res dev [OF i] by linarith
    then show ?thesis using i by (simp add: add_divide_distrib)
  qed
  with rs len show ?thesis by auto
qed

lemma average_price_exact:
  "average_fill_price exact fills * sum_list (map bf_qty fills) = sum_list (map (\<lambda>f. bf_qty f * bf_price f) fills)"
  if "sum_list (map bf_qty fills) \<noteq> 0"
  using that by (simp add: average_fill_price_def exact_def Let_def)

text \<open>The allocations of the accounts, with the quantities given.\<close>

lemma booked_accounts:
  assumes "traverse (book_account exact prec avg) (zip accs rs) = Some allocs" and "length accs = length rs"
  shows "map aa_account allocs = accs" "map aa_qty allocs = rs" "\<forall>a \<in> set allocs. aa_price a = avg"
    "\<bar>sum_list (map aa_notional allocs) - sum_list rs * avg\<bar> \<le> of_nat (length rs) / 200"
    "\<forall>a \<in> set allocs. dec_quantize prec half_even 2 (aa_notional a) = Some (aa_notional a) \<and>
       dec_quantize prec half_even 2 (- aa_notional a) = Some (- aa_notional a)"
proof -
  have l: "list_all2 (\<lambda>aq a. book_account exact prec avg aq = Some a) (zip accs rs) allocs" using assms(1) by (simp add: traverse_iff)
  then have len: "length allocs = length rs" using assms(2) by (simp add: list_all2_lengthD [symmetric])
  have at: "aa_account (allocs ! i) = accs ! i \<and> aa_qty (allocs ! i) = rs ! i \<and> aa_price (allocs ! i) = avg \<and>
      dec_quantize prec half_even 2 (rs ! i * avg) = Some (aa_notional (allocs ! i))" if "i < length rs" for i
    using that assms(2) list_all2_nthD [OF l, of i] by (auto simp: book_account_def exact_def dest: sym)
  show "map aa_account allocs = accs" "map aa_qty allocs = rs" "\<forall>a \<in> set allocs. aa_price a = avg"
    using at len assms(2) by (auto simp: list_eq_iff_nth_eq all_set_conv_all_nth)
  show "\<forall>a \<in> set allocs. dec_quantize prec half_even 2 (aa_notional a) = Some (aa_notional a) \<and>
       dec_quantize prec half_even 2 (- aa_notional a) = Some (- aa_notional a)"
    unfolding all_set_conv_all_nth
  proof (intro allI impI)
    fix i assume "i < length allocs"
    then have "dec_quantize prec half_even 2 (rs ! i * avg) = Some (aa_notional (allocs ! i))" using at len by simp
    from requantized [OF this]
    show "dec_quantize prec half_even 2 (aa_notional (allocs ! i)) = Some (aa_notional (allocs ! i)) \<and>
       dec_quantize prec half_even 2 (- aa_notional (allocs ! i)) = Some (- aa_notional (allocs ! i))" by simp
  qed
  have "\<bar>map aa_notional allocs ! i - map (\<lambda>q. q * avg) rs ! i\<bar> \<le> 1 / 200" if "i < length rs" for i
    using dec_quantize_close [OF conjunct2 [OF conjunct2 [OF conjunct2 [OF at [OF that]]]] half_even_close] that len by simp
  then have "\<bar>sum_list (map aa_notional allocs) - sum_list (map (\<lambda>q. q * avg) rs)\<bar> \<le> of_nat (length (map aa_notional allocs)) * (1 / 200)"
    using len by (intro sum_list_deviation) auto
  then show "\<bar>sum_list (map aa_notional allocs) - sum_list rs * avg\<bar> \<le> of_nat (length rs) / 200" using len by (simp add: sum_list_mult_const)
qed

subsection \<open>Obligations of the accounts\<close>

lemma net_from_distinct:
  assumes "distinct (map aa_account as)" and "\<forall>a \<in> set as. dict_get out (aa_account a) = None" and "traverse (obligation ctx prec side) as = Some obs"
  shows "net_from ctx prec side out as = Some (out @ zip (map aa_account as) obs)"
  using assms
proof (induction as arbitrary: out obs)
  case (Cons a as)
  obtain ob obs' where o: "obligation ctx prec side a = Some ob" "traverse (obligation ctx prec side) as = Some obs'" "obs = ob # obs'"
    using Cons.prems(3) by (auto split: option.splits)
  have new: "dict_set out (aa_account a) ob = out @ [(aa_account a, ob)]" using Cons.prems(2) by (intro dict_set_new) simp
  have "net_from ctx prec side (dict_set out (aa_account a) ob) as = Some (dict_set out (aa_account a) ob @ zip (map aa_account as) obs')"
    using Cons.prems o(2) by (intro Cons.IH) (auto simp: rev_image_eqI)
  with o new show ?case by simp
qed simp

definition owed :: "string \<Rightarrow> AccountAllocation \<Rightarrow> Obligation" where
  "owed side a = \<lparr>cash_delta = - side_sign side * aa_notional a, position_delta = side_sign side * aa_qty a\<rparr>"

lemma net_settlement_exact:
  assumes "distinct (map aa_account as)"
    and "\<forall>a \<in> set as. dec_quantize prec half_even 2 (aa_notional a) = Some (aa_notional a) \<and>
       dec_quantize prec half_even 2 (- aa_notional a) = Some (- aa_notional a)"
  shows "net_settlement exact prec as side = Some (map (\<lambda>a. (aa_account a, owed side a)) as)"
proof -
  have "list_all2 (\<lambda>a ob. obligation exact prec side a = Some ob) as (map (owed side) as)"
    using assms(2) by (auto simp: list_all2_map2 list_all2_same obligation_def owed_def exact_def side_sign_def)
  then have "traverse (obligation exact prec side) as = Some (map (owed side) as)" by (simp add: traverse_iff)
  from net_from_distinct [OF assms(1) _ this, of "[]"] show ?thesis
    by (simp add: net_settlement_def zip_map_map) (simp add: zip_same_conv_map)
qed

subsection \<open>Settlement dates\<close>

lemma holidays:
  "set US_HOLIDAYS_2026 = {739617, 739635, 739663, 739709, 739761, 739786, 739800, 739866, 739946, 739975}"
  by (simp add: US_HOLIDAYS_2026_def date_of_def days_before_month_def is_leap_def)

text \<open>No holiday of the table is a Tuesday, so every seventh day is a business day.\<close>

lemma tuesday_is_business_day:
  assumes "d mod 7 = 2"
  shows "business_day d"
proof -
  have "(d + 6) mod 7 = (d mod 7 + 6) mod 7" by (simp only: mod_simps)
  then have "weekday d < 5" using assms by (simp add: weekday_def)
  moreover have "d \<notin> set US_HOLIDAYS_2026" using assms by (auto simp: holidays)
  ultimately show ?thesis by (simp add: business_day_def)
qed

lemma next_residue:
  fixes cur :: int
  shows "(cur - 1) mod 7 = (if (cur + 1) mod 7 = 2 then 0 else (cur - 2) mod 7 + 1)"
proof -
  let ?m = "(cur - 2) mod 7"
  have "(cur - 1) mod 7 = (?m + 1) mod 7" "(cur + 1) mod 7 = (?m + 3) mod 7" by (simp_all add: mod_simps add.commute)
  moreover have "?m \<in> {0, 1, 2, 3, 4, 5, 6}" using pos_mod_sign [of 7 "cur - 2"] pos_mod_bound [of 7 "cur - 2"] by (simp, linarith)
  ultimately show ?thesis by auto
qed

lemma enough_business_days: "\<not> added < n \<Longrightarrow> business_days_from n added cur = Some cur"
  by (subst business_days_from.simps) simp

lemma if_NoneD: "(if c then None else r) = Some s \<Longrightarrow> \<not> c \<and> r = Some s"
  by (simp split: if_splits)

lemma next_business_day:
  "added < n \<Longrightarrow> business_days_from n added cur =
     (if cur + 1 > max_ordinal then None else business_days_from n (if business_day (cur + 1) then added + 1 else added) (cur + 1))"
  by (subst business_days_from.simps) simp

lemma business_days_from_returns:
  "added < n \<Longrightarrow> cur + 7 * (n - added) - (cur - 2) mod 7 \<le> max_ordinal \<Longrightarrow>
   \<exists>s. business_days_from n added cur = Some s \<and> s \<le> cur + 7 * (n - added) - (cur - 2) mod 7"
proof (induction n added cur rule: business_days_from.induct)
  case (1 n added cur)
  let ?b = "business_day (cur + 1)"
  have m: "(cur - 2) mod 7 < 7" "0 \<le> (cur - 2) mod 7" by simp_all
  have step: "business_days_from n added cur = business_days_from n (if ?b then added + 1 else added) (cur + 1)"
    using 1(2,3) m by (subst business_days_from.simps) auto
  have sunk: "\<not> ?b \<Longrightarrow> (cur - 1) mod 7 = (cur - 2) mod 7 + 1" using tuesday_is_business_day [of "cur + 1"] next_residue [of cur] by auto
  have late: "(cur - 1) mod 7 \<ge> 0" by simp
  show ?case
  proof (cases "?b \<and> added + 1 = n")
    case True
    then have "business_days_from n added cur = Some (cur + 1)" by (simp add: step enough_business_days)
    with True m show ?thesis by auto
  next
    case False
    let ?a = "if ?b then added + 1 else added"
    have "\<exists>s. business_days_from n ?a (cur + 1) = Some s \<and> s \<le> (cur + 1) + 7 * (n - ?a) - (cur + 1 - 2) mod 7"
      using 1(2,3) False sunk late m by (intro 1(1)) auto
    with step sunk late m show ?thesis by (auto split: if_splits)
  qed
qed

lemma business_days_from_counts:
  "business_days_from n added cur = Some s \<Longrightarrow> added \<le> n \<Longrightarrow>
   cur \<le> s \<and> int (card {x. cur < x \<and> x \<le> s \<and> business_day x}) = n - added \<and> (added < n \<longrightarrow> business_day s)"
proof (induction n added cur rule: business_days_from.induct)
  case (1 n added cur)
  show ?case
  proof (cases "added < n")
    case False
    then have "s = cur" "added = n" using 1(2,3) by (simp_all add: enough_business_days)
    moreover have none: "{x. cur < x \<and> x \<le> cur \<and> business_day x} = {}" by auto
    ultimately show ?thesis by (simp only: none card.empty) simp
  next
    case True
    let ?b = "business_day (cur + 1)"
    let ?a = "if ?b then added + 1 else added"
    have run: "cur + 1 \<le> max_ordinal" "business_days_from n ?a (cur + 1) = Some s"
      using if_NoneD [OF 1(2) [unfolded next_business_day [OF True]]] by (auto simp only: not_less)
    have ih: "cur + 1 \<le> s \<and> int (card {x. cur + 1 < x \<and> x \<le> s \<and> business_day x}) = n - ?a \<and> (?a < n \<longrightarrow> business_day s)"
      using True run by (intro 1(1)) auto
    have split: "{x. cur < x \<and> x \<le> s \<and> business_day x} = (if ?b then insert (cur + 1) else id) {x. cur + 1 < x \<and> x \<le> s \<and> business_day x}"
      using ih by (auto simp: order_less_le)
    have "finite {x. cur + 1 < x \<and> x \<le> s \<and> business_day x}" by (rule finite_subset [of _ "{cur + 1 .. s}"]) auto
    with ih have "int (card {x. cur < x \<and> x \<le> s \<and> business_day x}) = n - added" unfolding split by auto
    moreover have "business_day s"
    proof (cases "?a < n")
      case False
      then have "s = cur + 1" using run(2) by (simp add: enough_business_days)
      with False True show ?thesis by (simp split: if_splits)
    qed (use ih in blast)
    ultimately show ?thesis using ih by simp
  qed
qed

lemma settle_days_range: "0 \<le> settle_days ac" "settle_days ac \<le> 2"
  by (simp_all add: settle_days_def SETTLE_DAYS_def)

lemma settlement_returns:
  assumes "d + 14 \<le> max_ordinal"
  shows "\<exists>s. settlement_date d ac = Some s \<and> d \<le> s \<and> s \<le> d + 7 * settle_days ac \<and>
    int (card {x. d < x \<and> x \<le> s \<and> business_day x}) = settle_days ac \<and> (settle_days ac > 0 \<longrightarrow> business_day s)"
proof (cases "settle_days ac > 0")
  case True
  obtain m where m: "m = (d - 2) mod 7" "0 \<le> m" by simp
  have "d + 7 * (settle_days ac - 0) - m \<le> max_ordinal" using assms settle_days_range(2) [of ac] m(2) by simp
  from business_days_from_returns [OF True this [unfolded m(1)]] obtain s where
    s: "business_days_from (settle_days ac) 0 d = Some s" "s \<le> d + 7 * (settle_days ac - 0) - m" by (auto simp: m(1))
  from s(2) m(2) have "s \<le> d + 7 * settle_days ac" by simp
  with s(1) business_days_from_counts [OF s(1)] True show ?thesis by (auto simp: settlement_date_def add_business_days_def)
next
  case False
  moreover have none: "{x. d < x \<and> x \<le> d \<and> business_day x} = {}" by auto
  ultimately show ?thesis using settle_days_range [of ac] by (simp add: settlement_date_def none)
qed

subsection \<open>Every quantity is booked\<close>

text \<open>The allocation returns when no number has more digits than the context.\<close>

lemma allocation_returns:
  fixes fills targets
  defines "tot \<equiv> sum_list (map bf_qty fills)" and "requested \<equiv> sum_list (map ta_qty targets)" and "n \<equiv> length targets"
    and "avg \<equiv> average_fill_price exact fills"
  assumes pos: "0 < tot" "0 < requested" "\<forall>t \<in> set targets. 0 \<le> ta_qty t"
    and fits: "tot * 10 ^ 8 + 1 \<le> 10 ^ prec" "(tot + of_nat n) * \<bar>avg\<bar> * 100 + 1 \<le> 10 ^ prec"
  shows "\<exists>qs rs allocs. traverse (\<lambda>t. dec_quantize prec half_up 8 (share fills targets t)) targets = Some qs \<and> push_residual exact tot qs = (rs, 0) \<and>
    length rs = n \<and> sum_list rs = tot \<and> (\<forall>i < n. \<bar>rs ! i - share fills targets (targets ! i)\<bar> \<le> (of_nat n + 1) / (2 * 10 ^ 8)) \<and>
    traverse (book_account exact prec avg) (zip (map ta_account targets) rs) = Some allocs \<and>
    average_price_allocation exact prec symbol side fills targets gu =
      Some \<lparr>ar_symbol = symbol, ar_side = side, ar_avg_price = avg, ar_filled = tot, ar_allocations = allocs, ar_residual = 0,
        ar_give_up = map_option give_up_dict gu\<rparr>"
proof -
  have within: "\<bar>share fills targets t\<bar> \<le> tot" if "t \<in> set targets" for t
    using shares_within_block [OF that] pos by (simp add: tot_def requested_def)
  have "\<forall>t \<in> set targets. \<exists>y. dec_quantize prec half_up 8 (share fills targets t) = Some y"
  proof
    fix t assume "t \<in> set targets"
    from within [OF this] have "\<bar>share fills targets t\<bar> * 10 ^ 8 + 1 / 2 < 10 ^ prec" using fits(1) by simp
    then show "\<exists>y. dec_quantize prec half_up 8 (share fills targets t) = Some y" using half_up_close by (rule dec_quantize_defined)
  qed
  from traverse_defined [OF this] obtain qs where qs: "traverse (\<lambda>t. dec_quantize prec half_up 8 (share fills targets t)) targets = Some qs" by blast
  from rounded_shares [OF qs] pos(2) obtain rs where
    rs: "push_residual exact tot qs = (rs, 0)" "length rs = n" "sum_list rs = tot"
      "\<forall>i < n. \<bar>rs ! i - share fills targets (targets ! i)\<bar> \<le> (of_nat n + 1) / (2 * 10 ^ 8)"
    by (auto simp: tot_def requested_def n_def)
  have "\<forall>aq \<in> set (zip (map ta_account targets) rs). \<exists>y. book_account exact prec avg aq = Some y"
  proof
    fix aq assume "aq \<in> set (zip (map ta_account targets) rs)"
    then obtain i where i: "i < n" "snd aq = rs ! i" using rs(2) by (auto simp: set_zip n_def)
    have n1: "1 \<le> (of_nat n :: rat)" using i(1) by simp
    have "\<bar>share fills targets (targets ! i)\<bar> \<le> tot" using i(1) by (intro within) (simp add: n_def)
    then have "\<bar>rs ! i\<bar> \<le> tot + (of_nat n + 1) / (2 * 10 ^ 8)" using rs(4) [rule_format, OF i(1)] by linarith
    also have "\<dots> \<le> tot + of_nat n" using n1 by (simp add: field_simps)
    finally have "\<bar>rs ! i\<bar> * \<bar>avg\<bar> \<le> (tot + of_nat n) * \<bar>avg\<bar>" by (rule mult_right_mono) simp
    then have "\<bar>rs ! i * avg\<bar> * 10 ^ 2 + 1 / 2 < 10 ^ prec" using fits(2) by (simp add: abs_mult)
    from dec_quantize_defined [OF this half_even_close] show "\<exists>y. book_account exact prec avg aq = Some y" by (auto simp: book_account_def i(2) exact_def)
  qed
  from traverse_defined [OF this] obtain allocs where al: "traverse (book_account exact prec avg) (zip (map ta_account targets) rs) = Some allocs" by blast
  have sh: "(\<lambda>t. dec_quantize prec half_up 8 (exact (tot * exact (ta_qty t / requested)))) = (\<lambda>t. dec_quantize prec half_up 8 (share fills targets t))"
    by (simp add: exact_def share_def tot_def requested_def)
  have "average_price_allocation exact prec symbol side fills targets gu =
      Some \<lparr>ar_symbol = symbol, ar_side = side, ar_avg_price = avg, ar_filled = tot, ar_allocations = allocs, ar_residual = 0,
        ar_give_up = map_option give_up_dict gu\<rparr>"
    using pos qs rs(1) al unfolding average_price_allocation_def Let_def dec_sum_exact tot_def [symmetric] requested_def [symmetric] avg_def [symmetric] sh
    by simp
  with qs rs al show ?thesis by blast
qed

text \<open>
  C18: A block is settled completely.  With exact decimals, numbers that fit the context, accounts that
  differ and targets that are not negative, a block with a positive filled quantity is processed without
  error: every account is allocated its share up to n + 1 halves of the eighth decimal, at the average
  price; the allocations add up to the filled quantity and nothing is left over; every account has one
  obligation, the positions they move add up to the block and the cash to its value up to half a cent per
  account; and the settlement date is found.
\<close>

theorem block_fully_settled:
  fixes fills targets
  defines "tot \<equiv> sum_list (map bf_qty fills)" and "n \<equiv> length targets" and "avg \<equiv> average_fill_price exact fills"
  assumes "0 < tot" and "0 < sum_list (map ta_qty targets)" and "\<forall>t \<in> set targets. 0 \<le> ta_qty t" and "distinct (map ta_account targets)"
    and "tot * 10 ^ 8 + 1 \<le> 10 ^ prec" and "(tot + of_nat n) * \<bar>avg\<bar> * 100 + 1 \<le> 10 ^ prec" and "d + 14 \<le> max_ordinal"
  shows "\<exists>b. process_block exact prec symbol side fills targets d ac gu = Inr b \<and>
    map aa_account (ar_allocations (br_allocation b)) = map ta_account targets \<and>
    (\<forall>i < n. \<bar>aa_qty (ar_allocations (br_allocation b) ! i) - share fills targets (targets ! i)\<bar> \<le> (of_nat n + 1) / (2 * 10 ^ 8)) \<and>
    (\<forall>a \<in> set (ar_allocations (br_allocation b)). aa_price a = avg) \<and>
    sum_list (map aa_qty (ar_allocations (br_allocation b))) = tot \<and> ar_residual (br_allocation b) = 0 \<and>
    map fst (br_net b) = map ta_account targets \<and>
    sum_list (map (position_delta \<circ> snd) (br_net b)) = side_sign side * tot \<and>
    \<bar>sum_list (map (cash_delta \<circ> snd) (br_net b)) + side_sign side * sum_list (map (\<lambda>f. bf_qty f * bf_price f) fills)\<bar> \<le> of_nat n / 200 \<and>
    settlement_date d ac = Some (br_settlement b)"
proof -
  from allocation_returns [of fills targets prec symbol side gu] assms obtain rs allocs where
    rs: "length rs = n" "sum_list rs = tot" "\<forall>i < n. \<bar>rs ! i - share fills targets (targets ! i)\<bar> \<le> (of_nat n + 1) / (2 * 10 ^ 8)"
    and al: "traverse (book_account exact prec avg) (zip (map ta_account targets) rs) = Some allocs"
    and res: "average_price_allocation exact prec symbol side fills targets gu =
      Some \<lparr>ar_symbol = symbol, ar_side = side, ar_avg_price = avg, ar_filled = tot, ar_allocations = allocs, ar_residual = 0,
        ar_give_up = map_option give_up_dict gu\<rparr>" by blast
  have len: "length (map ta_account targets) = length rs" using rs(1) by (simp add: n_def)
  note bk = booked_accounts [OF al len]
  obtain s where s: "settlement_date d ac = Some s" using settlement_returns [of d ac] assms(10) by blast
  have net: "net_settlement exact prec allocs side = Some (map (\<lambda>a. (aa_account a, owed side a)) allocs)"
    using net_settlement_exact [OF _ bk(5)] assms(7) by (simp add: bk(1))
  have pos: "sum_list (map (\<lambda>a. position_delta (owed side a)) allocs) = side_sign side * tot"
    using bk(2) rs(2) by (simp add: owed_def sum_list_const_mult flip: bk(2))
  have cash: "sum_list (map (\<lambda>a. cash_delta (owed side a)) allocs) = - side_sign side * sum_list (map aa_notional allocs)"
    using sum_list_const_mult [of "- side_sign side" aa_notional allocs] by (simp add: owed_def)
  have val: "sum_list rs * avg = sum_list (map (\<lambda>f. bf_qty f * bf_price f) fills)"
    using average_price_exact [of fills] assms(4) rs(2) by (simp add: tot_def avg_def mult.commute)
  have "\<bar>sum_list (map (\<lambda>a. cash_delta (owed side a)) allocs) + side_sign side * (sum_list rs * avg)\<bar> \<le> of_nat n / 200"
    using bk(4) rs(1) unfolding cash by (auto simp: side_sign_def abs_minus_commute)
  moreover have "process_block exact prec symbol side fills targets d ac gu =
      Inr \<lparr>br_allocation = \<lparr>ar_symbol = symbol, ar_side = side, ar_avg_price = avg, ar_filled = tot, ar_allocations = allocs, ar_residual = 0,
        ar_give_up = map_option give_up_dict gu\<rparr>, br_settlement = s, br_asset_class = ac,
        br_net = map (\<lambda>a. (aa_account a, owed side a)) allocs, br_status = ''allocated''\<rparr>"
    by (simp add: process_block_def res s net)
  moreover have "\<forall>i < n. aa_qty (allocs ! i) = rs ! i" using bk(2) rs(1) by (metis length_map nth_map)
  ultimately show ?thesis using bk rs s pos val by (simp add: comp_def)
qed

definition sample_fills :: "BlockFill list" where
  "sample_fills = [\<lparr>bf_qty = 60, bf_price = 10\<rparr>, \<lparr>bf_qty = 40, bf_price = 11\<rparr>]"

definition sample_targets :: "SubAccountTarget list" where
  "sample_targets = [\<lparr>ta_account = ''a1'', ta_qty = 1\<rparr>, \<lparr>ta_account = ''a2'', ta_qty = 1\<rparr>, \<lparr>ta_account = ''a3'', ta_qty = 1\<rparr>]"

theorem block_fully_settled_witness:
  "\<exists>b. process_block exact 28 ''AAPL'' ''buy'' sample_fills sample_targets (date_of 2026 4 2) ''equity'' None = Inr b \<and>
     sum_list (map aa_qty (ar_allocations (br_allocation b))) = 100 \<and> map fst (br_net b) = [''a1'', ''a2'', ''a3'']"
proof -
  have "average_fill_price exact sample_fills = 52 / 5" by (simp add: average_fill_price_def sample_fills_def exact_def)
  moreover have "date_of 2026 4 2 = 739708" by (simp add: date_of_def days_before_month_def is_leap_def)
  ultimately show ?thesis
    using block_fully_settled [of sample_fills sample_targets 28 "date_of 2026 4 2" "''AAPL''" "''buy''" "''equity''" None]
    by (auto simp: sample_fills_def sample_targets_def max_ordinal_def)
qed

text \<open>
  The settlement date.  From every trade date that is not within two weeks of the last date the loop
  returns: the settlement date lies exactly as many business days after the trade date as the asset class
  has, at most seven days for each, and is a business day itself unless the class settles at once.
\<close>

theorem settlement_after_business_days:
  assumes "d + 14 \<le> max_ordinal"
  shows "\<exists>s. settlement_date d ac = Some s \<and> d \<le> s \<and> s \<le> d + 7 * settle_days ac \<and>
    int (card {x. d < x \<and> x \<le> s \<and> business_day x}) = settle_days ac \<and> (settle_days ac > 0 \<longrightarrow> business_day s)"
  using assms by (rule settlement_returns)

theorem settlement_after_business_days_witness:
  "\<exists>s. settlement_date (date_of 2026 4 2) ''equity'' = Some s \<and> date_of 2026 4 2 \<le> s \<and> business_day s"
proof -
  have "date_of 2026 4 2 + 14 \<le> max_ordinal" by (simp add: date_of_def days_before_month_def is_leap_def max_ordinal_def)
  from settlement_after_business_days [OF this, of "''equity''"] show ?thesis by (auto simp: settle_days_def SETTLE_DAYS_def lower_def lower_char_def)
qed

subsection \<open>What goes wrong\<close>

text \<open>
  Shares below the last decimal are rounded up together, and the residual that takes it back makes the
  allocation of the first account negative.
\<close>

lemma allocation_may_be_negative:
  "map_option (\<lambda>r. map aa_qty (ar_allocations r))
     (average_price_allocation exact 28 ''BTC'' ''buy'' [\<lparr>bf_qty = 2 / 10 ^ 8, bf_price = 50000\<rparr>]
        [\<lparr>ta_account = ''a'', ta_qty = 1\<rparr>, \<lparr>ta_account = ''b'', ta_qty = 1\<rparr>, \<lparr>ta_account = ''c'', ta_qty = 1\<rparr>, \<lparr>ta_account = ''d'', ta_qty = 1\<rparr>] None)
   = Some [- 1 / 10 ^ 8, 1 / 10 ^ 8, 1 / 10 ^ 8, 1 / 10 ^ 8]"
  by code_simp

text \<open>An account that has two targets has only its last allocation among the obligations: they are not netted.\<close>

lemma second_target_replaces_first:
  "map_option (map (\<lambda>(a, ob). (a, position_delta ob))) (net_settlement exact 28
     [\<lparr>aa_account = ''a'', aa_qty = 60, aa_price = 10, aa_notional = 600\<rparr>, \<lparr>aa_account = ''a'', aa_qty = 40, aa_price = 10, aa_notional = 400\<rparr>] ''buy'')
   = Some [(''a'', 40)]"
  by code_simp

text \<open>Holidays are known for 2026 only: a trade of the last day of that year settles on New Year.\<close>

lemma settles_on_new_year: "settlement_date (date_of 2026 12 31) ''equity'' = Some (date_of 2027 1 1)"
  by code_simp

end
