(* ===== verification/Spec2Isabelle.thy ===== *)
theory Spec2Isabelle
  imports Prelude State_Machines Schema_Versioning Hash_Chain Command_Service Kill_Switch
    Layered_Policy Approval_Manager Py_Text Py_Float Fix_Protocol Fix_Session Fix_Exchange Resilience
    Live_Authorization Live_Mandates Order_Intents Policy_Firewall Hard_Caps Risk_Checker Order_Journal
    Execution_Engine Execution_Safety Degraded_Mode Command_Journal Agent_Daemon Agent_Safety
    Position_Reconciler Run_Controller PnL_Ledger Fill_Handler Child_Executor
    Order_Routing Post_Trade
begin

text \<open>
  \<^bold>\<open>The cloud-controlled execution architecture, verified in its control logic.\<close>

  \<^bold>\<open>The program.\<close>  The platform splits quantitative trading into a cloud that researches
  and asks, and an agent on the user's machine that decides and trades.  The cloud sends one of seven
  command types (\<^verbatim>\<open>ccea/control_plane/commands.py\<close>), after both sides agreed on a schema
  version (\<^verbatim>\<open>ccea/protocol/schema_versioning.py\<close>); deployments and runs move along fixed state
  machines (\<^verbatim>\<open>ccea/models/state_machines.py\<close>).  The agent's daemon
  (\<^verbatim>\<open>packages/agent/daemon/agentd.py\<close>) polls the commands in a heartbeat thread, remembers them in a
  command journal, asks its user before anything that affects trading
  (\<^verbatim>\<open>packages/agent/approval\<close>) and starts, pauses and stops its runs.  A run turns the intents of
  a strategy into orders: the policy firewall, the layered policies, the hard caps, the risk checks
  (\<^verbatim>\<open>packages/agent/policy\<close>) and the price collar of the execution engine
  (\<^verbatim>\<open>packages/agent/execution/engine.py\<close>) stand between an intent and the broker, the order
  journal (\<^verbatim>\<open>packages/agent/reconciliation\<close>) knows an order before the broker does, and the
  reconciler compares both after a restart.  Large orders are cut into slices
  (\<^verbatim>\<open>child_executor.py\<close>) or split over venues (\<^verbatim>\<open>smart_order_router.py\<close>); fills come back through \<^verbatim>\<open>fill_handler.py\<close> into
  the ledger (\<^verbatim>\<open>packages/agent/accounting\<close>).  Orders travel over FIX sessions
  (\<^verbatim>\<open>fix_protocol.py\<close>, \<^verbatim>\<open>fix_session.py\<close>) behind retries and circuit breakers
  (\<^verbatim>\<open>resilience.py\<close>).  The kill switch (\<^verbatim>\<open>kill_switch.py\<close>) halts everything, the
  degraded mode (\<^verbatim>\<open>degraded_mode.py\<close>) restricts it, and hash chains
  (\<^verbatim>\<open>packages/agent/audit/hash_chain.py\<close>) record it.

  \<^bold>\<open>The theories.\<close>
  \<^item> \<open>Prelude\<close>, \<open>Py_Text\<close>, \<open>Py_Float\<close>: Python values, insertion-ordered
    dictionaries, slices, bounded logs, truthiness, results of calls that may raise and still change
    their object; texts and \<^verbatim>\<open>int(s)\<close>; floats with a parameter for the rounding.  The shared
    interfaces: \<open>step_system\<close> (a component with an invariant every call keeps),
    \<open>bounded_log\<close> (what a trimmed log promises), \<open>simulation\<close> (a component that refines a
    specification).
  \<^item> \<open>State_Machines\<close>: \<^verbatim>\<open>StateMachine\<close> with its table, history and idempotency window,
    the tables of deployments and runs and their manager.  The locale \<open>gated_machine\<close> states what
    an approval-gated table guarantees and is interpreted on both real tables.
  \<^item> \<open>Schema_Versioning\<close>: parsing, ordering and negotiation of versions.
  \<^item> \<open>Command_Service\<close>: the record store, the queues, the service and the dispatcher of the
    cloud.  Records are objects in a heap shared by store and queues; the locale \<open>command_store\<close>
    is the abstract class \<^verbatim>\<open>CommandStore\<close>, interpreted on the in-memory store.
  \<^item> \<open>Hash_Chain\<close>: canonical JSON, the chain, its verification.
  \<^item> \<open>Approval_Manager\<close>: requests, decisions, expiry, whitelist, files.
    \<open>Live_Authorization\<close> and \<open>Live_Mandates\<close>: mandates for live trading, their check before
    a rebalance, their audit trail; the store refines a life cycle of mandates.
  \<^item> \<open>Layered_Policy\<close>, \<open>Policy_Firewall\<close>, \<open>Hard_Caps\<close>, \<open>Risk_Checker\<close>: the
    limits, merged so that the cloud can only tighten them, and the checks of an intent.
  \<^item> \<open>Order_Intents\<close>, \<open>Order_Journal\<close>, \<open>Execution_Engine\<close>,
    \<open>Execution_Safety\<close>: from an intent to an order at the broker, with every gate, the journal, its
    audit chain, duplicates, sequence numbers, status reports, cancels and amendments, over restarts.
    \<open>Position_Reconciler\<close>: positions and unresolved orders compared with the broker.
    \<open>Run_Controller\<close>: runs and ticks, on top of the engine and the kill switch.
  \<^item> \<open>Fill_Handler\<close>, \<open>Child_Executor\<close>: what happens to an order at the broker.
    Events and their sources, filled quantities, the orders of the engine moved along; parent orders cut
    into slices, released on a clock, cancelled and replaced.  \<open>PnL_Ledger\<close>: positions, cash and
    profit by average cost or FIFO, marks, financing, closes, recovery from the database; it refines a
    cash book without lots, and is attached to the fill handler as its callback.
  \<^item> \<open>Order_Routing\<close>: the router by rules (\<^verbatim>\<open>router.py\<close>), which refines the
    history of its rules, and the smart order router (\<^verbatim>\<open>smart_order_router.py\<close>) with the live
    path over several venues (\<^verbatim>\<open>live_factory.py\<close>): quotes, costs, the split of an order, the
    orders to the venues.  \<open>Post_Trade\<close>: allocation of a block to accounts, settlement dates,
    obligations (\<^verbatim>\<open>allocation.py\<close>).
  \<^item> \<open>Fix_Protocol\<close>, \<open>Fix_Session\<close>, \<open>Fix_Exchange\<close>: the codec, the session engine
    and two engines that talk to each other.  \<open>Resilience\<close>: retries, circuit breaker, polling.
  \<^item> \<open>Kill_Switch\<close>, \<open>Degraded_Mode\<close>: halts with their events, files and monitors;
    conditions, modes and the action in force, which refines a table of conditions.
  \<^item> \<open>Command_Journal\<close>, \<open>Agent_Daemon\<close>, \<open>Agent_Safety\<close>: the table of received
    commands with the thread its connection belongs to; the life cycle of the daemon and its handling of
    commands on top of kill switch, approval manager and journal.  The locale
    \<open>lifecycle_property\<close> carries what starting, stopping and pausing keep through a whole heartbeat
    and is interpreted on four properties of the daemon.

  \<^bold>\<open>Conventions.\<close>  A class is a record with the source's fields, an enum a datatype, a
  method a function that takes the object and returns the result with the object as the call left
  it.  A call that may raise returns \<open>Inl\<close> of an error or \<open>Inr\<close> of the result, and the
  object also in the first case, since Python does not undo assignments.  Objects that two structures
  share live in a heap, an address is an index.  Readings of the clock, random identifiers, answers of
  the file system, the broker and the cloud are arguments, one for each use.  Python integers are
  \<open>int\<close>, Decimals are the rationals they denote, floats the datatype \<open>pyfloat\<close>; where the
  code rounds (\<open>ctx\<close> for Decimal contexts, \<open>float_ops\<close> for floats) the rounding is a
  parameter.  f-strings keep their template and arguments.  Timestamps count microseconds.  Tables of
  SQLite are lists of rows with their constraints.  Locks are not modelled: each public operation runs
  as a whole, which is what the locks of these classes enforce; where the thread of a call matters
  (\<open>Command_Journal\<close>, \<open>stop\<close> of the daemon) it is an argument.

  \<^bold>\<open>Parameters.\<close>  SHA-256 and HMAC (\<open>digests\<close>, \<open>hasher\<close>) are functions of which
  only the output format is ever assumed: tamper evidence is stated as a reduction to a collision
  between two named records.  The iteration order of a Python set is a permutation.  Pydantic's
  \<^verbatim>\<open>model_dump\<close> is the parameter \<open>dump\<close>.  The texts of floats and of objects rendered
  by \<^verbatim>\<open>default=str\<close> are the parameter \<open>rep\<close>.  Callbacks act on an abstract world; in
  \<open>Agent_Daemon\<close> that world is the state of the daemon itself.

  \<^bold>\<open>What the lemmas show.\<close>  Every component has a well-formedness predicate which the
  fresh object has and every call keeps (interpretations of \<open>step_system\<close>, induction over call
  lists).  On top of it stand the properties: gates (approval before running, acknowledgement before
  resuming, consent before trading changes, every check before the broker), at-most-once execution of
  commands and orders over restarts, delivery and order of messages, expiry, precedence and monotonicity
  of policies, bounds of logs and retries, refinement of abstract life cycles, round trips through files
  and texts, exact characterisations of negotiation, verification and risk checks, reconciliation that
  settles or halts, an accounting identity, positions that follow the fills, orders that are never
  overfilled, splits that neither exceed the order nor could be placed cheaper, blocks that are allocated
  and settled completely.  Where the code does not do what its documentation says, a theorem states what it
  does: a FIX gap fill that stops all later orders, a rate limit that never reopens, a heartbeat thread
  that cannot use the journal of commands, a status of a command that bypasses the approval, a stopped
  daemon that never listens again, a reconciler with which no run ever starts, a restart that forgets a
  halt, a ledger that forgets its financing, partial fills booked at the average price of the order, a
  routed order reported as refused while a part of it is live, negative allocations,
  severities compared as texts.

  \<^bold>\<open>Bounds and termination.\<close>  No definition uses fuel: every loop of the modelled code runs
  over a finite list and is a structural recursion, or a recursion on a size with a termination proof
  (nested values, the extraction of FIX messages from a buffer, which is shown to drain it, the
  count of business days up to the last date).  Two loops depend on the rounding of numbers and are partial
  functions, \<open>None\<close> when they do not end: closing lots in the ledger is shown to end with exact
  arithmetic, splitting an order over venues whenever subtractions make progress.  The
  capacities are the source's: 1000 halt events, 1000 conflicts, the history bound of a machine as its
  argument, 4300 digits for integers in texts, lengths below $2^{63}$ for FIX bodies.  Strings are over
  code points below 256.

  \<^bold>\<open>Not modelled.\<close>  Logging, telemetry and metric back ends; thread interleavings inside an
  operation; a database that fails; preflight checks, sandboxes, artifacts and key chains of the agent
  (calls of the operating system and of cryptographic libraries); network layers and web services; the
  numerical parts (training, simulation, pricing); the desktop and web front ends.  Candidates for
  further work: auto-approval rules, enrollment and heartbeat services of the cloud.
\<close>

end
